(* ===== verification/Prelude.thy ===== *)
theory Prelude
  imports Main "HOL-Library.Word" "HOL-Library.Sublist" "HOL-Library.Multiset"
begin

text \<open>
  Shared vocabulary of the development: result values, machine integers, identifiers and
  time stamps, the comparison results of \<open>std::cmp\<close>, and the operations of Rust's \<open>str\<close>
  that the components use. A Rust string is modelled by its UTF-8 bytes, one \<open>char\<close> per
  byte, so \<open>length\<close> is \<open>str::len\<close> and offsets are byte offsets. Collections of facts:
  \<open>inv_defs\<close> holds the definitions of state invariants, \<open>op_defs\<close> the definitions of
  operations that proofs unfold.
\<close>

named_theorems inv_defs "definitions of state invariants"
named_theorems op_defs "definitions of operations on component states"

section \<open>Results, integers, identifiers, time\<close>

abbreviation Err :: "'e \<Rightarrow> 'e + 'a" where
  "Err \<equiv> Inl"

abbreviation Ok :: "'a \<Rightarrow> 'e + 'a" where
  "Ok \<equiv> Inr"

definition is_ok :: "'e + 'a \<Rightarrow> bool" where
  "is_ok r = (case r of Inl _ \<Rightarrow> False | Inr _ \<Rightarrow> True)"

lemma is_ok_simps [simp]: "is_ok (Ok x)" "\<not> is_ok (Err e)"
  by (simp_all add: is_ok_def)

lemma is_okE:
  assumes "is_ok r"
  obtains x where "r = Ok x"
  using assms by (cases r) (auto simp: is_ok_def)

lemma is_ok_if [simp]: "is_ok (if b then r else r') = (if b then is_ok r else is_ok r')"
  by simp

type_synonym u8 = "8 word"
type_synonym u16 = "16 word"
type_synonym u32 = "32 word"
type_synonym u64 = "64 word"

text \<open>A \<open>Uuid\<close> is an opaque 128-bit value. A \<open>DateTime\<close> is a count of nanoseconds.\<close>

type_synonym uuid = "128 word"
type_synonym time = int

definition nanos_per_sec :: int where
  "nanos_per_sec = 1000000000"

text \<open>\<open>chrono::Duration::num_seconds\<close> truncates towards zero.\<close>

definition num_seconds :: "int \<Rightarrow> int" where
  "num_seconds d = (if 0 \<le> d then d div nanos_per_sec else - ((- d) div nanos_per_sec))"

lemma num_seconds_less_iff:
  assumes "0 < n"
  shows "num_seconds d < n \<longleftrightarrow> d < n * nanos_per_sec"
proof (cases "0 \<le> d")
  case True
  have "d div 1000000000 < n \<longleftrightarrow> d < n * 1000000000"
    by linarith
  with True show ?thesis
    by (simp add: num_seconds_def nanos_per_sec_def)
next
  case False
  have "0 \<le> (- d) div nanos_per_sec"
    using False by (simp add: nanos_per_sec_def pos_imp_zdiv_nonneg_iff)
  moreover have "d < n * nanos_per_sec"
    using False assms by (simp add: nanos_per_sec_def)
  ultimately show ?thesis
    using False assms by (simp add: num_seconds_def)
qed

lemma num_seconds_le_zero:
  assumes "num_seconds d < 0"
  shows "d < 0"
  using assms by (auto simp: num_seconds_def nanos_per_sec_def pos_imp_zdiv_neg_iff split: if_splits)

lemma num_seconds_mono: "a \<le> b \<Longrightarrow> num_seconds a \<le> num_seconds b"
proof -
  assume ab: "a \<le> b"
  consider "0 \<le> a" | "a < 0" "0 \<le> b" | "b < 0" using ab by linarith
  then show ?thesis
  proof cases
    case 1
    then show ?thesis using ab by (simp add: num_seconds_def nanos_per_sec_def zdiv_mono1)
  next
    case 2
    then have "0 \<le> (- a) div nanos_per_sec" "0 \<le> b div nanos_per_sec"
      by (simp_all add: nanos_per_sec_def pos_imp_zdiv_nonneg_iff)
    then show ?thesis using 2 by (simp add: num_seconds_def)
  next
    case 3
    then show ?thesis using ab by (simp add: num_seconds_def nanos_per_sec_def zdiv_mono1)
  qed
qed

text \<open>The results of \<open>Ord::cmp\<close> and \<open>Ordering::then_with\<close>.\<close>

datatype ordering = Lt | Eq | Gt

definition cmp_on :: "'a::linorder \<Rightarrow> 'a \<Rightarrow> ordering" where
  "cmp_on a b = (if a < b then Lt else if a = b then Eq else Gt)"

fun then_with :: "ordering \<Rightarrow> ordering \<Rightarrow> ordering" where
  "then_with Eq o2 = o2"
| "then_with o1 _ = o1"

lemma cmp_on_simps [simp]:
  "cmp_on a b = Lt \<longleftrightarrow> a < b" "cmp_on a b = Eq \<longleftrightarrow> a = b" "cmp_on a b = Gt \<longleftrightarrow> b < a"
  by (auto simp: cmp_on_def)

lemma then_with_Gt [simp]: "then_with a b = Gt \<longleftrightarrow> a = Gt \<or> a = Eq \<and> b = Gt"
  by (cases a) auto

lemma then_with_Lt [simp]: "then_with a b = Lt \<longleftrightarrow> a = Lt \<or> a = Eq \<and> b = Lt"
  by (cases a) auto

section \<open>Strings\<close>

text \<open>\<open>str::starts_with\<close>, \<open>str::ends_with\<close>, \<open>str::strip_prefix\<close>.\<close>

definition starts_with :: "string \<Rightarrow> string \<Rightarrow> bool" where
  "starts_with s p = (take (length p) s = p)"

definition ends_with :: "string \<Rightarrow> string \<Rightarrow> bool" where
  "ends_with s p = (length p \<le> length s \<and> drop (length s - length p) s = p)"

definition strip_prefix :: "string \<Rightarrow> string \<Rightarrow> string option" where
  "strip_prefix s p = (if starts_with s p then Some (drop (length p) s) else None)"

lemma starts_with_prefix: "starts_with s p \<longleftrightarrow> prefix p s"
  by (metis append_eq_conv_conj append_take_drop_id prefix_def starts_with_def)

lemma ends_with_suffix: "ends_with s p \<longleftrightarrow> suffix p s"
proof
  assume "ends_with s p"
  then show "suffix p s"
    by (metis ends_with_def suffix_drop)
next
  assume "suffix p s"
  then obtain z where "s = z @ p" by (auto simp: suffix_def)
  then show "ends_with s p" by (simp add: ends_with_def)
qed

lemma strip_prefix_Some: "strip_prefix s p = Some t \<longleftrightarrow> s = p @ t"
  by (auto simp: strip_prefix_def starts_with_prefix prefix_def)

text \<open>
  \<open>str::find\<close> with a string pattern: the byte offset of the first match. An empty pattern
  matches at offset 0.
\<close>

fun str_find :: "string \<Rightarrow> string \<Rightarrow> nat option" where
  "str_find s p =
     (if starts_with s p then Some 0
      else case s of [] \<Rightarrow> None | _ # s' \<Rightarrow> map_option Suc (str_find s' p))"

declare str_find.simps [simp del]

definition str_contains :: "string \<Rightarrow> string \<Rightarrow> bool" where
  "str_contains s p = (str_find s p \<noteq> None)"

lemma str_find_Some:
  "str_find s p = Some i \<Longrightarrow> i + length p \<le> length s \<and> take (length p) (drop i s) = p"
proof (induction s arbitrary: i)
  case Nil
  then show ?case
    by (subst (asm) str_find.simps) (auto simp: starts_with_def split: if_splits)
next
  case (Cons c s)
  show ?case
  proof (cases "starts_with (c # s) p")
    case True
    then have "prefix p (c # s)" by (simp add: starts_with_prefix)
    then have "length p \<le> length (c # s)" by (rule prefix_length_le)
    with True Cons.prems show ?thesis
      by (subst (asm) str_find.simps) (auto simp: starts_with_def)
  next
    case False
    with Cons.prems obtain j where "str_find s p = Some j" "i = Suc j"
      by (subst (asm) str_find.simps) auto
    with Cons.IH show ?thesis by auto
  qed
qed

lemma str_find_None: "str_find s p = None \<longleftrightarrow> \<not> sublist p s"
proof (induction s)
  case Nil
  show ?case by (subst str_find.simps) (auto simp: starts_with_def)
next
  case (Cons c s)
  show ?case
    by (subst str_find.simps)
       (auto simp: starts_with_prefix sublist_Cons_right Cons.IH[symmetric])
qed

lemma str_contains_sublist: "str_contains s p \<longleftrightarrow> sublist p s"
  by (simp add: str_contains_def str_find_None)

lemma str_contains_appendI1: "str_contains s p \<Longrightarrow> str_contains (s @ t) p"
  by (auto simp: str_contains_sublist sublist_append)

lemma str_contains_appendI2: "str_contains t p \<Longrightarrow> str_contains (s @ t) p"
  by (auto simp: str_contains_sublist sublist_append)

text \<open>
  \<open>str::trim\<close> removes the characters with the Unicode property White_Space. Their UTF-8
  encodings are listed; in valid UTF-8 no encoding of a character overlaps another, so a
  prefix or suffix that matches a listed encoding is such a character.
\<close>

definition ws_encodings :: "string list" where
  "ws_encodings =
     map (\<lambda>n. [char_of n]) ([9, 10, 11, 12, 13, 32] :: nat list)
     @ map (map char_of)
         ([[0xC2, 0x85], [0xC2, 0xA0], [0xE1, 0x9A, 0x80],
           [0xE2, 0x80, 0x80], [0xE2, 0x80, 0x81], [0xE2, 0x80, 0x82], [0xE2, 0x80, 0x83],
           [0xE2, 0x80, 0x84], [0xE2, 0x80, 0x85], [0xE2, 0x80, 0x86], [0xE2, 0x80, 0x87],
           [0xE2, 0x80, 0x88], [0xE2, 0x80, 0x89], [0xE2, 0x80, 0x8A],
           [0xE2, 0x80, 0xA8], [0xE2, 0x80, 0xA9], [0xE2, 0x80, 0xAF],
           [0xE2, 0x81, 0x9F], [0xE3, 0x80, 0x80]] :: nat list list)"

fun trim_start_with :: "string list \<Rightarrow> string \<Rightarrow> string" where
  "trim_start_with ws s =
     (case find (\<lambda>w. w \<noteq> [] \<and> starts_with s w) ws of
        None \<Rightarrow> s
      | Some w \<Rightarrow> if s = [] then [] else trim_start_with ws (drop (max 1 (length w)) s))"

declare trim_start_with.simps [simp del]

definition trim_start :: "string \<Rightarrow> string" where
  "trim_start s = trim_start_with ws_encodings s"

definition trim_end :: "string \<Rightarrow> string" where
  "trim_end s = rev (trim_start_with (map rev ws_encodings) (rev s))"

definition str_trim :: "string \<Rightarrow> string" where
  "str_trim s = trim_end (trim_start s)"

lemma trim_start_with_suffix: "suffix (trim_start_with ws s) s"
proof (induction ws s rule: trim_start_with.induct)
  case (1 ws s)
  show ?case
  proof (cases "find (\<lambda>w. w \<noteq> [] \<and> starts_with s w) ws")
    case None
    then show ?thesis by (subst trim_start_with.simps) simp
  next
    case (Some w)
    show ?thesis
    proof (cases "s = []")
      case True
      then show ?thesis by (subst trim_start_with.simps) (auto split: option.splits)
    next
      case False
      from 1[OF Some False] have "suffix (trim_start_with ws (drop (max 1 (length w)) s)) s"
        using suffix_drop suffix_order.order_trans by blast
      with Some False show ?thesis by (subst trim_start_with.simps) simp
    qed
  qed
qed

lemma trim_start_with_plain:
  assumes "c \<notin> hd ` set ws"
  shows "trim_start_with ws (c # s) = c # s"
proof -
  have "\<not> (w \<noteq> [] \<and> starts_with (c # s) w)" if "w \<in> set ws" for w
  proof
    assume w: "w \<noteq> [] \<and> starts_with (c # s) w"
    then have "hd w = c" by (cases w) (auto simp: starts_with_def)
    with that assms show False by force
  qed
  then have "find (\<lambda>w. w \<noteq> [] \<and> starts_with (c # s) w) ws = None"
    by (simp add: find_None_iff)
  then show ?thesis by (simp add: trim_start_with.simps)
qed

lemma length_str_trim_le: "length (str_trim s) \<le> length s"
proof -
  have "length (trim_start_with ws t) \<le> length t" for ws t
    using trim_start_with_suffix by (rule suffix_length_le)
  then show ?thesis
    unfolding str_trim_def trim_end_def trim_start_def
    by (metis le_trans length_rev)
qed

lemma str_trim_Nil [simp]: "str_trim [] = []"
  using length_str_trim_le[of "[]"] by simp

text \<open>A string that begins and ends with a printable ASCII character is trimmed already.\<close>

definition is_ascii_graphic :: "char \<Rightarrow> bool" where
  "is_ascii_graphic c = (let n = of_char c :: nat in 33 \<le> n \<and> n \<le> 126)"

lemma graphic_not_white:
  assumes "is_ascii_graphic c"
  shows "c \<notin> hd ` set ws_encodings" "c \<notin> hd ` set (map rev ws_encodings)"
proof -
  have "list_all (\<lambda>w. \<not> is_ascii_graphic (hd w) \<and> \<not> is_ascii_graphic (hd (rev w))) ws_encodings"
    by (simp add: ws_encodings_def is_ascii_graphic_def)
  with assms show "c \<notin> hd ` set ws_encodings" "c \<notin> hd ` set (map rev ws_encodings)"
    by (auto simp: list_all_iff)

qed

lemma str_trim_graphic:
  assumes "s \<noteq> []" "is_ascii_graphic (hd s)" "is_ascii_graphic (last s)"
  shows "str_trim s = s"
proof -
  obtain c t where c: "s = c # t" using assms(1) by (cases s) auto
  obtain d u where d: "rev s = d # u" using assms(1) by (cases "rev s") auto
  then have "d = last s" by (metis hd_rev list.sel(1))
  with assms(3) d have "trim_end s = s"
    by (metis trim_end_def trim_start_with_plain graphic_not_white(2) rev_rev_ident)
  moreover have "trim_start s = s"
    using assms(2) c by (simp add: trim_start_def trim_start_with_plain graphic_not_white(1))
  ultimately show ?thesis by (simp add: str_trim_def)
qed

text \<open>
  ASCII case folding (\<open>to_ascii_lowercase\<close>). Unicode \<open>to_lowercase\<close> is modelled on the
  characters whose lower-case form contains an ASCII character: ASCII itself, U+0130 (to
  \<open>i\<close> and U+0307) and U+212A (to \<open>k\<close>). Other characters stay as they are, which a test
  for an ASCII pattern cannot observe.
\<close>

definition ascii_lower_char :: "char \<Rightarrow> char" where
  "ascii_lower_char c =
     (let n = of_char c :: nat in if 65 \<le> n \<and> n \<le> 90 then char_of (n + 32) else c)"

definition to_ascii_lowercase :: "string \<Rightarrow> string" where
  "to_ascii_lowercase = map ascii_lower_char"

definition kelvin_sign :: string where
  "kelvin_sign = map char_of [0xE2, 0x84, 0xAA :: nat]"

definition capital_i_dot :: string where
  "capital_i_dot = map char_of [0xC4, 0xB0 :: nat]"

fun to_lowercase :: "string \<Rightarrow> string" where
  "to_lowercase s =
     (case s of [] \<Rightarrow> []
      | c # s' \<Rightarrow>
          if starts_with s kelvin_sign then CHR ''k'' # to_lowercase (drop 2 s')
          else if starts_with s capital_i_dot
          then CHR ''i'' # char_of (0xCC :: nat) # char_of (0x87 :: nat) # to_lowercase (drop 1 s')
          else ascii_lower_char c # to_lowercase s')"

declare to_lowercase.simps [simp del]

definition is_ascii_alphanumeric :: "char \<Rightarrow> bool" where
  "is_ascii_alphanumeric c =
     (let n = of_char c :: nat in
        48 \<le> n \<and> n \<le> 57 \<or> 65 \<le> n \<and> n \<le> 90 \<or> 97 \<le> n \<and> n \<le> 122)"

text \<open>\<open>[T]::join\<close> and \<open>format!\<close> of a natural number.\<close>

fun str_join :: "string \<Rightarrow> string list \<Rightarrow> string" where
  "str_join sep [] = []"
| "str_join sep [x] = x"
| "str_join sep (x # y # xs) = x @ sep @ str_join sep (y # xs)"

fun nat_str :: "nat \<Rightarrow> string" where
  "nat_str n =
     (if n < 10 then [char_of (48 + n)] else nat_str (n div 10) @ [char_of (48 + n mod 10)])"

declare nat_str.simps [simp del]

text \<open>
  \<open>str::replace\<close>: every non-overlapping occurrence, from the left, of a non-empty pattern.
\<close>

fun str_replace :: "string \<Rightarrow> string \<Rightarrow> string \<Rightarrow> string" where
  "str_replace p r s =
     (case s of [] \<Rightarrow> []
      | c # s' \<Rightarrow>
          if p \<noteq> [] \<and> starts_with s p then r @ str_replace p r (drop (length p - 1) s')
          else c # str_replace p r s')"

declare str_replace.simps [simp del]

lemma str_replace_absent: "\<not> sublist p s \<Longrightarrow> str_replace p r s = s"
proof (induction s)
  case Nil
  show ?case by (subst str_replace.simps) simp
next
  case (Cons c s)
  from Cons.prems have "\<not> starts_with (c # s) p" "\<not> sublist p s"
    by (auto simp: starts_with_prefix sublist_Cons_right)
  with Cons.IH show ?case by (subst str_replace.simps) simp
qed

text \<open>\<open>str::split\<close> on a character and \<open>str::lines\<close>: a line ends at a line feed, and a
  carriage return before the line feed is dropped.\<close>

fun split_on :: "char \<Rightarrow> string \<Rightarrow> string list" where
  "split_on c [] = [[]]"
| "split_on c (x # xs) =
     (if x = c then [] # split_on c xs
      else case split_on c xs of [] \<Rightarrow> [[x]] | p # ps \<Rightarrow> (x # p) # ps)"

definition strip_cr :: "string \<Rightarrow> string" where
  "strip_cr l = (if l \<noteq> [] \<and> last l = CHR 0x0D then butlast l else l)"

definition str_lines :: "string \<Rightarrow> string list" where
  "str_lines s =
     (let ps = split_on CHR 0x0A s
      in map strip_cr (butlast ps) @ (if last ps = [] then [] else [last ps]))"

lemma split_on_nonempty [simp]: "split_on c s \<noteq> []"
  by (induction s) (auto split: list.splits)

lemma split_on_line: "c \<notin> set l \<Longrightarrow> split_on c (l @ c # s) = l # split_on c s"
  by (induction l) auto

lemma split_on_end: "c \<notin> set l \<Longrightarrow> split_on c l = [l]"
  by (induction l) auto

lemma str_lines_line:
  assumes "CHR 0x0A \<notin> set l"
  shows "str_lines (l @ CHR 0x0A # s) = strip_cr l # str_lines s"
  using assms by (simp add: str_lines_def split_on_line Let_def)

lemma str_lines_Nil [simp]: "str_lines [] = []"
  by (simp add: str_lines_def)

lemma strip_cr_id [simp]: "CHR 0x0D \<notin> set l \<Longrightarrow> strip_cr l = l"
  by (metis last_in_set strip_cr_def)

lemma to_lowercase_Cons:
  "\<not> starts_with (c # s) kelvin_sign \<Longrightarrow> \<not> starts_with (c # s) capital_i_dot \<Longrightarrow>
     to_lowercase (c # s) = ascii_lower_char c # to_lowercase s"
  by (subst to_lowercase.simps) simp

lemma to_lowercase_Nil [simp]: "to_lowercase [] = []"
  by (subst to_lowercase.simps) simp

lemma starts_with_Cons: "starts_with s (d # p) \<longleftrightarrow> (\<exists>s'. s = d # s' \<and> starts_with s' p)"
  by (cases s) (auto simp: starts_with_def)

lemma to_lowercase_plain:
  assumes "(of_char b :: nat) \<notin> {226, 196}"
  shows "to_lowercase (b # t) = ascii_lower_char b # to_lowercase t"
proof (rule to_lowercase_Cons)
  show "\<not> starts_with (b # t) kelvin_sign" "\<not> starts_with (b # t) capital_i_dot"
    using assms by (auto simp: kelvin_sign_def capital_i_dot_def starts_with_Cons)
qed

section \<open>Lists and maps\<close>

lemma sorted_wrt_snocI:
  "sorted_wrt R xs \<Longrightarrow> (\<And>y. y \<in> set xs \<Longrightarrow> R y x) \<Longrightarrow> sorted_wrt R (xs @ [x])"
  by (simp add: sorted_wrt_append)

lemma sorted_wrt_remove1: "sorted_wrt R xs \<Longrightarrow> sorted_wrt R (remove1 x xs)"
proof (induction xs)
  case (Cons y ys)
  then show ?case by (auto dest: notin_set_remove1[THEN contrapos_pn] in_set_remove1[THEN iffD1] set_remove1_subset[THEN subsetD])
qed simp

end
