(* ===== verification/Codec.thy ===== *)
theory Codec
  imports Prelude
begin

text \<open>
  The contract between the \<open>Display\<close> and \<open>FromStr\<close> implementations of the status enums.
  They are the database encoding: a row stores \<open>x.to_string()\<close> and the reader calls
  \<open>parse()\<close>. \<open>enum_codec\<close> promises that a written value is read back; \<open>canonical_codec\<close>
  adds that nothing but the written form is accepted. Each enum of the program interprets
  one of the two on its own printer and parser.
\<close>

locale enum_codec =
  fixes show_enum :: "'a \<Rightarrow> string"
    and parse_enum :: "string \<Rightarrow> 'e + 'a"
  assumes parse_show: "parse_enum (show_enum x) = Ok x"
begin

lemma show_inj: "show_enum x = show_enum y \<longleftrightarrow> x = y"
  by (metis parse_show sum.inject(2))

lemma reparse_stable:
  assumes "parse_enum s = Ok x"
  shows "parse_enum (show_enum x) = parse_enum s"
  using assms by (simp add: parse_show)

lemma column_roundtrip: "map (parse_enum \<circ> show_enum) xs = map Ok xs"
  by (simp add: parse_show)

lemma parse_onto: "\<exists>s. parse_enum s = Ok x"
  using parse_show by blast

end

locale canonical_codec = enum_codec show_enum parse_enum
  for show_enum :: "'a \<Rightarrow> string" and parse_enum :: "string \<Rightarrow> 'e + 'a" +
  assumes parse_canonical: "parse_enum s = Ok x \<Longrightarrow> s = show_enum x"
begin

lemma parse_iff: "parse_enum s = Ok x \<longleftrightarrow> s = show_enum x"
  using parse_canonical parse_show by blast

lemma rejects_iff: "\<not> is_ok (parse_enum s) \<longleftrightarrow> s \<notin> range show_enum"
proof
  assume "\<not> is_ok (parse_enum s)"
  then show "s \<notin> range show_enum"
    by (auto simp: parse_show)
next
  assume "s \<notin> range show_enum"
  then show "\<not> is_ok (parse_enum s)"
    by (auto elim!: is_okE dest: parse_canonical)
qed

end

end
