(* ===== verification/Task.thy ===== *)
theory Task
  imports Codec
begin

text \<open>
  \<open>crates/pnevma-core/src/task.rs\<close>: priorities, task statuses and lease statuses with
  their string forms, the task contract, the transition table that guards every status
  change, and the refresh of the blocked status from the completed dependencies. The
  nested context pack of a contract is the type parameter \<open>'p\<close> of the record: the
  functions of this file never look inside it.
\<close>

section \<open>Enums and their string forms\<close>

datatype priority = P0 | P1 | P2 | P3

datatype task_status =
    Planned | Ready | Dispatching | InProgress | Review | Done | Failed | Blocked | Looped

datatype lease_status = LeaseActive | LeaseReleased | LeaseExpired

fun priority_str :: "priority \<Rightarrow> string" where
  "priority_str P0 = ''P0''"
| "priority_str P1 = ''P1''"
| "priority_str P2 = ''P2''"
| "priority_str P3 = ''P3''"

definition priority_from_str :: "string \<Rightarrow> string + priority" where
  "priority_from_str s =
     (if s = ''P0'' then Ok P0
      else if s = ''P1'' then Ok P1
      else if s = ''P2'' then Ok P2
      else if s = ''P3'' then Ok P3
      else Err (''unknown priority: '' @ s))"

fun task_status_str :: "task_status \<Rightarrow> string" where
  "task_status_str Planned = ''Planned''"
| "task_status_str Ready = ''Ready''"
| "task_status_str Dispatching = ''Dispatching''"
| "task_status_str InProgress = ''InProgress''"
| "task_status_str Review = ''Review''"
| "task_status_str Done = ''Done''"
| "task_status_str Failed = ''Failed''"
| "task_status_str Blocked = ''Blocked''"
| "task_status_str Looped = ''Looped''"

definition task_status_from_str :: "string \<Rightarrow> string + task_status" where
  "task_status_from_str s =
     (if s = ''Planned'' then Ok Planned
      else if s = ''Ready'' then Ok Ready
      else if s = ''Dispatching'' then Ok Dispatching
      else if s = ''InProgress'' then Ok InProgress
      else if s = ''Review'' then Ok Review
      else if s = ''Done'' then Ok Done
      else if s = ''Failed'' then Ok Failed
      else if s = ''Blocked'' then Ok Blocked
      else if s = ''Looped'' then Ok Looped
      else Err (''unknown task status: '' @ s))"

fun lease_status_str :: "lease_status \<Rightarrow> string" where
  "lease_status_str LeaseActive = ''Active''"
| "lease_status_str LeaseReleased = ''Released''"
| "lease_status_str LeaseExpired = ''Expired''"

definition lease_status_from_str :: "string \<Rightarrow> string + lease_status" where
  "lease_status_from_str s =
     (if s = ''Active'' \<or> s = ''active'' then Ok LeaseActive
      else if s = ''Released'' \<or> s = ''released'' then Ok LeaseReleased
      else if s = ''Expired'' \<or> s = ''expired'' then Ok LeaseExpired
      else Err (''unknown lease status: '' @ s))"

interpretation priority_codec: canonical_codec priority_str priority_from_str
proof unfold_locales
  show "priority_from_str (priority_str x) = Ok x" for x
    by (cases x) (simp_all add: priority_from_str_def)
  show "s = priority_str x" if "priority_from_str s = Ok x" for s x
    using that by (auto simp: priority_from_str_def split: if_splits)
qed

interpretation status_codec: canonical_codec task_status_str task_status_from_str
proof unfold_locales
  show "task_status_from_str (task_status_str x) = Ok x" for x
    by (cases x) (simp_all add: task_status_from_str_def)
  show "s = task_status_str x" if "task_status_from_str s = Ok x" for s x
    using that by (auto simp: task_status_from_str_def split: if_splits)
qed

interpretation lease_codec: enum_codec lease_status_str lease_status_from_str
proof unfold_locales
  show "lease_status_from_str (lease_status_str x) = Ok x" for x
    by (cases x) (simp_all add: lease_status_from_str_def)
qed

section \<open>The task contract\<close>

datatype execution_mode = Worktree | MainMode

datatype check_type = TestCommand | FileExists | ManualApproval

record check =
  description :: string
  check_type :: check_type
  command :: "string option"

record task_external_source =
  ext_kind :: string
  external_id :: string
  ext_identifier :: string
  url :: string
  ext_state :: string

record 'p task_contract =
  task_uuid :: uuid
  title :: string
  goal :: string
  scope :: "string list"
  out_of_scope :: "string list"
  dependencies :: "uuid list"
  acceptance_criteria :: "check list"
  constraints :: "string list"
  priority :: priority
  status :: task_status
  assigned_session :: "uuid option"
  branch :: "string option"
  worktree :: "string option"
  prompt_pack :: "'p option"
  handoff_summary :: "string option"
  auto_dispatch :: bool
  agent_profile_override :: "string option"
  execution_mode :: "execution_mode option"
  timeout_minutes :: "u32 option"
  max_retries :: "int option"
  loop_iteration :: u32
  loop_context_json :: "string option"
  external_source :: "task_external_source option"
  created_at :: time
  updated_at :: time

datatype core_error =
    CoreIo string
  | Serialization string
  | InvalidConfig string
  | CoreInvalidTransition string

datatype transition_error = InvalidTransition task_status task_status

definition validate_new :: "'p task_contract \<Rightarrow> core_error + unit" where
  "validate_new t =
     (if str_trim (title t) = [] then Err (InvalidConfig ''title must not be empty'')
      else if str_trim (goal t) = [] then Err (InvalidConfig ''goal must not be empty'')
      else Ok ())"

definition valid_transition :: "task_status \<Rightarrow> task_status \<Rightarrow> bool" where
  "valid_transition from to =
     ((from, to) \<in> set
       [(Planned, Ready), (Ready, Planned), (Ready, Dispatching), (Dispatching, InProgress),
        (Dispatching, Ready), (Dispatching, Failed), (Ready, InProgress), (InProgress, Review),
        (Review, Done), (Ready, Failed), (InProgress, Failed), (Review, Failed),
        (Planned, Blocked), (Ready, Blocked), (Blocked, Planned), (Failed, Looped),
        (Done, Looped), (Looped, Planned)])"

definition transition ::
  "'p task_contract \<Rightarrow> task_status \<Rightarrow> time \<Rightarrow> transition_error + 'p task_contract" where
  "transition t to now =
     (if \<not> valid_transition (status t) to then Err (InvalidTransition (status t) to)
      else Ok (t\<lparr>status := to, updated_at := now\<rparr>))"

definition unmet_dependencies :: "'p task_contract \<Rightarrow> uuid set \<Rightarrow> bool" where
  "unmet_dependencies t completed = list_ex (\<lambda>dep. dep \<notin> completed) (dependencies t)"

text \<open>A refused transition is logged and leaves the task as it was.\<close>

definition refresh_blocked_status ::
  "'p task_contract \<Rightarrow> uuid set \<Rightarrow> time \<Rightarrow> 'p task_contract" where
  "refresh_blocked_status t completed now =
     (let unmet = unmet_dependencies t completed in
        if unmet \<and> status t \<noteq> Blocked then
          (case transition t Blocked now of Inl _ \<Rightarrow> t | Inr t' \<Rightarrow> t')
        else if \<not> unmet \<and> status t = Blocked then
          (case transition t Planned now of Inl _ \<Rightarrow> t | Inr t' \<Rightarrow> t')
        else t)"

section \<open>Single steps\<close>

lemma valid_transition_simps [simp]:
  "valid_transition Planned s \<longleftrightarrow> s = Ready \<or> s = Blocked"
  "valid_transition Ready s \<longleftrightarrow>
     s = Planned \<or> s = Dispatching \<or> s = InProgress \<or> s = Failed \<or> s = Blocked"
  "valid_transition Dispatching s \<longleftrightarrow> s = InProgress \<or> s = Ready \<or> s = Failed"
  "valid_transition InProgress s \<longleftrightarrow> s = Review \<or> s = Failed"
  "valid_transition Review s \<longleftrightarrow> s = Done \<or> s = Failed"
  "valid_transition Done s \<longleftrightarrow> s = Looped"
  "valid_transition Failed s \<longleftrightarrow> s = Looped"
  "valid_transition Blocked s \<longleftrightarrow> s = Planned"
  "valid_transition Looped s \<longleftrightarrow> s = Planned"
  by (cases s; simp add: valid_transition_def)+

lemma transition_OkD:
  assumes "transition t to now = Ok t'"
  shows "valid_transition (status t) to" and "t' = t\<lparr>status := to, updated_at := now\<rparr>"
  using assms by (auto simp: transition_def split: if_splits)

lemma transition_Ok_iff:
  "transition t to now = Ok t' \<longleftrightarrow>
     valid_transition (status t) to \<and> t' = t\<lparr>status := to, updated_at := now\<rparr>"
  by (auto simp: transition_def)

lemma valid_transition_to:
  "valid_transition s Done \<longleftrightarrow> s = Review"
  "valid_transition s Review \<longleftrightarrow> s = InProgress"
  "valid_transition s Blocked \<longleftrightarrow> s = Planned \<or> s = Ready"
  by (cases s; simp)+

lemma refresh_eq:
  "refresh_blocked_status t completed now =
     (if unmet_dependencies t completed \<and> (status t = Planned \<or> status t = Ready)
      then t\<lparr>status := Blocked, updated_at := now\<rparr>
      else if \<not> unmet_dependencies t completed \<and> status t = Blocked
      then t\<lparr>status := Planned, updated_at := now\<rparr>
      else t)"
  by (auto simp: refresh_blocked_status_def transition_def Let_def valid_transition_to)

lemma unmet_dependencies_update [simp]:
  "unmet_dependencies (t\<lparr>status := s, updated_at := n\<rparr>) c = unmet_dependencies t c"
  by (simp add: unmet_dependencies_def)

section \<open>Histories of a task\<close>

text \<open>
  A task changes its status only by \<open>transition\<close> and \<open>refresh_blocked_status\<close>. A history
  lists the versions of one task, newest first.
\<close>

inductive task_step :: "'p task_contract \<Rightarrow> 'p task_contract \<Rightarrow> bool" where
  by_transition: "transition t to now = Ok t' \<Longrightarrow> task_step t t'"
| by_refresh: "task_step t (refresh_blocked_status t completed now)"

inductive task_history :: "'p task_contract \<Rightarrow> 'p task_contract list \<Rightarrow> bool" for t0 where
  created: "task_history t0 [t0]"
| stepped: "task_history t0 (t # h) \<Longrightarrow> task_step t t' \<Longrightarrow> task_history t0 (t' # t # h)"

inductive_cases task_stepE: "task_step t t'"

lemma task_step_status:
  assumes "task_step t t'"
  shows "status t' = status t \<or> valid_transition (status t) (status t')"
  using assms
  by (cases rule: task_step.cases) (auto simp: transition_Ok_iff refresh_eq)

lemma task_step_frame:
  assumes "task_step t t'"
  shows "t' = t\<lparr>status := status t', updated_at := updated_at t'\<rparr>"
  using assms
  by (cases rule: task_step.cases) (auto simp: transition_Ok_iff refresh_eq)

lemma history_milestones:
  assumes "task_history t0 h" and "status t0 \<notin> {Review, Done}"
  shows "case h of [] \<Rightarrow> False
         | t # h' \<Rightarrow>
             (status t = InProgress \<longrightarrow> subseq [InProgress] (rev (map status h)))
             \<and> (status t = Review \<longrightarrow> subseq [InProgress, Review] (rev (map status h)))
             \<and> (status t = Done \<longrightarrow> subseq [InProgress, Review, Done] (rev (map status h)))"
  using assms
proof (induction rule: task_history.induct)
  case created
  then show ?case by auto
next
  case (stepped t h t')
  let ?seen = "rev (map status (t # h))"
  have extend: "subseq (xs @ [s]) (?seen @ [s])" if "subseq xs ?seen" for xs s
    using that by (rule list_emb_append_mono) simp
  have keep: "subseq xs (?seen @ [s])" if "subseq xs ?seen" for xs s
    using that by (rule list_emb_prefix)
  from stepped.IH[OF stepped.prems]
  have IH: "status t = InProgress \<Longrightarrow> subseq [InProgress] ?seen"
      "status t = Review \<Longrightarrow> subseq [InProgress, Review] ?seen"
      "status t = Done \<Longrightarrow> subseq [InProgress, Review, Done] ?seen"
    by simp_all
  from task_step_status[OF stepped.hyps(2)] show ?case
  proof
    assume "status t' = status t"
    with IH keep show ?thesis by auto
  next
    assume v: "valid_transition (status t) (status t')"
    show ?thesis
      using v IH extend[of "[]"] extend[of "[InProgress]"] extend[of "[InProgress, Review]"]
      by (auto simp: valid_transition_to)
  qed
qed

text \<open>Running a list of requested transitions, stopping at the first refusal.\<close>

fun run_transitions ::
  "'p task_contract \<Rightarrow> task_status list \<Rightarrow> time \<Rightarrow> transition_error + 'p task_contract" where
  "run_transitions t [] now = Ok t"
| "run_transitions t (s # ss) now =
     (case transition t s now of Inl e \<Rightarrow> Err e | Inr t' \<Rightarrow> run_transitions t' ss now)"

fun valid_path :: "task_status \<Rightarrow> task_status list \<Rightarrow> bool" where
  "valid_path s [] = True"
| "valid_path s (s' # ss) = (valid_transition s s' \<and> valid_path s' ss)"

lemma run_transitions_valid_path:
  "valid_path (status t) ss \<Longrightarrow>
     \<exists>t'. run_transitions t ss now = Ok t' \<and> status t' = last (status t # ss)"
proof (induction ss arbitrary: t)
  case (Cons s ss)
  then have "transition t s now = Ok (t\<lparr>status := s, updated_at := now\<rparr>)"
    by (simp add: transition_Ok_iff)
  with Cons.IH[of "t\<lparr>status := s, updated_at := now\<rparr>"] Cons.prems show ?case
    by auto
qed simp

fun route_to_planned :: "task_status \<Rightarrow> task_status list" where
  "route_to_planned Planned = []"
| "route_to_planned Ready = [Planned]"
| "route_to_planned Dispatching = [Ready, Planned]"
| "route_to_planned InProgress = [Failed, Looped, Planned]"
| "route_to_planned Review = [Failed, Looped, Planned]"
| "route_to_planned Done = [Looped, Planned]"
| "route_to_planned Failed = [Looped, Planned]"
| "route_to_planned Blocked = [Planned]"
| "route_to_planned Looped = [Planned]"

fun route_from_planned :: "task_status \<Rightarrow> task_status list" where
  "route_from_planned Planned = []"
| "route_from_planned Ready = [Ready]"
| "route_from_planned Dispatching = [Ready, Dispatching]"
| "route_from_planned InProgress = [Ready, InProgress]"
| "route_from_planned Review = [Ready, InProgress, Review]"
| "route_from_planned Done = [Ready, InProgress, Review, Done]"
| "route_from_planned Failed = [Ready, Failed]"
| "route_from_planned Blocked = [Blocked]"
| "route_from_planned Looped = [Ready, Failed, Looped]"

lemma valid_path_append:
  "valid_path s (xs @ ys) \<longleftrightarrow> valid_path s xs \<and> valid_path (last (s # xs)) ys"
  by (induction xs arbitrary: s) auto

lemma route_between:
  "valid_path s (route_to_planned s @ route_from_planned s')
   \<and> last (s # route_to_planned s @ route_from_planned s') = s'"
  by (cases s; cases s') (simp_all add: valid_path_append)

section \<open>Properties\<close>


definition sample_task :: "unit task_contract" where
  "sample_task =
     \<lparr>task_uuid = 1, title = ''Example'', goal = ''Do a thing'', scope = [], out_of_scope = [],
      dependencies = [7], acceptance_criteria = [], constraints = [], priority = P1,
      status = Planned, assigned_session = None, branch = None, worktree = None,
      prompt_pack = None, handoff_summary = None, auto_dispatch = False,
      agent_profile_override = None, execution_mode = None, timeout_minutes = None,
      max_retries = None, loop_iteration = 0, loop_context_json = None,
      external_source = None, created_at = 0, updated_at = 0\<rparr>"

lemma sample_history:
  "task_history sample_task
     [sample_task\<lparr>status := Done, updated_at := 4\<rparr>, sample_task\<lparr>status := Review, updated_at := 3\<rparr>,
      sample_task\<lparr>status := InProgress, updated_at := 2\<rparr>,
      sample_task\<lparr>status := Ready, updated_at := 1\<rparr>, sample_task]"
proof -
  have step: "task_step t (t\<lparr>status := s, updated_at := n\<rparr>)"
    if "valid_transition (status t) s" for t :: "unit task_contract" and s n
    using that by (auto intro!: by_transition[where to = s and now = n] simp: transition_Ok_iff)
  have "task_step sample_task (sample_task\<lparr>status := Ready, updated_at := 1\<rparr>)"
    by (rule step) (simp add: sample_task_def)
  moreover have "task_step (sample_task\<lparr>status := Ready, updated_at := 1\<rparr>)
      (sample_task\<lparr>status := InProgress, updated_at := 2\<rparr>)"
    using step[of "sample_task\<lparr>status := Ready, updated_at := 1\<rparr>" InProgress 2] by simp
  moreover have "task_step (sample_task\<lparr>status := InProgress, updated_at := 2\<rparr>)
      (sample_task\<lparr>status := Review, updated_at := 3\<rparr>)"
    using step[of "sample_task\<lparr>status := InProgress, updated_at := 2\<rparr>" Review 3] by simp
  moreover have "task_step (sample_task\<lparr>status := Review, updated_at := 3\<rparr>)
      (sample_task\<lparr>status := Done, updated_at := 4\<rparr>)"
    using step[of "sample_task\<lparr>status := Review, updated_at := 3\<rparr>" Done 4] by simp
  ultimately show ?thesis
    by (blast intro: task_history.intros)
qed


text \<open>
  No status is a dead end: from any task, some sequence of transition requests that
  are all accepted takes it to any given status.
\<close>

theorem every_status_reachable:
  "\<exists>path t'. run_transitions t path now = Ok t' \<and> status t' = s"
proof -
  from route_between[of "status t" s]
  have "valid_path (status t) (route_to_planned (status t) @ route_from_planned s)"
    and last: "last (status t # route_to_planned (status t) @ route_from_planned s) = s"
    by blast+
  from run_transitions_valid_path[OF this(1), of now] last show ?thesis by metis
qed

text \<open>
  Refreshing the blocked status establishes the dependency discipline: afterwards a
  task that has not been dispatched is Blocked exactly when a dependency is not completed,
  a task in any other status is unchanged, and refreshing again does nothing.
\<close>

theorem refresh_establishes_blocked:
  "(if status t \<in> {Planned, Ready, Blocked}
    then (status (refresh_blocked_status t completed now) = Blocked
            \<longleftrightarrow> (\<exists>dep. dep \<in> set (dependencies t) \<and> dep \<notin> completed))
         \<and> status (refresh_blocked_status t completed now) \<in> {Planned, Ready, Blocked}
    else refresh_blocked_status t completed now = t)
   \<and> refresh_blocked_status (refresh_blocked_status t completed now) completed now'
       = refresh_blocked_status t completed now"
proof -
  have unmet: "(\<exists>dep. dep \<in> set (dependencies t) \<and> dep \<notin> completed)
      \<longleftrightarrow> unmet_dependencies t completed"
    by (auto simp: unmet_dependencies_def list_ex_iff)
  show ?thesis
    unfolding unmet
    by (cases "unmet_dependencies t completed"; cases "status t"; simp add: refresh_eq)
qed

end
