(* ===== verification/Bin_Heap.thy ===== *)
theory Bin_Heap
  imports Task "HOL-Library.Product_Lexorder"
begin

text \<open>
  The priority queue behind both dispatchers. \<open>std::collections::BinaryHeap\<close> is a bag:
  \<open>push\<close> adds an element, \<open>pop\<close> removes a greatest element of the element type's \<open>Ord\<close>.
  The model keeps the bag as a list in arrival order and takes the comparison function as
  its argument, as the collection does through the trait. The locale \<open>ranked_queue\<close> states
  what a dispatcher expects of its queue; it is interpreted on the two queues of the
  program in the theories that define their items.
\<close>

section \<open>The heap as a bag\<close>

fun heap_max :: "('i \<Rightarrow> 'i \<Rightarrow> ordering) \<Rightarrow> 'i \<Rightarrow> 'i list \<Rightarrow> 'i" where
  "heap_max cmp x [] = x"
| "heap_max cmp x (y # ys) = heap_max cmp (if cmp y x = Gt then y else x) ys"

definition heap_push :: "'i \<Rightarrow> 'i list \<Rightarrow> 'i list" where
  "heap_push x q = q @ [x]"

definition heap_pop :: "('i \<Rightarrow> 'i \<Rightarrow> ordering) \<Rightarrow> 'i list \<Rightarrow> ('i \<times> 'i list) option" where
  "heap_pop cmp q =
     (case q of [] \<Rightarrow> None
      | x # xs \<Rightarrow> (let m = heap_max cmp x xs in Some (m, remove1 m q)))"

lemma heap_max_in: "heap_max cmp x xs \<in> set (x # xs)"
  by (induction xs arbitrary: x) (auto split: if_splits)

lemma heap_pop_None [simp]: "heap_pop cmp q = None \<longleftrightarrow> q = []"
  by (simp add: heap_pop_def Let_def split: list.split)

lemma heap_pop_Nil [simp]: "heap_pop cmp [] = None"
  by simp

lemma heap_pop_mset:
  "heap_pop cmp q = Some (x, q') \<Longrightarrow> mset q = add_mset x (mset q')"
  using heap_max_in[of cmp "hd q" "tl q"]
  by (auto simp: heap_pop_def Let_def insert_DiffM split: list.splits)

lemma heap_pop_length: "heap_pop cmp q = Some (x, q') \<Longrightarrow> length q = Suc (length q')"
  by (metis heap_pop_mset size_add_mset size_mset)

lemma heap_pop_set: "heap_pop cmp q = Some (x, q') \<Longrightarrow> set q = insert x (set q')"
  by (metis heap_pop_mset set_mset_add_mset_insert set_mset_mset)

text \<open>A comparison that orders by a key, smaller keys first (the heap is a max-heap).\<close>

definition orders_by :: "('i \<Rightarrow> 'i \<Rightarrow> ordering) \<Rightarrow> ('i \<Rightarrow> 'k::linorder) \<Rightarrow> bool" where
  "orders_by cmp key = (\<forall>x y. cmp x y = Gt \<longleftrightarrow> key x < key y)"

lemma heap_max_least:
  assumes "orders_by cmp key" and "y \<in> set (x # xs)"
  shows "key (heap_max cmp x xs) \<le> key y"
  using assms(2)
proof (induction xs arbitrary: x y)
  case Nil
  then show ?case by simp
next
  case (Cons z zs)
  let ?b = "if cmp z x = Gt then z else x"
  have b: "key ?b \<le> key x" "key ?b \<le> key z"
    using assms(1) by (auto simp: orders_by_def not_less)
  have "key (heap_max cmp ?b zs) \<le> key ?b"
    by (rule Cons.IH) simp
  with b Cons.IH[of y ?b] Cons.prems show ?case by (auto intro: order_trans)
qed

lemma heap_pop_least:
  assumes "orders_by cmp key" and "heap_pop cmp q = Some (x, q')" and "y \<in> set q"
  shows "key x \<le> key y"
  using assms heap_max_least[OF assms(1)]
  by (auto simp: heap_pop_def Let_def split: list.splits)

section \<open>The interface\<close>

text \<open>Popping until the queue is empty, with as much fuel as there are items.\<close>

fun drain_queue :: "('q \<Rightarrow> ('i \<times> 'q) option) \<Rightarrow> nat \<Rightarrow> 'q \<Rightarrow> 'i list" where
  "drain_queue pop 0 q = []"
| "drain_queue pop (Suc n) q =
     (case pop q of None \<Rightarrow> [] | Some (x, q') \<Rightarrow> x # drain_queue pop n q')"

locale ranked_queue =
  fixes push :: "'i \<Rightarrow> 'q \<Rightarrow> 'q"
    and pop :: "'q \<Rightarrow> ('i \<times> 'q) option"
    and items :: "'q \<Rightarrow> 'i multiset"
    and key :: "'i \<Rightarrow> 'k::linorder"
  assumes push_items: "items (push x q) = add_mset x (items q)"
    and pop_None: "pop q = None \<longleftrightarrow> items q = {#}"
    and pop_items: "pop q = Some (x, q') \<Longrightarrow> items q = add_mset x (items q')"
    and pop_least: "pop q = Some (x, q') \<Longrightarrow> y \<in># items q \<Longrightarrow> key x \<le> key y"
begin

lemma pop_after_push: "\<exists>y q'. pop (push x q) = Some (y, q') \<and> key y \<le> key x"
proof -
  have "pop (push x q) \<noteq> None" by (simp add: pop_None push_items)
  then obtain y q' where p: "pop (push x q) = Some (y, q')" by auto
  moreover have "key y \<le> key x" using pop_least[OF p] by (simp add: push_items)
  ultimately show ?thesis by blast
qed

lemma drain_items: "mset (drain_queue pop (size (items q)) q) = items q"
proof (induction "size (items q)" arbitrary: q)
  case 0
  then show ?case by simp
next
  case (Suc n)
  then have "pop q \<noteq> None" by (auto simp: pop_None)
  then obtain x q' where p: "pop q = Some (x, q')" by auto
  from pop_items[OF p] Suc.hyps(2) have "n = size (items q')" by simp
  with Suc.hyps(1)[OF this] p pop_items[OF p] show ?case by simp
qed

lemma drain_sorted: "sorted (map key (drain_queue pop (size (items q)) q))"
proof (induction "size (items q)" arbitrary: q)
  case 0
  then show ?case by simp
next
  case (Suc n)
  then have "pop q \<noteq> None" by (auto simp: pop_None)
  then obtain x q' where p: "pop q = Some (x, q')" by auto
  from pop_items[OF p] Suc.hyps(2) have n: "n = size (items q')" by simp
  have "key x \<le> key y" if "y \<in> set (drain_queue pop (size (items q')) q')" for y
  proof -
    from that have "y \<in># items q'" using drain_items[of q'] by (metis set_mset_mset)
    then show ?thesis using pop_least[OF p] pop_items[OF p] by simp
  qed
  with Suc.hyps(1)[OF n] p n pop_items[OF p] show ?case by simp
qed

end

text \<open>Any heap whose comparison orders by a key is such a queue.\<close>

lemma heap_ranked_queue:
  assumes "orders_by cmp key"
  shows "ranked_queue heap_push (heap_pop cmp) mset key"
  using assms
  by unfold_locales
     (auto simp: heap_push_def dest: heap_pop_mset heap_pop_least)

text \<open>
  When the items are in arrival order of strictly increasing sequence numbers, the heap
  hands out the first arrival among those of the best rank.
\<close>

fun first_best :: "('i \<Rightarrow> nat) \<Rightarrow> 'i list \<Rightarrow> 'i option" where
  "first_best rank [] = None"
| "first_best rank (x # xs) =
     (case first_best rank xs of
        None \<Rightarrow> Some x
      | Some y \<Rightarrow> if rank y < rank x then Some y else Some x)"

lemma first_best_None [simp]: "first_best rank xs = None \<longleftrightarrow> xs = []"
  by (cases xs) (auto split: option.splits if_splits)

lemma first_best_in: "first_best rank xs = Some x \<Longrightarrow> x \<in> set xs"
  by (induction xs arbitrary: x) (auto split: option.splits if_splits)

lemma first_best_least:
  assumes "first_best rank xs = Some x" and "sorted_wrt (<) (map (seq :: 'i \<Rightarrow> nat) xs)"
    and "y \<in> set xs"
  shows "rank x < rank y \<or> rank x = rank y \<and> seq x \<le> seq y"
  using assms
proof (induction xs arbitrary: x y)
  case Nil
  then show ?case by simp
next
  case (Cons z zs)
  show ?case
  proof (cases "first_best rank zs")
    case None
    with Cons.prems show ?thesis by auto
  next
    case (Some b)
    from Cons.prems(2) have sz: "sorted_wrt (<) (map seq zs)"
      and zlt: "\<And>u. u \<in> set zs \<Longrightarrow> seq z < seq u" by auto
    from Cons.IH[OF Some sz] have b: "\<And>u. u \<in> set zs \<Longrightarrow>
        rank b < rank u \<or> rank b = rank u \<and> seq b \<le> seq u" by blast
    have "seq z < seq b" using zlt first_best_in[OF Some] by blast
    with Some Cons.prems b zlt show ?thesis
      by (fastforce split: if_splits)
  qed
qed

lemma sorted_seq_inj:
  "sorted_wrt (<) (map (seq :: 'i \<Rightarrow> nat) q) \<Longrightarrow> x \<in> set q \<Longrightarrow> y \<in> set q \<Longrightarrow> seq x = seq y \<Longrightarrow> x = y"
  by (induction q) auto

lemma heap_pop_first_best:
  assumes ord: "orders_by cmp (\<lambda>i. (rank i, seq i) :: nat \<times> nat)"
    and arr: "sorted_wrt (<) (map seq q)"
  shows "map_option fst (heap_pop cmp q) = first_best rank q"
proof (cases "heap_pop cmp q")
  case None
  then have "q = []" by simp
  with None show ?thesis by simp
next
  case (Some mq)
  obtain m q' where m: "heap_pop cmp q = Some (m, q')" using Some by (cases mq) auto
  then have min: "m \<in> set q" and ne: "q \<noteq> []" by (auto dest: heap_pop_set)
  from ne obtain b where b: "first_best rank q = Some b"
    by (metis first_best_None not_None_eq)
  have "(rank m, seq m) \<le> (rank b, seq b)"
    using heap_pop_least[OF ord m first_best_in[OF b]] .
  moreover have "rank b < rank m \<or> rank b = rank m \<and> seq b \<le> seq m"
    using first_best_least[OF b arr min] .
  ultimately have "seq b = seq m" by auto
  then have "b = m"
    using sorted_seq_inj[OF arr first_best_in[OF b] min] by simp
  with m b show ?thesis by simp
qed

end
