(* ===== verification/Orchestrator.thy ===== *)
theory Orchestrator
  imports Bin_Heap
begin

text \<open>
  \<open>crates/pnevma-core/src/orchestration.rs\<close>: the dispatch orchestrator. Its state is the
  contents of the mutex \<open>Inner\<close>; every method locks it for its whole body, so a method is
  one atomic step. The set \<open>active_or_queued\<close> deduplicates requests, the heap holds the
  requests that found no free slot, and \<open>complete_one\<close> frees a slot and hands it to the
  best waiting request. The abstract dispatcher below keeps the running tasks as a set and
  the waiting requests as a list in arrival order.
\<close>

section \<open>State and operations\<close>

record dispatch_request =
  req_task_id :: uuid
  req_priority :: priority

datatype dispatch_result = Started | Queued nat

record pool_state =
  ps_max_concurrent :: nat
  ps_active :: nat
  ps_queued :: nat

record queue_item =
  qi_seq :: u64
  qi_req :: dispatch_request

fun rank :: "priority \<Rightarrow> nat" where
  "rank P0 = 0"
| "rank P1 = 1"
| "rank P2 = 2"
| "rank P3 = 3"

definition queue_item_cmp :: "queue_item \<Rightarrow> queue_item \<Rightarrow> ordering" where
  "queue_item_cmp self other =
     (let a = rank (req_priority (qi_req self));
          b = rank (req_priority (qi_req other))
      in then_with (cmp_on b a) (cmp_on (qi_seq other) (qi_seq self)))"

record orchestrator =
  max_concurrent :: nat
  active :: nat
  seq :: u64
  queue :: "queue_item list"
  active_or_queued :: "uuid set"

definition orch_new :: "nat \<Rightarrow> orchestrator" where
  "orch_new m =
     \<lparr>max_concurrent = m, active = 0, seq = 0, queue = [], active_or_queued = {}\<rparr>"

definition request_dispatch ::
  "dispatch_request \<Rightarrow> orchestrator \<Rightarrow> dispatch_result \<times> orchestrator" where
  "request_dispatch req s =
     (if req_task_id req \<in> active_or_queued s then (Queued (length (queue s)), s)
      else
        let s1 = s\<lparr>active_or_queued := insert (req_task_id req) (active_or_queued s)\<rparr> in
        if active s1 < max_concurrent s1 then (Started, s1\<lparr>active := active s1 + 1\<rparr>)
        else
          let s2 = s1\<lparr>seq := seq s1 + 1,
                      queue := heap_push \<lparr>qi_seq = seq s1, qi_req = req\<rparr> (queue s1)\<rparr>
          in (Queued (length (queue s2)), s2))"

definition complete_one ::
  "uuid option \<Rightarrow> orchestrator \<Rightarrow> dispatch_request option \<times> orchestrator" where
  "complete_one completed s =
     (let s1 = (if active s > 0 then s\<lparr>active := active s - 1\<rparr> else s);
          s2 = (case completed of None \<Rightarrow> s1
                | Some i \<Rightarrow> s1\<lparr>active_or_queued := active_or_queued s1 - {i}\<rparr>)
      in case heap_pop queue_item_cmp (queue s2) of
           None \<Rightarrow> (None, s2)
         | Some (item, q) \<Rightarrow> (Some (qi_req item), s2\<lparr>queue := q, active := active s2 + 1\<rparr>))"

definition orch_state :: "orchestrator \<Rightarrow> pool_state" where
  "orch_state s =
     \<lparr>ps_max_concurrent = max_concurrent s, ps_active = active s, ps_queued = length (queue s)\<rparr>"

declare request_dispatch_def [op_defs] complete_one_def [op_defs] orch_new_def [op_defs]

section \<open>The heap serves the dispatcher\<close>

definition item_key :: "queue_item \<Rightarrow> nat \<times> nat" where
  "item_key i = (rank (req_priority (qi_req i)), unat (qi_seq i))"

lemma queue_item_cmp_orders: "orders_by queue_item_cmp item_key"
  by (auto simp: orders_by_def queue_item_cmp_def item_key_def Let_def word_less_nat_alt)

interpretation orch_heap: ranked_queue heap_push "heap_pop queue_item_cmp" mset item_key
  by (rule heap_ranked_queue) (rule queue_item_cmp_orders)

section \<open>The abstract dispatcher\<close>

record dispatcher =
  limit :: nat
  running :: "uuid set"
  waiting :: "dispatch_request list"

definition spec_new :: "nat \<Rightarrow> dispatcher" where
  "spec_new m = \<lparr>limit = m, running = {}, waiting = []\<rparr>"

definition spec_request :: "dispatch_request \<Rightarrow> dispatcher \<Rightarrow> dispatch_result \<times> dispatcher" where
  "spec_request r d =
     (if req_task_id r \<in> running d \<union> req_task_id ` set (waiting d)
      then (Queued (length (waiting d)), d)
      else if card (running d) < limit d
      then (Started, d\<lparr>running := insert (req_task_id r) (running d)\<rparr>)
      else (Queued (length (waiting d) + 1), d\<lparr>waiting := waiting d @ [r]\<rparr>))"

definition spec_complete :: "uuid \<Rightarrow> dispatcher \<Rightarrow> dispatch_request option \<times> dispatcher" where
  "spec_complete i d =
     (let d1 = d\<lparr>running := running d - {i}\<rparr> in
        case first_best (rank \<circ> req_priority) (waiting d) of
          None \<Rightarrow> (None, d1)
        | Some r \<Rightarrow> (Some r, d1\<lparr>running := insert (req_task_id r) (running d1),
                               waiting := remove1 r (waiting d)\<rparr>))"

datatype orch_event = Request dispatch_request | Complete uuid

datatype orch_output = Requested dispatch_result | Completed "dispatch_request option"

fun spec_event :: "dispatcher \<Rightarrow> orch_event \<Rightarrow> orch_output \<times> dispatcher" where
  "spec_event d (Request r) = (let (x, d') = spec_request r d in (Requested x, d'))"
| "spec_event d (Complete i) = (let (x, d') = spec_complete i d in (Completed x, d'))"

fun orch_apply :: "orchestrator \<Rightarrow> orch_event \<Rightarrow> orch_output \<times> orchestrator" where
  "orch_apply s (Request r) = (let (x, s') = request_dispatch r s in (Requested x, s'))"
| "orch_apply s (Complete i) = (let (x, s') = complete_one (Some i) s in (Completed x, s'))"

fun run_events :: "('s \<Rightarrow> orch_event \<Rightarrow> orch_output \<times> 's) \<Rightarrow> 's \<Rightarrow> orch_event list \<Rightarrow>
    orch_output list \<times> 's" where
  "run_events step s [] = ([], s)"
| "run_events step s (e # es) =
     (let (x, s') = step s e; (xs, s'') = run_events step s' es in (x # xs, s''))"

text \<open>The caller's protocol: a completion names a task that is running.\<close>

fun completions_ok :: "dispatcher \<Rightarrow> orch_event list \<Rightarrow> bool" where
  "completions_ok d [] = True"
| "completions_ok d (e # es) =
     ((case e of Request _ \<Rightarrow> True | Complete i \<Rightarrow> i \<in> running d)
      \<and> completions_ok (snd (spec_event d e)) es)"

section \<open>Refinement\<close>

text \<open>
  \<open>n\<close> bounds the number of requests that have been queued so far; while it is at most
  \<open>2 ^ 64\<close> the sequence numbers have not wrapped and follow the arrival order.
\<close>

definition orch_refines :: "nat \<Rightarrow> orchestrator \<Rightarrow> dispatcher \<Rightarrow> bool" where
  [inv_defs]: "orch_refines n s d \<longleftrightarrow>
     max_concurrent s = limit d
     \<and> finite (running d) \<and> active s = card (running d) \<and> active s \<le> limit d
     \<and> map qi_req (queue s) = waiting d
     \<and> (waiting d \<noteq> [] \<longrightarrow> active s = limit d)
     \<and> distinct (map req_task_id (waiting d))
     \<and> running d \<inter> req_task_id ` set (waiting d) = {}
     \<and> active_or_queued s = running d \<union> req_task_id ` set (waiting d)
     \<and> unat (seq s) \<le> n
     \<and> sorted_wrt (<) (map (unat \<circ> qi_seq) (queue s))
     \<and> (\<forall>i \<in> set (queue s). unat (qi_seq i) < unat (seq s))"

lemma orch_refines_new: "orch_refines n (orch_new m) (spec_new m)"
  by (simp add: orch_refines_def orch_new_def spec_new_def)

lemma unat_seq_inc: "unat (w :: u64) \<le> n \<Longrightarrow> n < 2 ^ 64 - 1 \<Longrightarrow> unat (w + 1) = unat w + 1"
  by (simp add: unat_word_ariths)

lemma refines_request:
  assumes R: "orch_refines n s d" and n: "n < 2 ^ 64 - 1"
  shows "fst (request_dispatch r s) = fst (spec_request r d)
    \<and> orch_refines (Suc n) (snd (request_dispatch r s)) (snd (spec_request r d))"
proof -
  have len: "length (queue s) = length (waiting d)"
    using R unfolding orch_refines_def by (metis length_map)
  have seq: "unat (seq s + 1) = unat (seq s) + 1"
    using R n by (intro unat_seq_inc) (auto simp: orch_refines_def)
  have upto: "orch_refines (Suc n) s d" using R by (auto simp: orch_refines_def)
  consider (dup) "req_task_id r \<in> active_or_queued s"
    | (start) "req_task_id r \<notin> active_or_queued s" "active s < max_concurrent s"
    | (full) "req_task_id r \<notin> active_or_queued s" "\<not> active s < max_concurrent s"
    by blast
  then show ?thesis
  proof cases
    case dup
    with upto len show ?thesis
      by (auto simp: request_dispatch_def spec_request_def orch_refines_def)
  next
    case start
    with R have "waiting d = []" by (auto simp: orch_refines_def)
    with start R show ?thesis
      by (auto simp: request_dispatch_def spec_request_def orch_refines_def)
  next
    case full
    with R len seq show ?thesis
      by (auto simp: request_dispatch_def spec_request_def orch_refines_def heap_push_def Let_def
          sorted_wrt_append)
  qed
qed

lemma first_best_map:
  "first_best f (map g xs) = map_option g (first_best (f \<circ> g) xs)"
  by (induction xs) (auto split: option.splits)

lemma map_remove1_inj:
  "inj_on f (set (x # xs)) \<Longrightarrow> map f (remove1 x xs) = remove1 (f x) (map f xs)"
  by (induction xs) (auto simp: inj_on_def)

lemma orch_pop_first_best:
  assumes "orch_refines n s d"
  shows "map_option (qi_req \<circ> fst) (heap_pop queue_item_cmp (queue s))
           = first_best (rank \<circ> req_priority) (waiting d)"
proof -
  have "map_option fst (heap_pop queue_item_cmp (queue s))
      = first_best (rank \<circ> req_priority \<circ> qi_req) (queue s)"
    using assms queue_item_cmp_orders
    by (intro heap_pop_first_best[where seq = "unat \<circ> qi_seq"])
       (auto simp: orch_refines_def item_key_def[abs_def] comp_def)
  then have "map_option qi_req (map_option fst (heap_pop queue_item_cmp (queue s)))
      = first_best (rank \<circ> req_priority) (map qi_req (queue s))"
    by (simp add: first_best_map comp_assoc)
  moreover have "map qi_req (queue s) = waiting d" using assms by (simp add: orch_refines_def)
  ultimately show ?thesis by (simp add: option.map_comp)
qed

lemma heap_pop_remove1: "heap_pop cmp q = Some (x, q') \<Longrightarrow> q' = remove1 x q"
  by (auto simp: heap_pop_def Let_def split: list.splits)

lemma refines_complete:
  assumes R: "orch_refines n s d" and i: "i \<in> running d"
  shows "fst (complete_one (Some i) s) = fst (spec_complete i d)
    \<and> orch_refines n (snd (complete_one (Some i) s)) (snd (spec_complete i d))"
proof -
  have act: "0 < active s" "active s - 1 = card (running d - {i})"
    using R i by (auto simp: orch_refines_def card_gt_0_iff)
  have notwaiting: "i \<notin> req_task_id ` set (waiting d)"
    using R i by (auto simp: orch_refines_def)
  show ?thesis
  proof (cases "heap_pop queue_item_cmp (queue s)")
    case None
    then have q: "queue s = []" by simp
    then have w: "waiting d = []" using R by (auto simp: orch_refines_def)
    have c: "complete_one (Some i) s =
        (None, s\<lparr>active := active s - 1, active_or_queued := active_or_queued s - {i}\<rparr>)"
      using q act by (simp add: complete_one_def Let_def)
    have sc: "spec_complete i d = (None, d\<lparr>running := running d - {i}\<rparr>)"
      using w by (simp add: spec_complete_def)
    show ?thesis
      unfolding c sc using R q w act by (auto simp: orch_refines_def)
  next
    case (Some p)
    obtain x q where p: "heap_pop queue_item_cmp (queue s) = Some (x, q)"
      using Some by (cases p) auto
    have best: "first_best (rank \<circ> req_priority) (waiting d) = Some (qi_req x)"
      using orch_pop_first_best[OF R] p by simp
    have q: "q = remove1 x (queue s)" and x: "x \<in> set (queue s)"
      using heap_pop_remove1[OF p] heap_pop_set[OF p] by auto
    have wd: "waiting d = map qi_req (queue s)" and dis: "distinct (map req_task_id (waiting d))"
      using R by (auto simp: orch_refines_def)
    have inj: "inj_on qi_req (set (queue s))"
      using dis unfolding wd by (auto simp: distinct_map comp_def inj_on_def)
    have wq: "map qi_req q = remove1 (qi_req x) (waiting d)"
      unfolding q wd using inj x by (intro map_remove1_inj) (simp add: insert_absorb)
    have xw: "qi_req x \<in> set (waiting d)" using x unfolding wd by simp
    have drop: "req_task_id ` set (remove1 (qi_req x) (waiting d))
        = req_task_id ` set (waiting d) - {req_task_id (qi_req x)}"
      using dis xw by (force simp: distinct_map inj_on_def set_remove1_eq)
    have fresh: "req_task_id (qi_req x) \<notin> running d"
      using R xw by (auto simp: orch_refines_def)
    have full: "active s = limit d" using R xw by (auto simp: orch_refines_def)
    have sorted: "sorted_wrt (<) (map (unat \<circ> qi_seq) q)"
      using R unfolding q orch_refines_def by (metis sorted_wrt_map sorted_wrt_remove1)
    have dis': "distinct (map req_task_id (remove1 (qi_req x) (waiting d)))"
      using dis by (auto simp: distinct_map distinct_remove1 intro: inj_on_subset)
    have c: "complete_one (Some i) s =
        (Some (qi_req x), s\<lparr>active := active s, active_or_queued := active_or_queued s - {i}, queue := q\<rparr>)"
      using p act by (simp add: complete_one_def Let_def)
    have sc: "spec_complete i d =
        (Some (qi_req x), d\<lparr>running := insert (req_task_id (qi_req x)) (running d - {i}),
                           waiting := remove1 (qi_req x) (waiting d)\<rparr>)"
      using best by (simp add: spec_complete_def Let_def)
    have card: "card (insert (req_task_id (qi_req x)) (running d - {i})) = active s"
      using R act fresh i by (auto simp: orch_refines_def card_insert_if)
    show ?thesis
      using R wq drop fresh full sorted dis' card notwaiting x xw
      unfolding c sc
      by (auto simp: orch_refines_def dest: set_remove1_subset[THEN subsetD] simp: q)
  qed
qed

lemma refines_more: "orch_refines n s d \<Longrightarrow> orch_refines (Suc n) s d"
  by (auto simp: orch_refines_def)

lemma run_events_refines:
  assumes "orch_refines n s d" and "completions_ok d es" and "n + length es < 2 ^ 64"
  shows "fst (run_events orch_apply s es) = fst (run_events spec_event d es)
    \<and> orch_refines (n + length es) (snd (run_events orch_apply s es))
        (snd (run_events spec_event d es))"
  using assms
proof (induction es arbitrary: n s d)
  case Nil
  then show ?case by simp
next
  case (Cons e es)
  have step: "fst (orch_apply s e) = fst (spec_event d e)
      \<and> orch_refines (Suc n) (snd (orch_apply s e)) (snd (spec_event d e))"
  proof (cases e)
    case (Request r)
    with refines_request[OF Cons.prems(1), of r] Cons.prems(3) show ?thesis
      by (simp add: split_def Let_def)
  next
    case (Complete i)
    with Cons.prems have "i \<in> running d" by simp
    from refines_complete[OF Cons.prems(1) this] Complete show ?thesis
      by (simp add: split_def Let_def refines_more)
  qed
  from Cons.IH[of "Suc n"] step Cons.prems show ?case
    by (simp add: split_def Let_def)
qed

section \<open>Properties\<close>

text \<open>
  C4. The orchestrator is observationally the abstract dispatcher: on every sequence of
  requests and completions in which a completion names a running task, and that queues
  fewer than \<open>2 ^ 64\<close> requests, it gives the same answers. The abstract dispatcher keeps a
  set of running tasks of at most \<open>limit\<close> elements, ignores a request for a task it
  already knows, and on completion starts the waiting request of the best priority that
  arrived first.
\<close>

theorem orchestrator_implements_dispatcher:
  assumes "completions_ok (spec_new m) es" and "length es < 2 ^ 64"
  shows "fst (run_events orch_apply (orch_new m) es) = fst (run_events spec_event (spec_new m) es)"
  using run_events_refines[OF orch_refines_new[of 0 m] assms(1)] assms(2) by simp

definition sample_events :: "orch_event list" where
  "sample_events =
     [Request \<lparr>req_task_id = 1, req_priority = P3\<rparr>, Request \<lparr>req_task_id = 2, req_priority = P2\<rparr>,
      Request \<lparr>req_task_id = 3, req_priority = P0\<rparr>, Request \<lparr>req_task_id = 2, req_priority = P0\<rparr>,
      Complete 1, Complete 3]"

theorem orchestrator_implements_dispatcher_witness:
  "fst (run_events orch_apply (orch_new 1) sample_events) =
     [Requested Started, Requested (Queued 1), Requested (Queued 2), Requested (Queued 2),
      Completed (Some \<lparr>req_task_id = 3, req_priority = P0\<rparr>),
      Completed (Some \<lparr>req_task_id = 2, req_priority = P2\<rparr>)]"
proof -
  have ok: "completions_ok (spec_new 1) sample_events"
    by (simp add: sample_events_def spec_new_def spec_request_def spec_complete_def Let_def)
  show ?thesis
    using orchestrator_implements_dispatcher[OF ok]
    by (simp add: sample_events_def spec_new_def spec_request_def spec_complete_def Let_def)
qed

text \<open>
  C7. Capacity and deduplication hold after every such sequence: at most
  \<open>max_concurrent\<close> tasks are active, a request waits only when every slot is taken, no task
  waits twice, and the deduplication set is exactly the running and the waiting tasks.
\<close>

theorem orchestrator_capacity_and_dedup:
  assumes "completions_ok (spec_new m) es" and "length es < 2 ^ 64"
  shows "let s = snd (run_events orch_apply (orch_new m) es);
             d = snd (run_events spec_event (spec_new m) es)
         in active s \<le> m \<and> active s = card (running d)
            \<and> (queue s = [] \<or> active s = m)
            \<and> distinct (map (req_task_id \<circ> qi_req) (queue s))
            \<and> active_or_queued s = running d \<union> (req_task_id \<circ> qi_req) ` set (queue s)
            \<and> running d \<inter> (req_task_id \<circ> qi_req) ` set (queue s) = {}"
proof -
  let ?s = "snd (run_events orch_apply (orch_new m) es)"
  let ?d = "snd (run_events spec_event (spec_new m) es)"
  have R: "orch_refines (length es) ?s ?d"
    using run_events_refines[OF orch_refines_new[of 0 m] assms(1)] assms(2) by simp
  have lim: "limit (snd (run_events spec_event d fs)) = limit d" for d fs
  proof (induction fs arbitrary: d)
    case (Cons f fs)
    have "limit (snd (spec_event d f)) = limit d"
      by (cases f) (simp_all add: spec_request_def spec_complete_def Let_def split: option.split)
    with Cons.IH[of "snd (spec_event d f)"] show ?case by (simp add: split_def Let_def)
  qed simp
  have w: "waiting ?d = map qi_req (queue ?s)" using R by (simp add: orch_refines_def)
  have m: "limit ?d = m" by (simp add: lim) (simp add: spec_new_def)
  show ?thesis
    using R unfolding orch_refines_def w m Let_def by (auto simp: image_comp)
qed

theorem orchestrator_capacity_and_dedup_witness:
  "active (snd (run_events orch_apply (orch_new 1) sample_events)) \<le> 1"
proof -
  have ok: "completions_ok (spec_new 1) sample_events"
    by (simp add: sample_events_def spec_new_def spec_request_def spec_complete_def Let_def)
  show ?thesis
    using orchestrator_capacity_and_dedup[OF ok] by (simp add: sample_events_def Let_def)
qed

fun hand_outs :: "nat \<Rightarrow> orchestrator \<Rightarrow> dispatch_request list" where
  "hand_outs 0 s = []"
| "hand_outs (Suc n) s =
     (case complete_one None s of
        (None, s') \<Rightarrow> []
      | (Some r, s') \<Rightarrow> r # hand_outs n s')"

lemma hand_outs_drain:
  "hand_outs n s = map qi_req (drain_queue (heap_pop queue_item_cmp) n (queue s))"
  by (induction n arbitrary: s) (auto simp: complete_one_def Let_def split: option.splits)

text \<open>
  Completing repeatedly empties the queue in order of priority, and of arrival within a
  priority: the requests handed out are exactly those that waited, sorted by
  (rank, sequence number).
\<close>

theorem completions_empty_queue_in_order:
  "\<exists>is. hand_outs (length (queue s)) s = map qi_req is \<and> mset is = mset (queue s)
      \<and> sorted (map item_key is)"
  using orch_heap.drain_items[of "queue s"] orch_heap.drain_sorted[of "queue s"]
  by (auto simp: hand_outs_drain)

end
