(* ===== verification/Agent_Pool.thy ===== *)
theory Agent_Pool
  imports Bin_Heap
begin

text \<open>
  \<open>crates/pnevma-agents/src/pool.rs\<close>: the bounded dispatch pool. \<open>try_acquire\<close> hands out
  a permit, queues the dispatch, or refuses it when the queue is full; a permit gives its
  slot back when it is released or dropped; \<open>wait_next\<close> takes a slot for a queued dispatch
  and returns the dispatch without a permit. Each pass through a mutex guard is one step.
  The step relation adds the ghost counters of who owns the active slots.
\<close>

section \<open>State and operations\<close>

record queued_dispatch =
  qd_task_id :: uuid
  qd_priority :: priority

record pool_item =
  pi_seq :: u64
  pi_dispatch :: queued_dispatch

fun pool_rank :: "priority \<Rightarrow> nat" where
  "pool_rank P0 = 0"
| "pool_rank P1 = 1"
| "pool_rank P2 = 2"
| "pool_rank P3 = 3"

definition pool_item_cmp :: "pool_item \<Rightarrow> pool_item \<Rightarrow> ordering" where
  "pool_item_cmp self other =
     (let a = pool_rank (qd_priority (pi_dispatch self));
          b = pool_rank (qd_priority (pi_dispatch other))
      in then_with (cmp_on b a) (cmp_on (pi_seq other) (pi_seq self)))"

record pool =
  max_slots :: nat
  max_queue_depth :: nat
  active :: nat
  seq :: u64
  queue :: "pool_item list"

datatype try_acquire_result = Acquired | Queued nat | QueueFull nat

definition with_queue_limit :: "nat \<Rightarrow> nat \<Rightarrow> pool" where
  "with_queue_limit m depth =
     \<lparr>max_slots = m, max_queue_depth = depth, active = 0, seq = 0, queue = []\<rparr>"

definition pool_new :: "nat \<Rightarrow> pool" where
  "pool_new m = with_queue_limit m 32"

definition try_acquire :: "queued_dispatch \<Rightarrow> pool \<Rightarrow> try_acquire_result \<times> pool" where
  "try_acquire d p =
     (if active p < max_slots p then (Acquired, p\<lparr>active := active p + 1\<rparr>)
      else if max_queue_depth p \<le> length (queue p) then (QueueFull (length (queue p)), p)
      else
        let p' = p\<lparr>seq := seq p + 1,
                   queue := heap_push \<lparr>pi_seq = seq p, pi_dispatch = d\<rparr> (queue p)\<rparr>
        in (Queued (length (queue p')), p'))"

text \<open>One pass of the loop of \<open>wait_next\<close>; \<open>None\<close> is the pass that goes on to wait for a
  notification.\<close>

definition wait_next_pass :: "pool \<Rightarrow> queued_dispatch option \<times> pool" where
  "wait_next_pass p =
     (if active p < max_slots p then
        (case heap_pop pool_item_cmp (queue p) of
           None \<Rightarrow> (None, p)
         | Some (item, q) \<Rightarrow> (Some (pi_dispatch item), p\<lparr>queue := q, active := active p + 1\<rparr>))
      else (None, p))"

definition pool_release :: "pool \<Rightarrow> pool" where
  "pool_release p = (if active p > 0 then p\<lparr>active := active p - 1\<rparr> else p)"

text \<open>\<open>Drop for DispatchPermit\<close>: the slot is released only while a runtime is alive.\<close>

definition drop_permit :: "bool \<Rightarrow> pool \<Rightarrow> pool" where
  "drop_permit runtime_alive p = (if runtime_alive then pool_release p else p)"

definition pool_state :: "pool \<Rightarrow> nat \<times> nat \<times> nat \<times> nat" where
  "pool_state p = (max_slots p, active p, length (queue p), max_queue_depth p)"

section \<open>The heap serves the pool\<close>

definition pool_item_key :: "pool_item \<Rightarrow> nat \<times> nat" where
  "pool_item_key i = (pool_rank (qd_priority (pi_dispatch i)), unat (pi_seq i))"

lemma pool_item_cmp_orders: "orders_by pool_item_cmp pool_item_key"
  by (auto simp: orders_by_def pool_item_cmp_def pool_item_key_def Let_def word_less_nat_alt)

interpretation pool_heap: ranked_queue heap_push "heap_pop pool_item_cmp" mset pool_item_key
  by (rule heap_ranked_queue) (rule pool_item_cmp_orders)

section \<open>The system of permits\<close>

text \<open>\<open>permits\<close>: permits held by callers; \<open>taken\<close>: slots taken by \<open>wait_next\<close>, for which no
  permit exists; \<open>lost\<close>: permits dropped without a runtime.\<close>

record pool_sys =
  pool_of :: pool
  permits :: nat
  taken :: nat
  lost :: nat

definition init_pool_sys :: "nat \<Rightarrow> nat \<Rightarrow> pool_sys" where
  "init_pool_sys m depth =
     \<lparr>pool_of = with_queue_limit m depth, permits = 0, taken = 0, lost = 0\<rparr>"

inductive pool_step :: "pool_sys \<Rightarrow> pool_sys \<Rightarrow> bool" where
  acquired: "try_acquire d (pool_of s) = (Acquired, p) \<Longrightarrow>
     pool_step s (s\<lparr>pool_of := p, permits := permits s + 1\<rparr>)"
| not_acquired: "try_acquire d (pool_of s) = (r, p) \<Longrightarrow> r \<noteq> Acquired \<Longrightarrow>
     pool_step s (s\<lparr>pool_of := p\<rparr>)"
| waited: "wait_next_pass (pool_of s) = (Some d, p) \<Longrightarrow>
     pool_step s (s\<lparr>pool_of := p, taken := taken s + 1\<rparr>)"
| dropped: "0 < permits s \<Longrightarrow>
     pool_step s (s\<lparr>pool_of := drop_permit True (pool_of s), permits := permits s - 1\<rparr>)"
| dropped_dead: "0 < permits s \<Longrightarrow>
     pool_step s (s\<lparr>pool_of := drop_permit False (pool_of s), permits := permits s - 1,
                    lost := lost s + 1\<rparr>)"

inductive pool_reach :: "pool_sys \<Rightarrow> pool_sys \<Rightarrow> bool" for s0 where
  refl: "pool_reach s0 s0"
| step: "pool_reach s0 s \<Longrightarrow> pool_step s t \<Longrightarrow> pool_reach s0 t"

definition pool_inv :: "nat \<Rightarrow> nat \<Rightarrow> pool_sys \<Rightarrow> bool" where
  [inv_defs]: "pool_inv m depth s \<longleftrightarrow>
     max_slots (pool_of s) = m \<and> max_queue_depth (pool_of s) = depth
     \<and> active (pool_of s) = permits s + taken s + lost s
     \<and> active (pool_of s) \<le> m
     \<and> length (queue (pool_of s)) \<le> depth"

lemma pool_inv_init: "pool_inv m depth (init_pool_sys m depth)"
  by (simp add: pool_inv_def init_pool_sys_def with_queue_limit_def)

lemma try_acquire_Acquired:
  "try_acquire d p = (Acquired, p') \<longleftrightarrow> active p < max_slots p \<and> p' = p\<lparr>active := active p + 1\<rparr>"
  by (auto simp: try_acquire_def Let_def)

lemma wait_next_pass_Some:
  "wait_next_pass p = (Some d, p') \<longleftrightarrow>
     active p < max_slots p
     \<and> (\<exists>i q. heap_pop pool_item_cmp (queue p) = Some (i, q) \<and> d = pi_dispatch i
           \<and> p' = p\<lparr>queue := q, active := active p + 1\<rparr>)"
  by (auto simp: wait_next_pass_def split: option.splits)

lemma pool_step_inv: "pool_step s t \<Longrightarrow> pool_inv m depth s \<Longrightarrow> pool_inv m depth t"
proof (induction rule: pool_step.induct)
  case (acquired d s p)
  then show ?case by (simp add: try_acquire_Acquired pool_inv_def)
next
  case (not_acquired d s r p)
  then show ?case
    by (auto simp: try_acquire_def pool_inv_def heap_push_def Let_def split: if_splits)
next
  case (waited s d p)
  then show ?case
    by (auto simp: wait_next_pass_Some pool_inv_def dest!: heap_pop_length)
next
  case (dropped s)
  then show ?case by (auto simp: drop_permit_def pool_release_def pool_inv_def)
next
  case (dropped_dead s)
  then show ?case by (auto simp: drop_permit_def pool_inv_def)
qed

lemma pool_reach_inv: "pool_reach s0 s \<Longrightarrow> pool_inv m depth s0 \<Longrightarrow> pool_inv m depth s"
  by (induction rule: pool_reach.induct) (auto intro: pool_step_inv)

lemma pool_step_taken: "pool_step s t \<Longrightarrow> taken s \<le> taken t \<and> lost s \<le> lost t"
  by (induction rule: pool_step.induct) auto

lemma pool_reach_taken: "pool_reach s0 s \<Longrightarrow> taken s0 \<le> taken s \<and> lost s0 \<le> lost s"
  by (induction rule: pool_reach.induct) (auto dest: pool_step_taken)

lemma pool_reach_trans: "pool_reach s t \<Longrightarrow> pool_reach r s \<Longrightarrow> pool_reach r t"
  by (induction rule: pool_reach.induct) (auto intro: pool_reach.step)

section \<open>Properties\<close>

text \<open>
  C40. In every reachable state of the pool the slots in use are exactly the permits held,
  the slots taken by \<open>wait_next\<close> and the permits lost at shutdown; there are never more
  than the configured maximum, and the queue never exceeds its depth.
\<close>

theorem pool_slots_accounted:
  assumes "pool_reach (init_pool_sys m depth) s"
  shows "active (pool_of s) = permits s + taken s + lost s
    \<and> active (pool_of s) \<le> m \<and> length (queue (pool_of s)) \<le> depth"
  using pool_reach_inv[OF assms pool_inv_init] by (simp add: pool_inv_def)

definition sample_dispatch :: queued_dispatch where
  "sample_dispatch = \<lparr>qd_task_id = 5, qd_priority = P1\<rparr>"

definition full_pool :: pool where
  "full_pool = (with_queue_limit 1 2)\<lparr>active := 1, seq := 1,
     queue := [\<lparr>pi_seq = 0, pi_dispatch = sample_dispatch\<rparr>]\<rparr>"

text \<open>A run: acquire the only slot, queue a dispatch, drop the permit, and let \<open>wait_next\<close>
  take the slot for the queued dispatch.\<close>

definition stuck_sys :: pool_sys where
  "stuck_sys = \<lparr>pool_of = full_pool\<lparr>queue := []\<rparr>, permits = 0, taken = 1, lost = 0\<rparr>"

lemma reach_stuck: "pool_reach (init_pool_sys 1 2) stuck_sys"
proof -
  let ?s1 = "\<lparr>pool_of = (with_queue_limit 1 2)\<lparr>active := 1\<rparr>, permits = 1, taken = 0, lost = 0\<rparr>"
  let ?s2 = "\<lparr>pool_of = full_pool, permits = 1, taken = 0, lost = 0\<rparr>"
  let ?s3 = "\<lparr>pool_of = full_pool\<lparr>active := 0\<rparr>, permits = 0, taken = 0, lost = 0\<rparr>"
  have 1: "pool_step (init_pool_sys 1 2) ?s1"
    using acquired[of sample_dispatch "init_pool_sys 1 2" "(with_queue_limit 1 2)\<lparr>active := 1\<rparr>"]
    by (simp add: init_pool_sys_def try_acquire_def with_queue_limit_def)
  have 2: "pool_step ?s1 ?s2"
    using not_acquired[of sample_dispatch ?s1 "Queued 1" full_pool]
    by (simp add: try_acquire_def with_queue_limit_def full_pool_def heap_push_def)
  have 3: "pool_step ?s2 ?s3"
    using dropped[of ?s2]
    by (simp add: drop_permit_def pool_release_def full_pool_def with_queue_limit_def)
  have 4: "pool_step ?s3 stuck_sys"
    using waited[of ?s3 sample_dispatch "full_pool\<lparr>queue := []\<rparr>"]
    by (simp add: wait_next_pass_def full_pool_def with_queue_limit_def heap_pop_def stuck_sys_def)
  show ?thesis
    by (rule pool_reach.step[OF pool_reach.step[OF pool_reach.step[OF pool_reach.step[OF
          pool_reach.refl 1] 2] 3] 4])
qed

theorem pool_slots_accounted_witness: "active (pool_of stuck_sys) \<le> 1"
  using pool_slots_accounted[OF reach_stuck] by simp

text \<open>
  A slot that \<open>wait_next\<close> takes is never given back: once such slots (with those lost
  at shutdown) fill the pool, in every later state both \<open>try_acquire\<close> and \<open>wait_next\<close>
  refuse to start anything.
\<close>

theorem slots_taken_by_wait_next_are_lost:
  assumes "pool_reach (init_pool_sys m depth) s" and "taken s + lost s = m"
    and "pool_reach s t"
  shows "fst (try_acquire d (pool_of t)) \<noteq> Acquired \<and> wait_next_pass (pool_of t) = (None, pool_of t)"
proof -
  have "pool_inv m depth t"
    using pool_reach_inv[OF assms(3)] pool_reach_inv[OF assms(1) pool_inv_init] by blast
  moreover have "m \<le> taken t + lost t"
    using pool_reach_taken[OF assms(3)] assms(2) by simp
  ultimately have "\<not> active (pool_of t) < max_slots (pool_of t)"
    by (simp add: pool_inv_def)
  then show ?thesis
    by (auto simp: try_acquire_def wait_next_pass_def Let_def)
qed

theorem slots_taken_by_wait_next_are_lost_witness:
  "fst (try_acquire sample_dispatch (pool_of stuck_sys)) \<noteq> Acquired"
  using slots_taken_by_wait_next_are_lost[OF reach_stuck _ pool_reach.refl, of sample_dispatch]
  by (simp add: stuck_sys_def)

text \<open>
  A dispatch that \<open>wait_next\<close> returns is the best one waiting: no queued dispatch has a
  better priority, and none of the same priority has an earlier sequence number.
\<close>

theorem wait_next_takes_best:
  assumes "wait_next_pass p = (Some d, p')"
  shows "\<exists>i. i \<in> set (queue p) \<and> d = pi_dispatch i \<and> queue p' = remove1 i (queue p)
    \<and> (\<forall>j \<in> set (queue p). pool_item_key i \<le> pool_item_key j)"
proof -
  from assms obtain i q where pop: "heap_pop pool_item_cmp (queue p) = Some (i, q)"
    and d: "d = pi_dispatch i" "p' = p\<lparr>queue := q, active := active p + 1\<rparr>"
    by (auto simp: wait_next_pass_Some)
  have "q = remove1 i (queue p)"
    using pop by (auto simp: heap_pop_def Let_def split: list.splits)
  moreover have "i \<in> set (queue p)" using heap_pop_set[OF pop] by simp
  moreover have "pool_item_key i \<le> pool_item_key j" if "j \<in> set (queue p)" for j
    using pool_heap.pop_least[OF pop] that by simp
  ultimately show ?thesis using d by auto
qed

theorem wait_next_takes_best_witness:
  "\<exists>i. i \<in> set (queue full_pool) \<and> sample_dispatch = pi_dispatch i"
proof -
  have "wait_next_pass (full_pool\<lparr>active := 0\<rparr>) =
      (Some sample_dispatch, full_pool\<lparr>active := 1, queue := []\<rparr>)"
    by (simp add: wait_next_pass_def full_pool_def with_queue_limit_def heap_pop_def)
  from wait_next_takes_best[OF this] show ?thesis by auto
qed

end
