(* ===== verification/Workflow_Def.thy ===== *)
theory Workflow_Def
  imports Task
begin

text \<open>
  \<open>crates/pnevma-core/src/workflow.rs\<close>: workflow definitions, their validation, the
  depth-first search that rejects cyclic step dependencies, and the loader that skips
  invalid files. The YAML parser is a parameter. An out-of-range index, a panic of the
  program, is the result \<open>None\<close> of the search; validated indices never reach it.
\<close>

section \<open>Data\<close>

datatype failure_policy = Pause | RetryOnce | Skip

datatype loop_mode = OnFailure | UntilComplete

datatype workflow_status = WfRunning | WfCompleted | WfFailed

fun execution_mode_as_str :: "execution_mode \<Rightarrow> string" where
  "execution_mode_as_str Worktree = ''worktree''"
| "execution_mode_as_str MainMode = ''main''"

fun failure_policy_as_str :: "failure_policy \<Rightarrow> string" where
  "failure_policy_as_str Pause = ''Pause''"
| "failure_policy_as_str RetryOnce = ''RetryOnce''"
| "failure_policy_as_str Skip = ''Skip''"

record loop_config =
  lc_target :: nat
  lc_max_iterations :: u32
  lc_mode :: loop_mode

definition default_max_loop_iterations :: u32 where
  "default_max_loop_iterations = 5"

record workflow_step =
  ws_title :: string
  ws_goal :: string
  ws_scope :: "string list"
  ws_priority :: string
  ws_depends_on :: "nat list"
  ws_auto_dispatch :: bool
  ws_acceptance_criteria :: "string list"
  ws_constraints :: "string list"
  ws_on_failure :: failure_policy
  ws_agent_profile :: "string option"
  ws_execution_mode :: execution_mode
  ws_timeout_minutes :: "u64 option"
  ws_max_retries :: "u32 option"
  ws_loop_config :: "loop_config option"

definition default_priority :: string where
  "default_priority = ''P1''"

record stage_result =
  sr_step_index :: nat
  sr_task_id :: string
  sr_status :: string
  sr_completed_at :: "time option"

record workflow_def =
  wf_name :: string
  wf_description :: "string option"
  wf_steps :: "workflow_step list"

record workflow_instance =
  wi_id :: uuid
  wi_workflow_name :: string
  wi_description :: "string option"
  wi_project_id :: uuid
  wi_task_ids :: "uuid list"
  wi_status :: workflow_status
  wi_created_at :: time
  wi_updated_at :: time

text \<open>The \<open>InvalidConfig\<close> messages, one constructor per message, and the errors of loading.\<close>

datatype workflow_error =
    NameEmpty
  | NoSteps
  | TitleEmpty nat
  | GoalEmpty nat
  | DependsOutOfBounds nat nat nat
  | DependsOnItself nat
  | TimeoutZero nat
  | TooManyRetries nat u32
  | ProfileEmpty nat
  | UntilCompleteTarget nat nat
  | LoopTarget nat nat
  | LoopIterations nat u32
  | DependencyCycle
  | Serialization string
  | IoError

section \<open>Cycle detection\<close>

text \<open>The marks 0, 1 and 2 of the search.\<close>

datatype mark = Unvisited | InStack | Finished

abbreviation deps_of :: "workflow_step list \<Rightarrow> nat \<Rightarrow> nat list" where
  "deps_of steps i \<equiv> ws_depends_on (steps ! i)"

definition unvisited :: "mark list \<Rightarrow> nat" where
  "unvisited state = length (filter (\<lambda>m. m = Unvisited) state)"

text \<open>\<open>dfs\<close> is the nested function of \<open>has_cycle\<close>, \<open>dfs_deps\<close> its loop over \<open>depends_on\<close>.
  Both return whether a cycle was found, with the marks.\<close>

function (sequential)
  dfs :: "workflow_step list \<Rightarrow> nat \<Rightarrow> mark list \<Rightarrow> (bool \<times> mark list) option"
  and dfs_deps :: "workflow_step list \<Rightarrow> nat list \<Rightarrow> mark list \<Rightarrow> (bool \<times> mark list) option"
where
  "dfs steps node state =
     (if node < length state \<and> node < length steps then
        (case dfs_deps steps (deps_of steps node) (state[node := InStack]) of
           None \<Rightarrow> None
         | Some (True, state') \<Rightarrow> Some (True, state')
         | Some (False, state') \<Rightarrow> Some (False, state'[node := Finished]))
      else None)"
| "dfs_deps steps [] state = Some (False, state)"
| "dfs_deps steps (dep # deps) state =
     (if dep < length state then
        (if state ! dep = InStack then Some (True, state)
         else if state ! dep = Unvisited then
           (case dfs steps dep state of
              None \<Rightarrow> None
            | Some (True, state') \<Rightarrow> Some (True, state')
            | Some (False, state') \<Rightarrow> dfs_deps steps deps state')
         else dfs_deps steps deps state)
      else None)"
  by pat_completeness auto

lemma unvisited_update_le:
  assumes "m \<noteq> Unvisited"
  shows "unvisited (state[i := m]) \<le> unvisited state"
  using assms
proof (induction state arbitrary: i)
  case (Cons a state)
  then show ?case by (cases i) (auto simp: unvisited_def)
qed (simp add: unvisited_def)

lemma unvisited_update_less:
  assumes "i < length state" "state ! i = Unvisited" "m \<noteq> Unvisited"
  shows "unvisited (state[i := m]) < unvisited state"
  using assms
proof (induction state arbitrary: i)
  case (Cons a state)
  then show ?case by (cases i) (auto simp: unvisited_def)
qed simp

lemma dfs_unvisited:
  "dfs_dfs_deps_dom (Inl (steps, node, state)) \<Longrightarrow> dfs steps node state = Some (b, state') \<Longrightarrow>
     unvisited state' \<le> unvisited state"
  "dfs_dfs_deps_dom (Inr (steps, deps, state)) \<Longrightarrow> dfs_deps steps deps state = Some (b, state') \<Longrightarrow>
     unvisited state' \<le> unvisited state"
proof (induction arbitrary: b state' and b state' rule: dfs_dfs_deps.pinduct)
  case (1 steps node state)
  have le: "unvisited (state[node := InStack]) \<le> unvisited state"
    by (rule unvisited_update_le) simp
  have fin: "unvisited (s[node := Finished]) \<le> unvisited s" for s
    by (rule unvisited_update_le) simp
  from 1 show ?case
    by (auto simp: dfs.psimps split: if_splits option.splits bool.splits)
       (meson le fin order_trans)+
next
  case (2 steps state)
  then show ?case by (simp add: dfs_deps.psimps)
next
  case (3 steps dep deps state)
  from 3 show ?case
    by (fastforce simp: dfs_deps.psimps split: if_splits option.splits bool.splits)
qed

termination dfs
proof (relation "inv_image (less_than <*lex*> less_than <*lex*> less_than)
    (\<lambda>x. case x of
       Inl (steps, node, state) \<Rightarrow> (unvisited (state[node := InStack]), 1, 0)
     | Inr (steps, deps, state) \<Rightarrow> (unvisited state, 0, length deps))")
  show "wf (inv_image (less_than <*lex*> less_than <*lex*> less_than)
    (\<lambda>x. case x of
       Inl (steps, node, state) \<Rightarrow> (unvisited (state[node := InStack]), 1, 0)
     | Inr (steps, deps, state) \<Rightarrow> (unvisited state, 0, length deps)))"
    by (intro wf_inv_image wf_lex_prod wf_less_than)
qed (auto simp: le_less dest!: dfs_unvisited intro: unvisited_update_less)

declare dfs.simps [simp del]

text \<open>The loop of \<open>has_cycle\<close> over the nodes.\<close>

fun scan_nodes :: "workflow_step list \<Rightarrow> nat list \<Rightarrow> mark list \<Rightarrow> bool option" where
  "scan_nodes steps [] state = Some False"
| "scan_nodes steps (i # is) state =
     (if i < length state then
        (if state ! i = Unvisited then
           (case dfs steps i state of
              None \<Rightarrow> None
            | Some (True, state') \<Rightarrow> Some True
            | Some (False, state') \<Rightarrow> scan_nodes steps is state')
         else scan_nodes steps is state)
      else None)"

definition has_cycle :: "workflow_step list \<Rightarrow> bool option" where
  "has_cycle steps =
     scan_nodes steps [0..<length steps] (replicate (length steps) Unvisited)"

section \<open>Validation and loading\<close>

fun check_deps :: "nat \<Rightarrow> nat \<Rightarrow> nat list \<Rightarrow> workflow_error option" where
  "check_deps step_count i [] = None"
| "check_deps step_count i (dep # deps) =
     (if step_count \<le> dep then Some (DependsOutOfBounds i dep (step_count - 1))
      else if dep = i then Some (DependsOnItself i)
      else check_deps step_count i deps)"

definition check_loop :: "nat \<Rightarrow> loop_config \<Rightarrow> workflow_error option" where
  "check_loop i lp =
     (if lc_mode lp = UntilComplete \<and> lc_target lp > i then Some (UntilCompleteTarget i (lc_target lp))
      else if lc_mode lp \<noteq> UntilComplete \<and> lc_target lp \<ge> i then Some (LoopTarget i (lc_target lp))
      else if lc_max_iterations lp = 0 \<or> lc_max_iterations lp > 20
      then Some (LoopIterations i (lc_max_iterations lp))
      else None)"

definition check_rest :: "nat \<Rightarrow> workflow_step \<Rightarrow> workflow_error option" where
  "check_rest i step =
     (case ws_agent_profile step of
        Some profile \<Rightarrow>
          if str_trim profile = [] then Some (ProfileEmpty i)
          else (case ws_loop_config step of None \<Rightarrow> None | Some lp \<Rightarrow> check_loop i lp)
      | None \<Rightarrow> (case ws_loop_config step of None \<Rightarrow> None | Some lp \<Rightarrow> check_loop i lp))"

text \<open>The body of the loop of \<open>validate\<close>: the first check that fails.\<close>

definition check_step :: "nat \<Rightarrow> nat \<Rightarrow> workflow_step \<Rightarrow> workflow_error option" where
  "check_step step_count i step =
     (if str_trim (ws_title step) = [] then Some (TitleEmpty i)
      else if str_trim (ws_goal step) = [] then Some (GoalEmpty i)
      else case check_deps step_count i (ws_depends_on step) of
        Some e \<Rightarrow> Some e
      | None \<Rightarrow>
          (if ws_timeout_minutes step = Some 0 then Some (TimeoutZero i)
           else case ws_max_retries step of
             Some r \<Rightarrow> if r > 5 then Some (TooManyRetries i r) else check_rest i step
           | None \<Rightarrow> check_rest i step))"

fun check_steps :: "nat \<Rightarrow> nat \<Rightarrow> workflow_step list \<Rightarrow> workflow_error option" where
  "check_steps step_count i [] = None"
| "check_steps step_count i (step # steps) =
     (case check_step step_count i step of
        Some e \<Rightarrow> Some e
      | None \<Rightarrow> check_steps step_count (Suc i) steps)"

definition validate :: "workflow_def \<Rightarrow> (workflow_error + unit) option" where
  "validate flow =
     (if str_trim (wf_name flow) = [] then Some (Err NameEmpty)
      else if wf_steps flow = [] then Some (Err NoSteps)
      else case check_steps (length (wf_steps flow)) 0 (wf_steps flow) of
        Some e \<Rightarrow> Some (Err e)
      | None \<Rightarrow>
          (case has_cycle (wf_steps flow) of
             None \<Rightarrow> None
           | Some True \<Rightarrow> Some (Err DependencyCycle)
           | Some False \<Rightarrow> Some (Ok ())))"

text \<open>The YAML deserializer is the parameter \<open>from_str\<close>.\<close>

definition from_yaml ::
  "(string \<Rightarrow> string + workflow_def) \<Rightarrow> string \<Rightarrow> (workflow_error + workflow_def) option" where
  "from_yaml from_str yaml =
     (case from_str yaml of
        Err e \<Rightarrow> Some (Err (Serialization (''invalid workflow YAML: '' @ e)))
      | Ok flow \<Rightarrow>
          (case validate flow of
             None \<Rightarrow> None
           | Some (Err e) \<Rightarrow> Some (Err e)
           | Some (Ok _) \<Rightarrow> Some (Ok flow)))"

text \<open>\<open>Path::extension\<close> of a file name: what follows the last dot, unless the dot is first.\<close>

definition path_extension :: "string \<Rightarrow> string option" where
  "path_extension name =
     (let ext = rev (takeWhile (\<lambda>c. c \<noteq> CHR ''.'') (rev name))
      in if length name \<le> Suc (length ext) \<or> name = ''..'' then None else Some ext)"

text \<open>A directory entry: an I/O error of \<open>read_dir\<close>, or a file name with the content that
  \<open>read_to_string\<close> gives (an error is \<open>None\<close>).\<close>

type_synonym dir_entry = "(string \<times> string option) option"

definition from_file ::
  "(string \<Rightarrow> string + workflow_def) \<Rightarrow> string option \<Rightarrow> (workflow_error + workflow_def) option" where
  "from_file from_str content =
     (case content of None \<Rightarrow> Some (Err IoError) | Some raw \<Rightarrow> from_yaml from_str raw)"

fun load_entries ::
  "(string \<Rightarrow> string + workflow_def) \<Rightarrow> dir_entry list \<Rightarrow> workflow_def list
     \<Rightarrow> (workflow_error + workflow_def list) option" where
  "load_entries from_str [] workflows = Some (Ok workflows)"
| "load_entries from_str (None # entries) workflows = Some (Err IoError)"
| "load_entries from_str (Some (name, content) # entries) workflows =
     (if path_extension name = Some ''yaml'' \<or> path_extension name = Some ''yml'' then
        (case from_file from_str content of
           None \<Rightarrow> None
         | Some (Ok flow) \<Rightarrow> load_entries from_str entries (workflows @ [flow])
         | Some (Err e) \<Rightarrow> load_entries from_str entries workflows)
      else load_entries from_str entries workflows)"

text \<open>\<open>listing\<close>: \<open>None\<close> when the path is no directory, else the result of \<open>read_dir\<close>.\<close>

definition load_all ::
  "(string \<Rightarrow> string + workflow_def) \<Rightarrow> (unit + dir_entry list) option
     \<Rightarrow> (workflow_error + workflow_def list) option" where
  "load_all from_str listing =
     (case listing of
        None \<Rightarrow> Some (Ok [])
      | Some (Err _) \<Rightarrow> Some (Err IoError)
      | Some (Ok entries) \<Rightarrow> load_entries from_str entries [])"

section \<open>Correctness of the search\<close>

definition edges :: "workflow_step list \<Rightarrow> (nat \<times> nat) set" where
  "edges steps = {(i, j). i < length steps \<and> j \<in> set (deps_of steps i)}"

definition in_bounds :: "workflow_step list \<Rightarrow> bool" where
  "in_bounds steps \<longleftrightarrow> (\<forall>i < length steps. \<forall>j \<in> set (deps_of steps i). j < length steps)"

text \<open>The invariant of the marks: a finished node has finished successors only, and lies on
  no cycle.\<close>

definition marks_ok :: "workflow_step list \<Rightarrow> mark list \<Rightarrow> bool" where
  [inv_defs]: "marks_ok steps state \<longleftrightarrow> length state = length steps
     \<and> (\<forall>i < length steps. state ! i = Finished \<longrightarrow>
          (\<forall>j \<in> set (deps_of steps i). state ! j = Finished) \<and> (i, i) \<notin> (edges steps)\<^sup>+)"

definition stacked :: "mark list \<Rightarrow> nat set" where
  "stacked state = {i. i < length state \<and> state ! i = InStack}"

definition finished :: "mark list \<Rightarrow> nat set" where
  "finished state = {i. i < length state \<and> state ! i = Finished}"

text \<open>The result of a search that found nothing: the stack is as before, more is finished.\<close>

definition searched :: "workflow_step list \<Rightarrow> mark list \<Rightarrow> nat set \<Rightarrow> mark list \<Rightarrow> bool" where
  "searched steps state new state' \<longleftrightarrow> marks_ok steps state' \<and> stacked state' = stacked state
     \<and> finished state \<union> new \<subseteq> finished state'"

lemma searched_refl: "marks_ok steps state \<Longrightarrow> searched steps state {} state"
  by (simp add: searched_def)

lemma searched_trans:
  "searched steps s A s' \<Longrightarrow> searched steps s' B s'' \<Longrightarrow> searched steps s (A \<union> B) s''"
  by (auto simp: searched_def)

lemma closed_reach:
  assumes "\<And>i j. (i, j) \<in> E \<Longrightarrow> i \<in> S \<Longrightarrow> j \<in> S" "(i, j) \<in> E\<^sup>*" "i \<in> S"
  shows "j \<in> S"
  using assms(2,3) by (induction rule: rtrancl_induct) (auto intro: assms(1))

text \<open>Marking a node finished once its successors are finished keeps the invariant.\<close>

lemma finish_node:
  assumes ok: "marks_ok steps state" and n: "node < length steps" "state ! node = InStack"
    and succ: "\<And>j. j \<in> set (deps_of steps node) \<Longrightarrow> j < length steps \<and> state ! j = Finished"
    and ib: "in_bounds steps"
  shows "marks_ok steps (state[node := Finished])"
proof -
  have len: "length state = length steps" using ok by (simp add: marks_ok_def)
  have closed: "j \<in> finished state" if "(i, j) \<in> edges steps" "i \<in> finished state" for i j
    using that ok ib by (auto simp: edges_def finished_def marks_ok_def in_bounds_def)
  have acyc: "(node, node) \<notin> (edges steps)\<^sup>+"
  proof
    assume "(node, node) \<in> (edges steps)\<^sup>+"
    then obtain j where j: "(node, j) \<in> edges steps" "(j, node) \<in> (edges steps)\<^sup>*"
      by (meson tranclD)
    then have jf: "j \<in> finished state"
      using succ len by (auto simp: edges_def finished_def)
    have "node \<in> finished state"
      by (rule closed_reach[OF _ j(2) jf]) (rule closed)
    with n show False by (simp add: finished_def)
  qed
  show ?thesis
    using ok n succ acyc ib len
    by (auto simp: marks_ok_def nth_list_update in_bounds_def)
qed

definition outcome :: "workflow_step list \<Rightarrow> mark list \<Rightarrow> nat set \<Rightarrow> (bool \<times> mark list) option \<Rightarrow> bool"
where
  "outcome steps state new r \<longleftrightarrow>
     (\<exists>b state'. r = Some (b, state') \<and>
        (if b then (\<exists>x. (x, x) \<in> (edges steps)\<^sup>+) else searched steps state new state'))"

lemma outcome_cycle: "(x, x) \<in> (edges steps)\<^sup>+ \<Longrightarrow> outcome steps state new (Some (True, state'))"
  by (auto simp: outcome_def)

lemma outcome_searched: "searched steps state new state' \<Longrightarrow> outcome steps state new (Some (False, state'))"
  by (auto simp: outcome_def)

lemma outcomeE:
  assumes "outcome steps state new r"
  obtains (cycle) x state' where "r = Some (True, state')" "(x, x) \<in> (edges steps)\<^sup>+"
  | (clean) state' where "r = Some (False, state')" "searched steps state new state'"
proof -
  from assms obtain b state' where r: "r = Some (b, state')"
    and o: "if b then (\<exists>x. (x, x) \<in> (edges steps)\<^sup>+) else searched steps state new state'"
    unfolding outcome_def by blast
  show thesis
  proof (cases b)
    case True
    with r o cycle show thesis by auto
  next
    case False
    with r o clean show thesis by auto
  qed
qed

lemma marks_ok_length: "marks_ok steps state \<Longrightarrow> length state = length steps"
  by (simp add: marks_ok_def)

lemma marks_okD:
  assumes "marks_ok steps state" "i < length steps" "state ! i = Finished"
  shows "j \<in> set (deps_of steps i) \<Longrightarrow> state ! j = Finished" "(i, i) \<notin> (edges steps)\<^sup>+"
  using assms unfolding marks_ok_def by blast+

lemma marks_okI:
  assumes "length state = length steps"
    and "\<And>i j. i < length steps \<Longrightarrow> state ! i = Finished \<Longrightarrow> j \<in> set (deps_of steps i)
           \<Longrightarrow> state ! j = Finished"
    and "\<And>i. i < length steps \<Longrightarrow> state ! i = Finished \<Longrightarrow> (i, i) \<notin> (edges steps)\<^sup>+"
  shows "marks_ok steps state"
  using assms unfolding marks_ok_def by blast

lemma start_node:
  assumes ok: "marks_ok steps state" and n: "node < length steps" "state ! node = Unvisited"
  shows "marks_ok steps (state[node := InStack])"
    and "stacked (state[node := InStack]) = insert node (stacked state)"
    and "finished (state[node := InStack]) = finished state"
proof -
  note len = marks_ok_length[OF ok]
  have upd: "(state[node := InStack]) ! i = Finished \<longleftrightarrow> state ! i = Finished" for i
    using n len by (cases "i = node") simp_all
  show "marks_ok steps (state[node := InStack])"
    by (rule marks_okI) (simp_all add: len upd marks_okD[OF ok])
  show "stacked (state[node := InStack]) = insert node (stacked state)"
    using n len by (auto simp: stacked_def nth_list_update)
  show "finished (state[node := InStack]) = finished state"
    by (simp add: finished_def upd)
qed

lemma dfs_correct:
  "in_bounds steps \<Longrightarrow> marks_ok steps state \<Longrightarrow> node < length steps \<Longrightarrow> state ! node = Unvisited
     \<Longrightarrow> \<forall>g \<in> stacked state. (g, node) \<in> (edges steps)\<^sup>*
     \<Longrightarrow> outcome steps state {node} (dfs steps node state)"
  "in_bounds steps \<Longrightarrow> marks_ok steps state \<Longrightarrow> u < length steps \<Longrightarrow> state ! u = InStack
     \<Longrightarrow> set deps \<subseteq> set (deps_of steps u)
     \<Longrightarrow> \<forall>g \<in> stacked state. (g, u) \<in> (edges steps)\<^sup>*
     \<Longrightarrow> outcome steps state (set deps) (dfs_deps steps deps state)"
proof (induction steps node state and steps deps state arbitrary: and u rule: dfs_dfs_deps.induct)
  case (1 steps node state)
  let ?st = "state[node := InStack]"
  have len: "length state = length steps" using "1.prems" by (simp add: marks_ok_def)
  note start = start_node[OF "1.prems"(2-4)]
  have "outcome steps ?st (set (deps_of steps node)) (dfs_deps steps (deps_of steps node) ?st)"
    using "1.IH"[of node] "1.prems" start len by auto
  then show ?case
  proof (cases rule: outcomeE)
    case (cycle x st')
    with "1.prems" len show ?thesis by (auto simp: dfs.simps intro: outcome_cycle)
  next
    case (clean st')
    have gray: "st' ! node = InStack" and len': "length st' = length steps"
      using clean(2) start(2) by (auto simp: searched_def stacked_def dest: marks_ok_length)
    have "marks_ok steps (st'[node := Finished])"
      using clean(2) "1.prems" gray len'
      by (intro finish_node) (auto simp: searched_def finished_def in_bounds_def)
    moreover have "stacked (st'[node := Finished]) = stacked state"
      using clean(2) start(2) "1.prems"(3,4) len len' gray
      by (auto simp: searched_def stacked_def nth_list_update split: if_splits)
    moreover have "finished state \<union> {node} \<subseteq> finished (st'[node := Finished])"
      using clean(2) start(3) "1.prems"(3) len len'
      by (auto simp: searched_def finished_def nth_list_update)
    ultimately show ?thesis
      using clean(1) "1.prems"(3) len
      by (auto simp: dfs.simps searched_def intro!: outcome_searched)
  qed
next
  case (2 steps state)
  then show ?case by (simp add: outcome_searched searched_refl)
next
  case (3 steps dep deps state)
  have len: "length state = length steps" using "3.prems" by (simp add: marks_ok_def)
  have e: "(u, dep) \<in> edges steps" using "3.prems" by (auto simp: edges_def)
  have dep: "dep < length steps" using e "3.prems"(1) by (auto simp: edges_def in_bounds_def)
  consider (gray) "state ! dep = InStack" | (new) "state ! dep = Unvisited"
    | (old) "state ! dep = Finished"
    by (cases "state ! dep") auto
  then show ?case
  proof cases
    case gray
    then have "(dep, u) \<in> (edges steps)\<^sup>*"
      using "3.prems"(6) dep len by (simp add: stacked_def)
    then have "(dep, dep) \<in> (edges steps)\<^sup>+" using e by (rule rtrancl_into_trancl1)
    then show ?thesis using gray dep len by (simp add: outcome_cycle)
  next
    case old
    then have "outcome steps state (set deps) (dfs_deps steps deps state)"
      using "3.IH"(3)[of u] "3.prems" dep len by auto
    then show ?thesis
      by (cases rule: outcomeE)
         (use old dep len in \<open>auto simp: outcome_cycle searched_def finished_def intro!: outcome_searched\<close>)
  next
    case new
    have "outcome steps state {dep} (dfs steps dep state)"
      using "3.IH"(1) "3.prems" new dep len e
      by (auto intro: rtrancl_into_rtrancl)
    then show ?thesis
    proof (cases rule: outcomeE)
      case (cycle x st')
      then show ?thesis using new dep len by (simp add: outcome_cycle)
    next
      case (clean st')
      have "outcome steps st' (set deps) (dfs_deps steps deps st')"
        using "3.IH"(2)[of "(False, st')" False st' u] clean "3.prems" new dep len
        by (auto simp: searched_def stacked_def)
      then show ?thesis
      proof (cases rule: outcomeE)
        case (cycle x st'')
        then show ?thesis using clean new dep len by (simp add: outcome_cycle)
      next
        case clean2: (clean st'')
        from searched_trans[OF clean(2) clean2(2)] show ?thesis
          using clean clean2 new dep len by (simp add: outcome_searched)
      qed
    qed
  qed
qed

lemma scan_nodes_correct:
  assumes "in_bounds steps" "marks_ok steps state" "stacked state = {}"
    and "set is \<subseteq> {..<length steps}"
    and "{..<length steps} - set is \<subseteq> finished state"
  shows "scan_nodes steps is state = Some (\<exists>x. (x, x) \<in> (edges steps)\<^sup>+)"
  using assms
proof (induction "is" arbitrary: state)
  case Nil
  have "(x, x) \<notin> (edges steps)\<^sup>+" for x
  proof
    assume c: "(x, x) \<in> (edges steps)\<^sup>+"
    then have x: "x < length steps" by (auto simp: edges_def dest: tranclD)
    then have "state ! x = Finished" using Nil.prems(5) by (auto simp: finished_def)
    with marks_okD(2)[OF Nil.prems(2) x] c show False by blast
  qed
  then show ?case by simp
next
  case (Cons i "is")
  have len: "length state = length steps" using Cons.prems(2) by (rule marks_ok_length)
  have i: "i < length state" using Cons.prems(4) len by simp
  show ?case
  proof (cases "state ! i = Unvisited")
    case False
    then have "i \<in> finished state"
      using Cons.prems(3) i by (cases "state ! i") (auto simp: finished_def stacked_def)
    then have "{..<length steps} - set is \<subseteq> finished state" using Cons.prems(5) by auto
    then show ?thesis using Cons.IH[of state] Cons.prems i False by simp
  next
    case True
    have "outcome steps state {i} (dfs steps i state)"
      using dfs_correct(1)[of steps state i] Cons.prems True i len by simp
    then show ?thesis
    proof (cases rule: outcomeE)
      case (cycle x st')
      then show ?thesis using i True by auto
    next
      case (clean st')
      have "{..<length steps} - set is \<subseteq> finished st'"
        using clean(2) Cons.prems(5) by (auto simp: searched_def)
      then have "scan_nodes steps is st' = Some (\<exists>x. (x, x) \<in> (edges steps)\<^sup>+)"
        using Cons.IH[of st'] clean(2) Cons.prems by (simp add: searched_def)
      then show ?thesis using clean i True by simp
    qed
  qed
qed

lemma has_cycle_correct:
  assumes "in_bounds steps"
  shows "has_cycle steps = Some (\<exists>x. (x, x) \<in> (edges steps)\<^sup>+)"
  unfolding has_cycle_def
proof (rule scan_nodes_correct[OF assms])
  show "marks_ok steps (replicate (length steps) Unvisited)"
    by (rule marks_okI) simp_all
qed (auto simp: stacked_def)

section \<open>What validation accepts\<close>

definition loop_ok :: "nat \<Rightarrow> loop_config \<Rightarrow> bool" where
  "loop_ok i lp \<longleftrightarrow> 1 \<le> lc_max_iterations lp \<and> lc_max_iterations lp \<le> 20
     \<and> (if lc_mode lp = UntilComplete then lc_target lp \<le> i else lc_target lp < i)"

definition step_ok :: "nat \<Rightarrow> nat \<Rightarrow> workflow_step \<Rightarrow> bool" where
  "step_ok n i step \<longleftrightarrow> str_trim (ws_title step) \<noteq> [] \<and> str_trim (ws_goal step) \<noteq> []
     \<and> (\<forall>d \<in> set (ws_depends_on step). d < n \<and> d \<noteq> i)
     \<and> ws_timeout_minutes step \<noteq> Some 0
     \<and> pred_option (\<lambda>r. r \<le> 5) (ws_max_retries step)
     \<and> pred_option (\<lambda>p. str_trim p \<noteq> []) (ws_agent_profile step)
     \<and> pred_option (loop_ok i) (ws_loop_config step)"

definition acyclic_steps :: "workflow_step list \<Rightarrow> bool" where
  "acyclic_steps steps \<longleftrightarrow> acyclic (edges steps)"

definition workflow_ok :: "workflow_def \<Rightarrow> bool" where
  [inv_defs]: "workflow_ok flow \<longleftrightarrow> str_trim (wf_name flow) \<noteq> [] \<and> wf_steps flow \<noteq> []
     \<and> (\<forall>i < length (wf_steps flow). step_ok (length (wf_steps flow)) i (wf_steps flow ! i))
     \<and> acyclic_steps (wf_steps flow)"

lemma check_deps_None: "check_deps n i deps = None \<longleftrightarrow> (\<forall>d \<in> set deps. d < n \<and> d \<noteq> i)"
  by (induction deps) auto

lemma word_ge_one: "(1 :: 'a::len word) \<le> w \<longleftrightarrow> w \<noteq> 0"
  by (metis linorder_not_less word_less_1)

lemma check_loop_None: "check_loop i lp = None \<longleftrightarrow> loop_ok i lp"
  by (auto simp: check_loop_def loop_ok_def not_le not_less word_ge_one)

lemma check_rest_None:
  "check_rest i step = None \<longleftrightarrow> pred_option (\<lambda>p. str_trim p \<noteq> []) (ws_agent_profile step)
     \<and> pred_option (loop_ok i) (ws_loop_config step)"
  by (simp add: check_rest_def check_loop_None split: option.split)

lemma check_step_None: "check_step n i step = None \<longleftrightarrow> step_ok n i step"
proof (cases "ws_max_retries step")
  case None
  then show ?thesis
    by (simp add: check_step_def step_ok_def check_rest_None check_deps_None[symmetric]
        split: option.split)
next
  case (Some r)
  have "5 < r \<longleftrightarrow> \<not> r \<le> 5" by (simp add: not_le)
  with Some show ?thesis
    by (simp add: check_step_def step_ok_def check_rest_None check_deps_None[symmetric]
        split: option.split)
qed

lemma check_steps_None:
  "check_steps n i steps = None \<longleftrightarrow> (\<forall>k < length steps. step_ok n (i + k) (steps ! k))"
proof (induction steps arbitrary: i)
  case (Cons step steps)
  have "check_steps n i (step # steps) = None \<longleftrightarrow>
      step_ok n i step \<and> (\<forall>k < length steps. step_ok n (Suc i + k) (steps ! k))"
    by (simp add: Cons.IH check_step_None[symmetric] split: option.split)
  then show ?case by (simp add: All_less_Suc2)
qed simp

lemma steps_ok_in_bounds:
  "\<forall>i < length steps. step_ok (length steps) i (steps ! i) \<Longrightarrow> in_bounds steps"
  by (auto simp: in_bounds_def step_ok_def)

lemma validate_checked:
  assumes "check_steps (length (wf_steps flow)) 0 (wf_steps flow) = None"
    and "str_trim (wf_name flow) \<noteq> []" "wf_steps flow \<noteq> []"
  shows "validate flow =
    Some (if acyclic_steps (wf_steps flow) then Ok () else Err DependencyCycle)"
proof -
  have "in_bounds (wf_steps flow)"
    using assms(1) by (intro steps_ok_in_bounds) (simp add: check_steps_None)
  from has_cycle_correct[OF this] have "has_cycle (wf_steps flow) = Some (\<not> acyclic_steps (wf_steps flow))"
    by (simp add: acyclic_steps_def acyclic_def)
  with assms show ?thesis
    by (cases "acyclic_steps (wf_steps flow)") (simp_all add: validate_def)
qed

lemma validate_total: "validate flow \<noteq> None"
  using validate_checked[of flow]
  by (cases "check_steps (length (wf_steps flow)) 0 (wf_steps flow)")
     (simp_all add: validate_def)

lemma validate_Ok: "validate flow = Some (Ok ()) \<longleftrightarrow> workflow_ok flow"
proof (cases "check_steps (length (wf_steps flow)) 0 (wf_steps flow)")
  case None
  then have "\<forall>i < length (wf_steps flow). step_ok (length (wf_steps flow)) i (wf_steps flow ! i)"
    by (simp add: check_steps_None)
  then show ?thesis
    using validate_checked[OF None] by (simp add: workflow_ok_def validate_def)
next
  case (Some e)
  then have "\<not> (\<forall>i < length (wf_steps flow). step_ok (length (wf_steps flow)) i (wf_steps flow ! i))"
    using check_steps_None[of "length (wf_steps flow)" 0 "wf_steps flow"] by simp
  then show ?thesis using Some by (simp add: validate_def workflow_ok_def)
qed

lemma from_yaml_Ok:
  "from_yaml from_str raw = Some (Ok flow) \<longleftrightarrow> from_str raw = Ok flow \<and> workflow_ok flow"
proof (cases "from_str raw")
  case (Inr g)
  obtain r where r: "validate g = Some r" using validate_total[of g] by auto
  then show ?thesis
    using Inr validate_Ok[of g] by (cases r) (auto simp: from_yaml_def)
qed (simp add: from_yaml_def)

lemma from_yaml_total: "from_yaml from_str raw \<noteq> None"
proof (cases "from_str raw")
  case (Inr g)
  obtain r where "validate g = Some r" using validate_total[of g] by auto
  then show ?thesis using Inr by (cases r) (auto simp: from_yaml_def)
qed (simp add: from_yaml_def)

text \<open>A finite acyclic graph has a listing of its nodes with successors first.\<close>

lemma schedule_exists:
  assumes "finite S" "acyclic E" "finite E"
  shows "\<exists>xs. distinct xs \<and> set xs = S
    \<and> (\<forall>k < length xs. \<forall>j \<in> S. (xs ! k, j) \<in> E \<longrightarrow> j \<in> set (take k xs))"
  using assms(1)
proof (induction "card S" arbitrary: S)
  case 0
  then show ?case by (intro exI[of _ "[]"]) simp
next
  case (Suc n)
  then obtain y where "y \<in> S" by fastforce
  obtain x where x: "x \<in> S" and min: "\<And>y. (y, x) \<in> E \<Longrightarrow> y \<notin> S"
    using wfE_min[OF finite_acyclic_wf[OF assms(3,2)] \<open>y \<in> S\<close>] by blast
  have "n = card (S - {x})" "finite (S - {x})" using Suc x by simp_all
  from Suc.hyps(1)[OF this] obtain xs where h: "distinct xs \<and> set xs = S - {x}
    \<and> (\<forall>k < length xs. \<forall>j \<in> S - {x}. (xs ! k, j) \<in> E \<longrightarrow> j \<in> set (take k xs))" ..
  then have xs: "distinct xs" "set xs = S - {x}" by simp_all
  have ord: "j \<in> set (take k xs)" if "k < length xs" "j \<in> S - {x}" "(xs ! k, j) \<in> E" for k j
    using h that by blast
  have "j \<in> set (take k (xs @ [x]))"
    if "k < length (xs @ [x])" "j \<in> S" "((xs @ [x]) ! k, j) \<in> E" for k j
  proof (cases "k < length xs")
    case True
    then have "xs ! k \<in> S" using xs(2) nth_mem by blast
    then have "j \<noteq> x" using min that True by (auto simp: nth_append)
    then show ?thesis using ord[OF True] that True by (simp add: nth_append)
  next
    case False
    then have "k = length xs" using that(1) by simp
    moreover from this have "j \<noteq> x" using min that by auto
    ultimately show ?thesis using that(2) xs(2) by simp
  qed
  then show ?case
    using xs x by (intro exI[of _ "xs @ [x]"]) auto
qed

section \<open>Properties\<close>

text \<open>
  C16. Validation never panics, and accepts exactly the workflows whose name, steps,
  dependencies, timeouts, retries, profiles and loops are well formed and whose dependency
  graph has no cycle: the depth-first search finds every cycle and reports no other.
\<close>

theorem workflow_validation_exact:
  "validate flow \<noteq> None \<and> (validate flow = Some (Ok ()) \<longleftrightarrow> workflow_ok flow)"
  by (simp add: validate_total validate_Ok)

text \<open>
  Every workflow loaded from YAML can be run: its steps have an order in which each
  step comes after all the steps it depends on, and every loop goes back to an earlier
  step (or to itself) a bounded number of times.
\<close>

theorem loaded_workflow_schedulable:
  assumes "from_yaml from_str raw = Some (Ok flow)"
  shows "\<exists>order. distinct order \<and> set order = {..<length (wf_steps flow)}
      \<and> (\<forall>k < length order. set (ws_depends_on (wf_steps flow ! (order ! k))) \<subseteq> set (take k order))
      \<and> (\<forall>i < length (wf_steps flow). pred_option (loop_ok i) (ws_loop_config (wf_steps flow ! i)))"
proof -
  let ?steps = "wf_steps flow" and ?n = "length (wf_steps flow)"
  have ok: "workflow_ok flow" using assms by (simp add: from_yaml_Ok)
  then have ib: "in_bounds ?steps" and ac: "acyclic (edges ?steps)"
    by (auto simp: workflow_ok_def acyclic_steps_def intro: steps_ok_in_bounds)
  have "edges ?steps \<subseteq> {..<?n} \<times> {..<?n}"
    using ib by (auto simp: edges_def in_bounds_def)
  then have fin: "finite (edges ?steps)" by (rule finite_subset) simp
  obtain order where o: "distinct order" "set order = {..<?n}"
    and dep: "\<And>k j. k < length order \<Longrightarrow> j < ?n \<Longrightarrow> (order ! k, j) \<in> edges ?steps
                \<Longrightarrow> j \<in> set (take k order)"
    using schedule_exists[OF finite_lessThan ac fin, of ?n] by auto
  have "set (ws_depends_on (?steps ! (order ! k))) \<subseteq> set (take k order)" if "k < length order" for k
  proof
    fix j assume j: "j \<in> set (ws_depends_on (?steps ! (order ! k)))"
    have "order ! k < ?n" using o(2) that nth_mem by blast
    with j ib dep[OF that] show "j \<in> set (take k order)"
      by (auto simp: edges_def in_bounds_def)
  qed
  then show ?thesis using o ok by (auto simp: workflow_ok_def step_ok_def)
qed

definition sample_step :: "nat list \<Rightarrow> workflow_step" where
  "sample_step deps =
     \<lparr>ws_title = ''t'', ws_goal = ''g'', ws_scope = [], ws_priority = default_priority,
      ws_depends_on = deps, ws_auto_dispatch = False, ws_acceptance_criteria = [],
      ws_constraints = [], ws_on_failure = Pause, ws_agent_profile = None,
      ws_execution_mode = Worktree, ws_timeout_minutes = Some 30, ws_max_retries = Some 5,
      ws_loop_config = None\<rparr>"

definition sample_flow :: workflow_def where
  "sample_flow = \<lparr>wf_name = ''w'', wf_description = None,
     wf_steps = [sample_step [1, 2], sample_step [2], sample_step []]\<rparr>"

lemma trim_ascii_letter [simp]: "str_trim ''t'' = ''t''" "str_trim ''g'' = ''g''" "str_trim ''w'' = ''w''"
  by (simp_all add: str_trim_graphic is_ascii_graphic_def)

lemma sample_flow_acyclic: "has_cycle (wf_steps sample_flow) = Some False"
  by (simp add: sample_flow_def sample_step_def has_cycle_def dfs.simps upt_rec
      numeral_2_eq_2 numeral_3_eq_3)

lemma sample_flow_loads: "from_yaml (\<lambda>_. Ok sample_flow) ''y'' = Some (Ok sample_flow)"
proof -
  have "check_steps (length (wf_steps sample_flow)) 0 (wf_steps sample_flow) = None"
    "str_trim (wf_name sample_flow) \<noteq> []" "wf_steps sample_flow \<noteq> []"
    by (simp_all add: sample_flow_def sample_step_def check_step_def check_rest_def)
  then have "validate sample_flow = Some (Ok ())"
    by (simp add: validate_def sample_flow_acyclic)
  then show ?thesis by (simp add: from_yaml_def)
qed

theorem loaded_workflow_schedulable_witness:
  "\<exists>order. distinct order \<and> set order = {..<length (wf_steps sample_flow)}"
  using loaded_workflow_schedulable[OF sample_flow_loads] by blast

definition load_one :: "(string \<Rightarrow> string + workflow_def) \<Rightarrow> string \<times> string option \<Rightarrow> workflow_def option"
where
  "load_one from_str f =
     (case f of (name, content) \<Rightarrow>
        if path_extension name \<in> {Some ''yaml'', Some ''yml''} then
          (case content of
             None \<Rightarrow> None
           | Some raw \<Rightarrow>
               (case from_str raw of
                  Err _ \<Rightarrow> None
                | Ok flow \<Rightarrow> if workflow_ok flow then Some flow else None))
        else None)"

lemma from_file_load_one:
  assumes "path_extension name \<in> {Some ''yaml'', Some ''yml''}"
  shows "\<exists>r. from_file from_str content = Some r
     \<and> load_one from_str (name, content) = (case r of Err _ \<Rightarrow> None | Ok flow \<Rightarrow> Some flow)"
proof (cases content)
  case None
  then show ?thesis by (simp add: from_file_def load_one_def)
next
  case (Some raw)
  obtain r where r: "from_yaml from_str raw = Some r"
    using from_yaml_total[of from_str raw] by auto
  show ?thesis
  proof (cases r)
    case (Inr flow)
    then have "from_str raw = Ok flow" "workflow_ok flow" using r by (simp_all add: from_yaml_Ok)
    then show ?thesis using Some r Inr assms by (simp add: from_file_def load_one_def)
  next
    case (Inl e)
    then have "\<not> (from_str raw = Ok flow \<and> workflow_ok flow)" for flow
      using r from_yaml_Ok[of from_str raw flow] by simp
    then show ?thesis using Some r Inl by (auto simp: from_file_def load_one_def split: sum.split)
  qed
qed

lemma load_entries_files:
  "load_entries from_str (map Some files) acc = Some (Ok (acc @ List.map_filter (load_one from_str) files))"
proof (induction files arbitrary: acc)
  case Nil
  then show ?case by (simp add: map_filter_simps)
next
  case (Cons f files)
  obtain name content where f: "f = (name, content)" by (cases f)
  show ?case
  proof (cases "path_extension name \<in> {Some ''yaml'', Some ''yml''}")
    case True
    from from_file_load_one[OF True, of from_str content] obtain r
      where "from_file from_str content = Some r"
        "load_one from_str (name, content) = (case r of Err _ \<Rightarrow> None | Ok flow \<Rightarrow> Some flow)"
      by blast
    then show ?thesis
      using True by (cases r) (auto simp: f Cons.IH map_filter_simps)
  next
    case False
    then show ?thesis by (auto simp: f Cons.IH map_filter_simps load_one_def)
  qed
qed

text \<open>
  Loading a readable workflow directory succeeds whatever the files hold: it returns,
  in directory order, exactly the \<open>.yaml\<close> and \<open>.yml\<close> files that can be read, parse and
  validate; a bad file is skipped and never hides a good one.
\<close>

theorem load_all_skips_invalid:
  "load_all from_str (Some (Ok (map Some files)))
     = Some (Ok (List.map_filter (load_one from_str) files))"
  by (simp add: load_all_def load_entries_files)

end
