(* ===== verification/Git_Worktrees.thy ===== *)
theory Git_Worktrees
  imports Prelude "HOL-Library.AList"
begin

text \<open>
  \<open>crates/pnevma-git/src/service.rs\<close> and \<open>lease.rs\<close>: the lease map of the worktrees, the
  operations that create, adopt, touch, list, clean up and reap worktrees, and the merge
  queue; and \<open>slugify_with_fallback\<close> of \<open>crates/pnevma-commands/src/commands/mod.rs\<close>, which
  makes the slugs of the branch names.

  What lies outside the program is the record \<open>git_env\<close>: the outcome of running git as a
  function of the commands run before it, the file system, the clock and the identifiers
  drawn during the operation, and the text form of identifiers. The hash map of leases is
  an association list with arbitrary order. The field \<open>commands\<close> is a ghost: the git
  commands run so far.
\<close>

section \<open>State and environment\<close>

datatype git_error =
    IoErr string
  | Command string
  | LeaseViolation string
  | WorktreeNotFound string
  | Hook string
  | Timeout u64 string

fun show_git_error :: "git_error \<Rightarrow> string" where
  "show_git_error (IoErr e) = ''io error: '' @ e"
| "show_git_error (Command e) = ''git command failed: '' @ e"
| "show_git_error (LeaseViolation e) = ''lease violation: '' @ e"
| "show_git_error (WorktreeNotFound e) = ''worktree not found: '' @ e"
| "show_git_error (Hook e) = ''hook error: '' @ e"
| "show_git_error (Timeout n e) = ''git command timed out after '' @ nat_str (unat n) @ ''s: '' @ e"

datatype lease_status = Active | Stale | Released

record worktree_lease =
  wl_id :: uuid
  wl_task_id :: uuid
  wl_branch :: string
  wl_path :: string
  wl_started_at :: time
  wl_last_active :: time
  wl_status :: lease_status

record git_service =
  repo_root :: string
  worktree_root :: string
  leases :: "(uuid \<times> worktree_lease) list"
  stale_after :: int
  commands :: "string list list"

datatype process_outcome = TimedOut | SpawnFailed string | Exited bool string

record git_env =
  run_git :: "string list list \<Rightarrow> string list \<Rightarrow> process_outcome"
  list_porcelain :: "process_outcome \<times> string"
  create_dir_all :: "string \<Rightarrow> string + unit"
  canonicalize :: "string \<Rightarrow> string + string"
  path_exists :: "string \<Rightarrow> bool"
  mtime :: "string \<Rightarrow> time option"
  uuid_to_string :: "uuid \<Rightarrow> string"
  uuid_parse :: "string \<Rightarrow> uuid option"
  clock :: "nat \<Rightarrow> time"
  fresh_id :: "nat \<Rightarrow> uuid"

definition lease_of :: "git_service \<Rightarrow> uuid \<Rightarrow> worktree_lease option" where
  "lease_of s t = map_of (leases s) t"

definition put_lease :: "uuid \<Rightarrow> worktree_lease \<Rightarrow> git_service \<Rightarrow> git_service" where
  "put_lease t l s = s\<lparr>leases := AList.update t l (leases s)\<rparr>"

definition drop_lease :: "uuid \<Rightarrow> git_service \<Rightarrow> git_service" where
  "drop_lease t s = s\<lparr>leases := AList.delete t (leases s)\<rparr>"

lemma lease_of_put [simp]: "lease_of (put_lease t l s) = (lease_of s)(t \<mapsto> l)"
  by (auto simp: lease_of_def put_lease_def update_conv')

lemma lease_of_drop [simp]: "lease_of (drop_lease t s) = (lease_of s)(t := None)"
  by (auto simp: lease_of_def drop_lease_def delete_conv')

lemma put_drop_frame [simp]:
  "commands (put_lease t l s) = commands s" "commands (drop_lease t s) = commands s"
  "worktree_root (put_lease t l s) = worktree_root s" "worktree_root (drop_lease t s) = worktree_root s"
  "stale_after (put_lease t l s) = stale_after s" "stale_after (drop_lease t s) = stale_after s"
  by (simp_all add: put_lease_def drop_lease_def)

section \<open>Slugs and references\<close>

lemma str_replace_dots_length: "length (str_replace ''..'' ''.'' s) \<le> length s"
proof (induction s rule: length_induct)
  case (1 s)
  show ?case
  proof (cases s)
    case Nil
    then show ?thesis by (subst str_replace.simps) simp
  next
    case (Cons c s')
    show ?thesis
    proof (cases "starts_with s ''..''")
      case True
      then obtain r where "s = ''..'' @ r" by (auto simp: starts_with_prefix prefix_def)
      then show ?thesis using 1 Cons True by (subst str_replace.simps) (auto intro: le_SucI)
    next
      case False
      then show ?thesis using 1 Cons by (subst str_replace.simps) auto
    qed
  qed
qed

lemma str_replace_dots_shorter:
  "str_contains s ''..'' \<Longrightarrow> length (str_replace ''..'' ''.'' s) < length s"
proof (induction s)
  case Nil
  then show ?case by (simp add: str_contains_sublist)
next
  case (Cons c s)
  show ?case
  proof (cases "starts_with (c # s) ''..''")
    case True
    then have "length s = Suc (length (drop 1 s))"
      by (cases s) (auto simp: starts_with_def)
    then show ?thesis
      using True str_replace_dots_length[of "drop 1 s"] by (subst str_replace.simps) simp
  next
    case False
    then have "str_contains s ''..''"
      using Cons.prems by (auto simp: str_contains_sublist sublist_Cons_right starts_with_prefix)
    then show ?thesis using Cons.IH False by (subst str_replace.simps) simp
  qed
qed

text \<open>The \<open>while\<close> loop of \<open>sanitize_slug\<close>.\<close>

function collapse_dots :: "string \<Rightarrow> string" where
  "collapse_dots s =
     (if str_contains s ''..'' then collapse_dots (str_replace ''..'' ''.'' s) else s)"
  by auto
termination collapse_dots
  by (relation "measure length") (auto intro: str_replace_dots_shorter)

declare collapse_dots.simps [simp del]

definition slug_char :: "char \<Rightarrow> bool" where
  "slug_char c = (is_ascii_alphanumeric c \<or> c \<in> {CHR ''-'', CHR ''_'', CHR ''.''})"

definition sanitize_slug :: "string \<Rightarrow> string" where
  "sanitize_slug slug =
     take 100 (collapse_dots
       (dropWhile (\<lambda>c. c = CHR ''-'' \<or> c = CHR ''.'') (List.filter slug_char slug)))"

definition validate_git_ref :: "string \<Rightarrow> git_error + unit" where
  "validate_git_ref refspec =
     (if starts_with refspec ''-''
      then Err (Command (''invalid git ref: ref name must not start with '' @ [CHR 0x27, CHR ''-'', CHR 0x27]
             @ '': '' @ refspec))
      else Ok ())"

text \<open>The loop of \<open>slugify_with_fallback\<close> with its flag \<open>last_sep\<close>.\<close>

fun slugify_loop :: "bool \<Rightarrow> string \<Rightarrow> string" where
  "slugify_loop last_sep [] = []"
| "slugify_loop last_sep (ch # input) =
     (if is_ascii_alphanumeric ch then ascii_lower_char ch # slugify_loop False input
      else if \<not> last_sep then CHR ''-'' # slugify_loop True input
      else slugify_loop last_sep input)"

definition trim_hyphens :: "string \<Rightarrow> string" where
  "trim_hyphens s =
     rev (dropWhile (\<lambda>c. c = CHR ''-'') (rev (dropWhile (\<lambda>c. c = CHR ''-'') s)))"

definition slugify_with_fallback :: "string \<Rightarrow> string \<Rightarrow> string" where
  "slugify_with_fallback input fallback =
     (let trimmed = trim_hyphens (slugify_loop False input)
      in if trimmed = [] then fallback else trimmed)"

section \<open>Paths\<close>

definition path_join :: "string \<Rightarrow> string \<Rightarrow> string" where
  "path_join a b =
     (if starts_with b ''/'' then b
      else if a = [] \<or> ends_with a ''/'' then a @ b else a @ ''/'' @ b)"

text \<open>\<open>Path::components\<close>: the root, if any, and the names between slashes.\<close>

definition path_components :: "string \<Rightarrow> string list" where
  "path_components p =
     (if starts_with p ''/'' then [''/''] else [])
     @ List.filter (\<lambda>c. c \<noteq> [] \<and> c \<noteq> ''.'') (split_on CHR ''/'' p)"

definition path_starts_with :: "string \<Rightarrow> string \<Rightarrow> bool" where
  "path_starts_with p base = prefix (path_components base) (path_components p)"

definition file_name :: "string \<Rightarrow> string option" where
  "file_name p =
     (let cs = path_components p
      in if cs = [] \<or> last cs = ''..'' \<or> last cs = ''/'' then None else Some (last cs))"

section \<open>Operations\<close>

definition git_command_timeout_secs :: u64 where
  "git_command_timeout_secs = 120"

definition process_result :: "process_outcome \<Rightarrow> string \<Rightarrow> git_error + unit" where
  "process_result out cmd_desc =
     (case out of
        TimedOut \<Rightarrow> Err (Timeout git_command_timeout_secs cmd_desc)
      | SpawnFailed e \<Rightarrow> Err (IoErr e)
      | Exited success stderr \<Rightarrow>
          if success then Ok ()
          else Err (Command (''git '' @ cmd_desc @ '' failed: '' @ str_trim stderr)))"

definition git :: "git_env \<Rightarrow> string list \<Rightarrow> git_service \<Rightarrow> (git_error + unit) \<times> git_service" where
  "git env args s =
     (process_result (run_git env (commands s) args) (str_join '' '' args),
      s\<lparr>commands := commands s @ [args]\<rparr>)"

definition git_new :: "string \<Rightarrow> git_service" where
  "git_new root =
     \<lparr>repo_root = root, worktree_root = path_join root ''.pnevma/worktrees'', leases = [],
      stale_after = 2 * 3600 * nanos_per_sec, commands = []\<rparr>"

definition lease_refresh :: "time \<Rightarrow> worktree_lease \<Rightarrow> worktree_lease" where
  "lease_refresh now l = l\<lparr>wl_last_active := now, wl_status := Active\<rparr>"

definition mark_stale_if_needed :: "time \<Rightarrow> int \<Rightarrow> worktree_lease \<Rightarrow> worktree_lease" where
  "mark_stale_if_needed now after l =
     (if wl_status l = Released then l
      else if now - wl_last_active l \<ge> after then l\<lparr>wl_status := Stale\<rparr>
      else l\<lparr>wl_status := Active\<rparr>)"

text \<open>One worktree block of the listing: a directory under the root whose name is an
  identifier without a lease gets one.\<close>

definition adopt_worktree ::
  "git_env \<Rightarrow> string \<Rightarrow> string \<Rightarrow> string option \<Rightarrow> git_service \<times> nat \<Rightarrow> git_service \<times> nat" where
  "adopt_worktree env root path branch acc =
     (let (s, count) = acc;
          canonical = (case canonicalize env path of Ok p \<Rightarrow> p | Err _ \<Rightarrow> path)
      in if path_starts_with canonical root then
           (case file_name canonical of
              None \<Rightarrow> acc
            | Some dir_name \<Rightarrow>
                (case uuid_parse env dir_name of
                   None \<Rightarrow> acc
                 | Some task_id \<Rightarrow>
                     if lease_of s task_id \<noteq> None then acc
                     else
                       let last_active =
                             (case mtime env canonical of Some t \<Rightarrow> t | None \<Rightarrow> clock env count)
                       in (put_lease task_id
                             \<lparr>wl_id = fresh_id env count, wl_task_id = task_id,
                              wl_branch = (case branch of None \<Rightarrow> [] | Some b \<Rightarrow> b),
                              wl_path = canonical, wl_started_at = last_active,
                              wl_last_active = last_active, wl_status = Active\<rparr> s,
                           count + 1)))
         else acc)"

fun reconcile_lines ::
  "git_env \<Rightarrow> string \<Rightarrow> string list \<Rightarrow> string option \<Rightarrow> string option \<Rightarrow> git_service \<times> nat
     \<Rightarrow> git_service \<times> nat" where
  "reconcile_lines env root [] cur_path cur_branch acc = acc"
| "reconcile_lines env root (line # lines) cur_path cur_branch acc =
     (if line = [] then
        reconcile_lines env root lines None None
          (case cur_path of None \<Rightarrow> acc | Some path \<Rightarrow> adopt_worktree env root path cur_branch acc)
      else case strip_prefix line ''worktree '' of
        Some rest \<Rightarrow> reconcile_lines env root lines (Some rest) cur_branch acc
      | None \<Rightarrow>
          (case strip_prefix line ''branch refs/heads/'' of
             Some rest \<Rightarrow> reconcile_lines env root lines cur_path (Some rest) acc
           | None \<Rightarrow> reconcile_lines env root lines cur_path cur_branch acc))"

definition reconcile_leases :: "git_env \<Rightarrow> git_service \<Rightarrow> (git_error + nat) \<times> git_service" where
  "reconcile_leases env s =
     (case list_porcelain env of (out, stdout) \<Rightarrow>
        (case process_result out ''worktree list --porcelain'' of
           Err e \<Rightarrow> (Err e, s)
         | Ok _ \<Rightarrow>
             let root = (case canonicalize env (worktree_root s) of
                           Ok p \<Rightarrow> p | Err _ \<Rightarrow> worktree_root s);
                 (s', count) = reconcile_lines env root (str_lines stdout @ [[]]) None None (s, 0)
             in (Ok count, s')))"

text \<open>\<open>create_worktree_from_start_point\<close>: the section under the lock that reserves the slot,
  the git commands run without the lock, and the section that records the lease.\<close>

definition reserve_lease :: "git_env \<Rightarrow> uuid \<Rightarrow> git_service \<Rightarrow> (git_error + unit) \<times> git_service" where
  "reserve_lease env task_id s =
     (if lease_of s task_id \<noteq> None then (Err (LeaseViolation (''task '' @ uuid_to_string env task_id @ '' already has an active lease'')), s)
      else (Ok (), put_lease task_id
              \<lparr>wl_id = fresh_id env 0, wl_task_id = task_id, wl_branch = [], wl_path = [],
               wl_started_at = clock env 0, wl_last_active = clock env 1, wl_status = Active\<rparr> s))"

definition branch_name :: "git_env \<Rightarrow> uuid \<Rightarrow> string \<Rightarrow> string" where
  "branch_name env task_id slug =
     ''pnevma/'' @ uuid_to_string env task_id @ ''/'' @ sanitize_slug slug"

definition worktree_path :: "git_env \<Rightarrow> uuid \<Rightarrow> git_service \<Rightarrow> string" where
  "worktree_path env task_id s = path_join (worktree_root s) (uuid_to_string env task_id)"

definition create_git ::
  "git_env \<Rightarrow> string \<Rightarrow> string \<Rightarrow> string \<Rightarrow> git_service \<Rightarrow> (git_error + unit) \<times> git_service" where
  "create_git env branch path start_point s =
     (case git env [''branch'', ''--'', branch, start_point] s of
        (Err e, s1) \<Rightarrow> (Err e, s1)
      | (Ok _, s1) \<Rightarrow> git env [''worktree'', ''add'', ''--'', path, branch] s1)"

definition create_worktree_from_start_point ::
  "git_env \<Rightarrow> uuid \<Rightarrow> string \<Rightarrow> string \<Rightarrow> git_service
     \<Rightarrow> (git_error + worktree_lease) \<times> git_service" where
  "create_worktree_from_start_point env task_id start_point slug s =
     (case validate_git_ref start_point of
        Err e \<Rightarrow> (Err e, s)
      | Ok _ \<Rightarrow>
     (case reserve_lease env task_id s of
        (Err e, s1) \<Rightarrow> (Err e, s1)
      | (Ok _, s1) \<Rightarrow>
     (case create_dir_all env (worktree_root s1) of
        Err e \<Rightarrow> (Err (IoErr e), s1)
      | Ok _ \<Rightarrow>
          let branch = branch_name env task_id slug;
              path = worktree_path env task_id s1
          in
     (case create_git env branch path start_point s1 of
        (Err e, s2) \<Rightarrow> (Err e, drop_lease task_id s2)
      | (Ok _, s2) \<Rightarrow>
     (case canonicalize env path of
        Err e \<Rightarrow> (Err (Command (''worktree path unavailable after create: '' @ e)),
                  drop_lease task_id s2)
      | Ok canonical_path \<Rightarrow>
          let lease = \<lparr>wl_id = fresh_id env 1, wl_task_id = task_id, wl_branch = branch,
                       wl_path = canonical_path, wl_started_at = clock env 2,
                       wl_last_active = clock env 3, wl_status = Active\<rparr>
          in (Ok lease, put_lease task_id lease s2))))))"

definition create_worktree ::
  "git_env \<Rightarrow> uuid \<Rightarrow> string \<Rightarrow> string \<Rightarrow> git_service
     \<Rightarrow> (git_error + worktree_lease) \<times> git_service" where
  "create_worktree env task_id base_branch slug s =
     create_worktree_from_start_point env task_id base_branch slug s"

definition cleanup_worktree ::
  "git_env \<Rightarrow> uuid \<Rightarrow> bool \<Rightarrow> git_service \<Rightarrow> (git_error + unit) \<times> git_service" where
  "cleanup_worktree env task_id delete_branch s =
     (case lease_of s task_id of
        None \<Rightarrow> (Err (WorktreeNotFound (uuid_to_string env task_id)), s)
      | Some lease \<Rightarrow>
          (case git env [''worktree'', ''remove'', ''--force'', ''--'', wl_path lease]
                  (drop_lease task_id s) of
             (Err e, s1) \<Rightarrow> (Err e, put_lease task_id lease s1)
           | (Ok _, s1) \<Rightarrow>
               if delete_branch
               then (Ok (), snd (git env [''branch'', ''-D'', ''--'', wl_branch lease] s1))
               else (Ok (), s1)))"

definition delete_persisted_branch ::
  "git_env \<Rightarrow> string \<Rightarrow> git_service \<Rightarrow> (git_error + unit) \<times> git_service" where
  "delete_persisted_branch env branch s =
     (case git env [''branch'', ''-D'', ''--'', branch] s of
        (Ok _, s1) \<Rightarrow> (Ok (), s1)
      | (Err e, s1) \<Rightarrow>
          (case git env [''update-ref'', ''-d'', ''refs/heads/'' @ branch] s1 of
             (Ok _, s2) \<Rightarrow> (Ok (), s2)
           | (Err fallback_err, s2) \<Rightarrow>
               (Err (Command (show_git_error e @ ''; update-ref cleanup failed: ''
                       @ show_git_error fallback_err)), s2)))"

definition cleanup_persisted_worktree ::
  "git_env \<Rightarrow> uuid \<Rightarrow> string \<Rightarrow> string option \<Rightarrow> bool \<Rightarrow> git_service
     \<Rightarrow> (git_error + unit) \<times> git_service" where
  "cleanup_persisted_worktree env task_id path branch delete_branch s0 =
     (let s = drop_lease task_id s0;
          canon = (\<lambda>p. case canonicalize env p of Ok c \<Rightarrow> c | Err _ \<Rightarrow> p)
      in case canonicalize env path of
           Err e \<Rightarrow> (Err (Command (''failed to canonicalize worktree path: '' @ e)), s)
         | Ok canonical_path \<Rightarrow>
             if \<not> (path_starts_with canonical_path (canon (worktree_root s))
                   \<or> path_starts_with canonical_path (canon (repo_root s)))
             then (Err (Command (''worktree path '' @ canonical_path
                         @ '' is outside repo and worktree directories'')), s)
             else
               (case git env [''worktree'', ''remove'', ''--force'', ''--'', path] s of
                  (r, s1) \<Rightarrow>
                    if \<not> is_ok r \<and> path_exists env path
                    then (case r of Err e \<Rightarrow> Err e | Ok _ \<Rightarrow> Ok (), s1)
                    else
                      let s2 = snd (git env [''worktree'', ''prune'', ''--expire'', ''now''] s1)
                      in if delete_branch
                         then (case branch of
                                 None \<Rightarrow> (Ok (), s2)
                               | Some b \<Rightarrow> delete_persisted_branch env b s2)
                         else (Ok (), s2)))"

definition list_worktrees :: "time \<Rightarrow> git_service \<Rightarrow> worktree_lease list \<times> git_service" where
  "list_worktrees now s =
     (let ls = map (\<lambda>(t, l). (t, mark_stale_if_needed now (stale_after s) l)) (leases s)
      in (map snd ls, s\<lparr>leases := ls\<rparr>))"

definition is_reapable :: "time \<Rightarrow> git_service \<Rightarrow> worktree_lease \<Rightarrow> bool" where
  "is_reapable now s l = (now - wl_last_active l > stale_after s)"

fun reap_git :: "git_env \<Rightarrow> (uuid \<times> worktree_lease) list \<Rightarrow> git_service \<Rightarrow> git_service" where
  "reap_git env [] s = s"
| "reap_git env ((task_id, lease) # rest) s =
     (let s1 = snd (git env [''worktree'', ''remove'', ''--force'', ''--'', wl_path lease] s);
          s2 = snd (git env [''branch'', ''-D'', ''--'', wl_branch lease] s1)
      in reap_git env rest s2)"

definition reap_stale_leases :: "git_env \<Rightarrow> time \<Rightarrow> git_service \<Rightarrow> uuid list \<times> git_service" where
  "reap_stale_leases env now s =
     (let stale = List.filter (\<lambda>(t, l). is_reapable now s l) (leases s);
          s1 = foldr drop_lease (map fst stale) s
      in (map fst stale, reap_git env stale s1))"

definition touch_lease :: "git_env \<Rightarrow> uuid \<Rightarrow> git_service \<Rightarrow> (git_error + unit) \<times> git_service" where
  "touch_lease env task_id s =
     (case lease_of s task_id of
        None \<Rightarrow> (Err (WorktreeNotFound (uuid_to_string env task_id)), s)
      | Some lease \<Rightarrow> (Ok (), put_lease task_id (lease_refresh (clock env 0) lease) s))"

section \<open>The merge queue\<close>

definition mq_enqueue :: "uuid \<Rightarrow> uuid list \<Rightarrow> bool \<times> uuid list" where
  "mq_enqueue task_id q = (if task_id \<in> set q then (False, q) else (True, q @ [task_id]))"

definition mq_next :: "uuid list \<Rightarrow> uuid option \<times> uuid list" where
  "mq_next q = (case q of [] \<Rightarrow> (None, []) | t # q' \<Rightarrow> (Some t, q'))"

definition mq_size :: "uuid list \<Rightarrow> nat" where
  "mq_size q = length q"

section \<open>Slugs are safe\<close>

lemma set_str_replace_dots: "set (str_replace ''..'' ''.'' s) \<subseteq> set s"
proof (induction s rule: length_induct)
  case (1 s)
  show ?case
  proof (cases s)
    case Nil
    then show ?thesis by (subst str_replace.simps) simp
  next
    case (Cons c s')
    show ?thesis
    proof (cases "starts_with s ''..''")
      case True
      then obtain r where r: "s = ''..'' @ r" by (auto simp: starts_with_prefix prefix_def)
      then have "set (str_replace ''..'' ''.'' r) \<subseteq> set r" using 1 by simp
      then show ?thesis using r True by (subst str_replace.simps) auto
    next
      case False
      have "set (str_replace ''..'' ''.'' s') \<subseteq> set s'" using 1 Cons by simp
      then show ?thesis using Cons False by (subst str_replace.simps) auto
    qed
  qed
qed

lemma hd_str_replace_dots:
  "s \<noteq> [] \<Longrightarrow> str_replace ''..'' ''.'' s \<noteq> [] \<and> hd (str_replace ''..'' ''.'' s) = hd s"
proof (cases s)
  case (Cons c s')
  show ?thesis
  proof (cases "starts_with s ''..''")
    case True
    then have "c = CHR ''.''" using Cons by (cases s') (simp_all add: starts_with_def)
    then show ?thesis using True Cons by (subst (1 2) str_replace.simps) simp
  next
    case False
    then show ?thesis using Cons by (subst (1 2) str_replace.simps) simp
  qed
qed simp

lemma collapse_dots_props:
  "\<not> str_contains (collapse_dots s) ''..'' \<and> set (collapse_dots s) \<subseteq> set s
    \<and> (s \<noteq> [] \<longrightarrow> collapse_dots s \<noteq> [] \<and> hd (collapse_dots s) = hd s)"
proof (induction s rule: collapse_dots.induct)
  case (1 s)
  show ?case
  proof (cases "str_contains s ''..''")
    case True
    from 1[OF True] True show ?thesis
      using set_str_replace_dots[of s] hd_str_replace_dots[of s]
      by (subst (1 2 3 4) collapse_dots.simps) auto
  next
    case False
    then show ?thesis by (subst (1 2 3 4) collapse_dots.simps) simp
  qed
qed

lemma collapse_dots_id: "CHR ''.'' \<notin> set s \<Longrightarrow> collapse_dots s = s"
proof -
  assume "CHR ''.'' \<notin> set s"
  then have "\<not> str_contains s ''..''" by (auto simp: str_contains_sublist sublist_def)
  then show ?thesis by (simp add: collapse_dots.simps)
qed

lemma sanitize_slug_props:
  "length (sanitize_slug s) \<le> 100"
  "set (sanitize_slug s) \<subseteq> Collect slug_char"
  "\<not> str_contains (sanitize_slug s) ''..''"
  "sanitize_slug s \<noteq> [] \<Longrightarrow> hd (sanitize_slug s) \<notin> {CHR ''-'', CHR ''.''}"
proof -
  define t where "t = dropWhile (\<lambda>c. c = CHR ''-'' \<or> c = CHR ''.'') (List.filter slug_char s)"
  have san: "sanitize_slug s = take 100 (collapse_dots t)"
    by (simp add: sanitize_slug_def t_def)
  note c = collapse_dots_props[of t]
  have sub: "set t \<subseteq> Collect slug_char"
    unfolding t_def using set_dropWhileD by fastforce
  show "length (sanitize_slug s) \<le> 100" by (simp add: san)
  show "set (sanitize_slug s) \<subseteq> Collect slug_char"
    using c sub set_take_subset[of 100 "collapse_dots t"] by (auto simp: san)
  show "\<not> str_contains (sanitize_slug s) ''..''"
    using c by (metis append_take_drop_id san str_contains_appendI1)
  assume ne: "sanitize_slug s \<noteq> []"
  then have "t \<noteq> []" using c san by auto
  then have "hd t \<notin> {CHR ''-'', CHR ''.''}"
    using hd_dropWhile[of "\<lambda>c. c = CHR ''-'' \<or> c = CHR ''.''" "List.filter slug_char s"]
    unfolding t_def by auto
  then show "hd (sanitize_slug s) \<notin> {CHR ''-'', CHR ''.''}"
    using c \<open>t \<noteq> []\<close> ne by (auto simp: san hd_take)
qed

definition slugified_char :: "char \<Rightarrow> bool" where
  "slugified_char c = (is_ascii_alphanumeric (ascii_lower_char c) \<and> ascii_lower_char c = c \<or> c = CHR ''-'')"

lemma ascii_lower_lower: "ascii_lower_char (ascii_lower_char c) = ascii_lower_char c"
  by (cases "65 \<le> (of_char c :: nat) \<and> (of_char c :: nat) \<le> 90")
     (auto simp: ascii_lower_char_def Let_def)

lemma ascii_lower_alnum: "is_ascii_alphanumeric c \<Longrightarrow> is_ascii_alphanumeric (ascii_lower_char c)"
  by (cases "65 \<le> (of_char c :: nat) \<and> (of_char c :: nat) \<le> 90")
     (auto simp: ascii_lower_char_def is_ascii_alphanumeric_def Let_def)

lemma set_slugify_loop: "c \<in> set (slugify_loop b s) \<Longrightarrow> slugified_char c"
proof (induction b s rule: slugify_loop.induct)
  case (2 last_sep ch input)
  then show ?case
    by (auto simp: slugified_char_def ascii_lower_lower ascii_lower_alnum split: if_splits)
qed simp

lemma set_trim_hyphens: "set (trim_hyphens s) \<subseteq> set s"
  by (auto simp: trim_hyphens_def dest!: set_dropWhileD)

lemma hd_trim_hyphens: "trim_hyphens s \<noteq> [] \<Longrightarrow> hd (trim_hyphens s) \<noteq> CHR ''-''"
proof -
  let ?P = "\<lambda>c. c = CHR ''-''"
  define t where "t = dropWhile ?P s"
  assume "trim_hyphens s \<noteq> []"
  then have ne: "dropWhile ?P (rev t) \<noteq> []" by (simp add: trim_hyphens_def t_def)
  then have "t \<noteq> []" by auto
  then have h: "hd t \<noteq> CHR ''-''" using hd_dropWhile[of ?P s] by (auto simp: t_def)
  have "suffix (dropWhile ?P (rev t)) (rev t)" by (simp add: suffix_dropWhile)
  then have "prefix (rev (dropWhile ?P (rev t))) t" by (simp add: suffix_to_prefix)
  then obtain zs where "t = rev (dropWhile ?P (rev t)) @ zs" by (auto simp: prefix_def)
  then have "hd (rev (dropWhile ?P (rev t))) = hd t"
    using ne by (metis hd_append2 rev_is_Nil_conv)
  then show ?thesis using h by (simp add: trim_hyphens_def t_def)
qed

section \<open>Properties\<close>

text \<open>
  C26. The branch a worktree gets is safe: whatever the title of a task, the slug of the
  callers (\<open>slugify_with_fallback\<close> with the fallback \<open>task\<close>) passes \<open>sanitize_slug\<close>
  unchanged but for the cut at 100 characters, is not empty, holds only lower-case letters,
  digits and hyphens, and does not start with a hyphen; and \<open>sanitize_slug\<close> on any input
  leaves no \<open>..\<close>, no leading \<open>-\<close> or \<open>.\<close> and nothing outside its character set.
\<close>

theorem slugs_are_safe:
  "sanitize_slug (slugify_with_fallback title ''task'')
     = take 100 (slugify_with_fallback title ''task'')
   \<and> slugify_with_fallback title ''task'' \<noteq> []
   \<and> set (slugify_with_fallback title ''task'') \<subseteq> Collect slugified_char
   \<and> hd (slugify_with_fallback title ''task'') \<noteq> CHR ''-''
   \<and> set (sanitize_slug any_input) \<subseteq> Collect slug_char
   \<and> \<not> str_contains (sanitize_slug any_input) ''..''
   \<and> take 1 (sanitize_slug any_input) \<notin> {''-'', ''.''}"
proof -
  define slug where "slug = slugify_with_fallback title ''task''"
  let ?t = "trim_hyphens (slugify_loop False title)"
  have task: "set ''task'' \<subseteq> Collect slugified_char"
    by (simp add: slugified_char_def is_ascii_alphanumeric_def ascii_lower_char_def)
  have "set ?t \<subseteq> Collect slugified_char"
    using set_trim_hyphens[of "slugify_loop False title"] set_slugify_loop by blast
  then have chars: "set slug \<subseteq> Collect slugified_char"
    using task by (simp add: slug_def slugify_with_fallback_def Let_def)
  have ne: "slug \<noteq> []" and h: "hd slug \<noteq> CHR ''-''"
    using hd_trim_hyphens[of "slugify_loop False title"]
    by (auto simp: slug_def slugify_with_fallback_def Let_def)
  have no_dot: "CHR ''.'' \<notin> set slug"
    using chars by (auto simp: slugified_char_def is_ascii_alphanumeric_def ascii_lower_char_def)
  have "slugified_char c \<Longrightarrow> slug_char c" for c
    by (auto simp: slugified_char_def slug_char_def)
  then have "List.filter slug_char slug = slug"
    using chars by (intro filter_True) blast
  moreover have "dropWhile (\<lambda>c. c = CHR ''-'' \<or> c = CHR ''.'') slug = slug"
    using ne h no_dot by (cases slug) auto
  ultimately have "sanitize_slug slug = take 100 slug"
    by (simp add: sanitize_slug_def collapse_dots_id[OF no_dot])
  moreover have "take 1 (sanitize_slug any_input) \<notin> {''-'', ''.''}"
    using sanitize_slug_props(4)[of any_input] by (cases "sanitize_slug any_input") auto
  ultimately show ?thesis
    using chars ne h sanitize_slug_props(2,3)[of any_input] by (simp add: slug_def)
qed

lemma validate_git_ref_Ok: "validate_git_ref r = Ok x \<longleftrightarrow> \<not> starts_with r ''-''"
  by (cases x) (simp add: validate_git_ref_def)

lemma git_frame [simp]:
  "lease_of (snd (git env args s)) = lease_of s"
  "worktree_root (snd (git env args s)) = worktree_root s"
  "commands (snd (git env args s)) = commands s @ [args]"
  by (simp_all add: git_def lease_of_def fun_eq_iff)

lemma create_git_frame:
  assumes "create_git env branch path start s = (r, s')"
  shows "lease_of s' = lease_of s"
    and "\<exists>cs. commands s' = commands s @ cs
           \<and> set cs \<subseteq> {[''branch'', ''--'', branch, start], [''worktree'', ''add'', ''--'', path, branch]}"
proof -
  obtain r1 s1 where g1: "git env [''branch'', ''--'', branch, start] s = (r1, s1)" by force
  obtain r2 s2 where g2: "git env [''worktree'', ''add'', ''--'', path, branch] s1 = (r2, s2)" by force
  note f1 = git_frame[of env "[''branch'', ''--'', branch, start]" s, unfolded g1 snd_conv]
  note f2 = git_frame[of env "[''worktree'', ''add'', ''--'', path, branch]" s1, unfolded g2 snd_conv]
  have s': "s' = (case r1 of Inl _ \<Rightarrow> s1 | Inr _ \<Rightarrow> s2)"
    using assms g1 g2 by (auto simp: create_git_def split: sum.splits)
  show "lease_of s' = lease_of s"
    by (simp add: s' f1(1) f2(1) split: sum.split)
  show "\<exists>cs. commands s' = commands s @ cs
           \<and> set cs \<subseteq> {[''branch'', ''--'', branch, start], [''worktree'', ''add'', ''--'', path, branch]}"
    by (cases r1) (simp_all add: s' f1(3) f2(3))
qed

text \<open>
  Creating a worktree: a task that has a lease is refused and nothing is run; a start
  point that begins with a hyphen is refused before anything happens; success records an
  active lease of this task, with its branch and the canonical path, and touches no other
  lease; when git fails or the path is missing, the lease map is as before the call. Every
  git command puts its arguments after \<open>--\<close>.
\<close>

theorem create_worktree_outcomes:
  assumes "create_worktree_from_start_point env task_id start_point slug s = (r, s')"
    and "create_dir_all env (worktree_root s) = Ok ()"
  shows "(case r of
      Ok lease \<Rightarrow> lease_of s task_id = None \<and> lease_of s' = (lease_of s)(task_id \<mapsto> lease)
        \<and> wl_status lease = Active \<and> wl_task_id lease = task_id
        \<and> wl_branch lease = branch_name env task_id slug
        \<and> canonicalize env (worktree_path env task_id s) = Ok (wl_path lease)
    | Err e \<Rightarrow> lease_of s' = lease_of s)
   \<and> (lease_of s task_id \<noteq> None \<longrightarrow> \<not> is_ok r \<and> s' = s)
   \<and> (starts_with start_point ''-'' \<longrightarrow> \<not> is_ok r \<and> s' = s)
   \<and> (\<exists>cs. commands s' = commands s @ cs \<and> (\<forall>c \<in> set cs. ''--'' \<in> set (take 3 c)))"
proof (cases "starts_with start_point ''-'' \<or> lease_of s task_id \<noteq> None")
  case True
  then have "\<exists>e. (r, s') = (Err e, s)"
    using assms(1)
    by (auto simp: create_worktree_from_start_point_def validate_git_ref_def reserve_lease_def
        split: if_splits)
  then show ?thesis by auto
next
  case False
  obtain l s1 where res: "reserve_lease env task_id s = (Ok (), s1)" and s1: "s1 = put_lease task_id l s"
    using False by (auto simp: reserve_lease_def)
  have ref: "validate_git_ref start_point = Ok ()" using False by (simp add: validate_git_ref_def)
  have fresh: "lease_of s task_id = None" using False by simp
  let ?branch = "branch_name env task_id slug" and ?path = "worktree_path env task_id s1"
  obtain g s2 where g: "create_git env ?branch ?path start_point s1 = (g, s2)" by force
  have path: "?path = worktree_path env task_id s" by (simp add: worktree_path_def s1)
  have l2: "lease_of s2 = (lease_of s)(task_id \<mapsto> l)" using create_git_frame(1)[OF g] by (simp add: s1)
  have l3: "lease_of (drop_lease task_id s2) = lease_of s" using l2 fresh by auto
  have c2: "\<exists>cs. commands s2 = commands s @ cs \<and> (\<forall>c \<in> set cs. ''--'' \<in> set (take 3 c))"
    using create_git_frame(2)[OF g] by (fastforce simp: s1)
  have split: "create_worktree_from_start_point env task_id start_point slug s =
      (case g of
         Err e \<Rightarrow> (Err e, drop_lease task_id s2)
       | Ok _ \<Rightarrow>
      (case canonicalize env ?path of
         Err e \<Rightarrow> (Err (Command (''worktree path unavailable after create: '' @ e)),
                   drop_lease task_id s2)
       | Ok p \<Rightarrow>
           let lease = \<lparr>wl_id = fresh_id env 1, wl_task_id = task_id, wl_branch = ?branch,
                        wl_path = p, wl_started_at = clock env 2,
                        wl_last_active = clock env 3, wl_status = Active\<rparr>
           in (Ok lease, put_lease task_id lease s2)))"
    using assms(2) unfolding s1
    by (simp add: create_worktree_from_start_point_def ref res g[unfolded s1] Let_def s1)
  show ?thesis
  proof (cases "g = Ok () \<and> is_ok (canonicalize env ?path)")
    case True
    then obtain p where p: "canonicalize env ?path = Ok p" by (auto elim: is_okE)
    then show ?thesis
      using assms(1) True fresh l2 c2 False by (auto simp: split path Let_def)
  next
    case g_err: False
    then have "\<exists>e. (r, s') = (Err e, drop_lease task_id s2)"
      using assms(1) by (cases g; cases "canonicalize env ?path") (auto simp: split)
    then show ?thesis using l3 c2 False by auto
  qed
qed

definition sample_env :: git_env where
  "sample_env =
     \<lparr>run_git = (\<lambda>_ _. Exited True []), list_porcelain = (Exited True [], []),
      create_dir_all = (\<lambda>_. Ok ()), canonicalize = Ok, path_exists = (\<lambda>_. True),
      mtime = (\<lambda>_. None), uuid_to_string = (\<lambda>_. ''u''),
      uuid_parse = (\<lambda>s. if s = ''u'' then Some 1 else None),
      clock = int, fresh_id = of_nat\<rparr>"

theorem create_worktree_outcomes_witness:
  "lease_of (snd (create_worktree_from_start_point sample_env 1 ''main'' ''x'' (git_new ''/r''))) 1 \<noteq> None"
proof -
  obtain r s' where c: "create_worktree_from_start_point sample_env 1 ''main'' ''x'' (git_new ''/r'') = (r, s')"
    by force
  have "is_ok r"
    using c by (auto simp: create_worktree_from_start_point_def validate_git_ref_def starts_with_def
        reserve_lease_def lease_of_def git_new_def sample_env_def create_git_def git_def
        process_result_def put_lease_def Let_def)
  moreover have "create_dir_all sample_env (worktree_root (git_new ''/r'')) = Ok ()"
    by (simp add: sample_env_def)
  note create_worktree_outcomes[OF c this]
  ultimately show ?thesis by (auto simp: c elim!: is_okE)
qed

text \<open>
  When the worktree directory cannot be made, the reservation is left behind: the call
  reports the I/O error, and from then on every attempt to create a worktree for this task
  is refused, in whatever environment, although the task has no worktree.
\<close>

theorem failed_mkdir_blocks_task:
  assumes "lease_of s task_id = None" and "\<not> starts_with start_point ''-''"
    and "create_dir_all env (worktree_root s) = Err e"
  shows "fst (create_worktree_from_start_point env task_id start_point slug s) = Err (IoErr e)
    \<and> (\<forall>env2 start2 slug2. \<not> is_ok (fst (create_worktree_from_start_point env2 task_id start2 slug2
          (snd (create_worktree_from_start_point env task_id start_point slug s)))))"
proof -
  obtain l where "create_worktree_from_start_point env task_id start_point slug s
      = (Err (IoErr e), put_lease task_id l s)"
    using assms by (auto simp: create_worktree_from_start_point_def validate_git_ref_def reserve_lease_def)
  moreover have "\<not> is_ok (fst (create_worktree_from_start_point env2 task_id start2 slug2
      (put_lease task_id l s)))" for env2 start2 slug2
    by (simp add: create_worktree_from_start_point_def validate_git_ref_def reserve_lease_def)
  ultimately show ?thesis by simp
qed

theorem failed_mkdir_blocks_task_witness:
  "fst (create_worktree_from_start_point (sample_env\<lparr>create_dir_all := \<lambda>_. Err ''EACCES''\<rparr>)
      1 ''main'' ''x'' (git_new ''/r'')) = Err (IoErr ''EACCES'')"
  using failed_mkdir_blocks_task[of "git_new ''/r''" 1 "''main''"
      "sample_env\<lparr>create_dir_all := \<lambda>_. Err ''EACCES''\<rparr>" "''EACCES''" "''x''"]
  by (simp add: git_new_def lease_of_def starts_with_def sample_env_def)

text \<open>
  Cleaning up a worktree never loses a lease: the operation succeeds exactly when the
  task has a lease and git removes its worktree, and then exactly this lease is gone;
  otherwise the lease map is what it was. Whether the branch can be deleted plays no part.
\<close>

theorem cleanup_keeps_or_removes:
  "case cleanup_worktree env task_id delete_branch s of (r, s') \<Rightarrow>
     is_ok r = (case lease_of s task_id of
        None \<Rightarrow> False
      | Some l \<Rightarrow> is_ok (fst (git env [''worktree'', ''remove'', ''--force'', ''--'', wl_path l] s)))
     \<and> lease_of s' = (if is_ok r then (lease_of s)(task_id := None) else lease_of s)"
proof (cases "lease_of s task_id")
  case (Some l)
  let ?args = "[''worktree'', ''remove'', ''--force'', ''--'', wl_path l]"
  obtain r s1 where g: "git env ?args (drop_lease task_id s) = (r, s1)" by force
  have r: "fst (git env ?args s) = r" using g by (simp add: git_def)
  have l1: "lease_of s1 = (lease_of s)(task_id := None)"
    using git_frame(1)[of env ?args "drop_lease task_id s"] g by simp
  show ?thesis
  proof (cases r)
    case (Inl e)
    then show ?thesis using Some g r l1 by (auto simp: cleanup_worktree_def fun_upd_idem)
  next
    case (Inr x)
    then show ?thesis using Some g r l1 by (auto simp: cleanup_worktree_def)
  qed
qed (simp add: cleanup_worktree_def)

text \<open>Every operation keeps the keys of the lease map distinct.\<close>

definition leases_wf :: "git_service \<Rightarrow> bool" where
  [inv_defs]: "leases_wf s \<longleftrightarrow> distinct (map fst (leases s))"

lemma leases_wf_put [simp]: "leases_wf s \<Longrightarrow> leases_wf (put_lease t l s)"
  by (simp add: leases_wf_def put_lease_def distinct_update)

lemma leases_wf_drop [simp]: "leases_wf s \<Longrightarrow> leases_wf (drop_lease t s)"
  by (simp add: leases_wf_def drop_lease_def distinct_delete)

lemma lease_of_foldr_drop: "lease_of (foldr drop_lease ts s) = (\<lambda>t. if t \<in> set ts then None else lease_of s t)"
  by (induction ts) (auto simp: fun_eq_iff)

lemma reap_git_frame: "lease_of (reap_git env stale s) = lease_of s"
  by (induction env stale s rule: reap_git.induct) (simp_all add: Let_def)

lemma reap_git_commands:
  "commands (reap_git env stale s) = commands s @ concat (map (\<lambda>(t, l).
     [[''worktree'', ''remove'', ''--force'', ''--'', wl_path l], [''branch'', ''-D'', ''--'', wl_branch l]]) stale)"
  by (induction env stale s rule: reap_git.induct) (simp_all add: Let_def)

text \<open>
  The reaper removes exactly the leases that have been inactive for longer than
  \<open>stale_after\<close>, whatever git answers, and returns exactly their tasks: an active lease is
  never reaped, and after the pass no reapable lease is left.
\<close>

theorem reaper_removes_exactly_stale:
  assumes "leases_wf s"
  shows "lease_of (snd (reap_stale_leases env now s)) t =
      (case lease_of s t of
         None \<Rightarrow> None
       | Some l \<Rightarrow> if now - wl_last_active l > stale_after s then None else Some l)
    \<and> (t \<in> set (fst (reap_stale_leases env now s)) \<longleftrightarrow>
        (\<exists>l. lease_of s t = Some l \<and> now - wl_last_active l > stale_after s))"
proof -
  let ?stale = "List.filter (\<lambda>(t, l). is_reapable now s l) (leases s)"
  have mem: "t \<in> fst ` set ?stale \<longleftrightarrow> (\<exists>l. lease_of s t = Some l \<and> is_reapable now s l)"
    using assms by (force simp: leases_wf_def lease_of_def)
  have "lease_of (snd (reap_stale_leases env now s)) t =
      (if t \<in> fst ` set ?stale then None else lease_of s t)"
    by (simp add: reap_stale_leases_def Let_def reap_git_frame lease_of_foldr_drop)
  moreover have "t \<in> set (fst (reap_stale_leases env now s)) \<longleftrightarrow> t \<in> fst ` set ?stale"
    by (simp add: reap_stale_leases_def Let_def)
  ultimately show ?thesis
    unfolding mem by (auto simp: is_reapable_def split: option.split)
qed

definition stale_service :: git_service where
  "stale_service = put_lease 7
     \<lparr>wl_id = 0, wl_task_id = 7, wl_branch = ''b'', wl_path = ''/p'', wl_started_at = 0,
      wl_last_active = 0, wl_status = Active\<rparr> (git_new ''/r'')"

theorem reaper_removes_exactly_stale_witness:
  "lease_of (snd (reap_stale_leases sample_env (3 * 3600 * nanos_per_sec) stale_service)) 7 = None"
  using reaper_removes_exactly_stale[of stale_service sample_env "3 * 3600 * nanos_per_sec" 7]
  by (simp add: stale_service_def leases_wf_def put_lease_def git_new_def lease_of_def nanos_per_sec_def)

section \<open>Leases survive a restart\<close>

text \<open>What \<open>git worktree list --porcelain\<close> prints for a worktree on a branch.\<close>

definition porcelain_block :: "string \<Rightarrow> string \<Rightarrow> string \<Rightarrow> string" where
  "porcelain_block path head branch =
     ''worktree '' @ path @ [CHR 0x0A] @ ''HEAD '' @ head @ [CHR 0x0A]
     @ ''branch refs/heads/'' @ branch @ [CHR 0x0A] @ [CHR 0x0A]"

definition plain_line :: "string \<Rightarrow> bool" where
  "plain_line l \<longleftrightarrow> CHR 0x0A \<notin> set l \<and> CHR 0x0D \<notin> set l"

definition porcelain :: "(string \<times> string \<times> string) list \<Rightarrow> string" where
  "porcelain es = concat (map (\<lambda>(p, h, b). porcelain_block p h b) es)"

lemma str_lines_block:
  assumes "plain_line p" "plain_line h" "plain_line b"
  shows "str_lines (porcelain_block p h b @ rest) =
     (''worktree '' @ p) # (''HEAD '' @ h) # (''branch refs/heads/'' @ b) # [] # str_lines rest"
proof -
  have pl: "plain_line (''worktree '' @ p)" "plain_line (''HEAD '' @ h)"
    "plain_line (''branch refs/heads/'' @ b)"
    using assms by (simp_all add: plain_line_def)
  have line: "str_lines (l @ CHR 0x0A # s) = l # str_lines s" if "plain_line l" for l s
    using that by (simp add: plain_line_def str_lines_line)
  have "porcelain_block p h b @ rest =
      (''worktree '' @ p) @ CHR 0x0A # (''HEAD '' @ h) @ CHR 0x0A #
      (''branch refs/heads/'' @ b) @ CHR 0x0A # CHR 0x0A # rest"
    by (simp add: porcelain_block_def)
  moreover have "str_lines (CHR 0x0A # rest) = [] # str_lines rest"
    using line[of "[]" rest] by (simp add: plain_line_def)
  ultimately show ?thesis
    by (simp only: line[OF pl(1)] line[OF pl(2)] line[OF pl(3)])
qed

lemma strip_prefix_differs: "x \<noteq> y \<Longrightarrow> strip_prefix (x # s) (y # p) = None"
  by (simp add: strip_prefix_def starts_with_def)

lemma strip_prefix_append: "strip_prefix (p @ s) p = Some s"
  by (simp add: strip_prefix_Some)

lemma reconcile_block:
  "reconcile_lines env root
     ((''worktree '' @ p) # (''HEAD '' @ h) # (''branch refs/heads/'' @ b) # [] # lines) None None acc
   = reconcile_lines env root lines None None (adopt_worktree env root p (Some b) acc)"
  using strip_prefix_append[of "''worktree ''" p] strip_prefix_append[of "''branch refs/heads/''" b]
  by (simp add: strip_prefix_differs)

lemma reconcile_porcelain:
  assumes "\<forall>(p, h, b) \<in> set es. plain_line p \<and> plain_line h \<and> plain_line b"
  shows "reconcile_lines env root (str_lines (porcelain es) @ [[]]) None None acc
     = fold (\<lambda>(p, h, b). adopt_worktree env root p (Some b)) es acc"
  using assms
proof (induction es arbitrary: acc)
  case Nil
  then show ?case by (simp add: porcelain_def)
next
  case (Cons e es)
  obtain p h b where e: "e = (p, h, b)" by (cases e)
  have lines: "str_lines (porcelain ((p, h, b) # es)) =
      (''worktree '' @ p) # (''HEAD '' @ h) # (''branch refs/heads/'' @ b) # [] # str_lines (porcelain es)"
    using Cons.prems str_lines_block[of p h b "porcelain es"] by (simp add: porcelain_def e)
  have IH: "reconcile_lines env root (str_lines (porcelain es) @ [[]]) None None a
      = fold (\<lambda>(p, h, b). adopt_worktree env root p (Some b)) es a" for a
    using Cons by auto
  have "reconcile_lines env root (str_lines (porcelain (e # es)) @ [[]]) None None acc
      = reconcile_lines env root ((''worktree '' @ p) # (''HEAD '' @ h) #
          (''branch refs/heads/'' @ b) # [] # (str_lines (porcelain es) @ [[]])) None None acc"
    by (simp only: e lines append.simps(2)[of "_ @ _"] append.simps(2)[of "[]"])
  also have "\<dots> = fold (\<lambda>(p, h, b). adopt_worktree env root p (Some b)) es
      (adopt_worktree env root p (Some b) acc)"
    unfolding reconcile_block IH ..
  finally show ?case by (simp add: e)
qed

lemma split_on_append: "split_on c (a @ c # b) = split_on c a @ split_on c b"
  by (induction a) (auto split: list.splits simp: Cons_eq_append_conv)

definition plain_name :: "string \<Rightarrow> bool" where
  "plain_name u \<longleftrightarrow> u \<noteq> [] \<and> u \<noteq> ''.'' \<and> u \<noteq> ''..'' \<and> CHR ''/'' \<notin> set u"

lemma path_components_join:
  assumes "plain_name u" "root \<noteq> []" "\<not> ends_with root ''/''"
  shows "path_components (path_join root u) = path_components root @ [u]"
proof -
  have u: "\<not> starts_with u ''/''"
    using assms(1) by (cases u) (auto simp: plain_name_def starts_with_def)
  have "starts_with (root @ ''/'' @ u) ''/'' = starts_with root ''/''"
    using assms(2) by (cases root) (auto simp: starts_with_def)
  then show ?thesis
    using assms u split_on_append[of "CHR ''/''" root u] split_on_end[of "CHR ''/''" u]
    by (simp add: path_join_def path_components_def plain_name_def)
qed

text \<open>What a restart finds: the worktrees of some tasks, at the paths the service gives them.\<close>

definition restart_listing :: "git_env \<Rightarrow> string \<Rightarrow> (uuid \<times> string) list \<Rightarrow> (string \<times> string \<times> string) list"
where
  "restart_listing env root es =
     map (\<lambda>(t, b). (path_join root (uuid_to_string env t), ''0a'', b)) es"

definition restart_env :: "git_env \<Rightarrow> string \<Rightarrow> (uuid \<times> string) list \<Rightarrow> bool" where
  "restart_env env root es \<longleftrightarrow> root \<noteq> [] \<and> \<not> ends_with root ''/''
     \<and> (\<forall>(t, b) \<in> set es. plain_line b \<and> plain_line (path_join root (uuid_to_string env t))
          \<and> plain_name (uuid_to_string env t) \<and> uuid_parse env (uuid_to_string env t) = Some t
          \<and> canonicalize env (path_join root (uuid_to_string env t))
              = Ok (path_join root (uuid_to_string env t)))"

definition restored :: "git_env \<Rightarrow> string \<Rightarrow> (uuid \<times> string) list \<Rightarrow> git_service \<Rightarrow> bool" where
  "restored env root es s \<longleftrightarrow> (\<forall>t. case lease_of s t of
       None \<Rightarrow> t \<notin> fst ` set es
     | Some l \<Rightarrow> (t, wl_branch l) \<in> set es \<and> wl_path l = path_join root (uuid_to_string env t)
         \<and> wl_task_id l = t \<and> wl_status l = Active)"

lemma adopt_restart:
  assumes "restart_env env root [(t, b)]" "lease_of s t = None"
  shows "\<exists>l. adopt_worktree env root (path_join root (uuid_to_string env t)) (Some b) (s, n)
       = (put_lease t l s, n + 1)
     \<and> wl_branch l = b \<and> wl_path l = path_join root (uuid_to_string env t) \<and> wl_task_id l = t
     \<and> wl_status l = Active"
proof -
  let ?u = "uuid_to_string env t"
  have pc: "path_components (path_join root ?u) = path_components root @ [?u]"
    using assms(1) by (intro path_components_join) (auto simp: restart_env_def)
  have "?u \<noteq> ''/''" using assms(1) by (auto simp: restart_env_def plain_name_def)
  then have "file_name (path_join root ?u) = Some ?u"
    using assms(1) by (auto simp: file_name_def pc restart_env_def plain_name_def)
  moreover have "path_starts_with (path_join root ?u) root"
    by (simp add: path_starts_with_def pc)
  ultimately show ?thesis
    using assms by (auto simp: adopt_worktree_def restart_env_def Let_def)
qed

lemma adopt_restart_all:
  assumes "restart_env env root (done @ es)" "restored env root done s" "distinct (map fst (done @ es))"
  shows "\<exists>s'. fold (\<lambda>(p, h, b). adopt_worktree env root p (Some b)) (restart_listing env root es) (s, n)
      = (s', n + length es) \<and> restored env root (done @ es) s'"
  using assms
proof (induction es arbitrary: "done" s n)
  case Nil
  then show ?case by (simp add: restart_listing_def)
next
  case (Cons e es)
  obtain t b where e: "e = (t, b)" by (cases e)
  have "t \<notin> fst ` set done" using Cons.prems(3) e by auto
  then have none: "lease_of s t = None"
    using Cons.prems(2)
    by (auto simp: restored_def split: option.splits) (metis fst_conv image_eqI not_None_eq)
  have "restart_env env root [(t, b)]" using Cons.prems(1) e by (auto simp: restart_env_def)
  from adopt_restart[OF this none, of n] obtain l where
    l: "adopt_worktree env root (path_join root (uuid_to_string env t)) (Some b) (s, n)
       = (put_lease t l s, n + 1)" "wl_branch l = b"
      "wl_path l = path_join root (uuid_to_string env t)" "wl_task_id l = t" "wl_status l = Active"
    by blast
  have "restored env root (done @ [e]) (put_lease t l s)"
    unfolding restored_def
  proof
    fix t'
    have old: "case lease_of s t' of
         None \<Rightarrow> t' \<notin> fst ` set done
       | Some l \<Rightarrow> (t', wl_branch l) \<in> set done
           \<and> wl_path l = path_join root (uuid_to_string env t') \<and> wl_task_id l = t' \<and> wl_status l = Active"
      using Cons.prems(2) by (simp add: restored_def)
    show "case lease_of (put_lease t l s) t' of
         None \<Rightarrow> t' \<notin> fst ` set (done @ [e])
       | Some l \<Rightarrow> (t', wl_branch l) \<in> set (done @ [e])
           \<and> wl_path l = path_join root (uuid_to_string env t') \<and> wl_task_id l = t' \<and> wl_status l = Active"
    proof (cases "t' = t")
      case True
      then show ?thesis using l e by simp
    next
      case False
      then show ?thesis using old e by (cases "lease_of s t'") auto
    qed
  qed
  from Cons.IH[of "done @ [e]", OF _ this, of "n + 1"] Cons.prems show ?case
    by (simp add: restart_listing_def e l(1))
qed

text \<open>
  Leases survive a restart: from the listing of the worktrees that the service made
  for distinct tasks, a fresh service rebuilds exactly one active lease per task, with the
  branch and the path the worktree has, and reports their number.
\<close>

theorem restart_restores_leases:
  assumes "list_porcelain env = (Exited True err, porcelain (restart_listing env root es))"
    and "restart_env env root es" and "distinct (map fst es)"
    and "canonicalize env (worktree_root s) = Ok root" and "leases s = []"
  shows "fst (reconcile_leases env s) = Ok (length es)
    \<and> restored env root es (snd (reconcile_leases env s))"
proof -
  have plain: "\<forall>(p, h, b) \<in> set (restart_listing env root es). plain_line p \<and> plain_line h \<and> plain_line b"
    using assms(2) by (auto simp: restart_listing_def restart_env_def plain_line_def)
  have "restored env root [] s" using assms(5) by (simp add: restored_def lease_of_def)
  from adopt_restart_all[of env root "[]" es s 0, simplified, OF assms(2) this assms(3)]
  obtain s' where
    "fold (\<lambda>(p, h, b). adopt_worktree env root p (Some b)) (restart_listing env root es) (s, 0)
      = (s', length es)" "restored env root es s'"
    by auto
  then show ?thesis
    using reconcile_porcelain[OF plain, of env root "(s, 0)"] assms(1,4)
    by (simp add: reconcile_leases_def process_result_def)
qed

definition restart_sample :: git_env where
  "restart_sample = sample_env\<lparr>list_porcelain :=
     (Exited True [], porcelain (restart_listing sample_env ''/r'' [(1, ''b'')]))\<rparr>"

theorem restart_restores_leases_witness:
  "fst (reconcile_leases restart_sample ((git_new ''/r'')\<lparr>worktree_root := ''/r''\<rparr>)) = Ok 1"
  using restart_restores_leases[of restart_sample "[]" "''/r''" "[(1, ''b'')]"
      "(git_new ''/r'')\<lparr>worktree_root := ''/r''\<rparr>"]
  by (simp add: restart_sample_def sample_env_def restart_listing_def restart_env_def plain_line_def
      plain_name_def ends_with_def path_join_def starts_with_def git_new_def)

section \<open>The merge queue is a queue without repetition\<close>

datatype mq_event = Enqueue uuid | Next

fun mq_run :: "mq_event list \<Rightarrow> uuid list \<Rightarrow> uuid list \<times> uuid list \<times> uuid list" where
  "mq_run [] q = ([], [], q)"
| "mq_run (Enqueue t # es) q =
     (case mq_enqueue t q of (b, q1) \<Rightarrow>
      case mq_run es q1 of (acc, out, q2) \<Rightarrow> ((if b then t # acc else acc), out, q2))"
| "mq_run (Next # es) q =
     (case mq_next q of (r, q1) \<Rightarrow>
      case mq_run es q1 of (acc, out, q2) \<Rightarrow>
        (acc, (case r of None \<Rightarrow> out | Some t \<Rightarrow> t # out), q2))"

lemma mq_run_fifo:
  "distinct q \<Longrightarrow> mq_run es q = (acc, out, q') \<Longrightarrow> out @ q' = q @ acc \<and> distinct q'"
proof (induction es arbitrary: q acc out q')
  case (Cons e es)
  show ?case
  proof (cases e)
    case (Enqueue t)
    define q1 where "q1 = snd (mq_enqueue t q)"
    obtain acc1 out1 q2 where r: "mq_run es q1 = (acc1, out1, q2)" by (cases "mq_run es q1")
    have "distinct q1" using Cons.prems(1) by (simp add: q1_def mq_enqueue_def)
    from Cons.IH[OF this r] Cons.prems(2) r Enqueue show ?thesis
      by (cases "t \<in> set q") (auto simp: q1_def mq_enqueue_def)
  next
    case Next
    obtain acc1 out1 q2 where r: "mq_run es (tl q) = (acc1, out1, q2)" by (cases "mq_run es (tl q)")
    have "distinct (tl q)" using Cons.prems(1) by (simp add: distinct_tl)
    from Cons.IH[OF this r] Cons.prems r Next show ?thesis
      by (cases q) (auto simp: mq_next_def)
  qed
qed simp

text \<open>
  The merge queue hands out exactly the tasks it accepted, in the order it accepted
  them, whatever the interleaving of \<open>enqueue\<close> and \<open>next\<close>, and never holds a task twice.
\<close>

theorem merge_queue_fifo:
  "case mq_run es [] of (accepted, out, q) \<Rightarrow> out @ q = accepted \<and> distinct q"
  using mq_run_fifo[of "[]" es] by (cases "mq_run es []") simp

end
