(* ===== verification/Workflow_Doc.thy ===== *)
theory Workflow_Doc
  imports Prelude
begin

text \<open>
  \<open>crates/pnevma-core/src/workflow_contract.rs\<close>, the \<open>WORKFLOW.md\<close> document with its front
  matter, and \<open>crates/pnevma-commands/src/automation/workflow_store.rs\<close>, the store that
  reloads it and keeps the last good version. The YAML parser and SHA-256 (in hexadecimal)
  are parameters; what the file system answers during one call is a \<open>file_snapshot\<close>.
\<close>

section \<open>The document\<close>

definition default_enabled :: bool where
  "default_enabled = True"

definition default_poll_interval :: u64 where
  "default_poll_interval = 30"

definition default_max_concurrent :: nat where
  "default_max_concurrent = 4"

definition default_active_statuses :: "string list" where
  "default_active_statuses = [''Ready'']"

definition default_max_retries :: u32 where
  "default_max_retries = 1"

definition default_backoff_seconds :: u64 where
  "default_backoff_seconds = 60"

definition default_verify_timeout :: u64 where
  "default_verify_timeout = 120"

definition default_verify_retries :: u32 where
  "default_verify_retries = 2"

record verification_hook =
  vh_command :: string
  vh_description :: string
  vh_timeout_seconds :: u64
  vh_max_retries :: u32

record workflow_hooks =
  wh_after_create :: "string list option"
  wh_before_run :: "string list option"
  wh_after_run :: "string list option"
  wh_before_remove :: "string list option"
  wh_verify :: "verification_hook list option"

record retry_defaults =
  rd_max_retries :: u32
  rd_backoff_seconds :: u64

record agent_defaults =
  ad_provider :: "string option"
  ad_model :: "string option"
  ad_timeout_minutes :: "u64 option"
  ad_auto_approve :: "bool option"

record tracker_settings =
  ts_provider :: string
  ts_project_key :: "string option"
  ts_sync_statuses :: "string list"

record workflow_md_config =
  wc_enabled :: bool
  wc_poll_interval_seconds :: u64
  wc_max_concurrent :: nat
  wc_active_task_statuses :: "string list"
  wc_hooks :: workflow_hooks
  wc_retry :: retry_defaults
  wc_agent :: agent_defaults
  wc_tracker :: "tracker_settings option"
  wc_prompt_template :: "string option"

definition hooks_default :: workflow_hooks where
  "hooks_default = \<lparr>wh_after_create = None, wh_before_run = None, wh_after_run = None,
     wh_before_remove = None, wh_verify = None\<rparr>"

definition retry_default :: retry_defaults where
  "retry_default = \<lparr>rd_max_retries = default_max_retries,
     rd_backoff_seconds = default_backoff_seconds\<rparr>"

definition agent_default :: agent_defaults where
  "agent_default = \<lparr>ad_provider = None, ad_model = None, ad_timeout_minutes = None,
     ad_auto_approve = None\<rparr>"

definition config_default :: workflow_md_config where
  "config_default =
     \<lparr>wc_enabled = default_enabled, wc_poll_interval_seconds = default_poll_interval,
      wc_max_concurrent = default_max_concurrent,
      wc_active_task_statuses = default_active_statuses, wc_hooks = hooks_default,
      wc_retry = retry_default, wc_agent = agent_default, wc_tracker = None,
      wc_prompt_template = None\<rparr>"

record workflow_document =
  wd_config :: workflow_md_config
  wd_body_markdown :: string
  wd_source_hash :: string

datatype io_error_kind = NotFound | OtherIo

datatype workflow_parse_error =
    MissingFrontMatter
  | InvalidYaml string
  | Validation string
  | ParseIo io_error_kind

text \<open>\<open>strip_prefix('\\n').or_else(strip_prefix("\\r\\n")).unwrap_or(...)\<close>.\<close>

definition strip_newline :: "string \<Rightarrow> string" where
  "strip_newline s =
     (case strip_prefix s [CHR 0x0A] of
        Some r \<Rightarrow> r
      | None \<Rightarrow> (case strip_prefix s [CHR 0x0D, CHR 0x0A] of Some r \<Rightarrow> r | None \<Rightarrow> s))"

definition close_marker :: string where
  "close_marker = [CHR 0x0A, CHR ''-'', CHR ''-'', CHR ''-'']"

definition parse_document ::
  "(string \<Rightarrow> string) \<Rightarrow> (string \<Rightarrow> string + workflow_md_config) \<Rightarrow> string
     \<Rightarrow> workflow_parse_error + workflow_document" where
  "parse_document sha from_str content =
     (let source_hash = sha content;
          trimmed = trim_start content
      in if \<not> starts_with trimmed ''---'' then Err MissingFrontMatter
         else
           let after_open = strip_newline (drop (length ''---'') trimmed)
           in case str_find after_open close_marker of
                None \<Rightarrow> Err MissingFrontMatter
              | Some close_pos \<Rightarrow>
                  let yaml_str = take close_pos after_open;
                      after_close = drop (close_pos + length close_marker) after_open;
                      body_markdown = strip_newline after_close
                  in case from_str yaml_str of
                       Err e \<Rightarrow> Err (InvalidYaml e)
                     | Ok config \<Rightarrow>
                         Ok \<lparr>wd_config = config, wd_body_markdown = body_markdown,
                             wd_source_hash = source_hash\<rparr>)"

definition document_validate :: "workflow_document \<Rightarrow> workflow_parse_error + unit" where
  "document_validate doc =
     (if wc_poll_interval_seconds (wd_config doc) = 0
      then Err (Validation ''poll_interval_seconds must be > 0'')
      else if wc_max_concurrent (wd_config doc) = 0
      then Err (Validation ''max_concurrent must be > 0'')
      else Ok ())"

section \<open>The store\<close>

text \<open>\<open>fs_metadata\<close>: \<open>None\<close> when \<open>metadata\<close> fails, else the modification time if known.\<close>

record file_snapshot =
  fs_metadata :: "time option option"
  fs_content :: "io_error_kind + string"

record workflow_store =
  st_current :: "workflow_document option"
  st_last_hash :: "string option"
  st_last_mtime :: "time option"

definition store_new :: workflow_store where
  "store_new = \<lparr>st_current = None, st_last_hash = None, st_last_mtime = None\<rparr>"

definition document_from_file ::
  "(string \<Rightarrow> string) \<Rightarrow> (string \<Rightarrow> string + workflow_md_config) \<Rightarrow> io_error_kind + string
     \<Rightarrow> workflow_parse_error + workflow_document" where
  "document_from_file sha from_str content =
     (case content of Err k \<Rightarrow> Err (ParseIo k) | Ok c \<Rightarrow> parse_document sha from_str c)"

definition store_load ::
  "(string \<Rightarrow> string) \<Rightarrow> (string \<Rightarrow> string + workflow_md_config) \<Rightarrow> file_snapshot
     \<Rightarrow> workflow_store \<Rightarrow> bool \<times> workflow_store" where
  "store_load sha from_str f s =
     (case document_from_file sha from_str (fs_content f) of
        Err e \<Rightarrow> (False, s)
      | Ok doc \<Rightarrow>
          (case document_validate doc of
             Err e \<Rightarrow> (False, s)
           | Ok _ \<Rightarrow>
               (True, \<lparr>st_current = Some doc, st_last_hash = Some (wd_source_hash doc),
                       st_last_mtime = (case fs_metadata f of None \<Rightarrow> None | Some m \<Rightarrow> m)\<rparr>)))"

definition store_check_reload ::
  "(string \<Rightarrow> string) \<Rightarrow> (string \<Rightarrow> string + workflow_md_config) \<Rightarrow> file_snapshot
     \<Rightarrow> workflow_store \<Rightarrow> bool \<times> workflow_store" where
  "store_check_reload sha from_str f s =
     (case fs_metadata f of
        None \<Rightarrow> (False, s)
      | Some current_mtime \<Rightarrow>
          if current_mtime = st_last_mtime s \<and> st_last_mtime s \<noteq> None then (False, s)
          else case fs_content f of
            Err e \<Rightarrow> (False, s)
          | Ok content \<Rightarrow>
              let new_hash = sha content
              in if Some new_hash = st_last_hash s
                 then (False, s\<lparr>st_last_mtime := current_mtime\<rparr>)
                 else case parse_document sha from_str content of
                   Err e \<Rightarrow> (False, s)
                 | Ok doc \<Rightarrow>
                     (case document_validate doc of
                        Err e \<Rightarrow> (False, s)
                      | Ok _ \<Rightarrow>
                          (True, \<lparr>st_current = Some doc, st_last_hash = Some new_hash,
                                  st_last_mtime = current_mtime\<rparr>)))"

definition effective_config :: "workflow_store \<Rightarrow> workflow_md_config" where
  "effective_config s =
     (case st_current s of Some doc \<Rightarrow> wd_config doc | None \<Rightarrow> config_default)"

section \<open>Parsing what a writer writes\<close>

lemma starts_with_close_marker:
  "starts_with (c # s) close_marker \<longleftrightarrow> c = CHR 0x0A \<and> starts_with s ''---''"
  by (auto simp: starts_with_def close_marker_def)

lemma str_find_close_marker:
  assumes "\<not> sublist close_marker yaml"
  shows "str_find (yaml @ close_marker @ rest) close_marker = Some (length yaml)"
  using assms
proof (induction yaml)
  case Nil
  show ?case by (subst str_find.simps) (simp add: starts_with_prefix)
next
  case (Cons c yaml)
  have ns: "\<not> sublist close_marker yaml" and np: "\<not> prefix close_marker (c # yaml)"
    using Cons.prems by (auto simp: sublist_Cons_right)
  have "\<not> starts_with (c # yaml @ close_marker @ rest) close_marker"
  proof
    assume st: "starts_with (c # yaml @ close_marker @ rest) close_marker"
    then have "c = CHR 0x0A" "starts_with (yaml @ close_marker @ rest) ''---''"
      by (simp_all add: starts_with_close_marker)
    then have "starts_with yaml ''---''"
      unfolding starts_with_def
      by (cases yaml; cases "tl yaml"; cases "tl (tl yaml)") (auto simp: close_marker_def)
    then show False
      using np \<open>c = _\<close> starts_with_close_marker[of c yaml] by (simp add: starts_with_prefix)
  qed
  then show ?case
    using Cons.IH[OF ns] by (subst str_find.simps) simp
qed

lemma trim_start_hyphen: "trim_start (CHR ''-'' # s) = CHR ''-'' # s"
proof -
  have "CHR ''-'' \<notin> hd ` set ws_encodings"
    using graphic_not_white(1)[of "CHR ''-''"] by (simp add: is_ascii_graphic_def)
  then show ?thesis by (simp add: trim_start_def trim_start_with_plain)
qed

lemma strip_newline_LF: "strip_newline (CHR 0x0A # s) = s"
  by (simp add: strip_newline_def strip_prefix_def starts_with_def)

section \<open>Properties\<close>

text \<open>
  A document written as front matter between two \<open>---\<close> lines and a body is read back:
  the parser hands exactly the YAML to the YAML reader and returns the whole body, also
  when the body contains further \<open>---\<close> lines. The YAML may be anything without a line that
  starts with \<open>---\<close>.
\<close>

theorem front_matter_roundtrip:
  assumes "\<not> sublist close_marker yaml"
  shows "parse_document sha from_str (''---'' @ CHR 0x0A # yaml @ close_marker @ CHR 0x0A # body) =
    (case from_str yaml of
       Err e \<Rightarrow> Err (InvalidYaml e)
     | Ok config \<Rightarrow>
         Ok \<lparr>wd_config = config, wd_body_markdown = body,
             wd_source_hash = sha (''---'' @ CHR 0x0A # yaml @ close_marker @ CHR 0x0A # body)\<rparr>)"
proof -
  let ?rest = "CHR 0x0A # body"
  have "trim_start (''---'' @ CHR 0x0A # yaml @ close_marker @ ?rest)
      = ''---'' @ CHR 0x0A # yaml @ close_marker @ ?rest"
    by (simp add: trim_start_hyphen)
  moreover have "starts_with (''---'' @ s) ''---''" for s
    by (simp add: starts_with_def)
  moreover have "strip_newline (drop (length ''---'') (''---'' @ CHR 0x0A # yaml @ close_marker @ ?rest))
      = yaml @ close_marker @ ?rest"
    by (simp add: strip_newline_LF)
  moreover have "drop (length yaml + length close_marker) (yaml @ close_marker @ ?rest) = ?rest"
    by simp
  ultimately show ?thesis
    using str_find_close_marker[OF assms, of ?rest]
    by (simp only: parse_document_def Let_def) (simp add: strip_newline_LF split: sum.split)
qed

theorem front_matter_roundtrip_witness:
  "wd_body_markdown (case parse_document (\<lambda>_. ''h'') (\<lambda>y. if y = ''enabled: true'' then Ok config_default else Err y)
      (''---'' @ CHR 0x0A # ''enabled: true'' @ close_marker @ CHR 0x0A # ''---'') of Ok d \<Rightarrow> d) = ''---''"
proof -
  have "\<not> sublist close_marker ''enabled: true''" by code_simp
  note front_matter_roundtrip[OF this]
  then show ?thesis by simp
qed

text \<open>What the store does over a sequence of calls and file states.\<close>

datatype store_event = Load file_snapshot | CheckReload file_snapshot

fun store_run ::
  "(string \<Rightarrow> string) \<Rightarrow> (string \<Rightarrow> string + workflow_md_config) \<Rightarrow> store_event list
     \<Rightarrow> workflow_store \<Rightarrow> workflow_store" where
  "store_run sha from_str [] s = s"
| "store_run sha from_str (Load f # es) s = store_run sha from_str es (snd (store_load sha from_str f s))"
| "store_run sha from_str (CheckReload f # es) s =
     store_run sha from_str es (snd (store_check_reload sha from_str f s))"

definition store_ok ::
  "(string \<Rightarrow> string) \<Rightarrow> (string \<Rightarrow> string + workflow_md_config) \<Rightarrow> workflow_store \<Rightarrow> bool" where
  [inv_defs]: "store_ok sha from_str s \<longleftrightarrow>
     (case st_current s of
        None \<Rightarrow> st_last_hash s = None
      | Some doc \<Rightarrow> st_last_hash s = Some (wd_source_hash doc) \<and> document_validate doc = Ok ()
          \<and> (\<exists>content. parse_document sha from_str content = Ok doc))"

lemma parse_document_hash: "parse_document sha from_str c = Ok doc \<Longrightarrow> wd_source_hash doc = sha c"
  by (auto simp: parse_document_def Let_def split: if_splits option.splits sum.splits)

lemma store_set_ok:
  assumes "parse_document sha from_str c = Ok doc" "document_validate doc = Ok ()"
  shows "store_ok sha from_str \<lparr>st_current = Some doc, st_last_hash = Some (sha c), st_last_mtime = m\<rparr>"
  using assms by (auto simp: store_ok_def parse_document_hash)

lemma store_mtime_ok: "store_ok sha from_str (s\<lparr>st_last_mtime := m\<rparr>) = store_ok sha from_str s"
  by (simp add: store_ok_def split: option.split)

lemma store_load_ok: "store_ok sha from_str s \<Longrightarrow> store_ok sha from_str (snd (store_load sha from_str f s))"
  by (auto simp: store_load_def document_from_file_def parse_document_hash intro: store_set_ok
      split: sum.splits)

lemma store_reload_ok:
  "store_ok sha from_str s \<Longrightarrow> store_ok sha from_str (snd (store_check_reload sha from_str f s))"
  by (auto simp: store_check_reload_def Let_def store_mtime_ok intro: store_set_ok
      split: sum.splits option.splits)

lemma store_run_ok: "store_ok sha from_str s \<Longrightarrow> store_ok sha from_str (store_run sha from_str es s)"
  by (induction sha from_str es s rule: store_run.induct) (simp_all add: store_load_ok store_reload_ok)

text \<open>
  Whatever happens to the file (missing, unreadable, malformed, invalid, or changed
  back and forth), the automation always runs on a valid configuration: the poll interval
  and the concurrency limit in effect are never zero, and the document in use is one that
  some content of the file parsed to.
\<close>

theorem effective_config_always_valid:
  "wc_poll_interval_seconds (effective_config (store_run sha from_str es store_new)) \<noteq> 0
   \<and> wc_max_concurrent (effective_config (store_run sha from_str es store_new)) \<noteq> 0
   \<and> (case st_current (store_run sha from_str es store_new) of
        None \<Rightarrow> effective_config (store_run sha from_str es store_new) = config_default
      | Some doc \<Rightarrow> \<exists>content. parse_document sha from_str content = Ok doc
          \<and> wd_source_hash doc = sha content)"
proof -
  let ?s = "store_run sha from_str es store_new"
  have "store_ok sha from_str store_new" by (simp add: store_ok_def store_new_def)
  then have ok: "store_ok sha from_str ?s" by (rule store_run_ok)
  show ?thesis
  proof (cases "st_current ?s")
    case None
    then show ?thesis
      by (simp add: effective_config_def config_default_def default_poll_interval_def
          default_max_concurrent_def)
  next
    case (Some doc)
    then have "document_validate doc = Ok ()" using ok by (simp add: store_ok_def)
    then show ?thesis
      using ok Some parse_document_hash
      by (auto simp: store_ok_def effective_config_def document_validate_def split: if_splits)
  qed
qed

text \<open>
  A reload check changes the document exactly when it says so: it returns true only
  for readable content with a new hash that parses and validates, which then is the document in
  use; in every other case the document in use stays, whatever the file holds.
\<close>

theorem reload_keeps_last_good:
  "case store_check_reload sha from_str f s of (reloaded, s') \<Rightarrow>
     (if reloaded
      then (\<exists>content doc. fs_content f = Ok content \<and> parse_document sha from_str content = Ok doc
              \<and> document_validate doc = Ok () \<and> st_current s' = Some doc
              \<and> st_last_hash s' = Some (sha content) \<and> st_last_hash s \<noteq> Some (sha content))
      else st_current s' = st_current s \<and> st_last_hash s' = st_last_hash s)"
  by (auto simp: store_check_reload_def Let_def split: sum.splits option.splits)

end
