(* ===== verification/Tracker.thy ===== *)
theory Tracker
  imports Task Complex_Main
begin

text \<open>
  \<open>crates/pnevma-tracker/src/types.rs\<close> and \<open>poll.rs\<close>: the states of an external issue
  tracker, their string forms and their mapping to task statuses, and the coordinator that
  polls for items updated since the last successful poll and pushes transitions. The
  tracker's adapter (its network client) is the record \<open>tracker_adapter\<close> of answers. A
  priority is kept as a rational number.
\<close>

section \<open>States\<close>

datatype external_state =
    Triage | Backlog | Todo | ExtInProgress | InReview | ExtDone | Cancelled | Custom string

fun external_state_str :: "external_state \<Rightarrow> string" where
  "external_state_str Triage = ''triage''"
| "external_state_str Backlog = ''backlog''"
| "external_state_str Todo = ''todo''"
| "external_state_str ExtInProgress = ''in progress''"
| "external_state_str InReview = ''in review''"
| "external_state_str ExtDone = ''done''"
| "external_state_str Cancelled = ''cancelled''"
| "external_state_str (Custom s) = s"

fun to_task_status :: "external_state \<Rightarrow> string" where
  "to_task_status Triage = ''Draft''"
| "to_task_status Backlog = ''Draft''"
| "to_task_status Todo = ''Ready''"
| "to_task_status ExtInProgress = ''InProgress''"
| "to_task_status InReview = ''Review''"
| "to_task_status ExtDone = ''Done''"
| "to_task_status Cancelled = ''Cancelled''"
| "to_task_status (Custom _) = ''Draft''"

definition from_linear_state :: "string \<Rightarrow> external_state" where
  "from_linear_state name =
     (let s = to_lowercase name in
      if s = ''triage'' then Triage
      else if s = ''backlog'' then Backlog
      else if s = ''todo'' \<or> s = ''unstarted'' then Todo
      else if s = ''in progress'' \<or> s = ''started'' then ExtInProgress
      else if s = ''in review'' \<or> s = ''review'' then InReview
      else if s = ''done'' \<or> s = ''completed'' then ExtDone
      else if s = ''cancelled'' \<or> s = ''canceled'' then Cancelled
      else Custom s)"

definition from_display :: "string \<Rightarrow> external_state" where
  "from_display s = from_linear_state s"

record tracker_item =
  ti_kind :: string
  ti_external_id :: string
  ti_identifier :: string
  ti_title :: string
  ti_description :: "string option"
  ti_url :: string
  ti_state :: external_state
  ti_priority :: "rat option"
  ti_labels :: "string list"
  ti_assignee :: "string option"
  ti_updated_at :: time

record state_transition =
  str_external_id :: string
  str_kind :: string
  str_team_id :: "string option"
  str_from_state :: external_state
  str_to_state :: external_state
  str_comment :: "string option"

record tracker_filter =
  tf_team_id :: "string option"
  tf_project_id :: "string option"
  tf_labels :: "string list"
  tf_states :: "external_state list"
  tf_updated_since :: "time option"
  tf_limit :: "nat option"

section \<open>Polling\<close>

record tracker_adapter =
  poll_candidates :: "tracker_filter \<Rightarrow> string + tracker_item list"
  transition_item :: "state_transition \<Rightarrow> string + unit"

record tracker_coordinator =
  tc_filter :: tracker_filter
  tc_last_poll_at :: "time option"
  tc_kind :: string

definition tracker_new :: "tracker_filter \<Rightarrow> string \<Rightarrow> tracker_coordinator" where
  "tracker_new flt kind = \<lparr>tc_filter = flt, tc_last_poll_at = None, tc_kind = kind\<rparr>"

definition poll_once ::
  "tracker_adapter \<Rightarrow> time \<Rightarrow> tracker_coordinator
     \<Rightarrow> (string + tracker_item list) \<times> tracker_coordinator" where
  "poll_once adapter now c =
     (let flt = (case tc_last_poll_at c of
                      None \<Rightarrow> tc_filter c
                    | Some last_poll \<Rightarrow> (tc_filter c)\<lparr>tf_updated_since := Some last_poll\<rparr>)
      in case poll_candidates adapter flt of
           Err e \<Rightarrow> (Err e, c)
         | Ok items \<Rightarrow> (Ok items, c\<lparr>tc_last_poll_at := Some now\<rparr>))"

text \<open>The second component of the result is the comment that is posted, if any; a failure to
  post it is only logged.\<close>

definition sync_outbound ::
  "tracker_adapter \<Rightarrow> string \<Rightarrow> external_state \<Rightarrow> external_state \<Rightarrow> string option
     \<Rightarrow> tracker_coordinator \<Rightarrow> (string + unit) \<times> (string \<times> string) option" where
  "sync_outbound adapter ext_id from_state to_state comment c =
     (case transition_item adapter
             \<lparr>str_external_id = ext_id, str_kind = tc_kind c, str_team_id = None,
              str_from_state = from_state, str_to_state = to_state, str_comment = comment\<rparr> of
        Err e \<Rightarrow> (Err e, None)
      | Ok _ \<Rightarrow> (Ok (), map_option (\<lambda>body. (ext_id, body)) comment))"

section \<open>Reading statuses back\<close>

text \<open>\<open>parse_status\<close> and \<open>is_terminal_task_status\<close> of \<open>crates/pnevma-commands/src/commands/mod.rs\<close>.\<close>

definition parse_status :: "string \<Rightarrow> task_status" where
  "parse_status st =
     (case task_status_from_str st of Ok s \<Rightarrow> s | Err _ \<Rightarrow> Planned)"

definition is_terminal_task_status :: "task_status \<Rightarrow> bool" where
  "is_terminal_task_status s = (s = Done \<or> s = Failed \<or> s = Looped)"

lemma ascii_lower_high: "128 \<le> (of_char (ascii_lower_char c) :: nat) \<Longrightarrow> ascii_lower_char c = c"
  by (cases "65 \<le> (of_char c :: nat) \<and> (of_char c :: nat) \<le> 90")
     (auto simp: ascii_lower_char_def Let_def)

lemma ascii_lower_idem: "ascii_lower_char (ascii_lower_char c) = ascii_lower_char c"
  by (cases "65 \<le> (of_char c :: nat) \<and> (of_char c :: nat) \<le> 90")
     (auto simp: ascii_lower_char_def Let_def)

text \<open>A byte of the output that is not ASCII and not produced by U+0130 was there before.\<close>

lemma to_lowercase_high:
  assumes "to_lowercase s = d # t" "128 \<le> (of_char d :: nat)"
  obtains s' where "s = d # s'" "t = to_lowercase s'"
proof (cases s)
  case Nil
  with assms(1) show thesis by simp
next
  case (Cons c s')
  show thesis
  proof (cases "starts_with s kelvin_sign \<or> starts_with s capital_i_dot")
    case True
    then have "d = CHR ''k'' \<or> d = CHR ''i''"
      using assms(1) Cons by (subst (asm) to_lowercase.simps) (auto split: if_splits)
    then show thesis using assms(2) by auto
  next
    case False
    then have "ascii_lower_char c = d" "t = to_lowercase s'"
      using assms(1) Cons by (simp_all add: to_lowercase_Cons)
    then show thesis using ascii_lower_high[of c] assms(2) Cons that by simp
  qed
qed

lemma high_bytes:
  "128 \<le> (of_char (char_of (0xE2 :: nat) :: char) :: nat)" "128 \<le> (of_char (char_of (0x84 :: nat) :: char) :: nat)"
  "128 \<le> (of_char (char_of (0xAA :: nat) :: char) :: nat)" "128 \<le> (of_char (char_of (0xC4 :: nat) :: char) :: nat)"
  "128 \<le> (of_char (char_of (0xB0 :: nat) :: char) :: nat)"
  by simp_all

lemma lowercase_starts_high:
  assumes "\<forall>d \<in> set p. 128 \<le> (of_char d :: nat)" "starts_with (to_lowercase s) p"
  shows "starts_with s p"
  using assms
proof (induction p arbitrary: s)
  case Nil
  then show ?case by (simp add: starts_with_def)
next
  case (Cons d p)
  then obtain t where t: "to_lowercase s = d # t" "starts_with t p"
    by (auto simp: starts_with_Cons)
  obtain s' where "s = d # s'" "t = to_lowercase s'"
    using to_lowercase_high[OF t(1)] Cons.prems(1) by auto
  then show ?case using Cons t(2) by (simp add: starts_with_Cons)
qed

lemma to_lowercase_display:
  "to_lowercase ''triage'' = ''triage''" "to_lowercase ''backlog'' = ''backlog''"
  "to_lowercase ''todo'' = ''todo''" "to_lowercase ''in progress'' = ''in progress''"
  "to_lowercase ''in review'' = ''in review''" "to_lowercase ''done'' = ''done''"
  "to_lowercase ''cancelled'' = ''cancelled''"
  by (simp_all add: to_lowercase_plain ascii_lower_char_def)

lemma display_named:
  assumes "\<forall>s. e \<noteq> Custom s"
  shows "from_display (external_state_str e) = e"
  using assms
  by (cases e) (simp_all add: from_display_def from_linear_state_def to_lowercase_display Let_def)

lemma lowercase_idem: "to_lowercase (to_lowercase s) = to_lowercase s"
proof (induction s rule: to_lowercase.induct)
  case (1 s)
  have high: "\<forall>d \<in> set kelvin_sign. 128 \<le> (of_char d :: nat)"
    "\<forall>d \<in> set capital_i_dot. 128 \<le> (of_char d :: nat)"
    by (simp_all add: kelvin_sign_def capital_i_dot_def)
  show ?case
  proof (cases s)
    case Nil
    then show ?thesis by simp
  next
    case (Cons c s')
    consider (k) "starts_with s kelvin_sign" | (i) "\<not> starts_with s kelvin_sign" "starts_with s capital_i_dot"
      | (other) "\<not> starts_with s kelvin_sign" "\<not> starts_with s capital_i_dot" by blast
    then show ?thesis
    proof cases
      case k
      then have l: "to_lowercase s = CHR ''k'' # to_lowercase (drop 2 s')"
        using Cons by (subst to_lowercase.simps) simp
      have "to_lowercase (CHR ''k'' # t) = CHR ''k'' # to_lowercase t" for t
        by (subst to_lowercase_plain) (simp_all add: ascii_lower_char_def)
      then show ?thesis using 1(1)[OF Cons k] by (simp add: l)
    next
      case i
      then have l: "to_lowercase s = CHR ''i'' # char_of (0xCC :: nat) # char_of (0x87 :: nat)
          # to_lowercase (drop 1 s')"
        using Cons by (subst to_lowercase.simps) simp
      have "to_lowercase (b # t) = b # to_lowercase t"
        if "b \<in> {CHR ''i'', char_of (0xCC :: nat), char_of (0x87 :: nat)}" for b t
        using that
        by (subst to_lowercase_plain) (auto simp: ascii_lower_char_def)
      then show ?thesis using 1(2)[OF Cons i] by (simp add: l)
    next
      case other
      then have l: "to_lowercase s = ascii_lower_char c # to_lowercase s'"
        using Cons by (simp add: to_lowercase_Cons)
      have "\<not> starts_with (to_lowercase s) kelvin_sign" "\<not> starts_with (to_lowercase s) capital_i_dot"
        using lowercase_starts_high high other by blast+
      then show ?thesis
        using 1(3)[OF Cons other] by (simp add: l to_lowercase_Cons ascii_lower_idem)
    qed
  qed
qed

lemma read_state_roundtrip: "from_display (external_state_str (from_linear_state name)) = from_linear_state name"
proof (cases "\<exists>s. from_linear_state name = Custom s")
  case True
  then have c: "from_linear_state name = Custom (to_lowercase name)"
    by (auto simp: from_linear_state_def Let_def split: if_splits)
  then show ?thesis
    by (simp add: from_display_def) (simp add: from_linear_state_def lowercase_idem Let_def)
next
  case False
  then show ?thesis by (intro display_named) blast
qed

section \<open>Properties\<close>

text \<open>
  The tracker state kept in the database is read back unchanged: every named state is,
  and so is every state that was read from a tracker, custom names included.
\<close>

theorem external_state_roundtrip:
  "(case e of Custom _ \<Rightarrow> True | _ \<Rightarrow> from_display (external_state_str e) = e)
   \<and> from_display (external_state_str (from_linear_state name)) = from_linear_state name"
  using display_named[of e] by (cases e) (simp_all add: read_state_roundtrip)

text \<open>
  Five of the eight tracker states have no task status: the strings that
  \<open>to_task_status\<close> gives for triage, backlog, cancelled and custom states are rejected by the
  parser of task statuses, and the fallback of the readers makes every such task
  \<open>Planned\<close>; a cancelled item becomes a task that may still be started.
\<close>

theorem tracker_statuses_rejected:
  "is_ok (task_status_from_str (to_task_status e)) = (e \<in> {Todo, ExtInProgress, InReview, ExtDone})
   \<and> parse_status (to_task_status Cancelled) = Planned
   \<and> \<not> is_terminal_task_status (parse_status (to_task_status Cancelled))"
  by (cases e) (simp_all add: task_status_from_str_def parse_status_def is_terminal_task_status_def)

end
