(* ===== verification/Reconciler.thy ===== *)
theory Reconciler
  imports Prelude
begin

text \<open>
  \<open>crates/pnevma-agents/src/reconciler.rs\<close>: what to do with a tracked run, from whether its
  session is alive and whether its worktree exists. The file system check is the argument
  \<open>worktree_exists\<close>.
\<close>

record reconciliation_claim =
  rc_task_id :: uuid
  rc_session_id :: uuid
  rc_worktree_path :: "string option"
  rc_branch :: "string option"
  rc_lease_status :: string

datatype reconciliation_action =
    MarkFailed uuid string
  | RefreshLease uuid
  | CleanupOrphan uuid string

definition is_session_active :: "uuid \<Rightarrow> uuid list \<Rightarrow> bool" where
  "is_session_active session_id active_sessions = (session_id \<in> set active_sessions)"

definition reconcile_claim ::
  "(string \<Rightarrow> bool) \<Rightarrow> uuid list \<Rightarrow> reconciliation_claim \<Rightarrow> reconciliation_action" where
  "reconcile_claim worktree_exists active_sessions claim =
     (let session_alive = is_session_active (rc_session_id claim) active_sessions;
          wt_exists = (case rc_worktree_path claim of None \<Rightarrow> False | Some p \<Rightarrow> worktree_exists p)
      in if session_alive then
           (if wt_exists then RefreshLease (rc_task_id claim)
            else MarkFailed (rc_task_id claim) ''worktree missing while session still active'')
         else if wt_exists then
           (case rc_worktree_path claim of
              Some path \<Rightarrow> CleanupOrphan (rc_task_id claim) path
            | None \<Rightarrow> MarkFailed (rc_task_id claim) ''session dead, no worktree path recorded'')
         else MarkFailed (rc_task_id claim) ''session and worktree both gone'')"

definition reconcile_claims ::
  "(string \<Rightarrow> bool) \<Rightarrow> reconciliation_claim list \<Rightarrow> uuid list \<Rightarrow> reconciliation_action list" where
  "reconcile_claims worktree_exists claims active_sessions =
     map (reconcile_claim worktree_exists active_sessions) claims"

fun action_task :: "reconciliation_action \<Rightarrow> uuid" where
  "action_task (MarkFailed t _) = t"
| "action_task (RefreshLease t) = t"
| "action_task (CleanupOrphan t _) = t"

definition claim_healthy :: "(string \<Rightarrow> bool) \<Rightarrow> uuid list \<Rightarrow> reconciliation_claim \<Rightarrow> bool" where
  "claim_healthy worktree_exists active claim \<longleftrightarrow>
     rc_session_id claim \<in> set active \<and> (\<exists>p. rc_worktree_path claim = Some p \<and> worktree_exists p)"

lemma action_task_reconcile [simp]:
  "action_task (reconcile_claim wt active claim) = rc_task_id claim"
  by (simp add: reconcile_claim_def Let_def split: option.split)

lemma reconcile_healthy:
  "reconcile_claim wt active claim = RefreshLease t \<longleftrightarrow>
     claim_healthy wt active claim \<and> t = rc_task_id claim"
  by (auto simp: reconcile_claim_def claim_healthy_def is_session_active_def Let_def
      split: option.splits)

text \<open>A run whose task uses no worktree (execution mode \<open>main\<close>) has no path.\<close>

lemma reconcile_no_worktree:
  assumes "rc_worktree_path claim = None"
  shows "\<exists>reason. reconcile_claim wt active claim = MarkFailed (rc_task_id claim) reason"
  using assms by (simp add: reconcile_claim_def Let_def)

section \<open>Properties\<close>

text \<open>
  The reconciler answers every claim once and in order; a claim is left alone exactly
  when its session is active and its worktree exists, a worktree is cleaned up exactly
  when it exists and the session is gone, and in every other case the task is failed. So a
  run without a recorded worktree (execution mode \<open>main\<close>) is always failed, also while its
  session is active.
\<close>

theorem reconciler_decisions:
  "map action_task (reconcile_claims wt claims active) = map rc_task_id claims
   \<and> filter (\<lambda>c. reconcile_claim wt active c = RefreshLease (rc_task_id c)) claims
       = filter (claim_healthy wt active) claims
   \<and> (reconcile_claim wt active c = CleanupOrphan t p \<longleftrightarrow>
        rc_session_id c \<notin> set active \<and> rc_worktree_path c = Some p \<and> wt p \<and> t = rc_task_id c)
   \<and> (\<exists>reason. reconcile_claim wt active (c\<lparr>rc_worktree_path := None\<rparr>) = MarkFailed (rc_task_id c) reason)"
proof (intro conjI)
  show "map action_task (reconcile_claims wt claims active) = map rc_task_id claims"
    by (simp add: reconcile_claims_def)
  show "filter (\<lambda>c. reconcile_claim wt active c = RefreshLease (rc_task_id c)) claims
       = filter (claim_healthy wt active) claims"
    by (simp add: reconcile_healthy)
  show "reconcile_claim wt active c = CleanupOrphan t p \<longleftrightarrow>
        rc_session_id c \<notin> set active \<and> rc_worktree_path c = Some p \<and> wt p \<and> t = rc_task_id c"
    by (auto simp: reconcile_claim_def is_session_active_def Let_def split: option.splits)
  show "\<exists>reason. reconcile_claim wt active (c\<lparr>rc_worktree_path := None\<rparr>) = MarkFailed (rc_task_id c) reason"
    using reconcile_no_worktree[of "c\<lparr>rc_worktree_path := None\<rparr>"] by simp
qed

end
