(* ===== verification/Task_Store.thy ===== *)
theory Task_Store
  imports Prelude "HOL-Library.List_Lexorder" "HOL-Library.Char_ord"
begin

text \<open>
  \<open>crates/pnevma-db/src/store/tasks.rs\<close>, \<open>worktrees.rs\<close> and the automation part of
  \<open>admin.rs\<close>: the SQL statements of the task store as operations on tables. A table is the
  list of its rows in insertion order; \<open>ORDER BY\<close> is a stable sort. The constraints that the
  migrations put on these tables (primary keys, \<open>NOT NULL\<close>, foreign keys with \<open>ON DELETE
  CASCADE\<close>, the unique key of external sources) are checked where a statement can break
  them. Columns that no modelled statement reads or writes apart from copying the row are
  kept in the row; of the sessions and runs only the columns that are queried appear. Time
  stamps are numbers; \<open>datetime('now')\<close> is an argument. Failures of the database itself are
  added by the callers.
\<close>

section \<open>Rows\<close>

record task_row =
  tk_id :: string
  tk_project_id :: string
  tk_title :: string
  tk_goal :: string
  tk_scope_json :: string
  tk_dependencies_json :: string
  tk_acceptance_json :: string
  tk_constraints_json :: string
  tk_priority :: string
  tk_status :: string
  tk_branch :: "string option"
  tk_worktree_id :: "string option"
  tk_handoff_summary :: "string option"
  tk_created_at :: time
  tk_updated_at :: time
  tk_auto_dispatch :: bool
  tk_agent_profile_override :: "string option"
  tk_execution_mode :: "string option"
  tk_timeout_minutes :: "int option"
  tk_max_retries :: "int option"
  tk_loop_iteration :: int
  tk_loop_context_json :: "string option"
  tk_forked_from_task_id :: "string option"
  tk_lineage_summary :: "string option"
  tk_lineage_depth :: int

record worktree_row =
  wt_id :: string
  wt_project_id :: string
  wt_task_id :: string
  wt_path :: string
  wt_branch :: string
  wt_lease_status :: string
  wt_lease_started :: time
  wt_last_active :: time

record session_row =
  se_id :: string
  se_project_id :: string
  se_type :: "string option"
  se_status :: string
  se_cwd :: string
  se_branch :: "string option"
  se_worktree_id :: "string option"

record external_source_row =
  es_id :: string
  es_project_id :: string
  es_task_id :: string
  es_kind :: string
  es_external_id :: string
  es_identifier :: string
  es_url :: string
  es_state :: string
  es_synced_at :: time
  es_title :: "string option"
  es_description :: "string option"
  es_labels_json :: "string option"

record run_row =
  rr_id :: string
  rr_project_id :: string
  rr_task_id :: string
  rr_status :: string
  rr_finished_at :: "time option"
  rr_error_message :: "string option"

record retry_row =
  ry_id :: string
  ry_project_id :: string
  ry_run_id :: string
  ry_task_id :: string
  ry_attempt :: int
  ry_reason :: string
  ry_retry_after :: time
  ry_retried_at :: "time option"
  ry_outcome :: "string option"
  ry_created_at :: time

record task_db =
  db_projects :: "string list"
  db_tasks :: "task_row list"
  db_deps :: "(string \<times> string) list"
  db_worktrees :: "worktree_row list"
  db_sessions :: "session_row list"
  db_sources :: "external_source_row list"
  db_runs :: "run_row list"
  db_retries :: "retry_row list"

datatype db_error = PrimaryKey | NotNull | ForeignKey

definition task_ids :: "task_db \<Rightarrow> string set" where
  "task_ids db = tk_id ` set (db_tasks db)"

section \<open>Statements on tasks\<close>

definition create_task :: "task_row \<Rightarrow> task_db \<Rightarrow> (db_error + unit) \<times> task_db" where
  "create_task task db =
     (if tk_id task \<in> task_ids db then (Err PrimaryKey, db)
      else if tk_project_id task \<notin> set (db_projects db) then (Err ForeignKey, db)
      else (Ok (), db\<lparr>db_tasks := db_tasks db @ [task]\<rparr>))"

text \<open>The columns that \<open>UPDATE\<close> sets: all but the identifiers and the creation time.\<close>

definition overwrite_row :: "task_row \<Rightarrow> task_row \<Rightarrow> task_row" where
  "overwrite_row task old =
     task\<lparr>tk_id := tk_id old, tk_project_id := tk_project_id old, tk_created_at := tk_created_at old\<rparr>"

definition update_task :: "task_row \<Rightarrow> task_db \<Rightarrow> task_db" where
  "update_task task db =
     db\<lparr>db_tasks := map (\<lambda>r. if tk_id r = tk_id task then overwrite_row task r else r) (db_tasks db)\<rparr>"

definition get_task :: "string \<Rightarrow> task_db \<Rightarrow> task_row option" where
  "get_task task_id db = find (\<lambda>r. tk_id r = task_id) (db_tasks db)"

text \<open>Rows of other tables that refer to the task go with it.\<close>

definition delete_task :: "string \<Rightarrow> task_db \<Rightarrow> task_db" where
  "delete_task task_id db =
     db\<lparr>db_tasks := filter (\<lambda>r. tk_id r \<noteq> task_id) (db_tasks db),
        db_deps := filter (\<lambda>(a, b). a \<noteq> task_id \<and> b \<noteq> task_id) (db_deps db),
        db_worktrees := filter (\<lambda>r. wt_task_id r \<noteq> task_id) (db_worktrees db),
        db_sources := filter (\<lambda>r. es_task_id r \<noteq> task_id) (db_sources db),
        db_runs := filter (\<lambda>r. rr_task_id r \<noteq> task_id) (db_runs db),
        db_retries := filter (\<lambda>r. ry_task_id r \<noteq> task_id) (db_retries db)\<rparr>"

definition update_task_profile_override ::
  "time \<Rightarrow> string \<Rightarrow> string option \<Rightarrow> task_db \<Rightarrow> task_db" where
  "update_task_profile_override now task_id profile_name db =
     db\<lparr>db_tasks := map (\<lambda>r. if tk_id r = task_id
            then r\<lparr>tk_agent_profile_override := profile_name, tk_updated_at := now\<rparr> else r)
          (db_tasks db)\<rparr>"

text \<open>The inserts run in a transaction; \<open>OR IGNORE\<close> skips a pair that exists but does not
  excuse a reference to a missing task.\<close>

fun insert_deps ::
  "string \<Rightarrow> string list \<Rightarrow> task_db \<Rightarrow> (db_error + unit) \<times> task_db" where
  "insert_deps task_id [] db = (Ok (), db)"
| "insert_deps task_id (dep # deps) db =
     (if (task_id, dep) \<in> set (db_deps db) then insert_deps task_id deps db
      else if task_id \<notin> task_ids db \<or> dep \<notin> task_ids db then (Err ForeignKey, db)
      else insert_deps task_id deps (db\<lparr>db_deps := db_deps db @ [(task_id, dep)]\<rparr>))"

definition replace_task_dependencies ::
  "string \<Rightarrow> string list \<Rightarrow> task_db \<Rightarrow> (db_error + unit) \<times> task_db" where
  "replace_task_dependencies task_id deps db =
     (case insert_deps task_id deps
             (db\<lparr>db_deps := filter (\<lambda>(a, b). a \<noteq> task_id) (db_deps db)\<rparr>) of
        (Ok _, db') \<Rightarrow> (Ok (), db')
      | (Err e, db') \<Rightarrow> (Err e, db))"

definition list_task_dependencies :: "string \<Rightarrow> task_db \<Rightarrow> string list" where
  "list_task_dependencies task_id db =
     sort (map snd (filter (\<lambda>(a, b). a = task_id) (db_deps db)))"

definition list_tasks :: "string \<Rightarrow> task_db \<Rightarrow> task_row list" where
  "list_tasks project_id db =
     sort_key (\<lambda>r. - tk_created_at r) (filter (\<lambda>r. tk_project_id r = project_id) (db_tasks db))"

definition claim_next_ready_task :: "time \<Rightarrow> string \<Rightarrow> task_db \<Rightarrow> string option \<times> task_db" where
  "claim_next_ready_task now project_id db =
     (case sort_key tk_created_at
             (filter (\<lambda>r. tk_project_id r = project_id \<and> tk_status r = ''Ready'') (db_tasks db)) of
        [] \<Rightarrow> (None, db)
      | chosen # _ \<Rightarrow>
          (Some (tk_id chosen),
           db\<lparr>db_tasks := map (\<lambda>r. if tk_id r = tk_id chosen \<and> tk_status r = ''Ready''
                then r\<lparr>tk_status := ''Dispatching'', tk_updated_at := now\<rparr> else r) (db_tasks db)\<rparr>))"

definition update_task_status ::
  "time \<Rightarrow> string \<Rightarrow> string \<Rightarrow> string \<Rightarrow> task_db \<Rightarrow> bool \<times> task_db" where
  "update_task_status now task_id expected_status new_status db =
     (\<exists>r \<in> set (db_tasks db). tk_id r = task_id \<and> tk_status r = expected_status,
      db\<lparr>db_tasks := map (\<lambda>r. if tk_id r = task_id \<and> tk_status r = expected_status
            then r\<lparr>tk_status := new_status, tk_updated_at := now\<rparr> else r) (db_tasks db)\<rparr>)"

definition update_task_status_bulk ::
  "time \<Rightarrow> string \<Rightarrow> string \<Rightarrow> string \<Rightarrow> task_db \<Rightarrow> nat \<times> task_db" where
  "update_task_status_bulk now project_id expected_status new_status db =
     (length (filter (\<lambda>r. tk_project_id r = project_id \<and> tk_status r = expected_status) (db_tasks db)),
      db\<lparr>db_tasks := map (\<lambda>r. if tk_project_id r = project_id \<and> tk_status r = expected_status
            then r\<lparr>tk_status := new_status, tk_updated_at := now\<rparr> else r) (db_tasks db)\<rparr>)"

definition swap_task_dependency ::
  "string \<Rightarrow> string \<Rightarrow> string \<Rightarrow> task_db \<Rightarrow> (db_error + unit) \<times> task_db" where
  "swap_task_dependency task_id old_dep new_dep db =
     (if (task_id, old_dep) \<notin> set (db_deps db) \<or> old_dep = new_dep then (Ok (), db)
      else if (task_id, new_dep) \<in> set (db_deps db) then (Err PrimaryKey, db)
      else if new_dep \<notin> task_ids db then (Err ForeignKey, db)
      else (Ok (), db\<lparr>db_deps := map (\<lambda>p. if p = (task_id, old_dep) then (task_id, new_dep) else p)
                                   (db_deps db)\<rparr>))"

definition update_task_conditional ::
  "task_row \<Rightarrow> string \<Rightarrow> task_db \<Rightarrow> bool \<times> task_db" where
  "update_task_conditional task expected_status db =
     (\<exists>r \<in> set (db_tasks db). tk_id r = tk_id task \<and> tk_status r = expected_status,
      db\<lparr>db_tasks := map (\<lambda>r. if tk_id r = tk_id task \<and> tk_status r = expected_status
            then overwrite_row task r else r) (db_tasks db)\<rparr>)"

definition live_agent_session :: "task_db \<Rightarrow> task_row \<Rightarrow> session_row \<Rightarrow> bool" where
  "live_agent_session db t s \<longleftrightarrow> se_project_id s = tk_project_id t \<and> se_status s = ''running''
     \<and> se_type s = Some ''agent''
     \<and> (tk_worktree_id t \<noteq> None \<and> se_worktree_id s = tk_worktree_id t
        \<or> tk_branch t \<noteq> None \<and> se_branch s = tk_branch t
        \<or> (\<exists>w \<in> set (db_worktrees db). wt_task_id w = tk_id t \<and> se_cwd s = wt_path w))"

definition list_recoverable_in_progress_tasks :: "string \<Rightarrow> task_db \<Rightarrow> task_row list" where
  "list_recoverable_in_progress_tasks project_id db =
     sort_key (\<lambda>r. - tk_updated_at r)
       (filter (\<lambda>t. tk_project_id t = project_id \<and> tk_status t = ''InProgress''
          \<and> (\<exists>s \<in> set (db_sessions db). live_agent_session db t s)) (db_tasks db))"

definition list_orphaned_in_progress_tasks :: "string \<Rightarrow> task_db \<Rightarrow> task_row list" where
  "list_orphaned_in_progress_tasks project_id db =
     filter (\<lambda>t. tk_project_id t = project_id \<and> tk_status t = ''InProgress''
        \<and> \<not> (\<exists>ar \<in> set (db_runs db). rr_task_id ar = tk_id t \<and> rr_status ar = ''running''))
       (db_tasks db)"

section \<open>Statements on worktrees, external sources, runs and retries\<close>

definition upsert_worktree :: "worktree_row \<Rightarrow> task_db \<Rightarrow> (db_error + unit) \<times> task_db" where
  "upsert_worktree row db =
     (if wt_task_id row \<notin> task_ids db \<or> wt_project_id row \<notin> set (db_projects db)
      then (Err ForeignKey, db)
      else if wt_id row \<in> wt_id ` set (db_worktrees db)
      then (Ok (), db\<lparr>db_worktrees := map (\<lambda>r. if wt_id r = wt_id row then row else r) (db_worktrees db)\<rparr>)
      else (Ok (), db\<lparr>db_worktrees := db_worktrees db @ [row]\<rparr>))"

definition find_worktree_by_task :: "string \<Rightarrow> task_db \<Rightarrow> worktree_row option" where
  "find_worktree_by_task task_id db = find (\<lambda>w. wt_task_id w = task_id) (db_worktrees db)"

definition list_worktrees :: "string \<Rightarrow> task_db \<Rightarrow> worktree_row list" where
  "list_worktrees project_id db =
     sort_key (\<lambda>w. - wt_lease_started w) (filter (\<lambda>w. wt_project_id w = project_id) (db_worktrees db))"

definition remove_worktree_by_task :: "string \<Rightarrow> task_db \<Rightarrow> task_db" where
  "remove_worktree_by_task task_id db =
     db\<lparr>db_worktrees := filter (\<lambda>w. wt_task_id w \<noteq> task_id) (db_worktrees db)\<rparr>"

definition source_key :: "external_source_row \<Rightarrow> string \<times> string \<times> string" where
  "source_key r = (es_project_id r, es_kind r, es_external_id r)"

text \<open>The columns the upsert takes from the new row when the key exists.\<close>

definition merge_source :: "external_source_row \<Rightarrow> external_source_row \<Rightarrow> external_source_row" where
  "merge_source new old =
     old\<lparr>es_task_id := es_task_id new, es_identifier := es_identifier new, es_url := es_url new,
         es_state := es_state new, es_synced_at := es_synced_at new, es_title := es_title new,
         es_description := es_description new, es_labels_json := es_labels_json new\<rparr>"

text \<open>\<open>labels_json\<close> is declared \<open>NOT NULL\<close> by migration 0023; an explicit null is rejected, the
  default applies only to an absent column.\<close>

definition upsert_task_external_source ::
  "external_source_row \<Rightarrow> task_db \<Rightarrow> (db_error + unit) \<times> task_db" where
  "upsert_task_external_source row db =
     (if es_labels_json row = None then (Err NotNull, db)
      else if es_task_id row \<notin> task_ids db \<or> es_project_id row \<notin> set (db_projects db)
      then (Err ForeignKey, db)
      else if source_key row \<in> source_key ` set (db_sources db)
      then (Ok (), db\<lparr>db_sources := map (\<lambda>r. if source_key r = source_key row
                         then merge_source row r else r) (db_sources db)\<rparr>)
      else if es_id row \<in> es_id ` set (db_sources db) then (Err PrimaryKey, db)
      else (Ok (), db\<lparr>db_sources := db_sources db @ [row]\<rparr>))"

definition get_task_external_source ::
  "string \<Rightarrow> string \<Rightarrow> string \<Rightarrow> task_db \<Rightarrow> external_source_row option" where
  "get_task_external_source project_id kind external_id db =
     find (\<lambda>r. source_key r = (project_id, kind, external_id)) (db_sources db)"

definition list_task_external_sources :: "string \<Rightarrow> task_db \<Rightarrow> external_source_row list" where
  "list_task_external_sources project_id db =
     sort_key (\<lambda>r. - es_synced_at r) (filter (\<lambda>r. es_project_id r = project_id) (db_sources db))"

definition get_external_source_by_task :: "string \<Rightarrow> task_db \<Rightarrow> external_source_row option" where
  "get_external_source_by_task task_id db = find (\<lambda>r. es_task_id r = task_id) (db_sources db)"

definition delete_task_external_source :: "string \<Rightarrow> task_db \<Rightarrow> task_db" where
  "delete_task_external_source row_id db =
     db\<lparr>db_sources := filter (\<lambda>r. es_id r \<noteq> row_id) (db_sources db)\<rparr>"

definition create_automation_retry :: "retry_row \<Rightarrow> task_db \<Rightarrow> (db_error + unit) \<times> task_db" where
  "create_automation_retry row db =
     (if ry_id row \<in> ry_id ` set (db_retries db) then (Err PrimaryKey, db)
      else if ry_task_id row \<notin> task_ids db \<or> ry_project_id row \<notin> set (db_projects db)
           \<or> ry_run_id row \<notin> rr_id ` set (db_runs db)
      then (Err ForeignKey, db)
      else (Ok (), db\<lparr>db_retries := db_retries db @ [row]\<rparr>))"

definition update_automation_retry_outcome ::
  "string \<Rightarrow> string \<Rightarrow> time option \<Rightarrow> task_db \<Rightarrow> task_db" where
  "update_automation_retry_outcome row_id outcome retried_at db =
     db\<lparr>db_retries := map (\<lambda>r. if ry_id r = row_id
            then r\<lparr>ry_outcome := Some outcome, ry_retried_at := retried_at\<rparr> else r) (db_retries db)\<rparr>"

definition list_pending_retries :: "string \<Rightarrow> task_db \<Rightarrow> retry_row list" where
  "list_pending_retries project_id db =
     sort_key ry_retry_after
       (filter (\<lambda>r. ry_project_id r = project_id \<and> ry_retried_at r = None) (db_retries db))"

definition mark_stale_automation_runs :: "time \<Rightarrow> string \<Rightarrow> task_db \<Rightarrow> nat \<times> task_db" where
  "mark_stale_automation_runs now project_id db =
     (length (filter (\<lambda>r. rr_project_id r = project_id \<and> rr_status r = ''running'') (db_runs db)),
      db\<lparr>db_runs := map (\<lambda>r. if rr_project_id r = project_id \<and> rr_status r = ''running''
            then r\<lparr>rr_status := ''failed'', rr_finished_at := Some now,
                   rr_error_message := Some ''recovered: process terminated while running''\<rparr>
            else r) (db_runs db)\<rparr>)"

section \<open>Integrity of the tables\<close>

definition db_wf :: "task_db \<Rightarrow> bool" where
  [inv_defs]: "db_wf db \<longleftrightarrow> distinct (map tk_id (db_tasks db))
     \<and> (\<forall>t \<in> set (db_tasks db). tk_project_id t \<in> set (db_projects db))
     \<and> distinct (db_deps db)
     \<and> (\<forall>(a, b) \<in> set (db_deps db). a \<in> task_ids db \<and> b \<in> task_ids db)
     \<and> (\<forall>w \<in> set (db_worktrees db). wt_task_id w \<in> task_ids db)
     \<and> distinct (map source_key (db_sources db))
     \<and> (\<forall>r \<in> set (db_sources db). es_task_id r \<in> task_ids db \<and> es_labels_json r \<noteq> None)"

datatype db_stmt =
    CreateTask task_row
  | UpdateTask task_row
  | DeleteTask string
  | UpdateProfile string "string option"
  | ReplaceDeps string "string list"
  | SwapDep string string string
  | ClaimNext string
  | UpdateStatus string string string
  | UpdateStatusBulk string string string
  | UpdateConditional task_row string
  | UpsertWorktree worktree_row
  | RemoveWorktree string
  | UpsertSource external_source_row
  | DeleteSource string

fun db_exec :: "time \<Rightarrow> db_stmt \<Rightarrow> task_db \<Rightarrow> task_db" where
  "db_exec now (CreateTask t) db = snd (create_task t db)"
| "db_exec now (UpdateTask t) db = update_task t db"
| "db_exec now (DeleteTask i) db = delete_task i db"
| "db_exec now (UpdateProfile i p) db = update_task_profile_override now i p db"
| "db_exec now (ReplaceDeps i ds) db = snd (replace_task_dependencies i ds db)"
| "db_exec now (SwapDep i a b) db = snd (swap_task_dependency i a b db)"
| "db_exec now (ClaimNext p) db = snd (claim_next_ready_task now p db)"
| "db_exec now (UpdateStatus i e n) db = snd (update_task_status now i e n db)"
| "db_exec now (UpdateStatusBulk p e n) db = snd (update_task_status_bulk now p e n db)"
| "db_exec now (UpdateConditional t e) db = snd (update_task_conditional t e db)"
| "db_exec now (UpsertWorktree w) db = snd (upsert_worktree w db)"
| "db_exec now (RemoveWorktree i) db = remove_worktree_by_task i db"
| "db_exec now (UpsertSource r) db = snd (upsert_task_external_source r db)"
| "db_exec now (DeleteSource i) db = delete_task_external_source i db"

lemma overwrite_row_keys [simp]:
  "tk_id (overwrite_row t r) = tk_id r" "tk_project_id (overwrite_row t r) = tk_project_id r"
  "tk_created_at (overwrite_row t r) = tk_created_at r" "tk_status (overwrite_row t r) = tk_status t"
  by (simp_all add: overwrite_row_def)

text \<open>A statement that rewrites rows in place without touching their keys keeps integrity.\<close>

lemma db_wf_map_tasks:
  assumes "db_wf db" "\<And>r. tk_id (f r) = tk_id r" "\<And>r. tk_project_id (f r) = tk_project_id r"
  shows "db_wf (db\<lparr>db_tasks := map f (db_tasks db)\<rparr>)"
proof -
  have "tk_id \<circ> f = tk_id" using assms(2) by (simp add: fun_eq_iff)
  moreover have "task_ids (db\<lparr>db_tasks := map f (db_tasks db)\<rparr>) = task_ids db"
    using assms(2) by (auto simp: task_ids_def image_image)
  ultimately show ?thesis using assms by (simp add: db_wf_def)
qed

lemma insert_deps_wf: "db_wf db \<Longrightarrow> db_wf (snd (insert_deps i ds db))"
proof (induction i ds db rule: insert_deps.induct)
  case (2 i dep deps db)
  have "db_wf (db\<lparr>db_deps := db_deps db @ [(i, dep)]\<rparr>)"
    if "(i, dep) \<notin> set (db_deps db)" "i \<in> task_ids db" "dep \<in> task_ids db"
    using that 2(3) by (auto simp: db_wf_def task_ids_def)
  with 2 show ?case by (auto)
qed simp

lemma db_wf_filter_deps: "db_wf db \<Longrightarrow> db_wf (db\<lparr>db_deps := filter P (db_deps db)\<rparr>)"
  by (auto simp: db_wf_def task_ids_def)

lemma distinct_map_filter': "distinct (map f xs) \<Longrightarrow> distinct (map f (filter P xs))"
  by (induction xs) auto

lemma delete_task_wf:
  assumes "db_wf db"
  shows "db_wf (delete_task i db)"
proof -
  have ids: "task_ids (delete_task i db) = task_ids db - {i}"
    by (auto simp: task_ids_def delete_task_def)
  have "distinct (map tk_id (filter (\<lambda>r. tk_id r \<noteq> i) (db_tasks db)))"
    "distinct (map source_key (filter (\<lambda>r. es_task_id r \<noteq> i) (db_sources db)))"
    using assms by (simp_all add: db_wf_def distinct_map_filter')
  then show ?thesis
    using assms unfolding db_wf_def ids by (auto simp: delete_task_def)
qed

lemma swap_wf:
  assumes "db_wf db"
  shows "db_wf (snd (swap_task_dependency i a b db))"
proof (cases "(i, a) \<notin> set (db_deps db) \<or> a = b \<or> (i, b) \<in> set (db_deps db) \<or> b \<notin> task_ids db")
  case True
  then show ?thesis using assms by (auto simp: swap_task_dependency_def)
next
  case False
  let ?f = "\<lambda>p. if p = (i, a) then (i, b) else p"
  have "inj_on ?f (set (db_deps db))" using False by (auto simp: inj_on_def)
  then have "distinct (map ?f (db_deps db))"
    using assms by (simp add: db_wf_def distinct_map)
  moreover have "i \<in> task_ids db" using False assms by (auto simp: db_wf_def)
  ultimately show ?thesis
    using assms False by (auto simp: swap_task_dependency_def db_wf_def task_ids_def)
qed

lemma upsert_source_wf:
  assumes "db_wf db"
  shows "db_wf (snd (upsert_task_external_source row db))"
proof (cases "es_labels_json row = None \<or> es_task_id row \<notin> task_ids db
    \<or> es_project_id row \<notin> set (db_projects db)")
  case True
  then show ?thesis using assms by (auto simp: upsert_task_external_source_def)
next
  case ok: False
  show ?thesis
  proof (cases "source_key row \<in> source_key ` set (db_sources db)")
    case True
    let ?f = "\<lambda>r. if source_key r = source_key row then merge_source row r else r"
    have "source_key \<circ> ?f = source_key" by (auto simp: fun_eq_iff source_key_def merge_source_def)
    then have "db_wf (db\<lparr>db_sources := map ?f (db_sources db)\<rparr>)"
      using assms ok by (auto simp: db_wf_def task_ids_def merge_source_def)
    then show ?thesis using ok True by (auto simp: upsert_task_external_source_def)
  next
    case False
    then have "db_wf (db\<lparr>db_sources := db_sources db @ [row]\<rparr>)"
      using assms ok by (auto simp: db_wf_def task_ids_def)
    then show ?thesis using ok False assms by (auto simp: upsert_task_external_source_def)
  qed
qed

lemma db_exec_wf: "db_wf db \<Longrightarrow> db_wf (db_exec now stmt db)"
proof (cases stmt)
  case (CreateTask t)
  assume "db_wf db"
  with CreateTask show ?thesis by (auto simp: create_task_def db_wf_def task_ids_def)
next
  case (ReplaceDeps i ds)
  assume "db_wf db"
  then have "db_wf (snd (insert_deps i ds (db\<lparr>db_deps := filter (\<lambda>(a, b). a \<noteq> i) (db_deps db)\<rparr>)))"
    by (intro insert_deps_wf db_wf_filter_deps)
  with ReplaceDeps \<open>db_wf db\<close> show ?thesis
    by (auto simp: replace_task_dependencies_def split: prod.splits sum.splits)
next
  case (ClaimNext p)
  assume "db_wf db"
  with ClaimNext show ?thesis
    by (auto simp: claim_next_ready_task_def split: list.splits intro!: db_wf_map_tasks)
next
  case (UpsertWorktree w)
  assume "db_wf db"
  with UpsertWorktree show ?thesis by (auto simp: upsert_worktree_def db_wf_def task_ids_def)
next
  case (RemoveWorktree i)
  assume "db_wf db"
  with RemoveWorktree show ?thesis by (auto simp: remove_worktree_by_task_def db_wf_def task_ids_def)
next
  case (DeleteSource i)
  assume "db_wf db"
  with DeleteSource show ?thesis
    by (auto simp: delete_task_external_source_def db_wf_def task_ids_def distinct_map_filter')
qed (auto simp: update_task_def update_task_profile_override_def update_task_status_def
      update_task_status_bulk_def update_task_conditional_def delete_task_wf swap_wf
      upsert_source_wf intro!: db_wf_map_tasks)

section \<open>Claiming\<close>

abbreviation ready_rows :: "string \<Rightarrow> task_db \<Rightarrow> task_row list" where
  "ready_rows p db \<equiv> filter (\<lambda>r. tk_project_id r = p \<and> tk_status r = ''Ready'') (db_tasks db)"

text \<open>Repeated claims, by any callers, until none is left or \<open>n\<close> were made.\<close>

fun claim_run :: "nat \<Rightarrow> time \<Rightarrow> string \<Rightarrow> task_db \<Rightarrow> string list" where
  "claim_run 0 now p db = []"
| "claim_run (Suc n) now p db =
     (case claim_next_ready_task now p db of
        (None, _) \<Rightarrow> []
      | (Some i, db') \<Rightarrow> i # claim_run n now p db')"

lemma claim_removes:
  assumes "db_wf db" "sort_key tk_created_at (ready_rows p db) = chosen # rest"
  shows "claim_next_ready_task now p db = (Some (tk_id chosen), snd (claim_next_ready_task now p db))"
    and "sort_key tk_created_at (ready_rows p (snd (claim_next_ready_task now p db))) = rest"
    and "db_wf (snd (claim_next_ready_task now p db))"
proof -
  let ?db = "snd (claim_next_ready_task now p db)"
  show "claim_next_ready_task now p db = (Some (tk_id chosen), ?db)"
    by (simp add: claim_next_ready_task_def assms(2))
  show "db_wf ?db"
    using db_exec_wf[OF assms(1), of now "ClaimNext p"] by simp
  let ?f = "\<lambda>r. if tk_id r = tk_id chosen \<and> tk_status r = ''Ready''
    then r\<lparr>tk_status := ''Dispatching'', tk_updated_at := now\<rparr> else r"
  have tasks: "db_tasks ?db = map ?f (db_tasks db)"
    by (simp add: claim_next_ready_task_def assms(2))
  have "filter (\<lambda>r. tk_project_id r = p \<and> tk_status r = ''Ready'') (map ?f xs) =
      filter (\<lambda>r. tk_id r \<noteq> tk_id chosen)
        (filter (\<lambda>r. tk_project_id r = p \<and> tk_status r = ''Ready'') xs)" for xs
    by (induction xs) auto
  then have ready: "ready_rows p ?db = filter (\<lambda>r. tk_id r \<noteq> tk_id chosen) (ready_rows p db)"
    unfolding tasks .
  have "sort_key tk_created_at (ready_rows p ?db)
      = filter (\<lambda>r. tk_id r \<noteq> tk_id chosen) (chosen # rest)"
    unfolding ready filter_sort[of "\<lambda>r. tk_id r \<noteq> tk_id chosen", symmetric] assms(2) ..
  moreover have "distinct (map tk_id (chosen # rest))"
  proof -
    have "distinct (map tk_id (ready_rows p db))"
      using assms(1) by (simp add: db_wf_def distinct_map_filter')
    then have "distinct (map tk_id (sort_key tk_created_at (ready_rows p db)))"
      by (simp add: distinct_map)
    then show ?thesis by (simp only: assms(2))
  qed
  then have "tk_id chosen \<notin> tk_id ` set rest" by simp
  then have "tk_id r \<noteq> tk_id chosen" if "r \<in> set rest" for r
    using imageI[OF that, of tk_id] by metis
  then have "filter (\<lambda>r. tk_id r \<noteq> tk_id chosen) rest = rest" by (intro filter_True) blast
  ultimately show "sort_key tk_created_at (ready_rows p ?db) = rest" by simp
qed

lemma claim_run_all:
  "db_wf db \<Longrightarrow> sort_key tk_created_at (ready_rows p db) = rows \<Longrightarrow>
     claim_run (Suc (length rows)) now p db = map tk_id rows"
proof (induction rows arbitrary: db)
  case Nil
  then show ?case by (simp add: claim_next_ready_task_def)
next
  case (Cons r rows)
  note c = claim_removes[OF Cons.prems, of now]
  show ?case
    using Cons.IH[OF c(3) c(2)] by (subst claim_run.simps) (subst c(1), simp)
qed

lemma get_task_unique:
  assumes "db_wf db"
  shows "get_task i db = Some r \<longleftrightarrow> r \<in> set (db_tasks db) \<and> tk_id r = i"
proof -
  have "distinct (map tk_id xs) \<Longrightarrow>
      find (\<lambda>r. tk_id r = i) xs = Some r \<longleftrightarrow> r \<in> set xs \<and> tk_id r = i" for xs
    by (induction xs) auto
  then show ?thesis using assms by (simp add: get_task_def db_wf_def)
qed

section \<open>Properties\<close>


definition empty_db :: task_db where
  "empty_db = \<lparr>db_projects = [''p''], db_tasks = [], db_deps = [], db_worktrees = [],
     db_sessions = [], db_sources = [], db_runs = [], db_retries = []\<rparr>"

definition sample_row :: "string \<Rightarrow> time \<Rightarrow> string \<Rightarrow> task_row" where
  "sample_row i created st =
     \<lparr>tk_id = i, tk_project_id = ''p'', tk_title = ''t'', tk_goal = ''g'', tk_scope_json = ''[]'',
      tk_dependencies_json = ''[]'', tk_acceptance_json = ''[]'', tk_constraints_json = ''[]'',
      tk_priority = ''P1'', tk_status = st, tk_branch = None, tk_worktree_id = None,
      tk_handoff_summary = None, tk_created_at = created, tk_updated_at = created,
      tk_auto_dispatch = True, tk_agent_profile_override = None, tk_execution_mode = None,
      tk_timeout_minutes = None, tk_max_retries = None, tk_loop_iteration = 0,
      tk_loop_context_json = None, tk_forked_from_task_id = None, tk_lineage_summary = None,
      tk_lineage_depth = 0\<rparr>"

lemma empty_db_wf: "db_wf empty_db"
  by (simp add: db_wf_def empty_db_def)


text \<open>
  Claiming is exclusive and fair: on a consistent store any sequence of claims hands out
  every ready task of the project exactly once, the oldest first, and nothing else.
\<close>

theorem claims_hand_out_each_ready_task_once:
  assumes "db_wf db"
  shows "claim_run (Suc (length (ready_rows p db))) now p db
      = map tk_id (sort_key tk_created_at (ready_rows p db))
    \<and> distinct (claim_run (Suc (length (ready_rows p db))) now p db)"
proof -
  have "claim_run (Suc (length (ready_rows p db))) now p db
      = map tk_id (sort_key tk_created_at (ready_rows p db))"
    using claim_run_all[OF assms refl, of p now] by simp
  moreover have "distinct (map tk_id (sort_key tk_created_at (ready_rows p db)))"
    using assms distinct_map_filter'[of tk_id "db_tasks db"] by (simp add: db_wf_def distinct_map)
  ultimately show ?thesis by simp
qed

definition two_ready :: task_db where
  "two_ready = empty_db\<lparr>db_tasks := [sample_row ''a'' 2 ''Ready'', sample_row ''b'' 1 ''Ready'']\<rparr>"

theorem claims_hand_out_each_ready_task_once_witness:
  "claim_run 3 9 ''p'' two_ready = [''b'', ''a'']"
proof -
  have "db_wf two_ready" by (simp add: db_wf_def two_ready_def empty_db_def sample_row_def)
  from claims_hand_out_each_ready_task_once[OF this, of "''p''" 9] show ?thesis
    by (simp add: two_ready_def empty_db_def sample_row_def numeral_3_eq_3)
qed

text \<open>
  The conditional update is an optimistic lock: it applies exactly when the row has the
  expected status, changes nothing otherwise, and of two callers that expect the same
  status and move the task away from it only the first succeeds.
\<close>

theorem conditional_update_is_a_lock:
  assumes "db_wf db"
  shows "fst (update_task_conditional t e db) =
      (case get_task (tk_id t) db of None \<Rightarrow> False | Some r \<Rightarrow> tk_status r = e)
    \<and> (if fst (update_task_conditional t e db)
        then map_option tk_status (get_task (tk_id t) (snd (update_task_conditional t e db)))
             = Some (tk_status t)
        else snd (update_task_conditional t e db) = db)
    \<and> (tk_status t \<noteq> e \<and> tk_id t2 = tk_id t \<longrightarrow>
        \<not> fst (update_task_conditional t2 e (snd (update_task_conditional t e db))))"
proof -
  let ?db = "snd (update_task_conditional t e db)"
  let ?f = "\<lambda>r. if tk_id r = tk_id t \<and> tk_status r = e then overwrite_row t r else r"
  have wf: "db_wf ?db"
    using db_exec_wf[OF assms, of now "UpdateConditional t e"] by simp
  have tasks: "db_tasks ?db = map ?f (db_tasks db)" by (simp add: update_task_conditional_def)
  have applied: "fst (update_task_conditional t e db) \<longleftrightarrow>
      (\<exists>r \<in> set (db_tasks db). tk_id r = tk_id t \<and> tk_status r = e)"
    by (simp add: update_task_conditional_def)
  have 1: "fst (update_task_conditional t e db) =
      (case get_task (tk_id t) db of None \<Rightarrow> False | Some r \<Rightarrow> tk_status r = e)"
  proof (cases "get_task (tk_id t) db")
    case None
    then have "\<forall>r \<in> set (db_tasks db). tk_id r \<noteq> tk_id t"
      by (auto simp: get_task_def find_None_iff)
    then show ?thesis using applied None by simp
  next
    case (Some r)
    then have "r \<in> set (db_tasks db)" "tk_id r = tk_id t" using get_task_unique[OF assms] by auto
    moreover have "r' = r" if "r' \<in> set (db_tasks db)" "tk_id r' = tk_id t" for r'
      using that Some get_task_unique[OF assms, of "tk_id t" r'] by simp
    ultimately have "(\<exists>r \<in> set (db_tasks db). tk_id r = tk_id t \<and> tk_status r = e) \<longleftrightarrow> tk_status r = e"
      by blast
    then show ?thesis using applied Some by simp
  qed
  have 2: "if fst (update_task_conditional t e db)
      then map_option tk_status (get_task (tk_id t) ?db) = Some (tk_status t) else ?db = db"
  proof (cases "fst (update_task_conditional t e db)")
    case True
    then obtain r where r: "r \<in> set (db_tasks db)" "tk_id r = tk_id t" "tk_status r = e"
      using applied by blast
    then have "overwrite_row t r \<in> set (db_tasks ?db)" unfolding tasks by force
    then have "get_task (tk_id t) ?db = Some (overwrite_row t r)"
      using get_task_unique[OF wf] r(2) by simp
    then show ?thesis using True by simp
  next
    case False
    then have "map ?f (db_tasks db) = db_tasks db"
      using applied by (intro map_idI) auto
    then have "?db = db" by (simp add: update_task_conditional_def)
    then show ?thesis using False by simp
  qed
  have "\<not> fst (update_task_conditional t2 e ?db)" if "tk_status t \<noteq> e" "tk_id t2 = tk_id t"
    using that by (auto simp: update_task_conditional_def)
  with 1 2 show ?thesis by blast
qed

theorem conditional_update_is_a_lock_witness:
  "fst (update_task_conditional (sample_row ''a'' 2 ''Failed'') ''Ready'' two_ready)"
proof -
  have "db_wf two_ready" by (simp add: db_wf_def two_ready_def empty_db_def sample_row_def)
  from conditional_update_is_a_lock[OF this, of "sample_row ''a'' 2 ''Failed''" "''Ready''"] show ?thesis
    by (simp add: two_ready_def empty_db_def sample_row_def get_task_def)
qed

end
