(* ===== verification/Assoc.thy ===== *)
theory Assoc
  imports Prelude "HOL-Library.AList"
begin

text \<open>
  Shared facts on association lists, which stand for the hash maps of the program: lookup,
  keys and counts after an update, a deletion and an in-place change of one entry
  (\<open>update_value\<close>, the \<open>get_mut\<close> of a map).
\<close>

lemma map_of_update [simp]: "map_of (AList.update k v xs) = (map_of xs)(k \<mapsto> v)"
  by (rule update_conv')

lemma map_of_delete [simp]: "map_of (AList.delete k xs) = (map_of xs)(k := None)"
  by (rule delete_conv')

lemma set_AList_update: "set (AList.update k v xs) \<subseteq> insert (k, v) (set xs)"
  by (induction xs) auto

lemma set_AList_delete: "set (AList.delete k xs) \<subseteq> set xs"
  by (induction xs) auto

lemma filter_update_le: "length (filter P (AList.update k v xs)) \<le> Suc (length (filter P xs))"
  by (induction xs) auto

lemma filter_delete_le: "length (filter P (AList.delete k xs)) \<le> length (filter P xs)"
  by (induction xs) (auto simp: AList.delete_eq)

lemma filter_update_not: "\<not> P (k, v) \<Longrightarrow> length (filter P (AList.update k v xs)) \<le> length (filter P xs)"
  by (induction xs) auto

lemma filter_update_fresh:
  "k \<notin> fst ` set xs \<Longrightarrow> filter P (AList.update k v xs) = filter P xs @ (if P (k, v) then [(k, v)] else [])"
  by (induction xs) auto

lemma delete_update_fresh: "k \<notin> fst ` set xs \<Longrightarrow> AList.delete k (AList.update k v xs) = xs"
  by (induction xs) (auto simp: AList.delete_eq)

lemma delete_fresh: "k \<notin> fst ` set xs \<Longrightarrow> AList.delete k xs = xs"
  by (induction xs) (auto simp: AList.delete_eq)

lemma keys_update: "fst ` set (AList.update k v xs) = insert k (fst ` set xs)"
  using dom_map_of_conv_image_fst[of "AList.update k v xs"] dom_map_of_conv_image_fst[of xs]
  by (simp add: dom_if)

lemma keys_delete: "fst ` set (AList.delete k xs) = fst ` set xs - {k}"
  by (auto simp: AList.delete_eq)

lemma map_of_filter_distinct:
  "distinct (map fst xs) \<Longrightarrow> map_of (filter P xs) k = Some v \<Longrightarrow> map_of xs k = Some v"
  by (metis distinct_map_filter filter_is_subset map_of_is_SomeI map_of_SomeD subsetD)

lemma lookup_in_keys: "map_of xs k \<noteq> None \<longleftrightarrow> k \<in> fst ` set xs"
  by (simp add: map_of_eq_None_iff)

definition update_value :: "'k \<Rightarrow> ('v \<Rightarrow> 'v) \<Rightarrow> ('k \<times> 'v) list \<Rightarrow> ('k \<times> 'v) list" where
  "update_value k f xs = map (\<lambda>(k', v). (k', if k' = k then f v else v)) xs"

lemma keys_update_value [simp]: "map fst (update_value k f xs) = map fst xs"
  by (induction xs) (auto simp: update_value_def)

lemma key_set_update_value [simp]: "fst ` set (update_value k f xs) = fst ` set xs"
  by (metis keys_update_value set_map)

lemma map_of_update_value: "map_of (update_value k f xs) k' = (if k' = k then map_option f (map_of xs k) else map_of xs k')"
  by (induction xs) (auto simp: update_value_def)

lemma update_value_absent: "k \<notin> fst ` set xs \<Longrightarrow> update_value k f xs = xs"
  by (induction xs) (auto simp: update_value_def)

text \<open>An in-place change that makes no entry satisfy \<open>P\<close> anew does not raise its count; any
  such change raises it by at most one.\<close>

lemma filter_update_value_le:
  assumes "\<And>v. map_of xs k = Some v \<Longrightarrow> P (k, f v) \<Longrightarrow> P (k, v)" and "distinct (map fst xs)"
  shows "length (filter P (update_value k f xs)) \<le> length (filter P xs)"
  using assms
proof (induction xs)
  case (Cons x xs)
  obtain k' v where x: "x = (k', v)" by force
  show ?case
  proof (cases "k' = k")
    case True
    then have "update_value k f xs = xs" using Cons.prems(2) x by (intro update_value_absent) force
    then show ?thesis using Cons.prems(1)[of v] True x by (simp add: update_value_def)
  next
    case False
    have "length (filter P (update_value k f xs)) \<le> length (filter P xs)"
      using Cons False x by (intro Cons.IH) auto
    then show ?thesis using False x by (simp add: update_value_def)
  qed
qed (simp add: update_value_def)

lemma filter_update_value_new:
  assumes "map_of xs k = Some v" and "\<not> P (k, v)" and "P (k, f v)" and "distinct (map fst xs)"
  shows "length (filter P (update_value k f xs)) = Suc (length (filter P xs))"
  using assms
proof (induction xs)
  case (Cons x xs)
  obtain k' v' where x: "x = (k', v')" by force
  show ?case
  proof (cases "k' = k")
    case True
    then have "update_value k f xs = xs" using Cons.prems(4) x by (intro update_value_absent) force
    then show ?thesis using Cons.prems True x by (simp add: update_value_def)
  next
    case False
    have "length (filter P (update_value k f xs)) = Suc (length (filter P xs))"
      using Cons False x by (intro Cons.IH) auto
    then show ?thesis using False x by (simp add: update_value_def)
  qed
qed simp

lemma delete_update_value: "AList.delete k (update_value k f xs) = AList.delete k xs"
  by (induction xs) (auto simp: update_value_def AList.delete_eq)

lemma delete_update: "AList.delete k (AList.update k v xs) = AList.delete k xs"
  by (induction xs) (auto simp: AList.delete_eq)

end
