(* ===== verification/Coordinator.thy ===== *)
theory Coordinator
  imports Task_Store Workflow_Doc Tracker Reconciler Assoc
begin

text \<open>
  \<open>crates/pnevma-commands/src/automation/coordinator.rs\<close>: the automation coordinator, its
  claims, tracked runs and retry queue, and the tick that processes completions and
  retries, dispatches ready tasks, reconciles stale runs and polls the tracker.

  The state holds the maps of the coordinator (hash maps as association lists with
  arbitrary order), its statistics, the workflow store and the open project with its
  database. What a phase of the tick observes from outside is a \<open>coord_env\<close>: the clock,
  identifiers drawn, which database statements fail, which event tasks have finished, the
  file system, the tracker's answer, and the agent runner (\<open>runner.rs\<close>), whose \<open>prepare\<close>,
  \<open>create_automation_run_record\<close>, \<open>start\<close> and \<open>send_payload\<close> are one function that gives the
  outcome of the dispatch and the project afterwards.
\<close>

section \<open>State\<close>

datatype dispatch_origin = Manual | AutoDispatch | WorkflowOrigin

record task_claim =
  tcl_task_id :: uuid
  tcl_origin :: dispatch_origin
  tcl_claimed_at :: time
  tcl_run_id :: uuid

datatype run_state =
    Preparing
  | RunRunning uuid time
  | RunCompleted bool time
  | RetryPending u32 time

record tracked_run =
  tr_run_id :: uuid
  tr_task_id :: uuid
  tr_origin :: dispatch_origin
  tr_state :: run_state
  tr_event_task :: bool
  tr_db_run_id :: "string option"
  tr_handle :: bool

record retry_entry =
  re_run_id :: uuid
  re_task_id :: uuid
  re_attempt :: u32
  re_retry_after :: time
  re_last_error :: string
  re_db_retry_id :: "string option"

record project =
  pj_id :: string
  pj_auto_dispatch :: bool
  pj_db :: task_db
  pj_sessions :: "uuid list"
  pj_tracker :: bool
  pj_events :: "(uuid \<times> string \<times> string) list"

record coordinator =
  claims :: "(uuid \<times> task_claim) list"
  running :: "(uuid \<times> tracked_run) list"
  retry_queue :: "retry_entry list"
  total_dispatched :: u64
  total_completed :: u64
  total_failed :: u64
  total_retried :: u64
  last_tick_at :: "time option"
  wf_store :: workflow_store
  current :: "project option"

record automation_snapshot =
  sn_enabled :: bool
  sn_config_source :: string
  sn_poll_interval_seconds :: u64
  sn_max_concurrent :: nat
  sn_active_runs :: nat
  sn_queued_tasks :: nat
  sn_claimed_task_ids :: "uuid list"
  sn_running_task_ids :: "uuid list"
  sn_retry_queue_size :: nat
  sn_last_tick_at :: "time option"
  sn_total_dispatched :: u64
  sn_total_completed :: u64
  sn_total_failed :: u64
  sn_total_retried :: u64

text \<open>How the runner ends a dispatch: at which of its calls it fails, or with the session and
  the row of the run.\<close>

datatype dispatch_outcome =
    PrepareFailed string
  | RecordFailed string
  | StartFailed string
  | SendFailed string
  | Started uuid string

record coord_env =
  now :: time
  fresh :: "nat \<Rightarrow> uuid"
  show_uuid :: "uuid \<Rightarrow> string"
  parse_uuid :: "string \<Rightarrow> uuid option"
  db_ok :: "string \<Rightarrow> bool"
  event_finished :: "uuid \<Rightarrow> bool"
  worktree_exists :: "string \<Rightarrow> bool"
  run_task :: "uuid \<Rightarrow> uuid \<Rightarrow> u32 \<Rightarrow> project option \<Rightarrow> dispatch_outcome \<times> project option"
  cleanup_task_worktree :: "uuid \<Rightarrow> project \<Rightarrow> project"
  poll_tracker :: "string + tracker_item list"
  workflow_file :: file_snapshot
  sha256 :: "string \<Rightarrow> string"
  read_yaml :: "string \<Rightarrow> string + workflow_md_config"

definition coord_new :: "project option \<Rightarrow> workflow_store \<Rightarrow> coordinator" where
  "coord_new pj st =
     \<lparr>claims = [], running = [], retry_queue = [], total_dispatched = 0, total_completed = 0,
      total_failed = 0, total_retried = 0, last_tick_at = None, wf_store = st, current = pj\<rparr>"

abbreviation claim_of :: "coordinator \<Rightarrow> uuid \<Rightarrow> task_claim option" where
  "claim_of s t \<equiv> map_of (claims s) t"

abbreviation run_of :: "coordinator \<Rightarrow> uuid \<Rightarrow> tracked_run option" where
  "run_of s t \<equiv> map_of (running s) t"

definition is_active :: "tracked_run \<Rightarrow> bool" where
  "is_active r = (case tr_state r of Preparing \<Rightarrow> True | RunRunning _ _ \<Rightarrow> True | _ \<Rightarrow> False)"

definition active_count :: "coordinator \<Rightarrow> nat" where
  "active_count s = length (filter (\<lambda>(t, r). is_active r) (running s))"

section \<open>Claims and registration\<close>

definition try_claim :: "time \<Rightarrow> uuid \<Rightarrow> uuid \<Rightarrow> dispatch_origin \<Rightarrow> coordinator \<Rightarrow> bool \<times> coordinator" where
  "try_claim t_now run_id task_id origin s =
     (if claim_of s task_id \<noteq> None then (False, s)
      else (True, s\<lparr>claims := AList.update task_id
              \<lparr>tcl_task_id = task_id, tcl_origin = origin, tcl_claimed_at = t_now, tcl_run_id = run_id\<rparr>
              (claims s)\<rparr>))"

definition release_claim :: "uuid \<Rightarrow> coordinator \<Rightarrow> coordinator" where
  "release_claim task_id s = s\<lparr>claims := AList.delete task_id (claims s)\<rparr>"

definition drop_run :: "uuid \<Rightarrow> coordinator \<Rightarrow> coordinator" where
  "drop_run task_id s = s\<lparr>running := AList.delete task_id (running s)\<rparr>"

definition abandon_run :: "uuid \<Rightarrow> coordinator \<Rightarrow> coordinator" where
  "abandon_run task_id s = release_claim task_id (drop_run task_id s)"

definition register_manual_run :: "time \<Rightarrow> uuid \<Rightarrow> uuid \<Rightarrow> uuid \<Rightarrow> coordinator \<Rightarrow> coordinator" where
  "register_manual_run t_now run_id task_id session_id s =
     s\<lparr>claims := AList.update task_id
         \<lparr>tcl_task_id = task_id, tcl_origin = Manual, tcl_claimed_at = t_now, tcl_run_id = run_id\<rparr>
         (claims s),
       running := AList.update task_id
         \<lparr>tr_run_id = run_id, tr_task_id = task_id, tr_origin = Manual,
          tr_state = RunRunning session_id t_now, tr_event_task = False, tr_db_run_id = None,
          tr_handle = True\<rparr> (running s)\<rparr>"

text \<open>The result lists the runs whose agent is stopped.\<close>

definition shutdown_active_runs :: "coordinator \<Rightarrow> uuid list \<times> coordinator" where
  "shutdown_active_runs s =
     (map fst (filter (\<lambda>(t, r). tr_handle r) (running s)), s\<lparr>running := [], claims := []\<rparr>)"

text \<open>\<open>get_mut\<close> followed by assignments: nothing happens without an entry.\<close>

definition update_entry :: "'k \<Rightarrow> ('v \<Rightarrow> 'v) \<Rightarrow> ('k \<times> 'v) list \<Rightarrow> ('k \<times> 'v) list" where
  "update_entry k f xs = (case map_of xs k of None \<Rightarrow> xs | Some v \<Rightarrow> AList.update k (f v) xs)"

definition preparing_run :: "uuid \<Rightarrow> uuid \<Rightarrow> tracked_run" where
  "preparing_run run_id task_id =
     \<lparr>tr_run_id = run_id, tr_task_id = task_id, tr_origin = AutoDispatch, tr_state = Preparing,
      tr_event_task = False, tr_db_run_id = None, tr_handle = False\<rparr>"

definition dispatch_claimed ::
  "coord_env \<Rightarrow> uuid \<Rightarrow> u32 \<Rightarrow> coordinator \<Rightarrow> (string + unit) \<times> coordinator" where
  "dispatch_claimed env task_id attempt s =
     (case claim_of s task_id of
        None \<Rightarrow> (Err (''BUG: dispatch_claimed called for task '' @ show_uuid env task_id
                      @ '' with no active claim''), s)
      | Some c \<Rightarrow>
          let s1 = s\<lparr>running := AList.update task_id (preparing_run (tcl_run_id c) task_id) (running s)\<rparr>;
              (outcome, pj) = run_task env task_id (tcl_run_id c) attempt (current s1);
              s2 = s1\<lparr>current := pj\<rparr>
          in (case outcome of
                PrepareFailed e \<Rightarrow> (Err e, s2)
              | RecordFailed e \<Rightarrow> (Err e, s2)
              | StartFailed e \<Rightarrow> (Err e, drop_run task_id s2)
              | SendFailed e \<Rightarrow> (Err e, drop_run task_id s2)
              | Started session_id db_row_id \<Rightarrow>
                  (Ok (), s2\<lparr>running := update_entry task_id
                     (\<lambda>r. r\<lparr>tr_state := RunRunning session_id (now env), tr_event_task := True,
                            tr_db_run_id := Some db_row_id, tr_handle := True\<rparr>) (running s2)\<rparr>)))"

section \<open>Database helpers\<close>

text \<open>\<open>db.get_task\<close>: an error and a missing row are told apart by \<open>mark_task_failed\<close> only.\<close>

definition db_get :: "coord_env \<Rightarrow> project \<Rightarrow> uuid \<Rightarrow> task_row option" where
  "db_get env pj task_id =
     (if db_ok env ''get_task'' then get_task (show_uuid env task_id) (pj_db pj) else None)"

definition is_task_terminal :: "coord_env \<Rightarrow> uuid \<Rightarrow> coordinator \<Rightarrow> bool" where
  "is_task_terminal env task_id s =
     (case current s of
        None \<Rightarrow> False
      | Some pj \<Rightarrow>
          (case db_get env pj task_id of
             None \<Rightarrow> False
           | Some row \<Rightarrow> is_terminal_task_status (parse_status (tk_status row))))"

definition append_event :: "uuid \<Rightarrow> string \<Rightarrow> string \<Rightarrow> project \<Rightarrow> project" where
  "append_event task_id kind reason pj = pj\<lparr>pj_events := pj_events pj @ [(task_id, kind, reason)]\<rparr>"

definition on_db :: "(task_db \<Rightarrow> task_db) \<Rightarrow> project \<Rightarrow> project" where
  "on_db f pj = pj\<lparr>pj_db := f (pj_db pj)\<rparr>"

definition mark_task_failed :: "coord_env \<Rightarrow> uuid \<Rightarrow> string \<Rightarrow> coordinator \<Rightarrow> coordinator" where
  "mark_task_failed env task_id reason s =
     (case current s of
        None \<Rightarrow> s
      | Some pj \<Rightarrow>
          let pj1 = (case db_get env pj task_id of
                       Some row \<Rightarrow>
                         if db_ok env ''update_task''
                         then on_db (update_task (row\<lparr>tk_status := ''Failed'', tk_updated_at := now env\<rparr>)) pj
                         else pj
                     | None \<Rightarrow> pj)
          in s\<lparr>current := Some (append_event task_id ''TaskFailed'' reason pj1)\<rparr>)"

section \<open>Completions and retries\<close>

definition run_finished :: "coord_env \<Rightarrow> coordinator \<Rightarrow> uuid \<Rightarrow> tracked_run \<Rightarrow> bool" where
  "run_finished env s task_id r =
     (if tr_event_task r \<and> event_finished env (tr_run_id r) then True
      else \<not> tr_event_task r \<and> tr_origin r = Manual \<and> is_task_terminal env task_id s)"

definition completed_task_failed :: "coord_env \<Rightarrow> uuid \<Rightarrow> coordinator \<Rightarrow> bool" where
  "completed_task_failed env task_id s =
     (is_task_terminal env task_id s \<and>
      (case current s of
         None \<Rightarrow> False
       | Some pj \<Rightarrow>
           (case db_get env pj task_id of
              Some row \<Rightarrow> tk_status row = ''Failed'' \<or> tk_status row = ''Error''
            | None \<Rightarrow> False)))"

definition complete_run :: "coord_env \<Rightarrow> uuid \<Rightarrow> coordinator \<Rightarrow> coordinator" where
  "complete_run env task_id s =
     (let task_failed = completed_task_failed env task_id s;
          s1 = release_claim task_id (drop_run task_id s)
      in if task_failed then s1\<lparr>total_failed := total_failed s1 + 1\<rparr>
         else s1\<lparr>total_completed := total_completed s1 + 1\<rparr>)"

definition process_completions :: "coord_env \<Rightarrow> coordinator \<Rightarrow> coordinator" where
  "process_completions env s =
     fold (complete_run env)
       (map fst (filter (\<lambda>(t, r). run_finished env s t r) (running s))) s"

definition retry_outcome :: "coord_env \<Rightarrow> string option \<Rightarrow> string \<Rightarrow> coordinator \<Rightarrow> coordinator" where
  "retry_outcome env retry_id outcome s =
     (case (current s, retry_id) of
        (Some pj, Some i) \<Rightarrow>
          if db_ok env ''update_automation_retry_outcome''
          then s\<lparr>current := Some (on_db (update_automation_retry_outcome i outcome (Some (now env))) pj)\<rparr>
          else s
      | _ \<Rightarrow> s)"

definition process_retry :: "coord_env \<Rightarrow> uuid \<Rightarrow> retry_entry \<Rightarrow> coordinator \<Rightarrow> coordinator" where
  "process_retry env run_id entry s =
     (case try_claim (now env) run_id (re_task_id entry) AutoDispatch s of
        (False, s1) \<Rightarrow> s1
      | (True, s1) \<Rightarrow>
          (case dispatch_claimed env (re_task_id entry) (re_attempt entry) s1 of
             (Ok _, s2) \<Rightarrow>
               retry_outcome env (re_db_retry_id entry) ''dispatched''
                 (s2\<lparr>total_retried := total_retried s2 + 1\<rparr>)
           | (Err e, s2) \<Rightarrow>
               let s3 = release_claim (re_task_id entry) s2
               in retry_outcome env (re_db_retry_id entry) ''failed''
                    (s3\<lparr>total_failed := total_failed s3 + 1\<rparr>)))"

fun process_retry_list ::
  "coord_env \<Rightarrow> nat \<Rightarrow> retry_entry list \<Rightarrow> coordinator \<Rightarrow> coordinator" where
  "process_retry_list env k [] s = s"
| "process_retry_list env k (e # es) s =
     process_retry_list env (Suc k) es (process_retry env (fresh env k) e s)"

definition process_retries :: "coord_env \<Rightarrow> coordinator \<Rightarrow> coordinator" where
  "process_retries env s =
     process_retry_list env 0 (filter (\<lambda>e. re_retry_after e \<le> now env) (retry_queue s))
       (s\<lparr>retry_queue := filter (\<lambda>e. \<not> re_retry_after e \<le> now env) (retry_queue s)\<rparr>)"

definition enqueue_retry :: "coord_env \<Rightarrow> retry_entry \<Rightarrow> coordinator \<Rightarrow> coordinator" where
  "enqueue_retry env entry s =
     (case current s of
        None \<Rightarrow> s\<lparr>retry_queue := retry_queue s @ [entry]\<rparr>
      | Some pj \<Rightarrow>
          let row_id = show_uuid env (fresh env 0);
              row = \<lparr>ry_id = row_id, ry_project_id = pj_id pj,
                     ry_run_id = show_uuid env (re_run_id entry),
                     ry_task_id = show_uuid env (re_task_id entry),
                     ry_attempt = uint (re_attempt entry), ry_reason = re_last_error entry,
                     ry_retry_after = re_retry_after entry, ry_retried_at = None,
                     ry_outcome = None, ry_created_at = now env\<rparr>
          in (case (if db_ok env ''create_automation_retry''
                    then create_automation_retry row (pj_db pj) else (Err PrimaryKey, pj_db pj)) of
                (Ok _, db) \<Rightarrow>
                  s\<lparr>current := Some (pj\<lparr>pj_db := db\<rparr>),
                    retry_queue := retry_queue s @ [entry\<lparr>re_db_retry_id := Some row_id\<rparr>]\<rparr>
              | (Err _, db) \<Rightarrow> s\<lparr>retry_queue := retry_queue s @ [entry]\<rparr>))"

definition restored_entry :: "coord_env \<Rightarrow> nat \<Rightarrow> uuid \<Rightarrow> retry_row \<Rightarrow> retry_entry" where
  "restored_entry env k task_id row =
     \<lparr>re_run_id = (case parse_uuid env (ry_run_id row) of Some i \<Rightarrow> i | None \<Rightarrow> fresh env k),
      re_task_id = task_id, re_attempt = word_of_int (ry_attempt row),
      re_retry_after = ry_retry_after row, re_last_error = ry_reason row,
      re_db_retry_id = Some (ry_id row)\<rparr>"

fun restore_rows ::
  "coord_env \<Rightarrow> uuid set \<Rightarrow> nat \<Rightarrow> retry_row list \<Rightarrow> retry_entry list" where
  "restore_rows env existing k [] = []"
| "restore_rows env existing k (row # rows) =
     (case parse_uuid env (ry_task_id row) of
        None \<Rightarrow> restore_rows env existing (Suc k) rows
      | Some task_id \<Rightarrow>
          if task_id \<in> existing then restore_rows env existing (Suc k) rows
          else restored_entry env k task_id row # restore_rows env existing (Suc k) rows)"

definition restore_retries_from_db :: "coord_env \<Rightarrow> coordinator \<Rightarrow> coordinator" where
  "restore_retries_from_db env s =
     (case current s of
        None \<Rightarrow> s
      | Some pj \<Rightarrow>
          if \<not> db_ok env ''list_pending_retries'' then s
          else s\<lparr>retry_queue := retry_queue s
                   @ restore_rows env (re_task_id ` set (retry_queue s)) 0
                       (list_pending_retries (pj_id pj) (pj_db pj))\<rparr>)"

section \<open>Dispatch\<close>

definition discover_dispatchable :: "coord_env \<Rightarrow> string list \<Rightarrow> coordinator \<Rightarrow> string list" where
  "discover_dispatchable env active_statuses s =
     (case current s of
        None \<Rightarrow> []
      | Some pj \<Rightarrow>
          if \<not> db_ok env ''list_tasks'' then []
          else
            let claimed_ids = map (show_uuid env \<circ> fst) (claims s);
                target_status = (if active_statuses = [] then [''Ready''] else active_statuses)
            in map tk_id (filter (\<lambda>t. tk_status t \<in> set target_status \<and> tk_auto_dispatch t
                  \<and> tk_id t \<notin> set claimed_ids) (list_tasks (pj_id pj) (pj_db pj))))"

definition dispatch_one :: "coord_env \<Rightarrow> uuid \<Rightarrow> string \<Rightarrow> coordinator \<Rightarrow> coordinator" where
  "dispatch_one env run_id task_id_str s =
     (case parse_uuid env task_id_str of
        None \<Rightarrow> s
      | Some task_id \<Rightarrow>
          (case try_claim (now env) run_id task_id AutoDispatch s of
             (False, s1) \<Rightarrow> s1
           | (True, s1) \<Rightarrow>
               (case dispatch_claimed env task_id 1 s1 of
                  (Ok _, s2) \<Rightarrow> s2\<lparr>total_dispatched := total_dispatched s2 + 1\<rparr>
                | (Err e, s2) \<Rightarrow> release_claim task_id s2)))"

fun dispatch_loop :: "coord_env \<Rightarrow> nat \<Rightarrow> string list \<Rightarrow> coordinator \<Rightarrow> coordinator" where
  "dispatch_loop env k [] s = s"
| "dispatch_loop env k (t # ts) s = dispatch_loop env (Suc k) ts (dispatch_one env (fresh env k) t s)"

section \<open>Reconciliation\<close>

definition stale_ids :: "coord_env \<Rightarrow> coordinator \<Rightarrow> uuid list" where
  "stale_ids env s =
     map fst (filter (\<lambda>(t, c). tcl_claimed_at c < now env - 5 * 60 * nanos_per_sec
       \<and> (case run_of s t of Some r \<Rightarrow> tr_state r = Preparing | None \<Rightarrow> True)) (claims s))"

definition release_stale :: "coord_env \<Rightarrow> uuid \<Rightarrow> coordinator \<Rightarrow> coordinator" where
  "release_stale env task_id s =
     (let s1 = mark_task_failed env task_id
                 ''stale claim released after timeout (>5 min in Preparing)''
                 (release_claim task_id (drop_run task_id s))
      in s1\<lparr>total_failed := total_failed s1 + 1\<rparr>)"

definition reconciliation_claim_of :: "coord_env \<Rightarrow> project \<Rightarrow> tracked_run \<Rightarrow> reconciliation_claim option" where
  "reconciliation_claim_of env pj r =
     (case tr_state r of
        RunRunning session_id _ \<Rightarrow>
          let (wt, br) = (case db_get env pj (tr_task_id r) of
                Some row \<Rightarrow>
                  (if db_ok env ''find_worktree_by_task''
                   then map_option wt_path (find_worktree_by_task (show_uuid env (tr_task_id r)) (pj_db pj))
                   else None, tk_branch row)
              | None \<Rightarrow> (None, None))
          in Some \<lparr>rc_task_id = tr_task_id r, rc_session_id = session_id, rc_worktree_path = wt,
                   rc_branch = br, rc_lease_status = ''Active''\<rparr>
      | _ \<Rightarrow> None)"

definition build_reconciliation_claims :: "coord_env \<Rightarrow> coordinator \<Rightarrow> reconciliation_claim list" where
  "build_reconciliation_claims env s =
     (case current s of
        None \<Rightarrow> []
      | Some pj \<Rightarrow> List.map_filter (reconciliation_claim_of env pj \<circ> snd) (running s))"

definition get_active_session_ids :: "coord_env \<Rightarrow> coordinator \<Rightarrow> uuid list" where
  "get_active_session_ids env s =
     List.map_filter (\<lambda>(t, r). case tr_state r of
         RunRunning session_id _ \<Rightarrow>
           if tr_event_task r \<and> \<not> event_finished env (tr_run_id r) then Some session_id else None
       | _ \<Rightarrow> None) (running s)
     @ (case current s of
          None \<Rightarrow> []
        | Some pj \<Rightarrow>
            pj_sessions pj
            @ (if db_ok env ''list_sessions''
               then List.map_filter (\<lambda>row.
                      if se_type row = Some ''agent'' \<and> se_status row = ''running''
                      then parse_uuid env (se_id row) else None)
                    (filter (\<lambda>row. se_project_id row = pj_id pj) (db_sessions (pj_db pj)))
               else []))"

definition apply_action :: "coord_env \<Rightarrow> reconciliation_action \<Rightarrow> coordinator \<Rightarrow> coordinator" where
  "apply_action env action s =
     (case action of
        MarkFailed task_id reason \<Rightarrow>
          let s1 = release_claim task_id (drop_run task_id (mark_task_failed env task_id reason s))
          in s1\<lparr>total_failed := total_failed s1 + 1\<rparr>
      | RefreshLease task_id \<Rightarrow> s
      | CleanupOrphan task_id path \<Rightarrow>
          let s1 = mark_task_failed env task_id ''orphaned session detected by reconciler'' s;
              s2 = s1\<lparr>current := map_option (cleanup_task_worktree env task_id) (current s1)\<rparr>;
              s3 = release_claim task_id (drop_run task_id s2)
          in s3\<lparr>total_failed := total_failed s3 + 1\<rparr>)"

definition reconcile_running :: "coord_env \<Rightarrow> coordinator \<Rightarrow> coordinator" where
  "reconcile_running env s =
     (let rcs = build_reconciliation_claims env s
      in if rcs = [] then s
         else fold (apply_action env)
                (reconcile_claims (worktree_exists env) rcs (get_active_session_ids env s)) s)"

definition reconcile_stale :: "coord_env \<Rightarrow> coordinator \<Rightarrow> coordinator" where
  "reconcile_stale env s = reconcile_running env (fold (release_stale env) (stale_ids env s) s)"

section \<open>Startup recovery\<close>

definition fail_orphan :: "coord_env \<Rightarrow> uuid set \<Rightarrow> task_row \<Rightarrow> project \<Rightarrow> project" where
  "fail_orphan env recoverable row pj =
     (case parse_uuid env (tk_id row) of
        None \<Rightarrow> pj
      | Some task_id \<Rightarrow>
          if task_id \<in> recoverable then pj
          else
            let row' = row\<lparr>tk_status := ''Failed'', tk_updated_at := now env,
                           tk_handoff_summary := (case tk_handoff_summary row of
                              None \<Rightarrow> Some ''recovered: process terminated while task was in progress''
                            | Some h \<Rightarrow> Some h)\<rparr>
            in if \<not> db_ok env ''update_task_conditional'' then pj
               else case update_task_conditional row' ''InProgress'' (pj_db pj) of
                 (False, _) \<Rightarrow> pj
               | (True, db) \<Rightarrow>
                   append_event task_id ''TaskFailed'' ''orphaned InProgress task recovered on startup''
                     (pj\<lparr>pj_db := db\<rparr>))"

definition recoverable_task_ids :: "coord_env \<Rightarrow> project \<Rightarrow> uuid list" where
  "recoverable_task_ids env pj =
     (if db_ok env ''list_recoverable_in_progress_tasks''
      then List.map_filter (parse_uuid env \<circ> tk_id)
             (list_recoverable_in_progress_tasks (pj_id pj) (pj_db pj))
      else [])"

definition cleanup_terminal :: "coord_env \<Rightarrow> task_row \<Rightarrow> project \<Rightarrow> project" where
  "cleanup_terminal env row pj =
     (if \<not> is_terminal_task_status (parse_status (tk_status row)) then pj
      else case parse_uuid env (tk_id row) of
        None \<Rightarrow> pj
      | Some task_id \<Rightarrow>
          if tk_worktree_id row \<noteq> None
             \<or> db_ok env ''find_worktree_by_task'' \<and> find_worktree_by_task (tk_id row) (pj_db pj) \<noteq> None
          then cleanup_task_worktree env task_id pj
          else pj)"

definition recover_zombie_runs :: "coord_env \<Rightarrow> coordinator \<Rightarrow> coordinator" where
  "recover_zombie_runs env s =
     (case current s of
        None \<Rightarrow> s
      | Some pj \<Rightarrow>
          let pj1 = (if db_ok env ''mark_stale_automation_runs''
                     then on_db (snd \<circ> mark_stale_automation_runs (now env) (pj_id pj)) pj else pj);
              recoverable = recoverable_task_ids env pj1;
              pj2 = fold (\<lambda>t. append_event t ''TaskRecoveryDeferred''
                              ''live agent session detected during startup recovery'') recoverable pj1;
              pj3 = (if db_ok env ''list_orphaned_in_progress_tasks''
                     then fold (fail_orphan env (set recoverable))
                            (list_orphaned_in_progress_tasks (pj_id pj2) (pj_db pj2)) pj2
                     else pj2);
              pj4 = (if db_ok env ''list_tasks''
                     then fold (cleanup_terminal env) (list_tasks (pj_id pj3) (pj_db pj3)) pj3
                     else pj3)
          in s\<lparr>current := Some pj4\<rparr>)"

section \<open>Tracker\<close>

definition tracker_priority :: "rat option \<Rightarrow> string" where
  "tracker_priority p =
     (case p of
        Some q \<Rightarrow> if q \<le> 1 then ''P0'' else if q \<le> 2 then ''P1'' else if q \<le> 3 then ''P2'' else ''P2''
      | None \<Rightarrow> ''P2'')"

definition tracker_task_row :: "coord_env \<Rightarrow> string \<Rightarrow> string \<Rightarrow> tracker_item \<Rightarrow> task_row" where
  "tracker_task_row env project_id task_id item =
     \<lparr>tk_id = task_id, tk_project_id = project_id, tk_title = ti_title item,
      tk_goal = (case ti_description item of Some d \<Rightarrow> d | None \<Rightarrow> ti_title item),
      tk_scope_json = ''[]'', tk_dependencies_json = ''[]'', tk_acceptance_json = ''[]'',
      tk_constraints_json = ''[]'', tk_priority = tracker_priority (ti_priority item),
      tk_status = to_task_status (ti_state item), tk_branch = None, tk_worktree_id = None,
      tk_handoff_summary = None, tk_created_at = now env, tk_updated_at = now env,
      tk_auto_dispatch = True, tk_agent_profile_override = None, tk_execution_mode = None,
      tk_timeout_minutes = None, tk_max_retries = None, tk_loop_iteration = 0,
      tk_loop_context_json = None, tk_forked_from_task_id = None, tk_lineage_summary = None,
      tk_lineage_depth = 0\<rparr>"

definition tracker_source_row ::
  "coord_env \<Rightarrow> string \<Rightarrow> string \<Rightarrow> string \<Rightarrow> tracker_item \<Rightarrow> external_source_row" where
  "tracker_source_row env project_id row_id task_id item =
     \<lparr>es_id = row_id, es_project_id = project_id, es_task_id = task_id, es_kind = ti_kind item,
      es_external_id = ti_external_id item, es_identifier = ti_identifier item, es_url = ti_url item,
      es_state = external_state_str (ti_state item), es_synced_at = now env, es_title = None,
      es_description = None, es_labels_json = None\<rparr>"

text \<open>One item: an item that has a source row updates its state, any other makes a task.\<close>

definition upsert_item :: "coord_env \<Rightarrow> nat \<Rightarrow> tracker_item \<Rightarrow> project \<Rightarrow> project" where
  "upsert_item env k item pj =
     (case (if db_ok env ''get_task_external_source''
            then get_task_external_source (pj_id pj) (ti_kind item) (ti_external_id item) (pj_db pj)
            else None) of
        Some source_row \<Rightarrow>
          let new_state = external_state_str (ti_state item)
          in if es_state source_row \<noteq> new_state \<and> db_ok env ''upsert_task_external_source''
             then on_db (\<lambda>db. snd (upsert_task_external_source
                    (source_row\<lparr>es_state := new_state, es_synced_at := now env\<rparr>) db)) pj
             else pj
      | None \<Rightarrow>
          let task_id = show_uuid env (fresh env (2 * k))
          in case (if db_ok env ''create_task''
                   then create_task (tracker_task_row env (pj_id pj) task_id item) (pj_db pj)
                   else (Err PrimaryKey, pj_db pj)) of
               (Err _, _) \<Rightarrow> pj
             | (Ok _, db) \<Rightarrow>
                 let pj1 = pj\<lparr>pj_db := db\<rparr>
                 in if db_ok env ''upsert_task_external_source''
                    then on_db (\<lambda>db. snd (upsert_task_external_source
                           (tracker_source_row env (pj_id pj)
                              (show_uuid env (fresh env (2 * k + 1))) task_id item) db)) pj1
                    else pj1)"

fun upsert_items :: "coord_env \<Rightarrow> nat \<Rightarrow> tracker_item list \<Rightarrow> project \<Rightarrow> project" where
  "upsert_items env k [] pj = pj"
| "upsert_items env k (i # is) pj = upsert_items env (Suc k) is (upsert_item env k i pj)"

definition poll_tracker_and_upsert :: "coord_env \<Rightarrow> coordinator \<Rightarrow> coordinator" where
  "poll_tracker_and_upsert env s =
     (case current s of
        None \<Rightarrow> s
      | Some pj \<Rightarrow>
          if \<not> pj_tracker pj then s
          else case poll_tracker env of
            Err _ \<Rightarrow> s
          | Ok items \<Rightarrow> s\<lparr>current := Some (upsert_items env 0 items pj)\<rparr>)"

section \<open>The tick and the snapshot\<close>

definition toml_enabled :: "coordinator \<Rightarrow> bool" where
  "toml_enabled s = (case current s of None \<Rightarrow> False | Some pj \<Rightarrow> pj_auto_dispatch pj)"

text \<open>\<open>envs\<close> gives each phase its own view of the outside: 0 reload, 1 completions, 2 retries,
  3 dispatch, 4 reconciliation, 5 tracker.\<close>

definition tick_begin :: "coord_env \<Rightarrow> coordinator \<Rightarrow> coordinator" where
  "tick_begin env s =
     s\<lparr>wf_store := snd (store_check_reload (sha256 env) (read_yaml env) (workflow_file env) (wf_store s)),
       last_tick_at := Some (now env)\<rparr>"

definition tick :: "(nat \<Rightarrow> coord_env) \<Rightarrow> coordinator \<Rightarrow> u64 \<times> coordinator" where
  "tick envs s =
     (let s1 = tick_begin (envs 0) s;
          config = effective_config (wf_store s1);
          interval = max (wc_poll_interval_seconds config) 5
      in if \<not> wc_enabled config \<and> \<not> toml_enabled s1 then (interval, s1)
         else
           let s3 = process_retries (envs 2) (process_completions (envs 1) s1);
               active = active_count s3
           in if wc_max_concurrent config \<le> active then (interval, s3)
              else
                let dispatchable = discover_dispatchable (envs 3) (wc_active_task_statuses config) s3
                in if dispatchable = [] then (interval, s3)
                   else
                     let s4 = dispatch_loop (envs 3) 0
                                (take (wc_max_concurrent config - active) dispatchable) s3
                     in (interval,
                         poll_tracker_and_upsert (envs 5) (reconcile_stale (envs 4) s4)))"

definition snapshot :: "coordinator \<Rightarrow> automation_snapshot" where
  "snapshot s =
     (let config = effective_config (wf_store s)
      in \<lparr>sn_enabled = (wc_enabled config \<or> toml_enabled s),
          sn_config_source = (if st_current (wf_store s) \<noteq> None then ''WORKFLOW.md''
                              else if toml_enabled s then ''pnevma.toml'' else ''none''),
          sn_poll_interval_seconds = wc_poll_interval_seconds config,
          sn_max_concurrent = wc_max_concurrent config,
          sn_active_runs = active_count s,
          sn_queued_tasks = length (claims s) - length (running s),
          sn_claimed_task_ids = map fst (claims s),
          sn_running_task_ids = map fst (filter (\<lambda>(t, r). case tr_state r of
             RunRunning _ _ \<Rightarrow> True | _ \<Rightarrow> False) (running s)),
          sn_retry_queue_size = length (retry_queue s),
          sn_last_tick_at = last_tick_at s, sn_total_dispatched = total_dispatched s,
          sn_total_completed = total_completed s, sn_total_failed = total_failed s,
          sn_total_retried = total_retried s\<rparr>)"

section \<open>What the operations change\<close>

definition coord_wf :: "coordinator \<Rightarrow> bool" where
  [inv_defs]: "coord_wf s \<longleftrightarrow> distinct (map fst (claims s)) \<and> distinct (map fst (running s))"

lemma update_entry_update: "update_entry k f (AList.update k v xs) = AList.update k (f v) xs"
  by (simp add: update_entry_def)

text \<open>\<open>dispatch_claimed\<close> touches the running entry of its task only, and the project.\<close>

lemma dispatch_claimed_running:
  assumes "dispatch_claimed env t attempt s = (r, s')"
  shows "running s' = running s \<or> running s' = AList.delete t (running s)
     \<or> (\<exists>v. running s' = AList.update t v (running s))"
    and "claims s' = claims s" and "retry_queue s' = retry_queue s" and "wf_store s' = wf_store s"
  using assms
  by (auto simp: dispatch_claimed_def Let_def drop_run_def update_entry_update delete_update_same
      split: option.splits prod.splits dispatch_outcome.splits)

lemma try_claim_False: "try_claim n i t origin s = (False, s') \<longleftrightarrow> claim_of s t \<noteq> None \<and> s' = s"
  by (auto simp: try_claim_def)

lemma try_claim_True:
  "try_claim n i t origin s = (True, s') \<longleftrightarrow> claim_of s t = None \<and>
     s' = s\<lparr>claims := AList.update t
              \<lparr>tcl_task_id = t, tcl_origin = origin, tcl_claimed_at = n, tcl_run_id = i\<rparr> (claims s)\<rparr>"
  by (auto simp: try_claim_def)

text \<open>The maps as far as one operation on task \<open>t\<close> may change them.\<close>

definition touches_only :: "uuid \<Rightarrow> coordinator \<Rightarrow> coordinator \<Rightarrow> bool" where
  "touches_only t s s' \<longleftrightarrow>
     (\<forall>u. u \<noteq> t \<longrightarrow> claim_of s' u = claim_of s u \<and> run_of s' u = run_of s u)
     \<and> (coord_wf s \<longrightarrow> coord_wf s') \<and> active_count s' \<le> Suc (active_count s)
     \<and> wf_store s' = wf_store s \<and> retry_queue s' = retry_queue s"

lemma touches_only_refl: "touches_only t s s"
  by (simp add: touches_only_def)

lemma touches_only_claimed:
  assumes c: "claim_of s t = None"
    and s1: "claims s1 = AList.update t c (claims s)" "running s1 = running s"
      "wf_store s1 = wf_store s" "retry_queue s1 = retry_queue s"
    and d: "dispatch_claimed env t attempt s1 = (r, s2)"
    and s3: "claims s3 = claims s2 \<or> claims s3 = AList.delete t (claims s2)" "running s3 = running s2"
      "wf_store s3 = wf_store s2" "retry_queue s3 = retry_queue s2"
  shows "touches_only t s s3"
proof -
  have r3: "running s3 = running s \<or> running s3 = AList.delete t (running s)
     \<or> (\<exists>v. running s3 = AList.update t v (running s))"
    using dispatch_claimed_running(1)[OF d] s1(2) s3(2) by metis
  have c3: "claims s3 = AList.update t c (claims s) \<or> claims s3 = AList.delete t (claims s)"
    using dispatch_claimed_running(2)[OF d] s1(1) s3(1) by (auto simp: delete_update_same)
  have "\<forall>u. u \<noteq> t \<longrightarrow> claim_of s3 u = claim_of s u" using c3 by auto
  moreover have "\<forall>u. u \<noteq> t \<longrightarrow> run_of s3 u = run_of s u" using r3 by auto
  moreover have "coord_wf s \<longrightarrow> coord_wf s3"
    using r3 c3 by (auto simp: coord_wf_def distinct_update distinct_delete)
  moreover have "active_count s3 \<le> Suc (active_count s)"
    using r3 by (auto simp: active_count_def filter_update_le intro: le_SucI[OF filter_delete_le])
  moreover have "wf_store s3 = wf_store s" "retry_queue s3 = retry_queue s"
    using dispatch_claimed_running(3,4)[OF d] s1 s3 by simp_all
  ultimately show ?thesis by (simp add: touches_only_def)
qed

lemma dispatch_one_invalid: "parse_uuid env x = None \<Longrightarrow> dispatch_one env i x s = s"
  by (simp add: dispatch_one_def)

lemma dispatch_one_claimed:
  "parse_uuid env x = Some t \<Longrightarrow> claim_of s t \<noteq> None \<Longrightarrow> dispatch_one env i x s = s"
  by (simp add: dispatch_one_def try_claim_def)

lemma dispatch_one_touches:
  assumes "parse_uuid env x = Some t"
  shows "touches_only t s (dispatch_one env i x s)"
proof (cases "claim_of s t")
  case c: None
  obtain s1 where tc: "try_claim (now env) i t AutoDispatch s = (True, s1)"
    using c by (simp add: try_claim_def)
  then have s1: "claims s1 = AList.update t
      \<lparr>tcl_task_id = t, tcl_origin = AutoDispatch, tcl_claimed_at = now env, tcl_run_id = i\<rparr> (claims s)"
    "running s1 = running s" "wf_store s1 = wf_store s" "retry_queue s1 = retry_queue s"
    by (simp_all add: try_claim_True)
  obtain r s2 where d: "dispatch_claimed env t 1 s1 = (r, s2)" by force
  have eq: "dispatch_one env i x s = (case r of Inl _ \<Rightarrow> release_claim t s2
      | Inr _ \<Rightarrow> s2\<lparr>total_dispatched := total_dispatched s2 + 1\<rparr>)"
    by (simp add: dispatch_one_def assms tc d)
  show ?thesis
    by (rule touches_only_claimed[OF c s1 d]) (simp_all add: eq release_claim_def split: sum.split)
next
  case (Some c)
  then show ?thesis using dispatch_one_claimed[OF assms, of s i] by (simp add: touches_only_refl)
qed

lemma retry_outcome_frame [simp]:
  "claims (retry_outcome env i o' s) = claims s" "running (retry_outcome env i o' s) = running s"
  "wf_store (retry_outcome env i o' s) = wf_store s"
  "retry_queue (retry_outcome env i o' s) = retry_queue s"
  by (simp_all add: retry_outcome_def split: option.splits)

lemma process_retry_touches: "touches_only (re_task_id e) s (process_retry env i e s)"
proof (cases "claim_of s (re_task_id e)")
  case c: None
  let ?t = "re_task_id e"
  obtain s1 where tc: "try_claim (now env) i ?t AutoDispatch s = (True, s1)"
    using c by (simp add: try_claim_def)
  then have s1: "claims s1 = AList.update ?t
      \<lparr>tcl_task_id = ?t, tcl_origin = AutoDispatch, tcl_claimed_at = now env, tcl_run_id = i\<rparr> (claims s)"
    "running s1 = running s" "wf_store s1 = wf_store s" "retry_queue s1 = retry_queue s"
    by (simp_all add: try_claim_True)
  obtain r s2 where d: "dispatch_claimed env ?t (re_attempt e) s1 = (r, s2)" by force
  have eq: "process_retry env i e s = (case r of
        Inr _ \<Rightarrow> retry_outcome env (re_db_retry_id e) ''dispatched'' (s2\<lparr>total_retried := total_retried s2 + 1\<rparr>)
      | Inl _ \<Rightarrow> retry_outcome env (re_db_retry_id e) ''failed''
          (let s3 = release_claim ?t s2 in s3\<lparr>total_failed := total_failed s3 + 1\<rparr>))"
    by (cases r) (simp_all add: process_retry_def tc d Let_def)
  show ?thesis
    by (rule touches_only_claimed[OF c s1 d])
       (simp_all add: eq release_claim_def Let_def split: sum.split)
next
  case (Some c)
  then show ?thesis by (simp add: process_retry_def try_claim_def touches_only_refl)
qed

text \<open>A task that is claimed keeps its claim and its run through every dispatch and retry.\<close>

lemma claimed_kept_one:
  assumes "claim_of s u = Some c"
  shows "claim_of (dispatch_one env i x s) u = Some c \<and> run_of (dispatch_one env i x s) u = run_of s u"
proof (cases "parse_uuid env x")
  case None
  then show ?thesis using assms by (simp add: dispatch_one_invalid)
next
  case (Some t)
  show ?thesis
  proof (cases "t = u")
    case True
    then show ?thesis using assms Some dispatch_one_claimed[of env x u s i] by simp
  next
    case False
    then show ?thesis
      using dispatch_one_touches[OF Some, of s i] assms by (auto simp: touches_only_def)
  qed
qed

lemma claimed_kept_retry:
  assumes "claim_of s u = Some c"
  shows "claim_of (process_retry env i e s) u = Some c \<and> run_of (process_retry env i e s) u = run_of s u"
proof (cases "re_task_id e = u")
  case True
  then show ?thesis using assms by (simp add: process_retry_def try_claim_def)
next
  case False
  then show ?thesis using process_retry_touches[of e s env i] assms by (auto simp: touches_only_def)
qed

lemma claimed_kept_loop:
  "claim_of s u = Some c \<Longrightarrow>
     claim_of (dispatch_loop env k ts s) u = Some c \<and> run_of (dispatch_loop env k ts s) u = run_of s u"
proof (induction env k ts s rule: dispatch_loop.induct)
  case (2 env k t ts s)
  with claimed_kept_one[OF 2(2), of env "fresh env k" t] show ?case by auto
qed simp

lemma claimed_kept_retries:
  "claim_of s u = Some c \<Longrightarrow>
     claim_of (process_retry_list env k es s) u = Some c
     \<and> run_of (process_retry_list env k es s) u = run_of s u"
proof (induction env k es s rule: process_retry_list.induct)
  case (2 env k e es s)
  with claimed_kept_retry[OF 2(2), of env "fresh env k" e] show ?case by auto
qed simp

text \<open>The number of active runs grows by at most one per dispatched task.\<close>

lemma dispatch_one_active:
  "active_count (dispatch_one env i x s) \<le> Suc (active_count s)"
  by (cases "parse_uuid env x")
     (use dispatch_one_touches[of env x _ s i] in \<open>auto simp: dispatch_one_invalid touches_only_def\<close>)

lemma dispatch_loop_active: "active_count (dispatch_loop env k ts s) \<le> active_count s + length ts"
proof (induction env k ts s rule: dispatch_loop.induct)
  case (2 env k t ts s)
  with dispatch_one_active[of env "fresh env k" t s] show ?case by simp
qed simp

lemma process_retry_list_active:
  "active_count (process_retry_list env k es s) \<le> active_count s + length es"
proof (induction env k es s rule: process_retry_list.induct)
  case (2 env k e es s)
  with process_retry_touches[of e s env "fresh env k"] show ?case by (auto simp: touches_only_def)
qed simp

lemma process_retries_active:
  "active_count (process_retries env s)
     \<le> active_count s + length (filter (\<lambda>e. re_retry_after e \<le> now env) (retry_queue s))"
  using process_retry_list_active[of env 0 "filter (\<lambda>e. re_retry_after e \<le> now env) (retry_queue s)"
      "s\<lparr>retry_queue := filter (\<lambda>e. \<not> re_retry_after e \<le> now env) (retry_queue s)\<rparr>"]
  by (simp add: process_retries_def active_count_def)

lemma drop_run_active: "active_count (drop_run t s) \<le> active_count s"
  by (simp add: active_count_def drop_run_def filter_delete_le)

lemma complete_run_frame [simp]:
  "running (complete_run env t s) = AList.delete t (running s)"
  "claims (complete_run env t s) = AList.delete t (claims s)"
  "current (complete_run env t s) = current s" "wf_store (complete_run env t s) = wf_store s"
  "retry_queue (complete_run env t s) = retry_queue s"
  by (simp_all add: complete_run_def release_claim_def drop_run_def Let_def)

lemma fold_complete_active: "active_count (fold (complete_run env) ts s) \<le> active_count s"
proof (induction ts arbitrary: s)
  case (Cons t ts)
  have "active_count (complete_run env t s) \<le> active_count s"
    by (simp add: active_count_def filter_delete_le)
  with Cons[of "complete_run env t s"] show ?case by simp
qed simp

lemma process_completions_active: "active_count (process_completions env s) \<le> active_count s"
  by (simp add: process_completions_def fold_complete_active)

lemma fold_complete_frame:
  "run_of (fold (complete_run env) ts s) u = (if u \<in> set ts then None else run_of s u)"
  "claim_of (fold (complete_run env) ts s) u = (if u \<in> set ts then None else claim_of s u)"
  "current (fold (complete_run env) ts s) = current s"
  "wf_store (fold (complete_run env) ts s) = wf_store s"
  "retry_queue (fold (complete_run env) ts s) = retry_queue s"
  by (induction ts arbitrary: s) auto

lemma mark_task_failed_frame [simp]:
  "running (mark_task_failed env t reason s) = running s"
  "claims (mark_task_failed env t reason s) = claims s"
  "wf_store (mark_task_failed env t reason s) = wf_store s"
  "retry_queue (mark_task_failed env t reason s) = retry_queue s"
  by (simp_all add: mark_task_failed_def Let_def split: option.split)

lemma release_stale_active: "active_count (release_stale env t s) \<le> active_count s"
  by (simp add: active_count_def release_stale_def release_claim_def drop_run_def Let_def filter_delete_le)

lemma apply_action_active: "active_count (apply_action env a s) \<le> active_count s"
  by (cases a) (simp_all add: active_count_def apply_action_def release_claim_def drop_run_def Let_def
      filter_delete_le)

lemma fold_active:
  assumes "\<And>x s. active_count (f x s) \<le> active_count s"
  shows "active_count (fold f xs s) \<le> active_count s"
proof (induction xs arbitrary: s)
  case (Cons x xs)
  with assms[of x s] order_trans show ?case by fastforce
qed simp

lemma reconcile_stale_active: "active_count (reconcile_stale env s) \<le> active_count s"
proof -
  have "active_count (fold (release_stale env) ts s) \<le> active_count s" for ts
    by (rule fold_active) (rule release_stale_active)
  moreover have "active_count (reconcile_running env u) \<le> active_count u" for u
    by (auto simp: reconcile_running_def Let_def intro: fold_active apply_action_active)
  ultimately show ?thesis unfolding reconcile_stale_def by (meson order_trans)
qed

lemma poll_frame [simp]:
  "running (poll_tracker_and_upsert env s) = running s" "claims (poll_tracker_and_upsert env s) = claims s"
  by (simp_all add: poll_tracker_and_upsert_def split: option.split sum.split)

lemma poll_active [simp]: "active_count (poll_tracker_and_upsert env s) = active_count s"
  by (simp add: active_count_def)

lemma tick_begin_frame [simp]:
  "running (tick_begin env s) = running s" "claims (tick_begin env s) = claims s"
  "retry_queue (tick_begin env s) = retry_queue s" "current (tick_begin env s) = current s"
  by (simp_all add: tick_begin_def)

section \<open>Properties\<close>

text \<open>
  C35. No double dispatch: while a task is claimed, no dispatch and no retry touches its
  claim or its tracked run, whatever else is dispatched, and another claim is refused.
\<close>

theorem claimed_task_is_never_redispatched:
  assumes "claim_of s t = Some c"
  shows "claim_of (dispatch_loop env k ids s) t = Some c \<and> run_of (dispatch_loop env k ids s) t = run_of s t
    \<and> claim_of (process_retries env s) t = Some c \<and> run_of (process_retries env s) t = run_of s t
    \<and> try_claim n i t origin s = (False, s)"
proof -
  have "claim_of (s\<lparr>retry_queue := q\<rparr>) t = Some c" for q using assms by simp
  from claimed_kept_retries[OF this] have
    "claim_of (process_retries env s) t = Some c \<and> run_of (process_retries env s) t = run_of s t"
    by (simp add: process_retries_def)
  then show ?thesis using claimed_kept_loop[OF assms] assms by (simp add: try_claim_def)
qed

text \<open>
  C37. The concurrency limit: a tick ends with at most as many active runs as the limit
  allows, except for runs that were active before it and the retries that were due, which
  are started whatever the limit.
\<close>

theorem tick_respects_limit:
  "active_count (snd (tick envs s))
     \<le> max (wc_max_concurrent (effective_config (wf_store (tick_begin (envs 0) s))))
           (active_count s + length (filter (\<lambda>e. re_retry_after e \<le> now (envs 2)) (retry_queue s)))"
proof -
  let ?due = "length (filter (\<lambda>e. re_retry_after e \<le> now (envs 2)) (retry_queue s))"
  let ?s1 = "tick_begin (envs 0) s"
  let ?m = "wc_max_concurrent (effective_config (wf_store ?s1))"
  define s3 where "s3 = process_retries (envs 2) (process_completions (envs 1) ?s1)"
  have s1: "active_count ?s1 = active_count s" by (simp add: active_count_def)
  have "active_count s3 \<le> active_count (process_completions (envs 1) ?s1) + ?due"
    using process_retries_active[of "envs 2" "process_completions (envs 1) ?s1"]
    by (simp add: s3_def process_completions_def fold_complete_frame)
  also have "active_count (process_completions (envs 1) ?s1) \<le> active_count s"
    using process_completions_active[of "envs 1" ?s1] s1 by simp
  finally have a3: "active_count s3 \<le> active_count s + ?due" by simp
  define s4 where "s4 = (\<lambda>ids. dispatch_loop (envs 3) 0 (take (?m - active_count s3) ids) s3)"
  have "active_count (s4 ids) \<le> ?m" if "active_count s3 < ?m" for ids
    using dispatch_loop_active[of "envs 3" 0 "take (?m - active_count s3) ids" s3] that
    by (simp add: s4_def)
  then have "active_count (reconcile_stale (envs 4) (s4 ids)) \<le> ?m" if "active_count s3 < ?m" for ids
    using reconcile_stale_active that order_trans by blast
  then show ?thesis
    using a3 s1 unfolding tick_def Let_def s3_def[symmetric] s4_def
    by (auto simp: le_max_iff_disj not_le)
qed

text \<open>A concrete project, environment and state for the witnesses.\<close>

definition sample_project :: project where
  "sample_project = \<lparr>pj_id = ''p'', pj_auto_dispatch = True, pj_db = two_ready, pj_sessions = [],
     pj_tracker = True, pj_events = []\<rparr>"

definition sample_item :: tracker_item where
  "sample_item = \<lparr>ti_kind = ''linear'', ti_external_id = ''x'', ti_identifier = ''PRJ-1'',
     ti_title = ''t'', ti_description = None, ti_url = ''u'', ti_state = Todo, ti_priority = None,
     ti_labels = [], ti_assignee = None, ti_updated_at = 0\<rparr>"

definition sample_env :: coord_env where
  "sample_env = \<lparr>now = 0, fresh = of_nat,
     show_uuid = (\<lambda>u. if u = 0 then ''n'' else if u = 1 then ''a'' else ''b''),
     parse_uuid = (\<lambda>s. if s = ''n'' then Some 0 else if s = ''a'' then Some 1
                      else if s = ''b'' then Some 2 else None),
     db_ok = (\<lambda>_. True), event_finished = (\<lambda>_. False), worktree_exists = (\<lambda>_. False),
     run_task = (\<lambda>t r a pj. (PrepareFailed ''no adapter'', pj)),
     cleanup_task_worktree = (\<lambda>_ pj. pj), poll_tracker = Ok [sample_item],
     workflow_file = \<lparr>fs_metadata = None, fs_content = Err NotFound\<rparr>,
     sha256 = (\<lambda>_. []), read_yaml = (\<lambda>e. Err e)\<rparr>"

definition sample_state :: coordinator where
  "sample_state = coord_new (Some sample_project) store_new"

theorem claimed_task_is_never_redispatched_witness:
  "run_of (dispatch_loop sample_env 0 [''a'']
     (snd (try_claim 0 5 1 Manual sample_state))) 1 = None"
  using claimed_task_is_never_redispatched[of "snd (try_claim 0 5 1 Manual sample_state)" 1
      "\<lparr>tcl_task_id = 1, tcl_origin = Manual, tcl_claimed_at = 0, tcl_run_id = 5\<rparr>" sample_env 0 "[''a'']"]
  by (simp add: try_claim_def sample_state_def coord_new_def)

text \<open>
  A dispatch whose preparation fails leaks: the claim is released, but the run stays
  tracked as preparing, where it counts as active and nothing looks for it any more (it has
  no event task to finish and no claim to expire).
\<close>

theorem failed_prepare_leaves_run:
  assumes "parse_uuid env x = Some t" and "claim_of s t = None"
    and "fst (run_task env t i 1 (current s)) \<in> {PrepareFailed e, RecordFailed e}"
  shows "claim_of (dispatch_one env i x s) t = None
    \<and> run_of (dispatch_one env i x s) t = Some (preparing_run i t)
    \<and> is_active (preparing_run i t)
    \<and> \<not> run_finished env2 s2 t (preparing_run i t)
    \<and> t \<notin> set (stale_ids env2 (dispatch_one env i x s))"
proof -
  let ?c = "\<lparr>tcl_task_id = t, tcl_origin = AutoDispatch, tcl_claimed_at = now env, tcl_run_id = i\<rparr>"
  let ?s1 = "s\<lparr>claims := AList.update t ?c (claims s)\<rparr>"
  obtain pj out where r: "run_task env t i 1 (current s) = (out, pj)"
    "out = PrepareFailed e \<or> out = RecordFailed e"
    using assms(3) by (cases "run_task env t i 1 (current s)") auto
  have "try_claim (now env) i t AutoDispatch s = (True, ?s1)"
    using assms(2) by (simp add: try_claim_True)
  moreover have "dispatch_claimed env t 1 ?s1 = (Err e, ?s1\<lparr>current := pj,
      running := AList.update t (preparing_run i t) (running s)\<rparr>)"
    using r by (auto simp: dispatch_claimed_def Let_def)
  ultimately have eq: "dispatch_one env i x s = release_claim t (?s1\<lparr>current := pj,
      running := AList.update t (preparing_run i t) (running s)\<rparr>)"
    using assms(1) by (simp add: dispatch_one_def)
  have "claim_of (dispatch_one env i x s) t = None" by (simp add: eq release_claim_def)
  moreover have "t \<notin> fst ` set (claims (dispatch_one env i x s))"
    by (simp add: eq release_claim_def delete_notin_dom)
  then have "t \<notin> set (stale_ids env2 (dispatch_one env i x s))"
    by (force simp: stale_ids_def)
  ultimately show ?thesis
    by (simp add: eq release_claim_def preparing_run_def is_active_def run_finished_def)
qed

theorem failed_prepare_leaves_run_witness:
  "run_of (dispatch_one sample_env 9 ''a'' sample_state) 1 = Some (preparing_run 9 1)"
  using failed_prepare_leaves_run[of sample_env "''a''" 1 sample_state 9 "''no adapter''"]
  by (simp add: sample_env_def sample_state_def coord_new_def)

text \<open>Runs that leaked: preparing, without an event task.\<close>

definition leaked :: "coordinator \<Rightarrow> bool" where
  "leaked s \<longleftrightarrow> (\<forall>(t, r) \<in> set (running s). tr_state r = Preparing \<and> \<not> tr_event_task r
     \<and> tr_origin r = AutoDispatch)"

definition run_ticks :: "(nat \<Rightarrow> coord_env) list \<Rightarrow> coordinator \<Rightarrow> coordinator" where
  "run_ticks ticks s = fold (\<lambda>envs u. snd (tick envs u)) ticks s"

text \<open>What a stuck coordinator keeps from tick to tick.\<close>

definition same_but_clock :: "coordinator \<Rightarrow> coordinator \<Rightarrow> bool" where
  "same_but_clock s s' \<longleftrightarrow> claims s' = claims s \<and> running s' = running s \<and> current s' = current s
     \<and> retry_queue s' = retry_queue s \<and> wf_store s' = wf_store s
     \<and> total_dispatched s' = total_dispatched s"

lemma leaked_active: "leaked s \<Longrightarrow> active_count s = length (running s)"
  unfolding active_count_def leaked_def by (subst filter_True) (auto simp: is_active_def)

lemma leaked_tick:
  assumes l: "leaked s" "retry_queue s = []"
    and m: "wc_max_concurrent (effective_config (wf_store s)) \<le> length (running s)"
    and f: "fs_metadata (workflow_file (envs 0)) = None"
  shows "same_but_clock s (snd (tick envs s))"
proof -
  let ?s1 = "tick_begin (envs 0) s"
  have store: "wf_store ?s1 = wf_store s"
    using f by (simp add: tick_begin_def store_check_reload_def)
  have "filter (\<lambda>(t, r). run_finished (envs 1) ?s1 t r) (running s) = []"
    using l(1) by (auto simp: filter_empty_conv leaked_def run_finished_def)
  then have c: "process_completions (envs 1) ?s1 = ?s1"
    by (simp add: process_completions_def)
  have r: "process_retries (envs 2) ?s1 = ?s1"
    using l(2) by (simp add: process_retries_def tick_begin_def)
  have "active_count ?s1 = length (running s)"
    using leaked_active[of ?s1] l(1) by (simp add: leaked_def)
  then have "snd (tick envs s) = ?s1"
    using m c r store by (simp add: tick_def Let_def)
  then show ?thesis
    using store l(2) by (simp add: same_but_clock_def tick_begin_def)
qed



lemma get_task_update:
  assumes "get_task i db = Some row" "tk_id new = i"
  shows "get_task i (update_task new db) = Some (overwrite_row new row)"
proof -
  have "find (\<lambda>r. tk_id r = i) xs = Some row \<Longrightarrow>
      find (\<lambda>r. tk_id r = i) (map (\<lambda>r. if tk_id r = i then overwrite_row new r else r) xs)
        = Some (overwrite_row new row)" for xs
    by (induction xs) (auto split: if_splits)
  then show ?thesis using assms by (simp add: get_task_def update_task_def)
qed

lemma mark_task_failed_status:
  assumes "current s = Some pj" "db_get env pj t = Some row" "db_ok env ''update_task''"
  shows "\<exists>pj'. current (mark_task_failed env t reason s) = Some pj'
    \<and> map_option tk_status (get_task (show_uuid env t) (pj_db pj')) = Some ''Failed''"
proof -
  have g: "get_task (show_uuid env t) (pj_db pj) = Some row"
    using assms(2) by (simp add: db_get_def split: if_splits)
  then have "tk_id row = show_uuid env t" by (auto simp: get_task_def find_Some_iff)
  then have "get_task (show_uuid env t) (update_task (row\<lparr>tk_status := ''Failed'', tk_updated_at := now env\<rparr>)
      (pj_db pj)) = Some (overwrite_row (row\<lparr>tk_status := ''Failed'', tk_updated_at := now env\<rparr>) row)"
    by (intro get_task_update[OF g]) simp
  then show ?thesis
    using assms by (simp add: mark_task_failed_def Let_def append_event_def on_db_def)
qed

text \<open>
  A task that runs without a worktree (execution mode \<open>main\<close>) is failed by the
  reconciliation of the very tick that started it: while its session is alive and its
  event task still runs, its status becomes \<open>Failed\<close>, whatever it was, and its run and claim
  are dropped.
\<close>

theorem main_mode_run_is_failed:
  assumes "current s = Some pj" and "running s = [(t, r)]" and "tr_task_id r = t"
    and "tr_state r = RunRunning session started"
    and "db_get env pj t = Some row" and "db_ok env ''update_task''"
    and "find_worktree_by_task (show_uuid env t) (pj_db pj) = None"
  shows "run_of (reconcile_running env s) t = None \<and> claim_of (reconcile_running env s) t = None
    \<and> (\<exists>pj'. current (reconcile_running env s) = Some pj'
         \<and> map_option tk_status (get_task (show_uuid env t) (pj_db pj')) = Some ''Failed'')"
proof -
  obtain rc where rc: "reconciliation_claim_of env pj r = Some rc" "rc_task_id rc = t"
    "rc_worktree_path rc = None"
    using assms by (auto simp: reconciliation_claim_of_def)
  then have "build_reconciliation_claims env s = [rc]"
    using assms by (simp add: build_reconciliation_claims_def map_filter_simps)
  moreover obtain reason where
    "reconcile_claim (worktree_exists env) (get_active_session_ids env s) rc = MarkFailed t reason"
    using reconcile_no_worktree[of rc] rc by auto
  ultimately have eq: "reconcile_running env s = apply_action env (MarkFailed t reason) s"
    by (simp add: reconcile_running_def reconcile_claims_def)
  show ?thesis
    using mark_task_failed_status[OF assms(1,5,6), of reason]
    by (auto simp: eq apply_action_def release_claim_def drop_run_def Let_def)
qed

definition running_main :: coordinator where
  "running_main = sample_state\<lparr>running := [(1, (preparing_run 9 1)
     \<lparr>tr_state := RunRunning 7 0, tr_event_task := True, tr_handle := True\<rparr>)]\<rparr>"

theorem main_mode_run_is_failed_witness:
  "7 \<in> set (get_active_session_ids sample_env running_main)
   \<and> run_of (reconcile_running sample_env running_main) 1 = None"
proof -
  have "7 \<in> set (get_active_session_ids sample_env running_main)"
    by (simp add: get_active_session_ids_def running_main_def sample_env_def preparing_run_def
        map_filter_simps)
  moreover have "db_get sample_env sample_project 1 = Some (sample_row ''a'' 2 ''Ready'')"
    by (simp add: db_get_def sample_env_def sample_project_def two_ready_def empty_db_def get_task_def
        sample_row_def)
  note main_mode_run_is_failed[of running_main sample_project 1 _ 7 0 sample_env, OF _ _ _ _ this]
  ultimately show ?thesis
    by (simp add: running_main_def sample_state_def coord_new_def preparing_run_def sample_env_def
        find_worktree_by_task_def sample_project_def two_ready_def empty_db_def)
qed

text \<open>
  Importing from the tracker is not idempotent: the row that should remember the item
  is written without labels, which the table rejects, and the error is dropped. So an item
  that has no source row makes a new task at every poll, and never gets a source row.
\<close>

theorem tracker_poll_duplicates_tasks:
  assumes "get_task_external_source (pj_id pj) (ti_kind item) (ti_external_id item) (pj_db pj) = None"
    and "pj_id pj \<in> set (db_projects (pj_db pj))"
    and "show_uuid env (fresh env (2 * k)) \<notin> task_ids (pj_db pj)"
    and "show_uuid env2 (fresh env2 (2 * k2)) \<notin> task_ids (pj_db (upsert_item env k item pj))"
    and "db_ok env ''create_task''" and "db_ok env2 ''create_task''"
  shows "db_tasks (pj_db (upsert_item env2 k2 item (upsert_item env k item pj))) = db_tasks (pj_db pj) @
      [tracker_task_row env (pj_id pj) (show_uuid env (fresh env (2 * k))) item,
       tracker_task_row env2 (pj_id pj) (show_uuid env2 (fresh env2 (2 * k2))) item]
    \<and> db_sources (pj_db (upsert_item env2 k2 item (upsert_item env k item pj))) = db_sources (pj_db pj)"
proof -
  have step: "pj_db (upsert_item e n item q) = (pj_db q)\<lparr>db_tasks := db_tasks (pj_db q) @
        [tracker_task_row e (pj_id q) (show_uuid e (fresh e (2 * n))) item]\<rparr>
      \<and> pj_id (upsert_item e n item q) = pj_id q"
    if "get_task_external_source (pj_id q) (ti_kind item) (ti_external_id item) (pj_db q) = None"
      "pj_id q \<in> set (db_projects (pj_db q))" "show_uuid e (fresh e (2 * n)) \<notin> task_ids (pj_db q)"
      "db_ok e ''create_task''" for e n q
    using that
    by (simp add: upsert_item_def create_task_def tracker_task_row_def Let_def on_db_def
        upsert_task_external_source_def tracker_source_row_def)
  note one = step[OF assms(1,2,3,5)]
  have "get_task_external_source (pj_id pj) (ti_kind item) (ti_external_id item)
      (pj_db (upsert_item env k item pj)) = None"
    using assms(1) one by (simp add: get_task_external_source_def)
  then show ?thesis
    using one assms step[of "upsert_item env k item pj" env2 k2] by simp
qed

theorem tracker_poll_duplicates_tasks_witness:
  "length (db_tasks (pj_db (upsert_item (sample_env\<lparr>fresh := \<lambda>_. 3, show_uuid := \<lambda>_. ''m''\<rparr>) 0 sample_item
     (upsert_item sample_env 0 sample_item sample_project)))) = 4"
  using tracker_poll_duplicates_tasks[of sample_project sample_item sample_env 0
      "sample_env\<lparr>fresh := \<lambda>_. 3, show_uuid := \<lambda>_. ''m''\<rparr>" 0]
  by (simp add: sample_project_def two_ready_def empty_db_def get_task_external_source_def
      sample_env_def task_ids_def sample_row_def upsert_item_def create_task_def tracker_task_row_def
      Let_def on_db_def upsert_task_external_source_def tracker_source_row_def)

text \<open>
  The tracker is polled only by a tick that dispatches something: when no task is
  dispatchable, the tick ends before the reconciliation and the poll. A project without
  tasks never imports one, whatever the tracker offers.
\<close>

theorem empty_project_never_imports:
  assumes "current s = Some pj" and "db_tasks (pj_db pj) = []" and "running s = []"
    and "retry_queue s = []"
  shows "current (snd (tick envs s)) = Some pj \<and> running (snd (tick envs s)) = []
    \<and> retry_queue (snd (tick envs s)) = [] \<and> claims (snd (tick envs s)) = claims s"
proof -
  let ?s1 = "tick_begin (envs 0) s"
  have "process_completions (envs 1) ?s1 = ?s1"
    using assms(3) by (simp add: process_completions_def)
  moreover have "process_retries (envs 2) ?s1 = ?s1"
    using assms(4) by (simp add: process_retries_def tick_begin_def)
  moreover have "discover_dispatchable (envs 3) sts ?s1 = []" for sts
    using assms by (simp add: discover_dispatchable_def list_tasks_def Let_def)
  ultimately have "snd (tick envs s) = ?s1"
    by (simp add: tick_def Let_def)
  then show ?thesis using assms by simp
qed

theorem empty_project_never_imports_witness:
  "current (snd (tick (\<lambda>_. sample_env) (sample_state\<lparr>current := Some (sample_project\<lparr>pj_db := empty_db\<rparr>)\<rparr>)))
     = Some (sample_project\<lparr>pj_db := empty_db\<rparr>)"
  using empty_project_never_imports[of
      "sample_state\<lparr>current := Some (sample_project\<lparr>pj_db := empty_db\<rparr>)\<rparr>"]
  by (simp add: sample_state_def coord_new_def empty_db_def)

text \<open>
  Completions: exactly the finished runs lose their run and their claim, every other
  task keeps both, the project is untouched, and each finished run is counted once, as
  completed or as failed.
\<close>

theorem completions_exact:
  "let finished = map fst (filter (\<lambda>(t, r). run_finished env s t r) (running s));
       s' = process_completions env s
   in run_of s' t = (if t \<in> set finished then None else run_of s t)
      \<and> claim_of s' t = (if t \<in> set finished then None else claim_of s t)
      \<and> current s' = current s
      \<and> total_completed s' + total_failed s'
          = total_completed s + total_failed s + of_nat (length finished)"
proof -
  have count: "total_completed (fold (complete_run env) ts u) + total_failed (fold (complete_run env) ts u)
      = total_completed u + total_failed u + of_nat (length ts)" for ts u
  proof (induction ts arbitrary: u)
    case (Cons x xs)
    have "total_completed (complete_run env x u) + total_failed (complete_run env x u)
        = total_completed u + total_failed u + 1"
      by (simp add: complete_run_def release_claim_def drop_run_def Let_def)
    with Cons[of "complete_run env x u"] show ?case by simp
  qed simp
  show ?thesis
    unfolding process_completions_def Let_def fold_complete_frame count by simp
qed

end
