(* ===== verification/Redaction.thy ===== *)
theory Redaction
  imports Prelude "HOL-Library.List_Lexorder" "HOL-Library.Char_ord" "HOL-Library.Product_Lexorder"
begin

text \<open>
  Redaction of secrets (\<open>crates/pnevma-redaction/src/lib.rs\<close>): the built-in and configured
  patterns, the replacement of known secrets, redaction of JSON values and the streaming buffer.

  The regular expressions are run by the \<open>regex\<close> crate, which is a parameter: a record
  \<open>regex_engine\<close> that compiles a pattern to a record \<open>regex\<close> with the methods the code calls.
  The patterns themselves are the source's. Strings are their UTF-8 bytes, as everywhere in the
  development; the process-wide configuration lock is an argument.
\<close>

section \<open>Patterns and configuration\<close>

record regex =
  re_as_str :: string
  re_is_match :: "string \<Rightarrow> bool"
  re_replace_all :: "string \<Rightarrow> string \<Rightarrow> string"
  re_find :: "string \<Rightarrow> nat option"

record regex_engine =
  regex_new :: "string \<Rightarrow> regex"
  regex_build :: "nat \<Rightarrow> string \<Rightarrow> string + regex"

definition REDACTED :: string where
  "REDACTED = ''[REDACTED]''"

definition STREAM_REDACTION_TAIL_BYTES :: nat where
  "STREAM_REDACTION_TAIL_BYTES = 8192"

definition MAX_BUFFER_BYTES :: nat where
  "MAX_BUFFER_BYTES = 64 * 1024"

definition MAX_REGEX_SIZE_BYTES :: nat where
  "MAX_REGEX_SIZE_BYTES = 2 ^ 16"

definition PEM_PRIVATE_KEY_LABELS :: "string list" where
  "PEM_PRIVATE_KEY_LABELS = [''RSA PRIVATE KEY'', ''EC PRIVATE KEY'', ''DSA PRIVATE KEY'',
     ''OPENSSH PRIVATE KEY'', ''ENCRYPTED PRIVATE KEY'', ''PRIVATE KEY'']"

definition PEM_BEGIN_PREFIX :: string where
  "PEM_BEGIN_PREFIX = ''-----BEGIN ''"

definition PEM_END_PREFIX :: string where
  "PEM_END_PREFIX = ''-----END ''"

definition PEM_MARKER_SUFFIX :: string where
  "PEM_MARKER_SUFFIX = ''-----''"

definition PEM_KIND_REGEX_FRAGMENT :: string where
  "PEM_KIND_REGEX_FRAGMENT = ''(?:RSA |EC |DSA |OPENSSH |ENCRYPTED )?''"

definition PEM_REGEX_SUFFIX :: string where
  "PEM_REGEX_SUFFIX = ''PRIVATE KEY-----''"

record redaction_config =
  rcf_extra_patterns :: "string list"
  rcf_enable_entropy_guard :: bool

record runtime_redaction_config =
  rt_extra_patterns :: "regex list"
  rt_enable_entropy_guard :: bool

definition runtime_default :: runtime_redaction_config where
  "runtime_default = \<lparr>rt_extra_patterns = [], rt_enable_entropy_guard = False\<rparr>"

fun compile_extra_patterns :: "regex_engine \<Rightarrow> string list \<Rightarrow> string + regex list" where
  "compile_extra_patterns engine [] = Ok []"
| "compile_extra_patterns engine (p # ps) =
     (case regex_build engine MAX_REGEX_SIZE_BYTES p of
        Err e \<Rightarrow> Err e
      | Ok re \<Rightarrow> (case compile_extra_patterns engine ps of Err e \<Rightarrow> Err e | Ok res \<Rightarrow> Ok (re # res)))"

definition validate_runtime_redaction_config :: "regex_engine \<Rightarrow> redaction_config \<Rightarrow> string + unit" where
  "validate_runtime_redaction_config engine config =
     (case compile_extra_patterns engine (rcf_extra_patterns config) of Err e \<Rightarrow> Err e | Ok _ \<Rightarrow> Ok ())"

definition set_runtime_redaction_config ::
  "regex_engine \<Rightarrow> redaction_config \<Rightarrow> runtime_redaction_config \<Rightarrow> (string + unit) \<times> runtime_redaction_config"
where
  "set_runtime_redaction_config engine config current =
     (case compile_extra_patterns engine (rcf_extra_patterns config) of
        Err e \<Rightarrow> (Err e, current)
      | Ok compiled \<Rightarrow> (Ok (), \<lparr>rt_extra_patterns = compiled,
                             rt_enable_entropy_guard = rcf_enable_entropy_guard config\<rparr>))"

definition reset_runtime_redaction_config :: "runtime_redaction_config \<Rightarrow> runtime_redaction_config" where
  "reset_runtime_redaction_config current = runtime_default"

definition current_runtime_redaction_settings :: "runtime_redaction_config \<Rightarrow> redaction_config" where
  "current_runtime_redaction_settings current =
     \<lparr>rcf_extra_patterns = map re_as_str (rt_extra_patterns current),
      rcf_enable_entropy_guard = rt_enable_entropy_guard current\<rparr>"

text \<open>The patterns, with \<open>~\<close> written for the backslash (no pattern contains a tilde).\<close>

definition pat :: "string \<Rightarrow> string" where
  "pat s = map (\<lambda>c. if c = CHR ''~'' then CHR 0x5C else c) s"

definition redaction_authorization_regex :: "regex_engine \<Rightarrow> regex" where
  \<open>redaction_authorization_regex engine = regex_new engine (pat
    ''(?i)(authorization~s*:~s*bearer~s+)[^~s]+'')\<close>

definition redaction_key_value_regex :: "regex_engine \<Rightarrow> regex" where
  \<open>redaction_key_value_regex engine = regex_new engine (pat
    ''(?i)~b(api[_-]?key|token|secret|password)~b~s*[:=]~s*("[^"]*"|'[^']*'|[^~s,;]+)'')\<close>

definition redaction_env_assignment_regex :: "regex_engine \<Rightarrow> regex" where
  \<open>redaction_env_assignment_regex engine = regex_new engine (pat
    ''~b([A-Z][A-Z0-9_]*(?:TOKEN|PASSWORD|SECRET|API_KEY|PRIVATE_KEY|ACCESS_KEY|CLIENT_SECRET))~b~s*[:=]~s*("[^"]*"|'[^']*'|[^~s,;]+)'')\<close>

definition redaction_aws_key_regex :: "regex_engine \<Rightarrow> regex" where
  \<open>redaction_aws_key_regex engine = regex_new engine (pat
    ''AKIA[0-9A-Z]{16}'')\<close>

definition redaction_github_token_regex :: "regex_engine \<Rightarrow> regex" where
  \<open>redaction_github_token_regex engine = regex_new engine (pat
    ''(?:ghp_|gho_|ghu_|ghs_|ghr_|github_pat_)[A-Za-z0-9_]{36,255}'')\<close>

definition redaction_provider_token_regex :: "regex_engine \<Rightarrow> regex" where
  \<open>redaction_provider_token_regex engine = regex_new engine (pat
    ''~b(?:sk[-_](?:live|test|proj|ant)[_-][A-Za-z0-9_-]{16,}|sk-[A-Za-z0-9][A-Za-z0-9_-]{19,}|rk_(?:live|test)_[A-Za-z0-9]{24,}|SK[0-9a-f]{32})~b'')\<close>

definition redaction_slack_token_regex :: "regex_engine \<Rightarrow> regex" where
  \<open>redaction_slack_token_regex engine = regex_new engine (pat
    ''xox[bpras]-[A-Za-z0-9~-]{10,}'')\<close>

definition redaction_gitlab_pat_regex :: "regex_engine \<Rightarrow> regex" where
  \<open>redaction_gitlab_pat_regex engine = regex_new engine (pat
    ''glpat-[A-Za-z0-9~-_]{20,}'')\<close>

definition redaction_npm_token_regex :: "regex_engine \<Rightarrow> regex" where
  \<open>redaction_npm_token_regex engine = regex_new engine (pat
    ''npm_[A-Za-z0-9]{36,}'')\<close>

definition redaction_pypi_token_regex :: "regex_engine \<Rightarrow> regex" where
  \<open>redaction_pypi_token_regex engine = regex_new engine (pat
    ''pypi-[A-Za-z0-9]{20,}'')\<close>

definition redaction_docker_pat_regex :: "regex_engine \<Rightarrow> regex" where
  \<open>redaction_docker_pat_regex engine = regex_new engine (pat
    ''dckr_pat_[A-Za-z0-9~-_]{20,}'')\<close>

definition redaction_vault_token_regex :: "regex_engine \<Rightarrow> regex" where
  \<open>redaction_vault_token_regex engine = regex_new engine (pat
    ''hvs~.[A-Za-z0-9]{24,}'')\<close>

definition redaction_vercel_token_regex :: "regex_engine \<Rightarrow> regex" where
  \<open>redaction_vercel_token_regex engine = regex_new engine (pat
    ''vercel_[A-Za-z0-9]{24,}'')\<close>

definition redaction_connection_string_regex :: "regex_engine \<Rightarrow> regex" where
  \<open>redaction_connection_string_regex engine = regex_new engine (pat
    ''://[^:@~s]*:([^@~s]+)@'')\<close>

definition redaction_connection_string_query_param_regex :: "regex_engine \<Rightarrow> regex" where
  \<open>redaction_connection_string_query_param_regex engine = regex_new engine (pat
    ''(?i)([?&])(password|passwd|pwd|secret|token)=([^&~s]+)'')\<close>

definition redaction_entropy_assignment_regex :: "regex_engine \<Rightarrow> regex" where
  \<open>redaction_entropy_assignment_regex engine = regex_new engine (pat
    ''(?i)~b([A-Z0-9_.-]*(?:key|token|secret|password)[A-Z0-9_.-]*)~b~s*[:=]~s*("[A-Za-z0-9+/=_-]{32,}"|'[A-Za-z0-9+/=_-]{32,}'|[A-Za-z0-9+/=_-]{32,})'')\<close>

definition redaction_partial_authorization_regex :: "regex_engine \<Rightarrow> regex" where
  \<open>redaction_partial_authorization_regex engine = regex_new engine (pat
    ''(?i)authorization~s*:~s*(?:(?:b|be|bea|bear|beare|bearer)(?:~s+[^~s]*)?)?$'')\<close>

definition redaction_partial_key_value_regex :: "regex_engine \<Rightarrow> regex" where
  \<open>redaction_partial_key_value_regex engine = regex_new engine (pat
    ''(?i)~b(api[_-]?key|token|secret|password)~b~s*[:=]~s*("[^"]*|'[^']*|[^~s,;]*)$'')\<close>

definition redaction_partial_env_assignment_regex :: "regex_engine \<Rightarrow> regex" where
  \<open>redaction_partial_env_assignment_regex engine = regex_new engine (pat
    ''~b[A-Z][A-Z0-9_]*(?:TOKEN|PASSWORD|SECRET|API_KEY|PRIVATE_KEY|ACCESS_KEY|CLIENT_SECRET)~b~s*[:=]~s*("[^"]*|'[^']*|[^~s,;]*)$'')\<close>

definition redaction_partial_aws_key_regex :: "regex_engine \<Rightarrow> regex" where
  \<open>redaction_partial_aws_key_regex engine = regex_new engine (pat
    ''AKIA[0-9A-Z]{0,15}$'')\<close>

definition redaction_partial_github_token_regex :: "regex_engine \<Rightarrow> regex" where
  \<open>redaction_partial_github_token_regex engine = regex_new engine (pat
    ''(?:ghp_|gho_|ghu_|ghs_|ghr_|github_pat_)[A-Za-z0-9_]{0,255}$'')\<close>

definition redaction_partial_provider_token_regex :: "regex_engine \<Rightarrow> regex" where
  \<open>redaction_partial_provider_token_regex engine = regex_new engine (pat
    ''~b(?:sk[-_][A-Za-z0-9_-]*|rk_(?:live|test)_[A-Za-z0-9]*|SK[0-9a-f]*)$'')\<close>

definition redaction_partial_slack_token_regex :: "regex_engine \<Rightarrow> regex" where
  \<open>redaction_partial_slack_token_regex engine = regex_new engine (pat
    ''xox[bpras]-[A-Za-z0-9~-]*$'')\<close>

definition redaction_partial_gitlab_pat_regex :: "regex_engine \<Rightarrow> regex" where
  \<open>redaction_partial_gitlab_pat_regex engine = regex_new engine (pat
    ''glpat-[A-Za-z0-9~-_]*$'')\<close>

definition redaction_partial_npm_token_regex :: "regex_engine \<Rightarrow> regex" where
  \<open>redaction_partial_npm_token_regex engine = regex_new engine (pat
    ''npm_[A-Za-z0-9]*$'')\<close>

definition redaction_partial_pypi_token_regex :: "regex_engine \<Rightarrow> regex" where
  \<open>redaction_partial_pypi_token_regex engine = regex_new engine (pat
    ''pypi-[A-Za-z0-9]*$'')\<close>

definition redaction_partial_docker_pat_regex :: "regex_engine \<Rightarrow> regex" where
  \<open>redaction_partial_docker_pat_regex engine = regex_new engine (pat
    ''dckr_pat_[A-Za-z0-9~-_]*$'')\<close>

definition redaction_partial_vault_token_regex :: "regex_engine \<Rightarrow> regex" where
  \<open>redaction_partial_vault_token_regex engine = regex_new engine (pat
    ''hvs~.[A-Za-z0-9]*$'')\<close>

definition redaction_partial_vercel_token_regex :: "regex_engine \<Rightarrow> regex" where
  \<open>redaction_partial_vercel_token_regex engine = regex_new engine (pat
    ''vercel_[A-Za-z0-9]*$'')\<close>

definition redaction_partial_connection_string_regex :: "regex_engine \<Rightarrow> regex" where
  \<open>redaction_partial_connection_string_regex engine = regex_new engine (pat
    ''[A-Za-z][A-Za-z0-9+.-]*://[^:@~s]*:[^@~s]*$'')\<close>

definition redaction_partial_connection_string_query_param_regex :: "regex_engine \<Rightarrow> regex" where
  \<open>redaction_partial_connection_string_query_param_regex engine = regex_new engine (pat
    ''(?i)[?&](?:password|passwd|pwd|secret|token)=[^&~s]*$'')\<close>

definition redaction_partial_entropy_assignment_regex :: "regex_engine \<Rightarrow> regex" where
  \<open>redaction_partial_entropy_assignment_regex engine = regex_new engine (pat
    ''(?i)~b[A-Z0-9_.-]*(?:key|token|secret|password)[A-Z0-9_.-]*~b~s*[:=]~s*("[A-Za-z0-9+/=_-]*|'[A-Za-z0-9+/=_-]*|[A-Za-z0-9+/=_-]*)$'')\<close>

definition pem_marker :: "string \<Rightarrow> bool \<Rightarrow> string" where
  "pem_marker label begin_mark =
     (if begin_mark then PEM_BEGIN_PREFIX else PEM_END_PREFIX) @ label @ PEM_MARKER_SUFFIX"

definition pem_private_key_regex :: "bool \<Rightarrow> string" where
  "pem_private_key_regex begin_mark =
     (if begin_mark then PEM_BEGIN_PREFIX else PEM_END_PREFIX) @ PEM_KIND_REGEX_FRAGMENT @ PEM_REGEX_SUFFIX"

definition redaction_pem_regex :: "regex_engine \<Rightarrow> regex" where
  "redaction_pem_regex engine =
     regex_new engine (''(?s)'' @ pem_private_key_regex True @ ''.*?'' @ pem_private_key_regex False)"

definition redaction_pem_open_header_regex :: "regex_engine \<Rightarrow> regex" where
  "redaction_pem_open_header_regex engine = regex_new engine (pem_private_key_regex True)"

section \<open>Redaction of texts and of JSON values\<close>

definition cow_replace_all :: "regex \<Rightarrow> string \<Rightarrow> string \<Rightarrow> string" where
  "cow_replace_all re rep input = (if \<not> re_is_match re input then input else re_replace_all re input rep)"

definition redact_patterns :: "regex_engine \<Rightarrow> runtime_redaction_config \<Rightarrow> string \<Rightarrow> string" where
  "redact_patterns engine config input =
    (let result = cow_replace_all (redaction_authorization_regex engine) (''$1'' @ REDACTED) input;
         result = cow_replace_all (redaction_key_value_regex engine) (''$1='' @ REDACTED) result;
         result = cow_replace_all (redaction_env_assignment_regex engine) (''$1='' @ REDACTED) result;
         result = cow_replace_all (redaction_aws_key_regex engine) REDACTED result;
         result = cow_replace_all (redaction_github_token_regex engine) REDACTED result;
         result = cow_replace_all (redaction_provider_token_regex engine) REDACTED result;
         result = cow_replace_all (redaction_slack_token_regex engine) REDACTED result;
         result = cow_replace_all (redaction_gitlab_pat_regex engine) REDACTED result;
         result = cow_replace_all (redaction_npm_token_regex engine) REDACTED result;
         result = cow_replace_all (redaction_pypi_token_regex engine) REDACTED result;
         result = cow_replace_all (redaction_docker_pat_regex engine) REDACTED result;
         result = cow_replace_all (redaction_vault_token_regex engine) REDACTED result;
         result = cow_replace_all (redaction_vercel_token_regex engine) REDACTED result;
         result = cow_replace_all (redaction_pem_regex engine) REDACTED result;
         result = cow_replace_all (redaction_pem_open_header_regex engine) REDACTED result;
         result = cow_replace_all (redaction_connection_string_regex engine) (''://'' @ REDACTED @ ''@'') result;
         result = cow_replace_all (redaction_connection_string_query_param_regex engine) (''$1$2='' @ REDACTED) result;
         result = fold (\<lambda>re r. cow_replace_all re REDACTED r) (rt_extra_patterns config) result
     in if rt_enable_entropy_guard config
        then cow_replace_all (redaction_entropy_assignment_regex engine) (''$1='' @ REDACTED) result
        else result)"

definition redact_text :: "regex_engine \<Rightarrow> runtime_redaction_config \<Rightarrow> string \<Rightarrow> string list \<Rightarrow> string" where
  "redact_text engine config input secrets =
     fold (\<lambda>secret r. if secret = [] then r else str_replace secret REDACTED r) secrets
       (redact_patterns engine config input)"

text \<open>
  \<open>normalize_secrets\<close>: the first occurrence of each non-empty secret, sorted by decreasing
  length and then bytewise. Equal secrets do not occur, so the order is total and every sort
  gives the same list.
\<close>

fun keep_first :: "string set \<Rightarrow> string list \<Rightarrow> string list" where
  "keep_first seen [] = []"
| "keep_first seen (s # ss) = (if s \<in> seen then keep_first seen ss else s # keep_first (insert s seen) ss)"

definition secret_rank :: "string \<Rightarrow> int \<times> string" where
  "secret_rank s = (- int (length s), s)"

definition normalize_secrets :: "string list \<Rightarrow> string list" where
  "normalize_secrets secrets = sort_key secret_rank (keep_first {} (filter (\<lambda>s. s \<noteq> []) secrets))"

definition replace_char :: "char \<Rightarrow> char \<Rightarrow> string \<Rightarrow> string" where
  "replace_char a b s = map (\<lambda>c. if c = a then b else c) s"

definition is_sensitive_json_key :: "string \<Rightarrow> bool" where
  "is_sensitive_json_key key =
    (let normalized = to_ascii_lowercase (replace_char CHR ''-'' CHR ''_'' (str_trim key))
     in normalized \<in> {''password'', ''passphrase'', ''token'', ''access_token'', ''refresh_token'',
          ''bearer_token'', ''secret'', ''client_secret'', ''secret_key'', ''private_key'', ''api_key'',
          ''apikey'', ''authorization''}
        \<or> ends_with normalized ''_token'' \<or> ends_with normalized ''_secret''
        \<or> ends_with normalized ''_password'' \<or> ends_with normalized ''_api_key'')"

text \<open>\<open>serde_json::Value\<close>: an object is the list of its entries in iteration order (keys are
  unique, so re-inserting them one by one rebuilds the entries), a number its text.\<close>

datatype json = JNull | JBool bool | JNumber string | JString string | JArray "json list"
  | JObject "(string \<times> json) list"

fun redact_json_value :: "regex_engine \<Rightarrow> runtime_redaction_config \<Rightarrow> string list \<Rightarrow> json \<Rightarrow> json" where
  "redact_json_value engine config secrets (JString text) = JString (redact_text engine config text secrets)"
| "redact_json_value engine config secrets (JArray items) =
     JArray (map (redact_json_value engine config secrets) items)"
| "redact_json_value engine config secrets (JObject entries) =
     JObject (map (\<lambda>(key, v). (key, if is_sensitive_json_key key then JString REDACTED
                                     else redact_json_value engine config secrets v)) entries)"
| "redact_json_value engine config secrets other = other"

section \<open>What a chunk of a stream must hold back\<close>

text \<open>\<open>str::is_char_boundary\<close>: the start, the end, and every byte that is no continuation byte.\<close>

definition is_continuation :: "char \<Rightarrow> bool" where
  "is_continuation c \<longleftrightarrow> 128 \<le> (of_char c :: nat) \<and> (of_char c :: nat) < 192"

definition is_char_boundary :: "string \<Rightarrow> nat \<Rightarrow> bool" where
  "is_char_boundary s i \<longleftrightarrow> i = 0 \<or> i = length s \<or> i < length s \<and> \<not> is_continuation (s ! i)"

definition char_indices :: "string \<Rightarrow> nat list" where
  "char_indices s = filter (is_char_boundary s) [0..<length s]"

definition minimum_partial_match_bytes :: "string \<Rightarrow> nat" where
  "minimum_partial_match_bytes literal = (if length literal \<le> 4 then 2 else 3)"

definition partial_literal_start :: "string \<Rightarrow> string \<Rightarrow> bool \<Rightarrow> nat \<Rightarrow> nat option" where
  "partial_literal_start input literal retain_full_match min_match_bytes =
    (if input = [] \<or> literal = [] then None
     else
       let retain_start = fold
             (\<lambda>idx acc. if idx < min_match_bytes then acc
                        else if ends_with input (take idx literal) then Some (length input - idx) else acc)
             (drop 1 (char_indices literal)) None
       in if retain_full_match \<and> length literal \<ge> min_match_bytes \<and> ends_with input literal
          then Some (length input - length literal) else retain_start)"

definition earlier :: "nat option \<Rightarrow> nat option \<Rightarrow> nat option" where
  "earlier candidate acc =
     (case candidate of
        None \<Rightarrow> acc
      | Some start \<Rightarrow> Some (case acc of None \<Rightarrow> start | Some current \<Rightarrow> min current start))"

definition open_pem_label :: "string \<Rightarrow> string \<Rightarrow> nat option" where
  "open_pem_label input label =
    (case str_find input (pem_marker label True) of
       None \<Rightarrow> None
     | Some begin_pos \<Rightarrow>
         if \<not> str_contains (drop begin_pos input) (pem_marker label False) then Some begin_pos else None)"

definition open_pem_block_start :: "string \<Rightarrow> nat option" where
  "open_pem_block_start input =
     fold (\<lambda>label earliest. earlier (open_pem_label input label) earliest) PEM_PRIVATE_KEY_LABELS None"

definition partial_redaction_regexes :: "regex_engine \<Rightarrow> runtime_redaction_config \<Rightarrow> regex list" where
  "partial_redaction_regexes engine config =
     rt_extra_patterns config
     @ (if rt_enable_entropy_guard config then [redaction_partial_entropy_assignment_regex engine] else [])"

definition built_in_partial_regexes :: "regex_engine \<Rightarrow> regex list" where
  "built_in_partial_regexes engine =
    [redaction_partial_authorization_regex engine, redaction_partial_key_value_regex engine,
     redaction_partial_env_assignment_regex engine, redaction_partial_aws_key_regex engine,
     redaction_partial_github_token_regex engine, redaction_partial_provider_token_regex engine,
     redaction_partial_slack_token_regex engine, redaction_partial_gitlab_pat_regex engine,
     redaction_partial_npm_token_regex engine, redaction_partial_pypi_token_regex engine,
     redaction_partial_docker_pat_regex engine, redaction_partial_vault_token_regex engine,
     redaction_partial_vercel_token_regex engine, redaction_partial_connection_string_regex engine,
     redaction_partial_connection_string_query_param_regex engine]"

definition partial_literal :: "string \<Rightarrow> string \<Rightarrow> nat option" where
  "partial_literal input literal =
     partial_literal_start input literal False (minimum_partial_match_bytes literal)"

definition partial_redaction_start ::
  "regex_engine \<Rightarrow> runtime_redaction_config \<Rightarrow> string \<Rightarrow> string list \<Rightarrow> nat option"
where
  "partial_redaction_start engine config input secrets =
    (let retain_start = earlier (open_pem_block_start input) None;
         retain_start = fold (\<lambda>marker. earlier (partial_literal input marker)) [PEM_BEGIN_PREFIX] retain_start;
         retain_start = fold (\<lambda>label. earlier (partial_literal input (pem_marker label True)))
                          PEM_PRIVATE_KEY_LABELS retain_start;
         retain_start = fold (\<lambda>secret. earlier (partial_literal input secret)) secrets retain_start;
         retain_start = fold (\<lambda>re. earlier (re_find re input)) (built_in_partial_regexes engine) retain_start
     in fold (\<lambda>re. earlier (re_find re input)) (partial_redaction_regexes engine config) retain_start)"

section \<open>The streaming buffer\<close>

text \<open>\<open>drain_to_retained_tail\<close> searches downwards for a character boundary.\<close>

fun boundary_at_or_before :: "string \<Rightarrow> nat \<Rightarrow> nat" where
  "boundary_at_or_before input split_at =
     (if split_at > 0 \<and> \<not> is_char_boundary input split_at
      then boundary_at_or_before input (split_at - 1) else split_at)"

declare boundary_at_or_before.simps [simp del]

definition drain_to_retained_tail :: "string \<Rightarrow> nat \<Rightarrow> nat" where
  "drain_to_retained_tail input retain_bytes =
     (if length input \<le> retain_bytes then length input
      else boundary_at_or_before input (length input - retain_bytes))"

record stream_buffer =
  sb_pending :: string

definition buffer_new :: stream_buffer where
  "buffer_new = \<lparr>sb_pending = []\<rparr>"

definition drain_to ::
  "regex_engine \<Rightarrow> runtime_redaction_config \<Rightarrow> bool \<Rightarrow> string list \<Rightarrow> string \<Rightarrow> nat"
where
  "drain_to engine config flush_all secrets pending =
    (if flush_all then length pending
     else
       let tail_boundary = drain_to_retained_tail pending STREAM_REDACTION_TAIL_BYTES
       in case partial_redaction_start engine config pending secrets of
            None \<Rightarrow> tail_boundary
          | Some retain_start \<Rightarrow> min tail_boundary retain_start)"

text \<open>Slicing at an offset that is no character boundary panics: the result \<open>None\<close>.\<close>

definition drain ::
  "regex_engine \<Rightarrow> runtime_redaction_config \<Rightarrow> bool \<Rightarrow> string list \<Rightarrow> stream_buffer
     \<Rightarrow> (string option \<times> stream_buffer) option"
where
  "drain engine config flush_all secrets buf =
    (let pending = sb_pending buf in
     if pending = [] then Some (None, buf)
     else
       let n = drain_to engine config flush_all secrets pending in
       if n = 0 then Some (None, buf)
       else if \<not> is_char_boundary pending n then None
       else Some (Some (redact_text engine config (take n pending) secrets),
                  buf\<lparr>sb_pending := drop n pending\<rparr>))"

definition push_chunk ::
  "regex_engine \<Rightarrow> runtime_redaction_config \<Rightarrow> string list \<Rightarrow> string \<Rightarrow> stream_buffer
     \<Rightarrow> (string option \<times> stream_buffer) option"
where
  "push_chunk engine config secrets chunk buf =
    (let buf = buf\<lparr>sb_pending := sb_pending buf @ chunk\<rparr>
     in if length (sb_pending buf) > MAX_BUFFER_BYTES then drain engine config True secrets buf
        else drain engine config False secrets buf)"

definition finish ::
  "regex_engine \<Rightarrow> runtime_redaction_config \<Rightarrow> string list \<Rightarrow> stream_buffer
     \<Rightarrow> (string option \<times> stream_buffer) option"
where
  "finish engine config secrets buf = drain engine config True secrets buf"

section \<open>Where the buffer is split\<close>

lemma fold_earlier_None: "fold earlier cs acc = None \<longleftrightarrow> acc = None \<and> set cs \<subseteq> {None}"
  by (induction cs arbitrary: acc) (auto simp: earlier_def split: option.splits)

lemma fold_earlier_Some:
  assumes "fold earlier cs acc = Some d"
  shows "Some d \<in> insert acc (set cs) \<and> (\<forall>x. Some x \<in> insert acc (set cs) \<longrightarrow> d \<le> x)"
  using assms
proof (induction cs arbitrary: acc)
  case (Cons c cs)
  have IH: "Some d \<in> insert (earlier c acc) (set cs)"
      "\<forall>x. Some x \<in> insert (earlier c acc) (set cs) \<longrightarrow> d \<le> x"
    using Cons.IH[of "earlier c acc"] Cons.prems by simp_all
  have "Some d \<in> insert acc (set (c # cs))"
    using IH(1) by (auto simp: earlier_def min_def split: option.splits if_splits)
  moreover have "d \<le> x" if x: "Some x \<in> insert acc (set (c # cs))" for x
  proof (cases "Some x \<in> set cs")
    case False
    with x obtain y where "earlier c acc = Some y" "y \<le> x"
      by (cases c; cases acc) (auto simp: earlier_def)
    with IH(2) show ?thesis by fastforce
  qed (use IH(2) in blast)
  ultimately show ?case by blast
qed simp

definition retain_candidates ::
  "regex_engine \<Rightarrow> runtime_redaction_config \<Rightarrow> string \<Rightarrow> string list \<Rightarrow> nat option list"
where
  "retain_candidates engine config input secrets =
     map (open_pem_label input) PEM_PRIVATE_KEY_LABELS
     @ map (partial_literal input)
         ([PEM_BEGIN_PREFIX] @ map (\<lambda>label. pem_marker label True) PEM_PRIVATE_KEY_LABELS @ secrets)
     @ map (\<lambda>re. re_find re input) (built_in_partial_regexes engine @ partial_redaction_regexes engine config)"

lemma fold_earlier_map: "fold (\<lambda>x. earlier (f x)) xs acc = fold earlier (map f xs) acc"
  by (induction xs arbitrary: acc) simp_all

lemma earlier_None_right [simp]: "earlier c None = c"
  by (cases c) (simp_all add: earlier_def)

lemma partial_redaction_start_candidates:
  "partial_redaction_start engine config input secrets
     = fold earlier (retain_candidates engine config input secrets) None"
  unfolding partial_redaction_start_def retain_candidates_def open_pem_block_start_def Let_def
  by (simp add: fold_earlier_map[where f = "open_pem_label input"]
      fold_earlier_map[where f = "partial_literal input"]
      fold_earlier_map[where f = "\<lambda>label. partial_literal input (pem_marker label True)"]
      fold_earlier_map[where f = "\<lambda>re. re_find re input"] comp_def)

lemma set_char_indices: "set (drop 1 (char_indices s)) = {i. 0 < i \<and> i < length s \<and> is_char_boundary s i}"
proof (cases "s = []")
  case False
  then have "char_indices s = 0 # filter (is_char_boundary s) [1..<length s]"
    by (simp add: char_indices_def upt_conv_Cons is_char_boundary_def)
  then show ?thesis by auto
qed (simp add: char_indices_def)

lemma fold_last_match:
  "fold (\<lambda>i acc. if P i then acc else if Q i then Some (f i) else acc) xs acc
     = (if filter (\<lambda>i. \<not> P i \<and> Q i) xs = [] then acc
        else Some (f (last (filter (\<lambda>i. \<not> P i \<and> Q i) xs))))"
  by (induction xs arbitrary: acc rule: rev_induct) auto

lemma sorted_le_last: "sorted xs \<Longrightarrow> x \<in> set xs \<Longrightarrow> x \<le> last (xs :: nat list)"
  by (induction xs rule: rev_induct) (auto simp: sorted_append)

lemma partial_literal_cases:
  "partial_literal input literal
     = (let hits = filter (\<lambda>i. minimum_partial_match_bytes literal \<le> i \<and> ends_with input (take i literal))
                     (drop 1 (char_indices literal))
        in if input = [] \<or> hits = [] then None else Some (length input - last hits))"
  by (auto simp: partial_literal_def partial_literal_start_def fold_last_match Let_def not_less
      char_indices_def)

lemma partial_literal_SomeD:
  assumes "partial_literal input literal = Some p"
  shows "\<exists>i. 0 < i \<and> i < length literal \<and> is_char_boundary literal i
    \<and> ends_with input (take i literal) \<and> p = length input - i"
proof -
  let ?hits = "filter (\<lambda>i. minimum_partial_match_bytes literal \<le> i \<and> ends_with input (take i literal))
                 (drop 1 (char_indices literal))"
  from assms have hits: "?hits \<noteq> []" and p: "p = length input - last ?hits"
    by (auto simp: partial_literal_cases Let_def split: if_splits)
  from hits have "last ?hits \<in> set ?hits" by (rule last_in_set)
  with p show ?thesis using set_char_indices[of literal] by auto
qed

lemma partial_literal_holds:
  assumes "0 < i" "i < length literal" "is_char_boundary literal i"
    and "minimum_partial_match_bytes literal \<le> i" and "ends_with input (take i literal)"
  shows "\<exists>p. partial_literal input literal = Some p \<and> p \<le> length input - i"
proof -
  let ?hits = "filter (\<lambda>i. minimum_partial_match_bytes literal \<le> i \<and> ends_with input (take i literal))
                 (drop 1 (char_indices literal))"
  have "i \<in> set ?hits" using assms set_char_indices[of literal] by simp
  moreover have "sorted ?hits"
    by (simp add: char_indices_def sorted_wrt_filter sorted_wrt_drop)
  ultimately have "?hits \<noteq> []" "i \<le> last ?hits"
    by (metis empty_iff list.set(1), blast intro: sorted_le_last)
  moreover have "input \<noteq> []" using assms(1,2,5) by (auto simp: ends_with_suffix)
  ultimately show ?thesis by (simp add: partial_literal_cases Let_def)
qed

lemma boundary_at_or_before_boundary: "is_char_boundary s (boundary_at_or_before s n)"
proof (induction s n rule: boundary_at_or_before.induct)
  case (1 s n)
  then show ?case
    by (subst boundary_at_or_before.simps) (auto simp: is_char_boundary_def)
qed

lemma boundary_at_or_before_le: "boundary_at_or_before s n \<le> n"
proof (induction s n rule: boundary_at_or_before.induct)
  case (1 s n)
  show ?case
  proof (cases "n > 0 \<and> \<not> is_char_boundary s n")
    case True
    with 1 have "boundary_at_or_before s (n - 1) \<le> n - 1" by blast
    with True show ?thesis by (subst boundary_at_or_before.simps) simp
  next
    case False
    then show ?thesis by (subst boundary_at_or_before.simps) auto
  qed
qed

lemma drain_to_retained_tail_boundary: "is_char_boundary s (drain_to_retained_tail s k)"
  using boundary_at_or_before_boundary
  by (simp add: drain_to_retained_tail_def is_char_boundary_def)

lemma drain_to_retained_tail_le: "drain_to_retained_tail s k \<le> length s"
  using boundary_at_or_before_le[of s "length s - k"] by (auto simp: drain_to_retained_tail_def)

lemma drain_to_le: "drain_to engine config flush secrets pending \<le> length pending"
  using drain_to_retained_tail_le[of pending STREAM_REDACTION_TAIL_BYTES]
  by (auto simp: drain_to_def Let_def split: option.splits)

lemma partial_redaction_start_le:
  assumes "Some p \<in> set (retain_candidates engine config input secrets)"
  shows "\<exists>d \<le> p. partial_redaction_start engine config input secrets = Some d"
  using assms fold_earlier_None[of "retain_candidates engine config input secrets" None]
    fold_earlier_Some[of "retain_candidates engine config input secrets" None]
  by (cases "partial_redaction_start engine config input secrets")
     (auto simp: partial_redaction_start_candidates)

lemma extra_candidate:
  "re \<in> set (rt_extra_patterns config) \<Longrightarrow> re_find re input \<in> set (retain_candidates engine config input secrets)"
  unfolding retain_candidates_def partial_redaction_regexes_def by (intro set_append[THEN equalityD2, THEN subsetD] UnI2) simp

lemma secret_candidate:
  "s \<in> set secrets \<Longrightarrow> partial_literal input s \<in> set (retain_candidates engine config input secrets)"
  unfolding retain_candidates_def by simp

text \<open>
  Offsets are character boundaries: Rust strings are valid UTF-8, so no secret starts with a
  continuation byte, and the documentation of \<open>Regex::find\<close> promises offsets that are
  boundaries.
\<close>

definition utf8_start :: "string \<Rightarrow> bool" where
  "utf8_start s \<longleftrightarrow> s = [] \<or> \<not> is_continuation (hd s)"

definition stream_regexes :: "regex_engine \<Rightarrow> runtime_redaction_config \<Rightarrow> regex list" where
  "stream_regexes engine config = built_in_partial_regexes engine @ partial_redaction_regexes engine config"

definition stream_input_ok :: "regex_engine \<Rightarrow> runtime_redaction_config \<Rightarrow> string list \<Rightarrow> bool" where
  "stream_input_ok engine config secrets \<longleftrightarrow> list_all utf8_start secrets
     \<and> (\<forall>re \<in> set (stream_regexes engine config).
          \<forall>input p. re_find re input = Some p \<longrightarrow> is_char_boundary input p)"

lemma pem_marker_utf8_start: "utf8_start (pem_marker label b)"
  by (simp add: utf8_start_def pem_marker_def PEM_BEGIN_PREFIX_def PEM_END_PREFIX_def is_continuation_def)

lemma begin_prefix_utf8_start: "utf8_start PEM_BEGIN_PREFIX"
  by (simp add: utf8_start_def PEM_BEGIN_PREFIX_def is_continuation_def)

lemma occurrence_boundary:
  assumes "take (length w) (drop i s) = w" "w \<noteq> []" "utf8_start w"
  shows "is_char_boundary s i"
proof -
  have "i < length s" using assms(1,2) by (metis drop_eq_Nil not_le take_Nil)
  moreover have "s ! i = hd w"
    using assms(1,2) \<open>i < length s\<close> by (metis hd_drop_conv_nth hd_take length_greater_0_conv)
  ultimately show ?thesis using assms(2,3) by (simp add: is_char_boundary_def utf8_start_def)
qed

lemma partial_literal_boundary:
  assumes "partial_literal input literal = Some p" "utf8_start literal"
  shows "is_char_boundary input p"
proof -
  from partial_literal_SomeD[OF assms(1)] obtain i where i: "0 < i" "i < length literal"
    "ends_with input (take i literal)" "p = length input - i" by blast
  then have "take (length (take i literal)) (drop p input) = take i literal"
    by (simp add: ends_with_def)
  moreover have "take i literal \<noteq> []" "utf8_start (take i literal)"
    using i(1,2) assms(2) by (auto simp: utf8_start_def)
  ultimately show ?thesis by (rule occurrence_boundary)
qed

lemma open_pem_label_boundary:
  assumes "open_pem_label input label = Some p"
  shows "is_char_boundary input p"
proof -
  from assms have "str_find input (pem_marker label True) = Some p"
    by (auto simp: open_pem_label_def split: option.splits if_splits)
  then have "take (length (pem_marker label True)) (drop p input) = pem_marker label True"
    by (simp add: str_find_Some)
  moreover have "pem_marker label True \<noteq> []" by (simp add: pem_marker_def PEM_BEGIN_PREFIX_def)
  ultimately show ?thesis using pem_marker_utf8_start by (rule occurrence_boundary)
qed

lemma drain_to_boundary:
  assumes "stream_input_ok engine config secrets"
  shows "is_char_boundary pending (drain_to engine config flush secrets pending)"
proof -
  let ?prs = "partial_redaction_start engine config pending secrets"
  have "is_char_boundary pending d" if "?prs = Some d" for d
  proof -
    from that have "Some d \<in> set (retain_candidates engine config pending secrets)"
      using fold_earlier_Some[of "retain_candidates engine config pending secrets" None d]
      by (auto simp: partial_redaction_start_candidates)
    then show ?thesis
      using assms pem_marker_utf8_start begin_prefix_utf8_start
      by (auto simp: retain_candidates_def stream_input_ok_def stream_regexes_def list_all_iff
          dest!: sym[of "Some d"] intro: open_pem_label_boundary partial_literal_boundary) blast+
  qed
  then show ?thesis
    using drain_to_retained_tail_boundary[of pending STREAM_REDACTION_TAIL_BYTES]
    by (auto simp: drain_to_def Let_def min_def is_char_boundary_def[of _ "length pending"]
        split: option.splits)
qed

lemma drain_outcome:
  assumes "stream_input_ok engine config secrets"
  shows "\<exists>raw rest. sb_pending buf = raw @ rest
    \<and> length raw = drain_to engine config flush secrets (sb_pending buf)
    \<and> drain engine config flush secrets buf
       = Some (if raw = [] then None else Some (redact_text engine config raw secrets),
               buf\<lparr>sb_pending := rest\<rparr>)"
proof -
  let ?n = "drain_to engine config flush secrets (sb_pending buf)"
  have "sb_pending buf = take ?n (sb_pending buf) @ drop ?n (sb_pending buf)" by simp
  moreover have "length (take ?n (sb_pending buf)) = ?n" by (simp add: drain_to_le)
  moreover have "drain engine config flush secrets buf
       = Some (if take ?n (sb_pending buf) = [] then None
               else Some (redact_text engine config (take ?n (sb_pending buf)) secrets),
               buf\<lparr>sb_pending := drop ?n (sb_pending buf)\<rparr>)"
    using drain_to_boundary[OF assms, of "sb_pending buf" flush] drain_to_le
    by (auto simp: drain_def Let_def)
  ultimately show ?thesis by blast
qed

text \<open>A stream: the chunks are pushed one by one.\<close>

fun stream_run ::
  "regex_engine \<Rightarrow> runtime_redaction_config \<Rightarrow> string list \<Rightarrow> string list \<Rightarrow> stream_buffer
     \<Rightarrow> (string list \<times> stream_buffer) option"
where
  "stream_run engine config secrets [] buf = Some ([], buf)"
| "stream_run engine config secrets (chunk # chunks) buf =
     (case push_chunk engine config secrets chunk buf of
        None \<Rightarrow> None
      | Some (out, buf') \<Rightarrow>
          map_option (apfst (\<lambda>outs. (case out of None \<Rightarrow> outs | Some t \<Rightarrow> t # outs)))
            (stream_run engine config secrets chunks buf'))"

lemma push_chunk_outcome:
  assumes "stream_input_ok engine config secrets"
  shows "\<exists>raw rest. sb_pending buf @ chunk = raw @ rest
    \<and> length rest \<le> MAX_BUFFER_BYTES
    \<and> push_chunk engine config secrets chunk buf
       = Some (if raw = [] then None else Some (redact_text engine config raw secrets),
               buf\<lparr>sb_pending := rest\<rparr>)"
proof -
  let ?buf = "buf\<lparr>sb_pending := sb_pending buf @ chunk\<rparr>"
  let ?flush = "length (sb_pending ?buf) > MAX_BUFFER_BYTES"
  from drain_outcome[OF assms, where buf = ?buf and flush = ?flush] obtain raw rest where
    split: "sb_pending ?buf = raw @ rest"
    and len: "length raw = drain_to engine config ?flush secrets (sb_pending ?buf)"
    and result: "drain engine config ?flush secrets ?buf
       = Some (if raw = [] then None else Some (redact_text engine config raw secrets),
               ?buf\<lparr>sb_pending := rest\<rparr>)" by blast
  have "length rest \<le> MAX_BUFFER_BYTES"
  proof (cases ?flush)
    case True
    with len have "length raw = length (sb_pending ?buf)" by (simp add: drain_to_def)
    with split show ?thesis by (metis add_cancel_right_right le0 length_append)
  next
    case False
    with split show ?thesis by (metis le_add2 le_trans length_append not_le)
  qed
  moreover have "push_chunk engine config secrets chunk buf
       = Some (if raw = [] then None else Some (redact_text engine config raw secrets),
               buf\<lparr>sb_pending := rest\<rparr>)"
    using result by (auto simp: push_chunk_def Let_def)
  ultimately show ?thesis using split by auto
qed

section \<open>Properties\<close>

text \<open>An engine whose expressions never match, and one that matches its pattern literally:
  concrete instances of the parameter.\<close>

definition never_regex :: "string \<Rightarrow> regex" where
  "never_regex p = \<lparr>re_as_str = p, re_is_match = (\<lambda>_. False), re_replace_all = (\<lambda>i _. i), re_find = (\<lambda>_. None)\<rparr>"

definition literal_regex :: "string \<Rightarrow> regex" where
  "literal_regex p = \<lparr>re_as_str = p, re_is_match = (\<lambda>i. str_contains i p),
     re_replace_all = (\<lambda>i rep. str_replace p rep i), re_find = (\<lambda>i. str_find i p)\<rparr>"

definition never_engine :: regex_engine where
  "never_engine = \<lparr>regex_new = never_regex, regex_build = (\<lambda>_ p. Ok (literal_regex p))\<rparr>"

lemma never_engine_find [simp]:
  "re \<in> set (stream_regexes never_engine runtime_default) \<Longrightarrow> re_find re input = None"
  by (auto simp: stream_regexes_def built_in_partial_regexes_def partial_redaction_regexes_def
      runtime_default_def never_engine_def never_regex_def
      redaction_partial_authorization_regex_def redaction_partial_key_value_regex_def
      redaction_partial_env_assignment_regex_def redaction_partial_aws_key_regex_def
      redaction_partial_github_token_regex_def redaction_partial_provider_token_regex_def
      redaction_partial_slack_token_regex_def redaction_partial_gitlab_pat_regex_def
      redaction_partial_npm_token_regex_def redaction_partial_pypi_token_regex_def
      redaction_partial_docker_pat_regex_def redaction_partial_vault_token_regex_def
      redaction_partial_vercel_token_regex_def redaction_partial_connection_string_regex_def
      redaction_partial_connection_string_query_param_regex_def)

lemma partial_literal_needs_first: "hd literal \<notin> set input \<Longrightarrow> partial_literal input literal = None"
proof (rule ccontr)
  assume hd: "hd literal \<notin> set input" and "partial_literal input literal \<noteq> None"
  then obtain i where "0 < i" "i < length literal" "ends_with input (take i literal)"
    using partial_literal_SomeD by blast
  then have "hd literal \<in> set (take i literal)" "set (take i literal) \<subseteq> set input"
    by (cases literal, auto simp: ends_with_suffix take_Cons' dest: set_mono_suffix)
  with hd show False by blast
qed

lemma partial_literal_needs_last: "last input \<notin> set literal \<Longrightarrow> partial_literal input literal = None"
proof (rule ccontr)
  assume last: "last input \<notin> set literal" and "partial_literal input literal \<noteq> None"
  then obtain i where i: "0 < i" "i < length literal" "ends_with input (take i literal)"
    using partial_literal_SomeD by blast
  then obtain z where "input = z @ take i literal" by (auto simp: ends_with_suffix suffix_def)
  moreover have "take i literal \<noteq> []" using i by auto
  ultimately have "last input = last (take i literal)" by simp
  also have "\<dots> \<in> set literal" using \<open>take i literal \<noteq> []\<close> last_in_set in_set_takeD by metis
  finally show False using last by blast
qed

lemma quiet_partial_redaction_start:
  assumes "CHR ''-'' \<notin> set input"
  shows "partial_redaction_start never_engine runtime_default input [s] = partial_literal input s"
proof -
  have marker: "hd (pem_marker label b) = CHR ''-''" "pem_marker label b \<noteq> []" for label b
    by (simp_all add: pem_marker_def PEM_BEGIN_PREFIX_def PEM_END_PREFIX_def)
  have "\<not> sublist (pem_marker label True) input" for label
    using assms marker by (metis hd_in_set set_mono_sublist subsetD)
  then have "open_pem_label input label = None" for label
    by (simp add: open_pem_label_def str_find_None[THEN iffD2])
  moreover have "partial_literal input (pem_marker label True) = None" for label
    using assms marker by (intro partial_literal_needs_first) simp
  moreover have "partial_literal input PEM_BEGIN_PREFIX = None"
    using assms by (intro partial_literal_needs_first) (simp add: PEM_BEGIN_PREFIX_def)
  ultimately have "set (retain_candidates never_engine runtime_default input [s]) \<subseteq> {None, partial_literal input s}"
    using never_engine_find unfolding retain_candidates_def stream_regexes_def[symmetric] by auto
  then show ?thesis
    using secret_candidate[of s "[s]" input never_engine runtime_default]
      fold_earlier_None[of "retain_candidates never_engine runtime_default input [s]" None]
      fold_earlier_Some[of "retain_candidates never_engine runtime_default input [s]" None]
    unfolding partial_redaction_start_candidates
    by (cases "fold earlier (retain_candidates never_engine runtime_default input [s]) None";
        cases "partial_literal input s") fastforce+
qed

lemma never_engine_ok: "list_all utf8_start secrets \<Longrightarrow> stream_input_ok never_engine runtime_default secrets"
  by (simp add: stream_input_ok_def)

text \<open>
  C34. The streaming buffer loses and adds nothing: whatever the chunks, the pieces it
  redacts and hands out, with what it still holds, are exactly the text that was pushed, in
  order; it never panics, never holds more than 64 KiB, and \<open>finish\<close> hands out the rest.
\<close>
theorem stream_conserves_text:
  assumes "stream_input_ok engine config secrets"
  shows "\<exists>raw buf. concat raw @ sb_pending buf = concat chunks
    \<and> stream_run engine config secrets chunks buffer_new
        = Some (map (\<lambda>piece. redact_text engine config piece secrets) raw, buf)
    \<and> length (sb_pending buf) \<le> MAX_BUFFER_BYTES
    \<and> finish engine config secrets buf
        = Some (if sb_pending buf = [] then None else Some (redact_text engine config (sb_pending buf) secrets),
                \<lparr>sb_pending = []\<rparr>)"
proof -
  have run: "\<exists>raw rest. concat raw @ rest = sb_pending buf @ concat chunks
      \<and> stream_run engine config secrets chunks buf
        = Some (map (\<lambda>piece. redact_text engine config piece secrets) raw, \<lparr>sb_pending = rest\<rparr>)
      \<and> length rest \<le> MAX_BUFFER_BYTES" if "length (sb_pending buf) \<le> MAX_BUFFER_BYTES" for buf
    using that
  proof (induction chunks arbitrary: buf)
    case Nil
    then show ?case by (intro exI[of _ "[]"] exI[of _ "sb_pending buf"]) (cases buf, simp)
  next
    case (Cons chunk chunks)
    from push_chunk_outcome[OF assms, of buf chunk] obtain raw1 rest1 where
      1: "sb_pending buf @ chunk = raw1 @ rest1" "length rest1 \<le> MAX_BUFFER_BYTES"
        "push_chunk engine config secrets chunk buf
         = Some (if raw1 = [] then None else Some (redact_text engine config raw1 secrets),
                 buf\<lparr>sb_pending := rest1\<rparr>)" by blast
    from Cons.IH[of "buf\<lparr>sb_pending := rest1\<rparr>"] 1(2) obtain raw rest where
      2: "concat raw @ rest = rest1 @ concat chunks" "length rest \<le> MAX_BUFFER_BYTES"
        "stream_run engine config secrets chunks (buf\<lparr>sb_pending := rest1\<rparr>)
         = Some (map (\<lambda>piece. redact_text engine config piece secrets) raw, \<lparr>sb_pending = rest\<rparr>)"
      by auto
    have "concat ((if raw1 = [] then [] else [raw1]) @ raw) @ rest = raw1 @ (concat raw @ rest)"
      by simp
    also have "\<dots> = (raw1 @ rest1) @ concat chunks" by (simp add: 2(1))
    also have "\<dots> = sb_pending buf @ concat (chunk # chunks)" by (simp add: 1(1)[symmetric])
    finally have "concat ((if raw1 = [] then [] else [raw1]) @ raw) @ rest
        = sb_pending buf @ concat (chunk # chunks)" .
    moreover have "stream_run engine config secrets (chunk # chunks) buf
        = Some (map (\<lambda>piece. redact_text engine config piece secrets)
                  ((if raw1 = [] then [] else [raw1]) @ raw), \<lparr>sb_pending = rest\<rparr>)"
      using 1(3) 2(3) by simp
    ultimately show ?case using 2(2) by blast
  qed
  from run[of buffer_new] obtain raw rest where
    "concat raw @ rest = concat chunks" "length rest \<le> MAX_BUFFER_BYTES"
    "stream_run engine config secrets chunks buffer_new
        = Some (map (\<lambda>piece. redact_text engine config piece secrets) raw, \<lparr>sb_pending = rest\<rparr>)"
    by (auto simp: buffer_new_def)
  moreover have "finish engine config secrets \<lparr>sb_pending = rest\<rparr>
        = Some (if rest = [] then None else Some (redact_text engine config rest secrets), \<lparr>sb_pending = []\<rparr>)"
    by (simp add: finish_def drain_def drain_to_def is_char_boundary_def Let_def)
  ultimately show ?thesis by (intro exI[of _ raw] exI[of _ "\<lparr>sb_pending = rest\<rparr>"]) simp
qed

theorem stream_conserves_text_witness:
  "\<exists>raw buf. concat raw @ sb_pending buf = concat [''pass swo'', ''rdfish'']
    \<and> stream_run never_engine runtime_default [''swordfish''] [''pass swo'', ''rdfish''] buffer_new
        = Some (map (\<lambda>piece. redact_text never_engine runtime_default piece [''swordfish'']) raw, buf)"
  using stream_conserves_text[of never_engine runtime_default "[''swordfish'']" "[''pass swo'', ''rdfish'']"]
    never_engine_ok[of "[''swordfish'']"]
  by (auto simp: utf8_start_def is_continuation_def)

text \<open>
  A secret that has begun to arrive is held back: when the buffer ends with a proper
  prefix of a known secret, of two bytes for a secret of up to four bytes and of three for a
  longer one, the push keeps this prefix in the buffer (until 64 KiB are exceeded).
\<close>
theorem partial_secret_is_held:
  assumes "stream_input_ok engine config secrets" and "s \<in> set secrets"
    and "i < length s" and "is_char_boundary s i" and "minimum_partial_match_bytes s \<le> i"
    and "ends_with (sb_pending buf @ chunk) (take i s)"
    and "length (sb_pending buf @ chunk) \<le> MAX_BUFFER_BYTES"
  shows "\<exists>out rest. push_chunk engine config secrets chunk buf = Some (out, rest)
    \<and> ends_with (sb_pending rest) (take i s)"
proof -
  let ?input = "sb_pending buf @ chunk"
  have "0 < i" using assms(5) by (simp add: minimum_partial_match_bytes_def split: if_splits)
  with partial_literal_holds[of i s ?input] assms obtain p where
    p: "partial_literal ?input s = Some p" "p \<le> length ?input - i" by auto
  have "Some p \<in> set (retain_candidates engine config ?input secrets)"
    using p(1) secret_candidate[OF assms(2)] by metis
  then obtain d where d: "partial_redaction_start engine config ?input secrets = Some d" "d \<le> p"
    using partial_redaction_start_le by blast
  from drain_outcome[OF assms(1), of "buf\<lparr>sb_pending := ?input\<rparr>" False] obtain raw rest where
    r: "?input = raw @ rest" "length raw = drain_to engine config False secrets ?input"
      "drain engine config False secrets (buf\<lparr>sb_pending := ?input\<rparr>)
       = Some (if raw = [] then None else Some (redact_text engine config raw secrets),
               buf\<lparr>sb_pending := rest\<rparr>)" by auto
  have "length raw \<le> length ?input - i" using r(2) d p(2) by (simp add: drain_to_def)
  moreover have "i \<le> length ?input" using assms(3,6) by (simp add: ends_with_def)
  moreover have "length ?input = length raw + length rest" using r(1) by simp
  ultimately have "length (take i s) \<le> length rest" using assms(3) by simp
  moreover have "suffix (take i s) (raw @ rest)"
    using assms(6) unfolding ends_with_suffix r(1) .
  ultimately have "ends_with rest (take i s)"
    unfolding ends_with_suffix by (meson suffix_appendI suffix_length_suffix suffix_order.refl)
  moreover have "push_chunk engine config secrets chunk buf
       = Some (if raw = [] then None else Some (redact_text engine config raw secrets),
               buf\<lparr>sb_pending := rest\<rparr>)"
    using r(3) assms(7) by (simp add: push_chunk_def Let_def)
  ultimately show ?thesis by simp
qed

theorem partial_secret_is_held_witness:
  "\<exists>out rest. push_chunk never_engine runtime_default [''swordfish''] ''pass swo'' buffer_new = Some (out, rest)
    \<and> ends_with (sb_pending rest) ''swo''"
  using partial_secret_is_held[of never_engine runtime_default "[''swordfish'']" "''swordfish''" 3
      buffer_new "''pass swo''"] never_engine_ok[of "[''swordfish'']"]
  by (simp add: utf8_start_def is_continuation_def is_char_boundary_def minimum_partial_match_bytes_def
      ends_with_def buffer_new_def MAX_BUFFER_BYTES_def)

lemma drain_amount:
  assumes "stream_input_ok engine config secrets" and "length (sb_pending buf @ chunk) \<le> MAX_BUFFER_BYTES"
    and "drain_to engine config False secrets (sb_pending buf @ chunk) = n" and "0 < n"
  shows "push_chunk engine config secrets chunk buf
    = Some (Some (redact_text engine config (take n (sb_pending buf @ chunk)) secrets),
            buf\<lparr>sb_pending := drop n (sb_pending buf @ chunk)\<rparr>)"
proof -
  have "n \<le> length (sb_pending buf @ chunk)" using assms(3) drain_to_le by blast
  then have "sb_pending buf @ chunk \<noteq> []" using assms(4) by auto
  moreover have "is_char_boundary (sb_pending buf @ chunk) n"
    using drain_to_boundary[OF assms(1)] assms(3) by blast
  ultimately show ?thesis using assms by (simp add: push_chunk_def drain_def Let_def)
qed

text \<open>
  In a long buffer a complete secret can be cut in two: when nothing is held back and
  the buffer exceeds 8 KiB, everything but the last 8192 bytes is handed out, also when the cut
  falls inside a secret that is complete. The two parts are redacted apart, where neither is
  the secret.
\<close>
theorem long_buffer_cuts_secret:
  assumes "stream_input_ok engine config secrets" and "sb_pending buf @ chunk = x @ s @ y"
    and "partial_redaction_start engine config (x @ s @ y) secrets = None"
    and "length (x @ s @ y) \<le> MAX_BUFFER_BYTES"
    and "length y < STREAM_REDACTION_TAIL_BYTES" and "STREAM_REDACTION_TAIL_BYTES < length (s @ y)"
    and "is_char_boundary (x @ s @ y) (length (x @ s @ y) - STREAM_REDACTION_TAIL_BYTES)"
  shows "\<exists>s1 s2. s = s1 @ s2 \<and> s1 \<noteq> [] \<and> s2 \<noteq> []
    \<and> push_chunk engine config secrets chunk buf
        = Some (Some (redact_text engine config (x @ s1) secrets), buf\<lparr>sb_pending := s2 @ y\<rparr>)"
proof -
  let ?k = "length (s @ y) - STREAM_REDACTION_TAIL_BYTES"
  let ?n = "length x + ?k"
  have len: "length (x @ s @ y) - STREAM_REDACTION_TAIL_BYTES = ?n" using assms(6) by simp
  have "boundary_at_or_before (x @ s @ y) ?n = ?n"
    using assms(7) len by (subst boundary_at_or_before.simps) simp
  then have n: "drain_to engine config False secrets (sb_pending buf @ chunk) = ?n"
    using assms(2,3,6) len by (simp add: drain_to_def drain_to_retained_tail_def)
  have k: "0 < ?k" "?k < length s" using assms(5,6) by auto
  with drain_amount[OF assms(1) _ n] assms(2,4)
  have "push_chunk engine config secrets chunk buf
        = Some (Some (redact_text engine config (x @ take ?k s) secrets),
            buf\<lparr>sb_pending := drop ?k s @ y\<rparr>)" by simp
  then show ?thesis using k by (intro exI[of _ "take ?k s"] exI[of _ "drop ?k s"]) auto
qed

theorem long_buffer_cuts_secret_witness:
  "\<exists>s1 s2. ''hunter2'' = s1 @ s2 \<and> s1 \<noteq> [] \<and> s2 \<noteq> []
    \<and> push_chunk never_engine runtime_default [''hunter2''] (''hunter2'' @ replicate 8190 CHR ''x'') buffer_new
        = Some (Some (redact_text never_engine runtime_default s1 [''hunter2'']),
                \<lparr>sb_pending = s2 @ replicate 8190 CHR ''x''\<rparr>)"
proof -
  let ?y = "replicate 8190 CHR ''x''"
  have "last (''hunter2'' @ ?y) = CHR ''x''" by simp
  then have "partial_literal (''hunter2'' @ ?y) ''hunter2'' = None"
    by (intro partial_literal_needs_last) simp
  then have "partial_redaction_start never_engine runtime_default ([] @ ''hunter2'' @ ?y) [''hunter2''] = None"
    by (subst quiet_partial_redaction_start) simp_all
  moreover have "is_char_boundary ([] @ ''hunter2'' @ ?y) (length ([] @ ''hunter2'' @ ?y) - STREAM_REDACTION_TAIL_BYTES)"
    by (simp add: is_char_boundary_def is_continuation_def STREAM_REDACTION_TAIL_BYTES_def)
  moreover have "length ?y < STREAM_REDACTION_TAIL_BYTES" "STREAM_REDACTION_TAIL_BYTES < length (''hunter2'' @ ?y)"
    "length ([] @ ''hunter2'' @ ?y) \<le> MAX_BUFFER_BYTES"
    by (simp_all add: STREAM_REDACTION_TAIL_BYTES_def MAX_BUFFER_BYTES_def)
  moreover have "stream_input_ok never_engine runtime_default [''hunter2'']"
    by (rule never_engine_ok) (simp add: utf8_start_def is_continuation_def)
  ultimately show ?thesis
    using long_buffer_cuts_secret[of never_engine runtime_default "[''hunter2'']" buffer_new
        "''hunter2'' @ ?y" "[]" "''hunter2''" ?y]
    by (simp add: buffer_new_def)
qed

text \<open>
  A complete secret at the end of the buffer is cut when its own end looks like its
  beginning: if a proper prefix of the secret, long enough to be held, is also its suffix, then
  pushing the secret hands out a part of it that is not the secret, and keeps the rest (unless
  something holds it back from its first byte).
\<close>
theorem self_overlapping_secret_is_cut:
  assumes "stream_input_ok engine config secrets" and "s \<in> set secrets"
    and "length s \<le> STREAM_REDACTION_TAIL_BYTES"
    and "i < length s" and "is_char_boundary s i" and "minimum_partial_match_bytes s \<le> i"
    and "ends_with s (take i s)"
    and "partial_redaction_start engine config s secrets \<noteq> Some 0"
  shows "\<exists>d. 0 < d \<and> d < length s
    \<and> push_chunk engine config secrets s buffer_new
        = Some (Some (redact_text engine config (take d s) secrets), \<lparr>sb_pending = drop d s\<rparr>)"
proof -
  have "0 < i" using assms(6) by (simp add: minimum_partial_match_bytes_def split: if_splits)
  with partial_literal_holds[of i s s] assms obtain p where
    p: "partial_literal s s = Some p" "p \<le> length s - i" by auto
  have "Some p \<in> set (retain_candidates engine config s secrets)"
    using p(1) secret_candidate[OF assms(2)] by metis
  then obtain d where d: "partial_redaction_start engine config s secrets = Some d" "d \<le> p"
    using partial_redaction_start_le by blast
  have d': "0 < d" "d < length s" using d p(2) \<open>0 < i\<close> assms(4,8) by auto
  have "drain_to engine config False secrets (sb_pending buffer_new @ s) = d"
    using d(1) d' assms(3) by (simp add: drain_to_def drain_to_retained_tail_def buffer_new_def)
  moreover have "length (sb_pending buffer_new @ s) \<le> MAX_BUFFER_BYTES"
    using assms(3) by (simp add: buffer_new_def MAX_BUFFER_BYTES_def STREAM_REDACTION_TAIL_BYTES_def)
  ultimately show ?thesis using drain_amount[OF assms(1), of buffer_new s d] d'
    by (auto simp: buffer_new_def)
qed

theorem self_overlapping_secret_is_cut_witness:
  "\<exists>d. 0 < d \<and> d < length ''passpass''
    \<and> push_chunk never_engine runtime_default [''passpass''] ''passpass'' buffer_new
        = Some (Some (redact_text never_engine runtime_default (take d ''passpass'') [''passpass'']),
                \<lparr>sb_pending = drop d ''passpass''\<rparr>)"
proof -
  have "partial_literal ''passpass'' ''passpass'' = Some 4"
    by (simp add: partial_literal_def partial_literal_start_def minimum_partial_match_bytes_def
        char_indices_def is_char_boundary_def is_continuation_def ends_with_def upt_rec)
  then have "partial_redaction_start never_engine runtime_default ''passpass'' [''passpass''] \<noteq> Some 0"
    by (subst quiet_partial_redaction_start) simp_all
  moreover have "stream_input_ok never_engine runtime_default [''passpass'']"
    by (rule never_engine_ok) (simp add: utf8_start_def is_continuation_def)
  ultimately show ?thesis
    using self_overlapping_secret_is_cut[of never_engine runtime_default "[''passpass'']" "''passpass''" 4]
    by (simp add: STREAM_REDACTION_TAIL_BYTES_def is_char_boundary_def is_continuation_def
        minimum_partial_match_bytes_def ends_with_def)
qed

text \<open>
  A configured extra pattern stalls the stream: its matches are searched anywhere in the
  buffer and also held when they are complete, so after a text it matches at the start nothing
  is handed out until 64 KiB are buffered or the stream ends.
\<close>
theorem extra_pattern_stalls_stream:
  assumes "stream_input_ok engine config secrets" and "re \<in> set (rt_extra_patterns config)"
    and "\<forall>later. re_find re (m @ later) = Some 0"
    and "length (m @ concat chunks) \<le> MAX_BUFFER_BYTES"
  shows "stream_run engine config secrets chunks \<lparr>sb_pending = m\<rparr>
    = Some ([], \<lparr>sb_pending = m @ concat chunks\<rparr>)"
  using assms(3,4)
proof (induction chunks arbitrary: m)
  case (Cons chunk chunks)
  have "re_find re (m @ chunk) = Some 0" using Cons.prems(1) by blast
  then have "Some 0 \<in> set (retain_candidates engine config (m @ chunk) secrets)"
    using extra_candidate[OF assms(2)] by metis
  then have "partial_redaction_start engine config (m @ chunk) secrets = Some 0"
    using partial_redaction_start_le by fastforce
  then have "push_chunk engine config secrets chunk \<lparr>sb_pending = m\<rparr>
      = Some (None, \<lparr>sb_pending = m @ chunk\<rparr>)"
    using Cons.prems(2) by (simp add: push_chunk_def drain_def drain_to_def Let_def)
  moreover have "\<forall>later. re_find re ((m @ chunk) @ later) = Some 0" using Cons.prems(1) by simp
  ultimately show ?case using Cons.IH[of "m @ chunk"] Cons.prems(2) by simp
qed simp

lemma literal_regex_boundary:
  assumes "re_find (literal_regex w) input = Some p" "w \<noteq> []" "utf8_start w"
  shows "is_char_boundary input p"
  using assms str_find_Some[of input w p] by (intro occurrence_boundary) (auto simp: literal_regex_def)

definition one_extra_pattern :: "string \<Rightarrow> runtime_redaction_config" where
  "one_extra_pattern p = \<lparr>rt_extra_patterns = [literal_regex p], rt_enable_entropy_guard = False\<rparr>"

lemma one_extra_pattern_ok: "stream_input_ok never_engine (one_extra_pattern ''corp'') []"
proof -
  have "set (stream_regexes never_engine (one_extra_pattern ''corp''))
     \<subseteq> set (stream_regexes never_engine runtime_default) \<union> {literal_regex ''corp''}"
    by (auto simp: stream_regexes_def partial_redaction_regexes_def one_extra_pattern_def runtime_default_def)
  moreover have "re_find (literal_regex ''corp'') input = Some p \<Longrightarrow> is_char_boundary input p" for input p
    by (erule literal_regex_boundary) (simp_all add: utf8_start_def is_continuation_def)
  ultimately show ?thesis using never_engine_find by (fastforce simp: stream_input_ok_def)
qed

theorem extra_pattern_stalls_stream_witness:
  "stream_run never_engine (one_extra_pattern ''corp'') [] ['' log line 1'', '' log line 2''] \<lparr>sb_pending = ''corp''\<rparr>
    = Some ([], \<lparr>sb_pending = ''corp log line 1 log line 2''\<rparr>)"
  using extra_pattern_stalls_stream[OF one_extra_pattern_ok, of "literal_regex ''corp''" "''corp''"
      "['' log line 1'', '' log line 2'']"]
  by (simp add: one_extra_pattern_def literal_regex_def str_find.simps starts_with_def MAX_BUFFER_BYTES_def)

text \<open>The entries of a JSON value under sensitive keys are masked, at every depth
  (\<open>json_masked\<close>); its other texts in order (\<open>json_texts\<close>), and everything else of it
  (\<open>json_shape\<close>: keys, order, nesting, numbers and booleans that are not under a sensitive key).\<close>

fun json_masked :: "json \<Rightarrow> bool" where
  "json_masked (JArray items) = list_all json_masked items"
| "json_masked (JObject entries) =
     list_all (\<lambda>(key, v). if is_sensitive_json_key key then v = JString REDACTED else json_masked v) entries"
| "json_masked _ = True"

fun json_texts :: "json \<Rightarrow> string list" where
  "json_texts (JString text) = [text]"
| "json_texts (JArray items) = concat (map json_texts items)"
| "json_texts (JObject entries) =
     concat (map (\<lambda>(key, v). if is_sensitive_json_key key then [] else json_texts v) entries)"
| "json_texts _ = []"

fun json_shape :: "json \<Rightarrow> json" where
  "json_shape (JString text) = JString []"
| "json_shape (JArray items) = JArray (map json_shape items)"
| "json_shape (JObject entries) =
     JObject (map (\<lambda>(key, v). (key, if is_sensitive_json_key key then JNull else json_shape v)) entries)"
| "json_shape v = v"

text \<open>
  Redacting a JSON value masks every entry under a sensitive key at every depth,
  redacts every other text in it, and changes nothing else.
\<close>
theorem json_redaction_exact:
  "json_masked (redact_json_value engine config secrets v)
   \<and> json_texts (redact_json_value engine config secrets v)
       = map (\<lambda>text. redact_text engine config text secrets) (json_texts v)
   \<and> json_shape (redact_json_value engine config secrets v) = json_shape v"
proof (induction v)
  case (JArray items)
  then show ?case
    by (simp add: list_all_iff map_concat comp_def cong: map_cong)
next
  case (JObject entries)
  have IH: "json_masked (redact_json_value engine config secrets w)"
    "json_texts (redact_json_value engine config secrets w)
       = map (\<lambda>text. redact_text engine config text secrets) (json_texts w)"
    "json_shape (redact_json_value engine config secrets w) = json_shape w"
    if "(key, w) \<in> set entries" for key w
    using JObject[of "(key, w)" w] that by simp_all
  then show ?case
    by (auto simp: list_all_iff map_concat comp_def case_prod_unfold intro!: arg_cong[where f = concat])
qed simp_all

lemma keep_first_set: "set (keep_first seen ss) = set ss - seen"
  by (induction seen ss rule: keep_first.induct) auto

lemma keep_first_distinct: "distinct (keep_first seen ss)"
  by (induction seen ss rule: keep_first.induct) (auto simp: keep_first_set)

lemma sorted_wrt_distinct: "sorted_wrt P xs \<Longrightarrow> distinct xs \<Longrightarrow> sorted_wrt (\<lambda>a b. P a b \<and> a \<noteq> b) xs"
  by (induction xs) auto

lemma secret_rank_not_part: "secret_rank a \<le> secret_rank b \<Longrightarrow> a \<noteq> b \<Longrightarrow> \<not> sublist a b"
  by (auto simp: secret_rank_def less_eq_prod_def sublist_def)

text \<open>
  The secrets to replace are exactly the given non-empty ones, once each, and in an
  order in which no secret comes before another that contains it: the replacement of a shorter
  secret never breaks a longer one apart.
\<close>
theorem normalized_secrets_order:
  "set (normalize_secrets secrets) = set secrets - {[]}
   \<and> distinct (normalize_secrets secrets)
   \<and> sorted_wrt (\<lambda>a b. \<not> sublist a b) (normalize_secrets secrets)"
proof -
  have d: "distinct (normalize_secrets secrets)"
    by (simp add: normalize_secrets_def keep_first_distinct)
  have "sorted_wrt (\<lambda>a b. secret_rank a \<le> secret_rank b) (normalize_secrets secrets)"
    unfolding normalize_secrets_def using sorted_sort_key[of secret_rank] by (simp add: sorted_map)
  from sorted_wrt_distinct[OF this d] have "sorted_wrt (\<lambda>a b. \<not> sublist a b) (normalize_secrets secrets)"
    by (rule sorted_wrt_mono_rel[rotated]) (use secret_rank_not_part in blast)
  then show ?thesis using d by (auto simp: normalize_secrets_def keep_first_set)
qed

end
