(* ===== verification/Remote_Auth.thy ===== *)
theory Remote_Auth
  imports Assoc
begin

text \<open>
  Authentication of the remote server (\<open>crates/pnevma-remote/src\<close>): the token store
  (\<open>auth.rs\<close>), the login and revocation handlers with the login lockout
  (\<open>routes/auth_routes.rs\<close>), the bearer-token middleware (\<open>middleware/auth_token.rs\<close>,
  \<open>middleware/audit.rs\<close>), the per-address limiters (\<open>middleware/rate_limit.rs\<close>) and the
  Tailscale guard (\<open>tailscale.rs\<close>, \<open>middleware/tailscale_guard.rs\<close>).

  Hashing (SHA-256, hexadecimal encoding, Argon2id) and random bytes come from third-party
  crates and are parameters: a record \<open>crypto\<close>, and the bytes as an argument of the operation.
  Clocks are arguments. The concurrent maps are association lists with one entry per key; each
  operation on them is one step.
\<close>

section \<open>The token store\<close>

definition SHARED_PASSWORD_SUBJECT :: string where
  "SHARED_PASSWORD_SUBJECT = ''shared-password''"

datatype token_role = ReadOnly | Operator

record token_audit_metadata =
  tam_subject :: string
  tam_token_id :: string
  tam_role :: token_role

record issued_token =
  it_token :: string
  it_expires_at :: time
  it_audit :: token_audit_metadata

record token_entry =
  te_created_at :: time
  te_ip :: string
  te_subject :: string
  te_token_id :: string
  te_role :: token_role

record audit_event =
  ae_event :: string
  ae_token_id_hash :: string
  ae_subject :: string
  ae_ip :: string
  ae_role :: token_role

record token_store =
  tokens :: "(string \<times> token_entry) list"
  password_hash :: string
  ttl_hours :: u64
  audit_db :: "audit_event list option"

record crypto =
  sha256_digest :: "string \<Rightarrow> string"
  hex_encode :: "string \<Rightarrow> string"
  argon2_hash :: "string \<Rightarrow> string \<Rightarrow> string + string"
  phc_valid :: "string \<Rightarrow> bool"
  argon2_verify :: "string \<Rightarrow> string \<Rightarrow> bool"

definition token_store_new :: "crypto \<Rightarrow> string \<Rightarrow> string \<Rightarrow> u64 \<Rightarrow> string + token_store" where
  "token_store_new cr salt password ttl =
     (case argon2_hash cr salt password of
        Err e \<Rightarrow> Err (''failed to hash password: '' @ e)
      | Ok h \<Rightarrow> Ok \<lparr>tokens = [], password_hash = h, ttl_hours = ttl, audit_db = None\<rparr>)"

text \<open>\<open>OnceCell::set\<close>: only the first call has an effect.\<close>

definition set_audit_db :: "token_store \<Rightarrow> token_store" where
  "set_audit_db store = (case audit_db store of None \<Rightarrow> store\<lparr>audit_db := Some []\<rparr> | Some _ \<Rightarrow> store)"

text \<open>\<open>log_audit_event\<close> spawns an insert whose failure is only logged: the events it asks for,
  in the order of the calls.\<close>

definition log_audit_event ::
  "string \<Rightarrow> string \<Rightarrow> string \<Rightarrow> string \<Rightarrow> token_role \<Rightarrow> token_store \<Rightarrow> token_store"
where
  "log_audit_event event token_id_hash subject ip role store =
     store\<lparr>audit_db := map_option (\<lambda>log. log @ [\<lparr>ae_event = event, ae_token_id_hash = token_id_hash,
        ae_subject = subject, ae_ip = ip, ae_role = role\<rparr>]) (audit_db store)\<rparr>"

definition token_lookup_key :: "crypto \<Rightarrow> string \<Rightarrow> string" where
  "token_lookup_key cr token = hex_encode cr (sha256_digest cr token)"

definition token_identifier :: "string \<Rightarrow> string" where
  "token_identifier token_key = take 12 token_key"

text \<open>\<open>self.ttl_hours as i64 * 3600\<close>: the cast keeps the bits and the product wraps (a debug
  build panics instead). An age in seconds never reaches the other end of the range.\<close>

definition ttl_secs :: "token_store \<Rightarrow> int" where
  "ttl_secs store = sint (ttl_hours store * 3600)"

definition token_expires_at :: "time \<Rightarrow> token_store \<Rightarrow> time" where
  "token_expires_at now store = now + sint (ttl_hours store) * 3600 * nanos_per_sec"

definition create_token ::
  "crypto \<Rightarrow> time \<Rightarrow> string \<Rightarrow> string \<Rightarrow> string \<Rightarrow> token_role \<Rightarrow> token_store
     \<Rightarrow> issued_token \<times> token_store"
where
  "create_token cr now bytes ip subject role store =
    (let token = hex_encode cr bytes;
         token_hash = token_lookup_key cr token;
         token_id = token_identifier token_hash;
         entry = \<lparr>te_created_at = now, te_ip = ip, te_subject = subject, te_token_id = token_id, te_role = role\<rparr>;
         store = store\<lparr>tokens := AList.update token_hash entry (tokens store)\<rparr>;
         store = log_audit_event ''create'' token_id subject ip role store
     in (\<lparr>it_token = token, it_expires_at = token_expires_at now store,
          it_audit = \<lparr>tam_subject = subject, tam_token_id = token_id, tam_role = role\<rparr>\<rparr>, store))"

definition entry_metadata :: "token_entry \<Rightarrow> token_audit_metadata" where
  "entry_metadata e = \<lparr>tam_subject = te_subject e, tam_token_id = te_token_id e, tam_role = te_role e\<rparr>"

definition validate_token ::
  "crypto \<Rightarrow> time \<Rightarrow> string \<Rightarrow> string \<Rightarrow> token_store \<Rightarrow> token_audit_metadata option \<times> token_store"
where
  "validate_token cr now token request_ip store =
    (let token_key = token_lookup_key cr token in
     case map_of (tokens store) token_key of
       Some entry \<Rightarrow>
         if num_seconds (now - te_created_at entry) \<ge> ttl_secs store
         then (None, log_audit_event ''validate_fail_expired'' (te_token_id entry) (te_subject entry)
                       request_ip (te_role entry) store)
         else if te_ip entry \<noteq> request_ip
         then (None, log_audit_event ''validate_fail_ip'' (te_token_id entry) (te_subject entry)
                       request_ip (te_role entry) store)
         else (Some (entry_metadata entry),
               log_audit_event ''validate_ok'' (te_token_id entry) (te_subject entry)
                 request_ip (te_role entry) store)
     | None \<Rightarrow> (None, log_audit_event ''validate_fail_unknown'' (token_identifier token_key) ''unknown''
                        request_ip ReadOnly store))"

definition validate_password :: "crypto \<Rightarrow> string \<Rightarrow> token_store \<Rightarrow> bool" where
  "validate_password cr password store \<longleftrightarrow>
     length password \<le> 128 \<and> phc_valid cr (password_hash store)
     \<and> argon2_verify cr (password_hash store) password"

definition count_event :: "string \<Rightarrow> nat \<Rightarrow> token_store \<Rightarrow> token_store" where
  "count_event event n store =
     (if n > 0 then log_audit_event event (''count:'' @ nat_str n) ''system'' [] ReadOnly store else store)"

definition cleanup_expired :: "time \<Rightarrow> token_store \<Rightarrow> token_store" where
  "cleanup_expired now store =
    (let kept = filter (\<lambda>(_, entry). num_seconds (now - te_created_at entry) < ttl_secs store) (tokens store)
     in count_event ''cleanup_expired'' (length (tokens store) - length kept) (store\<lparr>tokens := kept\<rparr>))"

definition revoke_token :: "crypto \<Rightarrow> string \<Rightarrow> token_store \<Rightarrow> token_audit_metadata option \<times> token_store" where
  "revoke_token cr token store =
    (let token_key = token_lookup_key cr token in
     case map_of (tokens store) token_key of
       None \<Rightarrow> (None, store)
     | Some entry \<Rightarrow>
         (Some (entry_metadata entry),
          log_audit_event ''revoke'' (te_token_id entry) (te_subject entry) [] (te_role entry)
            (store\<lparr>tokens := AList.delete token_key (tokens store)\<rparr>)))"

definition revoke_all_tokens :: "token_store \<Rightarrow> token_store" where
  "revoke_all_tokens store = count_event ''revoke_all'' (length (tokens store)) (store\<lparr>tokens := []\<rparr>)"

section \<open>The login lockout\<close>

datatype ip_addr = V4 "u8 \<times> u8 \<times> u8 \<times> u8" | V6 "u16 list"

definition LOCKOUT_THRESHOLD :: u32 where
  "LOCKOUT_THRESHOLD = 5"

definition MAX_LOCKOUT_MINUTES :: nat where
  "MAX_LOCKOUT_MINUTES = 15"

definition LOCKOUT_EVICT_AFTER_MINS :: nat where
  "LOCKOUT_EVICT_AFTER_MINS = 30"

type_synonym lockout_state = "(ip_addr \<times> (u32 \<times> time)) list"

text \<open>\<open>Instant::elapsed().as_secs()\<close>: whole seconds, zero for an instant in the future.\<close>

definition elapsed_secs :: "time \<Rightarrow> time \<Rightarrow> nat" where
  "elapsed_secs now since = nat ((now - since) div nanos_per_sec)"

definition lockout_secs :: "u32 \<Rightarrow> nat" where
  "lockout_secs fails = min (2 ^ unat (min (fails - LOCKOUT_THRESHOLD) 4) * 60) (MAX_LOCKOUT_MINUTES * 60)"

definition lockout_new :: lockout_state where
  "lockout_new = []"

definition check_locked :: "time \<Rightarrow> ip_addr \<Rightarrow> lockout_state \<Rightarrow> nat option" where
  "check_locked now ip attempts =
    (case map_of attempts ip of
       None \<Rightarrow> None
     | Some (fails, since) \<Rightarrow>
         if fails < LOCKOUT_THRESHOLD then None
         else if elapsed_secs now since < lockout_secs fails
              then Some (lockout_secs fails - elapsed_secs now since) else None)"

definition saturating_add_one :: "u32 \<Rightarrow> u32" where
  "saturating_add_one c = (if c = -1 then c else c + 1)"

definition check_and_record_failure :: "time \<Rightarrow> ip_addr \<Rightarrow> lockout_state \<Rightarrow> nat option \<times> lockout_state" where
  "check_and_record_failure now ip attempts =
    (let (count, since) = (case map_of attempts ip of None \<Rightarrow> (0, now) | Some e \<Rightarrow> e);
         count = (if elapsed_secs now since > LOCKOUT_EVICT_AFTER_MINS * 60 then 0 else count)
     in if count \<ge> LOCKOUT_THRESHOLD \<and> elapsed_secs now since < lockout_secs count
        then (Some (lockout_secs count - elapsed_secs now since), AList.update ip (count, since) attempts)
        else
          let count = (if count \<ge> LOCKOUT_THRESHOLD then 0 else count)
          in (None, AList.update ip (saturating_add_one count, now) attempts))"

definition record_success :: "ip_addr \<Rightarrow> lockout_state \<Rightarrow> lockout_state" where
  "record_success ip attempts = AList.delete ip attempts"

definition lockout_cleanup :: "time \<Rightarrow> lockout_state \<Rightarrow> lockout_state" where
  "lockout_cleanup now attempts =
     filter (\<lambda>(_, (_, since)). elapsed_secs now since < LOCKOUT_EVICT_AFTER_MINS * 60) attempts"

section \<open>The handlers\<close>

datatype auth_token_source = AuthorizationHeader | QueryParam

record audit_auth_context =
  ac_auth_event :: string
  ac_subject :: string
  ac_token_id :: "string option"
  ac_token_source :: "auth_token_source option"
  ac_role :: "token_role option"

definition token_issued_ctx :: "string \<Rightarrow> string \<Rightarrow> audit_auth_context" where
  "token_issued_ctx subject token_id = \<lparr>ac_auth_event = ''token_issued'', ac_subject = subject,
     ac_token_id = Some token_id, ac_token_source = None, ac_role = None\<rparr>"

definition token_revoked_ctx :: "string \<Rightarrow> string \<Rightarrow> audit_auth_context" where
  "token_revoked_ctx subject token_id = \<lparr>ac_auth_event = ''token_revoked'', ac_subject = subject,
     ac_token_id = Some token_id, ac_token_source = None, ac_role = None\<rparr>"

definition authenticated_request ::
  "string \<Rightarrow> string \<Rightarrow> auth_token_source \<Rightarrow> token_role \<Rightarrow> audit_auth_context"
where
  "authenticated_request subject token_id source role =
     \<lparr>ac_auth_event = ''authenticated_request'', ac_subject = subject, ac_token_id = Some token_id,
      ac_token_source = Some source, ac_role = Some role\<rparr>"

definition websocket_authenticated ::
  "string \<Rightarrow> string \<Rightarrow> auth_token_source \<Rightarrow> token_role \<Rightarrow> audit_auth_context"
where
  "websocket_authenticated subject token_id source role =
     \<lparr>ac_auth_event = ''websocket_authenticated'', ac_subject = subject, ac_token_id = Some token_id,
      ac_token_source = Some source, ac_role = Some role\<rparr>"

record auth_state =
  as_store :: token_store
  as_lockout :: lockout_state

record token_request =
  tr_password :: string
  tr_role :: "token_role option"

datatype login_response =
    TooManyRequests nat
  | Unauthorized
  | TokenIssued issued_token token_role audit_auth_context

text \<open>\<open>POST /api/auth/token\<close>. \<open>show_ip\<close> is the \<open>Display\<close> of addresses.\<close>

definition create_token_handler ::
  "crypto \<Rightarrow> (ip_addr \<Rightarrow> string) \<Rightarrow> time \<Rightarrow> string \<Rightarrow> ip_addr \<Rightarrow> token_request \<Rightarrow> auth_state
     \<Rightarrow> login_response \<times> auth_state"
where
  "create_token_handler cr show_ip now bytes ip body s =
    (if \<not> validate_password cr (tr_password body) (as_store s) then
       (case check_and_record_failure now ip (as_lockout s) of
          (Some retry_after, l) \<Rightarrow> (TooManyRequests retry_after, s\<lparr>as_lockout := l\<rparr>)
        | (None, l) \<Rightarrow> (Unauthorized, s\<lparr>as_lockout := l\<rparr>))
     else
       case check_locked now ip (as_lockout s) of
         Some retry_after \<Rightarrow> (TooManyRequests retry_after, s)
       | None \<Rightarrow>
           let l = record_success ip (as_lockout s);
               role = (case tr_role body of None \<Rightarrow> ReadOnly | Some r \<Rightarrow> r);
               (issued, store) = create_token cr now bytes (show_ip ip) SHARED_PASSWORD_SUBJECT role (as_store s)
           in (TokenIssued issued role
                 (token_issued_ctx (tam_subject (it_audit issued)) (tam_token_id (it_audit issued))),
               \<lparr>as_store = store, as_lockout = l\<rparr>))"

text \<open>A request as the handlers see it: the headers whose value is valid text.\<close>

record request =
  rq_authorization :: "string option"
  rq_upgrade :: "string option"
  rq_origin :: "string option"

datatype revoke_response = Revoked audit_auth_context | TokenNotFound | MissingBearer

definition bearer :: "request \<Rightarrow> string option" where
  "bearer req = Option.bind (rq_authorization req) (\<lambda>v. strip_prefix v ''Bearer '')"

definition revoke_token_handler :: "crypto \<Rightarrow> request \<Rightarrow> token_store \<Rightarrow> revoke_response \<times> token_store" where
  "revoke_token_handler cr req store =
    (case bearer req of
       Some t \<Rightarrow>
         (case revoke_token cr t store of
            (Some audit, store') \<Rightarrow> (Revoked (token_revoked_ctx (tam_subject audit) (tam_token_id audit)), store')
          | (None, store') \<Rightarrow> (TokenNotFound, store'))
     | None \<Rightarrow> (MissingBearer, store))"

definition is_websocket_upgrade :: "request \<Rightarrow> bool" where
  "is_websocket_upgrade req \<longleftrightarrow>
     to_ascii_lowercase (case rq_upgrade req of None \<Rightarrow> [] | Some v \<Rightarrow> v) = ''websocket''"

definition extract_token :: "request \<Rightarrow> string option \<Rightarrow> (string \<times> auth_token_source) option" where
  "extract_token req query_token =
    (case bearer req of
       Some token \<Rightarrow> Some (token, AuthorizationHeader)
     | None \<Rightarrow>
         (case query_token of
            Some t \<Rightarrow> if is_websocket_upgrade req then Some (t, QueryParam) else None
          | None \<Rightarrow> None))"

text \<open>The middleware: the context the inner handlers see, or \<open>None\<close> for 401.\<close>

definition auth_token ::
  "crypto \<Rightarrow> time \<Rightarrow> string \<Rightarrow> request \<Rightarrow> string option \<Rightarrow> token_store \<Rightarrow> audit_auth_context option \<times> token_store"
where
  "auth_token cr now request_ip req query_token store =
    (case extract_token req query_token of
       None \<Rightarrow> (None, store)
     | Some (t, source) \<Rightarrow>
         (case validate_token cr now t request_ip store of
            (None, store') \<Rightarrow> (None, store')
          | (Some audit, store') \<Rightarrow>
              (Some ((if is_websocket_upgrade req then websocket_authenticated else authenticated_request)
                       (tam_subject audit) (tam_token_id audit) source (tam_role audit)), store')))"

section \<open>Address filter and rate limiters\<close>

definition in_tailscale_v4 :: "u8 \<Rightarrow> u8 \<Rightarrow> bool" where
  "in_tailscale_v4 a b \<longleftrightarrow> a = 100 \<and> 64 \<le> b \<and> b \<le> 127"

text \<open>\<open>Ipv6Addr::to_ipv4_mapped\<close>: \<open>::ffff:a.b.c.d\<close>.\<close>

definition to_ipv4_mapped :: "u16 list \<Rightarrow> (u8 \<times> u8 \<times> u8 \<times> u8) option" where
  "to_ipv4_mapped segs =
     (if length segs = 8 \<and> take 6 segs = [0, 0, 0, 0, 0, 0xFFFF]
      then Some (ucast (drop_bit 8 (segs ! 6)), ucast (segs ! 6), ucast (drop_bit 8 (segs ! 7)), ucast (segs ! 7))
      else None)"

fun is_tailscale_ip :: "ip_addr \<Rightarrow> bool" where
  "is_tailscale_ip (V4 (a, b, _, _)) = in_tailscale_v4 a b"
| "is_tailscale_ip (V6 segs) =
     (case to_ipv4_mapped segs of
        Some (a, b, _, _) \<Rightarrow> in_tailscale_v4 a b
      | None \<Rightarrow> take 3 segs = [0xfd7a, 0x115c, 0xa1e0])"

text \<open>The guard lets the request through (\<open>True\<close>) or answers 403.\<close>

definition tailscale_guard :: "ip_addr \<Rightarrow> bool" where
  "tailscale_guard addr = is_tailscale_ip addr"

text \<open>The token-bucket limiter is the \<open>governor\<close> crate: a fresh limiter \<open>fresh\<close> for the quota and a
  \<open>check\<close> that answers and updates are parameters.\<close>

record 'l rate_limit_state =
  limiters :: "(ip_addr \<times> ('l \<times> time)) list"
  fresh_limiter :: 'l

definition rate_limit_new :: "(u32 \<Rightarrow> 'l) \<Rightarrow> u32 \<Rightarrow> 'l rate_limit_state" where
  "rate_limit_new direct requests_per_minute =
     \<lparr>limiters = [], fresh_limiter = direct (max requests_per_minute 1)\<rparr>"

definition rate_limit ::
  "('l \<Rightarrow> time \<Rightarrow> bool \<times> 'l) \<Rightarrow> time \<Rightarrow> ip_addr \<Rightarrow> 'l rate_limit_state \<Rightarrow> bool \<times> 'l rate_limit_state"
where
  "rate_limit check now ip s =
    (let l = (case map_of (limiters s) ip of Some (l, _) \<Rightarrow> l | None \<Rightarrow> fresh_limiter s);
         (allowed, l') = check l now
     in (allowed, s\<lparr>limiters := AList.update ip (l', now) (limiters s)\<rparr>))"

definition rate_limit_cleanup :: "time \<Rightarrow> 'l rate_limit_state \<Rightarrow> 'l rate_limit_state" where
  "rate_limit_cleanup now s =
     s\<lparr>limiters := filter (\<lambda>(_, (_, last_seen)). last_seen > now - 600 * nanos_per_sec) (limiters s)\<rparr>"

section \<open>What the operations keep\<close>

lemma log_audit_event_keeps [simp]:
  "tokens (log_audit_event a b c d e store) = tokens store"
  "password_hash (log_audit_event a b c d e store) = password_hash store"
  "ttl_hours (log_audit_event a b c d e store) = ttl_hours store"
  by (simp_all add: log_audit_event_def)

lemma count_event_keeps [simp]:
  "tokens (count_event a n store) = tokens store"
  "password_hash (count_event a n store) = password_hash store"
  "ttl_hours (count_event a n store) = ttl_hours store"
  by (simp_all add: count_event_def)

text \<open>Everything that happens to the state of the server, as one event each.\<close>

datatype auth_event =
    Login time string ip_addr token_request
  | UseToken time string request "string option"
  | Revoke request
  | RevokeAll
  | Cleanup time

fun auth_step :: "crypto \<Rightarrow> (ip_addr \<Rightarrow> string) \<Rightarrow> auth_event \<Rightarrow> auth_state \<Rightarrow> auth_state" where
  "auth_step cr show_ip (Login now bytes ip body) s = snd (create_token_handler cr show_ip now bytes ip body s)"
| "auth_step cr show_ip (UseToken now ip req q) s = s\<lparr>as_store := snd (auth_token cr now ip req q (as_store s))\<rparr>"
| "auth_step cr show_ip (Revoke req) s = s\<lparr>as_store := snd (revoke_token_handler cr req (as_store s))\<rparr>"
| "auth_step cr show_ip RevokeAll s = s\<lparr>as_store := revoke_all_tokens (as_store s)\<rparr>"
| "auth_step cr show_ip (Cleanup now) s =
     \<lparr>as_store = cleanup_expired now (as_store s), as_lockout = lockout_cleanup now (as_lockout s)\<rparr>"

abbreviation auth_run :: "crypto \<Rightarrow> (ip_addr \<Rightarrow> string) \<Rightarrow> auth_event list \<Rightarrow> auth_state \<Rightarrow> auth_state" where
  "auth_run cr show_ip \<equiv> fold (auth_step cr show_ip)"

definition revokes :: "crypto \<Rightarrow> string \<Rightarrow> auth_event \<Rightarrow> bool" where
  "revokes cr key ev =
    (case ev of
       Revoke req \<Rightarrow> (case bearer req of None \<Rightarrow> False | Some t \<Rightarrow> token_lookup_key cr t = key)
     | RevokeAll \<Rightarrow> True
     | _ \<Rightarrow> False)"

lemma validate_token_keeps [simp]:
  "tokens (snd (validate_token cr now t ip store)) = tokens store"
  "password_hash (snd (validate_token cr now t ip store)) = password_hash store"
  "ttl_hours (snd (validate_token cr now t ip store)) = ttl_hours store"
  by (auto simp: validate_token_def Let_def split: option.splits)

lemma validate_token_keepsD:
  "validate_token cr now t ip store = (r, store') \<Longrightarrow> tokens store' = tokens store
     \<and> password_hash store' = password_hash store \<and> ttl_hours store' = ttl_hours store"
  using validate_token_keeps[of cr now t ip store] by simp

lemma auth_token_keeps [simp]:
  "tokens (snd (auth_token cr now ip req q store)) = tokens store"
  "password_hash (snd (auth_token cr now ip req q store)) = password_hash store"
  "ttl_hours (snd (auth_token cr now ip req q store)) = ttl_hours store"
  by (auto simp: auth_token_def split: option.splits prod.splits dest: validate_token_keepsD)

lemma revoke_token_handler_tokens:
  "tokens (snd (revoke_token_handler cr req store))
     = (case bearer req of None \<Rightarrow> tokens store | Some t \<Rightarrow> AList.delete (token_lookup_key cr t) (tokens store))"
proof -
  have "map_of xs k = None \<Longrightarrow> AList.delete k xs = xs" for k :: string and xs :: "(string \<times> token_entry) list"
    by (simp add: map_of_eq_None_iff)
  then show ?thesis
    by (auto simp: revoke_token_handler_def revoke_token_def Let_def split: option.splits)
qed

lemma revoke_token_handler_keeps [simp]:
  "password_hash (snd (revoke_token_handler cr req store)) = password_hash store"
  "ttl_hours (snd (revoke_token_handler cr req store)) = ttl_hours store"
  by (auto simp: revoke_token_handler_def revoke_token_def Let_def split: option.splits)

definition login_role :: "token_request \<Rightarrow> token_role" where
  "login_role body = (case tr_role body of None \<Rightarrow> ReadOnly | Some r \<Rightarrow> r)"

lemma login_cases:
  assumes "create_token_handler cr show_ip now bytes ip body s = (r, s')"
  shows "password_hash (as_store s') = password_hash (as_store s) \<and> ttl_hours (as_store s') = ttl_hours (as_store s)
    \<and> (case r of
         TokenIssued issued role ctx \<Rightarrow>
           validate_password cr (tr_password body) (as_store s) \<and> role = login_role body
           \<and> it_token issued = hex_encode cr bytes
           \<and> tokens (as_store s') = AList.update (token_lookup_key cr (it_token issued))
               \<lparr>te_created_at = now, te_ip = show_ip ip, te_subject = SHARED_PASSWORD_SUBJECT,
                te_token_id = token_identifier (token_lookup_key cr (it_token issued)), te_role = role\<rparr>
               (tokens (as_store s))
       | _ \<Rightarrow> tokens (as_store s') = tokens (as_store s))"
  using assms
  by (auto simp: create_token_handler_def create_token_def login_role_def Let_def
      split: if_splits option.splits prod.splits)

lemma auth_step_keeps:
  "password_hash (as_store (auth_step cr show_ip ev s)) = password_hash (as_store s)
   \<and> ttl_hours (as_store (auth_step cr show_ip ev s)) = ttl_hours (as_store s)
   \<and> (distinct (map fst (tokens (as_store s))) \<longrightarrow> distinct (map fst (tokens (as_store (auth_step cr show_ip ev s)))))"
proof (cases ev)
  case (Login now bytes ip body)
  obtain r s' where "create_token_handler cr show_ip now bytes ip body s = (r, s')" by force
  from login_cases[OF this] this show ?thesis
    by (cases r) (simp_all add: Login AList.distinct_update)
next
  case (Revoke req)
  then show ?thesis by (simp add: revoke_token_handler_tokens AList.distinct_delete split: option.splits)
qed (simp_all add: revoke_all_tokens_def cleanup_expired_def Let_def distinct_map_filter)

lemma auth_run_keeps:
  "password_hash (as_store (auth_run cr show_ip es s)) = password_hash (as_store s)
   \<and> ttl_hours (as_store (auth_run cr show_ip es s)) = ttl_hours (as_store s)
   \<and> (distinct (map fst (tokens (as_store s))) \<longrightarrow> distinct (map fst (tokens (as_store (auth_run cr show_ip es s)))))"
proof (induction es rule: rev_induct)
  case (snoc ev es)
  then show ?case using auth_step_keeps[of cr show_ip ev "auth_run cr show_ip es s"] by simp
qed simp

text \<open>Every entry of the store was put there by a login that issued its token, and no event
  since then revokes it.\<close>

lemma entry_has_login:
  assumes "tokens (as_store s) = []"
    and "map_of (tokens (as_store (auth_run cr show_ip es s))) key = Some e"
  shows "\<exists>es1 bytes addr body es2 issued ctx.
      es = es1 @ Login (te_created_at e) bytes addr body # es2
    \<and> fst (create_token_handler cr show_ip (te_created_at e) bytes addr body (auth_run cr show_ip es1 s))
        = TokenIssued issued (te_role e) ctx
    \<and> token_lookup_key cr (it_token issued) = key \<and> show_ip addr = te_ip e
    \<and> te_role e = login_role body \<and> validate_password cr (tr_password body) (as_store s)
    \<and> list_all (\<lambda>ev. \<not> revokes cr key ev) es2"
  using assms(2)
proof (induction es rule: rev_induct)
  case (snoc ev es)
  let ?s = "auth_run cr show_ip es s"
  have keep: ?case if "map_of (tokens (as_store ?s)) key = Some e" and "\<not> revokes cr key ev"
  proof -
    from snoc.IH[OF that(1)] obtain es1 bytes addr body es2 issued ctx where
      "es = es1 @ Login (te_created_at e) bytes addr body # es2
        \<and> fst (create_token_handler cr show_ip (te_created_at e) bytes addr body (auth_run cr show_ip es1 s))
            = TokenIssued issued (te_role e) ctx
        \<and> token_lookup_key cr (it_token issued) = key \<and> show_ip addr = te_ip e
        \<and> te_role e = login_role body \<and> validate_password cr (tr_password body) (as_store s)
        \<and> list_all (\<lambda>ev. \<not> revokes cr key ev) es2" by blast
    with that(2) show ?case
      by (intro exI[of _ es1] exI[of _ bytes] exI[of _ addr] exI[of _ body] exI[of _ "es2 @ [ev]"]
          exI[of _ issued] exI[of _ ctx]) simp
  qed
  show ?case
  proof (cases ev)
    case (Login now bytes ip body)
    obtain r s' where h: "create_token_handler cr show_ip now bytes ip body ?s = (r, s')" by force
    note lc = login_cases[OF h]
    have store: "tokens (as_store (auth_run cr show_ip (es @ [ev]) s)) = tokens (as_store s')"
      using h Login by simp
    have norevoke: "\<not> revokes cr key ev" by (simp add: Login revokes_def)
    show ?thesis
    proof (cases "\<exists>issued role ctx. r = TokenIssued issued role ctx \<and> token_lookup_key cr (it_token issued) = key")
      case True
      then obtain issued role ctx where r: "r = TokenIssued issued role ctx"
        and k: "token_lookup_key cr (it_token issued) = key" by blast
      with lc store snoc.prems have e: "e = \<lparr>te_created_at = now, te_ip = show_ip ip,
           te_subject = SHARED_PASSWORD_SUBJECT, te_token_id = token_identifier key, te_role = role\<rparr>"
        by (simp add: update_conv')
      from lc r have "validate_password cr (tr_password body) (as_store ?s)" "role = login_role body" by simp_all
      then have "validate_password cr (tr_password body) (as_store s)"
        using auth_run_keeps[of cr show_ip es s] by (simp add: validate_password_def)
      with e h r k \<open>role = login_role body\<close> Login show ?thesis
        by (intro exI[of _ es] exI[of _ bytes] exI[of _ ip] exI[of _ body] exI[of _ "[]"]
            exI[of _ issued] exI[of _ ctx]) simp
    next
      case False
      with lc store snoc.prems have "map_of (tokens (as_store ?s)) key = Some e"
        by (cases r) (auto simp: update_conv' split: if_splits)
      then show ?thesis using norevoke by (rule keep)
    qed
  next
    case (Revoke req)
    with snoc.prems have "map_of (tokens (as_store ?s)) key = Some e \<and> \<not> revokes cr key ev"
      by (auto simp: revokes_def revoke_token_handler_tokens delete_conv' split: option.splits if_splits)
    then show ?thesis using keep by blast
  next
    case (Cleanup now)
    have "distinct (map fst (tokens (as_store ?s)))" using auth_run_keeps[of cr show_ip es s] assms(1) by simp
    then have "map_of (tokens (as_store ?s)) key = Some e"
      by (rule map_of_filter_distinct)
         (use snoc.prems Cleanup in \<open>simp add: cleanup_expired_def Let_def\<close>)
    then show ?thesis by (rule keep) (simp add: Cleanup revokes_def)
  qed (use snoc.prems keep in \<open>auto simp: revokes_def revoke_all_tokens_def\<close>)
qed (use assms(1) in simp)

section \<open>Properties\<close>

text \<open>
  C27. Access needs a login: whatever the interleaving of logins, requests, revocations and
  cleanups, a bearer token that validates was issued (or has the same digest as one issued) by
  an earlier login with a valid password from the same address, for the role it validates
  with, which is read-only unless the login asked for another; that login is younger than the
  lifetime, and the token was not revoked since.
\<close>
theorem access_needs_login:
  assumes "validate_token cr now token ip (as_store (auth_run cr show_ip es s)) = (Some audit, store')"
    and "tokens (as_store s) = []"
  shows "\<exists>es1 t0 bytes addr body es2 issued ctx.
      es = es1 @ Login t0 bytes addr body # es2
    \<and> fst (create_token_handler cr show_ip t0 bytes addr body (auth_run cr show_ip es1 s))
        = TokenIssued issued (tam_role audit) ctx
    \<and> token_lookup_key cr (it_token issued) = token_lookup_key cr token \<and> show_ip addr = ip
    \<and> tam_role audit = login_role body \<and> validate_password cr (tr_password body) (as_store s)
    \<and> num_seconds (now - t0) < ttl_secs (as_store s)
    \<and> list_all (\<lambda>ev. \<not> revokes cr (token_lookup_key cr token) ev) es2"
proof -
  let ?store = "as_store (auth_run cr show_ip es s)"
  from assms(1) obtain e where e: "map_of (tokens ?store) (token_lookup_key cr token) = Some e"
    "num_seconds (now - te_created_at e) < ttl_secs ?store" "te_ip e = ip" "audit = entry_metadata e"
    by (auto simp: validate_token_def Let_def split: option.splits if_splits)
  moreover have "ttl_secs ?store = ttl_secs (as_store s)"
    using auth_run_keeps[of cr show_ip es s] by (simp add: ttl_secs_def)
  ultimately show ?thesis
    using entry_has_login[OF assms(2) e(1)] by (simp add: entry_metadata_def) blast
qed

definition toy_crypto :: crypto where
  "toy_crypto = \<lparr>sha256_digest = rev, hex_encode = (\<lambda>s. s), argon2_hash = (\<lambda>salt p. Ok (salt @ p)),
     phc_valid = (\<lambda>_. True), argon2_verify = (\<lambda>h p. ends_with h p)\<rparr>"

definition toy_state :: auth_state where
  "toy_state = \<lparr>as_store = \<lparr>tokens = [], password_hash = ''salt-pw'', ttl_hours = 24, audit_db = None\<rparr>,
     as_lockout = []\<rparr>"

definition toy_login :: auth_event where
  "toy_login = Login 0 ''some-random-bytes'' (V4 (100, 64, 0, 1)) \<lparr>tr_password = ''pw'', tr_role = Some Operator\<rparr>"

theorem access_needs_login_witness:
  "\<exists>es1 t0 bytes addr body es2.
      [toy_login] = es1 @ Login t0 bytes addr body # es2 \<and> Operator = login_role body
    \<and> num_seconds (nanos_per_sec - t0) < 86400"
proof -
  have "\<exists>store'. validate_token toy_crypto nanos_per_sec ''some-random-bytes'' ''100.64.0.1''
      (as_store (auth_run toy_crypto (\<lambda>_. ''100.64.0.1'') [toy_login] toy_state))
    = (Some \<lparr>tam_subject = ''shared-password'', tam_token_id = take 12 (rev ''some-random-bytes''),
             tam_role = Operator\<rparr>, store')"
    by (simp add: toy_login_def toy_state_def toy_crypto_def create_token_handler_def validate_password_def
        ends_with_def check_locked_def create_token_def token_lookup_key_def token_identifier_def
        SHARED_PASSWORD_SUBJECT_def record_success_def validate_token_def ttl_secs_def num_seconds_def
        nanos_per_sec_def entry_metadata_def Let_def)
  then obtain store' where v: "validate_token toy_crypto nanos_per_sec ''some-random-bytes'' ''100.64.0.1''
      (as_store (auth_run toy_crypto (\<lambda>_. ''100.64.0.1'') [toy_login] toy_state))
    = (Some \<lparr>tam_subject = ''shared-password'', tam_token_id = take 12 (rev ''some-random-bytes''),
             tam_role = Operator\<rparr>, store')" by blast
  have ttl: "ttl_secs (as_store toy_state) = 86400" by (simp add: ttl_secs_def toy_state_def)
  have "tokens (as_store toy_state) = []" by (simp add: toy_state_def)
  from access_needs_login[OF v this] show ?thesis
    unfolding ttl token_audit_metadata.simps by blast
qed

text \<open>The operations on the lockout table, in any order and at any times.\<close>

datatype lockout_event = Failure time ip_addr | Success ip_addr | Evict time

fun lockout_step :: "lockout_event \<Rightarrow> lockout_state \<Rightarrow> lockout_state" where
  "lockout_step (Failure now ip) l = snd (check_and_record_failure now ip l)"
| "lockout_step (Success ip) l = record_success ip l"
| "lockout_step (Evict now) l = lockout_cleanup now l"

definition lockout_ok :: "lockout_state \<Rightarrow> bool" where
  "lockout_ok l \<longleftrightarrow> (\<forall>(ip, (n, t)) \<in> set l. n \<le> 5)"

lemma lockout_ok_lookup: "lockout_ok l \<Longrightarrow> map_of l ip = Some (n, t) \<Longrightarrow> n \<le> 5"
  by (auto simp: lockout_ok_def dest: map_of_SomeD)

lemma lockout_ok_update:
  "lockout_ok l \<Longrightarrow> n \<le> 5 \<Longrightarrow> lockout_ok (AList.update ip (n, t) l)"
  using set_AList_update[of ip "(n, t)" l] unfolding lockout_ok_def by fastforce

lemma lockout_secs_five: "n \<ge> 5 \<Longrightarrow> n \<le> 5 \<Longrightarrow> lockout_secs n = 60"
proof -
  assume "n \<ge> 5" "n \<le> 5"
  then have "n = 5" by simp
  then show ?thesis by (simp add: lockout_secs_def LOCKOUT_THRESHOLD_def MAX_LOCKOUT_MINUTES_def)
qed

lemma record_failure_ok:
  assumes "lockout_ok l"
  shows "lockout_ok (snd (check_and_record_failure now ip l))
    \<and> (case fst (check_and_record_failure now ip l) of None \<Rightarrow> True | Some r \<Rightarrow> r \<le> 60)"
proof -
  obtain n t where ct: "(case map_of l ip of None \<Rightarrow> (0, now) | Some e \<Rightarrow> e) = (n, t)" by force
  then have "n \<le> 5" using assms by (auto dest: lockout_ok_lookup split: option.splits)
  define c where "c = (if elapsed_secs now t > LOCKOUT_EVICT_AFTER_MINS * 60 then 0 else n)"
  have c: "c \<le> 5" using \<open>n \<le> 5\<close> by (simp add: c_def)
  have inc: "saturating_add_one d \<le> 5" if "d < 5" for d :: u32
    using that inc_le[OF that] by (cases "d = -1") (simp_all add: saturating_add_one_def)
  have "c \<ge> LOCKOUT_THRESHOLD \<Longrightarrow> lockout_secs c = 60"
    using c lockout_secs_five by (simp add: LOCKOUT_THRESHOLD_def)
  then show ?thesis
    using c inc[of c] inc[of 0] assms
    by (auto simp: check_and_record_failure_def ct c_def[symmetric] Let_def LOCKOUT_THRESHOLD_def not_le
        intro!: lockout_ok_update)
qed

text \<open>
  The lockout never escalates: whatever happens, no address has more than five recorded
  failures, because the failure after an expired lockout starts the count again; so the
  doubling of the lockout time, and its cap of 15 minutes, are never reached: every lockout
  lasts at most 60 seconds.
\<close>
theorem lockout_never_escalates:
  "lockout_ok (fold lockout_step es lockout_new)
   \<and> (case check_locked now ip (fold lockout_step es lockout_new) of None \<Rightarrow> True | Some r \<Rightarrow> r \<le> 60)
   \<and> (case fst (check_and_record_failure now ip (fold lockout_step es lockout_new)) of
        None \<Rightarrow> True | Some r \<Rightarrow> r \<le> 60)"
proof -
  have ok: "lockout_ok (fold lockout_step es lockout_new)"
  proof (induction es rule: rev_induct)
    case (snoc ev es)
    show ?case
    proof (cases ev)
      case (Failure t i)
      then show ?thesis using record_failure_ok[OF snoc] by simp
    next
      case (Success i)
      then show ?thesis using snoc set_AList_delete[of i "fold lockout_step es lockout_new"]
        by (auto simp: lockout_ok_def record_success_def)
    next
      case (Evict t)
      then show ?thesis using snoc by (auto simp: lockout_ok_def lockout_cleanup_def)
    qed
  qed (simp add: lockout_ok_def lockout_new_def)
  moreover have "r \<le> 60" if "check_locked now ip (fold lockout_step es lockout_new) = Some r" for r
  proof -
    from that obtain n t where n: "map_of (fold lockout_step es lockout_new) ip = Some (n, t)" "n \<ge> 5"
      and r: "r = lockout_secs n - elapsed_secs now t"
      by (auto simp: check_locked_def LOCKOUT_THRESHOLD_def not_less split: option.splits if_splits)
    from lockout_secs_five[OF n(2) lockout_ok_lookup[OF ok n(1)]] r show ?thesis by simp
  qed
  ultimately show ?thesis using record_failure_ok[OF ok, of now ip] by (auto split: option.splits)
qed

lemma check_locked_recorded:
  assumes "map_of l ip = Some (5, t)" and "elapsed_secs now t < 60"
  shows "check_locked now ip l = Some (60 - elapsed_secs now t)"
    and "check_and_record_failure now ip l = (Some (60 - elapsed_secs now t), AList.update ip (5, t) l)"
  using assms lockout_secs_five[of 5]
  by (simp_all add: check_locked_def check_and_record_failure_def LOCKOUT_THRESHOLD_def
      LOCKOUT_EVICT_AFTER_MINS_def)

text \<open>Failures of one address, one after the other.\<close>

fun record_failures :: "time list \<Rightarrow> ip_addr \<Rightarrow> lockout_state \<Rightarrow> lockout_state" where
  "record_failures [] ip l = l"
| "record_failures (t # ts) ip l = record_failures ts ip (snd (check_and_record_failure t ip l))"

fun close_together :: "time list \<Rightarrow> bool" where
  "close_together (a # b # ts) \<longleftrightarrow> elapsed_secs b a \<le> 1800 \<and> close_together (b # ts)"
| "close_together _ \<longleftrightarrow> True"

lemma record_failure_below:
  assumes "map_of l ip = Some (of_nat n, t)" and "n < 5" and "elapsed_secs now t \<le> 1800"
  shows "map_of (snd (check_and_record_failure now ip l)) ip = Some (of_nat (Suc n), now)"
proof -
  have [simp]: "\<not> 5 \<le> (1 :: u32)" by (simp add: word_le_nat_alt)
  have "n \<in> {0, 1, 2, 3, 4}" using assms(2) by auto
  then show ?thesis using assms(1,3)
    by (auto simp: check_and_record_failure_def LOCKOUT_EVICT_AFTER_MINS_def LOCKOUT_THRESHOLD_def
        saturating_add_one_def update_conv' Let_def)
qed

lemma record_failures_count:
  assumes "map_of l ip = Some (of_nat n, t)" and "n + length ts \<le> 5" and "close_together (t # ts)"
  shows "map_of (record_failures ts ip l) ip = Some (of_nat (n + length ts), List.last (t # ts))"
  using assms
proof (induction ts arbitrary: n t l)
  case (Cons u ts)
  have "map_of (snd (check_and_record_failure u ip l)) ip = Some (of_nat (Suc n), u)"
    using Cons.prems by (intro record_failure_below) auto
  from Cons.IH[OF this] Cons.prems show ?case by simp
qed simp

text \<open>
  Five failed logins lock an address out: after five of them, each within half an hour
  of the one before, no login from this address issues a token during the next minute, with
  the right password or without, and none changes the tokens.
\<close>
theorem five_failures_lock_out:
  assumes "length ts = 5" and "close_together ts" and "map_of l ip = None"
    and "elapsed_secs now (List.last ts) < 60"
  shows "\<exists>retry l'. create_token_handler cr show_ip now bytes ip body
      \<lparr>as_store = store, as_lockout = record_failures ts ip l\<rparr>
    = (TooManyRequests retry, \<lparr>as_store = store, as_lockout = l'\<rparr>)"
proof -
  obtain t us where ts: "ts = t # us" "length us = 4" using assms(1) by (cases ts) auto
  have "map_of (snd (check_and_record_failure t ip l)) ip = Some (of_nat 1, t)"
    using assms(3) by (simp add: check_and_record_failure_def elapsed_secs_def LOCKOUT_EVICT_AFTER_MINS_def
        LOCKOUT_THRESHOLD_def saturating_add_one_def update_conv')
  from record_failures_count[OF this, of us] ts assms(2)
  have "map_of (record_failures ts ip l) ip = Some (5, List.last ts)" by simp
  from check_locked_recorded[OF this assms(4)] show ?thesis
    by (auto simp: create_token_handler_def)
qed

theorem five_failures_lock_out_witness:
  "\<exists>retry l'. create_token_handler toy_crypto (\<lambda>_. ''100.64.0.1'') (10 * nanos_per_sec) ''bytes''
        (V4 (100, 64, 0, 1)) \<lparr>tr_password = ''pw'', tr_role = None\<rparr>
        \<lparr>as_store = as_store toy_state, as_lockout = record_failures [0, 1, 2, 3, 4] (V4 (100, 64, 0, 1)) []\<rparr>
    = (TooManyRequests retry, \<lparr>as_store = as_store toy_state, as_lockout = l'\<rparr>)"
  by (rule five_failures_lock_out) (simp_all add: elapsed_secs_def nanos_per_sec_def)

end
