(* ===== verification/Session_Frames.thy ===== *)
theory Session_Frames
  imports Prelude
begin

unbundle bit_operations_syntax

text \<open>
  The framed connection between a session proxy and the supervisor: message types and length
  prefix (\<open>crates/pnevma-session-protocol/src/frame.rs\<close>) and the loop that serves one client
  (\<open>crates/pnevma-session/src/socket_server.rs\<close>). JSON encoding (\<open>serde_json\<close>) is a parameter.

  The loop is a \<open>tokio::select!\<close> over the read of a frame and the reception of an event. The read
  is a future: its progress (\<open>read_progress\<close>) is kept from poll to poll, and dropped when the
  other branch completes first. The scheduler is the sequence of \<open>client_event\<close>s: bytes arrive,
  the read is polled, an event is received.
\<close>

section \<open>Frames\<close>

datatype proxy_message = Input "u8 list" | Resize u16 u16 | Detach | Ping

datatype backend_message = Output "u8 list" | Exited "32 word option" | Pong | BackendError string

definition MAX_FRAME_SIZE :: u32 where
  "MAX_FRAME_SIZE = 16 * 1024 * 1024"

datatype frame_error = PayloadTooLarge nat nat

text \<open>\<open>u32::to_be_bytes\<close> and \<open>u32::from_be_bytes\<close>.\<close>

definition to_be_bytes :: "u32 \<Rightarrow> u8 list" where
  "to_be_bytes w = [ucast (drop_bit 24 w), ucast (drop_bit 16 w), ucast (drop_bit 8 w), ucast w]"

definition from_be_bytes :: "u8 list \<Rightarrow> u32" where
  "from_be_bytes bs = foldl (\<lambda>acc b. push_bit 8 acc OR ucast b) 0 bs"

definition encode_frame :: "u8 list \<Rightarrow> frame_error + u8 list" where
  "encode_frame payload =
    (let len = length payload in
     if len > unat MAX_FRAME_SIZE then Err (PayloadTooLarge len (unat MAX_FRAME_SIZE))
     else Ok (to_be_bytes (of_nat len) @ payload))"

definition decode_frame_header :: "u8 list \<Rightarrow> frame_error + u32" where
  "decode_frame_header header =
    (let len = from_be_bytes header in
     if len > MAX_FRAME_SIZE then Err (PayloadTooLarge (unat len) (unat MAX_FRAME_SIZE)) else Ok len)"

section \<open>Reading a frame\<close>

datatype read_progress = ReadingHeader "u8 list" | ReadingPayload nat "u8 list"

datatype read_error = BadFrame frame_error | UnexpectedEof | BadMessage string

datatype 'a poll = Pending read_progress | Ready 'a

type_synonym read_result = "read_error + proxy_message option"

text \<open>One poll of \<open>read_framed_message\<close>: it takes what it needs of the bytes received so far.
  \<open>read_exact\<close> reports an end of file in the header as \<open>Ok(None)\<close>.\<close>

definition poll_payload ::
  "(u8 list \<Rightarrow> string + proxy_message) \<Rightarrow> bool \<Rightarrow> nat \<Rightarrow> u8 list \<Rightarrow> u8 list \<Rightarrow> read_result poll \<times> u8 list"
where
  "poll_payload from_slice closed len got rx =
    (let need = len - length got;
         got' = got @ take need rx;
         rx' = drop need rx
     in if length got' = len
        then (Ready (case from_slice got' of Err e \<Rightarrow> Err (BadMessage e) | Ok m \<Rightarrow> Ok (Some m)), rx')
        else if closed then (Ready (Err UnexpectedEof), rx')
        else (Pending (ReadingPayload len got'), rx'))"

fun poll_read ::
  "(u8 list \<Rightarrow> string + proxy_message) \<Rightarrow> bool \<Rightarrow> read_progress \<Rightarrow> u8 list \<Rightarrow> read_result poll \<times> u8 list"
where
  "poll_read from_slice closed (ReadingHeader h) rx =
    (let need = 4 - length h;
         h' = h @ take need rx;
         rx' = drop need rx
     in if length h' = 4
        then (case decode_frame_header h' of
                Err e \<Rightarrow> (Ready (Err (BadFrame e)), rx')
              | Ok len \<Rightarrow> poll_payload from_slice closed (unat len) [] rx')
        else if closed then (Ready (Ok None), rx')
        else (Pending (ReadingHeader h'), rx'))"
| "poll_read from_slice closed (ReadingPayload len got) rx = poll_payload from_slice closed len got rx"

definition fresh_read :: read_progress where
  "fresh_read = ReadingHeader []"

section \<open>Serving a client\<close>

text \<open>What the broadcast channel hands to the loop.\<close>

datatype broadcast_event =
    SessionOutput uuid "u8 list"
  | SessionExited uuid "32 word option"
  | OtherEvent
  | Lagged
  | ChannelClosed

record client =
  cl_rx :: "u8 list"
  cl_closed :: bool
  cl_read :: read_progress
  cl_handled :: "proxy_message list"
  cl_written :: "backend_message list"
  cl_running :: bool

definition new_client :: client where
  "new_client = \<lparr>cl_rx = [], cl_closed = False, cl_read = fresh_read, cl_handled = [], cl_written = [],
     cl_running = True\<rparr>"

datatype client_event = Arrive "u8 list" | Hangup | Poll | Receive broadcast_event

text \<open>The answers of the supervisor and of the socket: whether input is accepted
  (\<open>send_input_bytes\<close>) and whether a message of this kind can be written.\<close>

record client_env =
  input_ok :: "u8 list \<Rightarrow> bool"
  write_ok :: "backend_message \<Rightarrow> bool"

definition handle_message :: "client_env \<Rightarrow> proxy_message \<Rightarrow> client \<Rightarrow> client" where
  "handle_message env msg c =
    (let c = c\<lparr>cl_handled := cl_handled c @ [msg]\<rparr> in
     case msg of
       Input data \<Rightarrow> if input_ok env data then c else c\<lparr>cl_running := False\<rparr>
     | Resize _ _ \<Rightarrow> c
     | Detach \<Rightarrow> c\<lparr>cl_running := False\<rparr>
     | Ping \<Rightarrow> if write_ok env Pong then c\<lparr>cl_written := cl_written c @ [Pong]\<rparr> else c\<lparr>cl_running := False\<rparr>)"

definition handle_read :: "client_env \<Rightarrow> read_result \<Rightarrow> client \<Rightarrow> client" where
  "handle_read env result c =
    (case result of
       Ok (Some msg) \<Rightarrow> handle_message env msg c
     | Ok None \<Rightarrow> c\<lparr>cl_running := False\<rparr>
     | Err _ \<Rightarrow> c\<lparr>cl_running := False\<rparr>)"

definition handle_event :: "client_env \<Rightarrow> uuid \<Rightarrow> broadcast_event \<Rightarrow> client \<Rightarrow> client" where
  "handle_event env session_id ev c =
    (case ev of
       SessionOutput sid chunk \<Rightarrow>
         if sid = session_id
         then (if write_ok env (Output chunk) then c\<lparr>cl_written := cl_written c @ [Output chunk]\<rparr>
               else c\<lparr>cl_running := False\<rparr>)
         else c
     | SessionExited sid code \<Rightarrow>
         if sid = session_id
         then c\<lparr>cl_written := (if write_ok env (Exited code) then cl_written c @ [Exited code] else cl_written c),
                cl_running := False\<rparr>
         else c
     | OtherEvent \<Rightarrow> c
     | Lagged \<Rightarrow> c
     | ChannelClosed \<Rightarrow> c\<lparr>cl_running := False\<rparr>)"

text \<open>Each completed branch ends the iteration; the next one starts a fresh read.\<close>

fun client_step ::
  "(u8 list \<Rightarrow> string + proxy_message) \<Rightarrow> client_env \<Rightarrow> uuid \<Rightarrow> client_event \<Rightarrow> client \<Rightarrow> client"
where
  "client_step from_slice env sid (Arrive bs) c = c\<lparr>cl_rx := cl_rx c @ bs\<rparr>"
| "client_step from_slice env sid Hangup c = c\<lparr>cl_closed := True\<rparr>"
| "client_step from_slice env sid Poll c =
     (if \<not> cl_running c then c
      else case poll_read from_slice (cl_closed c) (cl_read c) (cl_rx c) of
        (Pending progress, rx) \<Rightarrow> c\<lparr>cl_read := progress, cl_rx := rx\<rparr>
      | (Ready result, rx) \<Rightarrow> handle_read env result (c\<lparr>cl_read := fresh_read, cl_rx := rx\<rparr>))"
| "client_step from_slice env sid (Receive ev) c =
     (if \<not> cl_running c then c else handle_event env sid ev (c\<lparr>cl_read := fresh_read\<rparr>))"

definition write_framed_message :: "(backend_message \<Rightarrow> u8 list) \<Rightarrow> backend_message \<Rightarrow> frame_error + u8 list" where
  "write_framed_message to_vec msg = encode_frame (to_vec msg)"

definition session_socket_path :: "string \<Rightarrow> string \<Rightarrow> string" where
  "session_socket_path data_dir session_id = data_dir @ ''/sessions/'' @ session_id @ ''.sock''"

section \<open>Round trips\<close>

lemma from_to_be_bytes: "from_be_bytes (to_be_bytes w) = w"
proof (rule bit_word_eqI)
  fix n assume "n < LENGTH(32)"
  then show "bit (from_be_bytes (to_be_bytes w)) n = bit w n"
    by (cases "n < 8"; cases "n < 16"; cases "n < 24")
       (auto simp: from_be_bytes_def to_be_bytes_def bit_simps)
qed

lemma length_to_be_bytes [simp]: "length (to_be_bytes w) = 4"
  by (simp add: to_be_bytes_def)

lemma unat_max_frame [simp]: "unat MAX_FRAME_SIZE = 16777216"
  by (simp add: MAX_FRAME_SIZE_def)

lemma encode_frame_Ok:
  "encode_frame payload = Ok bs \<longleftrightarrow>
     length payload \<le> 16777216 \<and> bs = to_be_bytes (of_nat (length payload)) @ payload"
  by (auto simp: encode_frame_def Let_def)

lemma unat_length_word:
  "length payload \<le> 16777216 \<Longrightarrow> unat (of_nat (length payload) :: u32) = length payload"
  by (simp add: unat_of_nat)

lemma decode_frame_header_length:
  assumes "length payload \<le> 16777216"
  shows "decode_frame_header (to_be_bytes (of_nat (length payload))) = Ok (of_nat (length payload))"
proof -
  have "\<not> (of_nat (length payload) :: u32) > MAX_FRAME_SIZE"
    using assms unat_length_word[OF assms] unat_max_frame by (simp add: word_less_nat_alt)
  then show ?thesis by (simp add: decode_frame_header_def from_to_be_bytes Let_def)
qed

text \<open>
  The bytes a read holds, and the shape of its state: a header of fewer than four bytes, or
  fewer bytes of the payload than the header announced.
\<close>

fun read_wf :: "read_progress \<Rightarrow> bool" where
  "read_wf (ReadingHeader h) \<longleftrightarrow> length h < 4"
| "read_wf (ReadingPayload len got) \<longleftrightarrow> length got < len \<and> len \<le> 16777216"

fun read_bytes :: "read_progress \<Rightarrow> u8 list" where
  "read_bytes (ReadingHeader h) = h"
| "read_bytes (ReadingPayload len got) = to_be_bytes (of_nat len) @ got"

definition frame :: "u8 list \<Rightarrow> u8 list" where
  "frame payload = to_be_bytes (of_nat (length payload)) @ payload"

lemma poll_payload_stream:
  assumes "got @ rx @ future = payload @ tail" and "length got \<le> length payload"
  shows "poll_payload from_slice False (length payload) got rx
    = (if length payload \<le> length (got @ rx)
       then (Ready (case from_slice payload of Err e \<Rightarrow> Err (BadMessage e) | Ok m \<Rightarrow> Ok (Some m)),
             drop (length payload - length got) rx)
       else (Pending (ReadingPayload (length payload) (got @ rx)), []))"
proof (cases "length payload \<le> length (got @ rx)")
  case True
  have "got @ take (length payload - length got) rx = take (length payload) (got @ rx @ future)"
    using True assms(2) by simp
  also have "\<dots> = payload" using assms(1) by simp
  finally show ?thesis using True assms(2) by (simp add: poll_payload_def Let_def)
next
  case False
  then have "take (length payload - length got) rx = rx" "drop (length payload - length got) rx = []"
    by simp_all
  with False show ?thesis by (simp add: poll_payload_def Let_def)
qed

lemma payload_done:
  assumes "got @ rx @ future = payload @ tail" and "length got \<le> length payload"
    and "length payload \<le> length (got @ rx)"
  shows "got @ rx = payload @ drop (length payload - length got) rx"
proof -
  have "take (length payload) (got @ rx @ future) = payload" using assms(1) by simp
  then have "got @ take (length payload - length got) rx = payload" using assms(2,3) by simp
  then show ?thesis by (metis append.assoc append_take_drop_id)
qed

lemma poll_read_stream:
  assumes bytes: "read_bytes p @ rx @ future = frame payload @ tail" and wf: "read_wf p"
    and len: "length payload \<le> 16777216" and dec: "from_slice payload = Ok m"
  shows "(\<exists>p'. poll_read from_slice False p rx = (Pending p', []) \<and> read_wf p' \<and> read_bytes p' = read_bytes p @ rx)
    \<or> (\<exists>rx'. poll_read from_slice False p rx = (Ready (Ok (Some m)), rx') \<and> read_bytes p @ rx = frame payload @ rx')"
proof (cases p)
  case (ReadingPayload n got)
  have n: "n \<le> 16777216" "length got < n" using wf ReadingPayload by auto
  have "to_be_bytes (of_nat n) @ got @ rx @ future = to_be_bytes (of_nat (length payload)) @ payload @ tail"
    using bytes ReadingPayload by (simp add: frame_def)
  then have hd: "to_be_bytes (of_nat n) = to_be_bytes (of_nat (length payload))"
    and body: "got @ rx @ future = payload @ tail" by (simp_all add: append_eq_append_conv)
  from hd have "(of_nat n :: u32) = of_nat (length payload)" by (metis from_to_be_bytes)
  then have "unat (of_nat n :: u32) = unat (of_nat (length payload) :: u32)" by simp
  then have n': "n = length payload" using n(1) len by (simp add: unat_of_nat)
  show ?thesis
    using poll_payload_stream[OF body, of from_slice] payload_done[OF body] n n' len dec hd ReadingPayload
    by (auto simp: frame_def)
next
  case (ReadingHeader h)
  have h: "length h < 4" using wf ReadingHeader by simp
  let ?H = "to_be_bytes (of_nat (length payload)) :: u8 list"
  have hb: "h @ rx @ future = ?H @ payload @ tail" using bytes ReadingHeader by (simp add: frame_def)
  show ?thesis
  proof (cases "4 \<le> length (h @ rx)")
    case False
    then have "poll_read from_slice False p rx = (Pending (ReadingHeader (h @ rx)), [])"
      by (simp add: ReadingHeader Let_def)
    then show ?thesis using False ReadingHeader by simp
  next
    case True
    have take4: "h @ take (4 - length h) rx = ?H"
    proof -
      have "h @ take (4 - length h) rx = take 4 (h @ rx @ future)" using True h by simp
      also have "\<dots> = ?H" using hb by simp
      finally show ?thesis .
    qed
    then have rx: "rx = take (4 - length h) rx @ drop (4 - length h) rx" by simp
    have body: "[] @ drop (4 - length h) rx @ future = payload @ tail"
      using hb take4 rx by (metis append.assoc append_Nil same_append_eq)
    have split: "read_bytes p @ rx = ?H @ drop (4 - length h) rx"
      using take4 rx ReadingHeader by (metis append.assoc read_bytes.simps(1))
    have poll: "poll_read from_slice False p rx
        = poll_payload from_slice False (length payload) [] (drop (4 - length h) rx)"
      using True h take4 decode_frame_header_length[OF len] unat_length_word[OF len]
      by (simp add: ReadingHeader Let_def)
    show ?thesis
      using poll_payload_stream[OF body, of from_slice] payload_done[OF body] poll split len dec
      by (auto simp: frame_def not_le)
  qed
qed

lemma poll_read_idle: "read_bytes p = [] \<Longrightarrow> read_wf p \<Longrightarrow> poll_read from_slice False p [] = (Pending fresh_read, [])"
  by (cases p) (auto simp: fresh_read_def Let_def to_be_bytes_def)

text \<open>What arrives, over a schedule.\<close>

fun arrived :: "client_event list \<Rightarrow> u8 list" where
  "arrived [] = []"
| "arrived (Arrive bs # es) = bs @ arrived es"
| "arrived (_ # es) = arrived es"

fun undisturbed :: "client_event \<Rightarrow> bool" where
  "undisturbed (Arrive _) \<longleftrightarrow> True"
| "undisturbed Poll \<longleftrightarrow> True"
| "undisturbed _ \<longleftrightarrow> False"

definition serving :: "(proxy_message \<Rightarrow> u8 list) \<Rightarrow> proxy_message list \<Rightarrow> u8 list \<Rightarrow> client \<Rightarrow> bool" where
  "serving to_vec ms future c \<longleftrightarrow> cl_running c \<and> \<not> cl_closed c \<and> read_wf (cl_read c)
     \<and> (\<exists>k \<le> length ms. cl_handled c = take k ms
          \<and> read_bytes (cl_read c) @ cl_rx c @ future = concat (map (frame \<circ> to_vec) (drop k ms)))"

definition messages_ok ::
  "(u8 list \<Rightarrow> string + proxy_message) \<Rightarrow> (proxy_message \<Rightarrow> u8 list) \<Rightarrow> client_env \<Rightarrow> proxy_message list \<Rightarrow> bool"
where
  "messages_ok from_slice to_vec env ms \<longleftrightarrow>
     (\<forall>m \<in> set ms. from_slice (to_vec m) = Ok m \<and> length (to_vec m) \<le> 16777216 \<and> m \<noteq> Detach
        \<and> (case m of Input data \<Rightarrow> input_ok env data | Ping \<Rightarrow> write_ok env Pong | _ \<Rightarrow> True))"

lemma serving_step:
  assumes ok: "messages_ok from_slice to_vec env ms" and s: "serving to_vec ms (arrived (e # es)) c"
    and e: "undisturbed e"
  shows "serving to_vec ms (arrived es) (client_step from_slice env sid e c)"
proof (cases e)
  case (Arrive bs)
  then show ?thesis using s by (auto simp: serving_def)
next
  case Poll
  from s obtain k where k: "k \<le> length ms" "cl_handled c = take k ms"
    "read_bytes (cl_read c) @ cl_rx c @ arrived es = concat (map (frame \<circ> to_vec) (drop k ms))"
    and c: "cl_running c" "\<not> cl_closed c" "read_wf (cl_read c)"
    using Poll by (auto simp: serving_def)
  show ?thesis
  proof (cases "drop k ms")
    case Nil
    then have "read_bytes (cl_read c) = []" "cl_rx c = []" using k(3) by auto
    then show ?thesis using k c Nil Poll poll_read_idle[OF _ c(3)] s
      by (auto simp: serving_def fresh_read_def)
  next
    case (Cons m rest)
    have m: "m \<in> set ms" using Cons by (metis in_set_dropD list.set_intros(1))
    with ok have dec: "from_slice (to_vec m) = Ok m" and len: "length (to_vec m) \<le> 16777216"
      and fine: "m \<noteq> Detach" "case m of Input data \<Rightarrow> input_ok env data | Ping \<Rightarrow> write_ok env Pong | _ \<Rightarrow> True"
      by (auto simp: messages_ok_def)
    have bytes: "read_bytes (cl_read c) @ cl_rx c @ arrived es
        = frame (to_vec m) @ concat (map (frame \<circ> to_vec) rest)" using k(3) Cons by simp
    from poll_read_stream[of _ _ _ "to_vec m", OF bytes c(3) len, of from_slice m, OF dec] show ?thesis
    proof (elim disjE exE conjE)
      fix p' assume p: "poll_read from_slice False (cl_read c) (cl_rx c) = (Pending p', [])"
        "read_wf p'" "read_bytes p' = read_bytes (cl_read c) @ cl_rx c"
      then show ?thesis using k c Poll by (auto simp: serving_def)
    next
      fix rx' assume p: "poll_read from_slice False (cl_read c) (cl_rx c) = (Ready (Ok (Some m)), rx')"
        and rx: "read_bytes (cl_read c) @ cl_rx c = frame (to_vec m) @ rx'"
      have "frame (to_vec m) @ rx' @ arrived es = frame (to_vec m) @ concat (map (frame \<circ> to_vec) rest)"
        using bytes rx by (metis append.assoc)
      then have rest: "rx' @ arrived es = concat (map (frame \<circ> to_vec) rest)" by simp
      have km: "Suc k \<le> length ms" "take (Suc k) ms = take k ms @ [m]" "drop (Suc k) ms = rest"
        using Cons by (metis drop_eq_Nil list.distinct(1) not_less_eq_eq,
            metis Cons drop_eq_Nil hd_drop_conv_nth list.sel(1) not_le take_Suc_conv_app_nth list.distinct(1),
            metis drop_Suc list.sel(3) tl_drop)
      have "cl_handled (client_step from_slice env sid e c) = take (Suc k) ms
          \<and> cl_running (client_step from_slice env sid e c) \<and> \<not> cl_closed (client_step from_slice env sid e c)
          \<and> cl_read (client_step from_slice env sid e c) = fresh_read
          \<and> cl_rx (client_step from_slice env sid e c) = rx'"
        using p c k(2) km(2) fine by (cases m) (auto simp: Poll handle_read_def handle_message_def Let_def)
      then show ?thesis using rest km by (auto simp: serving_def fresh_read_def)
    qed
  qed
qed (use e in simp_all)

lemma serving_run:
  assumes "messages_ok from_slice to_vec env ms" and "list_all undisturbed es"
    and "serving to_vec ms (arrived es) c"
  shows "serving to_vec ms [] (fold (client_step from_slice env sid) es c)"
  using assms(2,3)
proof (induction es arbitrary: c)
  case (Cons e es)
  then show ?case using serving_step[OF assms(1), of e es c sid] by simp
qed simp

lemma poll_read_no_bytes: "snd (poll_read from_slice closed p []) = []"
  by (cases p) (auto simp: poll_payload_def Let_def split: sum.splits)

lemma handle_rx [simp]:
  "cl_rx (handle_read env r c) = cl_rx c"
  by (auto simp: handle_read_def handle_message_def Let_def split: sum.splits option.splits proxy_message.splits)

lemma client_poll_no_bytes: "cl_rx c = [] \<Longrightarrow> cl_rx (client_step from_slice env sid Poll c) = []"
  using poll_read_no_bytes[of from_slice "cl_closed c" "cl_read c"]
  by (auto split: poll.splits prod.splits)

lemma read_bytes_short:
  assumes "read_wf p" and "length payload \<le> 16777216"
  shows "read_bytes p \<noteq> frame payload @ tail"
proof
  assume eq: "read_bytes p = frame payload @ tail"
  show False
  proof (cases p)
    case (ReadingHeader h)
    then show ?thesis using eq assms(1) by (auto simp: frame_def)
  next
    case (ReadingPayload n got)
    with eq have hd: "to_be_bytes (of_nat n) = to_be_bytes (of_nat (length payload))"
      and got: "got = payload @ tail" by (simp_all add: frame_def append_eq_append_conv)
    from hd have "(of_nat n :: u32) = of_nat (length payload)" by (metis from_to_be_bytes)
    then have "unat (of_nat n :: u32) = unat (of_nat (length payload) :: u32)" by simp
    then have "n = length payload" using assms ReadingPayload by (simp add: unat_of_nat)
    then show ?thesis using got assms(1) ReadingPayload by simp
  qed
qed

text \<open>
  C31. However the bytes of a client's messages are split on their way, and however often
  the read is polled in between, once all of them have been read exactly these messages have
  been handled, in order, and the connection still runs: as long as no event arrives.
\<close>
theorem frames_survive_splitting:
  assumes "messages_ok from_slice to_vec env ms" and "list_all undisturbed es"
    and "arrived es = concat (map (frame \<circ> to_vec) ms)"
    and "cl_rx (fold (client_step from_slice env sid) es new_client) = []"
  shows "cl_handled (fold (client_step from_slice env sid) (es @ [Poll]) new_client) = ms
    \<and> cl_running (fold (client_step from_slice env sid) (es @ [Poll]) new_client)"
proof -
  let ?c = "fold (client_step from_slice env sid) (es @ [Poll]) new_client"
  have start: "serving to_vec ms (arrived (es @ [Poll])) new_client"
  proof -
    have "arrived (es @ [Poll]) = arrived es" by (induction es rule: arrived.induct) auto
    then show ?thesis using assms(3)
      by (auto simp: serving_def new_client_def fresh_read_def intro!: exI[of _ 0])
  qed
  have "serving to_vec ms [] ?c"
    by (rule serving_run[OF assms(1) _ start]) (simp add: assms(2))
  then obtain k where k: "k \<le> length ms" "cl_handled ?c = take k ms" "cl_running ?c" "read_wf (cl_read ?c)"
    "read_bytes (cl_read ?c) @ cl_rx ?c = concat (map (frame \<circ> to_vec) (drop k ms))"
    by (auto simp: serving_def)
  have rx: "cl_rx ?c = []"
    using client_poll_no_bytes[OF assms(4)] by (simp only: fold_append fold.simps comp_apply id_apply)
  have "drop k ms = []"
  proof (rule ccontr)
    assume "drop k ms \<noteq> []"
    then obtain m rest where m: "drop k ms = m # rest" by (cases "drop k ms") auto
    then have "length (to_vec m) \<le> 16777216"
      using assms(1) in_set_dropD[of m k ms] by (simp add: messages_ok_def)
    moreover have "read_bytes (cl_read ?c) = frame (to_vec m) @ concat (map (frame \<circ> to_vec) rest)"
      using k(5) rx m by simp
    ultimately show False using read_bytes_short[OF k(4)] by blast
  qed
  with k show ?thesis by simp
qed

definition toy_to_vec :: "proxy_message \<Rightarrow> u8 list" where
  "toy_to_vec m = (case m of Ping \<Rightarrow> [0x22, 0x50, 0x22, 0x22] | Input d \<Rightarrow> 0x7B # 0x22 # 0x49 # 0x6E # d
     | Resize a b \<Rightarrow> [0x52, ucast a, ucast b, 0] | Detach \<Rightarrow> [0x22, 0x44, 0x22, 0x22])"

definition toy_from_slice :: "u8 list \<Rightarrow> string + proxy_message" where
  "toy_from_slice bs = (case bs of
      b # _ # _ # _ # d \<Rightarrow> if b = 0x7B then Ok (Input d) else if bs = toy_to_vec Ping then Ok Ping else Err ''bad''
    | _ \<Rightarrow> Err ''bad'')"

definition yes_env :: client_env where
  "yes_env = \<lparr>input_ok = (\<lambda>_. True), write_ok = (\<lambda>_. True)\<rparr>"

theorem frames_survive_splitting_witness:
  "cl_handled (fold (client_step toy_from_slice yes_env 7)
      ([Arrive [0, 0, 0], Poll, Arrive [6, 0x7B, 0x22], Poll, Arrive [0x49, 0x6E, 1, 2], Poll] @ [Poll]) new_client)
    = [Input [1, 2]]"
proof -
  have "messages_ok toy_from_slice toy_to_vec yes_env [Input [1, 2]]"
    by (simp add: messages_ok_def toy_from_slice_def toy_to_vec_def yes_env_def)
  moreover have "arrived [Arrive [0, 0, 0], Poll, Arrive [6, 0x7B, 0x22], Poll, Arrive [0x49, 0x6E, 1, 2], Poll]
      = concat (map (frame \<circ> toy_to_vec) [Input [1, 2]])"
    by (simp add: frame_def toy_to_vec_def to_be_bytes_def)
  moreover have "cl_rx (fold (client_step toy_from_slice yes_env 7)
      [Arrive [0, 0, 0], Poll, Arrive [6, 0x7B, 0x22], Poll, Arrive [0x49, 0x6E, 1, 2], Poll] new_client) = []"
    by code_simp
  ultimately show ?thesis
    using frames_survive_splitting[of toy_from_slice toy_to_vec yes_env "[Input [1, 2]]"
        "[Arrive [0, 0, 0], Poll, Arrive [6, 0x7B, 0x22], Poll, Arrive [0x49, 0x6E, 1, 2], Poll]" 7]
    by simp
qed

lemma from_be_bytes_large:
  assumes "2 \<le> b"
  shows "MAX_FRAME_SIZE < from_be_bytes [b, x, y, z]"
proof -
  have "drop_bit 24 (from_be_bytes [b, x, y, z]) = (ucast b :: u32)"
    by (rule bit_word_eqI) (auto simp: from_be_bytes_def bit_simps dest: bit_imp_le_length)
  then have "unat (drop_bit 24 (from_be_bytes [b, x, y, z])) = unat (ucast b :: u32)" by simp
  moreover have "unat (ucast b :: u32) = unat b"
    using unsigned_less[of b, where 'a = nat]
    by (simp add: unsigned_ucast_eq take_bit_nat_eq_self)
  ultimately have "unat (from_be_bytes [b, x, y, z]) div 2 ^ 24 = unat b"
    by (simp add: drop_bit_eq_div unat_div_distrib)
  moreover have "2 \<le> unat b" using assms by (simp add: word_le_nat_alt)
  ultimately have "2 ^ 24 < unat (from_be_bytes [b, x, y, z])"
    by (cases "unat (from_be_bytes [b, x, y, z]) \<le> 2 ^ 24") (auto dest: div_le_mono[of _ _ "2 ^ 24"])
  then show ?thesis by (simp add: word_less_nat_alt)
qed

text \<open>
  A message is lost when output interrupts its reading: the read of a frame is one
  branch of the \<open>select!\<close> and keeps its progress in a future that the other branch drops. When
  session output is received between the four bytes of the header and the payload, the next
  read takes the first four bytes of the payload for a header; JSON text starts with a byte
  that makes the length too large, so the connection is closed and the message never handled,
  although without the output it is.
\<close>
theorem interrupted_read_breaks_connection:
  assumes "messages_ok from_slice to_vec env [m]" and "to_vec m = b # x # y # z # rest" and "2 \<le> b"
    and "write_ok env (Output chunk)"
  shows "(let c = fold (client_step from_slice env sid)
              [Arrive (take 4 (frame (to_vec m))), Poll, Receive (SessionOutput sid chunk),
               Arrive (drop 4 (frame (to_vec m))), Poll] new_client
          in \<not> cl_running c \<and> cl_handled c = [])
    \<and> (let c = fold (client_step from_slice env sid)
              [Arrive (take 4 (frame (to_vec m))), Poll, Arrive (drop 4 (frame (to_vec m))), Poll] new_client
          in cl_handled c = [m])"
proof -
  have m: "from_slice (to_vec m) = Ok m" "length (to_vec m) \<le> 16777216"
    using assms(1) by (auto simp: messages_ok_def)
  let ?H = "to_be_bytes (of_nat (length (to_vec m))) :: u8 list"
  have fr: "take 4 (frame (to_vec m)) = ?H" "drop 4 (frame (to_vec m)) = to_vec m"
    by (simp_all add: frame_def)
  have hdr: "poll_read from_slice False fresh_read ?H = (Pending (ReadingPayload (length (to_vec m)) []), [])"
    using decode_frame_header_length[OF m(2)] unat_length_word[OF m(2)] assms(2)
    by (simp add: fresh_read_def Let_def poll_payload_def)
  have bad: "poll_read from_slice False fresh_read (to_vec m)
      = (Ready (Err (BadFrame (PayloadTooLarge (unat (from_be_bytes [b, x, y, z])) 16777216))), rest)"
    using from_be_bytes_large[OF assms(3), of x y z] assms(2)
    by (simp add: fresh_read_def Let_def decode_frame_header_def)
  have good: "poll_read from_slice False (ReadingPayload (length (to_vec m)) []) (to_vec m) = (Ready (Ok (Some m)), [])"
    using m(1) by (simp add: poll_payload_def Let_def)
  have handled: "cl_handled (handle_read env (Ok (Some m)) c) = cl_handled c @ [m]" for c
    by (auto simp: handle_read_def handle_message_def Let_def split: proxy_message.splits)
  show ?thesis
    unfolding fr using hdr bad good assms(4) handled
    by (simp add: new_client_def handle_event_def Let_def) (simp add: handle_read_def)
qed

theorem interrupted_read_breaks_connection_witness:
  "\<not> cl_running (fold (client_step toy_from_slice yes_env 7)
      [Arrive (take 4 (frame (toy_to_vec (Input [1])))), Poll, Receive (SessionOutput 7 [65]),
       Arrive (drop 4 (frame (toy_to_vec (Input [1])))), Poll] new_client)"
proof -
  have "messages_ok toy_from_slice toy_to_vec yes_env [Input [1]]"
    by (simp add: messages_ok_def toy_from_slice_def toy_to_vec_def yes_env_def)
  from interrupted_read_breaks_connection[OF this, of "0x7B" "0x22" "0x49" "0x6E" "[1]" "[65]" 7] show ?thesis
    by (simp only: Let_def) (simp add: toy_to_vec_def yes_env_def)
qed

end
