(* ===== verification/Utf8.thy ===== *)
theory Utf8
  imports Prelude
begin

text \<open>
  \<open>String::from_utf8_lossy\<close> on bytes: a valid sequence is kept, a maximal prefix of a sequence
  that turns out invalid is replaced by U+FFFD.
\<close>

definition byte_of :: "char \<Rightarrow> nat" where
  "byte_of c = of_char c"

definition in_range :: "nat \<Rightarrow> nat \<Rightarrow> char \<Rightarrow> bool" where
  "in_range lo hi c \<longleftrightarrow> lo \<le> byte_of c \<and> byte_of c \<le> hi"

definition replacement_char :: string where
  "replacement_char = [CHR 0xEF, CHR 0xBF, CHR 0xBD]"

text \<open>The number of bytes a sequence with this first byte has; 0 for no first byte.\<close>

definition utf8_width :: "char \<Rightarrow> nat" where
  "utf8_width c =
     (if byte_of c < 0x80 then 1
      else if in_range 0xC2 0xDF c then 2
      else if in_range 0xE0 0xEF c then 3
      else if in_range 0xF0 0xF4 c then 4 else 0)"

text \<open>The second bytes that may follow the first: no overlong forms, no surrogates, nothing
  above U+10FFFF.\<close>

definition second_ok :: "char \<Rightarrow> char \<Rightarrow> bool" where
  "second_ok c d =
     (if byte_of c = 0xE0 then in_range 0xA0 0xBF d
      else if byte_of c = 0xED then in_range 0x80 0x9F d
      else if byte_of c = 0xF0 then in_range 0x90 0xBF d
      else if byte_of c = 0xF4 then in_range 0x80 0x8F d
      else in_range 0x80 0xBF d)"

text \<open>Whether the text starts with a valid sequence, and how many bytes to take.\<close>

fun utf8_step :: "string \<Rightarrow> bool \<times> nat" where
  "utf8_step [] = (False, 1)"
| "utf8_step (c # cs) =
     (let w = utf8_width c in
      if w \<le> 1 then (w = 1, 1)
      else if cs = [] \<or> \<not> second_ok c (hd cs) then (False, 1)
      else if w = 2 then (True, 2)
      else if length cs < 2 \<or> \<not> in_range 0x80 0xBF (cs ! 1) then (False, 2)
      else if w = 3 then (True, 3)
      else if length cs < 3 \<or> \<not> in_range 0x80 0xBF (cs ! 2) then (False, 3)
      else (True, 4))"

lemma utf8_step_pos: "0 < snd (utf8_step s)"
  by (cases s) (auto simp: Let_def)

function from_utf8_lossy :: "string \<Rightarrow> string" where
  "from_utf8_lossy s =
     (if s = [] then []
      else (if fst (utf8_step s) then take (snd (utf8_step s)) s else replacement_char)
           @ from_utf8_lossy (drop (snd (utf8_step s)) s))"
  by pat_completeness auto
termination from_utf8_lossy
  by (relation "measure length") (use utf8_step_pos in auto)

declare from_utf8_lossy.simps [simp del]

text \<open>A character is one complete sequence, a text a concatenation of characters.\<close>

definition utf8_char :: "string \<Rightarrow> bool" where
  "utf8_char c \<longleftrightarrow> c \<noteq> [] \<and> fst (utf8_step c) \<and> snd (utf8_step c) = length c"

definition utf8_text :: "string \<Rightarrow> bool" where
  "utf8_text s \<longleftrightarrow> (\<exists>cs. s = concat cs \<and> list_all utf8_char cs)"

lemma utf8_step_append:
  assumes "utf8_char c"
  shows "utf8_step (c @ s) = (True, length c)"
proof -
  obtain b bs where c: "c = b # bs" using assms by (cases c) (auto simp: utf8_char_def)
  have "fst (utf8_step (b # bs))" "snd (utf8_step (b # bs)) = Suc (length bs)"
    using assms c by (auto simp: utf8_char_def)
  then show ?thesis
    unfolding c by (auto simp: Let_def hd_append nth_append split: if_splits)
qed

lemma lossy_char: "utf8_char c \<Longrightarrow> from_utf8_lossy (c @ s) = c @ from_utf8_lossy s"
  using utf8_step_append[of c s]
  by (subst from_utf8_lossy.simps) (auto simp: utf8_char_def)

lemma lossy_Nil [simp]: "from_utf8_lossy [] = []"
  by (subst from_utf8_lossy.simps) simp

lemma lossy_chars: "list_all utf8_char cs \<Longrightarrow> from_utf8_lossy (concat cs @ s) = concat cs @ from_utf8_lossy s"
  by (induction cs) (auto simp: lossy_char)

lemma lossy_text: "utf8_text s \<Longrightarrow> from_utf8_lossy s = s"
  using lossy_chars[of _ "[]"] by (auto simp: utf8_text_def)

text \<open>A proper prefix of a character is replaced, whatever its length.\<close>

lemma lossy_cut_char:
  assumes "utf8_char c" and "0 < k" and "k < length c"
  shows "from_utf8_lossy (take k c) = replacement_char"
proof -
  obtain b bs where c: "c = b # bs" using assms by (cases c) (auto simp: utf8_char_def)
  have step: "utf8_step (take k c) = (False, k)"
  proof -
    have w: "fst (utf8_step (b # bs))" "snd (utf8_step (b # bs)) = Suc (length bs)"
      using assms(1) c by (auto simp: utf8_char_def)
    obtain j where j: "k = Suc j" "j < length bs" using assms(2,3) c by (cases k) auto
    have "length bs \<le> 3" using w by (auto simp: Let_def split: if_splits)
    with j have "j = 0 \<or> j = 1 \<or> j = 2" by linarith
    then show ?thesis using w j(2)
      by (elim disjE; cases bs) (auto simp: c j(1) Let_def hd_take split: if_splits)
  qed
  have "take k c \<noteq> []" using assms c by auto
  then show ?thesis using step assms(3)
    by (subst from_utf8_lossy.simps) simp
qed

lemma ascii_char: "byte_of c < 128 \<Longrightarrow> utf8_char [c]"
  by (simp add: utf8_char_def utf8_width_def)

lemma lossy_ascii: "list_all (\<lambda>c. byte_of c < 128) s \<Longrightarrow> from_utf8_lossy s = s"
proof (induction s)
  case (Cons c s)
  then show ?case using lossy_char[OF ascii_char, of c s] by simp
qed simp

text \<open>The characters of a text (\<open>str::chars\<close>), as their byte sequences.\<close>

function utf8_chars :: "string \<Rightarrow> string list" where
  "utf8_chars s = (if s = [] then [] else take (snd (utf8_step s)) s # utf8_chars (drop (snd (utf8_step s)) s))"
  by pat_completeness auto
termination utf8_chars
  by (relation "measure length") (use utf8_step_pos in auto)

declare utf8_chars.simps [simp del]

end
