(* ===== verification/Session_Supervisor.thy ===== *)
theory Session_Supervisor
  imports Redaction Utf8 Assoc
begin

text \<open>
  The session supervisor (\<open>crates/pnevma-session/src/supervisor.rs\<close>, \<open>model.rs\<close>): spawning,
  attaching and ending terminal sessions, their health, scrollback and redaction.

  The maps behind the locks are association lists. What a backend and the file system answer is
  an environment \<open>sup_env\<close>, one per operation; so are the clock readings. An operation is one
  step, except that the tasks it spawns (reader, exit notification, re-redaction) are operations
  of their own and interleave with everything else. The content of a scrollback file is kept
  per session; its path is the canonical one.
\<close>

section \<open>Data\<close>

datatype session_status = StRunning | StWaiting | StError | StComplete

datatype session_health = HActive | HIdle | HStuck | HWaiting | HError | HComplete

record session_metadata =
  sm_id :: uuid
  sm_project_id :: uuid
  sm_name :: string
  sm_status :: session_status
  sm_health :: session_health
  sm_pid :: "u32 option"
  sm_cwd :: string
  sm_command :: string
  sm_branch :: "string option"
  sm_worktree_id :: "uuid option"
  sm_started_at :: time
  sm_last_heartbeat :: time
  sm_scrollback_path :: string
  sm_exit_code :: "32 word option"
  sm_ended_at :: "time option"
  sm_backend_kind :: string
  sm_durability :: string

datatype session_error =
    IoError string
  | NotFound uuid
  | SpawnFailed string
  | LimitReached nat
  | ScrollbackTooLarge nat nat

datatype session_event =
    Spawned session_metadata
  | OutputEv uuid string
  | Heartbeat uuid session_health
  | ExitedEv uuid "32 word option"

datatype backend_kind = TmuxCompat | LocalPty | RemoteSshDurable | LocalDurable

datatype backend_durability = Durable | Ephemeral

fun backend_kind_str :: "backend_kind \<Rightarrow> string" where
  "backend_kind_str LocalPty = ''local_pty''"
| "backend_kind_str TmuxCompat = ''tmux_compat''"
| "backend_kind_str RemoteSshDurable = ''remote_ssh_durable''"
| "backend_kind_str LocalDurable = ''local_durable''"

fun durability_str :: "backend_durability \<Rightarrow> string" where
  "durability_str Durable = ''durable''"
| "durability_str Ephemeral = ''ephemeral''"

fun health_to_u8 :: "session_health \<Rightarrow> u8" where
  "health_to_u8 HActive = 0"
| "health_to_u8 HIdle = 1"
| "health_to_u8 HStuck = 2"
| "health_to_u8 HWaiting = 3"
| "health_to_u8 HError = 4"
| "health_to_u8 HComplete = 5"

definition u8_to_health :: "u8 \<Rightarrow> session_health" where
  "u8_to_health v =
     (if v = 0 then HActive else if v = 1 then HIdle else if v = 2 then HStuck
      else if v = 3 then HWaiting else if v = 4 then HError else HComplete)"

record atomic_session_state =
  at_last_heartbeat :: int
  at_health :: u8

text \<open>\<open>DateTime::timestamp\<close>: whole seconds, rounded down.\<close>

definition timestamp :: "time \<Rightarrow> int" where
  "timestamp t = t div nanos_per_sec"

definition atomic_new :: "int \<Rightarrow> session_health \<Rightarrow> atomic_session_state" where
  "atomic_new ts h = \<lparr>at_last_heartbeat = ts, at_health = health_to_u8 h\<rparr>"

text \<open>A backend handle: the process sid, and a name for its streams.\<close>

record backend_handle =
  bh_pid :: "u32 option"
  bh_io :: nat

record supervisor =
  sessions :: "(uuid \<times> session_metadata) list"
  atomic_states :: "(uuid \<times> atomic_session_state) list"
  inputs :: "(uuid \<times> nat) list"
  scrollback_files :: "(uuid \<times> string) list"
  socket_servers :: "(uuid \<times> unit) list"
  redaction_secrets :: "string list"
  events :: "session_event list"
  idle_after :: int
  stuck_after :: int
  data_dir :: string
  max_sessions :: nat
  kind :: backend_kind
  durability :: backend_durability
  scrollback :: "(uuid \<times> string) list"

record sup_env =
  now :: time
  create_result :: "session_error + backend_handle"
  attach_result :: "session_error + backend_handle"
  alive :: "uuid \<Rightarrow> bool"
  create_dir_error :: "string option"
  open_error :: "string option"
  open_rw_ok :: bool
  socket_ok :: bool
  write_error :: "string option"
  show_id :: "uuid \<Rightarrow> string"

definition sup_new :: "string \<Rightarrow> backend_kind \<Rightarrow> backend_durability \<Rightarrow> supervisor" where
  "sup_new dir k d = \<lparr>sessions = [], atomic_states = [], inputs = [], scrollback_files = [],
     socket_servers = [], redaction_secrets = [], events = [], idle_after = 120, stuck_after = 600,
     data_dir = dir, max_sessions = 64, kind = k, durability = d, scrollback = []\<rparr>"

definition emit :: "session_event \<Rightarrow> supervisor \<Rightarrow> supervisor" where
  "emit ev s = s\<lparr>events := events s @ [ev]\<rparr>"

abbreviation meta_of :: "supervisor \<Rightarrow> uuid \<Rightarrow> session_metadata option" where
  "meta_of s \<equiv> map_of (sessions s)"

definition set_meta :: "uuid \<Rightarrow> (session_metadata \<Rightarrow> session_metadata) \<Rightarrow> supervisor \<Rightarrow> supervisor" where
  "set_meta sid f s = s\<lparr>sessions := update_value sid f (sessions s)\<rparr>"

definition set_atomic ::
  "uuid \<Rightarrow> (atomic_session_state \<Rightarrow> atomic_session_state) \<Rightarrow> supervisor \<Rightarrow> supervisor"
where
  "set_atomic sid f s = s\<lparr>atomic_states := update_value sid f (atomic_states s)\<rparr>"

definition occupies_slot :: "session_metadata \<Rightarrow> bool" where
  "occupies_slot m \<longleftrightarrow> sm_status m = StRunning \<or> sm_status m = StWaiting"

definition active_sessions :: "supervisor \<Rightarrow> nat" where
  "active_sessions s = length (filter (\<lambda>(_, m). occupies_slot m) (sessions s))"

definition canonical_scrollback_path :: "sup_env \<Rightarrow> uuid \<Rightarrow> supervisor \<Rightarrow> string" where
  "canonical_scrollback_path env sid s = data_dir s @ ''/scrollback/'' @ show_id env sid @ ''.log''"

section \<open>Spawning and attaching\<close>

definition wire_backend_handle ::
  "sup_env \<Rightarrow> uuid \<Rightarrow> backend_handle \<Rightarrow> string \<Rightarrow> supervisor \<Rightarrow> (session_error + unit) \<times> supervisor"
where
  "wire_backend_handle env sid handle path s =
    (let s = s\<lparr>inputs := AList.update sid (bh_io handle) (inputs s)\<rparr> in
     case meta_of s sid of
       None \<Rightarrow> (Err (NotFound sid), s)
     | Some _ \<Rightarrow>
         let s = set_meta sid (\<lambda>m. m\<lparr>sm_pid := bh_pid handle, sm_status := StRunning, sm_health := HActive,
                   sm_last_heartbeat := now env, sm_exit_code := None, sm_ended_at := None\<rparr>) s;
             s = emit (Heartbeat sid HActive) s
         in if \<not> open_rw_ok env \<and> open_error env \<noteq> None
            then (Err (SpawnFailed (''scrollback open failed: '' @ the (open_error env))), s)
            else
              let s = (if open_rw_ok env then s\<lparr>scrollback_files := AList.update sid path (scrollback_files s)\<rparr> else s)
              in (Ok (), if kind s \<noteq> TmuxCompat \<and> socket_ok env
                         then s\<lparr>socket_servers := AList.update sid () (socket_servers s)\<rparr> else s))"

text \<open>Opening the log creates an empty file when there is none.\<close>

definition touch_scrollback :: "uuid \<Rightarrow> supervisor \<Rightarrow> supervisor" where
  "touch_scrollback sid s =
     (case map_of (scrollback s) sid of
        None \<Rightarrow> s\<lparr>scrollback := AList.update sid [] (scrollback s)\<rparr> | Some _ \<Rightarrow> s)"

definition finish_spawn :: "sup_env \<Rightarrow> uuid \<Rightarrow> string \<Rightarrow> supervisor \<Rightarrow> (session_error + unit) \<times> supervisor" where
  "finish_spawn env sid path s =
    (case create_dir_error env of
       Some e \<Rightarrow> (Err (IoError e), s)
     | None \<Rightarrow>
         (case open_error env of
            Some e \<Rightarrow> (Err (IoError e), s)
          | None \<Rightarrow>
              let s = touch_scrollback sid s in
              (case create_result env of
                 Err e \<Rightarrow> (Err e, s)
               | Ok handle \<Rightarrow> wire_backend_handle env sid handle path s)))"

definition new_metadata :: "sup_env \<Rightarrow> uuid \<Rightarrow> uuid \<Rightarrow> string \<Rightarrow> string \<Rightarrow> string \<Rightarrow> supervisor \<Rightarrow> session_metadata" where
  "new_metadata env sid project name cwd command s =
     \<lparr>sm_id = sid, sm_project_id = project, sm_name = name, sm_status = StWaiting, sm_health = HWaiting,
      sm_pid = None, sm_cwd = cwd,
      sm_command = (if str_trim command = [] then ''zsh'' else command), sm_branch = None,
      sm_worktree_id = None, sm_started_at = now env, sm_last_heartbeat = now env,
      sm_scrollback_path = canonical_scrollback_path env sid s, sm_exit_code = None, sm_ended_at = None,
      sm_backend_kind = backend_kind_str (kind s), sm_durability = durability_str (durability s)\<rparr>"

text \<open>The reservation of a slot, atomic under the lock of the map.\<close>

definition reserve_slot :: "session_metadata \<Rightarrow> supervisor \<Rightarrow> (session_error + unit) \<times> supervisor" where
  "reserve_slot m s =
     (if active_sessions s \<ge> max_sessions s then (Err (LimitReached (max_sessions s)), s)
      else (Ok (), s\<lparr>sessions := AList.update (sm_id m) m (sessions s)\<rparr>))"

definition register_atomic :: "session_metadata \<Rightarrow> supervisor \<Rightarrow> supervisor" where
  "register_atomic m s =
     s\<lparr>atomic_states := AList.update (sm_id m) (atomic_new (timestamp (sm_last_heartbeat m)) (sm_health m))
          (atomic_states s)\<rparr>"

definition roll_back_spawn :: "uuid \<Rightarrow> supervisor \<Rightarrow> supervisor" where
  "roll_back_spawn sid s = s\<lparr>sessions := AList.delete sid (sessions s),
     atomic_states := AList.delete sid (atomic_states s), inputs := AList.delete sid (inputs s),
     scrollback_files := AList.delete sid (scrollback_files s)\<rparr>"

definition spawn_shell ::
  "sup_env \<Rightarrow> uuid \<Rightarrow> uuid \<Rightarrow> string \<Rightarrow> string \<Rightarrow> string \<Rightarrow> supervisor
     \<Rightarrow> (session_error + session_metadata) \<times> supervisor"
where
  "spawn_shell env sid project name cwd command s =
    (let m = new_metadata env sid project name cwd command s in
     case reserve_slot m s of
       (Err e, s) \<Rightarrow> (Err e, s)
     | (Ok _, s) \<Rightarrow>
         let s = register_atomic m s in
         (case finish_spawn env sid (sm_scrollback_path m) s of
            (Err e, s) \<Rightarrow> (Err e, roll_back_spawn sid s)
          | (Ok _, s) \<Rightarrow>
              let s = emit (Spawned m) s in
              (case meta_of s sid of None \<Rightarrow> (Err (NotFound sid), s) | Some m \<Rightarrow> (Ok m, s))))"

definition attach_existing :: "sup_env \<Rightarrow> uuid \<Rightarrow> supervisor \<Rightarrow> (session_error + unit) \<times> supervisor" where
  "attach_existing env sid s =
    (case meta_of s sid of
       None \<Rightarrow> (Err (NotFound sid), s)
     | Some m \<Rightarrow>
         if map_of (inputs s) sid \<noteq> None then (Ok (), s)
         else if \<not> alive env sid then (Err (SpawnFailed (''backend session not found for '' @ show_id env sid)), s)
         else
           (case attach_result env of
              Err e \<Rightarrow> (Err e, s)
            | Ok handle \<Rightarrow> wire_backend_handle env sid handle (sm_scrollback_path m) s))"

definition register_restored :: "sup_env \<Rightarrow> session_metadata \<Rightarrow> supervisor \<Rightarrow> (session_error + unit) \<times> supervisor" where
  "register_restored env meta s =
    (let m = meta\<lparr>sm_scrollback_path := canonical_scrollback_path env (sm_id meta) s\<rparr> in
     if occupies_slot m \<and> active_sessions s \<ge> max_sessions s then (Err (LimitReached (max_sessions s)), s)
     else
       let s = s\<lparr>sessions := AList.update (sm_id m) m (sessions s)\<rparr>;
           s = register_atomic m s
       in (Ok (), emit (Spawned m) s))"

section \<open>Input, activity, exit\<close>

definition mark_activity :: "sup_env \<Rightarrow> uuid \<Rightarrow> supervisor \<Rightarrow> (session_error + unit) \<times> supervisor" where
  "mark_activity env sid s =
    (case map_of (atomic_states s) sid of
       None \<Rightarrow> (Err (NotFound sid), s)
     | Some _ \<Rightarrow>
         let s = set_atomic sid (\<lambda>a. a\<lparr>at_last_heartbeat := timestamp (now env), at_health := health_to_u8 HActive\<rparr>) s in
         (case meta_of s sid of
            None \<Rightarrow> (Err (NotFound sid), s)
          | Some _ \<Rightarrow>
              (Ok (), emit (Heartbeat sid HActive)
                 (set_meta sid (\<lambda>m. m\<lparr>sm_last_heartbeat := now env, sm_health := HActive,
                    sm_status := (if sm_status m \<noteq> StComplete then StRunning else sm_status m)\<rparr>) s))))"

definition MAX_INPUT_BYTES :: nat where
  "MAX_INPUT_BYTES = 64 * 1024"

text \<open>\<open>send_input\<close> and \<open>send_input_bytes\<close>.\<close>

definition send_input :: "sup_env \<Rightarrow> uuid \<Rightarrow> string \<Rightarrow> supervisor \<Rightarrow> (session_error + unit) \<times> supervisor" where
  "send_input env sid input s =
    (if length input > MAX_INPUT_BYTES
     then (Err (SpawnFailed (''input too large: '' @ nat_str (length input) @ '' bytes (max ''
                  @ nat_str MAX_INPUT_BYTES @ '')'')), s)
     else case map_of (inputs s) sid of
       None \<Rightarrow> (Err (NotFound sid), s)
     | Some _ \<Rightarrow>
         (case write_error env of
            Some e \<Rightarrow> (Err (IoError e), s)
          | None \<Rightarrow> mark_activity env sid s))"

definition resize_known :: "uuid \<Rightarrow> supervisor \<Rightarrow> bool" where
  "resize_known sid s \<longleftrightarrow> meta_of s sid \<noteq> None"

definition drop_io :: "uuid \<Rightarrow> supervisor \<Rightarrow> supervisor" where
  "drop_io sid s = s\<lparr>inputs := AList.delete sid (inputs s), scrollback_files := AList.delete sid (scrollback_files s),
     socket_servers := AList.delete sid (socket_servers s)\<rparr>"

text \<open>The task that waits for the backend's exit notification.\<close>

definition exit_notified :: "sup_env \<Rightarrow> uuid \<Rightarrow> 32 word option \<Rightarrow> supervisor \<Rightarrow> supervisor" where
  "exit_notified env sid code s =
    (let s = set_meta sid (\<lambda>m.
           if alive env sid
           then m\<lparr>sm_last_heartbeat := now env, sm_status := StWaiting, sm_health := HWaiting, sm_pid := None\<rparr>
           else m\<lparr>sm_last_heartbeat := now env, sm_status := StComplete, sm_health := HComplete, sm_pid := None,
                  sm_exit_code := code, sm_ended_at := Some (now env)\<rparr>) s;
         s = set_atomic sid (\<lambda>a. a\<lparr>at_last_heartbeat := timestamp (now env),
               at_health := health_to_u8 (if alive env sid then HWaiting else HComplete)\<rparr>) s
     in emit (ExitedEv sid code) (drop_io sid s))"

definition mark_exit :: "sup_env \<Rightarrow> uuid \<Rightarrow> 32 word option \<Rightarrow> supervisor \<Rightarrow> (session_error + unit) \<times> supervisor" where
  "mark_exit env sid code s =
    (case meta_of s sid of
       None \<Rightarrow> (Err (NotFound sid), s)
     | Some _ \<Rightarrow>
         let s = set_meta sid (\<lambda>m. m\<lparr>sm_status := StComplete, sm_health := HComplete,
               sm_last_heartbeat := now env, sm_pid := None, sm_exit_code := code, sm_ended_at := Some (now env)\<rparr>) s;
             s = s\<lparr>atomic_states := AList.delete sid (atomic_states s)\<rparr>
         in (Ok (), emit (ExitedEv sid code) (drop_io sid s)))"

text \<open>One round of the health probe: sessions whose backend is gone become errors.\<close>

definition probe_session :: "sup_env \<Rightarrow> uuid \<Rightarrow> supervisor \<Rightarrow> supervisor" where
  "probe_session env sid s =
     (if alive env sid then s
      else emit (ExitedEv sid None)
             (set_meta sid (\<lambda>m. if sm_status m = StRunning then m\<lparr>sm_status := StError\<rparr> else m) s))"

definition health_probe :: "sup_env \<Rightarrow> supervisor \<Rightarrow> supervisor" where
  "health_probe env s =
     fold (probe_session env) (map fst (filter (\<lambda>(_, m). sm_status m = StRunning) (sessions s))) s"

section \<open>Health\<close>

definition heartbeat_of :: "supervisor \<Rightarrow> uuid \<Rightarrow> session_metadata \<Rightarrow> int" where
  "heartbeat_of s sid m =
     (case map_of (atomic_states s) sid of Some a \<Rightarrow> at_last_heartbeat a | None \<Rightarrow> timestamp (sm_last_heartbeat m))"

definition current_health :: "supervisor \<Rightarrow> uuid \<Rightarrow> session_metadata \<Rightarrow> session_health" where
  "current_health s sid m =
     (case map_of (atomic_states s) sid of Some a \<Rightarrow> u8_to_health (at_health a) | None \<Rightarrow> sm_health m)"

definition next_health :: "supervisor \<Rightarrow> int \<Rightarrow> session_health" where
  "next_health s delta_secs =
     (if delta_secs \<ge> stuck_after s then HStuck else if delta_secs \<ge> idle_after s then HIdle else HActive)"

definition health_differs :: "time \<Rightarrow> supervisor \<Rightarrow> uuid \<Rightarrow> session_metadata \<Rightarrow> bool" where
  "health_differs t s sid m \<longleftrightarrow> sm_status m = StRunning
     \<and> current_health s sid m \<noteq> next_health s (timestamp t - heartbeat_of s sid m)"

definition refresh_one :: "time \<Rightarrow> uuid \<Rightarrow> supervisor \<Rightarrow> supervisor" where
  "refresh_one t sid s =
    (case meta_of s sid of
       None \<Rightarrow> s
     | Some m \<Rightarrow>
         if \<not> health_differs t s sid m then s
         else
           let h = next_health s (timestamp t - heartbeat_of s sid m) in
           emit (Heartbeat sid h)
             (set_atomic sid (\<lambda>a. a\<lparr>at_health := health_to_u8 h\<rparr>) (set_meta sid (\<lambda>m. m\<lparr>sm_health := h\<rparr>) s)))"

text \<open>The two passes read the clock separately.\<close>

definition refresh_health :: "time \<Rightarrow> time \<Rightarrow> supervisor \<Rightarrow> supervisor" where
  "refresh_health t1 t2 s =
     fold (refresh_one t2) (map fst (filter (\<lambda>(sid, m). health_differs t1 s sid m) (sessions s))) s"

section \<open>Scrollback and redaction\<close>

definition append_scrollback :: "uuid \<Rightarrow> string \<Rightarrow> supervisor \<Rightarrow> supervisor" where
  "append_scrollback sid chunk s =
     s\<lparr>scrollback := AList.update sid ((case map_of (scrollback s) sid of None \<Rightarrow> [] | Some c \<Rightarrow> c) @ chunk) (scrollback s)\<rparr>"

text \<open>The reader task on one read: heartbeat, redaction, scrollback, event. \<open>None\<close> is a panic
  of the redaction, which ends the task.\<close>

definition reader_output :: "uuid \<Rightarrow> string option \<Rightarrow> supervisor \<Rightarrow> supervisor" where
  "reader_output sid out s =
     (case out of None \<Rightarrow> s | Some chunk \<Rightarrow> emit (OutputEv sid chunk) (append_scrollback sid chunk s))"

definition reader_beat :: "time \<Rightarrow> uuid \<Rightarrow> supervisor \<Rightarrow> supervisor" where
  "reader_beat t sid s =
     emit (Heartbeat sid HActive)
       (set_atomic sid (\<lambda>a. a\<lparr>at_last_heartbeat := timestamp t, at_health := health_to_u8 HActive\<rparr>) s)"

definition reader_chunk ::
  "regex_engine \<Rightarrow> runtime_redaction_config \<Rightarrow> time \<Rightarrow> uuid \<Rightarrow> string \<Rightarrow> stream_buffer \<Rightarrow> supervisor
     \<Rightarrow> stream_buffer option \<times> supervisor"
where
  "reader_chunk engine config t sid bytes buf s =
    (let s = reader_beat t sid s in
     case push_chunk engine config (redaction_secrets s) (from_utf8_lossy bytes) buf of
       None \<Rightarrow> (None, s)
     | Some (out, buf') \<Rightarrow> (Some buf', reader_output sid out s))"

definition reader_end ::
  "regex_engine \<Rightarrow> runtime_redaction_config \<Rightarrow> uuid \<Rightarrow> stream_buffer \<Rightarrow> supervisor \<Rightarrow> supervisor"
where
  "reader_end engine config sid buf s =
     (case finish engine config (redaction_secrets s) buf of
        None \<Rightarrow> s
      | Some (out, _) \<Rightarrow> reader_output sid out s)"

definition MAX_RE_REDACT_BYTES :: nat where
  "MAX_RE_REDACT_BYTES = 50 * 1024 * 1024"

text \<open>\<open>read_to_string\<close> fails on a log that is not UTF-8; then, and for a large log, nothing changes.\<close>

definition re_redact_scrollback ::
  "regex_engine \<Rightarrow> runtime_redaction_config \<Rightarrow> string list \<Rightarrow> uuid \<Rightarrow> supervisor \<Rightarrow> supervisor"
where
  "re_redact_scrollback engine config secrets sid s =
    (case map_of (scrollback s) sid of
       None \<Rightarrow> s
     | Some content \<Rightarrow>
         if length content > MAX_RE_REDACT_BYTES \<or> from_utf8_lossy content \<noteq> content then s
         else s\<lparr>scrollback := AList.update sid (redact_text engine config content secrets) (scrollback s)\<rparr>)"

text \<open>The sessions whose logs the new secrets make \<open>set_redaction_secrets\<close> rewrite, and the
  rewriting task.\<close>

definition set_redaction_secrets :: "string list \<Rightarrow> supervisor \<Rightarrow> uuid list \<times> supervisor" where
  "set_redaction_secrets secrets s =
    (let new_secrets = normalize_secrets secrets;
         old_secrets = redaction_secrets s;
         s = s\<lparr>redaction_secrets := new_secrets\<rparr>
     in if \<not> list_ex (\<lambda>x. x \<notin> set old_secrets) new_secrets then ([], s)
        else (map fst (filter (\<lambda>(sid, m). occupies_slot m \<and> map_of (scrollback_files s) sid \<noteq> None) (sessions s)), s))"

definition re_redact_task ::
  "regex_engine \<Rightarrow> runtime_redaction_config \<Rightarrow> string list \<Rightarrow> uuid list \<Rightarrow> supervisor \<Rightarrow> supervisor"
where
  "re_redact_task engine config secrets ids s = fold (re_redact_scrollback engine config secrets) ids s"

datatype read_start = Offset nat | Tail

record scrollback_slice =
  ss_session_id :: uuid
  ss_start_offset :: nat
  ss_end_offset :: nat
  ss_total_bytes :: nat
  ss_data :: string

definition MAX_SCROLLBACK_READ_BYTES :: nat where
  "MAX_SCROLLBACK_READ_BYTES = 10 * 1024 * 1024"

definition MAX_READ_LIMIT :: nat where
  "MAX_READ_LIMIT = 1024 * 1024"

text \<open>\<open>file.read\<close> may return fewer bytes than asked for: \<open>short_read\<close> gives the number.\<close>

definition read_scrollback_slice ::
  "regex_engine \<Rightarrow> runtime_redaction_config \<Rightarrow> (nat \<Rightarrow> nat) \<Rightarrow> uuid \<Rightarrow> read_start \<Rightarrow> nat \<Rightarrow> supervisor
     \<Rightarrow> session_error + scrollback_slice"
where
  "read_scrollback_slice engine config short_read sid start limit s =
    (case meta_of s sid of
       None \<Rightarrow> Err (NotFound sid)
     | Some _ \<Rightarrow>
         (case map_of (scrollback s) sid of
            None \<Rightarrow> Err (IoError ''No such file or directory'')
          | Some content \<Rightarrow>
              let total = length content in
              if total > MAX_SCROLLBACK_READ_BYTES then Err (ScrollbackTooLarge total MAX_SCROLLBACK_READ_BYTES)
              else
                let capped_limit = min limit MAX_READ_LIMIT;
                    from = (case start of Offset offset \<Rightarrow> min offset total | Tail \<Rightarrow> total - capped_limit);
                    read = short_read (min capped_limit (total - from));
                    data = from_utf8_lossy (take read (drop from content));
                    data = (if redaction_secrets s = [] then data
                            else redact_text engine config data (redaction_secrets s))
                in Ok \<lparr>ss_session_id = sid, ss_start_offset = from, ss_end_offset = from + read,
                       ss_total_bytes = total, ss_data = data\<rparr>))"

section \<open>Well-formed states\<close>

text \<open>The operations with everything they observe.\<close>

datatype sup_op =
    OpSpawn sup_env uuid uuid string string string
  | OpAttach sup_env uuid
  | OpRestore sup_env session_metadata
  | OpActivity sup_env uuid
  | OpInput sup_env uuid string
  | OpExitNotified sup_env uuid "32 word option"
  | OpMarkExit sup_env uuid "32 word option"
  | OpProbe sup_env
  | OpRefresh time time
  | OpSecrets "string list"
  | OpReader regex_engine runtime_redaction_config time uuid string stream_buffer
  | OpReaderEnd regex_engine runtime_redaction_config uuid stream_buffer
  | OpReRedact regex_engine runtime_redaction_config "string list" "uuid list"

fun sup_exec :: "sup_op \<Rightarrow> supervisor \<Rightarrow> supervisor" where
  "sup_exec (OpSpawn env sid project name cwd command) s = snd (spawn_shell env sid project name cwd command s)"
| "sup_exec (OpAttach env sid) s = snd (attach_existing env sid s)"
| "sup_exec (OpRestore env m) s = snd (register_restored env m s)"
| "sup_exec (OpActivity env sid) s = snd (mark_activity env sid s)"
| "sup_exec (OpInput env sid input) s = snd (send_input env sid input s)"
| "sup_exec (OpExitNotified env sid code) s = exit_notified env sid code s"
| "sup_exec (OpMarkExit env sid code) s = snd (mark_exit env sid code s)"
| "sup_exec (OpProbe env) s = health_probe env s"
| "sup_exec (OpRefresh t1 t2) s = refresh_health t1 t2 s"
| "sup_exec (OpSecrets secrets) s = snd (set_redaction_secrets secrets s)"
| "sup_exec (OpReader engine config t sid bytes buf) s = snd (reader_chunk engine config t sid bytes buf s)"
| "sup_exec (OpReaderEnd engine config sid buf) s = reader_end engine config sid buf s"
| "sup_exec (OpReRedact engine config secrets ids) s = re_redact_task engine config secrets ids s"

text \<open>A spawn draws a fresh identifier.\<close>

fun op_fresh :: "sup_op \<Rightarrow> supervisor \<Rightarrow> bool" where
  "op_fresh (OpSpawn env sid project name cwd command) s \<longleftrightarrow> sid \<notin> fst ` set (sessions s)"
| "op_fresh _ s \<longleftrightarrow> True"

fun fresh_run :: "sup_op list \<Rightarrow> supervisor \<Rightarrow> bool" where
  "fresh_run [] s \<longleftrightarrow> True"
| "fresh_run (p # ps) s \<longleftrightarrow> op_fresh p s \<and> fresh_run ps (sup_exec p s)"

definition sup_wf :: "supervisor \<Rightarrow> bool" where
  "sup_wf s \<longleftrightarrow> distinct (map fst (sessions s)) \<and> list_all (\<lambda>(k, m). sm_id m = k) (sessions s)
     \<and> fst ` set (atomic_states s) \<subseteq> fst ` set (sessions s) \<and> fst ` set (inputs s) \<subseteq> fst ` set (sessions s)
     \<and> fst ` set (scrollback_files s) \<subseteq> fst ` set (sessions s)
     \<and> fst ` set (socket_servers s) \<subseteq> fst ` set (sessions s)"

lemma emit_fields [simp]:
  "sessions (emit e s) = sessions s" "atomic_states (emit e s) = atomic_states s" "inputs (emit e s) = inputs s"
  "scrollback_files (emit e s) = scrollback_files s" "socket_servers (emit e s) = socket_servers s"
  "max_sessions (emit e s) = max_sessions s" "scrollback (emit e s) = scrollback s"
  "idle_after (emit e s) = idle_after s" "stuck_after (emit e s) = stuck_after s"
  "redaction_secrets (emit e s) = redaction_secrets s" "kind (emit e s) = kind s"
  by (simp_all add: emit_def)

lemma set_meta_fields [simp]:
  "sessions (set_meta sid f s) = update_value sid f (sessions s)"
  "atomic_states (set_meta sid f s) = atomic_states s" "inputs (set_meta sid f s) = inputs s"
  "scrollback_files (set_meta sid f s) = scrollback_files s" "socket_servers (set_meta sid f s) = socket_servers s"
  "max_sessions (set_meta sid f s) = max_sessions s" "scrollback (set_meta sid f s) = scrollback s"
  "idle_after (set_meta sid f s) = idle_after s" "stuck_after (set_meta sid f s) = stuck_after s"
  "redaction_secrets (set_meta sid f s) = redaction_secrets s" "kind (set_meta sid f s) = kind s"
  by (simp_all add: set_meta_def)

lemma set_atomic_fields [simp]:
  "sessions (set_atomic sid g s) = sessions s"
  "atomic_states (set_atomic sid g s) = update_value sid g (atomic_states s)" "inputs (set_atomic sid g s) = inputs s"
  "scrollback_files (set_atomic sid g s) = scrollback_files s" "socket_servers (set_atomic sid g s) = socket_servers s"
  "max_sessions (set_atomic sid g s) = max_sessions s" "scrollback (set_atomic sid g s) = scrollback s"
  "idle_after (set_atomic sid g s) = idle_after s" "stuck_after (set_atomic sid g s) = stuck_after s"
  "redaction_secrets (set_atomic sid g s) = redaction_secrets s" "kind (set_atomic sid g s) = kind s"
  by (simp_all add: set_atomic_def)

lemma drop_io_fields [simp]:
  "sessions (drop_io sid s) = sessions s" "atomic_states (drop_io sid s) = atomic_states s"
  "inputs (drop_io sid s) = AList.delete sid (inputs s)"
  "scrollback_files (drop_io sid s) = AList.delete sid (scrollback_files s)"
  "socket_servers (drop_io sid s) = AList.delete sid (socket_servers s)"
  "max_sessions (drop_io sid s) = max_sessions s"
  by (simp_all add: drop_io_def)

lemma reader_fields [simp]:
  "sessions (reader_output sid out s) = sessions s" "atomic_states (reader_output sid out s) = atomic_states s"
  "inputs (reader_output sid out s) = inputs s" "scrollback_files (reader_output sid out s) = scrollback_files s"
  "socket_servers (reader_output sid out s) = socket_servers s" "max_sessions (reader_output sid out s) = max_sessions s"
  "idle_after (reader_output sid out s) = idle_after s" "stuck_after (reader_output sid out s) = stuck_after s"
  by (auto simp: reader_output_def append_scrollback_def split: option.splits)

lemma reader_beat_fields [simp]:
  "sessions (reader_beat t sid s) = sessions s"
  "atomic_states (reader_beat t sid s)
     = update_value sid (\<lambda>a. a\<lparr>at_last_heartbeat := timestamp t, at_health := health_to_u8 HActive\<rparr>) (atomic_states s)"
  "inputs (reader_beat t sid s) = inputs s" "scrollback_files (reader_beat t sid s) = scrollback_files s"
  "socket_servers (reader_beat t sid s) = socket_servers s" "max_sessions (reader_beat t sid s) = max_sessions s"
  "idle_after (reader_beat t sid s) = idle_after s" "stuck_after (reader_beat t sid s) = stuck_after s"
  by (simp_all add: reader_beat_def)

lemma touch_scrollback_fields [simp]:
  "sessions (touch_scrollback sid s) = sessions s" "atomic_states (touch_scrollback sid s) = atomic_states s"
  "inputs (touch_scrollback sid s) = inputs s" "scrollback_files (touch_scrollback sid s) = scrollback_files s"
  "socket_servers (touch_scrollback sid s) = socket_servers s" "max_sessions (touch_scrollback sid s) = max_sessions s"
  by (simp_all add: touch_scrollback_def split: option.splits)

lemma re_redact_fields [simp]:
  "sessions (re_redact_task engine config secrets ids s) = sessions s
   \<and> atomic_states (re_redact_task engine config secrets ids s) = atomic_states s
   \<and> inputs (re_redact_task engine config secrets ids s) = inputs s
   \<and> scrollback_files (re_redact_task engine config secrets ids s) = scrollback_files s
   \<and> socket_servers (re_redact_task engine config secrets ids s) = socket_servers s
   \<and> max_sessions (re_redact_task engine config secrets ids s) = max_sessions s"
  unfolding re_redact_task_def
  by (induction ids arbitrary: s) (auto simp: re_redact_scrollback_def split: option.splits)

lemma list_all_update_value:
  "list_all (\<lambda>(k, m). sm_id m = k) xs \<Longrightarrow> (\<And>m. sm_id (f m) = sm_id m) \<Longrightarrow>
   list_all (\<lambda>(k, m). sm_id m = k) (update_value sid f xs)"
  by (induction xs) (auto simp: update_value_def)

lemma list_all_AList_update:
  "list_all P xs \<Longrightarrow> P (k, v) \<Longrightarrow> list_all P (AList.update k v xs)"
  using set_AList_update[of k v xs] by (auto simp: list_all_iff)

lemma list_all_AList_delete: "list_all P xs \<Longrightarrow> list_all P (AList.delete k xs)"
  using set_AList_delete[of k xs] by (auto simp: list_all_iff)

lemma sup_wf_set_meta:
  "sup_wf s \<Longrightarrow> (\<And>m. sm_id (f m) = sm_id m) \<Longrightarrow> sup_wf (set_meta sid f s)"
  by (simp add: sup_wf_def list_all_update_value)

lemma sup_wf_set_atomic: "sup_wf s \<Longrightarrow> sup_wf (set_atomic sid g s)"
  by (simp add: sup_wf_def)

lemma sup_wf_emit: "sup_wf s \<Longrightarrow> sup_wf (emit e s)"
  by (simp add: sup_wf_def)

lemma sup_wf_drop_io: "sup_wf s \<Longrightarrow> sup_wf (drop_io sid s)"
  by (auto simp: sup_wf_def keys_delete)

lemmas sup_wf_intros = sup_wf_set_meta sup_wf_set_atomic sup_wf_emit sup_wf_drop_io

lemma wire_wf:
  assumes "sup_wf s" and "sid \<in> fst ` set (sessions s)"
  shows "sup_wf (snd (wire_backend_handle env sid handle path s))"
proof -
  have "sup_wf (s\<lparr>inputs := AList.update sid (bh_io handle) (inputs s)\<rparr>)"
    using assms by (auto simp: sup_wf_def keys_update)
  then show ?thesis using assms(2)
    by (auto simp: wire_backend_handle_def Let_def sup_wf_def keys_update list_all_update_value split: option.splits)
qed

lemma register_wf:
  assumes "sup_wf s"
  shows "sup_wf (register_atomic m (s\<lparr>sessions := AList.update (sm_id m) m (sessions s)\<rparr>))"
  using assms by (auto simp: register_atomic_def sup_wf_def keys_update distinct_update list_all_AList_update)

lemma roll_back_wf:
  assumes "sup_wf s" and "sid \<notin> fst ` set (socket_servers s)"
  shows "sup_wf (roll_back_spawn sid s)"
  using assms by (auto simp: roll_back_spawn_def sup_wf_def keys_delete distinct_delete list_all_AList_delete)

lemma wire_sessions: "\<exists>f. sessions (snd (wire_backend_handle env sid handle path s)) = update_value sid f (sessions s)"
proof -
  have "sessions s = update_value sid (\<lambda>m. m) (sessions s)" by (simp add: update_value_def case_prod_unfold)
  then show ?thesis
    by (cases "meta_of s sid") (auto simp: wire_backend_handle_def Let_def split: option.splits)
qed

lemma wire_frame [simp]:
  "atomic_states (snd (wire_backend_handle env sid handle path s)) = atomic_states s"
  "inputs (snd (wire_backend_handle env sid handle path s)) = AList.update sid (bh_io handle) (inputs s)"
  "scrollback_files (snd (wire_backend_handle env sid handle path s)) = scrollback_files s
     \<or> scrollback_files (snd (wire_backend_handle env sid handle path s)) = AList.update sid path (scrollback_files s)"
  "\<not> is_ok (fst (wire_backend_handle env sid handle path s)) \<Longrightarrow>
     socket_servers (snd (wire_backend_handle env sid handle path s)) = socket_servers s"
  by (auto simp: wire_backend_handle_def Let_def split: option.splits if_splits)

lemma finish_spawn_cases:
  obtains (same) e where "finish_spawn env sid path s = (Err e, s)"
  | (touched) e where "finish_spawn env sid path s = (Err e, touch_scrollback sid s)"
  | (wired) handle where "create_result env = Ok handle"
      and "finish_spawn env sid path s = wire_backend_handle env sid handle path (touch_scrollback sid s)"
  by (cases "create_dir_error env"; cases "open_error env"; cases "create_result env") (auto simp: finish_spawn_def)

lemma finish_spawn_frame:
  assumes "finish_spawn env sid path s = (r, s')" and "sid \<in> fst ` set (sessions s)" and "sup_wf s"
  shows "sup_wf s'" and "\<not> is_ok r \<Longrightarrow> socket_servers s' = socket_servers s"
    and "\<exists>f. sessions s' = update_value sid f (sessions s)"
    and "atomic_states s' = atomic_states s"
    and "inputs s' = inputs s \<or> (\<exists>io. inputs s' = AList.update sid io (inputs s))"
    and "scrollback_files s' = scrollback_files s \<or> scrollback_files s' = AList.update sid path (scrollback_files s)"
proof -
  have same: "\<exists>f. xs = update_value sid f xs" for xs :: "(uuid \<times> session_metadata) list"
    by (rule exI[of _ "\<lambda>m. m"]) (simp add: update_value_def case_prod_unfold)
  have t: "sup_wf (touch_scrollback sid s)" using assms(3) by (simp add: sup_wf_def)
  have "sup_wf s' \<and> (\<not> is_ok r \<longrightarrow> socket_servers s' = socket_servers s)
    \<and> (\<exists>f. sessions s' = update_value sid f (sessions s)) \<and> atomic_states s' = atomic_states s
    \<and> (inputs s' = inputs s \<or> (\<exists>io. inputs s' = AList.update sid io (inputs s)))
    \<and> (scrollback_files s' = scrollback_files s \<or> scrollback_files s' = AList.update sid path (scrollback_files s))"
  proof (cases rule: finish_spawn_cases[of env sid path s])
    case (same e)
    then show ?thesis using assms \<open>\<And>xs. \<exists>f. xs = update_value sid f xs\<close> by simp
  next
    case (touched e)
    then show ?thesis using assms t \<open>\<And>xs. \<exists>f. xs = update_value sid f xs\<close> by auto
  next
    case (wired handle)
    let ?w = "wire_backend_handle env sid handle path (touch_scrollback sid s)"
    have eq: "r = fst ?w" "s' = snd ?w" using wired assms(1) by (metis fst_conv, metis snd_conv)
    show ?thesis
      using wire_wf[OF t, of sid env handle path] wire_sessions[of env sid handle path "touch_scrollback sid s"]
        wire_frame[of env sid handle path "touch_scrollback sid s"] assms(2)
      unfolding eq by auto
  qed
  then show "sup_wf s'" "\<not> is_ok r \<Longrightarrow> socket_servers s' = socket_servers s"
    "\<exists>f. sessions s' = update_value sid f (sessions s)" "atomic_states s' = atomic_states s"
    "inputs s' = inputs s \<or> (\<exists>io. inputs s' = AList.update sid io (inputs s))"
    "scrollback_files s' = scrollback_files s \<or> scrollback_files s' = AList.update sid path (scrollback_files s)"
    by blast+
qed

lemma spawn_wf:
  assumes "sup_wf s" and "sid \<notin> fst ` set (sessions s)"
  shows "sup_wf (snd (spawn_shell env sid project name cwd command s))"
proof (cases "active_sessions s \<ge> max_sessions s")
  case True
  then show ?thesis using assms by (simp add: spawn_shell_def reserve_slot_def Let_def)
next
  case False
  let ?m = "new_metadata env sid project name cwd command s"
  let ?s = "register_atomic ?m (s\<lparr>sessions := AList.update sid ?m (sessions s)\<rparr>)"
  have id: "sm_id ?m = sid" by (simp add: new_metadata_def)
  have wf: "sup_wf ?s" using register_wf[OF assms(1), of ?m] by (simp add: id)
  have key: "sid \<in> fst ` set (sessions ?s)" by (simp add: register_atomic_def keys_update)
  obtain r s' where fin: "finish_spawn env sid (sm_scrollback_path ?m) ?s = (r, s')" by force
  note frame = finish_spawn_frame[OF fin key wf]
  have "sid \<notin> fst ` set (socket_servers s)" using assms by (auto simp: sup_wf_def)
  then have "\<not> is_ok r \<Longrightarrow> sup_wf (roll_back_spawn sid s')"
    using frame(1,2) by (intro roll_back_wf) (simp_all add: register_atomic_def)
  then show ?thesis
    using False fin frame(1) by (auto simp: spawn_shell_def reserve_slot_def Let_def id sup_wf_emit split: sum.splits option.splits)
qed

lemma probe_wf: "sup_wf s \<Longrightarrow> sup_wf (probe_session env sid s)"
  by (auto simp: probe_session_def intro!: sup_wf_intros)

lemma refresh_one_wf: "sup_wf s \<Longrightarrow> sup_wf (refresh_one t sid s)"
  by (auto simp: refresh_one_def Let_def intro!: sup_wf_intros split: option.splits)

lemma fold_wf: "(\<And>x s. sup_wf s \<Longrightarrow> sup_wf (f x s)) \<Longrightarrow> sup_wf s \<Longrightarrow> sup_wf (fold f xs s)"
  by (induction xs arbitrary: s) auto

lemma mark_activity_wf: "sup_wf s \<Longrightarrow> sup_wf (snd (mark_activity env sid s))"
  by (auto simp: mark_activity_def Let_def intro!: sup_wf_intros split: option.splits)

lemma send_input_wf: "sup_wf s \<Longrightarrow> sup_wf (snd (send_input env sid input s))"
  using mark_activity_wf by (auto simp: send_input_def split: option.splits)

lemma attach_wf: "sup_wf s \<Longrightarrow> sup_wf (snd (attach_existing env sid s))"
  using wire_wf[of s sid env] by (auto simp: attach_existing_def lookup_in_keys[symmetric] split: option.splits sum.splits)

lemma mark_exit_wf: "sup_wf s \<Longrightarrow> sup_wf (snd (mark_exit env sid code s))"
  by (auto simp: mark_exit_def Let_def sup_wf_def keys_delete list_all_update_value split: option.splits)


section \<open>A concrete run\<close>

definition sample_env :: sup_env where
  "sample_env = \<lparr>now = 5 * nanos_per_sec, create_result = Ok \<lparr>bh_pid = Some 7, bh_io = 1\<rparr>,
     attach_result = Ok \<lparr>bh_pid = Some 8, bh_io = 2\<rparr>, alive = (\<lambda>_. True), create_dir_error = None,
     open_error = None, open_rw_ok = True, socket_ok = True, write_error = None, show_id = (\<lambda>_. ''s'')\<rparr>"

definition sample_meta :: "uuid \<Rightarrow> session_status \<Rightarrow> session_metadata" where
  "sample_meta sid st = \<lparr>sm_id = sid, sm_project_id = 0, sm_name = ''w'', sm_status = st, sm_health = HStuck,
     sm_pid = None, sm_cwd = ''/'', sm_command = ''zsh'', sm_branch = None, sm_worktree_id = None,
     sm_started_at = 0, sm_last_heartbeat = 0, sm_scrollback_path = ''p'', sm_exit_code = None,
     sm_ended_at = None, sm_backend_kind = ''local_pty'', sm_durability = ''ephemeral''\<rparr>"


section \<open>The session limit\<close>

definition op_revives :: "sup_op \<Rightarrow> bool" where
  "op_revives p \<longleftrightarrow> (case p of OpAttach _ _ \<Rightarrow> True | OpActivity _ _ \<Rightarrow> True | OpInput _ _ _ \<Rightarrow> True
     | OpExitNotified _ _ _ \<Rightarrow> True | _ \<Rightarrow> False)"

lemma active_update_value:
  assumes "\<And>m. occupies_slot (f m) \<Longrightarrow> occupies_slot m" and "distinct (map fst xs)"
  shows "length (filter (\<lambda>(_, m). occupies_slot m) (update_value sid f xs))
    \<le> length (filter (\<lambda>(_, m). occupies_slot m) xs)"
  using assms by (intro filter_update_value_le) auto

lemma sup_wf_distinct: "sup_wf s \<Longrightarrow> distinct (map fst (sessions s))"
  by (simp add: sup_wf_def)

lemma active_unchanged [simp]:
  "active_sessions (emit e s) = active_sessions s" "active_sessions (set_atomic sid g s) = active_sessions s"
  "active_sessions (drop_io sid s) = active_sessions s" "active_sessions (s\<lparr>atomic_states := a\<rparr>) = active_sessions s"
  by (simp_all add: active_sessions_def)

lemma active_set_meta:
  assumes "sup_wf s" and "\<And>m. occupies_slot (f m) \<Longrightarrow> occupies_slot m"
  shows "active_sessions (set_meta sid f s) \<le> active_sessions s"
  using active_update_value[of f "sessions s" sid] assms sup_wf_distinct[OF assms(1)]
  by (simp add: active_sessions_def)

lemma probe_active:
  assumes "sup_wf s"
  shows "active_sessions (probe_session env sid s) \<le> active_sessions s \<and> sup_wf (probe_session env sid s)
     \<and> max_sessions (probe_session env sid s) = max_sessions s"
  using probe_wf[OF assms, of env sid]
  by (auto simp: probe_session_def occupies_slot_def intro!: active_set_meta[OF assms] split: if_splits)

lemma refresh_one_active:
  assumes "sup_wf s"
  shows "active_sessions (refresh_one t sid s) \<le> active_sessions s \<and> sup_wf (refresh_one t sid s)
     \<and> max_sessions (refresh_one t sid s) = max_sessions s"
  using refresh_one_wf[OF assms, of t sid]
  by (auto simp: refresh_one_def Let_def occupies_slot_def intro!: active_set_meta[OF assms] split: option.splits)

lemma fold_sup_active:
  assumes "\<And>x s. sup_wf s \<Longrightarrow> active_sessions (f x s) \<le> active_sessions s \<and> sup_wf (f x s)
     \<and> max_sessions (f x s) = max_sessions (s :: supervisor)" and "sup_wf s"
  shows "active_sessions (fold f xs s) \<le> active_sessions s \<and> max_sessions (fold f xs s) = max_sessions s"
  using assms(2)
proof (induction xs arbitrary: s)
  case (Cons x xs)
  show ?case using Cons.IH[of "f x s"] assms(1)[OF Cons.prems, of x] by auto
qed simp



lemma reserve_active:
  assumes "reserve_slot m s = (Ok u, s')"
  shows "active_sessions s' \<le> max_sessions s" "s' = s\<lparr>sessions := AList.update (sm_id m) m (sessions s)\<rparr>"
  using assms filter_update_le[of "\<lambda>(_, m). occupies_slot m" "sm_id m" m "sessions s"]
  by (auto simp: reserve_slot_def active_sessions_def split: if_splits)

lemma finish_active:
  assumes "finish_spawn env sid path s = (r, s')" and "sup_wf s" and "map_of (sessions s) sid = Some m"
    and "occupies_slot m"
  shows "active_sessions s' \<le> active_sessions s" "max_sessions s' = max_sessions s"
proof -
  have key: "sid \<in> fst ` set (sessions s)" using assms(3) by (metis lookup_in_keys option.distinct(1))
  obtain f where f: "sessions s' = update_value sid f (sessions s)"
    using finish_spawn_frame(3)[OF assms(1) key assms(2)] by blast
  show "active_sessions s' \<le> active_sessions s"
    unfolding active_sessions_def f using assms(3,4) sup_wf_distinct[OF assms(2)]
    by (intro filter_update_value_le) auto
  have "max_sessions (snd (wire_backend_handle env sid h path t)) = max_sessions t" for h t
    by (simp add: wire_backend_handle_def Let_def split: option.splits)
  then show "max_sessions s' = max_sessions s"
    using assms(1) by (cases rule: finish_spawn_cases[of env sid path s]) (auto, metis snd_conv touch_scrollback_fields(6))
qed

lemma spawn_active:
  assumes "sup_wf s" and "sid \<notin> fst ` set (sessions s)" and "active_sessions s \<le> max_sessions s"
  shows "active_sessions (snd (spawn_shell env sid project name cwd command s)) \<le> max_sessions s
    \<and> max_sessions (snd (spawn_shell env sid project name cwd command s)) = max_sessions s"
proof (cases "active_sessions s \<ge> max_sessions s")
  case True
  then show ?thesis using assms by (simp add: spawn_shell_def reserve_slot_def Let_def)
next
  case False
  let ?m = "new_metadata env sid project name cwd command s"
  let ?s = "register_atomic ?m (s\<lparr>sessions := AList.update sid ?m (sessions s)\<rparr>)"
  have m: "sm_id ?m = sid" "occupies_slot ?m" by (simp_all add: new_metadata_def occupies_slot_def)
  have reserve: "reserve_slot ?m s = (Ok (), s\<lparr>sessions := AList.update sid ?m (sessions s)\<rparr>)"
    using False by (simp add: reserve_slot_def m)
  have wf: "sup_wf ?s" using register_wf[OF assms(1), of ?m] by (simp add: m)
  have le: "active_sessions ?s \<le> max_sessions s"
    using reserve_active(1)[OF reserve] by (simp add: active_sessions_def register_atomic_def)
  obtain r s' where fin: "finish_spawn env sid (sm_scrollback_path ?m) ?s = (r, s')" by force
  have act: "active_sessions s' \<le> max_sessions s" "max_sessions s' = max_sessions s"
    using finish_active[OF fin wf _ m(2)] le by (auto simp: register_atomic_def)
  then have "active_sessions (roll_back_spawn sid s') \<le> max_sessions s"
    using filter_delete_le[of "\<lambda>(_, m). occupies_slot m" sid "sessions s'"]
    by (simp add: roll_back_spawn_def active_sessions_def)
  moreover have "max_sessions (roll_back_spawn sid s') = max_sessions s"
    using act by (simp add: roll_back_spawn_def)
  ultimately show ?thesis
    using fin act by (auto simp: spawn_shell_def reserve Let_def split: sum.splits option.splits)
qed

lemma restore_active:
  assumes "active_sessions s \<le> max_sessions s"
  shows "active_sessions (snd (register_restored env m s)) \<le> max_sessions s
    \<and> max_sessions (snd (register_restored env m s)) = max_sessions s"
proof -
  let ?m = "m\<lparr>sm_scrollback_path := canonical_scrollback_path env (sm_id m) s\<rparr>"
  show ?thesis
    using assms filter_update_le[of "\<lambda>(_, m). occupies_slot m" "sm_id m" ?m "sessions s"]
      filter_update_not[of "\<lambda>(_, m). occupies_slot m" "sm_id m" ?m "sessions s"]
    by (cases "occupies_slot ?m")
       (auto simp: register_restored_def register_atomic_def Let_def active_sessions_def)
qed

lemma mark_exit_active:
  assumes "sup_wf s"
  shows "active_sessions (snd (mark_exit env sid code s)) \<le> active_sessions s
    \<and> max_sessions (snd (mark_exit env sid code s)) = max_sessions s"
  by (auto simp: mark_exit_def Let_def occupies_slot_def intro!: active_set_meta[OF assms] split: option.splits)

text \<open>
  C33. The number of running and waiting sessions never exceeds the limit of the supervisor by
  a spawn, a restore, an exit, a health probe or refresh, a reader or the redaction: in
  particular the slot of a spawn is reserved and checked in one step.
\<close>
theorem session_limit_kept:
  assumes "sup_wf s" and "op_fresh p s" and "\<not> op_revives p" and "active_sessions s \<le> max_sessions s"
  shows "active_sessions (sup_exec p s) \<le> max_sessions (sup_exec p s)"
proof (cases p)
  case (OpSpawn env sid project name cwd command)
  then show ?thesis using spawn_active[OF assms(1) _ assms(4)] assms(2) by simp
next
  case (OpRestore env m)
  then show ?thesis using restore_active[OF assms(4)] by simp
next
  case (OpMarkExit env sid code)
  then show ?thesis using mark_exit_active[OF assms(1), of env sid code] assms(4) by auto
next
  case (OpProbe env)
  then show ?thesis using fold_sup_active[of "probe_session env", OF probe_active assms(1)] assms(4)
    by (auto simp: health_probe_def intro: order.trans)
next
  case (OpRefresh t1 t2)
  then show ?thesis using fold_sup_active[of "refresh_one t2", OF refresh_one_active assms(1)] assms(4)
    by (auto simp: refresh_health_def intro: order.trans)
qed (use assms in \<open>auto simp: op_revives_def active_sessions_def set_redaction_secrets_def reader_chunk_def
    reader_end_def Let_def split: option.splits\<close>)

theorem session_limit_kept_witness:
  "active_sessions (sup_exec (OpSpawn sample_env 1 0 ''a'' ''/'' '''') (sup_new ''/d'' LocalPty Ephemeral))
     \<le> max_sessions (sup_exec (OpSpawn sample_env 1 0 ''a'' ''/'' '''') (sup_new ''/d'' LocalPty Ephemeral))"
  by (rule session_limit_kept) (simp_all add: sup_wf_def sup_new_def op_revives_def active_sessions_def)

text \<open>
  Attaching to a session that ended or failed makes it a running one without asking for a
  slot: the number of active sessions grows by one, also when the limit is reached.
\<close>
theorem attach_ignores_limit:
  assumes "sup_wf s" and "meta_of s sid = Some m" and "\<not> occupies_slot m" and "map_of (inputs s) sid = None"
    and "alive env sid" and "attach_result env = Ok handle"
  shows "active_sessions (snd (attach_existing env sid s)) = Suc (active_sessions s)"
proof -
  have "length (filter (\<lambda>(_, m). occupies_slot m) (update_value sid (\<lambda>m. m\<lparr>sm_pid := bh_pid handle,
            sm_status := StRunning, sm_health := HActive, sm_last_heartbeat := now env,
            sm_exit_code := None, sm_ended_at := None\<rparr>) (sessions s)))
      = Suc (length (filter (\<lambda>(_, m). occupies_slot m) (sessions s)))"
    using assms(2,3) sup_wf_distinct[OF assms(1)]
    by (intro filter_update_value_new) (auto simp: occupies_slot_def)
  then show ?thesis
    using assms by (auto simp: attach_existing_def wire_backend_handle_def Let_def active_sessions_def)
qed

theorem attach_ignores_limit_witness:
  "active_sessions (snd (attach_existing sample_env 2
     ((sup_new ''/d'' LocalPty Ephemeral)\<lparr>sessions := [(1, sample_meta 1 StRunning), (2, sample_meta 2 StComplete)],
        max_sessions := 1\<rparr>))) = 2"
proof -
  let ?s = "(sup_new ''/d'' LocalPty Ephemeral)\<lparr>sessions := [(1, sample_meta 1 StRunning), (2, sample_meta 2 StComplete)],
        max_sessions := 1\<rparr>"
  have "active_sessions ?s = 1" by (simp add: active_sessions_def occupies_slot_def sample_meta_def)
  then show ?thesis
    using attach_ignores_limit[of ?s 2 "sample_meta 2 StComplete" sample_env "\<lparr>bh_pid = Some 8, bh_io = 2\<rparr>"]
    by (simp add: sup_wf_def sup_new_def sample_meta_def occupies_slot_def sample_env_def)
qed

section \<open>A failed spawn\<close>

text \<open>
  A spawn that fails after its slot was reserved, at whatever point, leaves no trace in the
  maps of the supervisor: sessions, health atomics, input handles, scrollback handles and
  sockets are those of before.
\<close>
theorem failed_spawn_leaves_no_trace:
  assumes "sup_wf s" and "sid \<notin> fst ` set (sessions s)"
    and "spawn_shell env sid project name cwd command s = (Err e, s')"
  shows "sessions s' = sessions s \<and> atomic_states s' = atomic_states s \<and> inputs s' = inputs s
    \<and> scrollback_files s' = scrollback_files s \<and> socket_servers s' = socket_servers s"
proof (cases "active_sessions s \<ge> max_sessions s")
  case True
  then show ?thesis using assms by (simp add: spawn_shell_def reserve_slot_def Let_def)
next
  case False
  let ?m = "new_metadata env sid project name cwd command s"
  let ?s = "register_atomic ?m (s\<lparr>sessions := AList.update sid ?m (sessions s)\<rparr>)"
  have id: "sm_id ?m = sid" by (simp add: new_metadata_def)
  have wf: "sup_wf ?s" using register_wf[OF assms(1), of ?m] by (simp add: id)
  have key: "sid \<in> fst ` set (sessions ?s)" by (simp add: register_atomic_def keys_update)
  obtain r t where fin: "finish_spawn env sid (sm_scrollback_path ?m) ?s = (r, t)" by force
  note frame = finish_spawn_frame[OF fin key wf]
  have fresh: "sid \<notin> fst ` set (atomic_states s)" "sid \<notin> fst ` set (inputs s)" "sid \<notin> fst ` set (scrollback_files s)"
    using assms(1,2) by (auto simp: sup_wf_def)
  obtain f where f: "sessions t = update_value sid f (sessions ?s)" using frame(3) by blast
  then have "meta_of t sid \<noteq> None" using key unfolding lookup_in_keys by simp
  then have "\<not> is_ok r \<and> s' = roll_back_spawn sid t"
    using assms(3) False fin
    by (auto simp: spawn_shell_def reserve_slot_def id emit_def Let_def split: sum.splits option.splits)
  moreover note f
  ultimately show ?thesis
    using frame(2,4,5,6) fresh assms(2)
    by (auto simp: roll_back_spawn_def register_atomic_def id delete_update_value delete_update delete_fresh)
qed

theorem failed_spawn_leaves_no_trace_witness:
  "sessions (snd (spawn_shell (sample_env\<lparr>create_result := Err (SpawnFailed ''no shell'')\<rparr>) 1 0 ''a'' ''/'' ''''
      (sup_new ''/d'' LocalPty Ephemeral))) = []"
proof -
  let ?env = "sample_env\<lparr>create_result := Err (SpawnFailed ''no shell'')\<rparr>" and ?s = "sup_new ''/d'' LocalPty Ephemeral"
  obtain r s' where run: "spawn_shell ?env 1 0 ''a'' ''/'' '''' ?s = (r, s')" by force
  then have "r = Err (SpawnFailed ''no shell'')"
    by (simp add: spawn_shell_def reserve_slot_def finish_spawn_def active_sessions_def sup_new_def sample_env_def
        Let_def split: option.splits)
  with failed_spawn_leaves_no_trace[of ?s 1 ?env 0 "''a''" "''/''" "''''" "SpawnFailed ''no shell''" s'] run
  show ?thesis by (simp add: sup_wf_def sup_new_def)
qed

section \<open>Health over time\<close>

lemma u8_to_health_to_u8 [simp]: "u8_to_health (health_to_u8 h) = h"
  by (cases h) (simp_all add: u8_to_health_def)

lemma refresh_one_other:
  assumes "sid' \<noteq> sid"
  shows "meta_of (refresh_one t sid' s) sid = meta_of s sid"
    and "map_of (atomic_states (refresh_one t sid' s)) sid = map_of (atomic_states s) sid"
  using assms by (auto simp: refresh_one_def Let_def map_of_update_value split: option.splits)

lemma refresh_one_limits [simp]:
  "idle_after (refresh_one t sid s) = idle_after s" "stuck_after (refresh_one t sid s) = stuck_after s"
  by (auto simp: refresh_one_def Let_def split: option.splits)

lemma fold_refresh_frame:
  "idle_after (fold (refresh_one t) ids s) = idle_after s \<and> stuck_after (fold (refresh_one t) ids s) = stuck_after s
   \<and> (sid \<notin> set ids \<longrightarrow> meta_of (fold (refresh_one t) ids s) sid = meta_of s sid
        \<and> map_of (atomic_states (fold (refresh_one t) ids s)) sid = map_of (atomic_states s) sid)"
  by (induction ids arbitrary: s) (auto simp: refresh_one_other)

lemmas fold_refresh_other = fold_refresh_frame[THEN conjunct2, THEN conjunct2, rule_format]

lemma next_health_frame: "idle_after s' = idle_after s \<Longrightarrow> stuck_after s' = stuck_after s \<Longrightarrow> next_health s' = next_health s"
  by (simp add: next_health_def fun_eq_iff)

lemma fold_refresh_self:
  assumes "distinct ids" and "sid \<in> set ids"
  shows "meta_of (fold (refresh_one t) ids s) sid = meta_of (refresh_one t sid s) sid
    \<and> map_of (atomic_states (fold (refresh_one t) ids s)) sid = map_of (atomic_states (refresh_one t sid s)) sid"
proof -
  obtain xs ys where ids: "ids = xs @ sid # ys" using assms(2) by (meson split_list)
  let ?s = "fold (refresh_one t) xs s"
  have notin: "sid \<notin> set xs" "sid \<notin> set ys" using assms(1) ids by auto
  have eq: "meta_of ?s sid = meta_of s sid" "map_of (atomic_states ?s) sid = map_of (atomic_states s) sid"
    using fold_refresh_other[OF notin(1)] by auto
  have limits: "next_health ?s = next_health s" using fold_refresh_frame next_health_frame by blast
  have "health_differs t ?s sid m = health_differs t s sid m" for m
    by (simp add: health_differs_def current_health_def heartbeat_of_def eq limits)
  then have "meta_of (refresh_one t sid ?s) sid = meta_of (refresh_one t sid s) sid
    \<and> map_of (atomic_states (refresh_one t sid ?s)) sid = map_of (atomic_states (refresh_one t sid s)) sid"
    by (auto simp: refresh_one_def Let_def map_of_update_value eq limits heartbeat_of_def split: option.splits)
  then show ?thesis using fold_refresh_other[OF notin(2)] ids by auto
qed

lemma refresh_health_lookup:
  assumes "distinct (map fst (sessions s))" and "meta_of s sid = Some m"
  shows "meta_of (refresh_health t1 t2 s) sid
      = (if health_differs t1 s sid m then meta_of (refresh_one t2 sid s) sid else Some m)
    \<and> map_of (atomic_states (refresh_health t1 t2 s)) sid
      = (if health_differs t1 s sid m then map_of (atomic_states (refresh_one t2 sid s)) sid
         else map_of (atomic_states s) sid)"
proof -
  let ?ids = "map fst (filter (\<lambda>(sid, m). health_differs t1 s sid m) (sessions s))"
  have "sid \<in> set ?ids \<longleftrightarrow> health_differs t1 s sid m"
  proof -
    have "(sid, m') \<in> set (sessions s) \<longleftrightarrow> m' = m" for m'
      using assms by (metis map_of_eq_Some_iff option.inject)
    then show ?thesis by (auto simp: image_iff)
  qed
  moreover have "distinct ?ids" using assms(1) by (simp add: distinct_map_filter)
  ultimately show ?thesis
    using fold_refresh_self[of ?ids sid t2 s] fold_refresh_other[of sid ?ids t2 s] assms(2)
    by (simp add: refresh_health_def)
qed

text \<open>
  A health refresh makes the health of every running session, as the atomics hold it, the
  one that follows from the time since its last heartbeat: stuck from \<open>stuck_after\<close> seconds,
  idle from \<open>idle_after\<close>, active before; it changes nothing of sessions that do not run.
\<close>
theorem refresh_sets_health:
  assumes "sup_wf s" and "meta_of s sid = Some m"
  shows "\<exists>m'. meta_of (refresh_health t t s) sid = Some m'
    \<and> (if sm_status m = StRunning
       then current_health (refresh_health t t s) sid m' = next_health s (timestamp t - heartbeat_of s sid m)
       else m' = m \<and> map_of (atomic_states (refresh_health t t s)) sid = map_of (atomic_states s) sid)"
proof -
  note look = refresh_health_lookup[OF sup_wf_distinct[OF assms(1)] assms(2), of t t]
  show ?thesis
  proof (cases "health_differs t s sid m")
    case True
    then show ?thesis using look assms(2)
      by (cases "map_of (atomic_states s) sid")
         (auto simp: refresh_one_def Let_def map_of_update_value current_health_def health_differs_def)
  next
    case False
    then show ?thesis using look by (auto simp: health_differs_def current_health_def)
  qed
qed

theorem refresh_sets_health_witness:
  "\<exists>m'. meta_of (refresh_health (700 * nanos_per_sec) (700 * nanos_per_sec)
        ((sup_new ''/d'' LocalPty Ephemeral)\<lparr>sessions := [(1, sample_meta 1 StRunning)]\<rparr>)) 1 = Some m'"
  using refresh_sets_health[of "(sup_new ''/d'' LocalPty Ephemeral)\<lparr>sessions := [(1, sample_meta 1 StRunning)]\<rparr>"
      1 "sample_meta 1 StRunning" "700 * nanos_per_sec"]
  by (auto simp: sup_wf_def sup_new_def sample_meta_def)

text \<open>
  Output does not clear a recorded idle or stuck health: a read sets the atomics to active,
  and every refresh within \<open>idle_after\<close> of it finds them as they should be and leaves the
  record, which is what listing and persisting sessions return, as it was.
\<close>
theorem output_leaves_recorded_health:
  assumes "sup_wf s" and "meta_of s sid = Some m" and "map_of (atomic_states s) sid = Some a"
    and "idle_after s \<le> stuck_after s" and "timestamp t1 - timestamp t < idle_after s"
  shows "meta_of (refresh_health t1 t2 (snd (reader_chunk engine config t sid bytes buf s))) sid = Some m"
proof -
  let ?s = "snd (reader_chunk engine config t sid bytes buf s)"
  have fields: "sessions ?s = sessions s" "idle_after ?s = idle_after s" "stuck_after ?s = stuck_after s"
    "map_of (atomic_states ?s) sid = Some \<lparr>at_last_heartbeat = timestamp t, at_health = health_to_u8 HActive\<rparr>"
    using assms(3) by (auto simp: reader_chunk_def Let_def map_of_update_value split: option.splits)
  then have "\<not> health_differs t1 ?s sid m"
    using assms(4,5) by (simp add: health_differs_def current_health_def heartbeat_of_def next_health_def
        del: health_to_u8.simps)
  then show ?thesis
    using refresh_health_lookup[of ?s sid m t1 t2] sup_wf_distinct[OF assms(1)] assms(2) fields(1) by simp
qed

theorem output_leaves_recorded_health_witness:
  "map_option sm_health (meta_of (refresh_health 0 0 (snd (reader_chunk never_engine runtime_default 0 1 ''hi'' buffer_new
      ((sup_new ''/d'' LocalPty Ephemeral)\<lparr>sessions := [(1, sample_meta 1 StRunning)],
          atomic_states := [(1, atomic_new 0 HStuck)]\<rparr>)))) 1) = Some HStuck"
  by (subst output_leaves_recorded_health[where m = "sample_meta 1 StRunning" and a = "atomic_new 0 HStuck"])
     (simp_all add: sup_wf_def sup_new_def sample_meta_def)

section \<open>Reading the scrollback\<close>

definition whole_read :: "nat \<Rightarrow> nat" where
  "whole_read n = n"

text \<open>
  Scrollback slices tile the log: a slice lies within it and holds at most the requested
  number of bytes and 1 MiB; of an ASCII log without secrets it holds exactly the bytes between
  its offsets, and reading on from the end of one slice gives, put together, what one larger
  read gives.
\<close>
theorem scrollback_slices_tile:
  assumes "meta_of s sid = Some m" and "map_of (scrollback s) sid = Some content"
    and "length content \<le> MAX_SCROLLBACK_READ_BYTES" and "list_all (\<lambda>c. byte_of c < 128) content"
    and "redaction_secrets s = []" and "a + b \<le> MAX_READ_LIMIT"
  shows "\<exists>x y. read_scrollback_slice engine config whole_read sid (Offset i) a s = Ok x
    \<and> read_scrollback_slice engine config whole_read sid (Offset (ss_end_offset x)) b s = Ok y
    \<and> read_scrollback_slice engine config whole_read sid (Offset i) (a + b) s
        = Ok (x\<lparr>ss_end_offset := ss_end_offset y, ss_data := ss_data x @ ss_data y\<rparr>)
    \<and> ss_start_offset x \<le> ss_end_offset x \<and> ss_end_offset x \<le> length content \<and> length (ss_data x) \<le> a
    \<and> ss_data x = take (ss_end_offset x - ss_start_offset x) (drop (ss_start_offset x) content)"
proof -
  let ?i = "min i (length content)"
  define n where "n = min a (length content - ?i)"
  define k where "k = min b (length content - (?i + n))"
  have ascii: "from_utf8_lossy (take u (drop v content)) = take u (drop v content)" for u v
  proof (rule lossy_ascii)
    show "list_all (\<lambda>c. byte_of c < 128) (take u (drop v content))"
      using assms(4) by (auto simp: list_all_iff dest!: in_set_takeD in_set_dropD)
  qed
  let ?slice = "\<lambda>from len. \<lparr>ss_session_id = sid, ss_start_offset = from, ss_end_offset = from + len,
    ss_total_bytes = length content, ss_data = take len (drop from content)\<rparr>"
  have read: "read_scrollback_slice engine config whole_read sid (Offset j) l s
      = Ok (?slice (min j (length content)) (min l (length content - min j (length content))))"
    if "l \<le> MAX_READ_LIMIT" for j l
    using assms that by (simp add: read_scrollback_slice_def whole_read_def Let_def ascii min_absorb1)
  have stop: "min (?i + n) (length content) = ?i + n" by (simp add: n_def)
  have "min (a + b) (u - v) = min a (u - v) + min b (u - (v + min a (u - v)))" for u v :: nat
    by linarith
  then have sum: "min (a + b) (length content - ?i) = n + k" by (simp add: n_def k_def)
  have "take (n + k) (drop ?i content) = take n (drop ?i content) @ take k (drop (?i + n) content)"
    by (simp add: take_add add.commute[of _ n] drop_drop)
  then have "read_scrollback_slice engine config whole_read sid (Offset i) (a + b) s
      = Ok ((?slice ?i n)\<lparr>ss_end_offset := ss_end_offset (?slice (?i + n) k),
              ss_data := ss_data (?slice ?i n) @ ss_data (?slice (?i + n) k)\<rparr>)"
    using read[OF assms(6), of i] by (simp add: sum)
  moreover have "read_scrollback_slice engine config whole_read sid (Offset i) a s = Ok (?slice ?i n)"
    "read_scrollback_slice engine config whole_read sid (Offset (?i + n)) b s = Ok (?slice (?i + n) k)"
    using read[of a i] read[of b "?i + n"] assms(6) by (simp_all add: n_def[symmetric] stop k_def[symmetric])
  moreover have "?i + n \<le> length content" "n \<le> a" by (auto simp: n_def)
  ultimately show ?thesis by (intro exI[of _ "?slice ?i n"] exI[of _ "?slice (?i + n) k"]) simp
qed

theorem scrollback_slices_tile_witness:
  "\<exists>x y. read_scrollback_slice never_engine runtime_default whole_read 1 (Offset 1) 2
      ((sup_new ''/d'' LocalPty Ephemeral)\<lparr>sessions := [(1, sample_meta 1 StRunning)], scrollback := [(1, ''hello'')]\<rparr>) = Ok x
    \<and> read_scrollback_slice never_engine runtime_default whole_read 1 (Offset (ss_end_offset x)) 9
      ((sup_new ''/d'' LocalPty Ephemeral)\<lparr>sessions := [(1, sample_meta 1 StRunning)], scrollback := [(1, ''hello'')]\<rparr>) = Ok y"
  using scrollback_slices_tile[of "(sup_new ''/d'' LocalPty Ephemeral)\<lparr>sessions := [(1, sample_meta 1 StRunning)],
      scrollback := [(1, ''hello'')]\<rparr>" 1 "sample_meta 1 StRunning" "''hello''" 2 9 never_engine runtime_default 1]
  by (auto simp: sup_new_def MAX_SCROLLBACK_READ_BYTES_def MAX_READ_LIMIT_def byte_of_def)

text \<open>
  A character that a read of the terminal cuts in two is lost: its first bytes enter the
  output stream as the replacement character, and the rest of it never joins them.
\<close>
theorem cut_character_is_replaced:
  assumes "stream_input_ok engine config (redaction_secrets s)" and "utf8_text x" and "utf8_char c"
    and "0 < k" and "k < length c"
  shows "\<exists>raw rest. raw @ rest = sb_pending buf @ x @ replacement_char
    \<and> reader_chunk engine config t sid (x @ take k c) buf s
      = (Some (buf\<lparr>sb_pending := rest\<rparr>),
         reader_output sid (if raw = [] then None else Some (redact_text engine config raw (redaction_secrets s)))
           (reader_beat t sid s))"
proof -
  obtain cs where cs: "x = concat cs" "list_all utf8_char cs" using assms(2) by (auto simp: utf8_text_def)
  have "from_utf8_lossy (x @ take k c) = x @ replacement_char"
    using lossy_chars[OF cs(2)] lossy_cut_char[OF assms(3,4,5)] cs(1) by simp
  moreover have "redaction_secrets (reader_beat t sid s) = redaction_secrets s" by (simp add: reader_beat_def)
  ultimately show ?thesis
    using push_chunk_outcome[OF assms(1), of buf "x @ replacement_char"]
    by (elim exE conjE) (rule exI, rule exI, rule conjI, erule sym, simp add: reader_chunk_def Let_def)
qed

theorem cut_character_is_replaced_witness:
  "\<exists>raw rest. raw @ rest = ''caf'' @ replacement_char
    \<and> reader_chunk never_engine runtime_default 0 1 (''caf'' @ take 1 [CHR 0xC3, CHR 0xA9]) buffer_new
        (sup_new ''/d'' LocalPty Ephemeral)
      = (Some (buffer_new\<lparr>sb_pending := rest\<rparr>),
         reader_output 1 (if raw = [] then None else Some (redact_text never_engine runtime_default raw
             (redaction_secrets (sup_new ''/d'' LocalPty Ephemeral))))
           (reader_beat 0 1 (sup_new ''/d'' LocalPty Ephemeral)))"
proof -
  have "utf8_char [CHR 0xC3, CHR 0xA9]" by code_simp
  moreover have "utf8_text ''caf''"
    unfolding utf8_text_def by (rule exI[of _ "[''c'', ''a'', ''f'']"]) (simp, code_simp)
  moreover have "stream_input_ok never_engine runtime_default (redaction_secrets (sup_new ''/d'' LocalPty Ephemeral))"
    by (rule never_engine_ok) (simp add: sup_new_def)
  ultimately show ?thesis
    using cut_character_is_replaced[of never_engine runtime_default "sup_new ''/d'' LocalPty Ephemeral" "''caf''"
      "[CHR 0xC3, CHR 0xA9]" 1 buffer_new 0 1]
    unfolding buffer_new_def by simp
qed

end
