(* ===== verification/Remote_Api.thy ===== *)
theory Remote_Api
  imports Remote_Auth Redaction
begin

text \<open>
  The HTTP interface of the remote server (\<open>crates/pnevma-remote/src\<close>): the method allowlist
  (\<open>routes/rpc_allowlist.rs\<close>), the handlers (\<open>routes/api.rs\<close>), and the routes with their
  layers (\<open>server.rs\<close>).

  The command router behind the interface is a parameter: what it answers to a method with its
  parameters. Every call of it is recorded. Extraction of bodies and matching of paths are the
  web framework's: a request carries the result of the former, the latter is \<open>find_route\<close>.
\<close>

section \<open>The allowlist\<close>

definition READ_METHODS :: "string list" where
  "READ_METHODS =
    [''project.status'', ''project.automation'', ''project.daily_brief'', ''project.search'',
     ''task.list'', ''task.poll'', ''session.list'', ''session.timeline'', ''workflow.list_defs'',
     ''workflow.list_instances'', ''workflow.list'', ''workflow.get'', ''workflow.get_instance'',
     ''agent_profile.list'', ''notification.list'', ''intake.list'', ''intake.status'', ''pr.list'',
     ''pr.get'', ''ci.list'', ''ci.get'', ''ci.summary'', ''deployment.list'', ''fleet.snapshot'',
     ''telemetry.fleet_snapshot'', ''telemetry.fleet_history'', ''telemetry.agent_performance'',
     ''telemetry.metrics_query'', ''review.files.list'', ''review.comments.list'',
     ''review.checklist.list'', ''attention_rules.list'', ''agent_hooks.list'', ''task.lineage'',
     ''task.forks'', ''port.list'', ''workspace.hooks.list'', ''editor.profiles.list'',
     ''ssh.files.read'', ''ssh.files.list'']"

definition WRITE_METHODS :: "string list" where
  "WRITE_METHODS =
    [''task.create'', ''task.dispatch'', ''task.dispatch_next_ready'', ''workflow.instantiate'',
     ''workflow.dispatch'', ''notification.mark_read'', ''intake.accept'', ''intake.reject'',
     ''intake.poll'', ''pr.create'', ''pr.sync'', ''pr.merge'', ''pr.close'', ''ci.sync'',
     ''fleet.action'', ''telemetry.prune'', ''attention_rules.create'', ''attention_rules.update'',
     ''attention_rules.delete'', ''agent_hooks.create'', ''agent_hooks.update'', ''agent_hooks.delete'',
     ''task.fork'', ''port.allocate'', ''port.release'', ''editor.profiles.create'',
     ''editor.profiles.delete'', ''editor.profiles.set_default'']"

definition is_allowed :: "string \<Rightarrow> bool" where
  "is_allowed m \<longleftrightarrow> m \<in> set READ_METHODS \<or> m \<in> set WRITE_METHODS"

definition requires_operator :: "string \<Rightarrow> bool" where
  "requires_operator m \<longleftrightarrow> m \<in> set WRITE_METHODS"

section \<open>Handlers\<close>

type_synonym router = "string \<Rightarrow> json \<Rightarrow> string + json"
type_synonym call_log = "(string \<times> json) list"

record rpc_request =
  rr_method :: string
  rr_params :: json

record rpc_response =
  rp_ok :: bool
  rp_result :: "json option"
  rp_error :: "string option"

definition success :: "json \<Rightarrow> rpc_response" where
  "success v = \<lparr>rp_ok = True, rp_result = Some v, rp_error = None\<rparr>"

definition failure :: "string \<Rightarrow> rpc_response" where
  "failure msg = \<lparr>rp_ok = False, rp_result = None, rp_error = Some msg\<rparr>"

text \<open>Status code and body.\<close>

type_synonym http_reply = "nat \<times> rpc_response"

definition is_operator :: "audit_auth_context option \<Rightarrow> bool" where
  "is_operator auth \<longleftrightarrow> Option.bind auth ac_role = Some Operator"

definition require_operator :: "audit_auth_context option \<Rightarrow> http_reply + unit" where
  "require_operator auth =
     (if is_operator auth then Ok () else Err (403, failure ''requires operator role''))"

text \<open>The router call of a handler: the client learns a reference, never the error.\<close>

definition call :: "router \<Rightarrow> string \<Rightarrow> string \<Rightarrow> json \<Rightarrow> http_reply \<times> call_log" where
  "call router error_id m params =
     ((case router m params of
         Ok result \<Rightarrow> (200, success result)
       | Err e \<Rightarrow> (500, failure (''internal error (ref: '' @ error_id @ '')''))), [(m, params)])"

definition inject_param :: "json \<Rightarrow> string \<Rightarrow> string \<Rightarrow> json" where
  "inject_param params key value =
     (case params of
        JObject entries \<Rightarrow> JObject (AList.update key (JString value) entries)
      | _ \<Rightarrow> JObject [(key, JString value)])"

definition inject_id :: "json \<Rightarrow> string \<Rightarrow> json" where
  "inject_id params v = inject_param params ''id'' v"

text \<open>The handlers, by name. Those that take a body get the result of its extraction, an error
  being the framework's reply; \<open>rpc\<close> turns that error into 400.\<close>

datatype api_handler =
    FleetSnapshot | FleetAction | ProjectStatus | ProjectDailyBrief | ProjectAutomation | ProjectSearch
  | TaskList | TaskCreate | TaskDispatch | SessionList | WorkflowList | WorkflowListDefs
  | WorkflowListInstances | WorkflowInstantiate | WorkflowGetInstance | WorkflowDispatch | WorkflowGet | Rpc

record api_request =
  aq_path_id :: string
  aq_body :: "http_reply + json"
  aq_rpc :: "string + rpc_request"

definition plain_call :: "router \<Rightarrow> string \<Rightarrow> string \<Rightarrow> http_reply \<times> call_log" where
  "plain_call router error_id m = call router error_id m JNull"

definition with_body :: "api_request \<Rightarrow> (json \<Rightarrow> http_reply \<times> call_log) \<Rightarrow> http_reply \<times> call_log" where
  "with_body req k = (case aq_body req of Err reply \<Rightarrow> (reply, []) | Ok params \<Rightarrow> k params)"

definition operator_call ::
  "router \<Rightarrow> string \<Rightarrow> audit_auth_context option \<Rightarrow> string \<Rightarrow> json \<Rightarrow> http_reply \<times> call_log"
where
  "operator_call router error_id auth m params =
     (case require_operator auth of Err reply \<Rightarrow> (reply, []) | Ok _ \<Rightarrow> call router error_id m params)"

definition rpc :: "router \<Rightarrow> string \<Rightarrow> audit_auth_context option \<Rightarrow> api_request \<Rightarrow> http_reply \<times> call_log" where
  "rpc router error_id auth req =
    (case aq_rpc req of
       Err e \<Rightarrow> ((400, failure e), [])
     | Ok body \<Rightarrow>
         if \<not> is_allowed (rr_method body)
         then ((403, failure (''method not allowed via RPC: '' @ rr_method body)), [])
         else if requires_operator (rr_method body) \<and> \<not> is_operator auth
         then ((403, failure (''method requires operator role: '' @ rr_method body)), [])
         else call router error_id (rr_method body) (rr_params body))"

fun api_handle ::
  "router \<Rightarrow> string \<Rightarrow> audit_auth_context option \<Rightarrow> api_request \<Rightarrow> api_handler \<Rightarrow> http_reply \<times> call_log"
where
  "api_handle r e auth req FleetSnapshot = plain_call r e ''fleet.snapshot''"
| "api_handle r e auth req FleetAction = with_body req (operator_call r e auth ''fleet.action'')"
| "api_handle r e auth req ProjectStatus = plain_call r e ''project.status''"
| "api_handle r e auth req ProjectDailyBrief = plain_call r e ''project.daily_brief''"
| "api_handle r e auth req ProjectAutomation = plain_call r e ''project.automation''"
| "api_handle r e auth req ProjectSearch = with_body req (call r e ''project.search'')"
| "api_handle r e auth req TaskList = plain_call r e ''task.list''"
| "api_handle r e auth req TaskCreate = with_body req (operator_call r e auth ''task.create'')"
| "api_handle r e auth req TaskDispatch =
     with_body req (\<lambda>params. operator_call r e auth ''task.dispatch''
       (inject_param params ''task_id'' (aq_path_id req)))"
| "api_handle r e auth req SessionList = plain_call r e ''session.list''"
| "api_handle r e auth req WorkflowList = plain_call r e ''workflow.list''"
| "api_handle r e auth req WorkflowListDefs = plain_call r e ''workflow.list_defs''"
| "api_handle r e auth req WorkflowListInstances = plain_call r e ''workflow.list_instances''"
| "api_handle r e auth req WorkflowInstantiate = with_body req (operator_call r e auth ''workflow.instantiate'')"
| "api_handle r e auth req WorkflowGetInstance =
     call r e ''workflow.get_instance'' (inject_id (JObject []) (aq_path_id req))"
| "api_handle r e auth req WorkflowDispatch = with_body req (operator_call r e auth ''workflow.dispatch'')"
| "api_handle r e auth req WorkflowGet = call r e ''workflow.get'' (inject_id (JObject []) (aq_path_id req))"
| "api_handle r e auth req Rpc = rpc r e auth req"

section \<open>Routes and layers\<close>

datatype http_method = GET | POST | DELETE

datatype seg = Lit string | Param

datatype endpoint = Api api_handler | WsUpgrade | AuthLogin | AuthRevoke | Health

definition routes :: "(http_method \<times> seg list \<times> endpoint) list" where
  "routes =
    [(GET, [Lit ''health''], Health),
     (POST, [Lit ''api'', Lit ''auth'', Lit ''token''], AuthLogin),
     (GET, [Lit ''api'', Lit ''fleet'', Lit ''snapshot''], Api FleetSnapshot),
     (POST, [Lit ''api'', Lit ''fleet'', Lit ''action''], Api FleetAction),
     (GET, [Lit ''api'', Lit ''project'', Lit ''status''], Api ProjectStatus),
     (GET, [Lit ''api'', Lit ''project'', Lit ''daily-brief''], Api ProjectDailyBrief),
     (GET, [Lit ''api'', Lit ''project'', Lit ''automation''], Api ProjectAutomation),
     (POST, [Lit ''api'', Lit ''project'', Lit ''search''], Api ProjectSearch),
     (GET, [Lit ''api'', Lit ''tasks''], Api TaskList),
     (POST, [Lit ''api'', Lit ''tasks''], Api TaskCreate),
     (POST, [Lit ''api'', Lit ''tasks'', Param, Lit ''dispatch''], Api TaskDispatch),
     (GET, [Lit ''api'', Lit ''sessions''], Api SessionList),
     (GET, [Lit ''api'', Lit ''workflows''], Api WorkflowList),
     (GET, [Lit ''api'', Lit ''workflows'', Lit ''defs''], Api WorkflowListDefs),
     (GET, [Lit ''api'', Lit ''workflows'', Lit ''instances''], Api WorkflowListInstances),
     (POST, [Lit ''api'', Lit ''workflows'', Lit ''instances''], Api WorkflowInstantiate),
     (GET, [Lit ''api'', Lit ''workflows'', Lit ''instances'', Param], Api WorkflowGetInstance),
     (POST, [Lit ''api'', Lit ''workflows'', Lit ''dispatch''], Api WorkflowDispatch),
     (GET, [Lit ''api'', Lit ''workflows'', Param], Api WorkflowGet),
     (POST, [Lit ''api'', Lit ''rpc''], Api Rpc),
     (GET, [Lit ''api'', Lit ''ws''], WsUpgrade),
     (DELETE, [Lit ''api'', Lit ''auth'', Lit ''revoke''], AuthRevoke)]"

text \<open>The framework prefers a literal to a parameter: the table lists literals first. The path
  decides, then the method: a path whose routes all have another method is answered 405.\<close>

fun match_path :: "seg list \<Rightarrow> string list \<Rightarrow> string option option" where
  "match_path [] [] = Some None"
| "match_path (Lit l # ss) (p # ps) = (if l = p then match_path ss ps else None)"
| "match_path (Param # ss) (p # ps) = map_option (\<lambda>_. Some p) (match_path ss ps)"
| "match_path _ _ = None"

definition find_route ::
  "http_method \<Rightarrow> string list \<Rightarrow> (endpoint \<times> endpoint option \<times> string option) option"
where
  "find_route m path =
     (case find (\<lambda>(_, segs, _). match_path segs path \<noteq> None) routes of
        None \<Rightarrow> None
      | Some (_, segs, e) \<Rightarrow>
          Some (e, map_option (\<lambda>(_, _, e'). e') (find (\<lambda>(m', segs', _). segs' = segs \<and> m' = m) routes),
                the (match_path segs path)))"

datatype reply_body =
    GuardForbidden
  | TooMany
  | NoToken
  | MethodNotAllowed
  | BadUpgrade
  | NoRoute
  | JsonReply http_reply
  | LoginReply login_response
  | RevokeReply revoke_response
  | Upgrade audit_auth_context
  | WsRefused nat
  | HealthOk
  | StaticReply string
  | StaticDenied

record http_answer =
  an_body :: reply_body
  an_headers :: "(string \<times> string) list"

record server_request =
  sr_method :: http_method
  sr_path :: string
  sr_segments :: "string list"
  sr_ip :: ip_addr
  sr_headers :: request
  sr_origin :: "(unit + string) option"
  sr_query_token :: "string option"
  sr_ws_ok :: bool
  sr_api :: api_request
  sr_login :: "http_reply + token_request"
  sr_now :: time
  sr_random :: string
  sr_error_id :: string

record server_config =
  sc_max_ws :: nat
  sc_origins :: "string list"
  sc_serve_frontend :: bool
  sc_frontend_dir :: bool
  sc_hsts_max_age :: u64
  sc_tls_fingerprint :: "string option"

record 'l server =
  sv_auth :: auth_state
  sv_api_limit :: "'l rate_limit_state"
  sv_auth_limit :: "'l rate_limit_state"
  sv_health_limit :: "'l rate_limit_state"
  sv_static_limit :: "'l rate_limit_state"
  sv_ws_counts :: "(ip_addr \<times> nat) list"
  sv_calls :: "(audit_auth_context \<times> string \<times> json) list"

text \<open>The parameters of the server: crates and the router.\<close>

record 'l server_env =
  se_crypto :: crypto
  se_show_ip :: "ip_addr \<Rightarrow> string"
  se_check :: "'l \<Rightarrow> time \<Rightarrow> bool \<times> 'l"
  se_router :: router

definition build_server :: "(u32 \<Rightarrow> 'l) \<Rightarrow> u32 \<Rightarrow> token_store \<Rightarrow> 'l server" where
  "build_server direct rate_limit_rpm store =
     \<lparr>sv_auth = \<lparr>as_store = store, as_lockout = lockout_new\<rparr>, sv_api_limit = rate_limit_new direct rate_limit_rpm,
      sv_auth_limit = rate_limit_new direct 5, sv_health_limit = rate_limit_new direct 120,
      sv_static_limit = rate_limit_new direct 300, sv_ws_counts = [], sv_calls = []\<rparr>"

subsection \<open>The WebSocket upgrade\<close>

definition trim_end_slashes :: "string \<Rightarrow> string" where
  "trim_end_slashes s = rev (dropWhile (\<lambda>c. c = CHR ''/'') (rev s))"

definition normalize_origin :: "string \<Rightarrow> string" where
  "normalize_origin origin = trim_end_slashes (str_trim origin)"

definition configured_ws_origins :: "string list \<Rightarrow> string list" where
  "configured_ws_origins allowed_origins =
     (if allowed_origins = [] then [''https://localhost''] else map normalize_origin allowed_origins)"

text \<open>\<open>True\<close> lets the upgrade through, \<open>False\<close> is 403. A request that is not authenticated does
  not get here.\<close>

definition validate_ws_origin ::
  "(unit + string) option \<Rightarrow> audit_auth_context option \<Rightarrow> string list \<Rightarrow> bool"
where
  "validate_ws_origin header auth allowed_origins =
    (case header of
       Some (Err _) \<Rightarrow> False
     | Some (Ok origin) \<Rightarrow> list_ex (\<lambda>allowed. allowed = normalize_origin origin) (configured_ws_origins allowed_origins)
     | None \<Rightarrow> Option.bind auth ac_token_source \<noteq> Some QueryParam)"

text \<open>A slot is taken and checked before the upgrade, and given back when the connection ends.\<close>

definition ws_count :: "'l server \<Rightarrow> ip_addr \<Rightarrow> nat" where
  "ws_count sv ip = (case map_of (sv_ws_counts sv) ip of None \<Rightarrow> 0 | Some n \<Rightarrow> n)"

definition ws_handler ::
  "server_config \<Rightarrow> (unit + string) option \<Rightarrow> ip_addr \<Rightarrow> audit_auth_context \<Rightarrow> 'l server \<Rightarrow> reply_body \<times> 'l server"
where
  "ws_handler cfg origin ip auth sv =
    (if \<not> validate_ws_origin origin (Some auth) (sc_origins cfg) then (WsRefused 403, sv)
     else if ws_count sv ip \<ge> sc_max_ws cfg
     then (WsRefused 429, sv\<lparr>sv_ws_counts := AList.update ip (ws_count sv ip) (sv_ws_counts sv)\<rparr>)
     else (Upgrade auth, sv\<lparr>sv_ws_counts := AList.update ip (ws_count sv ip + 1) (sv_ws_counts sv)\<rparr>))"

definition ws_closed :: "ip_addr \<Rightarrow> 'l server \<Rightarrow> 'l server" where
  "ws_closed ip sv = sv\<lparr>sv_ws_counts := AList.update ip (ws_count sv ip - 1) (sv_ws_counts sv)\<rparr>"

subsection \<open>The whole server\<close>

text \<open>Behind the rate limit and the token check of the protected routes.\<close>

definition serve_authenticated ::
  "'l server_env \<Rightarrow> server_config \<Rightarrow> server_request \<Rightarrow> audit_auth_context \<Rightarrow> endpoint option \<Rightarrow> string option
     \<Rightarrow> 'l server \<Rightarrow> reply_body \<times> 'l server"
where
  "serve_authenticated env cfg req auth e p sv =
    (case e of
       Some (Api h) \<Rightarrow>
         let api = (case p of None \<Rightarrow> sr_api req | Some v \<Rightarrow> (sr_api req)\<lparr>aq_path_id := v\<rparr>);
             (reply, calls) = api_handle (se_router env) (sr_error_id req) (Some auth) api h
         in (JsonReply reply, sv\<lparr>sv_calls := sv_calls sv @ map (\<lambda>(m, v). (auth, m, v)) calls\<rparr>)
     | Some WsUpgrade \<Rightarrow>
         if \<not> sr_ws_ok req then (BadUpgrade, sv)
         else ws_handler cfg (sr_origin req) (sr_ip req) auth sv
     | Some AuthRevoke \<Rightarrow>
         let (reply, store) = revoke_token_handler (se_crypto env) (sr_headers req) (as_store (sv_auth sv))
         in (RevokeReply reply, sv\<lparr>sv_auth := (sv_auth sv)\<lparr>as_store := store\<rparr>\<rparr>)
     | _ \<Rightarrow> (MethodNotAllowed, sv))"

definition serve_api ::
  "'l server_env \<Rightarrow> server_config \<Rightarrow> server_request \<Rightarrow> endpoint option \<Rightarrow> string option
     \<Rightarrow> 'l server \<Rightarrow> reply_body \<times> 'l server"
where
  "serve_api env cfg req e p sv =
    (let (allowed, l) = rate_limit (se_check env) (sr_now req) (sr_ip req) (sv_api_limit sv);
         sv = sv\<lparr>sv_api_limit := l\<rparr>
     in if \<not> allowed then (TooMany, sv)
        else
          let (auth, store) = auth_token (se_crypto env) (sr_now req) (se_show_ip env (sr_ip req))
                (sr_headers req) (sr_query_token req) (as_store (sv_auth sv));
              sv = sv\<lparr>sv_auth := (sv_auth sv)\<lparr>as_store := store\<rparr>\<rparr>
          in case auth of None \<Rightarrow> (NoToken, sv) | Some ctx \<Rightarrow> serve_authenticated env cfg req ctx e p sv)"

definition serve_login ::
  "'l server_env \<Rightarrow> server_request \<Rightarrow> endpoint option \<Rightarrow> 'l server \<Rightarrow> reply_body \<times> 'l server"
where
  "serve_login env req e sv =
    (let (allowed, l) = rate_limit (se_check env) (sr_now req) (sr_ip req) (sv_auth_limit sv);
         sv = sv\<lparr>sv_auth_limit := l\<rparr>
     in if \<not> allowed then (TooMany, sv)
        else if e = None then (MethodNotAllowed, sv)
        else
          (case sr_login req of
             Err reply \<Rightarrow> (JsonReply reply, sv)
           | Ok body \<Rightarrow>
               let (reply, auth) = create_token_handler (se_crypto env) (se_show_ip env) (sr_now req) (sr_random req)
                     (sr_ip req) body (sv_auth sv)
               in (LoginReply reply, sv\<lparr>sv_auth := auth\<rparr>)))"

definition serve_health ::
  "'l server_env \<Rightarrow> server_request \<Rightarrow> endpoint option \<Rightarrow> 'l server \<Rightarrow> reply_body \<times> 'l server"
where
  "serve_health env req e sv =
    (let (allowed, l) = rate_limit (se_check env) (sr_now req) (sr_ip req) (sv_health_limit sv);
         sv = sv\<lparr>sv_health_limit := l\<rparr>
     in (if \<not> allowed then TooMany else if e = None then MethodNotAllowed else HealthOk, sv))"

definition DENIED_EXTENSIONS :: "string list" where
  "DENIED_EXTENSIONS = [''.env'', ''.map'', ''.pem'', ''.key'', ''.p12'', ''.pfx'']"

text \<open>The files of the frontend: the file service itself is a crate's.\<close>

definition serve_static :: "'l server_env \<Rightarrow> server_request \<Rightarrow> 'l server \<Rightarrow> reply_body \<times> 'l server" where
  "serve_static env req sv =
    (let (allowed, l) = rate_limit (se_check env) (sr_now req) (sr_ip req) (sv_static_limit sv);
         sv = sv\<lparr>sv_static_limit := l\<rparr>
     in (if \<not> allowed then TooMany
         else if list_ex (ends_with (sr_path req)) DENIED_EXTENSIONS then StaticDenied
         else StaticReply (sr_path req), sv))"

definition security_headers :: "server_config \<Rightarrow> (string \<times> string) list \<Rightarrow> (string \<times> string) list" where
  "security_headers cfg hs =
    (let hs = (if sc_tls_fingerprint cfg \<noteq> None
               then AList.update ''strict-transport-security''
                      (''max-age='' @ nat_str (unat (sc_hsts_max_age cfg)) @ ''; includeSubDomains'') hs else hs);
         hs = AList.update ''x-content-type-options'' ''nosniff'' hs;
         hs = AList.update ''content-security-policy''
                (''default-src 'self'; script-src 'self'; style-src 'self'; connect-src 'self' wss:; ''
                 @ ''object-src 'none'; base-uri 'self'; form-action 'self'' @ [CHR 0x27]) hs;
         hs = AList.update ''x-frame-options'' ''DENY'' hs;
         hs = AList.update ''referrer-policy'' ''no-referrer'' hs
     in AList.update ''permissions-policy'' ''camera=(), microphone=(), geolocation=()'' hs)"

definition tls_header :: "server_config \<Rightarrow> (string \<times> string) list \<Rightarrow> (string \<times> string) list" where
  "tls_header cfg hs =
     (case sc_tls_fingerprint cfg of
        None \<Rightarrow> hs | Some fp \<Rightarrow> AList.update ''x-tls-fingerprint'' (''sha256:'' @ fp) hs)"

text \<open>A layer covers the routes added before it: the frontend is merged in after the guard, the
  body limit, the security headers and the audit log, and only the fingerprint is added later.\<close>

definition serve :: "'l server_env \<Rightarrow> server_config \<Rightarrow> server_request \<Rightarrow> 'l server \<Rightarrow> http_answer \<times> 'l server" where
  "serve env cfg req sv =
    (let route = find_route (sr_method req) (sr_segments req) in
     if route = None \<and> sc_serve_frontend cfg \<and> sc_frontend_dir cfg
     then let (reply, sv) = serve_static env req sv in (\<lparr>an_body = reply, an_headers = tls_header cfg []\<rparr>, sv)
     else if \<not> tailscale_guard (sr_ip req)
     then (\<lparr>an_body = GuardForbidden, an_headers = tls_header cfg []\<rparr>, sv)
     else
       let (reply, sv) =
         (case route of
            None \<Rightarrow> (NoRoute, sv)
          | Some (Health, e, _) \<Rightarrow> serve_health env req e sv
          | Some (AuthLogin, e, _) \<Rightarrow> serve_login env req e sv
          | Some (_, e, p) \<Rightarrow> serve_api env cfg req e p sv)
       in (\<lparr>an_body = reply, an_headers = tls_header cfg (security_headers cfg [])\<rparr>, sv))"

section \<open>Who reaches the router\<close>

lemma call_log [simp]: "snd (call r e m p) = [(m, p)]"
  by (simp add: call_def)

lemma operator_call_log:
  "(m, v) \<in> set (snd (operator_call r e auth m' p)) \<Longrightarrow> m = m' \<and> is_operator auth"
  by (auto simp: operator_call_def require_operator_def split: if_splits)

lemma with_body_log: "c \<in> set (snd (with_body req k)) \<Longrightarrow> \<exists>p. c \<in> set (snd (k p))"
  by (auto simp: with_body_def split: sum.splits)

definition call_permitted :: "audit_auth_context option \<Rightarrow> string \<Rightarrow> bool" where
  "call_permitted auth m \<longleftrightarrow> is_allowed m \<and> (requires_operator m \<longrightarrow> is_operator auth)"

lemma permitted_methods: "m \<in> set READ_METHODS \<Longrightarrow> call_permitted auth m"
  by (simp add: call_permitted_def is_allowed_def requires_operator_def)
     (simp add: READ_METHODS_def WRITE_METHODS_def, elim disjE, simp_all)

lemma permitted_operator: "m \<in> set WRITE_METHODS \<and> is_operator auth \<Longrightarrow> call_permitted auth m"
  by (simp add: call_permitted_def is_allowed_def)

lemma handler_methods [simp]:
  "''fleet.snapshot'' \<in> set READ_METHODS" "''project.status'' \<in> set READ_METHODS"
  "''project.daily_brief'' \<in> set READ_METHODS" "''project.automation'' \<in> set READ_METHODS"
  "''project.search'' \<in> set READ_METHODS" "''task.list'' \<in> set READ_METHODS" "''session.list'' \<in> set READ_METHODS"
  "''workflow.list'' \<in> set READ_METHODS" "''workflow.list_defs'' \<in> set READ_METHODS"
  "''workflow.list_instances'' \<in> set READ_METHODS" "''workflow.get_instance'' \<in> set READ_METHODS"
  "''workflow.get'' \<in> set READ_METHODS"
  "''fleet.action'' \<in> set WRITE_METHODS" "''task.create'' \<in> set WRITE_METHODS" "''task.dispatch'' \<in> set WRITE_METHODS"
  "''workflow.instantiate'' \<in> set WRITE_METHODS" "''workflow.dispatch'' \<in> set WRITE_METHODS"
  by (simp_all add: READ_METHODS_def WRITE_METHODS_def)

lemma operator_call_permitted:
  "(m, v) \<in> set (snd (operator_call r e auth m' p)) \<Longrightarrow> m' \<in> set WRITE_METHODS \<Longrightarrow> call_permitted auth m"
  using operator_call_log permitted_operator by blast

lemma api_handle_permitted:
  "(m, p) \<in> set (snd (api_handle r e auth req h)) \<Longrightarrow> call_permitted auth m"
proof (cases h)
  case Rpc
  assume "(m, p) \<in> set (snd (api_handle r e auth req h))"
  then show ?thesis using Rpc
    by (auto simp: rpc_def call_permitted_def split: sum.splits if_splits)
qed (auto simp: plain_call_def permitted_methods dest!: with_body_log operator_call_permitted)

definition new_calls_ok ::
  "'l server_env \<Rightarrow> server_request \<Rightarrow> 'l server \<Rightarrow> 'l server \<Rightarrow> bool"
where
  "new_calls_ok env req sv sv' \<longleftrightarrow>
     (\<exists>calls. sv_calls sv' = sv_calls sv @ calls
        \<and> (\<forall>(auth, m, p) \<in> set calls.
             fst (auth_token (se_crypto env) (sr_now req) (se_show_ip env (sr_ip req)) (sr_headers req)
                   (sr_query_token req) (as_store (sv_auth sv))) = Some auth
             \<and> call_permitted (Some auth) m))"

lemma new_calls_refl: "sv_calls sv' = sv_calls sv \<Longrightarrow> new_calls_ok env req sv sv'"
  by (auto simp: new_calls_ok_def)

lemma serve_authenticated_calls:
  assumes "serve_authenticated env cfg req auth e p sv = (reply, sv')"
  shows "\<exists>calls. sv_calls sv' = sv_calls sv @ calls \<and> (\<forall>(a, m, v) \<in> set calls. a = auth \<and> call_permitted (Some auth) m)"
proof (cases "\<exists>h. e = Some (Api h)")
  case True
  then obtain h where h: "e = Some (Api h)" by blast
  let ?api = "case p of None \<Rightarrow> sr_api req | Some v \<Rightarrow> (sr_api req)\<lparr>aq_path_id := v\<rparr>"
  let ?calls = "snd (api_handle (se_router env) (sr_error_id req) (Some auth) ?api h)"
  have "sv_calls sv' = sv_calls sv @ map (\<lambda>(m, v). (auth, m, v)) ?calls"
    using assms h by (auto simp: serve_authenticated_def Let_def split: prod.splits)
  then show ?thesis using api_handle_permitted by (auto intro!: exI)
next
  case False
  then have "sv_calls sv' = sv_calls sv"
    using assms by (auto simp: serve_authenticated_def ws_handler_def Let_def
        split: option.splits endpoint.splits prod.splits if_splits)
  then show ?thesis by auto
qed

lemma serve_api_calls:
  assumes "serve_api env cfg req e p sv = (reply, sv')"
  shows "new_calls_ok env req sv sv'"
proof -
  let ?tok = "auth_token (se_crypto env) (sr_now req) (se_show_ip env (sr_ip req)) (sr_headers req)
      (sr_query_token req) (as_store (sv_auth sv))"
  obtain allowed l where rate: "rate_limit (se_check env) (sr_now req) (sr_ip req) (sv_api_limit sv) = (allowed, l)"
    by force
  obtain auth store where tok: "?tok = (auth, store)" by force
  show ?thesis
  proof (cases "allowed \<and> auth \<noteq> None")
    case True
    then obtain ctx where ctx: "auth = Some ctx" by blast
    let ?sv = "sv\<lparr>sv_api_limit := l, sv_auth := (sv_auth sv)\<lparr>as_store := store\<rparr>\<rparr>"
    have "serve_authenticated env cfg req ctx e p ?sv = (reply, sv')"
      using assms True by (simp add: serve_api_def rate tok ctx Let_def)
    from serve_authenticated_calls[OF this] show ?thesis
      using tok ctx by (auto simp: new_calls_ok_def)
  next
    case False
    then show ?thesis using assms
      by (intro new_calls_refl) (auto simp: serve_api_def rate tok Let_def split: if_splits option.splits)
  qed
qed

lemma serve_other_calls:
  "serve_login env req e sv = (reply, sv') \<Longrightarrow> sv_calls sv' = sv_calls sv"
  "serve_health env req e sv = (reply, sv') \<Longrightarrow> sv_calls sv' = sv_calls sv"
  "serve_static env req sv = (reply, sv') \<Longrightarrow> sv_calls sv' = sv_calls sv"
  by (auto simp: serve_login_def serve_health_def serve_static_def Let_def split: prod.splits sum.splits if_splits)

lemma serve_cases:
  assumes "serve env cfg req sv = (answer, sv')"
  obtains
    (static) "find_route (sr_method req) (sr_segments req) = None" "serve_static env req sv = (an_body answer, sv')"
  | (refused) "\<not> tailscale_guard (sr_ip req)" "an_body answer = GuardForbidden" "sv' = sv"
  | (unrouted) "an_body answer = NoRoute" "sv' = sv"
  | (health) e where "tailscale_guard (sr_ip req)" "serve_health env req e sv = (an_body answer, sv')"
  | (login) e where "tailscale_guard (sr_ip req)" "serve_login env req e sv = (an_body answer, sv')"
  | (api) e p where "tailscale_guard (sr_ip req)" "serve_api env cfg req e p sv = (an_body answer, sv')"
  using assms
  by (auto simp: serve_def Let_def split: if_splits prod.splits option.splits endpoint.splits)

text \<open>
  C28. Every call of the command router that a request causes comes from a Tailscale address,
  with the identity of the token that was validated for this request, and is a method of the
  allowlist; a method that changes anything is called only for the operator role. No route,
  generic or specific, gets around the allowlist.
\<close>
theorem router_calls_authorised:
  assumes "serve env cfg req sv = (answer, sv')" and "(auth, m, p) \<in> set (drop (length (sv_calls sv)) (sv_calls sv'))"
  shows "is_tailscale_ip (sr_ip req)
    \<and> fst (auth_token (se_crypto env) (sr_now req) (se_show_ip env (sr_ip req)) (sr_headers req)
            (sr_query_token req) (as_store (sv_auth sv))) = Some auth
    \<and> is_allowed m \<and> (requires_operator m \<longrightarrow> ac_role auth = Some Operator)"
proof -
  have changed: "sv_calls sv' \<noteq> sv_calls sv" using assms(2) by auto
  from assms(1) show ?thesis
  proof (cases rule: serve_cases)
    case (api e p)
    then have "new_calls_ok env req sv sv'" by (intro serve_api_calls)
    then show ?thesis
      using assms(2) api(1) by (auto simp: new_calls_ok_def call_permitted_def is_operator_def tailscale_guard_def)
  qed (use changed in \<open>auto dest: serve_other_calls\<close>)
qed

definition toy_env :: "unit server_env" where
  "toy_env = \<lparr>se_crypto = toy_crypto, se_show_ip = (\<lambda>_. ''100.64.0.1''), se_check = (\<lambda>l _. (True, l)),
     se_router = (\<lambda>_ _. Ok JNull)\<rparr>"

definition toy_config :: server_config where
  "toy_config = \<lparr>sc_max_ws = 2, sc_origins = [], sc_serve_frontend = True, sc_frontend_dir = True,
     sc_hsts_max_age = 86400, sc_tls_fingerprint = None\<rparr>"

definition toy_request :: "http_method \<Rightarrow> string \<Rightarrow> string list \<Rightarrow> ip_addr \<Rightarrow> server_request" where
  "toy_request m path segs ip = \<lparr>sr_method = m, sr_path = path, sr_segments = segs, sr_ip = ip,
     sr_headers = \<lparr>rq_authorization = Some ''Bearer tok'', rq_upgrade = None, rq_origin = None\<rparr>, sr_origin = None,
     sr_query_token = None, sr_ws_ok = True,
     sr_api = \<lparr>aq_path_id = [], aq_body = Ok JNull, aq_rpc = Ok \<lparr>rr_method = ''task.list'', rr_params = JNull\<rparr>\<rparr>,
     sr_login = Err (400, failure ''no body''), sr_now = 0, sr_random = [], sr_error_id = ''e''\<rparr>"

definition toy_server :: "unit server" where
  "toy_server = build_server (\<lambda>_. ()) 60
     \<lparr>tokens = [(token_lookup_key toy_crypto ''tok'', \<lparr>te_created_at = 0, te_ip = ''100.64.0.1'', te_subject = ''s'',
         te_token_id = ''t'', te_role = ReadOnly\<rparr>)], password_hash = [], ttl_hours = 24, audit_db = None\<rparr>"

lemmas serve_eval = serve_def toy_env_def toy_config_def toy_request_def toy_server_def build_server_def find_route_def
  routes_def tailscale_guard_def in_tailscale_v4_def serve_api_def rate_limit_def rate_limit_new_def auth_token_def
  extract_token_def bearer_def strip_prefix_def starts_with_def validate_token_def ttl_secs_def num_seconds_def
  entry_metadata_def is_websocket_upgrade_def to_ascii_lowercase_def authenticated_request_def serve_authenticated_def
  plain_call_def call_def tls_header_def log_audit_event_def

abbreviation toy_list :: server_request where
  "toy_list \<equiv> toy_request GET ''/api/tasks'' [''api'', ''tasks''] (V4 (100, 64, 0, 1))"

definition toy_ctx :: audit_auth_context where
  "toy_ctx = authenticated_request ''s'' ''t'' AuthorizationHeader ReadOnly"

lemma toy_calls: "sv_calls (snd (serve toy_env toy_config toy_list toy_server)) = [(toy_ctx, ''task.list'', JNull)]"
  by (simp add: serve_eval toy_ctx_def Let_def)

theorem router_calls_authorised_witness:
  "is_allowed ''task.list'' \<and> is_tailscale_ip (V4 (100, 64, 0, 1))"
proof -
  obtain answer sv' where run: "serve toy_env toy_config toy_list toy_server = (answer, sv')" by force
  have "(toy_ctx, ''task.list'', JNull) \<in> set (drop (length (sv_calls toy_server)) (sv_calls sv'))"
    using toy_calls run by (simp add: toy_server_def build_server_def)
  from router_calls_authorised[OF run this] show ?thesis by (simp add: toy_request_def)
qed

section \<open>The frontend is outside the layers\<close>

text \<open>
  The files of the frontend are served around the layers that protect everything else: a
  request that matches no route gets them from any address, also one the Tailscale guard
  refuses, and its answer bears none of the security headers.
\<close>
theorem frontend_bypasses_guard:
  assumes "find_route (sr_method req) (sr_segments req) = None"
    and "sc_serve_frontend cfg" and "sc_frontend_dir cfg"
    and "fst (rate_limit (se_check env) (sr_now req) (sr_ip req) (sv_static_limit sv))"
    and "\<not> list_ex (ends_with (sr_path req)) DENIED_EXTENSIONS"
  shows "fst (serve env cfg req sv) = \<lparr>an_body = StaticReply (sr_path req), an_headers = tls_header cfg []\<rparr>"
  using assms by (auto simp: serve_def serve_static_def Let_def split: prod.splits)

theorem frontend_bypasses_guard_witness:
  "\<not> is_tailscale_ip (V4 (8, 8, 8, 8))
   \<and> fst (serve toy_env toy_config (toy_request GET ''/index.html'' [''index.html''] (V4 (8, 8, 8, 8))) toy_server)
     = \<lparr>an_body = StaticReply ''/index.html'', an_headers = []\<rparr>"
  using frontend_bypasses_guard[of "toy_request GET ''/index.html'' [''index.html''] (V4 (8, 8, 8, 8))" toy_config
      toy_env toy_server]
  by (simp add: serve_eval DENIED_EXTENSIONS_def ends_with_def)

section \<open>Connection slots\<close>

text \<open>Runs of the server with the WebSocket connections they leave: \<open>up\<close> counts the open ones of
  every address, \<open>lost\<close> the upgrades that were accepted but whose handshake the client never
  completed, for which the framework does not run the connection's task.\<close>

inductive ws_run ::
  "'l server_env \<Rightarrow> server_config \<Rightarrow> 'l server \<Rightarrow> (ip_addr \<Rightarrow> nat) \<Rightarrow> (ip_addr \<Rightarrow> nat) \<Rightarrow> bool"
  for env cfg
where
  start: "sv_ws_counts sv = [] \<Longrightarrow> ws_run env cfg sv (\<lambda>_. 0) (\<lambda>_. 0)"
| opened: "ws_run env cfg sv up lost \<Longrightarrow> serve env cfg req sv = (answer, sv') \<Longrightarrow> an_body answer = Upgrade a
    \<Longrightarrow> ws_run env cfg sv' (up(sr_ip req := up (sr_ip req) + 1)) lost"
| handshake_lost: "ws_run env cfg sv up lost \<Longrightarrow> serve env cfg req sv = (answer, sv') \<Longrightarrow> an_body answer = Upgrade a
    \<Longrightarrow> ws_run env cfg sv' up (lost(sr_ip req := lost (sr_ip req) + 1))"
| served: "ws_run env cfg sv up lost \<Longrightarrow> serve env cfg req sv = (answer, sv') \<Longrightarrow> (\<nexists>a. an_body answer = Upgrade a)
    \<Longrightarrow> ws_run env cfg sv' up lost"
| closed: "ws_run env cfg sv up lost \<Longrightarrow> 0 < up ip \<Longrightarrow> ws_run env cfg (ws_closed ip sv) (up(ip := up ip - 1)) lost"

inductive_cases ws_runE: "ws_run env cfg sv up lost"

lemma ws_count_update [simp]:
  "ws_count (sv\<lparr>sv_ws_counts := AList.update ip n (sv_ws_counts sv)\<rparr>) ip' = (if ip' = ip then n else ws_count sv ip')"
  by (simp add: ws_count_def)

lemma ws_count_cong: "sv_ws_counts sv' = sv_ws_counts sv \<Longrightarrow> ws_count sv' = ws_count sv"
  by (simp add: ws_count_def fun_eq_iff)

definition ws_effect :: "server_config \<Rightarrow> ip_addr \<Rightarrow> reply_body \<Rightarrow> 'l server \<Rightarrow> 'l server \<Rightarrow> bool" where
  "ws_effect cfg ip reply sv sv' \<longleftrightarrow>
     (if \<exists>a. reply = Upgrade a
      then ws_count sv ip < sc_max_ws cfg \<and> ws_count sv' = (ws_count sv)(ip := ws_count sv ip + 1)
      else ws_count sv' = ws_count sv)"

lemma ws_handler_effect:
  "ws_handler cfg origin ip auth sv = (reply, sv') \<Longrightarrow> ws_effect cfg ip reply sv sv'"
  by (auto simp: ws_handler_def ws_effect_def fun_eq_iff split: if_splits)

lemma ws_effect_cong:
  "ws_effect cfg ip reply sv sv' \<Longrightarrow> sv_ws_counts sv = sv_ws_counts sv0 \<Longrightarrow> ws_effect cfg ip reply sv0 sv'"
  using ws_count_cong[of sv sv0] unfolding ws_effect_def by metis

lemma ws_effect_same:
  "\<nexists>a. reply = Upgrade a \<Longrightarrow> sv_ws_counts sv' = sv_ws_counts sv \<Longrightarrow> ws_effect cfg ip reply sv sv'"
  using ws_count_cong[of sv' sv] by (simp add: ws_effect_def)

lemma serve_authenticated_effect:
  assumes "serve_authenticated env cfg req auth e p sv = (reply, sv')"
  shows "ws_effect cfg (sr_ip req) reply sv sv'"
proof (cases "e = Some WsUpgrade \<and> sr_ws_ok req")
  case True
  then have "ws_handler cfg (sr_origin req) (sr_ip req) auth sv = (reply, sv')"
    using assms by (simp add: serve_authenticated_def)
  then show ?thesis by (rule ws_handler_effect)
next
  case False
  then show ?thesis using assms
    by (intro ws_effect_same)
       (auto simp: serve_authenticated_def Let_def split: option.splits endpoint.splits if_splits prod.splits)
qed

lemma serve_api_effect:
  assumes "serve_api env cfg req e p sv = (reply, sv')"
  shows "ws_effect cfg (sr_ip req) reply sv sv'"
proof -
  let ?tok = "auth_token (se_crypto env) (sr_now req) (se_show_ip env (sr_ip req)) (sr_headers req)
      (sr_query_token req) (as_store (sv_auth sv))"
  obtain allowed l where rate: "rate_limit (se_check env) (sr_now req) (sr_ip req) (sv_api_limit sv) = (allowed, l)"
    by force
  obtain auth store where tok: "?tok = (auth, store)" by force
  show ?thesis
  proof (cases "allowed \<and> auth \<noteq> None")
    case True
    then obtain ctx where ctx: "auth = Some ctx" by blast
    let ?sv = "sv\<lparr>sv_api_limit := l, sv_auth := (sv_auth sv)\<lparr>as_store := store\<rparr>\<rparr>"
    have "serve_authenticated env cfg req ctx e p ?sv = (reply, sv')"
      using assms True by (simp add: serve_api_def rate tok ctx Let_def)
    from serve_authenticated_effect[OF this] show ?thesis by (rule ws_effect_cong) simp
  next
    case False
    then show ?thesis using assms
      by (intro ws_effect_same) (auto simp: serve_api_def rate tok Let_def split: if_splits option.splits)
  qed
qed

lemma serve_effect:
  assumes "serve env cfg req sv = (answer, sv')"
  shows "ws_effect cfg (sr_ip req) (an_body answer) sv sv'"
  using assms
proof (cases rule: serve_cases)
  case (api e p)
  show ?thesis using api(2) by (rule serve_api_effect)
qed (auto intro!: ws_effect_same simp: serve_static_def serve_health_def serve_login_def Let_def
       split: prod.splits if_splits sum.splits)

text \<open>
  No address ever has more WebSocket connections than the limit; but a slot whose handshake
  the client never completes is not given back: the count of an address is its open
  connections plus all such handshakes, and once these fill the limit the address gets no
  connection any more.
\<close>
theorem lost_handshakes_keep_slots:
  assumes "ws_run env cfg sv up lost"
  shows "ws_count sv ip = up ip + lost ip \<and> up ip + lost ip \<le> sc_max_ws cfg
    \<and> (lost ip = sc_max_ws cfg \<longrightarrow> sr_ip req = ip \<longrightarrow> (\<nexists>a. an_body (fst (serve env cfg req sv)) = Upgrade a))"
proof -
  have count: "ws_count sv ip = up ip + lost ip \<and> up ip + lost ip \<le> sc_max_ws cfg" for ip
    using assms
  proof (induction arbitrary: ip)
    case (start sv)
    then show ?case by (simp add: ws_count_def)
  next
    case (opened sv up lost req answer sv' a)
    then show ?case using serve_effect[OF opened.hyps(2)] opened.IH[of ip]
      by (auto simp: ws_effect_def split: if_splits)
  next
    case (handshake_lost sv up lost req answer sv' a)
    then show ?case using serve_effect[OF handshake_lost.hyps(2)] handshake_lost.IH[of ip]
      by (auto simp: ws_effect_def split: if_splits)
  next
    case (served sv up lost req answer sv')
    then show ?case using serve_effect[OF served.hyps(2)] by (simp add: ws_effect_def)
  next
    case (closed sv up lost ip')
    show ?case using closed.hyps(2) closed.IH[of ip] by (cases "ip = ip'") (auto simp: ws_closed_def)
  qed
  moreover have "\<nexists>a. an_body (fst (serve env cfg req sv)) = Upgrade a" if "lost ip = sc_max_ws cfg" "sr_ip req = ip"
  proof -
    obtain answer sv' where run: "serve env cfg req sv = (answer, sv')" by force
    show ?thesis using serve_effect[OF run] count[of ip] that run by (auto simp: ws_effect_def)
  qed
  ultimately show ?thesis by blast
qed

abbreviation toy_upgrade :: server_request where
  "toy_upgrade \<equiv> toy_request GET ''/api/ws'' [''api'', ''ws''] (V4 (100, 64, 0, 1))"

abbreviation one_slot :: server_config where
  "one_slot \<equiv> toy_config\<lparr>sc_max_ws := 1\<rparr>"

lemma toy_upgraded: "an_body (fst (serve toy_env one_slot toy_upgrade toy_server)) = Upgrade toy_ctx"
  by (simp add: serve_eval toy_ctx_def ws_handler_def validate_ws_origin_def ws_count_def Let_def)

theorem lost_handshakes_keep_slots_witness:
  "\<nexists>a. an_body (fst (serve toy_env one_slot toy_upgrade (snd (serve toy_env one_slot toy_upgrade toy_server)))) = Upgrade a"
proof -
  obtain answer sv' where run: "serve toy_env one_slot toy_upgrade toy_server = (answer, sv')" by force
  have up: "an_body answer = Upgrade toy_ctx" using toy_upgraded run by simp
  have "ws_run toy_env one_slot toy_server (\<lambda>_. 0) (\<lambda>_. 0)"
    by (rule ws_run.start) (simp add: toy_server_def build_server_def)
  from ws_run.handshake_lost[OF this run up]
  have "ws_run toy_env one_slot sv' (\<lambda>_. 0) ((\<lambda>_. 0)(sr_ip toy_upgrade := 0 + 1))" .
  from lost_handshakes_keep_slots[OF this, of "sr_ip toy_upgrade" toy_upgrade] show ?thesis
    using run by (simp add: toy_config_def)
qed

end
