(* ===== verification/Remote_Ws.thy ===== *)
theory Remote_Ws
  imports Remote_Api Utf8
begin

text \<open>
  One WebSocket connection of the remote server (\<open>crates/pnevma-remote/src/routes/ws.rs\<close>):
  subscriptions, session input, RPC, the rate limit and the heartbeat.

  The loop waits for a broadcast event, the heartbeat or a client message: one step each. What
  the router answers, the clock, and whether a send succeeds belong to the step. Parsing of a
  message (serde), of UUIDs, and the alphanumeric characters outside ASCII are parameters.
\<close>

section \<open>Messages and limits\<close>

datatype ws_client_message =
    Subscribe string
  | Unsubscribe string
  | SessionInput string string
  | RpcMsg string string json

datatype ws_server_message =
    Subscribed string
  | Unsubscribed string
  | EventMsg string json
  | RpcResult string bool "json option" "string option"
  | ErrorMsg string

datatype ws_frame = TextFrame string | PingFrame | PongFrame | BinaryFrame | CloseFrame

datatype ws_out = SendMsg ws_server_message | SendPong | SendPing | SendClose

record remote_event =
  re_event :: string
  re_payload :: json

definition ALLOWED_EVENT_CHANNELS :: "string list" where
  "ALLOWED_EVENT_CHANNELS =
    [''fleet_updated'', ''project_opened'', ''task_updated'', ''notification_created'', ''notification_cleared'',
     ''notification_updated'', ''cost_updated'', ''intake_updated'', ''pr_updated'', ''ci_updated'',
     ''deployment_updated'', ''telemetry_updated'']"

definition MAX_WS_MESSAGE_SIZE :: nat where
  "MAX_WS_MESSAGE_SIZE = 65536"

definition DEFAULT_MAX_MESSAGES_PER_SECOND :: u32 where
  "DEFAULT_MAX_MESSAGES_PER_SECOND = 60"

definition MAX_SUBSCRIPTIONS_PER_CONNECTION :: nat where
  "MAX_SUBSCRIPTIONS_PER_CONNECTION = 8"

definition MAX_SESSION_INPUT_BYTES :: nat where
  "MAX_SESSION_INPUT_BYTES = 16 * 1024"

definition MAX_RPC_ID_LEN :: nat where
  "MAX_RPC_ID_LEN = 128"

definition MAX_RPC_METHOD_LEN :: nat where
  "MAX_RPC_METHOD_LEN = 128"

definition DEFAULT_MAX_CONSECUTIVE_RATE_VIOLATIONS :: u32 where
  "DEFAULT_MAX_CONSECUTIVE_RATE_VIOLATIONS = 5"

definition WS_IDLE_TIMEOUT :: time where
  "WS_IDLE_TIMEOUT = 90 * nanos_per_sec"

section \<open>A connection\<close>

record ws_policy =
  wp_auth :: "audit_auth_context option"
  wp_allow_input :: bool
  wp_max_per_second :: u32
  wp_max_violations :: u32
  wp_decode :: "string \<Rightarrow> string + ws_client_message"
  wp_is_uuid :: "string \<Rightarrow> bool"
  wp_alphanumeric :: "string \<Rightarrow> bool"
  wp_session_ids :: "json \<Rightarrow> string + string list"

record ws_env =
  we_now :: time
  we_router :: router
  we_send_ok :: "ws_out \<Rightarrow> bool"
  we_error_id :: string

record ws_conn =
  wc_sessions :: "string list"
  wc_channels :: "string list"
  wc_count :: u32
  wc_window :: time
  wc_activity :: time
  wc_violations :: u32
  wc_sent :: "ws_out list"
  wc_calls :: call_log
  wc_open :: bool

definition ws_open :: "time \<Rightarrow> ws_conn" where
  "ws_open t = \<lparr>wc_sessions = [], wc_channels = [], wc_count = 0, wc_window = t, wc_activity = t,
     wc_violations = 0, wc_sent = [], wc_calls = [], wc_open = True\<rparr>"

definition send :: "ws_env \<Rightarrow> ws_out \<Rightarrow> ws_conn \<Rightarrow> ws_conn" where
  "send env m c =
     (if we_send_ok env m then c\<lparr>wc_sent := wc_sent c @ [m]\<rparr> else c\<lparr>wc_open := False\<rparr>)"

definition route_call :: "ws_env \<Rightarrow> string \<Rightarrow> json \<Rightarrow> ws_conn \<Rightarrow> (string + json) \<times> ws_conn" where
  "route_call env m p c = (we_router env m p, c\<lparr>wc_calls := wc_calls c @ [(m, p)]\<rparr>)"

definition rpc_result :: "string \<Rightarrow> string + json \<Rightarrow> ws_server_message" where
  "rpc_result rid result =
     (case result of
        Ok v \<Rightarrow> RpcResult rid True (Some v) None
      | Err e \<Rightarrow> RpcResult rid False None (Some e))"

definition sanitize_router_result :: "ws_env \<Rightarrow> string + json \<Rightarrow> string + json" where
  "sanitize_router_result env result =
     (case result of Ok v \<Rightarrow> Ok v | Err _ \<Rightarrow> Err (''internal error (ref: '' @ we_error_id env @ '')''))"

definition channel_char :: "ws_policy \<Rightarrow> string \<Rightarrow> bool" where
  "channel_char pol ch \<longleftrightarrow>
     (case ch of
        [c] \<Rightarrow> is_ascii_alphanumeric c \<or> c \<in> {CHR ''_'', CHR ''-'', CHR '':'', CHR ''.''}
      | _ \<Rightarrow> wp_alphanumeric pol ch)"

definition is_valid_channel :: "ws_policy \<Rightarrow> string \<Rightarrow> bool" where
  "is_valid_channel pol name \<longleftrightarrow>
     name \<noteq> [] \<and> length name \<le> 64 \<and> list_all (channel_char pol) (utf8_chars name)"

definition session_channel_id :: "string \<Rightarrow> string option" where
  "session_channel_id name = strip_prefix name ''session:''"

definition is_allowed_channel :: "ws_policy \<Rightarrow> string \<Rightarrow> bool" where
  "is_allowed_channel pol name =
     (if \<not> is_valid_channel pol name then False
      else case session_channel_id name of
        Some session_id \<Rightarrow> wp_is_uuid pol session_id
      | None \<Rightarrow> name \<in> set ALLOWED_EVENT_CHANNELS)"

definition is_valid_rpc_id :: "string \<Rightarrow> bool" where
  "is_valid_rpc_id rid \<longleftrightarrow> rid \<noteq> [] \<and> length rid \<le> MAX_RPC_ID_LEN
     \<and> list_all (\<lambda>c. is_ascii_alphanumeric c \<or> c \<in> {CHR ''_'', CHR ''-'', CHR '':'', CHR ''.''}) rid"

definition is_valid_rpc_method :: "string \<Rightarrow> bool" where
  "is_valid_rpc_method m \<longleftrightarrow> m \<noteq> [] \<and> length m \<le> MAX_RPC_METHOD_LEN
     \<and> list_all (\<lambda>c. is_ascii_alphanumeric c \<or> c \<in> {CHR ''_'', CHR ''-'', CHR ''.''}) m"

definition validate_session_input :: "ws_policy \<Rightarrow> string \<Rightarrow> string \<Rightarrow> string + unit" where
  "validate_session_input pol sid data =
     (if \<not> wp_is_uuid pol sid then Err (''invalid session id: '' @ sid)
      else if length data > MAX_SESSION_INPUT_BYTES
      then Err (''session input exceeds '' @ nat_str MAX_SESSION_INPUT_BYTES @ '' byte limit'')
      else if CHR 0x00 \<in> set data then Err ''session input must not contain NUL bytes''
      else Ok ())"

definition authorize_session_channel ::
  "ws_policy \<Rightarrow> ws_env \<Rightarrow> string \<Rightarrow> ws_conn \<Rightarrow> (string + unit) \<times> ws_conn"
where
  "authorize_session_channel pol env sid c =
    (if \<not> wp_is_uuid pol sid then (Err (''invalid session channel: session:'' @ sid), c)
     else
       let (answer, c) = route_call env ''session.list'' JNull c in
       (case answer of
          Err e \<Rightarrow> (Err e, c)
        | Ok v \<Rightarrow>
            (case wp_session_ids pol v of
               Err e \<Rightarrow> (Err (''invalid session.list response: '' @ e), c)
             | Ok ids \<Rightarrow>
                 if list_ex (\<lambda>i. i = sid) ids then (Ok (), c)
                 else (Err (''session not found or not authorized: '' @ sid), c))))"

definition fleet_events :: "string list" where
  "fleet_events = [''project_opened'', ''project_open_failed'', ''task_updated'', ''notification_created'',
     ''notification_cleared'', ''notification_updated'', ''cost_updated'', ''session_spawned'',
     ''session_heartbeat'', ''session_exited'']"

definition payload_session_id :: "json \<Rightarrow> string option" where
  "payload_session_id payload =
     (case payload of
        JObject entries \<Rightarrow> (case map_of entries ''session_id'' of Some (JString s) \<Rightarrow> Some s | _ \<Rightarrow> None)
      | _ \<Rightarrow> None)"

definition event_channels :: "remote_event \<Rightarrow> string list" where
  "event_channels ev =
     [re_event ev] @ (if re_event ev \<in> set fleet_events then [''fleet_updated''] else [])
     @ (if re_event ev = ''session_output''
        then (case payload_session_id (re_payload ev) of Some s \<Rightarrow> [''session:'' @ s] | None \<Rightarrow> []) else [])"

section \<open>The answer to a message\<close>

definition em_dash :: string where
  "em_dash = [CHR 0xE2, CHR 0x80, CHR 0x94]"

definition handle_subscribe :: "ws_policy \<Rightarrow> ws_env \<Rightarrow> string \<Rightarrow> ws_conn \<Rightarrow> ws_server_message \<times> ws_conn" where
  "handle_subscribe pol env channel c =
    (if \<not> is_allowed_channel pol channel then (ErrorMsg (''channel not allowed: '' @ channel), c)
     else if channel \<notin> set (wc_channels c) \<and> length (wc_channels c) \<ge> MAX_SUBSCRIPTIONS_PER_CONNECTION
     then (ErrorMsg (''subscription limit exceeded: max '' @ nat_str MAX_SUBSCRIPTIONS_PER_CONNECTION
                     @ '' channels per connection''), c)
     else case session_channel_id channel of
       Some sid \<Rightarrow>
         (case authorize_session_channel pol env sid c of
            (Ok _, c) \<Rightarrow> (Subscribed channel, c\<lparr>wc_channels := List.insert channel (wc_channels c),
                                               wc_sessions := List.insert sid (wc_sessions c)\<rparr>)
          | (Err message, c) \<Rightarrow> (ErrorMsg message, c))
     | None \<Rightarrow> (Subscribed channel, c\<lparr>wc_channels := List.insert channel (wc_channels c)\<rparr>))"

definition handle_unsubscribe :: "ws_policy \<Rightarrow> string \<Rightarrow> ws_conn \<Rightarrow> ws_server_message \<times> ws_conn" where
  "handle_unsubscribe pol channel c =
    (if \<not> is_valid_channel pol channel then (ErrorMsg (''invalid channel name: '' @ channel), c)
     else
       let c = c\<lparr>wc_channels := removeAll channel (wc_channels c)\<rparr>;
           c = (case session_channel_id channel of
                  Some sid \<Rightarrow> c\<lparr>wc_sessions := removeAll sid (wc_sessions c)\<rparr> | None \<Rightarrow> c)
       in (Unsubscribed channel, c))"

definition handle_session_input ::
  "ws_policy \<Rightarrow> ws_env \<Rightarrow> string \<Rightarrow> string \<Rightarrow> ws_conn \<Rightarrow> ws_server_message \<times> ws_conn"
where
  "handle_session_input pol env sid data c =
    (case validate_session_input pol sid data of
       Err message \<Rightarrow> (ErrorMsg message, c)
     | Ok _ \<Rightarrow>
         if \<not> wp_allow_input pol then (ErrorMsg ''remote session input is disabled by policy'', c)
         else if sid \<notin> set (wc_sessions c)
         then (ErrorMsg (''not subscribed to session '' @ sid @ '' '' @ em_dash @ '' subscribe first''), c)
         else if \<not> is_operator (wp_auth pol) then (ErrorMsg ''session input requires operator role'', c)
         else
           let (answer, c) = route_call env ''session.send_input''
                 (JObject [(''input'', JString data), (''session_id'', JString sid)]) c
           in (rpc_result ''session.send_input'' (sanitize_router_result env answer), c))"

definition handle_rpc ::
  "ws_policy \<Rightarrow> ws_env \<Rightarrow> string \<Rightarrow> string \<Rightarrow> json \<Rightarrow> ws_conn \<Rightarrow> ws_server_message \<times> ws_conn"
where
  "handle_rpc pol env rid m params c =
    (if \<not> is_valid_rpc_id rid then (rpc_result rid (Err ''invalid rpc id''), c)
     else if \<not> is_valid_rpc_method m then (rpc_result rid (Err ''invalid rpc method''), c)
     else if \<not> is_allowed m then (rpc_result rid (Err (''method not allowed via RPC: '' @ m)), c)
     else if requires_operator m \<and> \<not> is_operator (wp_auth pol)
     then (rpc_result rid (Err (''method requires operator role: '' @ m)), c)
     else
       let (answer, c) = route_call env m params c
       in (rpc_result rid (sanitize_router_result env answer), c))"

fun respond :: "ws_policy \<Rightarrow> ws_env \<Rightarrow> ws_client_message \<Rightarrow> ws_conn \<Rightarrow> ws_server_message \<times> ws_conn" where
  "respond pol env (Subscribe channel) c = handle_subscribe pol env channel c"
| "respond pol env (Unsubscribe channel) c = handle_unsubscribe pol channel c"
| "respond pol env (SessionInput sid data) c = handle_session_input pol env sid data c"
| "respond pol env (RpcMsg rid m params) c = handle_rpc pol env rid m params c"

section \<open>The loop\<close>

definition count_message :: "ws_env \<Rightarrow> ws_conn \<Rightarrow> ws_conn" where
  "count_message env c =
    (let c = (if elapsed_secs (we_now env) (wc_window c) \<ge> 1
              then c\<lparr>wc_count := 0, wc_window := we_now env\<rparr> else c)
     in c\<lparr>wc_count := wc_count c + 1\<rparr>)"

definition handle_text :: "ws_policy \<Rightarrow> ws_env \<Rightarrow> string \<Rightarrow> ws_conn \<Rightarrow> ws_conn" where
  "handle_text pol env text c =
    (let c = count_message env c
     in if wc_count c > max (wp_max_per_second pol) 1 then
          let c = c\<lparr>wc_violations := wc_violations c + 1\<rparr>
          in if wc_violations c \<ge> max (wp_max_violations pol) 1
             then (send env SendClose c)\<lparr>wc_open := False\<rparr>
             else send env (SendMsg (ErrorMsg ''rate limit exceeded: too many messages per second'')) c
        else
          let c = c\<lparr>wc_violations := 0\<rparr>
          in case wp_decode pol text of
               Err _ \<Rightarrow> send env (SendMsg (ErrorMsg ''invalid message format'')) c
             | Ok m \<Rightarrow> (case respond pol env m c of (response, c) \<Rightarrow> send env (SendMsg response) c))"

definition handle_frame :: "ws_policy \<Rightarrow> ws_env \<Rightarrow> ws_frame \<Rightarrow> ws_conn \<Rightarrow> ws_conn" where
  "handle_frame pol env f c =
    (case f of
       TextFrame t \<Rightarrow> handle_text pol env t (c\<lparr>wc_activity := we_now env\<rparr>)
     | PingFrame \<Rightarrow> send env SendPong (c\<lparr>wc_activity := we_now env\<rparr>)
     | PongFrame \<Rightarrow> c\<lparr>wc_activity := we_now env\<rparr>
     | BinaryFrame \<Rightarrow> send env (SendMsg (ErrorMsg ''binary websocket messages are not supported'')) c
     | CloseFrame \<Rightarrow> c\<lparr>wc_open := False\<rparr>)"

text \<open>A failing send ends the connection, and with it the rest of the channels of the event.\<close>

fun send_events :: "ws_env \<Rightarrow> json \<Rightarrow> string list \<Rightarrow> ws_conn \<Rightarrow> ws_conn" where
  "send_events env payload [] c = c"
| "send_events env payload (ch # chs) c =
     (if ch \<notin> set (wc_channels c) then send_events env payload chs c
      else let c = send env (SendMsg (EventMsg ch payload)) c
           in if wc_open c then send_events env payload chs c else c)"

datatype ws_input = Broadcast remote_event | Lagged | BroadcastClosed | HeartbeatTick | Frame ws_frame | StreamEnd

definition ws_step :: "ws_policy \<Rightarrow> ws_env \<Rightarrow> ws_input \<Rightarrow> ws_conn \<Rightarrow> ws_conn" where
  "ws_step pol env i c =
    (if \<not> wc_open c then c
     else case i of
       Broadcast ev \<Rightarrow> send_events env (re_payload ev) (event_channels ev) c
     | Lagged \<Rightarrow> c
     | BroadcastClosed \<Rightarrow> c\<lparr>wc_open := False\<rparr>
     | HeartbeatTick \<Rightarrow>
         if we_now env - wc_activity c > WS_IDLE_TIMEOUT then (send env SendClose c)\<lparr>wc_open := False\<rparr>
         else send env SendPing c
     | Frame f \<Rightarrow> handle_frame pol env f c
     | StreamEnd \<Rightarrow> c\<lparr>wc_open := False\<rparr>)"

section \<open>Invariants of a connection\<close>

abbreviation ws_conn_run :: "ws_policy \<Rightarrow> (ws_env \<times> ws_input) list \<Rightarrow> ws_conn \<Rightarrow> ws_conn" where
  "ws_conn_run pol \<equiv> fold (\<lambda>(env, i). ws_step pol env i)"

lemma send_fields [simp]:
  "wc_sessions (send env m c) = wc_sessions c" "wc_channels (send env m c) = wc_channels c"
  "wc_calls (send env m c) = wc_calls c" "wc_count (send env m c) = wc_count c"
  "wc_window (send env m c) = wc_window c" "wc_violations (send env m c) = wc_violations c"
  "wc_sent (send env m c) = (if we_send_ok env m then wc_sent c @ [m] else wc_sent c)"
  "wc_open (send env m c) = (we_send_ok env m \<and> wc_open c)"
  by (simp_all add: send_def)

definition session_channel :: "string \<Rightarrow> string" where
  "session_channel sid = ''session:'' @ sid"

lemma session_channel_id_Some: "session_channel_id ch = Some sid \<longleftrightarrow> ch = session_channel sid"
  unfolding session_channel_id_def session_channel_def by (rule strip_prefix_Some)

lemma session_channel_id_channel [simp]: "session_channel_id (session_channel sid) = Some sid"
  by (simp add: session_channel_id_Some)

lemma session_channel_eq [simp]: "session_channel sid = session_channel sid' \<longleftrightarrow> sid = sid'"
  by (simp add: session_channel_def)

definition subs_ok :: "ws_policy \<Rightarrow> ws_conn \<Rightarrow> bool" where
  "subs_ok pol c \<longleftrightarrow> distinct (wc_channels c) \<and> length (wc_channels c) \<le> MAX_SUBSCRIPTIONS_PER_CONNECTION
     \<and> list_all (is_allowed_channel pol) (wc_channels c)
     \<and> (\<forall>sid. sid \<in> set (wc_sessions c) \<longleftrightarrow> session_channel sid \<in> set (wc_channels c))"

lemma subs_ok_cong:
  "wc_channels c' = wc_channels c \<Longrightarrow> wc_sessions c' = wc_sessions c \<Longrightarrow> subs_ok pol c' = subs_ok pol c"
  by (simp add: subs_ok_def)



lemma authorize_frame:
  "authorize_session_channel pol env sid c = (r, c') \<Longrightarrow> wc_channels c' = wc_channels c \<and> wc_sessions c' = wc_sessions c
     \<and> wc_sent c' = wc_sent c \<and> wc_open c' = wc_open c
     \<and> (wc_calls c' = wc_calls c \<or> wc_calls c' = wc_calls c @ [(''session.list'', JNull)])"
  by (auto simp: authorize_session_channel_def route_call_def split: if_splits sum.splits)

lemma length_insert_le: "ch \<in> set xs \<or> length xs < n \<Longrightarrow> length xs \<le> n \<Longrightarrow> length (List.insert ch xs) \<le> n"
  by (auto simp: List.insert_def)

lemma subscribe_ok:
  assumes "handle_subscribe pol env ch c = (r, c')" and "subs_ok pol c"
  shows "subs_ok pol c'"
proof (cases "r = Subscribed ch")
  case True
  have allowed: "is_allowed_channel pol ch" "ch \<in> set (wc_channels c) \<or> length (wc_channels c) < MAX_SUBSCRIPTIONS_PER_CONNECTION"
    using assms(1) True by (auto simp: handle_subscribe_def split: if_splits)
  then have chans: "wc_channels c' = List.insert ch (wc_channels c)"
    "wc_sessions c' = (case session_channel_id ch of None \<Rightarrow> wc_sessions c | Some sid \<Rightarrow> List.insert sid (wc_sessions c))"
    using assms(1) True by (auto simp: handle_subscribe_def split: if_splits option.splits prod.splits sum.splits
        dest!: authorize_frame)
  show ?thesis
    using assms(2) allowed length_insert_le[OF allowed(2)]
    by (auto simp: subs_ok_def chans list_all_iff session_channel_id_Some split: option.splits)
next
  case False
  then show ?thesis using assms
    by (subst subs_ok_cong[of c' c])
       (auto simp: handle_subscribe_def split: if_splits option.splits prod.splits sum.splits dest!: authorize_frame)
qed

lemma unsubscribe_ok:
  assumes "handle_unsubscribe pol ch c = (r, c')" and "subs_ok pol c"
  shows "subs_ok pol c'"
proof -
  have le: "length xs \<le> n \<Longrightarrow> length (removeAll ch xs) \<le> n" for xs :: "string list" and n
    using length_filter_le[of "\<lambda>x. ch \<noteq> x" xs] unfolding removeAll_filter_not_eq by linarith
  show ?thesis using assms le
    by (cases "session_channel_id ch")
       (auto simp: handle_unsubscribe_def subs_ok_def list_all_iff distinct_removeAll Let_def session_channel_id_Some
         split: if_splits)
qed

lemma respond_ok:
  assumes "respond pol env m c = (r, c')" and "subs_ok pol c"
  shows "subs_ok pol c'"
proof (cases m)
  case (SessionInput sid data)
  then show ?thesis using assms
    by (subst subs_ok_cong[of c' c]) (auto simp: handle_session_input_def route_call_def split: if_splits sum.splits)
next
  case (RpcMsg rid meth params)
  then show ?thesis using assms
    by (subst subs_ok_cong[of c' c]) (auto simp: handle_rpc_def route_call_def split: if_splits)
qed (use assms subscribe_ok unsubscribe_ok in auto)

text \<open>What a message may make the connection ask of the router.\<close>

definition ws_call_ok :: "ws_policy \<Rightarrow> ws_conn \<Rightarrow> string \<times> json \<Rightarrow> bool" where
  "ws_call_ok pol c = (\<lambda>(m, p). call_permitted (wp_auth pol) m
     \<or> (\<exists>sid data. m = ''session.send_input'' \<and> p = JObject [(''input'', JString data), (''session_id'', JString sid)]
          \<and> wp_allow_input pol \<and> is_operator (wp_auth pol) \<and> sid \<in> set (wc_sessions c)
          \<and> wp_is_uuid pol sid \<and> length data \<le> MAX_SESSION_INPUT_BYTES \<and> CHR 0x00 \<notin> set data))"

lemma respond_calls:
  assumes "respond pol env m c = (r, c')"
  shows "\<exists>calls. wc_calls c' = wc_calls c @ calls \<and> list_all (ws_call_ok pol c) calls"
proof (cases m)
  case (Subscribe ch)
  have "ws_call_ok pol c (''session.list'', JNull)" by (simp add: ws_call_ok_def permitted_methods)
  moreover have "wc_calls c' = wc_calls c \<or> wc_calls c' = wc_calls c @ [(''session.list'', JNull)]"
    using assms Subscribe
    by (auto simp: handle_subscribe_def split: if_splits option.splits prod.splits sum.splits dest!: authorize_frame)
  ultimately show ?thesis by (elim disjE) auto
next
  case (Unsubscribe ch)
  then show ?thesis using assms
    by (auto simp: handle_unsubscribe_def Let_def split: if_splits option.splits)
next
  case (SessionInput sid data)
  then show ?thesis using assms
    by (auto simp: handle_session_input_def route_call_def validate_session_input_def ws_call_ok_def
        split: if_splits sum.splits)
next
  case (RpcMsg rid meth params)
  then show ?thesis using assms
    by (auto simp: handle_rpc_def route_call_def ws_call_ok_def call_permitted_def split: if_splits)
qed

lemma respond_sent:
  "respond pol env m c = (r, c') \<Longrightarrow> wc_sent c' = wc_sent c \<and> wc_open c' = wc_open c \<and> (\<nexists>ch p. r = EventMsg ch p)"
  by (cases m)
     (auto simp: handle_subscribe_def handle_unsubscribe_def handle_session_input_def handle_rpc_def route_call_def
        rpc_result_def Let_def split: if_splits option.splits prod.splits sum.splits dest!: authorize_frame)

text \<open>Everything a step may do: it keeps the subscriptions in order, calls the router only as
  above, and sends events only on channels subscribed before.\<close>

definition ws_step_ok :: "ws_policy \<Rightarrow> ws_conn \<Rightarrow> ws_conn \<Rightarrow> bool" where
  "ws_step_ok pol c c' \<longleftrightarrow> (subs_ok pol c \<longrightarrow> subs_ok pol c')
     \<and> (\<exists>calls. wc_calls c' = wc_calls c @ calls \<and> list_all (ws_call_ok pol c) calls)
     \<and> (\<exists>out. wc_sent c' = wc_sent c @ out
          \<and> (\<forall>ch p. SendMsg (EventMsg ch p) \<in> set out \<longrightarrow> ch \<in> set (wc_channels c)))"

lemma ws_step_ok_frame:
  assumes "wc_channels c' = wc_channels c" and "wc_sessions c' = wc_sessions c" and "wc_calls c' = wc_calls c"
    and "wc_sent c' = wc_sent c \<or> (\<exists>m. wc_sent c' = wc_sent c @ [m] \<and> (\<forall>ch p. m \<noteq> SendMsg (EventMsg ch p)))"
  shows "ws_step_ok pol c c'"
  using assms subs_ok_cong[OF assms(1,2)] unfolding ws_step_ok_def by (elim disjE) auto

lemma count_message_fields [simp]:
  "wc_channels (count_message env c) = wc_channels c" "wc_sessions (count_message env c) = wc_sessions c"
  "wc_calls (count_message env c) = wc_calls c" "wc_sent (count_message env c) = wc_sent c"
  "wc_open (count_message env c) = wc_open c" "wc_violations (count_message env c) = wc_violations c"
  "wc_activity (count_message env c) = wc_activity c"
  by (simp_all add: count_message_def Let_def)

lemma handle_text_ok: "ws_step_ok pol c (handle_text pol env text c)"
proof -
  define c2 where "c2 = count_message env c"
  have same: "wc_channels c2 = wc_channels c" "wc_sessions c2 = wc_sessions c" "wc_calls c2 = wc_calls c"
    "wc_sent c2 = wc_sent c" by (simp_all add: c2_def)
  show ?thesis
  proof (cases "wc_count c2 > max (wp_max_per_second pol) 1 \<or> \<not> is_ok (wp_decode pol text)")
    case True
    then show ?thesis using same
      by (intro ws_step_ok_frame)
         (auto simp: handle_text_def c2_def[symmetric] Let_def split: sum.splits)
  next
    case False
    then obtain m where m: "wp_decode pol text = Ok m" by (cases "wp_decode pol text") auto
    let ?c = "c2\<lparr>wc_violations := 0\<rparr>"
    obtain r c' where r: "respond pol env m ?c = (r, c')" by force
    have res: "handle_text pol env text c = send env (SendMsg r) c'"
      using False by (auto simp: handle_text_def c2_def[symmetric] Let_def m r)
    have "ws_call_ok pol ?c = ws_call_ok pol c" using same by (simp add: ws_call_ok_def)
    moreover have "subs_ok pol ?c = subs_ok pol c" using same by (intro subs_ok_cong) simp_all
    ultimately show ?thesis
      using respond_ok[OF r] respond_calls[OF r] respond_sent[OF r] same
      by (auto simp: ws_step_ok_def res subs_ok_cong[of "send env (SendMsg r) c'" c'])
  qed
qed

lemma send_events_frame:
  "wc_channels (send_events env p chs c) = wc_channels c \<and> wc_sessions (send_events env p chs c) = wc_sessions c
   \<and> wc_calls (send_events env p chs c) = wc_calls c
   \<and> (\<exists>out. wc_sent (send_events env p chs c) = wc_sent c @ out
        \<and> (\<forall>ch q. SendMsg (EventMsg ch q) \<in> set out \<longrightarrow> ch \<in> set (wc_channels c)))"
proof (induction chs arbitrary: c)
  case (Cons ch chs)
  show ?case using Cons.IH[of c] Cons.IH[of "send env (SendMsg (EventMsg ch p)) c"]
    by (cases "ch \<in> set (wc_channels c)"; cases "we_send_ok env (SendMsg (EventMsg ch p)) \<and> wc_open c")
       (fastforce simp: Let_def)+
qed simp

lemma ws_step_ok: "ws_step_ok pol c (ws_step pol env i c)"
proof (cases "wc_open c")
  case True
  note up = this
  show ?thesis
  proof (cases i)
    case (Broadcast ev)
    then show ?thesis
      using up send_events_frame[of env "re_payload ev" "event_channels ev" c]
        subs_ok_cong[of "send_events env (re_payload ev) (event_channels ev) c" c]
      by (auto simp: ws_step_def ws_step_ok_def)
  next
    case (Frame f)
    show ?thesis
    proof (cases f)
      case (TextFrame t)
      then show ?thesis
        using up Frame handle_text_ok[of pol "c\<lparr>wc_activity := we_now env\<rparr>" env t]
          subs_ok_cong[of "c\<lparr>wc_activity := we_now env\<rparr>" c]
        by (simp add: ws_step_def handle_frame_def ws_step_ok_def ws_call_ok_def)
    qed (use up Frame in \<open>auto simp: ws_step_def handle_frame_def intro!: ws_step_ok_frame\<close>)
  qed (use up in \<open>auto simp: ws_step_def intro!: ws_step_ok_frame\<close>)
qed (auto simp: ws_step_def intro!: ws_step_ok_frame)

lemma ws_run_subs_ok: "subs_ok pol c \<Longrightarrow> subs_ok pol (ws_conn_run pol steps c)"
proof (induction steps arbitrary: c)
  case (Cons x steps)
  obtain env i where x: "x = (env, i)" by force
  show ?case using Cons ws_step_ok[of pol c env i] by (simp add: x ws_step_ok_def)
qed simp

lemma subs_ok_open [simp]: "subs_ok pol (ws_open t)"
  by (simp add: subs_ok_def ws_open_def)

text \<open>
  Whatever a client sends and the router answers, a connection is subscribed to at most
  eight channels, all of them allowed; it counts a session as subscribed exactly when it is
  subscribed to the channel of the session; and a step sends an event only on a channel that
  was subscribed before it.
\<close>
theorem subscriptions_bounded:
  shows "subs_ok pol (ws_conn_run pol steps (ws_open t))
    \<and> (\<exists>out. wc_sent (ws_step pol env i (ws_conn_run pol steps (ws_open t))) = wc_sent (ws_conn_run pol steps (ws_open t)) @ out
        \<and> {ch. \<exists>p. SendMsg (EventMsg ch p) \<in> set out} \<subseteq> set (wc_channels (ws_conn_run pol steps (ws_open t))))"
proof
  let ?c = "ws_conn_run pol steps (ws_open t)"
  show "subs_ok pol ?c" by (simp add: ws_run_subs_ok)
  obtain out where "wc_sent (ws_step pol env i ?c) = wc_sent ?c @ out"
    "\<forall>ch p. SendMsg (EventMsg ch p) \<in> set out \<longrightarrow> ch \<in> set (wc_channels ?c)"
    using ws_step_ok[of pol ?c env i] unfolding ws_step_ok_def by blast
  then show "\<exists>out. wc_sent (ws_step pol env i ?c) = wc_sent ?c @ out
        \<and> {ch. \<exists>p. SendMsg (EventMsg ch p) \<in> set out} \<subseteq> set (wc_channels ?c)" by blast
qed

text \<open>
  C29. Over a WebSocket connection the router is called only with methods of the allowlist, the
  changing ones for operators only, or to send input to a session: then the policy allows it,
  the connection has the operator role, is subscribed to the session at that time, and the
  input is at most 16 KiB without NUL bytes.
\<close>
theorem ws_calls_authorised:
  assumes "(m, p) \<in> set (drop (length (wc_calls c)) (wc_calls (ws_step pol env i c)))" and "subs_ok pol c"
  shows "call_permitted (wp_auth pol) m
    \<or> (\<exists>sid data. m = ''session.send_input'' \<and> p = JObject [(''input'', JString data), (''session_id'', JString sid)]
          \<and> wp_allow_input pol \<and> is_operator (wp_auth pol) \<and> ''session:'' @ sid \<in> set (wc_channels c)
          \<and> length data \<le> MAX_SESSION_INPUT_BYTES \<and> CHR 0x00 \<notin> set data)"
proof -
  obtain calls where "wc_calls (ws_step pol env i c) = wc_calls c @ calls" "list_all (ws_call_ok pol c) calls"
    using ws_step_ok[of pol c env i] unfolding ws_step_ok_def by blast
  with assms(1) have "ws_call_ok pol c (m, p)" by (simp add: list_all_iff)
  then show ?thesis using assms(2)
    by (simp add: ws_call_ok_def subs_ok_def session_channel_def) blast
qed

section \<open>The rate limit\<close>

text \<open>A text message within the current second.\<close>

definition in_window :: "ws_conn \<Rightarrow> ws_env \<Rightarrow> bool" where
  "in_window c env \<longleftrightarrow> elapsed_secs (we_now env) (wc_window c) = 0"

lemma excess_message:
  assumes "wc_open c" and "in_window c env" and "unat (max (wp_max_per_second pol) 1) \<le> unat (wc_count c)"
    and "unat (wc_count c) + 1 < 2 ^ 32" and "unat (wc_violations c) + 1 < 2 ^ 32" and "\<And>m. we_send_ok env m"
  shows "let c' = ws_step pol env (Frame (TextFrame t)) c in
    unat (wc_count c') = unat (wc_count c) + 1 \<and> unat (wc_violations c') = unat (wc_violations c) + 1
    \<and> wc_window c' = wc_window c
    \<and> (wc_open c' \<longleftrightarrow> unat (wc_violations c) + 1 < unat (max (wp_max_violations pol) 1))"
proof -
  let ?c = "count_message env (c\<lparr>wc_activity := we_now env\<rparr>)"
  have count: "unat (wc_count ?c) = unat (wc_count c) + 1"
    using assms(2,4) by (simp add: count_message_def in_window_def unat_word_ariths)
  have viol: "unat (wc_violations c + 1) = unat (wc_violations c) + 1"
    using assms(5) by (simp add: unat_word_ariths)
  have over: "wc_count ?c > max (wp_max_per_second pol) 1" using count assms(3) unfolding word_less_nat_alt by linarith
  have window: "wc_window ?c = wc_window c" using assms(2) by (simp add: count_message_def in_window_def)
  have ge: "wc_violations ?c + 1 \<ge> max (wp_max_violations pol) 1
      \<longleftrightarrow> \<not> unat (wc_violations c) + 1 < unat (max (wp_max_violations pol) 1)"
    using viol unfolding word_le_nat_alt by (simp add: not_less)
  show ?thesis
    using assms(1,6) over count viol window ge
    by (auto simp: ws_step_def handle_frame_def handle_text_def Let_def simp del: max_less_iff_conj max.bounded_iff)
qed

definition text_steps :: "(ws_env \<times> string) list \<Rightarrow> (ws_env \<times> ws_input) list" where
  "text_steps msgs = map (\<lambda>(env, t). (env, Frame (TextFrame t))) msgs"

definition reliable :: "ws_env \<Rightarrow> bool" where
  "reliable env \<longleftrightarrow> (\<forall>m. we_send_ok env m)"

lemma excess_messages:
  assumes "wc_open c" and "list_all (\<lambda>(env, t). in_window c env \<and> reliable env) msgs"
    and "unat (max (wp_max_per_second pol) 1) \<le> unat (wc_count c)"
    and "unat (wc_count c) + length msgs < 2 ^ 32"
    and "unat (wc_violations c) + length msgs \<le> unat (max (wp_max_violations pol) 1)"
    and "unat (wc_violations c) < unat (max (wp_max_violations pol) 1)"
  shows "wc_open (ws_conn_run pol (text_steps msgs) c)
    \<longleftrightarrow> unat (wc_violations c) + length msgs < unat (max (wp_max_violations pol) 1)"
  using assms
proof (induction msgs arbitrary: c)
  case (Cons x msgs)
  obtain env t where x: "x = (env, t)" by force
  let ?c = "ws_step pol env (Frame (TextFrame t)) c"
  have small: "unat (wc_violations c) + 1 < 2 ^ 32"
    using Cons.prems(5,6) unsigned_less[of "max (wp_max_violations pol) 1", where ?'a = nat] by simp
  have step: "unat (wc_count ?c) = unat (wc_count c) + 1" "unat (wc_violations ?c) = unat (wc_violations c) + 1"
    "wc_window ?c = wc_window c" "wc_open ?c \<longleftrightarrow> unat (wc_violations c) + 1 < unat (max (wp_max_violations pol) 1)"
    using excess_message[OF Cons.prems(1) _ Cons.prems(3) _ small, of env t] Cons.prems(2,4)
    by (simp_all add: x Let_def reliable_def)
  have rest: "list_all (\<lambda>(env, t). in_window ?c env \<and> reliable env) msgs"
    using Cons.prems(2) step(3) by (simp add: in_window_def)
  show ?case
  proof (cases "wc_open ?c")
    case True
    then show ?thesis using Cons.IH[OF True rest] Cons.prems(3,4,5) step by (simp add: text_steps_def x)
  next
    case False
    have "ws_conn_run pol (text_steps msgs) ?c = ?c"
      using False by (induction msgs) (auto simp: text_steps_def ws_step_def)
    then show ?thesis using False step(4) Cons.prems(5,6) by (simp add: text_steps_def x)
  qed
qed (simp add: text_steps_def)

text \<open>
  The disconnection for exceeding the rate counts messages, not seconds: once the second's
  budget is used up, the tolerated number of further messages within the same second ends the
  connection (five by default), and fewer do not.
\<close>
theorem excess_messages_disconnect:
  assumes "wc_open c" and "wc_violations c = 0" and "list_all (\<lambda>(env, t). in_window c env \<and> reliable env) msgs"
    and "unat (max (wp_max_per_second pol) 1) \<le> unat (wc_count c)" and "unat (wc_count c) + length msgs < 2 ^ 32"
    and "length msgs \<le> unat (max (wp_max_violations pol) 1)"
  shows "wc_open (ws_conn_run pol (text_steps msgs) c) \<longleftrightarrow> length msgs < unat (max (wp_max_violations pol) 1)"
proof -
  have "0 < max (wp_max_violations pol) 1" by (rule less_le_trans[OF _ max.cobounded2]) simp
  then have "0 < unat (max (wp_max_violations pol) 1)" by (simp add: word_less_nat_alt)
  then show ?thesis using excess_messages[OF assms(1,3,4,5)] assms(2,6) by simp
qed

definition default_policy :: ws_policy where
  "default_policy = \<lparr>wp_auth = Some toy_ctx, wp_allow_input = False,
     wp_max_per_second = DEFAULT_MAX_MESSAGES_PER_SECOND, wp_max_violations = DEFAULT_MAX_CONSECUTIVE_RATE_VIOLATIONS,
     wp_decode = (\<lambda>s. Ok (Subscribe s)), wp_is_uuid = (\<lambda>s. length s = 36), wp_alphanumeric = (\<lambda>_. False),
     wp_session_ids = (\<lambda>_. Ok [])\<rparr>"

definition calm_env :: ws_env where
  "calm_env = \<lparr>we_now = 0, we_router = (\<lambda>_ _. Ok JNull), we_send_ok = (\<lambda>_. True), we_error_id = ''e''\<rparr>"

theorem excess_messages_disconnect_witness:
  "\<not> wc_open (ws_conn_run default_policy (text_steps (replicate 5 (calm_env, ''task_updated''))) ((ws_open 0)\<lparr>wc_count := 60\<rparr>))"
  by (subst excess_messages_disconnect)
     (simp_all add: ws_open_def default_policy_def in_window_def elapsed_secs_def reliable_def calm_env_def
       DEFAULT_MAX_MESSAGES_PER_SECOND_def DEFAULT_MAX_CONSECUTIVE_RATE_VIOLATIONS_def max_def word_le_nat_alt list_all_iff)

theorem ws_calls_authorised_witness:
  "call_permitted (Some toy_ctx) ''task.list''"
proof -
  let ?pol = "default_policy\<lparr>wp_decode := (\<lambda>s. Ok (RpcMsg ''1'' s JNull))\<rparr>"
  have "(''task.list'', JNull) \<in> set (drop (length (wc_calls (ws_open 0)))
      (wc_calls (ws_step ?pol calm_env (Frame (TextFrame ''task.list'')) (ws_open 0))))"
    by (simp add: ws_step_def handle_frame_def handle_text_def count_message_def ws_open_def default_policy_def
        calm_env_def elapsed_secs_def DEFAULT_MAX_MESSAGES_PER_SECOND_def max_def handle_rpc_def is_valid_rpc_id_def
        is_valid_rpc_method_def is_ascii_alphanumeric_def is_allowed_def requires_operator_def WRITE_METHODS_def
        READ_METHODS_def route_call_def MAX_RPC_ID_LEN_def MAX_RPC_METHOD_LEN_def Let_def)
  from ws_calls_authorised[OF this] show ?thesis by (simp add: default_policy_def)
qed

text \<open>
  Binary frames escape the rate limit: however many arrive, each is answered, none is
  counted, and the connection stays open.
\<close>
theorem binary_frames_unlimited:
  assumes "wc_open c" and "reliable env"
  shows "let c' = ws_conn_run pol (replicate n (env, Frame BinaryFrame)) c in
    wc_open c' \<and> wc_count c' = wc_count c \<and> wc_violations c' = wc_violations c
    \<and> wc_sent c' = wc_sent c
        @ replicate n (SendMsg (ErrorMsg ''binary websocket messages are not supported''))"
  using assms
proof (induction n arbitrary: c)
  case (Suc n)
  show ?case using Suc.prems Suc.IH[of "ws_step pol env (Frame BinaryFrame) c"]
    by (simp add: ws_step_def handle_frame_def reliable_def Let_def)
qed (simp add: Let_def)

theorem binary_frames_unlimited_witness:
  "wc_open (ws_conn_run default_policy (replicate 1000 (calm_env, Frame BinaryFrame)) (ws_open 0))"
  using binary_frames_unlimited[of "ws_open 0" calm_env default_policy 1000]
  by (simp add: ws_open_def reliable_def calm_env_def Let_def)

end
