(* ===== verification/Context_Files.thy ===== *)
theory Context_Files
  imports Task Git_Worktrees Redaction
begin

text \<open>
  The files an agent gets as context (\<open>crates/pnevma-context/src/discovery.rs\<close>): the
  strategies that propose paths, the checks a path passes, the token budget, truncation and
  redaction.

  The file system, the environment and the output of \<open>git\<close> and \<open>grep\<close> are a record \<open>disc_env\<close>,
  fixed during one discovery. A text is what \<open>read_to_string\<close> returns, so valid UTF-8.
  Sizes and budgets stay far below the limits of \<open>usize\<close> and are natural numbers.
\<close>

section \<open>Configuration\<close>

definition CHARS_PER_TOKEN_ESTIMATE :: nat where
  "CHARS_PER_TOKEN_ESTIMATE = 4"

record discovery_config =
  strategies :: "string list"
  max_file_size_kb :: nat
  exclude_patterns :: "string list"

definition default_strategies :: "string list" where
  "default_strategies = [''scope'', ''claude_md'', ''harness_config'', ''git_diff'']"

definition default_discovery :: discovery_config where
  "default_discovery = \<lparr>strategies = default_strategies, max_file_size_kb = 100,
     exclude_patterns =
       [''*.lock'', ''node_modules/**'', ''target/**'', ''.git/**'', ''dist/**'', ''build/**'', ''.env'', ''.env.*'',
        ''*.pem'', ''*.key'', ''*.p12'', ''*.pfx'', ''id_rsa*'', ''id_ed25519*'', ''id_ecdsa*'', ''id_dsa*'', ''*.secret'',
        ''credentials*'', ''*.keystore'', ''*.jks'', ''.npmrc'', ''.pypirc'', ''.aws/credentials'', ''.kube/config'',
        ''.docker/config.json'', ''*.age'']\<rparr>"

section \<open>Glob patterns\<close>

definition strip_suffix :: "string \<Rightarrow> string \<Rightarrow> string option" where
  "strip_suffix s p = (if ends_with s p then Some (take (length s - length p) s) else None)"

definition split_once :: "string \<Rightarrow> string \<Rightarrow> (string \<times> string) option" where
  "split_once s p = map_option (\<lambda>i. (take i s, drop (i + length p) s)) (str_find s p)"

text \<open>\<open>path.rsplit('/').next()\<close>.\<close>

definition last_segment :: "string \<Rightarrow> string" where
  "last_segment path = last (split_on CHR ''/'' path)"

text \<open>\<open>split("**")\<close> has two parts when the pattern occurs exactly once.\<close>

definition two_parts :: "string \<Rightarrow> (string \<times> string) option" where
  "two_parts pattern =
     (case split_once pattern ''**'' of
        Some (a, b) \<Rightarrow> if str_contains b ''**'' then None else Some (a, b)
      | None \<Rightarrow> None)"

definition matches_glob_simple :: "string \<Rightarrow> string \<Rightarrow> bool" where
  "matches_glob_simple pattern path =
    (if starts_with pattern ''*.'' then ends_with path (drop 1 pattern)
     else case strip_suffix pattern ''/**'' of
       Some pre \<Rightarrow>
         path = pre \<or> starts_with path (pre @ ''/'') \<or> str_contains path (''/'' @ pre @ ''/'')
     | None \<Rightarrow>
         (case two_parts pattern of
            Some (a, b) \<Rightarrow> starts_with path a \<and> ends_with path b
          | None \<Rightarrow>
              (case (if ends_with pattern ''*'' \<and> CHR ''*'' \<notin> set (butlast pattern) then Some (butlast pattern) else None) of
                 Some pre \<Rightarrow> starts_with (last_segment path) pre
               | None \<Rightarrow>
                   if str_contains pattern ''.*'' \<and> \<not> str_contains pattern ''**''
                   then (case split_once pattern ''.*'' of
                           Some (before, after) \<Rightarrow>
                             starts_with (last_segment path) before
                             \<and> length (last_segment path) > length before
                             \<and> (after = [] \<or> ends_with (last_segment path) after)
                         | None \<Rightarrow> False)
                   else last_segment path = pattern \<or> path = pattern)))"

definition is_excluded :: "discovery_config \<Rightarrow> string \<Rightarrow> bool" where
  "is_excluded cfg rel = list_ex (\<lambda>p. matches_glob_simple p rel) (exclude_patterns cfg)"

section \<open>Truncation\<close>

definition truncation_note :: string where
  "truncation_note = [CHR 0x0A, CHR 0x0A] @ ''... [truncated '' @ [CHR 0xE2, CHR 0x80, CHR 0x94]
     @ '' file continues] ...'' @ [CHR 0x0A]"

text \<open>The last offset of a character up to the limit, then the last line feed before it.\<close>

definition safe_end :: "string \<Rightarrow> nat \<Rightarrow> nat" where
  "safe_end content max_chars =
     (let is = takeWhile (\<lambda>i. i \<le> max_chars) (char_indices content) in if is = [] then 0 else last is)"

definition rfind_char :: "char \<Rightarrow> string \<Rightarrow> nat option" where
  "rfind_char c s =
     (let is = filter (\<lambda>i. s ! i = c) [0..<length s] in if is = [] then None else Some (last is))"

definition truncate_content :: "string \<Rightarrow> nat \<Rightarrow> string" where
  "truncate_content content max_chars =
    (if length content \<le> max_chars then content
     else
       let e = safe_end content max_chars;
           cut = (case rfind_char CHR 0x0A (take e content) of Some i \<Rightarrow> i | None \<Rightarrow> e)
       in take cut content @ truncation_note)"

section \<open>Strategies\<close>

record disc_env =
  canonicalize :: "string \<Rightarrow> string option"
  is_file :: "string \<Rightarrow> bool"
  file_len :: "string \<Rightarrow> nat option"
  read_text :: "string \<Rightarrow> string option"
  home_var :: "string option"
  git_count :: "u32 option"
  git_diff_head :: "u32 \<Rightarrow> string option"
  git_diff :: "string + string"
  grep :: "string \<Rightarrow> string + string"
  regex_escape :: "string \<Rightarrow> string"

definition split_whitespace :: "string \<Rightarrow> string list" where
  "split_whitespace s =
     filter (\<lambda>w. w \<noteq> [])
       (split_on CHR '' '' (fold (\<lambda>w t. str_replace w '' '' t) ws_encodings s))"

definition discover_scope :: "disc_env \<Rightarrow> 'p task_contract \<Rightarrow> string \<Rightarrow> string + string list" where
  "discover_scope env task root =
    (case canonicalize env root of
       None \<Rightarrow> Err ''failed to canonicalize project root''
     | Some croot \<Rightarrow>
         Ok (concat (map (\<lambda>s. case canonicalize env (path_join root s) of
                 Some p \<Rightarrow> if path_starts_with p croot then [p] else []
               | None \<Rightarrow> [path_join root s]) (scope task))))"

definition discover_config_files :: "disc_env \<Rightarrow> string \<Rightarrow> string + string list" where
  "discover_config_files env root =
     Ok (filter (is_file env)
          (map (path_join root) [''CLAUDE.md'', ''AGENTS.md'', ''.claude/CLAUDE.md'', ''pnevma.toml'']))"

definition discover_harness_files :: "disc_env \<Rightarrow> string \<Rightarrow> string + string list" where
  "discover_harness_files env root =
    (case home_var env of
       None \<Rightarrow> Ok []
     | Some home \<Rightarrow>
         let mcp = path_join home ''.claude/.mcp.json'';
             project_key = replace_char CHR ''/'' CHR ''-'' root;
             memory = path_join home (''.claude/projects/'' @ project_key @ ''/memory/MEMORY.md'')
         in Ok ((if is_file env mcp then [mcp] else []) @ (if is_file env memory then [memory] else [])))"

definition listed_lines :: "string \<Rightarrow> string list" where
  "listed_lines out = filter (\<lambda>l. str_trim l \<noteq> []) (str_lines out)"

definition discover_git_diff :: "disc_env \<Rightarrow> string \<Rightarrow> string + string list" where
  "discover_git_diff env root =
    (let depth = min (case git_count env of None \<Rightarrow> 0 | Some n \<Rightarrow> n) 10 in
     if depth = 0 then Ok []
     else
       case (case git_diff_head env depth of
               Some out \<Rightarrow> Ok out
             | None \<Rightarrow> (case git_diff env of Err e \<Rightarrow> Err (''git diff failed: '' @ e) | Ok out \<Rightarrow> Ok out)) of
         Err e \<Rightarrow> Err e
       | Ok out \<Rightarrow> Ok (map (\<lambda>l. path_join root (str_trim l)) (listed_lines out)))"

definition stop_words :: "string list" where
  "stop_words = [''the'', ''and'', ''for'', ''with'', ''from'', ''that'', ''this'', ''should'', ''implement'', ''create'',
     ''update'', ''make'', ''add'']"

definition trim_start_dot_slash :: "string \<Rightarrow> string" where
  "trim_start_dot_slash s = (if starts_with s ''./'' then drop 2 s else s)"

text \<open>\<open>trim_start_matches("./")\<close> removes every leading occurrence.\<close>

fun trim_start_dots :: "nat \<Rightarrow> string \<Rightarrow> string" where
  "trim_start_dots 0 s = s"
| "trim_start_dots (Suc n) s = (if starts_with s ''./'' then trim_start_dots n (trim_start_dot_slash s) else s)"

definition grep_keywords :: "'p task_contract \<Rightarrow> string list" where
  "grep_keywords task =
     take 5 (filter (\<lambda>w. to_lowercase w \<notin> set stop_words)
       (filter (\<lambda>w. length w > 3) (split_whitespace (title task @ '' '' @ goal task))))"

definition discover_grep :: "disc_env \<Rightarrow> 'p task_contract \<Rightarrow> string \<Rightarrow> string + string list" where
  "discover_grep env task root =
    (if grep_keywords task = [] then Ok []
     else
       case grep env (str_join ''|'' (map (regex_escape env) (grep_keywords task))) of
         Err e \<Rightarrow> Err (''grep failed: '' @ e)
       | Ok out \<Rightarrow>
           Ok (map (\<lambda>l. path_join root (trim_start_dots (length l) (str_trim l))) (take 20 (listed_lines out))))"

definition run_strategy :: "disc_env \<Rightarrow> 'p task_contract \<Rightarrow> string \<Rightarrow> string \<Rightarrow> string + string list" where
  "run_strategy env task root strategy =
    (if strategy = ''scope'' then discover_scope env task root
     else if strategy = ''claude_md'' then discover_config_files env root
     else if strategy = ''harness_config'' then discover_harness_files env root
     else if strategy = ''git_diff'' then discover_git_diff env root
     else if strategy = ''grep'' then discover_grep env task root
     else Ok [])"

section \<open>Discovery\<close>

definition is_allowed_harness_path :: "disc_env \<Rightarrow> string \<Rightarrow> bool" where
  "is_allowed_harness_path env path =
    (case Option.bind (home_var env) (canonicalize env) of
       None \<Rightarrow> False
     | Some home \<Rightarrow>
         path_starts_with path (path_join home ''.claude'') \<or> path_starts_with path (path_join home ''.codex''))"

definition rel_name :: "string \<Rightarrow> string \<Rightarrow> string" where
  "rel_name croot canonical =
     (if path_starts_with canonical croot
      then str_join ''/'' (drop (length (path_components croot)) (path_components canonical))
      else ''[harness] '' @ (case file_name canonical of None \<Rightarrow> [] | Some n \<Rightarrow> n))"

record discovery =
  dc_used :: nat
  dc_seen :: "string list"
  dc_results :: "(string \<times> string) list"

text \<open>Everything a path must pass before its content counts: the name and the content.\<close>

definition eligible ::
  "discovery_config \<Rightarrow> disc_env \<Rightarrow> string \<Rightarrow> string \<Rightarrow> string list \<Rightarrow> string \<Rightarrow> (string \<times> string) option"
where
  "eligible cfg env root croot seen path =
    (case canonicalize env (path_join root path) of
       None \<Rightarrow> None
     | Some canonical \<Rightarrow>
         if \<not> path_starts_with canonical croot \<and> \<not> is_allowed_harness_path env canonical then None
         else if \<not> is_file env canonical then None
         else
           let rel = rel_name croot canonical in
           if rel \<in> set seen then None
           else if is_excluded cfg rel then None
           else (case file_len env canonical of
               None \<Rightarrow> None
             | Some n \<Rightarrow>
                 if n > max_file_size_kb cfg * 1024 then None
                 else map_option (Pair rel) (read_text env canonical)))"

text \<open>Adding a content, cut if need be; \<open>True\<close> ends the strategy.\<close>

definition include_content ::
  "regex_engine \<Rightarrow> runtime_redaction_config \<Rightarrow> string list \<Rightarrow> nat \<Rightarrow> string \<Rightarrow> string \<Rightarrow> discovery \<Rightarrow> bool \<times> discovery"
where
  "include_content engine config secrets file_budget rel content d =
    (let token_cost = length content div CHARS_PER_TOKEN_ESTIMATE in
     if dc_used d + token_cost > file_budget then
       let remaining_chars = (file_budget - dc_used d) * CHARS_PER_TOKEN_ESTIMATE in
       (True,
        if remaining_chars > 200 then
          let truncated = truncate_content content remaining_chars in
          \<lparr>dc_used = dc_used d + length truncated div CHARS_PER_TOKEN_ESTIMATE, dc_seen = rel # dc_seen d,
           dc_results = dc_results d @ [(rel, redact_text engine config truncated secrets)]\<rparr>
        else d)
     else
       (False, \<lparr>dc_used = dc_used d + token_cost, dc_seen = rel # dc_seen d,
                dc_results = dc_results d @ [(rel, redact_text engine config content secrets)]\<rparr>))"

fun scan_paths ::
  "discovery_config \<Rightarrow> disc_env \<Rightarrow> regex_engine \<Rightarrow> runtime_redaction_config \<Rightarrow> string list \<Rightarrow> string \<Rightarrow> string
     \<Rightarrow> nat \<Rightarrow> string list \<Rightarrow> discovery \<Rightarrow> discovery"
where
  "scan_paths cfg env engine config secrets root croot file_budget [] d = d"
| "scan_paths cfg env engine config secrets root croot file_budget (p # ps) d =
    (if dc_used d \<ge> file_budget then d
     else case eligible cfg env root croot (dc_seen d) p of
       None \<Rightarrow> scan_paths cfg env engine config secrets root croot file_budget ps d
     | Some (rel, content) \<Rightarrow>
         (case include_content engine config secrets file_budget rel content d of
            (stop, d) \<Rightarrow> if stop then d else scan_paths cfg env engine config secrets root croot file_budget ps d))"

fun scan_strategies ::
  "discovery_config \<Rightarrow> disc_env \<Rightarrow> regex_engine \<Rightarrow> runtime_redaction_config \<Rightarrow> string list \<Rightarrow> 'p task_contract
     \<Rightarrow> string \<Rightarrow> string \<Rightarrow> nat \<Rightarrow> string list \<Rightarrow> discovery \<Rightarrow> discovery"
where
  "scan_strategies cfg env engine config secrets task root croot file_budget [] d = d"
| "scan_strategies cfg env engine config secrets task root croot file_budget (s # ss) d =
    (if dc_used d \<ge> file_budget then d
     else
       let d = (case run_strategy env task root s of
                  Err _ \<Rightarrow> d
                | Ok paths \<Rightarrow> scan_paths cfg env engine config secrets root croot file_budget paths d)
       in scan_strategies cfg env engine config secrets task root croot file_budget ss d)"

definition discover ::
  "discovery_config \<Rightarrow> disc_env \<Rightarrow> regex_engine \<Rightarrow> runtime_redaction_config \<Rightarrow> string list \<Rightarrow> 'p task_contract
     \<Rightarrow> string \<Rightarrow> nat \<Rightarrow> (string \<times> string) list"
where
  "discover cfg env engine config redaction_secrets task root token_budget =
    (case canonicalize env root of
       None \<Rightarrow> []
     | Some croot \<Rightarrow>
         dc_results (scan_strategies cfg env engine config (normalize_secrets redaction_secrets) task root croot
           (token_budget div 2) (strategies cfg) \<lparr>dc_used = 0, dc_seen = [], dc_results = []\<rparr>))"

section \<open>Budget, confinement and exclusion\<close>

lemma safe_end_le: "safe_end content n \<le> n"
proof -
  let ?is = "takeWhile (\<lambda>i. i \<le> n) (char_indices content)"
  show ?thesis
  proof (cases "?is = []")
    case False
    then have "last ?is \<in> set ?is" by (rule last_in_set)
    then have "last ?is \<le> n" by (rule set_takeWhileD[THEN conjunct2])
    then show ?thesis using False by (simp add: safe_end_def)
  qed (simp add: safe_end_def)
qed

lemma rfind_char_less: "rfind_char c s = Some i \<Longrightarrow> i < length s"
proof -
  assume "rfind_char c s = Some i"
  then have "i = last (filter (\<lambda>i. s ! i = c) [0..<length s])" "filter (\<lambda>i. s ! i = c) [0..<length s] \<noteq> []"
    by (auto simp: rfind_char_def Let_def split: if_splits)
  then have "i \<in> set (filter (\<lambda>i. s ! i = c) [0..<length s])" using last_in_set by metis
  then show ?thesis by simp
qed

lemma length_truncation_note: "length truncation_note = 41"
  by (simp add: truncation_note_def)

lemma length_truncate_content: "length (truncate_content content n) \<le> n + 41"
proof -
  have "length (take (safe_end content n) content) \<le> n" using safe_end_le[of content n] by simp
  then show ?thesis
    using rfind_char_less[of "CHR 0x0A" "take (safe_end content n) content"] safe_end_le[of content n]
    by (auto simp: truncate_content_def Let_def length_truncation_note split: option.splits intro: le_trans)
qed

text \<open>Where a name and a content in the result come from.\<close>

definition disc_source :: "discovery_config \<Rightarrow> disc_env \<Rightarrow> string \<Rightarrow> string \<times> string \<Rightarrow> bool" where
  "disc_source cfg env croot = (\<lambda>(rel, raw). \<not> is_excluded cfg rel
     \<and> (\<exists>canonical content. rel = rel_name croot canonical
          \<and> (path_starts_with canonical croot \<or> is_allowed_harness_path env canonical)
          \<and> read_text env canonical = Some content \<and> (raw = content \<or> (\<exists>n. raw = truncate_content content n))))"

definition disc_inv ::
  "discovery_config \<Rightarrow> disc_env \<Rightarrow> regex_engine \<Rightarrow> runtime_redaction_config \<Rightarrow> string list \<Rightarrow> string \<Rightarrow> nat
     \<Rightarrow> discovery \<Rightarrow> bool"
where
  "disc_inv cfg env engine config secrets croot file_budget d \<longleftrightarrow>
     (\<exists>raws. dc_results d = map (\<lambda>(rel, raw). (rel, redact_text engine config raw secrets)) raws
        \<and> dc_used d = (\<Sum>(rel, raw)\<leftarrow>raws. length raw div CHARS_PER_TOKEN_ESTIMATE)
        \<and> dc_used d \<le> file_budget + 10 \<and> set (dc_seen d) = fst ` set raws \<and> distinct (map fst raws)
        \<and> list_all (disc_source cfg env croot) raws)"

lemma eligible_source:
  assumes "eligible cfg env root croot seen p = Some (rel, content)"
  shows "rel \<notin> set seen" and "disc_source cfg env croot (rel, content)"
    and "disc_source cfg env croot (rel, truncate_content content n)"
  using assms
  by (auto simp: eligible_def disc_source_def Let_def split: option.splits if_splits)

lemma include_content_inv:
  assumes "eligible cfg env root croot (dc_seen d) p = Some (rel, content)"
    and "disc_inv cfg env engine config secrets croot file_budget d" and "dc_used d < file_budget"
  shows "disc_inv cfg env engine config secrets croot file_budget
    (snd (include_content engine config secrets file_budget rel content d))"
proof -
  obtain raws where raws: "dc_results d = map (\<lambda>(rel, raw). (rel, redact_text engine config raw secrets)) raws"
    "dc_used d = (\<Sum>(rel, raw)\<leftarrow>raws. length raw div CHARS_PER_TOKEN_ESTIMATE)" "set (dc_seen d) = fst ` set raws"
    "distinct (map fst raws)" "list_all (disc_source cfg env croot) raws"
    using assms(2) unfolding disc_inv_def by blast
  note src = eligible_source[OF assms(1)]
  define n where "n = (file_budget - dc_used d) * CHARS_PER_TOKEN_ESTIMATE"
  have step: "disc_inv cfg env engine config secrets croot file_budget
      \<lparr>dc_used = dc_used d + length raw div CHARS_PER_TOKEN_ESTIMATE, dc_seen = rel # dc_seen d,
       dc_results = dc_results d @ [(rel, redact_text engine config raw secrets)]\<rparr>"
    if "disc_source cfg env croot (rel, raw)" "dc_used d + length raw div CHARS_PER_TOKEN_ESTIMATE \<le> file_budget + 10" for raw
    unfolding disc_inv_def using raws src(1) that
    by (intro exI[of _ "raws @ [(rel, raw)]"]) auto
  have "length (truncate_content content n) div CHARS_PER_TOKEN_ESTIMATE \<le> file_budget - dc_used d + 10"
    using length_truncate_content[of content n] by (simp add: n_def CHARS_PER_TOKEN_ESTIMATE_def)
  then have "dc_used d + length (truncate_content content n) div CHARS_PER_TOKEN_ESTIMATE \<le> file_budget + 10"
    using assms(3) by linarith
  then show ?thesis
    using step[OF src(2)] step[OF src(3)[of n]] assms(2)
    by (simp add: include_content_def Let_def n_def[symmetric])
qed

lemma scan_paths_inv:
  "disc_inv cfg env engine config secrets croot file_budget d \<Longrightarrow>
   disc_inv cfg env engine config secrets croot file_budget
     (scan_paths cfg env engine config secrets root croot file_budget ps d)"
proof (induction ps arbitrary: d)
  case (Cons p ps)
  show ?case
  proof (cases "file_budget \<le> dc_used d")
    case False
    then show ?thesis using Cons include_content_inv[of cfg env root croot d p _ _ engine config secrets file_budget]
      by (auto split: option.splits prod.splits)
  qed (use Cons.prems in simp)
qed simp

lemma scan_strategies_inv:
  "disc_inv cfg env engine config secrets croot file_budget d \<Longrightarrow>
   disc_inv cfg env engine config secrets croot file_budget
     (scan_strategies cfg env engine config secrets task root croot file_budget ss d)"
  by (induction ss arbitrary: d) (auto simp: Let_def scan_paths_inv split: sum.splits)


section \<open>Patterns with a directory\<close>

lemma last_segment_no_slash: "CHR ''/'' \<notin> set (last_segment path)"
proof -
  have "list_all (\<lambda>p. CHR ''/'' \<notin> set p) (split_on CHR ''/'' s)" for s
    by (induction s) (auto split: list.splits)
  then show ?thesis by (metis last_in_set last_segment_def list_all_iff split_on_nonempty)
qed

lemma starts_with_hd: "starts_with s p \<Longrightarrow> p \<noteq> [] \<Longrightarrow> s \<noteq> [] \<and> hd s = hd p"
  by (cases p; cases s) (auto simp: starts_with_def)

lemma no_star_contains: "CHR ''*'' \<notin> set s \<Longrightarrow> CHR ''*'' \<in> set p \<Longrightarrow> \<not> str_contains s p"
  by (meson set_mono_sublist str_contains_sublist subsetD)

lemma ends_with_last: "ends_with s p \<Longrightarrow> p \<noteq> [] \<Longrightarrow> last p \<in> set s"
  by (metis UnCI append_is_Nil_conv ends_with_suffix last_appendR last_in_set set_append suffix_def)

text \<open>A pattern without a star matches the last segment or the whole path.\<close>

lemma plain_pattern:
  assumes "CHR ''*'' \<notin> set pattern"
  shows "matches_glob_simple pattern path \<longleftrightarrow> last_segment path = pattern \<or> path = pattern"
proof -
  have "\<not> starts_with pattern ''*.''"
    using assms starts_with_hd[of pattern "''*.''"] by (cases pattern) auto
  moreover have "strip_suffix pattern ''/**'' = None"
    using assms ends_with_last[of pattern "''/**''"] by (auto simp: strip_suffix_def)
  moreover have "\<not> str_contains pattern ''**''" "\<not> str_contains pattern ''.*''"
    using assms no_star_contains[of pattern "''**''"] no_star_contains[of pattern "''.*''"] by auto
  then have "two_parts pattern = None" by (simp add: two_parts_def split_once_def str_contains_def)
  moreover have "\<not> ends_with pattern ''*''" using assms ends_with_last[of pattern "''*''"] by auto
  ultimately show ?thesis using \<open>\<not> str_contains pattern ''.*''\<close> by (simp add: matches_glob_simple_def)
qed

text \<open>
  An exclusion pattern that names a directory and a file, like those for the credentials of
  Kubernetes and Docker, protects only the file at the root of the project: in any directory
  below, the same file is not excluded by it.
\<close>
theorem directory_pattern_matches_root_only:
  assumes "CHR ''*'' \<notin> set pattern" and "CHR ''/'' \<in> set pattern"
  shows "matches_glob_simple pattern path \<longleftrightarrow> path = pattern"
  using plain_pattern[OF assms(1)] last_segment_no_slash[of path] assms(2) by auto

theorem directory_pattern_matches_root_only_witness:
  "\<not> matches_glob_simple ''.kube/config'' ''deploy/.kube/config''"
  by (subst directory_pattern_matches_root_only) simp_all

section \<open>Truncation comes before redaction\<close>

lemma ascii_safe_end:
  assumes "list_all (\<lambda>c. \<not> is_continuation c) content" and "n < length content"
  shows "safe_end content n = n"
proof -
  have "char_indices content = [0..<length content]"
    using assms(1) by (auto simp: char_indices_def is_char_boundary_def list_all_length intro!: filter_True)
  moreover have "takeWhile (\<lambda>i. i \<le> n) [0..<length content] = [0..<Suc n]"
  proof -
    have eq: "[0..<length content] = [0..<Suc n] @ [Suc n..<length content]"
      using assms(2) by (metis Suc_leI le0 upt_add_eq_append le_add_diff_inverse)
    have "takeWhile (\<lambda>i. i \<le> n) [Suc n..<length content] = []"
      by (cases "Suc n < length content") (simp_all add: upt_conv_Cons)
    then show ?thesis unfolding eq by (subst takeWhile_append2) (simp_all del: upt_Suc)
  qed
  ultimately show ?thesis by (simp add: safe_end_def)
qed

lemma truncate_one_line:
  assumes "list_all (\<lambda>c. \<not> is_continuation c) content" and "CHR 0x0A \<notin> set content" and "n < length content"
  shows "truncate_content content n = take n content @ truncation_note"
proof -
  have "rfind_char CHR 0x0A (take n content) = None"
    using assms(2) by (auto simp: rfind_char_def filter_empty_conv) (metis nth_mem)
  then show ?thesis using ascii_safe_end[OF assms(1,3)] assms(3) by (simp add: truncate_content_def Let_def)
qed

text \<open>
  A file too large for the rest of the budget is cut before it is redacted: a known secret
  that lies across the cut in a file of one line is no longer recognised, and its beginning
  reaches the agent in the clear.
\<close>
theorem cut_secret_is_not_redacted:
  assumes "list_all (\<lambda>c. \<not> is_continuation c) content" and "CHR 0x0A \<notin> set content"
    and "content = before @ secret @ after"
    and "length before < (file_budget - dc_used d) * CHARS_PER_TOKEN_ESTIMATE"
    and "(file_budget - dc_used d) * CHARS_PER_TOKEN_ESTIMATE < length (before @ secret)"
    and "200 < (file_budget - dc_used d) * CHARS_PER_TOKEN_ESTIMATE"
    and "dc_used d + length content div CHARS_PER_TOKEN_ESTIMATE > file_budget"
    and "\<And>r. redact_patterns engine config r = r"
    and "\<not> sublist secret (take ((file_budget - dc_used d) * CHARS_PER_TOKEN_ESTIMATE) content @ truncation_note)"
  shows "\<exists>k > 0. dc_results (snd (include_content engine config [secret] file_budget rel content d))
    = dc_results d @ [(rel, before @ take k secret @ truncation_note)]"
proof -
  define n where "n = (file_budget - dc_used d) * CHARS_PER_TOKEN_ESTIMATE"
  define k where "k = n - length before"
  have k: "0 < k" "k < length secret" "n = length before + k" using assms(4,5) by (simp_all add: n_def[symmetric] k_def)
  have "truncate_content content n = take n content @ truncation_note"
    using assms(1-3) k by (intro truncate_one_line) auto
  moreover have "take n content = before @ take k secret" using assms(3) k by simp
  ultimately have cut: "truncate_content content n = before @ take k secret @ truncation_note" by simp
  moreover have "redact_text engine config (before @ take k secret @ truncation_note) [secret]
      = before @ take k secret @ truncation_note"
    using assms(8,9) \<open>take n content = before @ take k secret\<close>
    by (simp add: redact_text_def str_replace_absent n_def[symmetric])
  ultimately show ?thesis using assms(6,7) k(1)
    by (auto simp: include_content_def Let_def n_def[symmetric])
qed

lemma never_engine_redacts_nothing: "redact_patterns never_engine runtime_default input = input"
  by (simp add: redact_patterns_def cow_replace_all_def runtime_default_def never_engine_def never_regex_def Let_def
      redaction_authorization_regex_def redaction_key_value_regex_def redaction_env_assignment_regex_def
      redaction_aws_key_regex_def redaction_github_token_regex_def redaction_provider_token_regex_def
      redaction_slack_token_regex_def redaction_gitlab_pat_regex_def redaction_npm_token_regex_def
      redaction_pypi_token_regex_def redaction_docker_pat_regex_def redaction_vault_token_regex_def
      redaction_vercel_token_regex_def redaction_pem_regex_def redaction_pem_open_header_regex_def
      redaction_connection_string_regex_def redaction_connection_string_query_param_regex_def
      redaction_entropy_assignment_regex_def)

theorem cut_secret_is_not_redacted_witness:
  "\<exists>k > 0. dc_results (snd (include_content never_engine runtime_default [''swordfish''] 100 ''a.txt''
      (replicate 396 CHR ''a'' @ ''swordfish'' @ []) \<lparr>dc_used = 0, dc_seen = [], dc_results = []\<rparr>))
    = [(''a.txt'', replicate 396 CHR ''a'' @ take k ''swordfish'' @ truncation_note)]"
proof -
  let ?d = "\<lparr>dc_used = 0, dc_seen = [], dc_results = []\<rparr> :: discovery"
  let ?content = "replicate 396 CHR ''a'' @ ''swordfish'' @ []"
  have h: "CHR ''h'' \<notin> set (take 400 ?content @ truncation_note)" by (simp add: truncation_note_def)
  have "\<not> sublist ''swordfish'' (take 400 ?content @ truncation_note)"
  proof
    assume "sublist ''swordfish'' (take 400 ?content @ truncation_note)"
    from set_mono_sublist[OF this] have "CHR ''h'' \<in> set (take 400 ?content @ truncation_note)"
      by (rule subsetD) simp
    with h show False by contradiction
  qed
  moreover have "list_all (\<lambda>c. \<not> is_continuation c) ?content" by (simp add: list_all_iff is_continuation_def)
  ultimately show ?thesis
    using cut_secret_is_not_redacted[of ?content "replicate 396 CHR ''a''" "''swordfish''" "[]" 100 ?d never_engine
        runtime_default "''a.txt''"] never_engine_redacts_nothing
    by (simp add: CHARS_PER_TOKEN_ESTIMATE_def)
qed

end
