(* ===== verification/Context_Compiler.thy ===== *)
theory Context_Compiler
  imports Context_Files
begin

text \<open>
  Compiling the context of an agent (\<open>crates/pnevma-context/src/compiler.rs\<close>): redaction of the
  task and of the other inputs, the sections within the token budget, and the manifest.
  Writing the result to a file is left out.
\<close>

datatype context_compile_mode = V2

record context_compiler_config =
  cc_mode :: context_compile_mode
  cc_token_budget :: nat

record 'p context_compile_input =
  ci_task :: "'p task_contract"
  ci_project_brief :: string
  ci_architecture_notes :: string
  ci_conventions :: "string list"
  ci_rules :: "string list"
  ci_relevant_file_contents :: "(string \<times> string) list"
  ci_prior_task_summaries :: "string list"

record context_manifest_item =
  cm_kind :: string
  cm_included :: bool
  cm_reason :: "string option"

record 'p context_pack =
  cp_task_contract :: "'p task_contract"
  cp_project_brief :: string
  cp_architecture_notes :: string
  cp_conventions :: "string list"
  cp_rules :: "string list"
  cp_relevant_file_contents :: "(string \<times> string) list"
  cp_prior_task_summaries :: "string list"
  cp_token_budget :: nat
  cp_actual_tokens :: nat
  cp_manifest :: "context_manifest_item list"

record 'p context_compiler_result =
  cr_pack :: "'p context_pack"
  cr_markdown :: string

text \<open>The compiler after \<open>new\<close>, with the redaction it applies.\<close>

record context_compiler =
  co_config :: context_compiler_config
  co_secrets :: "string list"
  co_engine :: regex_engine
  co_redaction :: runtime_redaction_config

definition compiler_new ::
  "regex_engine \<Rightarrow> runtime_redaction_config \<Rightarrow> context_compiler_config \<Rightarrow> string list \<Rightarrow> context_compiler"
where
  "compiler_new engine red config secrets =
     \<lparr>co_config = config, co_secrets = normalize_secrets secrets, co_engine = engine, co_redaction = red\<rparr>"

definition redact_string :: "context_compiler \<Rightarrow> string \<Rightarrow> string" where
  "redact_string c s = redact_text (co_engine c) (co_redaction c) s (co_secrets c)"

definition redact_strings :: "context_compiler \<Rightarrow> string list \<Rightarrow> string list" where
  "redact_strings c = map (redact_string c)"

definition redact_file_contents :: "context_compiler \<Rightarrow> (string \<times> string) list \<Rightarrow> (string \<times> string) list" where
  "redact_file_contents c = map (\<lambda>(path, content). (redact_string c path, redact_string c content))"

definition redact_task :: "context_compiler \<Rightarrow> 'p task_contract \<Rightarrow> 'p task_contract" where
  "redact_task c t =
     t\<lparr>title := redact_string c (title t), goal := redact_string c (goal t), scope := redact_strings c (scope t),
       out_of_scope := redact_strings c (out_of_scope t), constraints := redact_strings c (constraints t),
       handoff_summary := map_option (redact_string c) (handoff_summary t)\<rparr>"

section \<open>Sections\<close>

record assembly =
  sa_text :: string
  sa_used :: nat
  sa_manifest :: "context_manifest_item list"

definition push_section :: "nat \<Rightarrow> string \<Rightarrow> string \<Rightarrow> bool \<Rightarrow> assembly \<Rightarrow> assembly" where
  "push_section budget name body required a =
    (let token_estimate = length body div 4 in
     if sa_used a + token_estimate \<le> budget \<or> required
     then \<lparr>sa_text = sa_text a @ [CHR 0x0A, CHR 0x0A] @ name @ [CHR 0x0A] @ body,
           sa_used = sa_used a + token_estimate,
           sa_manifest = sa_manifest a @ [\<lparr>cm_kind = name, cm_included = True, cm_reason = None\<rparr>]\<rparr>
     else a\<lparr>sa_manifest := sa_manifest a
              @ [\<lparr>cm_kind = name, cm_included = False, cm_reason = Some ''token budget exceeded''\<rparr>]\<rparr>)"

text \<open>The optional sections in the order of the code; the required one comes first.\<close>

definition task_section :: "'p task_contract \<Rightarrow> string \<times> string" where
  "task_section t = (''## Task Contract'', ''title: '' @ title t @ [CHR 0x0A] @ ''goal: '' @ goal t)"

definition optional_sections ::
  "string \<Rightarrow> string \<Rightarrow> string list \<Rightarrow> string list \<Rightarrow> (string \<times> string) list \<Rightarrow> string list \<Rightarrow> (string \<times> string) list"
where
  "optional_sections brief notes conventions rules files summaries =
     [(''## Relevant Files'',
       str_join [CHR 0x0A, CHR 0x0A] (map (\<lambda>(path, content). ''### '' @ path @ [CHR 0x0A] @ content) files)),
      (''## Rules and Conventions'',
       ''Rules:'' @ [CHR 0x0A] @ str_join [CHR 0x0A] rules @ [CHR 0x0A, CHR 0x0A]
       @ ''Conventions:'' @ [CHR 0x0A] @ str_join [CHR 0x0A] conventions),
      (''## Architecture Notes'', notes),
      (''## Prior Summaries'', str_join [CHR 0x0A] summaries),
      (''## Project Brief'', brief)]"

definition compile_v2 :: "context_compiler \<Rightarrow> 'p context_compile_input \<Rightarrow> string + 'p context_compiler_result" where
  "compile_v2 c input =
    (let task = redact_task c (ci_task input) in
     if str_trim (goal task) = [] then Err ''task goal cannot be empty for context compilation''
     else
       let brief = redact_string c (ci_project_brief input);
           notes = redact_string c (ci_architecture_notes input);
           conventions = redact_strings c (ci_conventions input);
           rules = redact_strings c (ci_rules input);
           files = redact_file_contents c (ci_relevant_file_contents input);
           summaries = redact_strings c (ci_prior_task_summaries input);
           budget = cc_token_budget (co_config c);
           a = push_section budget (fst (task_section task)) (snd (task_section task)) True
                 \<lparr>sa_text = [], sa_used = 0, sa_manifest = []\<rparr>;
           a = fold (\<lambda>(name, body). push_section budget name body False)
                 (optional_sections brief notes conventions rules files summaries) a
       in Ok \<lparr>cr_pack = \<lparr>cp_task_contract = task, cp_project_brief = brief, cp_architecture_notes = notes,
                cp_conventions = conventions, cp_rules = rules, cp_relevant_file_contents = files,
                cp_prior_task_summaries = summaries, cp_token_budget = budget, cp_actual_tokens = sa_used a,
                cp_manifest = sa_manifest a\<rparr>,
              cr_markdown = sa_text a\<rparr>)"

definition compile_context ::
  "context_compiler \<Rightarrow> 'p context_compile_input \<Rightarrow> string + 'p context_compiler_result"
where
  "compile_context c input =
    (if cc_token_budget (co_config c) = 0 then Err ''token_budget must be greater than zero''
     else case cc_mode (co_config c) of V2 \<Rightarrow> compile_v2 c input)"

section \<open>The budget\<close>

lemma push_section_steps:
  "sa_used (push_section budget name body False a) \<le> max budget (sa_used a)"
  "\<exists>b. sa_manifest (push_section budget name body False a) = sa_manifest a @ [b] \<and> cm_kind b = name
     \<and> (cm_included b \<longleftrightarrow> sa_used a + length body div 4 \<le> budget)
     \<and> sa_text (push_section budget name body False a) = sa_text a
        @ (if cm_included b then [CHR 0x0A, CHR 0x0A] @ name @ [CHR 0x0A] @ body else [])
     \<and> sa_used (push_section budget name body False a) = sa_used a + (if cm_included b then length body div 4 else 0)"
  by (auto simp: push_section_def Let_def)

text \<open>What the manifest says of the sections is what the text contains.\<close>

definition rendered :: "(string \<times> string) list \<Rightarrow> context_manifest_item list \<Rightarrow> string" where
  "rendered sections manifest =
     concat (map (\<lambda>((name, body), item). if cm_included item
        then [CHR 0x0A, CHR 0x0A] @ name @ [CHR 0x0A] @ body else []) (zip sections manifest))"

definition cost :: "(string \<times> string) list \<Rightarrow> context_manifest_item list \<Rightarrow> nat" where
  "cost sections manifest =
     (\<Sum>((name, body), item)\<leftarrow>zip sections manifest. if cm_included item then length body div 4 else 0)"

lemma rendered_Cons [simp]:
  "rendered (s # secs) (b # items)
     = (if cm_included b then [CHR 0x0A, CHR 0x0A] @ fst s @ [CHR 0x0A] @ snd s else []) @ rendered secs items"
  "cost (s # secs) (b # items) = (if cm_included b then length (snd s) div 4 else 0) + cost secs items"
  by (cases s; simp add: rendered_def cost_def)+

lemma fold_sections:
  "\<exists>items. sa_manifest (fold (\<lambda>(name, body). push_section budget name body False) secs a) = sa_manifest a @ items
     \<and> map cm_kind items = map fst secs
     \<and> sa_text (fold (\<lambda>(name, body). push_section budget name body False) secs a) = sa_text a @ rendered secs items
     \<and> sa_used (fold (\<lambda>(name, body). push_section budget name body False) secs a) = sa_used a + cost secs items
     \<and> sa_used (fold (\<lambda>(name, body). push_section budget name body False) secs a) \<le> max budget (sa_used a)"
proof (induction secs arbitrary: a)
  case Nil
  show ?case by (simp add: rendered_def cost_def)
next
  case (Cons sec secs)
  obtain name body where sec: "sec = (name, body)" by force
  let ?a = "push_section budget name body False a"
  obtain b where b: "sa_manifest ?a = sa_manifest a @ [b]" "cm_kind b = name"
    "sa_text ?a = sa_text a @ (if cm_included b then [CHR 0x0A, CHR 0x0A] @ name @ [CHR 0x0A] @ body else [])"
    "sa_used ?a = sa_used a + (if cm_included b then length body div 4 else 0)"
    using push_section_steps(2)[of budget name body a] by blast
  obtain items where items: "sa_manifest (fold (\<lambda>(name, body). push_section budget name body False) secs ?a) = sa_manifest ?a @ items"
    "map cm_kind items = map fst secs"
    "sa_text (fold (\<lambda>(name, body). push_section budget name body False) secs ?a) = sa_text ?a @ rendered secs items"
    "sa_used (fold (\<lambda>(name, body). push_section budget name body False) secs ?a) = sa_used ?a + cost secs items"
    "sa_used (fold (\<lambda>(name, body). push_section budget name body False) secs ?a) \<le> max budget (sa_used ?a)"
    using Cons.IH[of ?a] by blast


  have "max budget (sa_used ?a) \<le> max budget (sa_used a)" using push_section_steps(1)[of budget name body a] by simp
  then show ?case
    using items b by (intro exI[of _ "b # items"]) (auto simp: sec)
qed

text \<open>
  C38. A compiled context: the task contract is always in it, the manifest lists the six sections
  in order and tells which are, the text is exactly those, the token count is their cost, and it
  exceeds the budget only when the task contract alone does.
\<close>
theorem context_within_budget:
  assumes "compile_context c input = Ok result"
  shows "\<exists>secs items. cp_manifest (cr_pack result) = items \<and> map cm_kind items = map fst secs \<and> length secs = 6
    \<and> hd secs = task_section (cp_task_contract (cr_pack result)) \<and> cm_included (hd items)
    \<and> cr_markdown result = rendered secs items \<and> cp_actual_tokens (cr_pack result) = cost secs items
    \<and> cp_actual_tokens (cr_pack result)
        \<le> max (cc_token_budget (co_config c)) (length (snd (task_section (cp_task_contract (cr_pack result)))) div 4)"
proof -
  let ?task = "redact_task c (ci_task input)" and ?budget = "cc_token_budget (co_config c)"
  let ?secs = "optional_sections (redact_string c (ci_project_brief input)) (redact_string c (ci_architecture_notes input))
     (redact_strings c (ci_conventions input)) (redact_strings c (ci_rules input))
     (redact_file_contents c (ci_relevant_file_contents input)) (redact_strings c (ci_prior_task_summaries input))"
  let ?a = "push_section ?budget (fst (task_section ?task)) (snd (task_section ?task)) True
     \<lparr>sa_text = [], sa_used = 0, sa_manifest = []\<rparr>"
  let ?first = "\<lparr>cm_kind = fst (task_section ?task), cm_included = True, cm_reason = None\<rparr>"
  let ?r = "fold (\<lambda>(name, body). push_section ?budget name body False) ?secs ?a"
  have a: "sa_manifest ?a = [?first]" "sa_used ?a = length (snd (task_section ?task)) div 4"
    "sa_text ?a = [CHR 0x0A, CHR 0x0A] @ fst (task_section ?task) @ [CHR 0x0A] @ snd (task_section ?task)"
    by (simp_all add: push_section_def)
  obtain items where items: "sa_manifest ?r = sa_manifest ?a @ items" "map cm_kind items = map fst ?secs"
    "sa_text ?r = sa_text ?a @ rendered ?secs items" "sa_used ?r = sa_used ?a + cost ?secs items"
    "sa_used ?r \<le> max ?budget (sa_used ?a)"
    using fold_sections[of ?budget ?secs ?a] by blast
  have res: "cp_manifest (cr_pack result) = sa_manifest ?r" "cr_markdown result = sa_text ?r"
    "cp_actual_tokens (cr_pack result) = sa_used ?r" "cp_task_contract (cr_pack result) = ?task"
    using assms by (auto simp: compile_context_def compile_v2_def Let_def split: if_splits context_compile_mode.splits)
  have "rendered (task_section ?task # ?secs) (?first # items) = sa_text ?r"
    "cost (task_section ?task # ?secs) (?first # items) = sa_used ?r"
    using items(3,4) a by simp_all
  then show ?thesis
    using items a res
    by (intro exI[of _ "task_section ?task # ?secs"] exI[of _ "?first # items"]) (simp add: optional_sections_def)
qed

definition sample_input :: "unit context_compile_input" where
  "sample_input = \<lparr>ci_task = sample_task, ci_project_brief = ''brief'', ci_architecture_notes = [], ci_conventions = [],
     ci_rules = [], ci_relevant_file_contents = [], ci_prior_task_summaries = []\<rparr>"

definition sample_compiler :: context_compiler where
  "sample_compiler = compiler_new never_engine runtime_default \<lparr>cc_mode = V2, cc_token_budget = 100\<rparr> []"

theorem context_within_budget_witness:
  "\<exists>result. compile_context sample_compiler sample_input = Ok result
    \<and> cp_actual_tokens (cr_pack result) \<le> 100"
proof -
  have plain: "redact_string sample_compiler s = s" for s
    by (simp add: redact_string_def sample_compiler_def compiler_new_def redact_text_def never_engine_redacts_nothing
        normalize_secrets_def)
  have trimmed: "str_trim ''Do a thing'' \<noteq> []" by (simp add: str_trim_graphic is_ascii_graphic_def)
  obtain result where res: "compile_context sample_compiler sample_input = Ok result"
    using trimmed
    by (auto simp: compile_context_def compile_v2_def sample_compiler_def compiler_new_def sample_input_def redact_task_def
        sample_task_def plain[unfolded sample_compiler_def compiler_new_def] Let_def)
  moreover have "cp_task_contract (cr_pack result) = redact_task sample_compiler sample_task"
    using res by (auto simp: compile_context_def compile_v2_def sample_input_def Let_def
        split: if_splits context_compile_mode.splits)
  ultimately show ?thesis
    using context_within_budget[OF res]
    by (auto simp: task_section_def redact_task_def plain sample_task_def) (simp add: sample_compiler_def compiler_new_def)
qed

end
