(* ===== verification/Osc.thy ===== *)
theory Osc
  imports Prelude
begin

text \<open>
  The attention sequences in agent output (\<open>parse_osc_attention\<close>, \<open>osc_level\<close>, \<open>osc_title\<close>
  of \<open>pnevma-commands/src/commands/mod.rs\<close>): \<open>ESC ] code ; body\<close> up to BEL or \<open>ESC \\<close>. The
  delimiters are ASCII, so the slices of a valid string are valid and the lossy decoding
  returns them unchanged.
\<close>

abbreviation BEL :: char where "BEL \<equiv> CHR 0x07"
abbreviation ESC :: char where "ESC \<equiv> CHR 0x1B"
abbreviation backslash :: char where "backslash \<equiv> CHR 0x5C"

record osc_attention =
  oa_code :: string
  oa_body :: string

definition string_terminator_at :: "string \<Rightarrow> nat \<Rightarrow> bool" where
  "string_terminator_at bs j \<longleftrightarrow>
     bs ! j = ESC \<and> j + 1 < length bs \<and> bs ! (j + 1) = backslash"

function scan_code :: "string \<Rightarrow> nat \<Rightarrow> nat" where
  "scan_code bs j =
     (if j < length bs \<and> bs ! j \<noteq> CHR '';'' then
        if bs ! j = BEL \<or> string_terminator_at bs j then j else scan_code bs (j + 1)
      else j)"
  by pat_completeness auto
termination by (relation "measure (\<lambda>(bs, j). length bs - j)") auto

function scan_body :: "string \<Rightarrow> nat \<Rightarrow> (nat \<times> nat) option" where
  "scan_body bs k =
     (if k < length bs then
        if bs ! k = BEL then Some (k, k + 1)
        else if string_terminator_at bs k then Some (k, k + 2)
        else scan_body bs (k + 1)
      else None)"
  by pat_completeness auto
termination by (relation "measure (\<lambda>(bs, k). length bs - k)") auto

declare scan_code.simps [simp del] scan_body.simps [simp del]

definition slice :: "string \<Rightarrow> nat \<Rightarrow> nat \<Rightarrow> string" where
  "slice bs i j = take (j - i) (drop i bs)"

lemma scan_code_ge: "j \<le> scan_code bs j"
proof (induction bs j rule: scan_code.induct)
  case (1 bs j)
  then show ?case by (subst scan_code.simps) auto
qed

lemma scan_body_bounds: "scan_body bs k = Some (stop, next_i) \<Longrightarrow> k \<le> stop \<and> k < next_i"
proof (induction bs k rule: scan_body.induct)
  case (1 bs k)
  show ?case
  proof (cases "k < length bs \<and> bs ! k \<noteq> BEL \<and> \<not> string_terminator_at bs k")
    case True
    with "1.prems" have "scan_body bs (k + 1) = Some (stop, next_i)"
      by (subst (asm) scan_body.simps) simp
    with True "1.IH" show ?thesis by fastforce
  next
    case False
    with "1.prems" show ?thesis by (subst (asm) scan_body.simps) (auto split: if_splits)
  qed
qed

text \<open>One pass of the outer loop at offset \<open>i\<close>: the attention found and the next offset.\<close>

definition osc_at :: "string \<Rightarrow> nat \<Rightarrow> osc_attention option \<times> nat" where
  "osc_at bs i =
     (if bs ! i \<noteq> ESC \<or> bs ! (i + 1) \<noteq> CHR '']'' then (None, i + 1)
      else let j = scan_code bs (i + 2) in
        if length bs \<le> j \<or> bs ! j \<noteq> CHR '';'' then (None, i + 1)
        else let code = str_trim (slice bs (i + 2) j); body_start = j + 1 in
          case scan_body bs body_start of
            None \<Rightarrow> (None, i + 1)
          | Some (stop, next_i) \<Rightarrow>
              (if code \<in> {''9'', ''99'', ''777''}
               then Some \<lparr>oa_code = code, oa_body = str_trim (slice bs body_start stop)\<rparr>
               else None, next_i))"

lemma osc_at_progress: "i < snd (osc_at bs i)"
  using scan_code_ge[of "i + 2" bs] scan_body_bounds[of bs]
  by (fastforce simp: osc_at_def Let_def split: option.splits)

function osc_loop :: "string \<Rightarrow> nat \<Rightarrow> osc_attention list" where
  "osc_loop bs i =
     (if i + 2 < length bs then
        let (a, next_i) = osc_at bs i
        in (case a of None \<Rightarrow> [] | Some x \<Rightarrow> [x]) @ osc_loop bs next_i
      else [])"
  by pat_completeness auto
termination
proof (relation "measure (\<lambda>(bs, i). length bs - i)")
  fix bs i p a next_i
  assume "i + 2 < length bs" "p = osc_at bs i" "(a, next_i) = p"
  with osc_at_progress[of i bs] show "((bs, next_i), bs, i) \<in> measure (\<lambda>(bs, i). length bs - i)"
    by (auto simp: prod_eq_iff)
qed simp

declare osc_loop.simps [simp del]

definition parse_osc_attention :: "string \<Rightarrow> osc_attention list" where
  "parse_osc_attention chunk = osc_loop chunk 0"

definition osc_level :: "string \<Rightarrow> string" where
  "osc_level code =
     (if code = ''777'' then ''critical'' else if code = ''99'' then ''warning'' else ''info'')"

definition osc_title :: "string \<Rightarrow> string" where
  "osc_title code =
     (if code = ''777'' then ''Agent Attention (Urgent)''
      else if code = ''99'' then ''Agent Attention'' else ''Agent Notification'')"

section \<open>What is found\<close>

lemma osc_loop_codes: "a \<in> set (osc_loop bs i) \<Longrightarrow> oa_code a \<in> {''9'', ''99'', ''777''}"
proof (induction bs i rule: osc_loop.induct)
  case (1 bs i)
  show ?case
  proof (cases "i + 2 < length bs")
    case True
    obtain x n where xn: "osc_at bs i = (x, n)" by fastforce
    have "oa_code y \<in> {''9'', ''99'', ''777''}" if "x = Some y" for y
      using xn that
      by (auto simp: osc_at_def Let_def split: if_splits option.splits prod.splits)
    moreover have "oa_code a \<in> {''9'', ''99'', ''777''}" if "a \<in> set (osc_loop bs n)"
      using "1.IH"[OF True refl, of x n] xn that by simp
    ultimately show ?thesis
      using "1.prems" True xn by (subst (asm) osc_loop.simps) (auto split: option.splits)
  next
    case False
    with "1.prems" show ?thesis by (subst (asm) osc_loop.simps) simp
  qed
qed

lemma no_escape_no_attention: "ESC \<notin> set bs \<Longrightarrow> osc_loop bs i = []"
proof (induction bs i rule: osc_loop.induct)
  case (1 bs i)
  show ?case
  proof (cases "i + 2 < length bs")
    case True
    with "1.prems" have "bs ! i \<noteq> ESC" by (metis add_lessD1 nth_mem)
    then have "osc_at bs i = (None, i + 1)" by (simp add: osc_at_def)
    with "1.IH"[OF True refl] "1.prems" True show ?thesis by (subst osc_loop.simps) simp
  next
    case False
    then show ?thesis by (subst osc_loop.simps) simp
  qed
qed

text \<open>
  The function sees one chunk at a time and keeps nothing between chunks: a sequence that
  the stream splits is not found in either part.
\<close>

definition bell_sequence :: "string \<Rightarrow> string \<Rightarrow> string" where
  "bell_sequence code body = [ESC, CHR '']''] @ code @ [CHR '';''] @ body @ [BEL]"

lemma scan_code_plain:
  assumes "BEL \<notin> set code" "ESC \<notin> set code" "CHR '';'' \<notin> set code"
  shows "scan_code (pre @ code @ CHR '';'' # rest) (length pre) = length pre + length code"
  using assms
proof (induction code arbitrary: pre)
  case Nil
  show ?case by (subst scan_code.simps) simp
next
  case (Cons c code)
  then have "scan_code ((pre @ [c]) @ code @ CHR '';'' # rest) (length (pre @ [c]))
      = length (pre @ [c]) + length code"
    by (intro Cons.IH) auto
  with Cons.prems show ?case
    by (subst scan_code.simps) (auto simp: string_terminator_at_def)
qed

lemma scan_body_plain:
  assumes "BEL \<notin> set body" "ESC \<notin> set body"
  shows "scan_body (pre @ body @ BEL # rest) (length pre)
           = Some (length pre + length body, length pre + length body + 1)"
  using assms
proof (induction body arbitrary: pre)
  case Nil
  show ?case by (subst scan_body.simps) simp
next
  case (Cons c body)
  then have "scan_body ((pre @ [c]) @ body @ BEL # rest) (length (pre @ [c]))
      = Some (length (pre @ [c]) + length body, length (pre @ [c]) + length body + 1)"
    by (intro Cons.IH) auto
  with Cons.prems show ?case
    by (subst scan_body.simps) (auto simp: string_terminator_at_def)
qed

lemma terminator_shift [simp]:
  "string_terminator_at (pre @ bs) (length pre + j) = string_terminator_at bs j"
  by (simp add: string_terminator_at_def nth_append)

lemma scan_code_shift: "scan_code (pre @ bs) (length pre + j) = length pre + scan_code bs j"
proof (induction bs j rule: scan_code.induct)
  case (1 bs j)
  show ?case
  proof (cases "j < length bs \<and> bs ! j \<noteq> CHR '';'' \<and> bs ! j \<noteq> BEL \<and> \<not> string_terminator_at bs j")
    case True
    with "1.IH" show ?thesis
      by (subst (1 2) scan_code.simps) (simp add: nth_append)
  next
    case False
    then show ?thesis by (subst (1 2) scan_code.simps) (auto simp: nth_append)
  qed
qed

lemma scan_body_shift:
  "scan_body (pre @ bs) (length pre + k)
     = map_option (map_prod ((+) (length pre)) ((+) (length pre))) (scan_body bs k)"
proof (induction bs k rule: scan_body.induct)
  case (1 bs k)
  show ?case
  proof (cases "k < length bs \<and> bs ! k \<noteq> BEL \<and> \<not> string_terminator_at bs k")
    case True
    with "1.IH" show ?thesis
      by (subst (1 2) scan_body.simps) (simp add: nth_append)
  next
    case False
    then show ?thesis by (subst (1 2) scan_body.simps) (auto simp: nth_append)
  qed
qed

lemma slice_shift [simp]: "slice (pre @ bs) (length pre + i) (length pre + j) = slice bs i j"
  by (simp add: slice_def)

lemma osc_at_shift:
  assumes "i + 1 < length bs"
  shows "osc_at (pre @ bs) (length pre + i) = map_prod (\<lambda>a. a) ((+) (length pre)) (osc_at bs i)"
proof -
  have at: "(pre @ bs) ! (length pre + j) = bs ! j" for j by (simp add: nth_append)
  have at': "(pre @ bs) ! Suc (length pre + i) = bs ! Suc i" using at[of "Suc i"] by simp
  have code: "scan_code (pre @ bs) (Suc (Suc (length pre + i)))
      = length pre + scan_code bs (Suc (Suc i))"
    using scan_code_shift[of pre bs "Suc (Suc i)"] by simp
  have body: "scan_body (pre @ bs) (Suc (length pre + j))
      = map_option (map_prod ((+) (length pre)) ((+) (length pre))) (scan_body bs (Suc j))" for j
    using scan_body_shift[of pre bs "Suc j"] by simp
  have sl: "slice (pre @ bs) (Suc (Suc (length pre + i))) (length pre + j) = slice bs (Suc (Suc i)) j"
    "slice (pre @ bs) (Suc (length pre + j)) (length pre + k) = slice bs (Suc j) k" for j k
    using slice_shift[of pre bs "Suc (Suc i)" j] slice_shift[of pre bs "Suc j" k] by simp_all
  show ?thesis
    by (cases "scan_body bs (Suc (scan_code bs (Suc (Suc i))))")
       (auto simp add: osc_at_def Let_def at at' code body sl split: prod.split)
qed

lemma osc_loop_shift: "osc_loop (pre @ bs) (length pre + i) = osc_loop bs i"
proof (induction bs i rule: osc_loop.induct)
  case (1 bs i)
  show ?case
  proof (cases "i + 2 < length bs")
    case True
    obtain a n where an: "osc_at bs i = (a, n)" by fastforce
    with osc_at_shift[of i bs pre] True
    have "osc_at (pre @ bs) (length pre + i) = (a, length pre + n)" by simp
    with "1.IH"[OF True refl, of a n] an True show ?thesis
      by (subst (1 2) osc_loop.simps) simp
  next
    case False
    then show ?thesis by (subst (1 2) osc_loop.simps) simp
  qed
qed

lemma osc_skip_text: "ESC \<notin> set t \<Longrightarrow> parse_osc_attention (t @ bs) = parse_osc_attention bs"
proof (induction t)
  case (Cons c t)
  show ?case
  proof (cases "2 < length (c # t @ bs)")
    case True
    from Cons.prems have "osc_at (c # t @ bs) 0 = (None, 1)" by (auto simp: osc_at_def)
    with True osc_loop_shift[of "[c]" "t @ bs" 0] Cons show ?thesis
      unfolding parse_osc_attention_def by (subst osc_loop.simps) simp
  next
    case False
    then have "osc_loop (c # t @ bs) 0 = []" "osc_loop bs 0 = []"
      by (subst osc_loop.simps; simp)+
    then show ?thesis by (simp add: parse_osc_attention_def)
  qed
qed simp

lemma attention_found:
  assumes pre: "ESC \<notin> set t" and code: "code \<in> {''9'', ''99'', ''777''}"
    and body: "BEL \<notin> set body" "ESC \<notin> set body"
  shows "parse_osc_attention (t @ bell_sequence code body @ rest)
           = \<lparr>oa_code = code, oa_body = str_trim body\<rparr> # parse_osc_attention rest"
proof -
  let ?pre = "[ESC, CHR '']'']"
  let ?seq = "bell_sequence code body"
  let ?all = "?seq @ rest"
  have trims: "str_trim ''9'' = ''9''" "str_trim ''99'' = ''99''" "str_trim ''777'' = ''777''"
    by (simp_all add: str_trim_graphic is_ascii_graphic_def)
  have plain: "BEL \<notin> set code" "ESC \<notin> set code" "CHR '';'' \<notin> set code" "str_trim code = code"
    using code trims by auto
  have all: "?all = ?pre @ code @ CHR '';'' # body @ BEL # rest"
    "?all = (?pre @ code @ [CHR '';'']) @ body @ BEL # rest"
    by (simp_all add: bell_sequence_def)
  have j: "scan_code ?all 2 = 2 + length code"
    using scan_code_plain[OF plain(1-3), of ?pre "body @ BEL # rest"]
    by (simp only: all(1)) (simp add: numeral_2_eq_2)
  have k: "scan_body ?all (3 + length code)
      = Some (3 + length code + length body, length ?seq)"
    using scan_body_plain[OF body, of "?pre @ code @ [CHR '';'']" rest]
    by (simp only: all(2)) (simp add: bell_sequence_def numeral_3_eq_3)
  have "osc_at ?all 0 = (Some \<lparr>oa_code = code, oa_body = str_trim body\<rparr>, length ?seq)"
  proof -
    define s where "s = ?all"
    have facts: "s ! 0 = ESC" "s ! 1 = CHR '']''" "s ! (2 + length code) = CHR '';''"
      "2 + length code < length s" "slice s 2 (2 + length code) = code"
      "slice s (3 + length code) (3 + length code + length body) = body"
      by (simp_all add: s_def all(1) slice_def nth_append numeral_2_eq_2 numeral_3_eq_3)
    have j': "scan_code s 2 = 2 + length code"
      and k': "scan_body s (3 + length code) = Some (3 + length code + length body, length ?seq)"
      using j k by (simp_all add: s_def)
    have "2 + length code + 1 = 3 + length code" by simp
    with facts j' k' code plain(4) show ?thesis
      unfolding osc_at_def s_def[symmetric]
      by (simp only: Let_def add_0 facts j' k' not_le[symmetric] if_True if_False simp_thms
            option.case prod.case)
  qed
  then have "osc_loop ?all 0
      = \<lparr>oa_code = code, oa_body = str_trim body\<rparr> # osc_loop ?all (length ?seq)"
    by (subst osc_loop.simps) (simp add: bell_sequence_def)
  with osc_skip_text[OF pre, of ?all] osc_loop_shift[of ?seq rest 0] show ?thesis
    by (simp add: parse_osc_attention_def)
qed

lemma scan_body_None: "BEL \<notin> set bs \<Longrightarrow> backslash \<notin> set bs \<Longrightarrow> scan_body bs k = None"
proof (induction bs k rule: scan_body.induct)
  case (1 bs k)
  show ?case
  proof (cases "k < length bs")
    case True
    with "1.prems" have "bs ! k \<noteq> BEL" by (metis nth_mem)
    moreover have "\<not> string_terminator_at bs k"
      using "1.prems"(2) by (metis nth_mem string_terminator_at_def)
    ultimately show ?thesis using True 1 by (subst scan_body.simps) simp
  next
    case False
    then show ?thesis by (subst scan_body.simps) simp
  qed
qed

lemma unterminated_not_found:
  "BEL \<notin> set bs \<Longrightarrow> backslash \<notin> set bs \<Longrightarrow> osc_loop bs i = []"
proof (induction bs i rule: osc_loop.induct)
  case (1 bs i)
  show ?case
  proof (cases "i + 2 < length bs")
    case True
    from "1.prems" have "osc_at bs i = (None, i + 1)"
      by (simp add: osc_at_def Let_def scan_body_None)
    with "1.IH"[OF True refl] "1.prems" True show ?thesis by (subst osc_loop.simps) simp
  next
    case False
    then show ?thesis by (subst osc_loop.simps) simp
  qed
qed

lemma split_attention_is_lost:
  assumes code: "code \<in> {''9'', ''99'', ''777''}"
    and body: "BEL \<notin> set body" "ESC \<notin> set body" "backslash \<notin> set body"
    and n: "0 < n" "n < length (bell_sequence code body)"
  shows "parse_osc_attention (take n (bell_sequence code body)) = []"
    and "parse_osc_attention (drop n (bell_sequence code body)) = []"
    and "parse_osc_attention (bell_sequence code body)
           = [\<lparr>oa_code = code, oa_body = str_trim body\<rparr>]"
proof -
  let ?s = "bell_sequence code body"
  have init: "?s = ([ESC, CHR '']''] @ code @ [CHR '';''] @ body) @ [BEL]"
    by (simp add: bell_sequence_def)
  have "take n ?s = take n ([ESC, CHR '']''] @ code @ [CHR '';''] @ body)"
    using n(2) by (simp add: init del: append.simps append_Cons)
  then have "set (take n ?s) \<subseteq> {ESC, CHR '']'', CHR '';''} \<union> set code \<union> set body"
    using set_take_subset by fastforce
  moreover have "BEL \<notin> {ESC, CHR '']'', CHR '';''} \<union> set code \<union> set body"
    "backslash \<notin> {ESC, CHR '']'', CHR '';''} \<union> set code \<union> set body"
    using code body by auto
  ultimately have "BEL \<notin> set (take n ?s)" "backslash \<notin> set (take n ?s)" by blast+
  then show "parse_osc_attention (take n ?s) = []"
    by (simp add: parse_osc_attention_def unterminated_not_found)
  obtain m where m: "n = Suc m" using n(1) by (cases n) auto
  have "set (drop n ?s) \<subseteq> {CHR '']'', CHR '';'', BEL} \<union> set code \<union> set body"
    using set_drop_subset[of m "CHR '']'' # code @ CHR '';'' # body @ [BEL]"]
    by (auto simp: m bell_sequence_def)
  moreover have "ESC \<notin> {CHR '']'', CHR '';'', BEL} \<union> set code \<union> set body"
    using code body by auto
  ultimately have "ESC \<notin> set (drop n ?s)" by blast
  then show "parse_osc_attention (drop n ?s) = []"
    by (simp add: parse_osc_attention_def no_escape_no_attention)
  have "parse_osc_attention [] = []"
    by (simp add: parse_osc_attention_def osc_loop.simps)
  with attention_found[of "[]" code body "[]"] code body
  show "parse_osc_attention ?s = [\<lparr>oa_code = code, oa_body = str_trim body\<rparr>]" by simp
qed

end
