(* ===== verification/Resilience.thy ===== *)
theory Resilience
  imports Prelude Complex_Main
begin

text \<open>
  The retry and continuation rules of an agent run (\<open>pnevma-agents/src/resilience.rs\<close>): the
  classification of failure messages, the exponential backoff, and the three counters a run
  carries (\<open>ContinuationState\<close>, \<open>RetryContext\<close>, \<open>StallDetector\<close>). Delays and costs are exact
  rationals: the \<open>f64\<close> rounding is not modelled, infinity is. The random jitter and the
  clock are arguments. Counters are natural numbers; none comes near the \<open>u32\<close> limit.
\<close>

section \<open>Classification of failures\<close>

text \<open>\<open>str::match_indices\<close>: the offsets of the non-overlapping matches, from the left.\<close>

fun match_indices_from :: "nat \<Rightarrow> string \<Rightarrow> string \<Rightarrow> nat list" where
  "match_indices_from i s p =
     (case s of [] \<Rightarrow> []
      | _ # s' \<Rightarrow>
          if p \<noteq> [] \<and> starts_with s p
          then i # match_indices_from (i + length p) (drop (length p - 1) s') p
          else match_indices_from (Suc i) s' p)"

declare match_indices_from.simps [simp del]

definition boundary_ok :: "string \<Rightarrow> nat \<Rightarrow> nat \<Rightarrow> bool" where
  "boundary_ok h start stop \<longleftrightarrow>
     (start = 0 \<or> \<not> is_ascii_alphanumeric (h ! (start - 1)))
     \<and> (length h \<le> stop \<or> \<not> is_ascii_alphanumeric (h ! stop))"

definition word_boundary_match :: "string \<Rightarrow> string \<Rightarrow> bool" where
  "word_boundary_match haystack needle =
     list_ex (\<lambda>start. boundary_ok haystack start (start + length needle))
       (match_indices_from 0 haystack needle)"

datatype failure_class = Transient | Permanent | Stall

definition stall_words :: "string list" where
  "stall_words = [''stall'', ''heartbeat timeout'', ''no activity'']"

definition rate_limit_words :: "string list" where
  "rate_limit_words = [''rate limit'', ''429'', ''too many requests'']"

definition network_words :: "string list" where
  "network_words =
     [''timeout'', ''timed out'', ''connection reset'', ''connection refused'', ''network'',
      ''dns'', ''broken pipe'']"

definition classify_failure :: "string \<Rightarrow> failure_class" where
  "classify_failure error_msg =
     (let lower = to_lowercase error_msg; has = str_contains lower in
      if list_ex has stall_words then Stall
      else if list_ex has rate_limit_words then Transient
      else if list_ex has network_words \<or> word_boundary_match lower ''eof'' then Transient
      else if list_ex (word_boundary_match lower) [''500'', ''502'', ''503'', ''504'']
              \<or> list_ex has [''internal server error'', ''service unavailable''] then Transient
      else if list_ex has [''401'', ''403'', ''unauthorized'', ''forbidden'',
                ''invalid api key'', ''authentication''] then Permanent
      else Permanent)"

section \<open>Backoff\<close>

record retry_policy =
  max_attempts :: nat
  base_delay_secs :: nat
  max_delay_secs :: nat
  jitter :: bool

definition retry_policy_default :: retry_policy where
  "retry_policy_default =
     \<lparr>max_attempts = 3, base_delay_secs = 5, max_delay_secs = 120, jitter = True\<rparr>"

text \<open>
  \<open>2.0_f64.powi(e)\<close>: None is infinity. \<open>f64::min\<close> takes the number when the other argument
  is infinite or not a number (0 times infinity).
\<close>

definition two_powi :: "nat \<Rightarrow> rat option" where
  "two_powi e = (if 1024 \<le> e then None else Some (2 ^ e))"

definition compute_backoff :: "rat \<Rightarrow> nat \<Rightarrow> retry_policy \<Rightarrow> rat" where
  "compute_backoff random attempt policy =
     (let base = of_nat (base_delay_secs policy);
          cap = of_nat (max_delay_secs policy);
          capped = (case two_powi (attempt - 1) of
                      None \<Rightarrow> cap
                    | Some m \<Rightarrow> min (base * m) cap);
          delay = (if jitter policy then capped * (1 / 2 + random * (1 / 2)) else capped)
      in max delay 1)"

section \<open>The counters of a run\<close>

record continuation_state =
  thread_id :: "string option"
  turn_count :: nat
  max_turns :: nat
  accumulated_tokens_in :: nat
  accumulated_tokens_out :: nat
  accumulated_cost_usd :: rat
  last_finish_reason :: "string option"

definition continuation_new :: "string option \<Rightarrow> nat \<Rightarrow> continuation_state" where
  "continuation_new tid n =
     \<lparr>thread_id = tid, turn_count = 0, max_turns = n, accumulated_tokens_in = 0,
      accumulated_tokens_out = 0, accumulated_cost_usd = 0, last_finish_reason = None\<rparr>"

definition record_turn :: "string \<Rightarrow> continuation_state \<Rightarrow> continuation_state" where
  "record_turn reason c =
     c\<lparr>turn_count := turn_count c + 1, last_finish_reason := Some reason\<rparr>"

definition record_usage :: "nat \<Rightarrow> nat \<Rightarrow> rat \<Rightarrow> continuation_state \<Rightarrow> continuation_state" where
  "record_usage tin tout cost c =
     c\<lparr>accumulated_tokens_in := accumulated_tokens_in c + tin,
       accumulated_tokens_out := accumulated_tokens_out c + tout,
       accumulated_cost_usd := accumulated_cost_usd c + cost\<rparr>"

definition should_continue :: "continuation_state \<Rightarrow> bool" where
  "should_continue c =
     (if max_turns c \<le> turn_count c then False
      else case last_finish_reason c of
             None \<Rightarrow> False
           | Some r \<Rightarrow>
               if r \<in> {''stop'', ''end_turn'', ''complete''} then False
               else if r \<in> {''max_tokens'', ''length''} then True
               else if r = ''tool_use'' then True
               else False)"

record retry_context =
  attempt :: nat
  rc_max_attempts :: nat
  cumulative_backoff_secs :: nat
  last_failure_class :: "failure_class option"

definition retry_context_new :: "nat \<Rightarrow> retry_context" where
  "retry_context_new n =
     \<lparr>attempt = 0, rc_max_attempts = n, cumulative_backoff_secs = 0,
      last_failure_class = None\<rparr>"

definition record_failure :: "failure_class \<Rightarrow> nat \<Rightarrow> retry_context \<Rightarrow> retry_context" where
  "record_failure cls backoff_secs r =
     r\<lparr>attempt := attempt r + 1,
       cumulative_backoff_secs := cumulative_backoff_secs r + backoff_secs,
       last_failure_class := Some cls\<rparr>"

definition should_retry :: "retry_context \<Rightarrow> bool" where
  "should_retry r \<longleftrightarrow>
     attempt r < rc_max_attempts r
     \<and> (last_failure_class r = Some Transient \<or> last_failure_class r = Some Stall)"

record stall_detector =
  heartbeat_timeout :: int
  max_stall_retries :: nat
  last_activity :: time
  stall_count :: nat

definition stall_detector_new :: "time \<Rightarrow> stall_detector" where
  "stall_detector_new now =
     \<lparr>heartbeat_timeout = 120 * nanos_per_sec, max_stall_retries = 2, last_activity = now,
      stall_count = 0\<rparr>"

definition record_activity :: "time \<Rightarrow> stall_detector \<Rightarrow> stall_detector" where
  "record_activity now d = d\<lparr>last_activity := now\<rparr>"

definition is_stalled :: "time \<Rightarrow> stall_detector \<Rightarrow> bool" where
  "is_stalled now d \<longleftrightarrow> heartbeat_timeout d < now - last_activity d"

definition increment_stall_count :: "stall_detector \<Rightarrow> stall_detector" where
  "increment_stall_count d = d\<lparr>stall_count := stall_count d + 1\<rparr>"

definition max_stalls_exceeded :: "stall_detector \<Rightarrow> bool" where
  "max_stalls_exceeded d \<longleftrightarrow> max_stall_retries d \<le> stall_count d"

definition detector_reset :: "time \<Rightarrow> stall_detector \<Rightarrow> stall_detector" where
  "detector_reset now d = d\<lparr>last_activity := now\<rparr>"

section \<open>The scan for whole words is exact\<close>

text \<open>
  The scan skips overlapping matches. For an alphanumeric word this loses nothing: the
  character before a skipped match belongs to the match that hides it.
\<close>

definition occurs_at :: "string \<Rightarrow> string \<Rightarrow> nat \<Rightarrow> bool" where
  "occurs_at p s i \<longleftrightarrow> i + length p \<le> length s \<and> take (length p) (drop i s) = p"

lemma occurs_at_0: "occurs_at p s 0 \<longleftrightarrow> starts_with s p"
  by (auto simp: occurs_at_def starts_with_def dest: arg_cong[where f = length])

lemma occurs_at_Suc: "occurs_at p (c # s) (Suc i) \<longleftrightarrow> occurs_at p s i"
  by (simp add: occurs_at_def)


lemma match_indices_sound:
  "i \<in> set (match_indices_from k s p) \<Longrightarrow> k \<le> i \<and> occurs_at p s (i - k)"
proof (induction k s p rule: match_indices_from.induct)
  case (1 k s p)
  show ?case
  proof (cases s)
    case Nil
    with "1.prems" show ?thesis by (subst (asm) match_indices_from.simps) simp
  next
    case (Cons c s')
    show ?thesis
    proof (cases "p \<noteq> [] \<and> starts_with s p")
      case True
      then obtain n where n: "length p = Suc n" by (cases p) auto
      from "1.prems" True Cons consider "i = k"
        | "i \<in> set (match_indices_from (k + length p) (drop (length p - 1) s') p)"
        by (subst (asm) match_indices_from.simps) auto
      then show ?thesis
      proof cases
        case 1
        with True show ?thesis by (simp add: occurs_at_0)
      next
        case 2
        from "1.IH"(1)[OF Cons True 2] have
          "k + length p \<le> i" "occurs_at p (drop n s') (i - (k + length p))"
          by (simp_all add: n)
        moreover have "drop n s' = drop (length p) s" by (simp add: Cons n)
        ultimately show ?thesis
          using True by (auto simp: occurs_at_def add.commute)
      qed
    next
      case False
      with "1.prems" Cons have "i \<in> set (match_indices_from (Suc k) s' p)"
        by (subst (asm) match_indices_from.simps) auto
      from "1.IH"(2)[OF Cons False this] have "Suc k \<le> i" "occurs_at p s' (i - Suc k)"
        by simp_all
      then have "i - k = Suc (i - Suc k)" by simp
      with \<open>occurs_at p s' (i - Suc k)\<close> \<open>Suc k \<le> i\<close> Cons show ?thesis
        by (simp add: occurs_at_Suc)
    qed
  qed
qed

lemma match_indices_complete:
  "p \<noteq> [] \<Longrightarrow> occurs_at p s j \<Longrightarrow>
     \<exists>i\<in>set (match_indices_from k s p). i \<le> k + j \<and> k + j < i + length p"
proof (induction k s p arbitrary: j rule: match_indices_from.induct)
  case (1 k s p)
  show ?case
  proof (cases s)
    case Nil
    with "1.prems" show ?thesis by (simp add: occurs_at_def)
  next
    case (Cons c s')
    show ?thesis
    proof (cases "starts_with s p")
      case True
      with "1.prems" have True': "p \<noteq> [] \<and> starts_with s p" by simp
      then obtain n where n: "length p = Suc n" by (cases p) auto
      have set: "set (match_indices_from k s p)
          = insert k (set (match_indices_from (k + length p) (drop n s') p))"
        using True' Cons n by (subst match_indices_from.simps) simp
      show ?thesis
      proof (cases "j < length p")
        case True
        then show ?thesis by (simp add: set)
      next
        case False
        have "occurs_at p (drop n s') (j - length p)"
          using "1.prems"(2) False n Cons by (cases j) (auto simp: occurs_at_def)
        with "1.IH"(1)[OF Cons True', of "j - length p"] False n "1.prems"(1) show ?thesis
          by (auto simp: set)
      qed
    next
      case False
      then have False': "\<not> (p \<noteq> [] \<and> starts_with s p)" by simp
      with Cons have eq: "match_indices_from k s p = match_indices_from (Suc k) s' p"
        by (subst match_indices_from.simps) auto
      from False "1.prems"(2) obtain j' where j: "j = Suc j'"
        by (cases j) (auto simp: occurs_at_0)
      with "1.prems"(2) Cons have "occurs_at p s' j'" by (simp add: occurs_at_Suc)
      from "1.IH"(2)[OF Cons False' "1.prems"(1) this] show ?thesis
        by (simp add: eq j)
    qed
  qed
qed

lemma hidden_match_not_boundary:
  assumes word: "\<forall>c\<in>set p. is_ascii_alphanumeric c"
    and i: "occurs_at p s i" and ij: "i < j" "j < i + length p"
  shows "\<not> boundary_ok s j (j + length p)"
proof -
  have "s ! (j - 1) = take (length p) (drop i s) ! (j - 1 - i)"
    using ij i by (subst nth_take) (auto simp: occurs_at_def)
  also have "\<dots> = p ! (j - 1 - i)" using i by (simp add: occurs_at_def)
  finally have "is_ascii_alphanumeric (s ! (j - 1))"
    using word ij by (auto intro!: nth_mem)
  with ij show ?thesis by (simp add: boundary_ok_def)
qed

lemma word_boundary_match_exact:
  assumes "p \<noteq> []" "\<forall>c\<in>set p. is_ascii_alphanumeric c"
  shows "word_boundary_match s p \<longleftrightarrow>
           (\<exists>j. occurs_at p s j \<and> boundary_ok s j (j + length p))"
proof
  assume "word_boundary_match s p"
  then show "\<exists>j. occurs_at p s j \<and> boundary_ok s j (j + length p)"
    using match_indices_sound[where k = 0]
    by (auto simp: word_boundary_match_def list_ex_iff)
next
  assume "\<exists>j. occurs_at p s j \<and> boundary_ok s j (j + length p)"
  then obtain j where j: "occurs_at p s j" "boundary_ok s j (j + length p)" by blast
  from match_indices_complete[OF assms(1) j(1), of 0] obtain i where
    i: "i \<in> set (match_indices_from 0 s p)" "i \<le> j" "j < i + length p" by auto
  from match_indices_sound[OF i(1)] have "occurs_at p s i" by simp
  from hidden_match_not_boundary[OF assms(2) this _ i(3)] j(2) i(2) have "i = j"
    by (metis le_neq_implies_less)
  with i(1) j(2) show "word_boundary_match s p"
    by (auto simp: word_boundary_match_def list_ex_iff)
qed

lemma word_boundary_match_contains:
  "word_boundary_match s p \<Longrightarrow> str_contains s p"
proof -
  assume "word_boundary_match s p"
  then obtain i where "occurs_at p s i"
    using match_indices_sound[where k = 0]
    by (auto simp: word_boundary_match_def list_ex_iff)
  then have "s = take i s @ p @ drop (i + length p) s"
    by (metis occurs_at_def append_take_drop_id drop_drop add.commute)
  then show ?thesis by (metis str_contains_sublist sublist_appendI)
qed

text \<open>
  The word boundary does not exclude what its comment names: a count of 500 items in a
  message is taken for a server error and retried.
\<close>

lemma counted_items_are_transient:
  "classify_failure ''processed 500 items'' = Transient"
  by (simp add: classify_failure_def to_lowercase_plain ascii_lower_char_def stall_words_def rate_limit_words_def
      network_words_def str_contains_def word_boundary_match_def boundary_ok_def match_indices_from.simps
      str_find.simps Let_def starts_with_def is_ascii_alphanumeric_def)

lemma auth_failure_after_500_is_transient:
  "classify_failure ''401 unauthorized after 500 ms'' = Transient"
  by (simp add: classify_failure_def to_lowercase_plain ascii_lower_char_def stall_words_def rate_limit_words_def
      network_words_def str_contains_def word_boundary_match_def boundary_ok_def match_indices_from.simps
      str_find.simps Let_def starts_with_def is_ascii_alphanumeric_def)

lemma classify_failure_Stall:
  "classify_failure m = Stall \<longleftrightarrow> list_ex (str_contains (to_lowercase m)) stall_words"
  by (simp add: classify_failure_def Let_def)

section \<open>Backoff and counters\<close>

text \<open>
  The backoff stays between one second and the cap, and without jitter it is the doubled
  base until the cap; the default policy gives 5, 10, 20, 40, 80, 120 seconds.
\<close>

lemma compute_backoff_bounds:
  assumes "0 \<le> r" "r < 1"
  shows "1 \<le> compute_backoff r n p"
    and "compute_backoff r n p \<le> max 1 (of_nat (max_delay_secs p))"
proof -
  show "1 \<le> compute_backoff r n p" by (simp add: compute_backoff_def Let_def)
  have half: "1 / 2 + r * (1 / 2) \<le> 1" using assms by simp
  have scaled: "x * (1 / 2 + r * (1 / 2)) \<le> c" if "0 \<le> x" "x \<le> c" for x c :: rat
    using mult_left_mono[OF half that(1)] that(2) by simp
  define c :: rat where "c = (case two_powi (n - 1) of None \<Rightarrow> of_nat (max_delay_secs p)
      | Some m \<Rightarrow> min (of_nat (base_delay_secs p) * m) (of_nat (max_delay_secs p)))"
  have "0 \<le> c" "c \<le> of_nat (max_delay_secs p)"
    by (auto simp: c_def two_powi_def split: option.splits)
  then have "(if jitter p then c * (1 / 2 + r * (1 / 2)) else c) \<le> of_nat (max_delay_secs p)"
    using scaled by simp
  moreover have
    "compute_backoff r n p = max (if jitter p then c * (1 / 2 + r * (1 / 2)) else c) 1"
    unfolding compute_backoff_def c_def by (simp only: Let_def)
  ultimately show "compute_backoff r n p \<le> max 1 (of_nat (max_delay_secs p))"
    by (simp add: max.commute max.coboundedI2)
qed

lemma default_backoff_values:
  "map (\<lambda>n. compute_backoff 0 n (retry_policy_default\<lparr>jitter := False\<rparr>)) [1, 2, 3, 4, 5, 6]
   = [5, 10, 20, 40, 80, 120]"
  by (simp add: compute_backoff_def retry_policy_default_def two_powi_def)

text \<open>Once the turn limit is reached the state never asks for another turn.\<close>

lemma should_continue_below_limit: "should_continue c \<Longrightarrow> turn_count c < max_turns c"
  by (simp add: should_continue_def split: if_splits)

lemma should_continue_iff:
  "should_continue c \<longleftrightarrow> turn_count c < max_turns c
     \<and> last_finish_reason c \<in> Some ` {''max_tokens'', ''length'', ''tool_use''}"
  by (auto simp: should_continue_def split: option.splits)

text \<open>
  The retries a context grants. The attempt counter counts failures, the first included, so
  of the documented number of retries, the initial attempt not counted, one is missing.
\<close>

fun retries_granted :: "failure_class list \<Rightarrow> retry_context \<Rightarrow> nat" where
  "retries_granted [] r = 0"
| "retries_granted (c # cs) r =
     (let r' = record_failure c 0 r
      in if should_retry r' then Suc (retries_granted cs r') else 0)"

lemma retries_granted_bound:
  "retries_granted cs r \<le> rc_max_attempts r - attempt r - 1"
proof (induction cs arbitrary: r)
  case (Cons c cs)
  from Cons[of "record_failure c 0 r"] show ?case
    by (auto simp: Let_def should_retry_def record_failure_def)
qed simp

lemma retries_granted_transient:
  "retries_granted (replicate n Transient) r = min n (rc_max_attempts r - attempt r - 1)"
proof (induction n arbitrary: r)
  case (Suc n)
  from Suc[of "record_failure Transient 0 r"] show ?case
    by (auto simp: Let_def should_retry_def record_failure_def)
qed simp

text \<open>
  Activity resets the timer of the stall detector but not its count: recoveries are counted
  over the whole run.
\<close>

lemma record_activity_keeps_stalls [simp]:
  "stall_count (record_activity t d) = stall_count d"
  "stall_count (detector_reset t d) = stall_count d"
  by (simp_all add: record_activity_def detector_reset_def)

lemma active_not_stalled:
  "0 \<le> heartbeat_timeout d \<Longrightarrow> now - t \<le> heartbeat_timeout d
     \<Longrightarrow> \<not> is_stalled now (record_activity t d)"
  by (simp add: is_stalled_def record_activity_def)

end
