(* ===== verification/Runner_Loop.thy ===== *)
theory Runner_Loop
  imports Resilience Osc Redaction
begin

text \<open>
  The event loop of an agent run (\<open>run_event_loop\<close> of
  \<open>pnevma-commands/src/automation/runner.rs\<close>, up to the end of its \<open>'event_loop\<close>) with the
  events of \<open>pnevma-agents/src/model.rs\<close>. The loop takes one input per pass: what
  \<open>rx.recv()\<close> returned or a tick of the stall timer. Each pass returns whether the loop
  breaks. What the pass writes to the database, the emitter and the adapter is appended to
  the list \<open>ls_effects\<close>; the results of these writes are ignored by the code. The payloads
  of the event log are recorded as \<open>append_event\<close> receives them. Tool calls are answered by
  a parameter, the tools being components of their own. A slice that is no character
  boundary panics in the redactor: the result \<open>None\<close>.
\<close>

section \<open>Events\<close>

datatype agent_status = Running | Paused | Waiting | Completed | AgentFailed

datatype agent_event =
    OutputChunk string
  | ToolUse string string string
  | StatusChange agent_status
  | AgentError string
  | UsageUpdate nat nat rat
  | AgentComplete string
  | ThreadStarted string
  | TurnStarted string string
  | TurnCompleted string string string
  | RateLimitUpdated nat "time option"
  | SemanticHeartbeat string time
  | DynamicToolCall string string json

datatype recv_result = Received agent_event | Lagged nat | Closed

datatype tool_handler = BrowserTool | PlanTool | TeamTool | TrackerTool | NoHandler

record cost_entry =
  ce_run_id :: "string option"
  ce_tokens_in :: nat
  ce_tokens_out :: nat
  ce_usd :: rat

datatype run_effect =
    EmitOutput string
  | LogOutput string
  | Notify string string string
  | LogToolUse string string string
  | AppendCost cost_entry
  | EmitCost rat
  | SessionRunning
  | LogRetry nat nat nat string
  | Sleep rat
  | SendToolResult string tool_handler json
  | LogStalled nat bool
  | Interrupt

record loop_env =
  le_engine :: regex_engine
  le_redaction :: runtime_redaction_config
  le_has_tracker :: bool
  le_tool :: "tool_handler \<Rightarrow> string \<Rightarrow> string \<Rightarrow> json \<Rightarrow> json"

text \<open>What a pass reads outside the loop's state. \<open>px_after_sleep\<close> is the clock when a
  backoff sleep or the interrupt of the agent has ended.\<close>

record pass_ctx =
  px_now :: time
  px_secrets :: "string list"
  px_random :: rat
  px_after_sleep :: time
  px_run_id :: "string option"

record loop_state =
  ls_last_summary :: "string option"
  ls_failed :: bool
  ls_redactor :: stream_buffer
  ls_retry :: retry_context
  ls_continuation :: continuation_state
  ls_stall :: stall_detector
  ls_effects :: "run_effect list"

definition loop_start :: "time \<Rightarrow> string option \<Rightarrow> loop_state" where
  "loop_start now tid =
     \<lparr>ls_last_summary = None, ls_failed = False, ls_redactor = buffer_new,
      ls_retry = retry_context_new (max_attempts retry_policy_default),
      ls_continuation = continuation_new tid 10, ls_stall = stall_detector_new now,
      ls_effects = []\<rparr>"

definition effect :: "run_effect list \<Rightarrow> loop_state \<Rightarrow> loop_state" where
  "effect es s = s\<lparr>ls_effects := ls_effects s @ es\<rparr>"

section \<open>One event\<close>

definition osc_notifications ::
  "regex_engine \<Rightarrow> runtime_redaction_config \<Rightarrow> string list \<Rightarrow> string \<Rightarrow> run_effect list" where
  "osc_notifications engine cfg secrets chunk =
     map (\<lambda>a. let body = (if str_trim (oa_body a) = [] then
                  ''OSC '' @ oa_code a @ '' attention sequence received'' else oa_body a)
              in Notify (redact_text engine cfg (osc_title (oa_code a)) secrets)
                   (redact_text engine cfg body secrets) (osc_level (oa_code a)))
       (parse_osc_attention chunk)"

definition output_effects ::
  "regex_engine \<Rightarrow> runtime_redaction_config \<Rightarrow> string list \<Rightarrow> string option \<Rightarrow> run_effect list"
where
  "output_effects engine cfg secrets out =
     (case out of None \<Rightarrow> []
      | Some safe_chunk \<Rightarrow>
          [EmitOutput safe_chunk, LogOutput safe_chunk]
          @ osc_notifications engine cfg secrets safe_chunk)"

definition tool_route :: "bool \<Rightarrow> string \<Rightarrow> tool_handler" where
  "tool_route has_tracker tool_name =
     (if starts_with tool_name ''browser.'' then BrowserTool
      else if starts_with tool_name ''plan.'' then PlanTool
      else if starts_with tool_name ''team.'' then TeamTool
      else if has_tracker then TrackerTool
      else NoHandler)"

definition tool_result :: "loop_env \<Rightarrow> string \<Rightarrow> string \<Rightarrow> json \<Rightarrow> tool_handler \<times> json" where
  "tool_result env call_id tool_name params =
     (let h = tool_route (le_has_tracker env) tool_name in
      (h, if h = NoHandler
          then JObject [(''error'', JString (''unknown tool: '' @ tool_name)),
                        (''success'', JBool False)]
          else le_tool env h call_id tool_name params))"

definition handle_error :: "loop_env \<Rightarrow> pass_ctx \<Rightarrow> string \<Rightarrow> loop_state \<Rightarrow> bool \<times> loop_state" where
  "handle_error env px message s =
     (let cls = classify_failure message;
          backoff = compute_backoff (px_random px) (attempt (ls_retry s) + 1) retry_policy_default;
          secs = nat \<lfloor>backoff\<rfloor>;
          r = record_failure cls secs (ls_retry s);
          s = s\<lparr>ls_retry := r\<rparr>
      in if cls = Transient \<and> should_retry r
         then (False, effect [LogRetry (attempt r) secs (cumulative_backoff_secs r) message,
                              Sleep backoff]
                        (s\<lparr>ls_stall := detector_reset (px_after_sleep px) (ls_stall s)\<rparr>))
         else (True, s\<lparr>ls_failed := True,
                 ls_last_summary := Some (redact_text (le_engine env) (le_redaction env) message
                                            (px_secrets px))\<rparr>))"

definition handle_turn :: "string \<Rightarrow> loop_state \<Rightarrow> bool \<times> loop_state" where
  "handle_turn finish_reason s =
     (let c = record_turn finish_reason (ls_continuation s);
          s = s\<lparr>ls_continuation := c\<rparr>
      in if max_turns c \<le> turn_count c \<and> should_continue c
         then (True, s\<lparr>ls_last_summary :=
                 Some (''agent reached max turns limit ('' @ nat_str (max_turns c) @ '')'')\<rparr>)
         else (False, s))"

definition handle_output ::
  "loop_env \<Rightarrow> pass_ctx \<Rightarrow> string \<Rightarrow> loop_state \<Rightarrow> (bool \<times> loop_state) option" where
  "handle_output env px chunk s =
     (case push_chunk (le_engine env) (le_redaction env) (px_secrets px) chunk (ls_redactor s) of
        None \<Rightarrow> None
      | Some (out, buf) \<Rightarrow>
          Some (False, effect (output_effects (le_engine env) (le_redaction env) (px_secrets px) out)
                         (s\<lparr>ls_redactor := buf\<rparr>)))"

fun handle_event ::
  "loop_env \<Rightarrow> pass_ctx \<Rightarrow> agent_event \<Rightarrow> loop_state \<Rightarrow> (bool \<times> loop_state) option" where
  "handle_event env px (OutputChunk chunk) s = handle_output env px chunk s"
| "handle_event env px (ToolUse name input output) s =
     (let red = (\<lambda>t. redact_text (le_engine env) (le_redaction env) t (px_secrets px))
      in Some (False, effect [LogToolUse name (red input) (red output)] s))"
| "handle_event env px (UsageUpdate tin tout cost) s =
     Some (False, effect [AppendCost \<lparr>ce_run_id = px_run_id px, ce_tokens_in = tin,
                             ce_tokens_out = tout, ce_usd = cost\<rparr>, EmitCost cost]
                    (s\<lparr>ls_continuation := record_usage tin tout cost (ls_continuation s)\<rparr>))"
| "handle_event env px (SemanticHeartbeat _ _) s = Some (False, s)"
| "handle_event env px (TurnCompleted _ _ finish_reason) s = Some (handle_turn finish_reason s)"
| "handle_event env px (AgentError message) s = Some (handle_error env px message s)"
| "handle_event env px (AgentComplete summary) s =
     Some (True, s\<lparr>ls_last_summary :=
             Some (redact_text (le_engine env) (le_redaction env) summary (px_secrets px))\<rparr>)"
| "handle_event env px (DynamicToolCall call_id tool_name params) s =
     (let (h, result) = tool_result env call_id tool_name params
      in Some (False, effect [SendToolResult call_id h result] s))"
| "handle_event env px (StatusChange _) s = Some (False, s)"
| "handle_event env px (ThreadStarted _) s = Some (False, s)"
| "handle_event env px (TurnStarted _ _) s = Some (False, s)"
| "handle_event env px (RateLimitUpdated _ _) s = Some (False, s)"

section \<open>One pass and the whole loop\<close>

definition stall_tick :: "pass_ctx \<Rightarrow> loop_state \<Rightarrow> bool \<times> loop_state" where
  "stall_tick px s =
     (if \<not> is_stalled (px_now px) (ls_stall s) then (False, s)
      else let d = increment_stall_count (ls_stall s); s = s\<lparr>ls_stall := d\<rparr> in
        if max_stalls_exceeded d
        then (True, effect [LogStalled (stall_count d) True]
                (s\<lparr>ls_failed := True,
                   ls_last_summary := Some (''agent stalled after '' @ nat_str (stall_count d)
                     @ '' heartbeat timeout(s) with no activity'')\<rparr>))
        else (False, effect [LogStalled (stall_count d) False, Interrupt]
                (s\<lparr>ls_stall := detector_reset (px_after_sleep px) d\<rparr>)))"

datatype loop_input = Recv recv_result | StallTick

definition note_activity :: "time \<Rightarrow> loop_state \<Rightarrow> loop_state" where
  "note_activity now s =
     effect [SessionRunning] (s\<lparr>ls_stall := record_activity now (ls_stall s)\<rparr>)"

definition loop_pass ::
  "loop_env \<Rightarrow> pass_ctx \<Rightarrow> loop_input \<Rightarrow> loop_state \<Rightarrow> (bool \<times> loop_state) option" where
  "loop_pass env px inp s =
     (case inp of
        Recv (Received ev) \<Rightarrow>
          handle_event env px ev (note_activity (px_now px) s)
      | Recv (Lagged _) \<Rightarrow> Some (True, s)
      | Recv Closed \<Rightarrow> Some (True, s)
      | StallTick \<Rightarrow> Some (stall_tick px s))"

text \<open>The loop over the inputs it receives: it stops at the first pass that breaks. With the
  flag \<open>False\<close> the inputs are used up and the loop waits for the next.\<close>

fun event_loop ::
  "loop_env \<Rightarrow> (pass_ctx \<times> loop_input) list \<Rightarrow> loop_state \<Rightarrow> (bool \<times> loop_state) option" where
  "event_loop env [] s = Some (False, s)"
| "event_loop env ((px, inp) # xs) s =
     (case loop_pass env px inp s of
        None \<Rightarrow> None
      | Some (True, s') \<Rightarrow> Some (True, s')
      | Some (False, s') \<Rightarrow> event_loop env xs s')"

text \<open>After the loop the rest of the output is flushed.\<close>

definition flush_output ::
  "loop_env \<Rightarrow> pass_ctx \<Rightarrow> loop_state \<Rightarrow> loop_state option" where
  "flush_output env px s =
     (case finish (le_engine env) (le_redaction env) (px_secrets px) (ls_redactor s) of
        None \<Rightarrow> None
      | Some (out, buf) \<Rightarrow>
          Some (effect (output_effects (le_engine env) (le_redaction env) (px_secrets px) out)
                  (s\<lparr>ls_redactor := buf\<rparr>)))"

section \<open>Invariant of the running loop\<close>

fun sleeps :: "run_effect list \<Rightarrow> rat list" where
  "sleeps [] = []"
| "sleeps (Sleep d # es) = d # sleeps es"
| "sleeps (_ # es) = sleeps es"

fun interrupts :: "run_effect list \<Rightarrow> nat" where
  "interrupts [] = 0"
| "interrupts (Interrupt # es) = Suc (interrupts es)"
| "interrupts (_ # es) = interrupts es"

fun costs :: "run_effect list \<Rightarrow> cost_entry list" where
  "costs [] = []"
| "costs (AppendCost c # es) = c # costs es"
| "costs (_ # es) = costs es"

lemma sleeps_append [simp]: "sleeps (xs @ ys) = sleeps xs @ sleeps ys"
  by (induction xs rule: sleeps.induct) simp_all

lemma interrupts_append [simp]: "interrupts (xs @ ys) = interrupts xs + interrupts ys"
  by (induction xs rule: interrupts.induct) simp_all

lemma costs_append [simp]: "costs (xs @ ys) = costs xs @ costs ys"
  by (induction xs rule: costs.induct) simp_all

lemma output_effects_neutral [simp]:
  "sleeps (output_effects g c k out) = []" "interrupts (output_effects g c k out) = 0"
  "costs (output_effects g c k out) = []"
proof -
  have "sleeps (map (\<lambda>a. Notify (f a) (g a) (h a)) as) = []
      \<and> interrupts (map (\<lambda>a. Notify (f a) (g a) (h a)) as) = 0
      \<and> costs (map (\<lambda>a. Notify (f a) (g a) (h a)) as) = []" for f g h and as :: "osc_attention list"
    by (induction as) simp_all
  then show "sleeps (output_effects g c k out) = []" "interrupts (output_effects g c k out) = 0"
    "costs (output_effects g c k out) = []"
    by (simp_all add: output_effects_def osc_notifications_def Let_def split: option.split)
qed

definition costs_recorded :: "loop_state \<Rightarrow> bool" where
  "costs_recorded s \<longleftrightarrow>
     accumulated_tokens_in (ls_continuation s)
       = sum_list (map ce_tokens_in (costs (ls_effects s)))
     \<and> accumulated_tokens_out (ls_continuation s)
       = sum_list (map ce_tokens_out (costs (ls_effects s)))
     \<and> accumulated_cost_usd (ls_continuation s)
       = sum_list (map ce_usd (costs (ls_effects s)))"

definition counters_kept :: "loop_state \<Rightarrow> bool" where
  "counters_kept s \<longleftrightarrow>
     length (sleeps (ls_effects s)) \<le> 2
     \<and> sum_list (sleeps (ls_effects s)) \<le> (case length (sleeps (ls_effects s)) of
          0 \<Rightarrow> 0 | Suc 0 \<Rightarrow> 5 | _ \<Rightarrow> 15)
     \<and> interrupts (ls_effects s) \<le> 1"

definition still_running :: "loop_state \<Rightarrow> bool" where
  "still_running s \<longleftrightarrow>
     \<not> ls_failed s \<and> ls_last_summary s = None
     \<and> rc_max_attempts (ls_retry s) = 3
     \<and> attempt (ls_retry s) = length (sleeps (ls_effects s))
     \<and> max_stall_retries (ls_stall s) = 2
     \<and> stall_count (ls_stall s) = interrupts (ls_effects s)"

lemmas loop_inv_defs = costs_recorded_def counters_kept_def still_running_def

lemma loop_start_inv:
  "still_running (loop_start t tid)" "counters_kept (loop_start t tid)"
  "costs_recorded (loop_start t tid)"
  by (simp_all add: loop_inv_defs loop_start_def retry_context_new_def retry_policy_default_def
        continuation_new_def stall_detector_new_def)

lemma backoff_le:
  assumes "0 \<le> r" "r < 1" "n \<in> {1, 2}"
  shows "compute_backoff r n retry_policy_default \<le> (if n = 1 then 5 else 10)"
proof -
  have "r / 2 + 1 / 2 \<le> 1" using assms by simp
  with assms show ?thesis
    by (auto simp: compute_backoff_def retry_policy_default_def two_powi_def)
qed

lemma should_retry_step:
  "still_running s \<Longrightarrow> should_retry (record_failure Transient b (ls_retry s))
     \<longleftrightarrow> length (sleeps (ls_effects s)) < 2"
  by (auto simp: should_retry_def record_failure_def still_running_def)

lemma handle_error_retries:
  assumes "still_running s" "classify_failure m = Transient" "length (sleeps (ls_effects s)) < 2"
  obtains r k d where "attempt r = attempt (ls_retry s) + 1"
    "rc_max_attempts r = rc_max_attempts (ls_retry s)"
    "max_stall_retries d = max_stall_retries (ls_stall s)" "stall_count d = stall_count (ls_stall s)"
    "handle_error env px m s = (False, effect [LogRetry (attempt r) k (cumulative_backoff_secs r) m,
        Sleep (compute_backoff (px_random px) (attempt (ls_retry s) + 1) retry_policy_default)]
        (s\<lparr>ls_retry := r, ls_stall := d\<rparr>))"
proof -
  let ?k = "nat \<lfloor>compute_backoff (px_random px) (attempt (ls_retry s) + 1) retry_policy_default\<rfloor>"
  let ?r = "record_failure Transient ?k (ls_retry s)"
  let ?d = "detector_reset (px_after_sleep px) (ls_stall s)"
  have "handle_error env px m s = (False, effect [LogRetry (attempt ?r) ?k (cumulative_backoff_secs ?r) m,
        Sleep (compute_backoff (px_random px) (attempt (ls_retry s) + 1) retry_policy_default)]
        (s\<lparr>ls_retry := ?r, ls_stall := ?d\<rparr>))"
    using assms should_retry_step[OF assms(1), of ?k] by (simp add: handle_error_def Let_def)
  then show thesis
    by (intro that[of ?r ?d ?k]) (simp_all add: record_failure_def detector_reset_def)
qed

lemma handle_error_gives_up:
  assumes "still_running s" "classify_failure m \<noteq> Transient \<or> 2 \<le> length (sleeps (ls_effects s))"
  obtains r where
    "handle_error env px m s = (True, s\<lparr>ls_retry := r, ls_failed := True, ls_last_summary :=
       Some (redact_text (le_engine env) (le_redaction env) m (px_secrets px))\<rparr>)"
proof -
  have "\<not> (classify_failure m = Transient
      \<and> should_retry (record_failure (classify_failure m) k (ls_retry s)))" for k
    using assms should_retry_step[OF assms(1), of k] by auto
  then show thesis by (intro that) (auto simp: handle_error_def Let_def)
qed

lemma handle_error_inv:
  assumes h: "handle_error env px m s = (b, s')"
    and inv: "still_running s" "counters_kept s" "costs_recorded s"
    and r: "0 \<le> px_random px" "px_random px < 1"
  shows "counters_kept s' \<and> costs_recorded s' \<and> (\<not> b \<longrightarrow> still_running s')"
proof (cases "classify_failure m = Transient \<and> length (sleeps (ls_effects s)) < 2")
  case True
  let ?n = "attempt (ls_retry s) + 1"
  from True have n: "attempt (ls_retry s) = 0 \<and> sleeps (ls_effects s) = []
      \<or> attempt (ls_retry s) = 1 \<and> (\<exists>d. sleeps (ls_effects s) = [d])"
    using inv(1) by (auto simp: still_running_def less_Suc_eq numeral_2_eq_2 length_Suc_conv)
  then have "?n \<in> {1, 2}" by auto
  from backoff_le[OF r this] have le: "compute_backoff (px_random px) ?n retry_policy_default
      \<le> (if ?n = 1 then 5 else 10)" .
  obtain r k d where "attempt r = ?n" "rc_max_attempts r = rc_max_attempts (ls_retry s)"
    "max_stall_retries d = max_stall_retries (ls_stall s)" "stall_count d = stall_count (ls_stall s)"
    "handle_error env px m s = (False, effect [LogRetry (attempt r) k (cumulative_backoff_secs r) m,
        Sleep (compute_backoff (px_random px) ?n retry_policy_default)]
        (s\<lparr>ls_retry := r, ls_stall := d\<rparr>))"
    by (rule handle_error_retries[OF inv(1) conjunct1[OF True] conjunct2[OF True], of env px])
  with h inv n le show ?thesis by (auto simp: loop_inv_defs effect_def)
next
  case False
  then have "classify_failure m \<noteq> Transient \<or> 2 \<le> length (sleeps (ls_effects s))" by auto
  from handle_error_gives_up[OF inv(1) this, of env px] obtain r where
    "handle_error env px m s = (True, s\<lparr>ls_retry := r, ls_failed := True, ls_last_summary :=
       Some (redact_text (le_engine env) (le_redaction env) m (px_secrets px))\<rparr>)" .
  with inv h show ?thesis by (auto simp: loop_inv_defs)
qed

lemma stall_tick_inv:
  assumes "stall_tick px s = (b, s')" "still_running s" "counters_kept s" "costs_recorded s"
  shows "counters_kept s' \<and> costs_recorded s' \<and> (\<not> b \<longrightarrow> still_running s')"
  using assms
  by (auto simp: stall_tick_def Let_def loop_inv_defs increment_stall_count_def
        max_stalls_exceeded_def effect_def detector_reset_def split: if_splits)

lemma activity_inv:
  assumes "still_running s" "counters_kept s" "costs_recorded s"
  shows "still_running (note_activity t s)" "counters_kept (note_activity t s)"
    "costs_recorded (note_activity t s)"
  using assms by (simp_all add: loop_inv_defs note_activity_def effect_def record_activity_def)

lemma turn_cap_is_dead: "handle_turn r s = (False, s\<lparr>ls_continuation := record_turn r (ls_continuation s)\<rparr>)"
  using should_continue_below_limit by (auto simp: handle_turn_def Let_def not_le[symmetric])

lemma handle_event_inv:
  assumes ev: "handle_event env px ev s = Some (b, s')"
    and inv: "still_running s" "counters_kept s" "costs_recorded s"
    and r: "0 \<le> px_random px" "px_random px < 1"
  shows "counters_kept s' \<and> costs_recorded s' \<and> (\<not> b \<longrightarrow> still_running s')"
proof (cases ev)
  case (OutputChunk chunk)
  with ev inv show ?thesis
    by (auto simp: handle_output_def loop_inv_defs effect_def split: option.splits)
next
  case (AgentError m)
  with ev handle_error_inv[OF _ inv r] show ?thesis by simp
next
  case (TurnCompleted a b' c)
  with ev inv show ?thesis
    by (auto simp: turn_cap_is_dead loop_inv_defs record_turn_def)
next
  case (DynamicToolCall a b' c)
  with ev inv show ?thesis by (auto simp: loop_inv_defs effect_def split: prod.splits)
qed (use ev inv in \<open>auto simp: loop_inv_defs effect_def record_usage_def\<close>)

lemma loop_pass_inv:
  assumes "loop_pass env px inp s = Some (b, s')"
    and inv: "still_running s" "counters_kept s" "costs_recorded s"
    and r: "0 \<le> px_random px" "px_random px < 1"
  shows "counters_kept s' \<and> costs_recorded s' \<and> (\<not> b \<longrightarrow> still_running s')"
  using assms(1) handle_event_inv[OF _ activity_inv[OF inv] r] stall_tick_inv[OF _ inv] inv
  unfolding loop_pass_def
  by (auto split: loop_input.splits recv_result.splits)

definition randoms_ok :: "(pass_ctx \<times> loop_input) list \<Rightarrow> bool" where
  "randoms_ok xs = list_all (\<lambda>(px, _). 0 \<le> px_random px \<and> px_random px < 1) xs"

lemma event_loop_inv:
  assumes "event_loop env xs s = Some (b, s')" "randoms_ok xs"
    "still_running s" "counters_kept s" "costs_recorded s"
  shows "counters_kept s' \<and> costs_recorded s' \<and> (\<not> b \<longrightarrow> still_running s')"
  using assms
proof (induction env xs s rule: event_loop.induct)
  case (2 env px inp xs s)
  from "2.prems"(1) obtain b1 s1 where p: "loop_pass env px inp s = Some (b1, s1)"
    by (auto split: option.splits)
  from "2.prems"(2) have r: "0 \<le> px_random px" "px_random px < 1" "randoms_ok xs"
    by (simp_all add: randoms_ok_def)
  from loop_pass_inv[OF p "2.prems"(3-5) r(1,2)] have inv:
    "counters_kept s1" "costs_recorded s1" "\<not> b1 \<Longrightarrow> still_running s1" by simp_all
  show ?case
  proof (cases b1)
    case True
    with "2.prems"(1) p inv show ?thesis by simp
  next
    case False
    with "2.IH"[OF p, of False s1] "2.prems"(1) p inv r(3) show ?thesis by simp
  qed
qed simp

section \<open>How a run ends\<close>

definition run_end :: "loop_env \<Rightarrow> pass_ctx \<Rightarrow> loop_input \<Rightarrow> loop_state \<Rightarrow> loop_state \<Rightarrow> bool" where
  "run_end env px inp s0 s \<longleftrightarrow>
     (let red = (\<lambda>m. redact_text (le_engine env) (le_redaction env) m (px_secrets px)) in
      case inp of
        Recv (Received (AgentComplete summary)) \<Rightarrow>
          \<not> ls_failed s \<and> ls_last_summary s = Some (red summary)
      | Recv (Received (AgentError m)) \<Rightarrow>
          ls_failed s \<and> ls_last_summary s = Some (red m)
          \<and> (classify_failure m \<noteq> Transient \<or> length (sleeps (ls_effects s0)) = 2)
      | Recv (Received _) \<Rightarrow> False
      | Recv (Lagged _) \<Rightarrow> \<not> ls_failed s \<and> ls_last_summary s = None
      | Recv Closed \<Rightarrow> \<not> ls_failed s \<and> ls_last_summary s = None
      | StallTick \<Rightarrow>
          ls_failed s \<and> interrupts (ls_effects s0) = 1
          \<and> ls_last_summary s =
              Some ''agent stalled after 2 heartbeat timeout(s) with no activity'')"

lemma handle_event_end:
  assumes "handle_event env px ev s0 = Some (True, s)" "still_running s0" "counters_kept s0"
  shows "run_end env px (Recv (Received ev)) s0 s"
proof (cases ev)
  case (AgentError m)
  show ?thesis
  proof (cases "classify_failure m = Transient \<and> length (sleeps (ls_effects s0)) < 2")
    case True
    obtain r k d where "handle_error env px m s0 = (False, effect [LogRetry (attempt r) k
        (cumulative_backoff_secs r) m,
        Sleep (compute_backoff (px_random px) (attempt (ls_retry s0) + 1) retry_policy_default)]
        (s0\<lparr>ls_retry := r, ls_stall := d\<rparr>))"
      by (rule handle_error_retries[OF assms(2) conjunct1[OF True] conjunct2[OF True], of env px])
    with assms(1) AgentError show ?thesis by simp
  next
    case False
    then have "classify_failure m \<noteq> Transient \<or> 2 \<le> length (sleeps (ls_effects s0))" by auto
    from handle_error_gives_up[OF assms(2) this, of env px] obtain r where
      "handle_error env px m s0 = (True, s0\<lparr>ls_retry := r, ls_failed := True, ls_last_summary :=
         Some (redact_text (le_engine env) (le_redaction env) m (px_secrets px))\<rparr>)" .
    with assms AgentError False show ?thesis
      by (auto simp: run_end_def counters_kept_def)
  qed
next
  case (OutputChunk c)
  with assms(1) show ?thesis by (auto simp: handle_output_def split: option.splits)
next
  case (DynamicToolCall a b c)
  with assms(1) show ?thesis by (auto split: prod.splits)
qed (use assms in \<open>auto simp: run_end_def turn_cap_is_dead still_running_def Let_def\<close>)

lemma two_str: "nat_str (Suc (Suc 0)) = ''2''"
  by (simp add: nat_str.simps char_of_def bit_iff_odd)

lemma stall_tick_end:
  assumes "stall_tick px s0 = (True, s)" and inv: "still_running s0" "counters_kept s0"
  shows "ls_failed s \<and> interrupts (ls_effects s0) = 1
    \<and> ls_last_summary s = Some ''agent stalled after 2 heartbeat timeout(s) with no activity''"
proof -
  from assms have n: "interrupts (ls_effects s0) = 1" "stall_count (ls_stall s0) = 1"
    by (auto simp: stall_tick_def Let_def loop_inv_defs increment_stall_count_def
          max_stalls_exceeded_def split: if_splits)
  with assms(1) show ?thesis
    by (auto simp: stall_tick_def Let_def increment_stall_count_def effect_def two_str
          split: if_splits)
qed

lemma loop_pass_end:
  assumes p: "loop_pass env px inp s0 = Some (True, s)"
    and inv: "still_running s0" "counters_kept s0" "costs_recorded s0"
  shows "run_end env px inp s0 s"
proof (cases inp)
  case (Recv r)
  show ?thesis
  proof (cases r)
    case (Received ev)
    let ?s0 = "note_activity (px_now px) s0"
    from p Recv Received have "handle_event env px ev ?s0 = Some (True, s)"
      by (simp add: loop_pass_def)
    from handle_event_end[OF this] activity_inv[OF inv] have "run_end env px inp ?s0 s"
      by (simp add: Recv Received)
    then show ?thesis
      by (simp add: run_end_def Recv Received note_activity_def effect_def Let_def
            split: agent_event.splits)
  qed (use p inv Recv in \<open>auto simp: loop_pass_def run_end_def still_running_def\<close>)
next
  case StallTick
  with p have "stall_tick px s0 = (True, s)" by (simp add: loop_pass_def)
  from stall_tick_end[OF this inv(1,2)] StallTick show ?thesis by (simp add: run_end_def)
qed

lemma event_loop_last_pass:
  assumes "event_loop env xs s0 = Some (True, s)"
  obtains ys px inp zs s1 where "xs = ys @ (px, inp) # zs" "event_loop env ys s0 = Some (False, s1)"
    "loop_pass env px inp s1 = Some (True, s)"
  using assms
proof (induction env xs s0 arbitrary: thesis rule: event_loop.induct)
  case (2 env px inp xs s0)
  from "2.prems"(2) obtain b s1 where p: "loop_pass env px inp s0 = Some (b, s1)"
    by (auto split: option.splits)
  show ?case
  proof (cases b)
    case True
    with "2.prems"(2) p have "s1 = s" by simp
    with True p show ?thesis by (intro "2.prems"(1)[of "[]" px inp xs s0]) simp_all
  next
    case False
    with "2.prems"(2) p have "event_loop env xs s1 = Some (True, s)" by simp
    from "2.IH"[OF p, of False s1 thesis] False this show ?thesis
      using "2.prems"(1)[of "(px, inp) # ys" for ys] p by force
  qed
qed simp


definition quiet_ctx :: pass_ctx where
  "quiet_ctx = \<lparr>px_now = 0, px_secrets = [], px_random = 0, px_after_sleep = 0, px_run_id = None\<rparr>"

definition quiet_env :: loop_env where
  "quiet_env = \<lparr>le_engine = never_engine, le_redaction = runtime_default, le_has_tracker = False,
     le_tool = (\<lambda>_ _ _ _. JNull)\<rparr>"

definition busy_run :: "(pass_ctx \<times> loop_input) list" where
  "busy_run = map (Pair quiet_ctx)
     [Recv (Received (UsageUpdate 10 20 (1 / 2))), Recv (Received (AgentError ''timed out'')),
      Recv (Received (TurnCompleted ''t1'' ''th'' ''tool_use'')), Recv (Lagged 7)]"


text \<open>The turn limit is never applied: any number of turns leaves the loop running.\<close>

lemma turns_never_end_run:
  "\<exists>s'. event_loop env (replicate n (px, Recv (Received (TurnCompleted a b r)))) s = Some (False, s')
        \<and> turn_count (ls_continuation s') = turn_count (ls_continuation s) + n"
proof (induction n arbitrary: s)
  case (Suc n)
  let ?s1 = "note_activity (px_now px) s"
  from Suc[of "?s1\<lparr>ls_continuation := record_turn r (ls_continuation ?s1)\<rparr>"] show ?case
    by (simp add: loop_pass_def turn_cap_is_dead record_turn_def note_activity_def effect_def)
qed simp

text \<open>
  A run that loses events counts as done. When the receiver falls behind the event
  channel, whatever the agent is doing, the loop ends, and it ends as a success.
\<close>

theorem lagging_run_ends_as_success:
  assumes "event_loop env ys (loop_start t tid) = Some (False, s)" "randoms_ok ys"
  shows "event_loop env (ys @ (px, Recv (Lagged n)) # zs) (loop_start t tid) = Some (True, s)
         \<and> \<not> ls_failed s \<and> ls_last_summary s = None"
proof -
  have "event_loop env (ys @ xs) s0 = event_loop env xs s1"
    if "event_loop env ys s0 = Some (False, s1)" for xs s0 s1
    using that
    by (induction env ys s0 rule: event_loop.induct)
       (auto split: option.splits bool.splits)
  with assms event_loop_inv[OF assms loop_start_inv] show ?thesis
    by (simp add: loop_pass_def still_running_def)
qed

lemma lagging_run_ends_as_success_witness:
  "event_loop quiet_env [(quiet_ctx, Recv (Received (ToolUse ''sh'' [] []))),
      (quiet_ctx, Recv (Lagged 3))] (loop_start 0 None) \<noteq> None"
proof -
  let ?ys = "[(quiet_ctx, Recv (Received (ToolUse ''sh'' [] [])))]"
  obtain s where "event_loop quiet_env ?ys (loop_start 0 None) = Some (False, s)"
    by (simp add: loop_pass_def Let_def)
  moreover have "randoms_ok ?ys" by (simp add: randoms_ok_def quiet_ctx_def)
  ultimately show ?thesis
    using lagging_run_ends_as_success[of quiet_env ?ys 0 None s quiet_ctx 3 "[]"] by simp
qed

end
