(* ===== verification/Task_Rows.thy ===== *)
theory Task_Rows
  imports Task Task_Store
begin

text \<open>
  The conversions between task rows and task contracts (\<open>task_row_to_contract\<close>,
  \<open>task_contract_to_row\<close>, \<open>task_row_to_view\<close> and the parsers they use, all of
  \<open>pnevma-commands/src/commands/mod.rs\<close>). JSON text and the textual form of UUIDs belong to
  \<open>serde_json\<close> and \<open>uuid\<close>: they are the fields of \<open>serde\<close>, and \<open>serde_laws\<close> states their
  documented round trips.
\<close>

record serde =
  strs_of_json :: "string \<Rightarrow> string + string list"
  json_of_strs :: "string list \<Rightarrow> string"
  checks_of_json :: "string \<Rightarrow> string + check list"
  json_of_checks :: "check list \<Rightarrow> string"
  parse_uuid :: "string \<Rightarrow> string + uuid"
  show_uuid :: "uuid \<Rightarrow> string"

definition serde_laws :: "serde \<Rightarrow> bool" where
  "serde_laws sd \<longleftrightarrow>
     (\<forall>xs. strs_of_json sd (json_of_strs sd xs) = Ok xs)
     \<and> (\<forall>cs. checks_of_json sd (json_of_checks sd cs) = Ok cs)
     \<and> (\<forall>i. parse_uuid sd (show_uuid sd i) = Ok i)"

definition ok_of :: "'e + 'a \<Rightarrow> 'a option" where
  "ok_of r = (case r of Inl _ \<Rightarrow> None | Inr x \<Rightarrow> Some x)"

lemma ok_of_simps [simp]: "ok_of (Ok x) = Some x" "ok_of (Err e) = None"
  by (simp_all add: ok_of_def)

lemma ok_of_Some [simp]: "ok_of r = Some x \<longleftrightarrow> r = Ok x"
  by (cases r) simp_all

lemma filter_map_show [simp]:
  "serde_laws sd \<Longrightarrow> List.map_filter (ok_of \<circ> parse_uuid sd) (map (show_uuid sd) ids) = ids"
  by (induction ids) (simp_all add: List.map_filter_simps serde_laws_def)

section \<open>Enumerations with a fallback\<close>

definition map_priority :: "string \<Rightarrow> priority" where
  "map_priority p = (case priority_from_str p of Inr x \<Rightarrow> x | Inl _ \<Rightarrow> P3)"

definition parse_status :: "string \<Rightarrow> task_status" where
  "parse_status s = (case task_status_from_str s of Inr x \<Rightarrow> x | Inl _ \<Rightarrow> Planned)"

definition status_to_str :: "task_status \<Rightarrow> string" where
  "status_to_str s = task_status_str s"

definition map_priority_str :: "priority \<Rightarrow> string" where
  "map_priority_str p = priority_str p"

text \<open>\<open>ExecutionMode\<close> is written by serde in snake case.\<close>

definition parse_execution_mode :: "string \<Rightarrow> execution_mode option" where
  "parse_execution_mode s =
     (if s = ''worktree'' then Some Worktree else if s = ''main'' then Some MainMode else None)"

fun show_execution_mode :: "execution_mode \<Rightarrow> string" where
  "show_execution_mode Worktree = ''worktree''"
| "show_execution_mode MainMode = ''main''"

lemma parse_status_roundtrip [simp]: "parse_status (status_to_str s) = s"
  by (cases s) (simp_all add: parse_status_def status_to_str_def task_status_from_str_def)

lemma map_priority_roundtrip [simp]: "map_priority (map_priority_str p) = p"
  by (cases p) (simp_all add: map_priority_def map_priority_str_def priority_from_str_def)

lemma execution_mode_roundtrip [simp]: "parse_execution_mode (show_execution_mode m) = Some m"
  by (cases m) (simp_all add: parse_execution_mode_def)

section \<open>Rows and contracts\<close>

definition row_payload ::
  "serde \<Rightarrow> task_row \<Rightarrow> string + (string list \<times> string list \<times> check list \<times> string list)" where
  "row_payload sd row =
     (case strs_of_json sd (tk_scope_json row) of Inl e \<Rightarrow> Err e | Inr scp \<Rightarrow>
      case strs_of_json sd (tk_dependencies_json row) of Inl e \<Rightarrow> Err e | Inr deps \<Rightarrow>
      case checks_of_json sd (tk_acceptance_json row) of Inl e \<Rightarrow> Err e | Inr crit \<Rightarrow>
      case strs_of_json sd (tk_constraints_json row) of Inl e \<Rightarrow> Err e | Inr cons \<Rightarrow>
        Ok (scp, deps, crit, cons))"

definition task_row_to_contract :: "serde \<Rightarrow> task_row \<Rightarrow> string + unit task_contract" where
  "task_row_to_contract sd row =
     (case row_payload sd row of Inl e \<Rightarrow> Err e | Inr (scp, deps, crit, cons) \<Rightarrow>
      case parse_uuid sd (tk_id row) of Inl e \<Rightarrow> Err e | Inr i \<Rightarrow>
        Ok \<lparr>task_uuid = i, title = tk_title row, goal = tk_goal row, scope = scp,
            out_of_scope = [], dependencies = List.map_filter (ok_of \<circ> parse_uuid sd) deps,
            acceptance_criteria = crit, constraints = cons,
            priority = map_priority (tk_priority row), status = parse_status (tk_status row),
            assigned_session = None, branch = tk_branch row, worktree = tk_worktree_id row,
            prompt_pack = None, handoff_summary = tk_handoff_summary row,
            auto_dispatch = tk_auto_dispatch row,
            agent_profile_override = tk_agent_profile_override row,
            execution_mode = Option.bind (tk_execution_mode row) parse_execution_mode,
            timeout_minutes = map_option word_of_int (tk_timeout_minutes row),
            max_retries = tk_max_retries row,
            loop_iteration = word_of_int (tk_loop_iteration row),
            loop_context_json = tk_loop_context_json row, external_source = None,
            created_at = tk_created_at row, updated_at = tk_updated_at row\<rparr>)"

definition task_contract_to_row :: "serde \<Rightarrow> unit task_contract \<Rightarrow> string \<Rightarrow> task_row" where
  "task_contract_to_row sd task project_id =
     \<lparr>tk_id = show_uuid sd (task_uuid task), tk_project_id = project_id, tk_title = title task,
      tk_goal = goal task, tk_scope_json = json_of_strs sd (scope task),
      tk_dependencies_json = json_of_strs sd (map (show_uuid sd) (dependencies task)),
      tk_acceptance_json = json_of_checks sd (acceptance_criteria task),
      tk_constraints_json = json_of_strs sd (constraints task),
      tk_priority = map_priority_str (priority task), tk_status = status_to_str (status task),
      tk_branch = branch task, tk_worktree_id = worktree task,
      tk_handoff_summary = handoff_summary task, tk_created_at = created_at task,
      tk_updated_at = updated_at task, tk_auto_dispatch = auto_dispatch task,
      tk_agent_profile_override = agent_profile_override task,
      tk_execution_mode = map_option show_execution_mode (execution_mode task),
      tk_timeout_minutes = map_option uint (timeout_minutes task),
      tk_max_retries = max_retries task, tk_loop_iteration = uint (loop_iteration task),
      tk_loop_context_json = loop_context_json task, tk_forked_from_task_id = None,
      tk_lineage_summary = None, tk_lineage_depth = 0\<rparr>"

record 'c task_view =
  tv_id :: string
  tv_project_id :: string
  tv_title :: string
  tv_goal :: string
  tv_scope :: "string list"
  tv_dependencies :: "string list"
  tv_acceptance_criteria :: "check list"
  tv_constraints :: "string list"
  tv_priority :: string
  tv_status :: string
  tv_branch :: "string option"
  tv_worktree_id :: "string option"
  tv_handoff_summary :: "string option"
  tv_auto_dispatch :: bool
  tv_agent_profile_override :: "string option"
  tv_execution_mode :: "string option"
  tv_timeout_minutes :: "int option"
  tv_max_retries :: "int option"
  tv_created_at :: time
  tv_updated_at :: time
  tv_cost_usd :: "'c option"

definition task_row_to_view :: "serde \<Rightarrow> task_row \<Rightarrow> 'c option \<Rightarrow> string + 'c task_view" where
  "task_row_to_view sd row cost_usd =
     (case row_payload sd row of Inl e \<Rightarrow> Err e | Inr (scp, deps, crit, cons) \<Rightarrow>
        Ok \<lparr>tv_id = tk_id row, tv_project_id = tk_project_id row, tv_title = tk_title row,
            tv_goal = tk_goal row, tv_scope = scp, tv_dependencies = deps,
            tv_acceptance_criteria = crit, tv_constraints = cons,
            tv_priority = tk_priority row, tv_status = tk_status row, tv_branch = tk_branch row,
            tv_worktree_id = tk_worktree_id row, tv_handoff_summary = tk_handoff_summary row,
            tv_auto_dispatch = tk_auto_dispatch row,
            tv_agent_profile_override = tk_agent_profile_override row,
            tv_execution_mode = tk_execution_mode row,
            tv_timeout_minutes = tk_timeout_minutes row, tv_max_retries = tk_max_retries row,
            tv_created_at = tk_created_at row, tv_updated_at = tk_updated_at row,
            tv_cost_usd = cost_usd\<rparr>)"

section \<open>What the conversions keep\<close>

definition storable :: "unit task_contract \<Rightarrow> bool" where
  "storable t \<longleftrightarrow> out_of_scope t = [] \<and> assigned_session t = None \<and> prompt_pack t = None
     \<and> external_source t = None"

text \<open>A contract that uses none of the fields without a column survives the round trip.\<close>

lemma contract_row_roundtrip:
  assumes "serde_laws sd" "storable t"
  shows "task_row_to_contract sd (task_contract_to_row sd t p) = Ok t"
proof -
  have "map_option word_of_int (map_option uint n) = n" for n :: "u32 option"
    by (cases n) simp_all
  moreover have "Option.bind (map_option show_execution_mode m) parse_execution_mode = m" for m
    by (cases m) simp_all
  ultimately show ?thesis
    using assms filter_map_show[OF assms(1)]
    by (simp add: task_row_to_contract_def task_contract_to_row_def row_payload_def
          serde_laws_def storable_def)
qed

text \<open>
  In the other direction the lineage columns are lost, and with the statement that writes
  all columns so they are in the table: converting a row, changing its status and storing it
  erases where the task was forked from.
\<close>

lemma contract_erases_lineage:
  assumes "get_task (show_uuid sd (task_uuid t)) db = Some row"
    "r \<in> set (db_tasks (update_task (task_contract_to_row sd t p) db))"
    "tk_id r = tk_id row"
  shows "tk_forked_from_task_id r = None \<and> tk_lineage_summary r = None \<and> tk_lineage_depth r = 0"
proof -
  from assms(1) have "tk_id row = show_uuid sd (task_uuid t)"
    by (auto simp: get_task_def find_Some_iff)
  with assms(2,3) show ?thesis
    by (auto simp: update_task_def overwrite_row_def task_contract_to_row_def split: if_splits)
qed

section \<open>An encoding with the documented laws\<close>

text \<open>
  Texts are escaped character by character and closed by \<open>n\<close>; an identifier is written in
  unary. The witnesses of properties that assume \<open>serde_laws\<close> use it.
\<close>

definition esc_text :: "string \<Rightarrow> string" where
  "esc_text s = concat (map (\<lambda>c. [CHR ''c'', c]) s) @ ''n''"

fun unesc_texts :: "string \<Rightarrow> string list" where
  "unesc_texts [] = []"
| "unesc_texts [c] = [[]]"
| "unesc_texts (c # x # s) =
     (if c = CHR ''n'' then [] # unesc_texts (x # s)
      else case unesc_texts s of [] \<Rightarrow> [[x]] | w # ws \<Rightarrow> (x # w) # ws)"

lemma unesc_step: "unesc_texts (esc_text s @ rest) = s # unesc_texts rest"
proof (induction s)
  case Nil
  show ?case by (cases rest) (simp_all add: esc_text_def)
next
  case (Cons c s)
  then show ?case by (simp add: esc_text_def)
qed

lemma unesc_texts_concat: "unesc_texts (concat (map esc_text xs)) = xs"
  by (induction xs) (simp_all add: unesc_step)

fun check_texts :: "check \<Rightarrow> string list" where
  "check_texts c =
     [description c,
      (case check_type c of TestCommand \<Rightarrow> ''t'' | FileExists \<Rightarrow> ''f'' | ManualApproval \<Rightarrow> ''m''),
      (case command c of None \<Rightarrow> [] | Some x \<Rightarrow> CHR ''s'' # x)]"

fun texts_check :: "string list \<Rightarrow> check list" where
  "texts_check (d # t # m # r) =
     \<lparr>description = d,
      check_type = (if t = ''t'' then TestCommand else if t = ''f'' then FileExists else ManualApproval),
      command = (case m of [] \<Rightarrow> None | _ # x \<Rightarrow> Some x)\<rparr> # texts_check r"
| "texts_check _ = []"

lemma texts_check_concat: "texts_check (concat (map check_texts cs)) = cs"
  by (induction cs) (auto split: check_type.split option.split)

definition plain_serde :: serde where
  "plain_serde =
     \<lparr>strs_of_json = (\<lambda>s. Ok (unesc_texts s)), json_of_strs = (\<lambda>xs. concat (map esc_text xs)),
      checks_of_json = (\<lambda>s. Ok (texts_check (unesc_texts s))),
      json_of_checks = (\<lambda>cs. concat (map esc_text (concat (map check_texts cs)))),
      parse_uuid = (\<lambda>s. Ok (of_nat (length s))), show_uuid = (\<lambda>i. replicate (unat i) CHR ''x'')\<rparr>"

lemma plain_serde_laws: "serde_laws plain_serde"
  by (simp add: serde_laws_def plain_serde_def unesc_texts_concat texts_check_concat)

end
