(* ===== verification/Task_Deps.thy ===== *)
theory Task_Deps
  imports Task_Rows
begin

text \<open>
  Dependencies between tasks (\<open>pnevma-commands/src/commands/mod.rs\<close>): parsing the
  identifiers, the check that an edit names existing tasks and closes no cycle, and the pass
  that blocks and unblocks tasks when one completes. The graph of the check is an
  association list from task to dependencies; a hash set is a set. An error message that
  only wraps a database or parse error is the wrapped string.
\<close>

fun parse_ids :: "serde \<Rightarrow> uuid set \<Rightarrow> string list \<Rightarrow> string + uuid list" where
  "parse_ids sd seen [] = Ok []"
| "parse_ids sd seen (item # raw) =
     (case parse_uuid sd item of
        Inl _ \<Rightarrow> Err (''invalid dependency id: '' @ item)
      | Inr i \<Rightarrow>
          (case parse_ids sd (insert i seen) raw of
             Inl e \<Rightarrow> Err e
           | Inr out \<Rightarrow> Ok (if i \<in> seen then out else i # out)))"

definition parse_dependency_ids :: "serde \<Rightarrow> string list \<Rightarrow> string + uuid list" where
  "parse_dependency_ids sd raw = parse_ids sd {} raw"

definition parse_row_dependency_ids :: "serde \<Rightarrow> task_row \<Rightarrow> uuid list" where
  "parse_row_dependency_ids sd row =
     (case strs_of_json sd (tk_dependencies_json row) of
        Inl _ \<Rightarrow> []
      | Inr deps \<Rightarrow> List.map_filter (ok_of \<circ> parse_uuid sd) deps)"

section \<open>The cycle check\<close>

type_synonym dep_graph = "(uuid \<times> uuid list) list"

text \<open>
  The loop over the stack, whose top is the head of the list; \<open>extend\<close> puts the last
  successor on top. It returns whether it popped the target.
\<close>

function reaches :: "dep_graph \<Rightarrow> uuid \<Rightarrow> uuid set \<Rightarrow> uuid list \<Rightarrow> bool" where
  "reaches g target visited [] = False"
| "reaches g target visited (node # stack) =
     (if node = target then True
      else if node \<in> visited then reaches g target visited stack
      else reaches g target (insert node visited)
             (case map_of g node of None \<Rightarrow> stack | Some nxt \<Rightarrow> rev nxt @ stack))"
  by pat_completeness auto
termination
proof (relation "measures [\<lambda>(g, _, visited, _). card (fst ` set g - visited),
                           \<lambda>(_, _, _, stack). length stack]")
  fix g :: dep_graph and target node :: uuid and visited :: "uuid set" and stack :: "uuid list"
  assume "node \<noteq> target" "node \<notin> visited"
  show "((g, target, insert node visited,
          case map_of g node of None \<Rightarrow> stack | Some nxt \<Rightarrow> rev nxt @ stack),
         g, target, visited, node # stack)
        \<in> measures [\<lambda>(g, _, visited, _). card (fst ` set g - visited),
                     \<lambda>(_, _, _, stack). length stack]"
  proof (cases "map_of g node")
    case None
    then have "fst ` set g - insert node visited = fst ` set g - visited"
      by (auto simp: map_of_eq_None_iff)
    with None show ?thesis by simp
  next
    case (Some nxt)
    then have "node \<in> fst ` set g - visited"
      using \<open>node \<notin> visited\<close> by (force dest: map_of_SomeD)
    then have "fst ` set g - insert node visited \<subset> fst ` set g - visited" by auto
    then have "card (fst ` set g - insert node visited) < card (fst ` set g - visited)"
      by (intro psubset_card_mono) auto
    with Some show ?thesis by simp
  qed
qed auto

datatype dep_error =
    SelfDependency
  | DependencyMissing uuid
  | DependencyCycle uuid uuid

text \<open>A later \<open>insert\<close> into the map replaces an earlier one, so the list is built in reverse.\<close>

definition stored_graph :: "serde \<Rightarrow> task_row list \<Rightarrow> dep_graph" where
  "stored_graph sd rows =
     rev (List.map_filter (\<lambda>row. map_option (\<lambda>i. (i, parse_row_dependency_ids sd row))
                             (ok_of (parse_uuid sd (tk_id row)))) rows)"

definition dep_graph :: "serde \<Rightarrow> task_row list \<Rightarrow> uuid \<Rightarrow> uuid list \<Rightarrow> dep_graph" where
  "dep_graph sd rows task_id deps = (task_id, deps) # stored_graph sd rows"

definition validate_task_dependencies ::
  "serde \<Rightarrow> string \<Rightarrow> uuid \<Rightarrow> uuid list \<Rightarrow> task_db \<Rightarrow> dep_error + unit" where
  "validate_task_dependencies sd project_id task_id deps db =
     (if task_id \<in> set deps then Err SelfDependency
      else let rows = list_tasks project_id db;
               ids = insert task_id
                       (set (List.map_filter (ok_of \<circ> parse_uuid sd \<circ> tk_id) rows))
        in case find (\<lambda>dep. dep \<notin> ids) deps of
             Some dep \<Rightarrow> Err (DependencyMissing dep)
           | None \<Rightarrow>
               (case find (\<lambda>dep. reaches (dep_graph sd rows task_id deps) task_id {} [dep]) deps of
                  Some dep \<Rightarrow> Err (DependencyCycle task_id dep)
                | None \<Rightarrow> Ok ()))"

section \<open>The check is exact\<close>

definition edge :: "dep_graph \<Rightarrow> uuid \<Rightarrow> uuid \<Rightarrow> bool" where
  "edge g a b \<longleftrightarrow> (\<exists>nxt. map_of g a = Some nxt \<and> b \<in> set nxt)"

lemma reaches_sound:
  "reaches g t visited stack \<Longrightarrow> \<exists>s\<in>set stack. (edge g)\<^sup>*\<^sup>* s t"
proof (induction g t visited stack rule: reaches.induct)
  case (2 g target visited node stack)
  show ?case
  proof (cases "node = target \<or> node \<in> visited")
    case True
    show ?thesis
    proof (cases "node = target")
      case False
      with True "2.prems" have "reaches g target visited stack" by simp
      with "2.IH"(1)[OF False _ this] True False show ?thesis by (meson list.set_intros(2))
    qed (meson list.set_intros(1) rtranclp.rtrancl_refl)
  next
    case False
    with "2.prems" have "reaches g target (insert node visited)
        (case map_of g node of None \<Rightarrow> stack | Some nxt \<Rightarrow> rev nxt @ stack)" by simp
    with "2.IH"(2) False obtain s where s: "(edge g)\<^sup>*\<^sup>* s target"
      "s \<in> set (case map_of g node of None \<Rightarrow> stack | Some nxt \<Rightarrow> rev nxt @ stack)" by blast
    then consider "s \<in> set stack" | "edge g node s"
      by (auto simp: edge_def split: option.splits)
    then show ?thesis using s(1) by cases (auto intro: converse_rtranclp_into_rtranclp)
  qed
qed simp

definition closed_under :: "dep_graph \<Rightarrow> uuid set \<Rightarrow> uuid set \<Rightarrow> bool" where
  "closed_under g V W \<longleftrightarrow> (\<forall>a\<in>V. \<forall>b. edge g a b \<longrightarrow> b \<in> W)"

lemma reaches_complete:
  "\<not> reaches g t visited stack \<Longrightarrow> closed_under g visited (visited \<union> set stack) \<Longrightarrow> t \<notin> visited
     \<Longrightarrow> \<exists>W. visited \<union> set stack \<subseteq> W \<and> t \<notin> W \<and> closed_under g W W"
proof (induction g t visited stack rule: reaches.induct)
  case (1 g target visited)
  then show ?case by (intro exI[of _ visited]) simp
next
  case (2 g target visited node stack)
  from "2.prems"(1) have nt: "node \<noteq> target" by auto
  show ?case
  proof (cases "node \<in> visited")
    case True
    from "2.prems"(1) nt True have "\<not> reaches g target visited stack" by simp
    moreover from "2.prems"(2) True have "closed_under g visited (visited \<union> set stack)"
      by (simp add: insert_absorb)
    ultimately have "\<exists>W. visited \<union> set stack \<subseteq> W \<and> target \<notin> W \<and> closed_under g W W"
      using "2.IH"(1)[OF nt True] "2.prems"(3) by simp
    with True show ?thesis by (simp add: insert_absorb)
  next
    case False
    let ?nxt = "case map_of g node of None \<Rightarrow> stack | Some nxt \<Rightarrow> rev nxt @ stack"
    have "set stack \<subseteq> set ?nxt" by (auto split: option.split)
    from "2.prems"(1) nt False have "\<not> reaches g target (insert node visited) ?nxt" by simp
    moreover have "closed_under g (insert node visited) (insert node visited \<union> set ?nxt)"
      using "2.prems"(2) by (fastforce simp: closed_under_def edge_def split: option.splits)
    moreover have "target \<notin> insert node visited" using nt "2.prems"(3) by auto
    ultimately have
      "\<exists>W. insert node visited \<union> set ?nxt \<subseteq> W \<and> target \<notin> W \<and> closed_under g W W"
      using "2.IH"(2)[OF nt False] by simp
    with \<open>set stack \<subseteq> set ?nxt\<close> show ?thesis by auto
  qed
qed

lemma reaches_exact: "reaches g t {} [dep] \<longleftrightarrow> (edge g)\<^sup>*\<^sup>* dep t"
proof
  assume "reaches g t {} [dep]"
  from reaches_sound[OF this] show "(edge g)\<^sup>*\<^sup>* dep t" by simp
next
  assume path: "(edge g)\<^sup>*\<^sup>* dep t"
  show "reaches g t {} [dep]"
  proof (rule ccontr)
    assume "\<not> reaches g t {} [dep]"
    then obtain W where W: "dep \<in> W" "t \<notin> W" "closed_under g W W"
      using reaches_complete[of g t "{}" "[dep]"] by (auto simp: closed_under_def)
    from path W(1) have "t \<in> W"
      by (induction rule: rtranclp_induct) (use W(3) in \<open>auto simp: closed_under_def\<close>)
    with W(2) show False by blast
  qed
qed

definition acyclic_graph :: "dep_graph \<Rightarrow> bool" where
  "acyclic_graph g \<longleftrightarrow> (\<forall>x. \<not> (edge g)\<^sup>+\<^sup>+ x x)"

lemma edge_new: "edge ((t, deps) # g) a b \<longleftrightarrow> (if a = t then b \<in> set deps else edge g a b)"
  by (auto simp: edge_def)

lemma path_in_new_graph:
  "(edge ((t, deps) # g))\<^sup>+\<^sup>+ x y \<Longrightarrow>
     (edge g)\<^sup>+\<^sup>+ x y
     \<or> (edge ((t, deps) # g))\<^sup>*\<^sup>* x t \<and> (edge ((t, deps) # g))\<^sup>+\<^sup>+ t y"
proof (induction rule: tranclp_induct)
  case (base y)
  then show ?case by (cases "x = t") (auto simp: edge_new)
next
  case (step y z)
  show ?case
  proof (cases "y = t")
    case True
    with step(1,2) show ?thesis by (auto dest: tranclp_into_rtranclp)
  next
    case False
    with step(2) have "edge g y z" by (simp add: edge_new)
    with step(2,3) show ?thesis by (auto intro: tranclp.trancl_into_trancl)
  qed
qed

lemma new_graph_acyclic_iff:
  assumes "acyclic_graph g"
  shows "acyclic_graph ((t, deps) # g)
           \<longleftrightarrow> (\<forall>dep\<in>set deps. \<not> (edge ((t, deps) # g))\<^sup>*\<^sup>* dep t)"
proof
  assume "acyclic_graph ((t, deps) # g)"
  moreover have "edge ((t, deps) # g) t dep" if "dep \<in> set deps" for dep
    using that by (simp add: edge_new)
  ultimately show "\<forall>dep\<in>set deps. \<not> (edge ((t, deps) # g))\<^sup>*\<^sup>* dep t"
    unfolding acyclic_graph_def by (meson rtranclp_into_tranclp2)
next
  assume none: "\<forall>dep\<in>set deps. \<not> (edge ((t, deps) # g))\<^sup>*\<^sup>* dep t"
  have "\<not> (edge ((t, deps) # g))\<^sup>+\<^sup>+ x x" for x
  proof
    assume "(edge ((t, deps) # g))\<^sup>+\<^sup>+ x x"
    moreover have "\<not> (edge g)\<^sup>+\<^sup>+ x x" using assms by (simp add: acyclic_graph_def)
    ultimately have loop: "(edge ((t, deps) # g))\<^sup>+\<^sup>+ t x" "(edge ((t, deps) # g))\<^sup>*\<^sup>* x t"
      using path_in_new_graph by blast+
    from tranclpD[OF loop(1)] obtain dep where
      "edge ((t, deps) # g) t dep" "(edge ((t, deps) # g))\<^sup>*\<^sup>* dep x" by blast
    with rtranclp_trans[OF _ loop(2)]
    have "edge ((t, deps) # g) t dep" "(edge ((t, deps) # g))\<^sup>*\<^sup>* dep t" by blast+
    with none show False by (simp add: edge_new)
  qed
  then show "acyclic_graph ((t, deps) # g)" by (simp add: acyclic_graph_def)
qed

definition project_task_ids :: "serde \<Rightarrow> string \<Rightarrow> task_db \<Rightarrow> uuid set" where
  "project_task_ids sd project_id db =
     set (List.map_filter (ok_of \<circ> parse_uuid sd \<circ> tk_id) (list_tasks project_id db))"

lemma find_Some_mem: "find P xs = Some x \<Longrightarrow> x \<in> set xs \<and> P x"
  by (auto simp: find_Some_iff)

text \<open>
  C1. The dependency check is exact. When the stored dependencies of the project have no
  cycle, an edit of the dependencies of a task is accepted if and only if the task is not
  among them, all of them are tasks of the project, and the graph with the edit has no cycle
  either. The search always ends: it is a total function.
\<close>

theorem dependency_check_exact:
  assumes "acyclic_graph (stored_graph sd (list_tasks project_id db))"
  shows "validate_task_dependencies sd project_id task_id deps db = Ok ()
         \<longleftrightarrow> task_id \<notin> set deps
             \<and> set deps \<subseteq> project_task_ids sd project_id db
             \<and> acyclic_graph (dep_graph sd (list_tasks project_id db) task_id deps)"
  unfolding dep_graph_def new_graph_acyclic_iff[OF assms] validate_task_dependencies_def
    project_task_ids_def Let_def reaches_exact
  by (auto simp: find_None_iff subset_iff split: option.splits dest!: find_Some_mem)

text \<open>Task 1 depends on task 2.\<close>

definition chain_row :: "nat \<Rightarrow> time \<Rightarrow> string \<Rightarrow> nat list \<Rightarrow> task_row" where
  "chain_row i created st deps =
     (sample_row (replicate i CHR ''x'') created st)
       \<lparr>tk_scope_json := [], tk_acceptance_json := [], tk_constraints_json := [],
        tk_dependencies_json := concat (map (\<lambda>d. esc_text (replicate d CHR ''x'')) deps)\<rparr>"

definition chain_db :: task_db where
  "chain_db = empty_db\<lparr>db_tasks := [chain_row 1 2 ''Ready'' [2], chain_row 2 1 ''Ready'' []],
     db_deps := [(''x'', ''xx'')]\<rparr>"

lemma chain_tasks: "list_tasks ''p'' chain_db = [chain_row 1 2 ''Ready'' [2], chain_row 2 1 ''Ready'' []]"
  by (simp add: list_tasks_def chain_db_def empty_db_def chain_row_def sample_row_def)

lemma chain_graph: "stored_graph plain_serde (list_tasks ''p'' chain_db) = [(2, []), (1, [2])]"
  by (simp add: chain_tasks stored_graph_def chain_row_def sample_row_def plain_serde_def
        parse_row_dependency_ids_def List.map_filter_simps esc_text_def numeral_2_eq_2)

lemma dependency_check_exact_witness:
  "acyclic_graph (stored_graph plain_serde (list_tasks ''p'' chain_db))
   \<and> (validate_task_dependencies plain_serde ''p'' 2 [1] chain_db = Ok ()
      \<longleftrightarrow> (2 :: uuid) \<notin> set [1] \<and> set [1] \<subseteq> project_task_ids plain_serde ''p'' chain_db
          \<and> acyclic_graph (dep_graph plain_serde (list_tasks ''p'' chain_db) 2 [1]))
   \<and> validate_task_dependencies plain_serde ''p'' 2 [1] chain_db = Err (DependencyCycle 2 1)"
proof -
  let ?g = "stored_graph plain_serde (list_tasks ''p'' chain_db)"
  have up: "edge ?g x y \<Longrightarrow> x < y" for x y
    unfolding chain_graph by (auto simp: edge_def split: if_splits)
  have "(edge ?g)\<^sup>+\<^sup>+ x y \<Longrightarrow> x < y" for x y
    by (induction rule: tranclp_induct) (auto intro: less_trans up)
  then have ac: "acyclic_graph ?g" by (auto simp: acyclic_graph_def)
  have "validate_task_dependencies plain_serde ''p'' 2 [1] chain_db = Err (DependencyCycle 2 1)"
    by (simp add: validate_task_dependencies_def dep_graph_def chain_graph Let_def)
       (simp add: chain_tasks chain_row_def sample_row_def plain_serde_def List.map_filter_simps)
  with ac dependency_check_exact[OF ac, of 2 "[1]"] show ?thesis by simp
qed

section \<open>Refreshing blocked tasks\<close>

text \<open>The stored JSON follows the dependency table.\<close>

definition sync_row :: "serde \<Rightarrow> time \<Rightarrow> task_db \<Rightarrow> task_row \<Rightarrow> task_row" where
  "sync_row sd now db row =
     (let normalized = sort (list_task_dependencies (tk_id row) db);
          from_json = sort (case strs_of_json sd (tk_dependencies_json row) of
                              Inl _ \<Rightarrow> [] | Inr deps \<Rightarrow> deps)
      in if from_json \<noteq> normalized
         then row\<lparr>tk_dependencies_json := json_of_strs sd normalized, tk_updated_at := now\<rparr>
         else row)"

fun sync_rows :: "serde \<Rightarrow> time \<Rightarrow> task_row list \<Rightarrow> task_db \<Rightarrow> task_row list \<times> task_db" where
  "sync_rows sd now [] db = ([], db)"
| "sync_rows sd now (row # rows) db =
     (let row' = sync_row sd now db row;
          db = (if row' = row then db else update_task row' db);
          (rows', db') = sync_rows sd now rows db
      in (row' # rows', db'))"

definition completed_ids :: "serde \<Rightarrow> task_row list \<Rightarrow> uuid set \<Rightarrow> uuid set" where
  "completed_ids sd rows extra =
     set (List.map_filter (ok_of \<circ> parse_uuid sd \<circ> tk_id)
            (filter (\<lambda>row. tk_status row = ''Done'') rows)) \<union> extra"

text \<open>
  One row of the second loop: the new contract when its status changes. The record of events
  lists the identifier, the old and the new status of each change (\<open>emit_task_status_changed\<close>).
\<close>

definition refreshed :: "time \<Rightarrow> uuid set \<Rightarrow> unit task_contract \<Rightarrow> unit task_contract" where
  "refreshed now completed task =
     (let prev = status task; task = refresh_blocked_status task completed now
      in if prev = Blocked \<and> status task = Planned
         then task\<lparr>status := Ready, updated_at := now\<rparr> else task)"

text \<open>\<open>dispatch\<close> is \<open>dispatch_task\<close> when the caller hands over its state, on rows that have
  \<open>auto_dispatch\<close> set and became ready; its result is only logged.\<close>

fun refresh_rows ::
  "serde \<Rightarrow> time \<Rightarrow> string \<Rightarrow> (uuid \<Rightarrow> task_db \<Rightarrow> task_db) option \<Rightarrow> uuid set \<Rightarrow> task_row list
     \<Rightarrow> task_db \<times> (uuid \<times> task_status \<times> task_status) list
     \<Rightarrow> (string + unit) \<times> task_db \<times> (uuid \<times> task_status \<times> task_status) list" where
  "refresh_rows sd now project_id dispatch completed [] (db, evs) = (Ok (), db, evs)"
| "refresh_rows sd now project_id dispatch completed (row # rows) (db, evs) =
     (if tk_status row \<notin> {''Planned'', ''Ready'', ''Blocked''}
      then refresh_rows sd now project_id dispatch completed rows (db, evs)
      else case task_row_to_contract sd row of
             Inl e \<Rightarrow> (Err e, db, evs)
           | Inr task \<Rightarrow>
               (let task' = refreshed now completed task in
                if status task' = status task
                then refresh_rows sd now project_id dispatch completed rows (db, evs)
                else
                  let db = update_task (task_contract_to_row sd task' project_id) db;
                      evs = evs @ [(task_uuid task, status task, status task')];
                      db = (case dispatch of
                              Some run \<Rightarrow>
                                if tk_auto_dispatch row \<and> status task' = Ready
                                then run (task_uuid task) db else db
                            | None \<Rightarrow> db)
                  in refresh_rows sd now project_id dispatch completed rows (db, evs)))"

definition refresh_dependency_states_inner ::
  "serde \<Rightarrow> time \<Rightarrow> string \<Rightarrow> (uuid \<Rightarrow> task_db \<Rightarrow> task_db) option \<Rightarrow> uuid set \<Rightarrow> task_db
     \<Rightarrow> (string + unit) \<times> task_db \<times> (uuid \<times> task_status \<times> task_status) list" where
  "refresh_dependency_states_inner sd now project_id dispatch extra db =
     (let (rows, db) = sync_rows sd now (list_tasks project_id db) db
      in refresh_rows sd now project_id dispatch (completed_ids sd rows extra) rows (db, []))"

text \<open>The variant that an agent run calls repeats the body without the dispatch.\<close>

definition refresh_dependency_states_after_completion_without_dispatch ::
  "serde \<Rightarrow> time \<Rightarrow> string \<Rightarrow> uuid \<Rightarrow> task_db
     \<Rightarrow> (string + unit) \<times> task_db \<times> (uuid \<times> task_status \<times> task_status) list" where
  "refresh_dependency_states_after_completion_without_dispatch sd now project_id completed_task db =
     (let (rows, db) = sync_rows sd now (list_tasks project_id db) db
      in refresh_rows sd now project_id None (completed_ids sd rows {completed_task}) rows (db, []))"

section \<open>What a refresh establishes\<close>

lemma refreshed_status:
  "status (refreshed now completed t) =
     (if status t \<in> {Planned, Ready} \<and> unmet_dependencies t completed then Blocked
      else if status t = Blocked \<and> \<not> unmet_dependencies t completed then Ready
      else status t)"
  by (cases "status t")
     (auto simp: refreshed_def refresh_blocked_status_def transition_def Let_def)

lemma find_map_same:
  assumes "\<And>x. P (f x) = P x"
  shows "find P (map f xs) = map_option f (find P xs)"
  by (induction xs) (simp_all add: assms)

lemma tk_id_overwrite [simp]: "tk_id (overwrite_row r old) = tk_id old"
  by (simp add: overwrite_row_def)

lemma get_task_after_update:
  "get_task i (update_task r db)
     = (if i = tk_id r then map_option (overwrite_row r) (get_task i db) else get_task i db)"
proof -
  have "get_task i (update_task r db)
      = map_option (\<lambda>x. if tk_id x = tk_id r then overwrite_row r x else x) (get_task i db)"
    unfolding get_task_def update_task_def by (simp, rule find_map_same) simp
  moreover have "get_task i db = Some x \<Longrightarrow> tk_id x = i" for x
    by (auto simp: get_task_def dest!: find_Some_mem)
  ultimately show ?thesis by (cases "get_task i db") auto
qed

lemma tk_status_overwrite [simp]: "tk_status (overwrite_row r old) = tk_status r"
  by (simp add: overwrite_row_def)

definition status_at :: "task_db \<Rightarrow> string \<Rightarrow> string option" where
  "status_at db i = map_option tk_status (get_task i db)"

lemma status_at_update:
  "status_at (update_task r db) i
     = (if i = tk_id r \<and> get_task i db \<noteq> None then Some (tk_status r) else status_at db i)"
  by (auto simp: status_at_def get_task_after_update)

definition new_status :: "serde \<Rightarrow> time \<Rightarrow> uuid set \<Rightarrow> task_row \<Rightarrow> string" where
  "new_status sd now completed row =
     (if tk_status row \<notin> {''Planned'', ''Ready'', ''Blocked''} then tk_status row
      else case task_row_to_contract sd row of
             Inl _ \<Rightarrow> tk_status row
           | Inr t \<Rightarrow> status_to_str (status (refreshed now completed t)))"

lemma contract_status: "task_row_to_contract sd row = Ok t \<Longrightarrow> status t = parse_status (tk_status row)"
  by (auto simp: task_row_to_contract_def split: sum.splits)

lemma contract_uuid:
  "task_row_to_contract sd row = Ok t \<Longrightarrow> parse_uuid sd (tk_id row) = Ok (task_uuid t)"
  by (auto simp: task_row_to_contract_def split: sum.splits)

lemma status_str_known:
  "s \<in> {''Planned'', ''Ready'', ''Blocked''} \<Longrightarrow> status_to_str (parse_status s) = s"
  by (auto simp: parse_status_def task_status_from_str_def status_to_str_def)

lemma refreshed_uuid [simp]: "task_uuid (refreshed now completed t) = task_uuid t"
  by (auto simp: refreshed_def refresh_blocked_status_def transition_def Let_def)

definition canonical_ids :: "serde \<Rightarrow> task_row list \<Rightarrow> bool" where
  "canonical_ids sd rows \<longleftrightarrow> (\<forall>row\<in>set rows. \<exists>i. tk_id row = show_uuid sd i)"

lemma refresh_rows_status:
  assumes "refresh_rows sd now p None completed rows (db, evs) = (Ok (), db', evs')"
    and "serde_laws sd" "canonical_ids sd rows" "distinct (map tk_id rows)"
    and "\<forall>row\<in>set rows. status_at db (tk_id row) = Some (tk_status row)"
  shows "status_at db' i = (case find (\<lambda>r. tk_id r = i) rows of
           None \<Rightarrow> status_at db i | Some row \<Rightarrow> Some (new_status sd now completed row))"
  using assms
proof (induction rows arbitrary: db evs)
  case (Cons row rows)
  have canon: "canonical_ids sd rows" and dist: "distinct (map tk_id rows)"
    and fresh: "tk_id row \<notin> tk_id ` set rows"
    using Cons.prems by (simp_all add: canonical_ids_def)
  have rest: "find (\<lambda>r. tk_id r = tk_id row) rows = None"
    using fresh unfolding find_None_iff by (metis imageI)
  have skip: ?case if unchanged: "new_status sd now completed row = tk_status row"
    "refresh_rows sd now p None completed rows (db, evs) = (Ok (), db', evs')"
    using Cons.IH[OF unchanged(2) Cons.prems(2) canon dist] Cons.prems(5) unchanged(1) rest
    by (auto split: option.split)
  show ?case
  proof (cases "tk_status row \<in> {''Planned'', ''Ready'', ''Blocked''}")
    case False
    then show ?thesis using Cons.prems(1) by (intro skip) (simp_all add: new_status_def)
  next
    case True
    with Cons.prems(1) obtain t where t: "task_row_to_contract sd row = Ok t"
      by (auto split: sum.splits)
    let ?t = "refreshed now completed t"
    let ?row = "task_contract_to_row sd ?t p"
    have new: "new_status sd now completed row = status_to_str (status ?t)"
      using True t by (simp add: new_status_def)
    show ?thesis
    proof (cases "status ?t = status t")
      case same: True
      have "new_status sd now completed row = tk_status row"
        using new same contract_status[OF t] status_str_known[OF True] by simp
      moreover from Cons.prems(1) True t same
      have "refresh_rows sd now p None completed rows (db, evs) = (Ok (), db', evs')"
        by (simp split: if_splits)
      ultimately show ?thesis by (rule skip)
    next
      case False
      obtain j where j: "tk_id row = show_uuid sd j"
        using Cons.prems(3) by (auto simp: canonical_ids_def)
      with contract_uuid[OF t] Cons.prems(2) have "tk_id row = show_uuid sd (task_uuid t)"
        by (simp add: serde_laws_def)
      then have row: "tk_id ?row = tk_id row" "tk_status ?row = status_to_str (status ?t)"
        by (simp_all add: task_contract_to_row_def)
      let ?db = "update_task ?row db"
      from Cons.prems(1) True t False obtain evs1 where
        r: "refresh_rows sd now p None completed rows (?db, evs1) = (Ok (), db', evs')"
        by (simp add: Let_def split: if_splits)
      have agree: "\<forall>r\<in>set rows. status_at ?db (tk_id r) = Some (tk_status r)"
        using Cons.prems(5) fresh row(1) by (auto simp: status_at_update image_iff)
      have "get_task (tk_id row) db \<noteq> None"
        using Cons.prems(5) by (auto simp: status_at_def)
      then have "status_at ?db i = (if i = tk_id row then Some (status_to_str (status ?t)) else status_at db i)"
        by (simp add: status_at_update row)
      with Cons.IH[OF r Cons.prems(2) canon dist agree] new rest show ?thesis
        by (auto split: option.split)
    qed
  qed
qed simp

lemma sync_row_keeps [simp]:
  "tk_id (sync_row sd now db row) = tk_id row" "tk_status (sync_row sd now db row) = tk_status row"
  by (simp_all add: sync_row_def Let_def)

lemma deps_update_task [simp]: "db_deps (update_task r db) = db_deps db"
  by (simp add: update_task_def)

lemma sync_row_cong: "db_deps db = db_deps db' \<Longrightarrow> sync_row sd now db = sync_row sd now db'"
  by (rule ext) (simp add: sync_row_def list_task_dependencies_def)

lemma sync_rows_eq:
  "sync_rows sd now rows db = (rows', db')
     \<Longrightarrow> \<forall>row\<in>set rows. status_at db (tk_id row) = Some (tk_status row)
     \<Longrightarrow> rows' = map (sync_row sd now db) rows \<and> status_at db' = status_at db"
proof (induction rows arbitrary: db rows' db')
  case (Cons row rows)
  let ?row = "sync_row sd now db row"
  let ?db = "if ?row = row then db else update_task ?row db"
  obtain rs where rs: "sync_rows sd now rows ?db = (rs, db')" "rows' = ?row # rs"
    using Cons.prems(1) by (auto simp: Let_def split: prod.splits)
  have same: "status_at ?db = status_at db"
    using Cons.prems(2) by (auto simp: status_at_update fun_eq_iff)
  have deps: "sync_row sd now ?db = sync_row sd now db" by (rule sync_row_cong) simp
  from Cons.IH[OF rs(1)] Cons.prems(2) same deps rs(2) show ?case by simp
qed simp

definition table_unmet :: "serde \<Rightarrow> task_db \<Rightarrow> uuid set \<Rightarrow> task_row \<Rightarrow> bool" where
  "table_unmet sd db completed row \<longleftrightarrow>
     (\<exists>d\<in>set (list_task_dependencies (tk_id row) db). \<exists>i. parse_uuid sd d = Ok i \<and> i \<notin> completed)"

lemma map_filter_set: "set (List.map_filter f xs) = {y. \<exists>x\<in>set xs. f x = Some y}"
  by (force simp: List.map_filter_def image_iff)

lemma synced_deps:
  assumes "serde_laws sd" "task_row_to_contract sd (sync_row sd now db row) = Ok t"
  shows "unmet_dependencies t completed = table_unmet sd db completed row"
proof -
  let ?row = "sync_row sd now db row"
  obtain xs where xs: "strs_of_json sd (tk_dependencies_json ?row) = Ok xs"
    "dependencies t = List.map_filter (ok_of \<circ> parse_uuid sd) xs"
    using assms(2) by (auto simp: task_row_to_contract_def row_payload_def split: sum.splits)
  have "set xs = set (list_task_dependencies (tk_id row) db)"
  proof (cases "?row = row")
    case True
    show ?thesis
    proof (cases "sort xs = sort (list_task_dependencies (tk_id row) db)")
      case True
      then show ?thesis by (metis set_sort)
    next
      case False
      with xs(1) True have "tk_dependencies_json row
          = json_of_strs sd (sort (list_task_dependencies (tk_id row) db))"
        by (auto simp: sync_row_def Let_def dest: arg_cong[where f = tk_dependencies_json])
      with xs(1) True assms(1) have "xs = sort (list_task_dependencies (tk_id row) db)"
        by (simp add: serde_laws_def)
      then show ?thesis by (metis set_sort)
    qed
  next
    case False
    then have "tk_dependencies_json ?row
        = json_of_strs sd (sort (list_task_dependencies (tk_id row) db))"
      by (auto simp: sync_row_def Let_def split: if_splits)
    with xs(1) assms(1) have "xs = sort (list_task_dependencies (tk_id row) db)"
      by (simp add: serde_laws_def)
    then show ?thesis by (metis set_sort)
  qed
  with xs(2) show ?thesis
    by (auto simp: unmet_dependencies_def table_unmet_def list_ex_iff map_filter_set)
qed

definition all_convertible :: "serde \<Rightarrow> task_row list \<Rightarrow> bool" where
  "all_convertible sd rows = list_all (\<lambda>r. is_ok (task_row_to_contract sd r)) rows"

lemma refresh_rows_ok_converts:
  assumes "refresh_rows sd now p None completed rows (db, evs) = (Ok (), db', evs')" "row \<in> set rows"
    "tk_status row \<in> {''Planned'', ''Ready'', ''Blocked''}"
  shows "is_ok (task_row_to_contract sd row)"
  using assms
proof (induction rows arbitrary: db evs)
  case (Cons r rows)
  then show ?case
    by (cases "task_row_to_contract sd r") (auto simp: Let_def split: if_splits)
qed simp

lemma completed_ids_synced:
  "completed_ids sd (map (sync_row sd now db) rows) extra = completed_ids sd rows extra"
proof -
  have "filter (\<lambda>row. tk_status row = ''Done'') (map (sync_row sd now db) rows)
      = map (sync_row sd now db) (filter (\<lambda>row. tk_status row = ''Done'') rows)"
    by (induction rows) simp_all
  then show ?thesis by (auto simp: completed_ids_def map_filter_set)
qed

lemma find_distinct:
  "distinct (map f xs) \<Longrightarrow> x \<in> set xs \<Longrightarrow> find (\<lambda>y. f y = f x) xs = Some x"
  by (induction xs) auto

lemma distinct_list_tasks:
  "distinct (map tk_id (db_tasks db)) \<Longrightarrow> distinct (map tk_id (list_tasks p db))"
  by (simp add: list_tasks_def distinct_map inj_on_def)

lemma status_at_member:
  "distinct (map tk_id (db_tasks db)) \<Longrightarrow> row \<in> set (db_tasks db)
     \<Longrightarrow> status_at db (tk_id row) = Some (tk_status row)"
  by (simp add: status_at_def get_task_def find_distinct)

text \<open>
  A refresh after the completion of a task brings every task of the project up to date
  with the dependency table: a planned or ready task with a dependency that is not completed
  becomes blocked, a blocked task without one becomes ready, and every other task keeps its
  status. The rows of the project must have unique identifiers in canonical form.
\<close>

theorem refresh_updates_blocked:
  assumes laws: "serde_laws sd" and canon: "canonical_ids sd (list_tasks p db)"
    and dist: "distinct (map tk_id (db_tasks db))"
    and run: "refresh_dependency_states_after_completion_without_dispatch sd now p c db
                = (Ok (), db', evs)"
    and row: "row \<in> set (db_tasks db)" "tk_project_id row = p"
  shows "status_at db' (tk_id row) = Some (
           let unmet = table_unmet sd db (completed_ids sd (list_tasks p db) {c}) row in
           if tk_status row \<in> {''Planned'', ''Ready''} \<and> unmet then ''Blocked''
           else if tk_status row = ''Blocked'' \<and> \<not> unmet then ''Ready''
           else tk_status row)"
proof -
  let ?rows = "list_tasks p db"
  let ?sync = "sync_row sd now db"
  let ?done = "completed_ids sd ?rows {c}"
  have agree: "\<forall>r\<in>set ?rows. status_at db (tk_id r) = Some (tk_status r)"
    using status_at_member[OF dist] by (auto simp: list_tasks_def)
  obtain rows1 db1 where s: "sync_rows sd now ?rows db = (rows1, db1)" by fastforce
  from sync_rows_eq[OF s agree] have rows1: "rows1 = map ?sync ?rows"
    and st1: "status_at db1 = status_at db" by simp_all
  from run s rows1 have ref:
    "refresh_rows sd now p None ?done (map ?sync ?rows) (db1, []) = (Ok (), db', evs)"
    by (simp add: refresh_dependency_states_after_completion_without_dispatch_def
          completed_ids_synced)
  have "canonical_ids sd (map ?sync ?rows)" "distinct (map tk_id (map ?sync ?rows))"
    using canon distinct_list_tasks[OF dist, of p] by (simp_all add: canonical_ids_def comp_def)
  note eff = refresh_rows_status[OF ref laws this]
  have "row \<in> set ?rows" using row by (simp add: list_tasks_def)
  then have "find (\<lambda>r. tk_id r = tk_id row) (map ?sync ?rows) = Some (?sync row)"
    using find_distinct[of tk_id "map ?sync ?rows" "?sync row"] distinct_list_tasks[OF dist, of p]
    by (simp add: comp_def)
  with eff[of "tk_id row"] agree st1 have
    st: "status_at db' (tk_id row) = Some (new_status sd now ?done (?sync row))" by simp
  show ?thesis
  proof (cases "tk_status row \<in> {''Planned'', ''Ready'', ''Blocked''}")
    case False
    with st show ?thesis by (auto simp: new_status_def Let_def)
  next
    case True
    have "?sync row \<in> set (map ?sync ?rows)" using \<open>row \<in> set ?rows\<close> by simp
    from refresh_rows_ok_converts[OF ref this] True obtain t where
      t: "task_row_to_contract sd (?sync row) = Ok t" by (auto elim: is_okE)
    from contract_status[OF t] have "status t = parse_status (tk_status row)" by simp
    with st t True synced_deps[OF laws t] show ?thesis
      by (auto simp: new_status_def refreshed_status parse_status_def task_status_from_str_def
            status_to_str_def Let_def)
  qed
qed

definition freed_db :: task_db where
  "freed_db = chain_db\<lparr>db_tasks := [chain_row 1 2 ''Blocked'' [2], chain_row 2 1 ''Done'' []]\<rparr>"

lemma freed_tasks: "list_tasks ''p'' freed_db = [chain_row 1 2 ''Blocked'' [2], chain_row 2 1 ''Done'' []]"
  by (simp add: list_tasks_def freed_db_def chain_db_def empty_db_def chain_row_def sample_row_def)

lemma refresh_updates_blocked_witness:
  "\<exists>db' evs. refresh_dependency_states_after_completion_without_dispatch plain_serde 9 ''p'' 2 freed_db
               = (Ok (), db', evs)
           \<and> status_at db' ''x'' = Some ''Ready''"
proof -
  let ?row = "chain_row 1 2 ''Blocked'' [2]"
  have canon: "canonical_ids plain_serde (list_tasks ''p'' freed_db)"
  proof -
    have two: "replicate 2 CHR ''x'' = ''xx''" by (simp add: numeral_2_eq_2)
    have "''x'' = show_uuid plain_serde 1" "''xx'' = show_uuid plain_serde 2"
      by (simp_all add: plain_serde_def two)
    then show ?thesis
      by (auto simp: canonical_ids_def freed_tasks chain_row_def sample_row_def numeral_2_eq_2)
  qed
  have dist: "distinct (map tk_id (db_tasks freed_db))"
    by (simp add: freed_db_def chain_row_def sample_row_def numeral_2_eq_2)
  have mem: "?row \<in> set (db_tasks freed_db)" "tk_project_id ?row = ''p''"
    by (simp_all add: freed_db_def chain_row_def sample_row_def)
  have sync: "sync_row plain_serde 9 freed_db ?row = ?row"
    "sync_row plain_serde 9 freed_db (chain_row 2 1 ''Done'' []) = chain_row 2 1 ''Done'' []"
    by (simp_all add: sync_row_def list_task_dependencies_def freed_db_def chain_db_def chain_row_def
          sample_row_def plain_serde_def esc_text_def numeral_2_eq_2)
  obtain t where t: "task_row_to_contract plain_serde ?row = Ok t"
    by (simp add: task_row_to_contract_def row_payload_def chain_row_def sample_row_def plain_serde_def)
  have st: "tk_status ?row = ''Blocked''" "tk_status (chain_row 2 1 ''Done'' []) = ''Done''"
    by (simp_all add: chain_row_def sample_row_def)
  have "\<exists>db' evs.
    refresh_dependency_states_after_completion_without_dispatch plain_serde 9 ''p'' 2 freed_db
       = (Ok (), db', evs)"
    by (simp add: refresh_dependency_states_after_completion_without_dispatch_def freed_tasks
          sync t st del: One_nat_def) (simp add: Let_def st del: One_nat_def)
  then obtain db' evs where run:
    "refresh_dependency_states_after_completion_without_dispatch plain_serde 9 ''p'' 2 freed_db
       = (Ok (), db', evs)" by blast
  have "\<not> table_unmet plain_serde freed_db
      (completed_ids plain_serde (list_tasks ''p'' freed_db) {2}) ?row"
    by (simp add: table_unmet_def list_task_dependencies_def freed_db_def chain_db_def chain_row_def
          sample_row_def plain_serde_def completed_ids_def)
  moreover have "tk_status ?row = ''Blocked''" "tk_id ?row = ''x''"
    by (simp_all add: chain_row_def sample_row_def)
  ultimately show ?thesis
    using refresh_updates_blocked[OF plain_serde_laws canon dist run mem] run by (simp add: Let_def)
qed

text \<open>
  A planned task whose dependencies complete becomes ready although nobody released it: its
  way through \<open>Blocked\<close> forgets that it was only planned.
\<close>

lemma planned_task_is_released_by_blocking:
  assumes "status t = Planned" "unmet_dependencies t c1"
    "\<not> unmet_dependencies (refreshed n1 c1 t) c2"
  shows "status (refreshed n2 c2 (refreshed n1 c1 t)) = Ready"
  using assms by (simp add: refreshed_status)

text \<open>
  One row that does not convert stops the pass with an error: rows after it in the list,
  which is ordered by descending creation time, are not refreshed.
\<close>

lemma bad_row_stops_refresh:
  assumes "task_row_to_contract sd bad = Err e" "tk_status bad \<in> {''Planned'', ''Ready'', ''Blocked''}"
  shows "refresh_rows sd now p dispatch completed (bad # rows) (db, evs) = (Err e, db, evs)"
  using assms by auto

end
