(* ===== verification/Workflow_Store.thy ===== *)
theory Workflow_Store
  imports Task_Store
begin

text \<open>
  \<open>crates/pnevma-db/src/store/workflows.rs\<close>: workflow definitions, workflow instances and the
  rows that tie the tasks of an instance to its steps and iterations, as statements on tables
  beside those of \<open>Task_Store\<close>. The primary keys, the unique name of a definition and the
  references with \<open>ON DELETE CASCADE\<close> are those of migrations 0006, 0011 and 0016.
\<close>

section \<open>Rows and tables\<close>

record workflow_row =
  wr_id :: string
  wr_project_id :: string
  wr_name :: string
  wr_description :: "string option"
  wr_definition_yaml :: string
  wr_source :: string
  wr_created_at :: time
  wr_updated_at :: time

record instance_row =
  in_id :: string
  in_project_id :: string
  in_workflow_name :: string
  in_description :: "string option"
  in_status :: string
  in_created_at :: time
  in_updated_at :: time
  in_params_json :: "string option"
  in_stage_results_json :: "string option"
  in_expanded_steps_json :: "string option"

record wf_task_row =
  wk_workflow_id :: string
  wk_step_index :: int
  wk_iteration :: int
  wk_task_id :: string

record wf_db =
  wd_db :: task_db
  wd_workflows :: "workflow_row list"
  wd_instances :: "instance_row list"
  wd_wf_tasks :: "wf_task_row list"

section \<open>Workflow definitions\<close>

definition create_workflow :: "workflow_row \<Rightarrow> wf_db \<Rightarrow> (db_error + unit) \<times> wf_db" where
  "create_workflow row d =
     (if \<exists>r \<in> set (wd_workflows d). wr_id r = wr_id row
           \<or> wr_project_id r = wr_project_id row \<and> wr_name r = wr_name row
      then (Err PrimaryKey, d)
      else (Ok (), d\<lparr>wd_workflows := wd_workflows d @ [row]\<rparr>))"

definition get_workflow :: "string \<Rightarrow> wf_db \<Rightarrow> workflow_row option" where
  "get_workflow i d = find (\<lambda>r. wr_id r = i) (wd_workflows d)"

definition get_workflow_by_name :: "string \<Rightarrow> string \<Rightarrow> wf_db \<Rightarrow> workflow_row option" where
  "get_workflow_by_name project_id name d =
     find (\<lambda>r. wr_project_id r = project_id \<and> wr_name r = name) (wd_workflows d)"

definition list_workflows :: "string \<Rightarrow> wf_db \<Rightarrow> workflow_row list" where
  "list_workflows project_id d =
     sort_key wr_name (filter (\<lambda>r. wr_project_id r = project_id) (wd_workflows d))"

text \<open>The update keeps the identifier, the project and the creation time.\<close>

definition update_workflow :: "workflow_row \<Rightarrow> wf_db \<Rightarrow> (db_error + unit) \<times> wf_db" where
  "update_workflow row d =
     (if \<exists>old \<in> set (wd_workflows d). wr_id old = wr_id row \<and>
           (\<exists>r \<in> set (wd_workflows d). wr_id r \<noteq> wr_id row \<and> wr_project_id r = wr_project_id old
              \<and> wr_name r = wr_name row)
      then (Err PrimaryKey, d)
      else (Ok (), d\<lparr>wd_workflows := map (\<lambda>r. if wr_id r = wr_id row
              then row\<lparr>wr_project_id := wr_project_id r, wr_created_at := wr_created_at r\<rparr> else r)
              (wd_workflows d)\<rparr>))"

definition delete_workflow :: "string \<Rightarrow> wf_db \<Rightarrow> wf_db" where
  "delete_workflow i d = d\<lparr>wd_workflows := filter (\<lambda>r. wr_id r \<noteq> i) (wd_workflows d)\<rparr>"

section \<open>Workflow instances\<close>

definition create_workflow_instance :: "instance_row \<Rightarrow> wf_db \<Rightarrow> (db_error + unit) \<times> wf_db" where
  "create_workflow_instance row d =
     (if in_id row \<in> in_id ` set (wd_instances d) then (Err PrimaryKey, d)
      else (Ok (), d\<lparr>wd_instances := wd_instances d @ [row]\<rparr>))"

definition change_instance :: "string \<Rightarrow> (instance_row \<Rightarrow> instance_row) \<Rightarrow> wf_db \<Rightarrow> wf_db" where
  "change_instance i f d =
     d\<lparr>wd_instances := map (\<lambda>r. if in_id r = i then f r else r) (wd_instances d)\<rparr>"

definition update_workflow_instance_status :: "time \<Rightarrow> string \<Rightarrow> string \<Rightarrow> wf_db \<Rightarrow> wf_db" where
  "update_workflow_instance_status now i st =
     change_instance i (\<lambda>r. r\<lparr>in_status := st, in_updated_at := now\<rparr>)"

definition get_workflow_instance :: "string \<Rightarrow> wf_db \<Rightarrow> instance_row option" where
  "get_workflow_instance i d = find (\<lambda>r. in_id r = i) (wd_instances d)"

definition list_workflow_instances :: "string \<Rightarrow> wf_db \<Rightarrow> instance_row list" where
  "list_workflow_instances project_id d =
     sort_key (\<lambda>r. - in_created_at r)
       (filter (\<lambda>r. in_project_id r = project_id) (wd_instances d))"

definition update_workflow_instance_results ::
  "time \<Rightarrow> string \<Rightarrow> string \<Rightarrow> string \<Rightarrow> wf_db \<Rightarrow> wf_db" where
  "update_workflow_instance_results now i results st =
     change_instance i (\<lambda>r. r\<lparr>in_stage_results_json := Some results, in_status := st,
                              in_updated_at := now\<rparr>)"

definition update_workflow_instance_expanded_steps ::
  "time \<Rightarrow> string \<Rightarrow> string \<Rightarrow> wf_db \<Rightarrow> wf_db" where
  "update_workflow_instance_expanded_steps now i js =
     change_instance i (\<lambda>r. r\<lparr>in_expanded_steps_json := Some js, in_updated_at := now\<rparr>)"

definition update_workflow_instance_params ::
  "time \<Rightarrow> string \<Rightarrow> string \<Rightarrow> wf_db \<Rightarrow> wf_db" where
  "update_workflow_instance_params now i js =
     change_instance i (\<lambda>r. r\<lparr>in_params_json := Some js, in_updated_at := now\<rparr>)"

definition update_workflow_instance_expanded ::
  "time \<Rightarrow> string \<Rightarrow> string \<Rightarrow> wf_db \<Rightarrow> wf_db" where
  "update_workflow_instance_expanded now i js =
     change_instance i (\<lambda>r. r\<lparr>in_expanded_steps_json := Some js, in_updated_at := now\<rparr>)"

section \<open>Tasks of an instance\<close>

definition wf_key :: "wf_task_row \<Rightarrow> string \<times> int \<times> int" where
  "wf_key r = (wk_workflow_id r, wk_step_index r, wk_iteration r)"

definition add_workflow_task ::
  "string \<Rightarrow> int \<Rightarrow> int \<Rightarrow> string \<Rightarrow> wf_db \<Rightarrow> (db_error + unit) \<times> wf_db" where
  "add_workflow_task workflow_id step_index iteration task_id d =
     (if (workflow_id, step_index, iteration) \<in> wf_key ` set (wd_wf_tasks d) then (Err PrimaryKey, d)
      else if workflow_id \<notin> in_id ` set (wd_instances d) \<or> task_id \<notin> task_ids (wd_db d)
      then (Err ForeignKey, d)
      else (Ok (), d\<lparr>wd_wf_tasks := wd_wf_tasks d @
              [\<lparr>wk_workflow_id = workflow_id, wk_step_index = step_index,
                wk_iteration = iteration, wk_task_id = task_id\<rparr>]\<rparr>))"

definition list_workflow_tasks :: "string \<Rightarrow> wf_db \<Rightarrow> wf_task_row list" where
  "list_workflow_tasks workflow_id d =
     sort_key wk_step_index
       (sort_key wk_iteration (filter (\<lambda>r. wk_workflow_id r = workflow_id) (wd_wf_tasks d)))"

definition find_workflow_by_task :: "string \<Rightarrow> wf_db \<Rightarrow> wf_task_row option" where
  "find_workflow_by_task task_id d = find (\<lambda>r. wk_task_id r = task_id) (wd_wf_tasks d)"

definition get_latest_iteration :: "string \<Rightarrow> int \<Rightarrow> wf_db \<Rightarrow> int" where
  "get_latest_iteration workflow_id step_index d =
     (let its = map wk_iteration
                  (filter (\<lambda>r. wk_workflow_id r = workflow_id \<and> wk_step_index r = step_index)
                     (wd_wf_tasks d))
      in if its = [] then 0 else Max (set its))"

text \<open>Deleting a task or an instance takes its rows with it.\<close>

definition wf_delete_task :: "string \<Rightarrow> wf_db \<Rightarrow> wf_db" where
  "wf_delete_task task_id d =
     d\<lparr>wd_db := delete_task task_id (wd_db d),
       wd_wf_tasks := filter (\<lambda>r. wk_task_id r \<noteq> task_id) (wd_wf_tasks d)\<rparr>"

section \<open>Facts\<close>

lemma latest_iteration_ge:
  "r \<in> set (wd_wf_tasks d) \<Longrightarrow> wk_workflow_id r = w \<Longrightarrow> wk_step_index r = s
     \<Longrightarrow> wk_iteration r \<le> get_latest_iteration w s d"
  by (auto simp: get_latest_iteration_def Let_def filter_empty_conv)

lemma latest_iteration_cong:
  "wd_wf_tasks d = wd_wf_tasks d' \<Longrightarrow> get_latest_iteration w s d = get_latest_iteration w s d'"
  by (simp add: get_latest_iteration_def)

lemma add_workflow_task_OkD:
  assumes "add_workflow_task w s n t d = (Ok (), d')"
  shows "wd_wf_tasks d' = wd_wf_tasks d @ [\<lparr>wk_workflow_id = w, wk_step_index = s,
           wk_iteration = n, wk_task_id = t\<rparr>]" "wd_db d' = wd_db d" "wd_instances d' = wd_instances d"
    "(w, s, n) \<notin> wf_key ` set (wd_wf_tasks d)"
  using assms by (auto simp: add_workflow_task_def split: if_splits)

lemma latest_iteration_add:
  assumes "wd_wf_tasks d' = wd_wf_tasks d @ [\<lparr>wk_workflow_id = w, wk_step_index = s,
             wk_iteration = n, wk_task_id = t\<rparr>]" "0 \<le> n"
  shows "get_latest_iteration w' s' d' =
           (if w' = w \<and> s' = s then
              if filter (\<lambda>r. wk_workflow_id r = w \<and> wk_step_index r = s) (wd_wf_tasks d) = [] then n
              else max (get_latest_iteration w s d) n
            else get_latest_iteration w' s' d)"
proof (cases "w' = w \<and> s' = s")
  case True
  let ?rs = "filter (\<lambda>r. wk_workflow_id r = w \<and> wk_step_index r = s) (wd_wf_tasks d)"
  have rs: "filter (\<lambda>r. wk_workflow_id r = w \<and> wk_step_index r = s) (wd_wf_tasks d')
      = ?rs @ [\<lparr>wk_workflow_id = w, wk_step_index = s, wk_iteration = n, wk_task_id = t\<rparr>]"
    by (simp add: assms(1))
  show ?thesis
  proof (cases "?rs = []")
    case empty: True
    with True rs show ?thesis by (simp add: get_latest_iteration_def)
  next
    case False
    then have "Max (insert n (wk_iteration ` set ?rs)) = max n (Max (wk_iteration ` set ?rs))"
      by (intro Max_insert) (simp_all only: finite_imageI finite_set image_is_empty set_empty simp_thms)
    moreover have "get_latest_iteration w s d' = Max (insert n (wk_iteration ` set ?rs))"
      unfolding get_latest_iteration_def rs by (simp only: Let_def) simp
    moreover have "get_latest_iteration w s d = Max (wk_iteration ` set ?rs)"
      using False unfolding get_latest_iteration_def Let_def map_is_Nil_conv
      by (simp only: if_False set_map)
    ultimately show ?thesis using True False by (simp add: max.commute)
  qed
next
  case False
  then have "filter (\<lambda>r. wk_workflow_id r = w' \<and> wk_step_index r = s') (wd_wf_tasks d')
      = filter (\<lambda>r. wk_workflow_id r = w' \<and> wk_step_index r = s') (wd_wf_tasks d)"
    by (auto simp: assms(1))
  then have "get_latest_iteration w' s' d' = get_latest_iteration w' s' d"
    by (simp add: get_latest_iteration_def)
  with False show ?thesis by (simp only: if_False)
qed

end
