(* ===== verification/Workflow_Loops.thy ===== *)
theory Workflow_Loops
  imports Workflow_Store Workflow_Def Task_Rows Redaction Utf8
begin

text \<open>
  What happens to a workflow when one of its tasks ends (\<open>check_workflow_completion\<close>,
  \<open>resolve_workflow_def\<close>, \<open>check_loop_trigger\<close>, \<open>create_loop_iteration\<close> and
  \<open>find_latest_done_task_for_step\<close> of \<open>pnevma-commands/src/commands/mod.rs\<close>). Database
  errors are those of the constraints; each statement commits on its own, so an error leaves
  what was written before. The record of iterations that \<open>create_loop_iteration\<close> puts into
  \<open>expanded_steps_json\<close> for display is not modelled. The fields of \<open>wf_env\<close> are what comes
  from outside: fresh identifiers, JSON text, the YAML parser, the listing of the workflow
  directory, the global database and the wording of errors.
\<close>

record wf_env =
  we_serde :: serde
  we_fresh :: "nat \<Rightarrow> uuid"
  we_now :: time
  we_json :: "json \<Rightarrow> string"
  we_from_str :: "string \<Rightarrow> string + workflow_def"
  we_listing :: "(unit + dir_entry list) option"
  we_global :: "(string \<Rightarrow> string + string option) option"
  we_show_error :: "workflow_error \<Rightarrow> string"
  we_show_db :: "db_error \<Rightarrow> string"
  we_show_int :: "int \<Rightarrow> string"

section \<open>Completion\<close>

definition is_terminal_task_status :: "task_status \<Rightarrow> bool" where
  "is_terminal_task_status s \<longleftrightarrow> s \<in> {Done, Failed, Looped}"

datatype wf_effect =
    LogWorkflowStatus string string string string
  | EmitWorkflowUpdated string string string
  | NotifyWorkflow string string string

definition update_workflow_instance_status_and_notify ::
  "time \<Rightarrow> bool \<Rightarrow> instance_row \<Rightarrow> string \<Rightarrow> wf_db \<Rightarrow> wf_effect list \<times> wf_db" where
  "update_workflow_instance_status_and_notify now emitter inst new_status d =
     (if in_status inst = new_status then ([], d)
      else ([LogWorkflowStatus (in_id inst) (in_workflow_name inst) (in_status inst) new_status]
            @ (if emitter
               then [EmitWorkflowUpdated (in_id inst) (in_workflow_name inst) new_status]
                    @ (if new_status = ''Completed''
                       then [NotifyWorkflow ''Workflow completed''
                               (in_workflow_name inst @ '' is now '' @ new_status @ ''.'') ''info'']
                       else if new_status = ''Failed''
                       then [NotifyWorkflow ''Workflow failed''
                               (in_workflow_name inst @ '' is now '' @ new_status @ ''.'') ''warning'']
                       else [])
               else []),
            update_workflow_instance_status now (in_id inst) new_status d))"

text \<open>The four flags of the loop over the tasks.\<close>

record wf_flags =
  all_terminal :: bool
  any_failed :: bool
  any_active :: bool
  only_failed_or_blocked :: bool

definition flag_task :: "task_db \<Rightarrow> wf_task_row \<Rightarrow> wf_flags \<Rightarrow> wf_flags" where
  "flag_task db wt f =
     (case get_task (wk_task_id wt) db of
        None \<Rightarrow> f\<lparr>all_terminal := False, only_failed_or_blocked := False\<rparr>
      | Some row \<Rightarrow>
          if tk_status row = ''Done'' then f
          else if tk_status row = ''Failed'' then f\<lparr>any_failed := True\<rparr>
          else if tk_status row = ''Looped'' then f
          else if tk_status row = ''Blocked'' then f\<lparr>all_terminal := False\<rparr>
          else if tk_status row \<in> {''Ready'', ''InProgress'', ''Review''}
          then f\<lparr>all_terminal := False, any_active := True, only_failed_or_blocked := False\<rparr>
          else f\<lparr>all_terminal := False, only_failed_or_blocked := False\<rparr>)"

definition check_workflow_completion ::
  "time \<Rightarrow> bool \<Rightarrow> string \<Rightarrow> wf_db \<Rightarrow> wf_effect list \<times> wf_db" where
  "check_workflow_completion now emitter task_id d =
     (case find_workflow_by_task task_id d of None \<Rightarrow> ([], d) | Some wt \<Rightarrow>
      case get_workflow_instance (wk_workflow_id wt) d of None \<Rightarrow> ([], d) | Some inst \<Rightarrow>
        let f = fold (flag_task (wd_db d)) (list_workflow_tasks (wk_workflow_id wt) d)
                  \<lparr>all_terminal = True, any_failed = False, any_active = False,
                   only_failed_or_blocked = True\<rparr>
        in if all_terminal f
           then update_workflow_instance_status_and_notify now emitter inst
                  (if any_failed f then ''Failed'' else ''Completed'') d
           else if any_failed f \<and> \<not> any_active f \<and> only_failed_or_blocked f
           then update_workflow_instance_status_and_notify now emitter inst ''Failed'' d
           else ([], d))"

section \<open>Finding the definition\<close>

text \<open>\<open>from_yaml\<close> and \<open>load_all\<close> return \<open>None\<close> for a panic of the validation, which does not
  happen (\<open>validate_total\<close>).\<close>

lemma load_entries_total: "load_entries p es ws \<noteq> None"
proof (induction p es ws rule: load_entries.induct)
  case (3 p name content entries ws)
  have "from_file p content \<noteq> None"
    using from_yaml_total[of p] by (auto simp: from_file_def split: option.split)
  with 3 show ?case by (auto split: option.split sum.split)
qed simp_all

definition yaml_def :: "wf_env \<Rightarrow> string \<Rightarrow> string + workflow_def" where
  "yaml_def env yaml =
     (case the (from_yaml (we_from_str env) yaml) of
        Inl e \<Rightarrow> Err (we_show_error env e) | Inr flow \<Rightarrow> Ok flow)"

definition resolve_workflow_def ::
  "wf_env \<Rightarrow> string \<Rightarrow> string \<Rightarrow> wf_db \<Rightarrow> string + workflow_def" where
  "resolve_workflow_def env workflow_name project_id d =
     (case get_workflow_by_name project_id workflow_name d of
        Some row \<Rightarrow> yaml_def env (wr_definition_yaml row)
      | None \<Rightarrow>
        (case the (load_all (we_from_str env) (we_listing env)) of
           Inl e \<Rightarrow> Err (we_show_error env e)
         | Inr defs \<Rightarrow>
           (case find (\<lambda>flow. wf_name flow = workflow_name) defs of
              Some flow \<Rightarrow> Ok flow
            | None \<Rightarrow>
              (let not_found = Err (''workflow '' @ [CHR 0x27] @ workflow_name @ [CHR 0x27] @ '' not found'') in
               case we_global env of None \<Rightarrow> not_found
               | Some get \<Rightarrow>
                 (case get workflow_name of
                    Inl e \<Rightarrow> Err e
                  | Inr (Some yaml) \<Rightarrow> yaml_def env yaml
                  | Inr None \<Rightarrow> not_found)))))"

section \<open>Loop iterations\<close>

text \<open>\<open>step_index as usize\<close>.\<close>

definition as_usize :: "int \<Rightarrow> nat" where
  "as_usize i = nat (i mod 2 ^ 64)"

definition ellipsis :: string where
  "ellipsis = map char_of [0xE2, 0x80, 0xA6 :: nat]"

definition em_dash :: string where
  "em_dash = map char_of [0xE2, 0x80, 0x94 :: nat]"

definition take_chars :: "nat \<Rightarrow> string \<Rightarrow> string" where
  "take_chars n s = concat (take n (utf8_chars s))"

definition loop_feedback :: "string option \<Rightarrow> string" where
  "loop_feedback summary =
     (let raw = (case summary of None \<Rightarrow> [] | Some s \<Rightarrow> s)
      in if length (utf8_chars raw) > 500 then take_chars 500 raw @ ellipsis else raw)"

fun find_done :: "task_db \<Rightarrow> wf_task_row list \<Rightarrow> string option" where
  "find_done db [] = None"
| "find_done db (c # cs) =
     (case get_task (wk_task_id c) db of
        Some task \<Rightarrow> if tk_status task = ''Done'' then Some (wk_task_id c) else find_done db cs
      | None \<Rightarrow> find_done db cs)"

definition find_latest_done_task_for_step ::
  "wf_env \<Rightarrow> wf_task_row list \<Rightarrow> task_db \<Rightarrow> nat \<Rightarrow> string + string" where
  "find_latest_done_task_for_step env wf_tasks db step_idx =
     (case find_done db (sort_key (\<lambda>t. - wk_iteration t)
                           (filter (\<lambda>t. as_usize (wk_step_index t) = step_idx) wf_tasks)) of
        Some t \<Rightarrow> Ok t
      | None \<Rightarrow> Err (''no Done task found for step '' @ nat_str step_idx))"

text \<open>The dependencies of a new task and whether all of them are satisfied already.\<close>

fun loop_deps ::
  "wf_env \<Rightarrow> wf_task_row list \<Rightarrow> task_db \<Rightarrow> nat \<Rightarrow> (nat \<times> string) list \<Rightarrow> nat list
     \<Rightarrow> string + (string list \<times> bool)" where
  "loop_deps env wf_tasks db target new_ids [] = Ok ([], True)"
| "loop_deps env wf_tasks db target new_ids (dep_idx # deps) =
     (if target \<le> dep_idx then
        (case loop_deps env wf_tasks db target new_ids deps of
           Inl e \<Rightarrow> Err e
         | Inr (ids, satisfied) \<Rightarrow>
             (case map_of new_ids dep_idx of
                Some i \<Rightarrow> Ok (i # ids, False)
              | None \<Rightarrow> Ok (ids, satisfied)))
      else
        (case find_latest_done_task_for_step env wf_tasks db dep_idx of
           Inl e \<Rightarrow> Err e
         | Inr i \<Rightarrow>
             (case loop_deps env wf_tasks db target new_ids deps of
                Inl e \<Rightarrow> Err e
              | Inr (ids, satisfied) \<Rightarrow> Ok (i # ids, satisfied))))"

text \<open>Summaries of the earlier iterations of the gate, the ten latest.\<close>

definition prior_summaries ::
  "wf_env \<Rightarrow> wf_task_row list \<Rightarrow> task_db \<Rightarrow> nat \<Rightarrow> string \<Rightarrow> json list" where
  "prior_summaries env wf_tasks db gate trigger =
     (let rows = List.map_filter (\<lambda>t. get_task (wk_task_id t) db)
                   (filter (\<lambda>t. as_usize (wk_step_index t) = gate \<and> wk_task_id t \<noteq> trigger) wf_tasks);
          kept = List.map_filter (\<lambda>r. case tk_handoff_summary r of
                     None \<Rightarrow> None | Some s \<Rightarrow> if s = [] then None else Some (r, s)) rows;
          sorted = sort_key (\<lambda>(r, s). tk_loop_iteration r) kept;
          latest = drop (length sorted - 10) sorted
      in map (\<lambda>(r, s). JObject [(''iteration'', JNumber (we_show_int env (tk_loop_iteration r))),
                                (''status'', JString (tk_status r)),
                                (''summary'', JString (take_chars 500 s))]) latest)"

definition loop_mode_str :: "loop_mode \<Rightarrow> string" where
  "loop_mode_str m = (case m of UntilComplete \<Rightarrow> ''until_complete'' | OnFailure \<Rightarrow> ''on_failure'')"

record loop_request =
  lq_flow :: workflow_def
  lq_wt :: wf_task_row
  lq_instance :: instance_row
  lq_iteration :: int
  lq_feedback :: string
  lq_config :: loop_config

definition loop_context :: "wf_env \<Rightarrow> loop_request \<Rightarrow> json list option \<Rightarrow> json" where
  "loop_context env q summaries =
     JObject [(''accumulated_summaries'', case summaries of None \<Rightarrow> JNull | Some s \<Rightarrow> JArray s),
              (''feedback'', JString (lq_feedback q)),
              (''iteration'', JNumber (we_show_int env (lq_iteration q))),
              (''mode'', JString (loop_mode_str (lc_mode (lq_config q)))),
              (''trigger_task_id'', JString (wk_task_id (lq_wt q)))]"

definition loop_task ::
  "wf_env \<Rightarrow> loop_request \<Rightarrow> json list option \<Rightarrow> workflow_step \<Rightarrow> string \<Rightarrow> string list \<Rightarrow> bool
     \<Rightarrow> task_row" where
  "loop_task env q summaries step task_id deps satisfied =
     \<lparr>tk_id = task_id, tk_project_id = in_project_id (lq_instance q), tk_title = ws_title step,
      tk_goal = ws_goal step @ [CHR 0x0A, CHR 0x0A] @ ''[Loop iteration ''
        @ we_show_int env (lq_iteration q) @ ''/''
        @ we_show_int env (uint (lc_max_iterations (lq_config q))) @ '' '' @ em_dash @ '' ''
        @ lq_feedback q @ '']'',
      tk_scope_json = json_of_strs (we_serde env) (ws_scope step),
      tk_dependencies_json = json_of_strs (we_serde env) deps,
      tk_acceptance_json = we_json env (JArray (map (\<lambda>desc. JObject
          [(''check_type'', JString ''ManualApproval''), (''description'', JString desc)])
          (ws_acceptance_criteria step))),
      tk_constraints_json = json_of_strs (we_serde env) (ws_constraints step),
      tk_priority = ws_priority step,
      tk_status = (if deps = [] \<or> satisfied then ''Ready'' else ''Blocked''),
      tk_branch = None, tk_worktree_id = None, tk_handoff_summary = None,
      tk_created_at = we_now env, tk_updated_at = we_now env,
      tk_auto_dispatch = ws_auto_dispatch step,
      tk_agent_profile_override = ws_agent_profile step,
      tk_execution_mode = Some (execution_mode_as_str (ws_execution_mode step)),
      tk_timeout_minutes = map_option sint (ws_timeout_minutes step),
      tk_max_retries = map_option uint (ws_max_retries step),
      tk_loop_iteration = lq_iteration q,
      tk_loop_context_json = Some (we_json env (loop_context env q summaries)),
      tk_forked_from_task_id = None, tk_lineage_summary = None, tk_lineage_depth = 0\<rparr>"

text \<open>The tasks of steps \<open>target..=gate\<close>, one after the other. \<open>k\<close> counts the identifiers
  drawn; \<open>wf_tasks\<close> is the list read before the first insert.\<close>

fun create_loop_tasks ::
  "wf_env \<Rightarrow> loop_request \<Rightarrow> wf_task_row list \<Rightarrow> json list option \<Rightarrow> nat list \<Rightarrow> nat
     \<Rightarrow> (nat \<times> string) list \<Rightarrow> wf_db \<Rightarrow> (string + (nat \<times> string) list) \<times> wf_db" where
  "create_loop_tasks env q wf_tasks summaries [] k new_ids d = (Ok new_ids, d)"
| "create_loop_tasks env q wf_tasks summaries (step_idx # steps) k new_ids d =
     (let step = wf_steps (lq_flow q) ! step_idx;
          task_id = show_uuid (we_serde env) (we_fresh env k);
          db_err = (\<lambda>e. Err (we_show_db env e))
      in case loop_deps env wf_tasks (wd_db d) (lc_target (lq_config q)) new_ids (ws_depends_on step) of
           Inl e \<Rightarrow> (Err e, d)
         | Inr (deps, satisfied) \<Rightarrow>
           (case create_task (loop_task env q summaries step task_id deps satisfied) (wd_db d) of
              (Inl e, _) \<Rightarrow> (db_err e, d)
            | (Inr _, db) \<Rightarrow>
              (let d = d\<lparr>wd_db := db\<rparr>;
                   (r, db) = (if deps = [] then (Ok (), db)
                              else replace_task_dependencies task_id deps db)
               in case r of
                    Inl e \<Rightarrow> (db_err e, d)
                  | Inr _ \<Rightarrow>
                    (let d = d\<lparr>wd_db := db\<rparr> in
                     case add_workflow_task (wk_workflow_id (lq_wt q)) (int step_idx)
                            (lq_iteration q) task_id d of
                       (Inl e, d) \<Rightarrow> (db_err e, d)
                     | (Inr _, d) \<Rightarrow>
                         create_loop_tasks env q wf_tasks summaries steps (Suc k)
                           ((step_idx, task_id) # new_ids) d))))"

text \<open>Tasks of later steps that depend on the trigger task depend on the new gate task.\<close>

fun redirect_downstream ::
  "wf_env \<Rightarrow> nat \<Rightarrow> string \<Rightarrow> string \<Rightarrow> wf_task_row list \<Rightarrow> wf_db \<Rightarrow> (string + unit) \<times> wf_db" where
  "redirect_downstream env gate trigger new_gate [] d = (Ok (), d)"
| "redirect_downstream env gate trigger new_gate (t # ts) d =
     (if as_usize (wk_step_index t) \<le> gate then redirect_downstream env gate trigger new_gate ts d
      else case get_task (wk_task_id t) (wd_db d) of
             None \<Rightarrow> redirect_downstream env gate trigger new_gate ts d
           | Some row \<Rightarrow>
             (let deps = (case strs_of_json (we_serde env) (tk_dependencies_json row) of
                            Inl _ \<Rightarrow> [] | Inr xs \<Rightarrow> xs)
              in if trigger \<notin> set deps then redirect_downstream env gate trigger new_gate ts d
                 else case swap_task_dependency (wk_task_id t) trigger new_gate (wd_db d) of
                        (Inl e, db) \<Rightarrow> (Err (we_show_db env e), d\<lparr>wd_db := db\<rparr>)
                      | (Inr _, db) \<Rightarrow>
                          (let row' = row\<lparr>tk_dependencies_json := json_of_strs (we_serde env)
                                 (map (\<lambda>dep. if dep = trigger then new_gate else dep) deps),
                                tk_updated_at := we_now env\<rparr>
                           in redirect_downstream env gate trigger new_gate ts
                                (d\<lparr>wd_db := update_task row' db\<rparr>))))"

definition create_loop_iteration :: "wf_env \<Rightarrow> loop_request \<Rightarrow> wf_db \<Rightarrow> (string + unit) \<times> wf_db" where
  "create_loop_iteration env q d =
     (let target = lc_target (lq_config q); gate = as_usize (wk_step_index (lq_wt q));
          trigger = wk_task_id (lq_wt q)
      in if target > gate
         then (Err (''loop target '' @ nat_str target @ '' must be <= gate step '' @ nat_str gate), d)
         else
           let wf_tasks = list_workflow_tasks (wk_workflow_id (lq_wt q)) d;
               summaries = (if lc_mode (lq_config q) = UntilComplete
                            then Some (prior_summaries env wf_tasks (wd_db d) gate trigger) else None)
           in case create_loop_tasks env q wf_tasks summaries [target..<Suc gate] 0 [] d of
                (Inl e, d) \<Rightarrow> (Err e, d)
              | (Inr new_ids, d) \<Rightarrow>
                  redirect_downstream env gate trigger (the (map_of new_ids gate)) wf_tasks d)"

text \<open>The checks of \<open>check_loop_trigger\<close>: the row of the task and what to create, if any.\<close>

definition loop_request_for ::
  "wf_env \<Rightarrow> string \<Rightarrow> task_status \<Rightarrow> wf_db \<Rightarrow> string + (task_row \<times> loop_request) option" where
  "loop_request_for env task_id st d =
     (if st \<noteq> Failed \<and> st \<noteq> Done then Ok None else
      case find_workflow_by_task task_id d of None \<Rightarrow> Ok None | Some wt \<Rightarrow>
      case get_workflow_instance (wk_workflow_id wt) d of
        None \<Rightarrow> Err (''workflow instance '' @ [CHR 0x27] @ wk_workflow_id wt @ [CHR 0x27] @ '' not found'')
      | Some inst \<Rightarrow>
      case parse_uuid (we_serde env) (in_project_id inst) of Inl e \<Rightarrow> Err e | Inr pid \<Rightarrow>
      case resolve_workflow_def env (in_workflow_name inst) (show_uuid (we_serde env) pid) d of
        Inl e \<Rightarrow> Err e | Inr flow \<Rightarrow>
      let step_idx = as_usize (wk_step_index wt) in
      if length (wf_steps flow) \<le> step_idx then Ok None else
      case ws_loop_config (wf_steps flow ! step_idx) of None \<Rightarrow> Ok None | Some lc \<Rightarrow>
      case get_task task_id (wd_db d) of
        None \<Rightarrow> Err (''task '' @ [CHR 0x27] @ task_id @ [CHR 0x27] @ '' not found'')
      | Some gate_row \<Rightarrow>
      if lc_mode lc = OnFailure \<and> lc_target lc = step_idx then Ok None else
      if lc_mode lc = OnFailure \<and> st \<noteq> Failed then Ok None else
      if lc_mode lc = UntilComplete \<and> st = Done \<and>
         str_contains (to_lowercase (case tk_handoff_summary gate_row of None \<Rightarrow> [] | Some s \<Rightarrow> s))
           ''<complete>'' then Ok None else
      let current = get_latest_iteration (wk_workflow_id wt) (wk_step_index wt) d in
      if uint (lc_max_iterations lc) \<le> current then Ok None
      else Ok (Some (gate_row,
             \<lparr>lq_flow = flow, lq_wt = wt, lq_instance = inst, lq_iteration = current + 1,
              lq_feedback = loop_feedback (tk_handoff_summary gate_row), lq_config = lc\<rparr>)))"

definition check_loop_trigger ::
  "wf_env \<Rightarrow> string \<Rightarrow> task_status \<Rightarrow> wf_db \<Rightarrow> (string + bool) \<times> wf_db" where
  "check_loop_trigger env task_id st d =
     (case loop_request_for env task_id st d of
        Inl e \<Rightarrow> (Err e, d)
      | Inr None \<Rightarrow> (Ok False, d)
      | Inr (Some (gate_row, q)) \<Rightarrow>
          (case create_loop_iteration env q d of
             (Inl e, d) \<Rightarrow> (Err e, d)
           | (Inr _, d) \<Rightarrow>
               (Ok True, d\<lparr>wd_db := update_task (gate_row\<lparr>tk_status := ''Looped'',
                                      tk_updated_at := we_now env\<rparr>) (wd_db d)\<rparr>)))"

section \<open>Completion is decided by the statuses of the tasks\<close>

definition wf_statuses :: "string \<Rightarrow> wf_db \<Rightarrow> string option set" where
  "wf_statuses w d =
     (\<lambda>wt. map_option tk_status (get_task (wk_task_id wt) (wd_db d)))
       ` {wt \<in> set (wd_wf_tasks d). wk_workflow_id wt = w}"

abbreviation row_status :: "task_db \<Rightarrow> wf_task_row \<Rightarrow> string option" where
  "row_status db wt \<equiv> map_option tk_status (get_task (wk_task_id wt) db)"

lemma flag_task_simps [simp]:
  "all_terminal (flag_task db wt f)
     \<longleftrightarrow> all_terminal f \<and> row_status db wt \<in> Some ` {''Done'', ''Failed'', ''Looped''}"
  "any_failed (flag_task db wt f) \<longleftrightarrow> any_failed f \<or> row_status db wt = Some ''Failed''"
  "only_failed_or_blocked (flag_task db wt f) \<longleftrightarrow>
     only_failed_or_blocked f
     \<and> row_status db wt \<in> Some ` {''Done'', ''Failed'', ''Looped'', ''Blocked''}"
  "any_active (flag_task db wt f)
     \<longleftrightarrow> any_active f \<or> row_status db wt \<in> Some ` {''Ready'', ''InProgress'', ''Review''}"
  by (auto simp: flag_task_def split: option.split)

lemma flags_fold:
  "all_terminal (fold (flag_task db) wts f) \<longleftrightarrow>
     all_terminal f \<and> (\<forall>wt\<in>set wts. row_status db wt \<in> Some ` {''Done'', ''Failed'', ''Looped''})"
  "any_failed (fold (flag_task db) wts f) \<longleftrightarrow>
     any_failed f \<or> (\<exists>wt\<in>set wts. row_status db wt = Some ''Failed'')"
  "only_failed_or_blocked (fold (flag_task db) wts f) \<longleftrightarrow>
     only_failed_or_blocked f
     \<and> (\<forall>wt\<in>set wts. row_status db wt \<in> Some ` {''Done'', ''Failed'', ''Looped'', ''Blocked''})"
  "any_active (fold (flag_task db) wts f) \<longleftrightarrow>
     any_active f
     \<or> (\<exists>wt\<in>set wts. row_status db wt \<in> Some ` {''Ready'', ''InProgress'', ''Review''})"
  by (induction wts arbitrary: f) (simp_all add: conj_assoc disj_assoc del: image_insert)

definition completion_status :: "string option set \<Rightarrow> string option" where
  "completion_status sts =
     (if sts \<subseteq> Some ` {''Done'', ''Failed'', ''Looped''}
      then Some (if Some ''Failed'' \<in> sts then ''Failed'' else ''Completed'')
      else if Some ''Failed'' \<in> sts
              \<and> sts \<subseteq> Some ` {''Done'', ''Failed'', ''Looped'', ''Blocked''}
      then Some ''Failed'' else None)"

text \<open>
  C13. What the end of a task does to its workflow instance depends on the statuses of its
  tasks alone. When all are done, failed or looped the instance becomes failed if one task
  failed and completed otherwise; when some are blocked and the rest ended with a failure it
  becomes failed; otherwise, in particular while a task is planned, ready, dispatching, in
  progress or in review or its row is missing, it stays as it is. A log entry is written if
  and only if the status changes.
\<close>

theorem workflow_completion_exact:
  assumes "find_workflow_by_task task_id d = Some wt"
    "get_workflow_instance (wk_workflow_id wt) d = Some inst"
  shows "snd (check_workflow_completion now em task_id d) =
           (case completion_status (wf_statuses (wk_workflow_id wt) d) of
              None \<Rightarrow> d
            | Some new \<Rightarrow> if new = in_status inst then d
                          else update_workflow_instance_status now (in_id inst) new d)
         \<and> (fst (check_workflow_completion now em task_id d) = [] \<longleftrightarrow>
              completion_status (wf_statuses (wk_workflow_id wt) d) \<in> {None, Some (in_status inst)})"
proof -
  let ?w = "wk_workflow_id wt"
  let ?f = "fold (flag_task (wd_db d)) (list_workflow_tasks ?w d)
    \<lparr>all_terminal = True, any_failed = False, any_active = False, only_failed_or_blocked = True\<rparr>"
  have rows: "wf_statuses ?w d = row_status (wd_db d) ` set (list_workflow_tasks ?w d)"
    by (simp add: wf_statuses_def list_workflow_tasks_def)
  have flags: "all_terminal ?f \<longleftrightarrow> wf_statuses ?w d \<subseteq> Some ` {''Done'', ''Failed'', ''Looped''}"
    "any_failed ?f \<longleftrightarrow> Some ''Failed'' \<in> wf_statuses ?w d"
    "only_failed_or_blocked ?f
       \<longleftrightarrow> wf_statuses ?w d \<subseteq> Some ` {''Done'', ''Failed'', ''Looped'', ''Blocked''}"
    unfolding flags_fold rows image_subset_iff by (simp_all only: simp_thms wf_flags.select_convs image_iff eq_commute)
  have idle: "\<not> any_active ?f" if "only_failed_or_blocked ?f"
    using that unfolding flags_fold by auto
  have "check_workflow_completion now em task_id d =
      (case completion_status (wf_statuses ?w d) of
         None \<Rightarrow> ([], d)
       | Some new \<Rightarrow> update_workflow_instance_status_and_notify now em inst new d)"
    using assms flags idle
    by (simp add: check_workflow_completion_def completion_status_def Let_def)
  then show ?thesis
    by (auto simp: update_workflow_instance_status_and_notify_def split: option.split)
qed

definition sample_instance :: instance_row where
  "sample_instance = \<lparr>in_id = ''w'', in_project_id = ''x'', in_workflow_name = ''flow'',
     in_description = None, in_status = ''Running'', in_created_at = 0, in_updated_at = 0,
     in_params_json = None, in_stage_results_json = None, in_expanded_steps_json = None\<rparr>"

definition wf_row :: "int \<Rightarrow> int \<Rightarrow> string \<Rightarrow> wf_task_row" where
  "wf_row step it task =
     \<lparr>wk_workflow_id = ''w'', wk_step_index = step, wk_iteration = it, wk_task_id = task\<rparr>"

definition stuck_wf :: wf_db where
  "stuck_wf = \<lparr>wd_db = empty_db\<lparr>db_tasks := [sample_row ''a'' 1 ''Failed'', sample_row ''b'' 2 ''Blocked'']\<rparr>,
     wd_workflows = [], wd_instances = [sample_instance],
     wd_wf_tasks = [wf_row 0 0 ''a'', wf_row 1 0 ''b'']\<rparr>"

lemma workflow_completion_exact_witness:
  "snd (check_workflow_completion 5 True ''a'' stuck_wf)
     = update_workflow_instance_status 5 ''w'' ''Failed'' stuck_wf"
proof -
  have "find_workflow_by_task ''a'' stuck_wf = Some (wf_row 0 0 ''a'')"
    "get_workflow_instance (wk_workflow_id (wf_row 0 0 ''a'')) stuck_wf = Some sample_instance"
    by (simp_all add: find_workflow_by_task_def get_workflow_instance_def stuck_wf_def wf_row_def
          sample_instance_def)
  note complete = workflow_completion_exact[OF this, of 5 True]
  have "{wt \<in> set (wd_wf_tasks stuck_wf). wk_workflow_id wt = ''w''} = {wf_row 0 0 ''a'', wf_row 1 0 ''b''}"
    by (auto simp: stuck_wf_def wf_row_def)
  then have "wf_statuses ''w'' stuck_wf = {Some ''Failed'', Some ''Blocked''}"
    by (simp add: wf_statuses_def) (simp add: stuck_wf_def wf_row_def get_task_def sample_row_def empty_db_def)
  with complete show ?thesis
    by (simp add: completion_status_def wf_row_def sample_instance_def)
qed

section \<open>Loops end\<close>

lemma redirect_keeps:
  "redirect_downstream env gate trig new ts d = (r, d') \<Longrightarrow>
     wd_wf_tasks d' = wd_wf_tasks d \<and> wd_workflows d' = wd_workflows d \<and> wd_instances d' = wd_instances d"
proof (induction ts arbitrary: d)
  case (Cons t ts)
  show ?case
  proof (cases "as_usize (wk_step_index t) \<le> gate")
    case True
    with Cons show ?thesis by simp
  next
    case False
    show ?thesis
    proof (cases "get_task (wk_task_id t) (wd_db d)")
      case None
      with Cons False show ?thesis by simp
    next
      case (Some row)
      define deps where "deps = (case strs_of_json (we_serde env) (tk_dependencies_json row) of
                            Inl _ \<Rightarrow> [] | Inr xs \<Rightarrow> xs)"
      show ?thesis
      proof (cases "trig \<in> set deps")
        case False
        with Cons \<open>\<not> as_usize (wk_step_index t) \<le> gate\<close> Some show ?thesis
          by (simp add: deps_def)
      next
        case in_deps: True
        obtain res db where sw: "swap_task_dependency (wk_task_id t) trig new (wd_db d) = (res, db)"
          by fastforce
        with Cons.prems False Some in_deps Cons.IH show ?thesis
          by (cases res) (fastforce simp: deps_def[symmetric] Let_def)+
      qed
    qed
  qed
qed simp

definition loop_rows :: "loop_request \<Rightarrow> (nat \<times> string) list \<Rightarrow> wf_task_row list" where
  "loop_rows q ids = map (\<lambda>(i, t). \<lparr>wk_workflow_id = wk_workflow_id (lq_wt q), wk_step_index = int i,
     wk_iteration = lq_iteration q, wk_task_id = t\<rparr>) ids"

lemma create_loop_tasks_keeps:
  "create_loop_tasks env q wfts sums steps k ids d = (r, d') \<Longrightarrow>
     wd_workflows d' = wd_workflows d \<and> wd_instances d' = wd_instances d
     \<and> (\<exists>new. wd_wf_tasks d' = wd_wf_tasks d @ loop_rows q new
           \<and> map fst new = take (length new) steps
           \<and> (is_ok r \<longrightarrow> length new = length steps))"
proof (induction steps arbitrary: k ids d)
  case Nil
  then show ?case by (auto intro!: exI[of _ "[]"] simp: loop_rows_def)
next
  case (Cons step_idx steps)
  let ?id = "show_uuid (we_serde env) (we_fresh env k)"
  have stop: ?case if "wd_wf_tasks d' = wd_wf_tasks d" "wd_workflows d' = wd_workflows d"
      "wd_instances d' = wd_instances d" "\<not> is_ok r"
    using that by (auto intro!: exI[of _ "[]"] simp: loop_rows_def)
  show ?case
  proof (cases "loop_deps env wfts (wd_db d) (lc_target (lq_config q)) ids
      (ws_depends_on (wf_steps (lq_flow q) ! step_idx))")
    case (Inl e)
    with Cons.prems show ?thesis by (intro stop) (auto simp: Let_def)
  next
    case (Inr p)
    obtain deps sat where p: "p = (deps, sat)" by fastforce
    let ?row = "loop_task env q sums (wf_steps (lq_flow q) ! step_idx) ?id deps sat"
    obtain r1 db1 where c1: "create_task ?row (wd_db d) = (r1, db1)" by fastforce
    obtain r2 db2 where c2: "(if deps = [] then (Ok (), db1) else replace_task_dependencies ?id deps db1)
        = (r2, db2)" by fastforce
    obtain r3 d3 where c3: "add_workflow_task (wk_workflow_id (lq_wt q)) (int step_idx)
        (lq_iteration q) ?id (d\<lparr>wd_db := db1, wd_db := db2\<rparr>) = (r3, d3)" by fastforce
    show ?thesis
    proof (cases "is_ok r1 \<and> is_ok r2 \<and> is_ok r3")
      case False
      with Cons.prems Inr p c1 c2 c3 show ?thesis
        by (intro stop; cases r1; cases r2; cases r3)
           (auto simp: Let_def add_workflow_task_def split: if_splits)
    next
      case True
      then have oks: "r1 = Ok ()" "r2 = Ok ()" "r3 = Ok ()" by (auto elim!: is_okE)
      from Cons.prems Inr p c1 c2 c3 oks have rec:
        "create_loop_tasks env q wfts sums steps (Suc k) ((step_idx, ?id) # ids) d3 = (r, d')"
        by (simp add: Let_def)
      have d3: "wd_wf_tasks d3 = wd_wf_tasks d @ loop_rows q [(step_idx, ?id)]"
        "wd_workflows d3 = wd_workflows d" "wd_instances d3 = wd_instances d"
        using c3 oks(3) by (auto simp: add_workflow_task_def loop_rows_def split: if_splits)
      have "wd_workflows d' = wd_workflows d3 \<and> wd_instances d' = wd_instances d3
        \<and> (\<exists>new. wd_wf_tasks d' = wd_wf_tasks d3 @ loop_rows q new
              \<and> map fst new = take (length new) steps \<and> (is_ok r \<longrightarrow> length new = length steps))"
        by (rule Cons.IH[OF rec])
      then obtain new where "wd_wf_tasks d' = wd_wf_tasks d3 @ loop_rows q new"
        "map fst new = take (length new) steps" "is_ok r \<longrightarrow> length new = length steps"
        "wd_workflows d' = wd_workflows d3" "wd_instances d' = wd_instances d3" by blast
      with d3 show ?thesis
        by (intro conjI exI[of _ "(step_idx, ?id) # new"]) (simp_all add: loop_rows_def)
    qed
  qed
qed

definition loop_config_at :: "wf_env \<Rightarrow> wf_db \<Rightarrow> string \<Rightarrow> int \<Rightarrow> loop_config option" where
  "loop_config_at env d w s =
     (case get_workflow_instance w d of None \<Rightarrow> None | Some inst \<Rightarrow>
      case parse_uuid (we_serde env) (in_project_id inst) of Inl _ \<Rightarrow> None | Inr pid \<Rightarrow>
      case resolve_workflow_def env (in_workflow_name inst) (show_uuid (we_serde env) pid) d of
        Inl _ \<Rightarrow> None
      | Inr flow \<Rightarrow>
          if length (wf_steps flow) \<le> as_usize s then None
          else ws_loop_config (wf_steps flow ! as_usize s))"

lemma loop_config_at_cong:
  "wd_workflows d' = wd_workflows d \<Longrightarrow> wd_instances d' = wd_instances d
     \<Longrightarrow> loop_config_at env d' = loop_config_at env d"
proof -
  assume "wd_workflows d' = wd_workflows d" "wd_instances d' = wd_instances d"
  then have "get_workflow_instance i d' = get_workflow_instance i d"
    "resolve_workflow_def env n p d' = resolve_workflow_def env n p d" for i n p
    by (simp_all add: get_workflow_instance_def resolve_workflow_def_def get_workflow_by_name_def)
  then show ?thesis
    by (intro ext) (simp add: loop_config_at_def cong: option.case_cong sum.case_cong)
qed

definition rows_ok :: "wf_db \<Rightarrow> bool" where
  "rows_ok d \<longleftrightarrow> (\<forall>r\<in>set (wd_wf_tasks d). 0 \<le> wk_iteration r \<and> 0 \<le> wk_step_index r
     \<and> wk_step_index r < 2 ^ 63)"

definition grows_by :: "wf_db \<Rightarrow> string \<Rightarrow> int \<Rightarrow> nat list \<Rightarrow> wf_db \<Rightarrow> bool" where
  "grows_by d w n steps d' \<longleftrightarrow> wd_workflows d' = wd_workflows d \<and> wd_instances d' = wd_instances d
     \<and> (\<exists>ts. length ts = length steps \<and> wd_wf_tasks d' = wd_wf_tasks d
          @ map (\<lambda>(i, t). \<lparr>wk_workflow_id = w, wk_step_index = int i, wk_iteration = n,
                            wk_task_id = t\<rparr>) (zip steps ts))"

lemma create_loop_iteration_grows:
  assumes "create_loop_iteration env q d = (r, d')"
  defines "gate \<equiv> as_usize (wk_step_index (lq_wt q))"
  shows "\<exists>k. grows_by d (wk_workflow_id (lq_wt q)) (lq_iteration q)
               (take k [lc_target (lq_config q)..<Suc gate]) d'
           \<and> (is_ok r \<longrightarrow> lc_target (lq_config q) \<le> gate \<and> Suc gate \<le> lc_target (lq_config q) + k)"
proof (cases "lc_target (lq_config q) > gate")
  case True
  with assms(1) show ?thesis
    by (auto intro!: exI[of _ 0] simp: create_loop_iteration_def gate_def grows_by_def Let_def)
next
  case False
  let ?steps = "[lc_target (lq_config q)..<Suc gate]"
  let ?wfts = "list_workflow_tasks (wk_workflow_id (lq_wt q)) d"
  let ?sums = "if lc_mode (lq_config q) = UntilComplete
      then Some (prior_summaries env ?wfts (wd_db d) gate (wk_task_id (lq_wt q))) else None"
  obtain r1 d1 where c: "create_loop_tasks env q ?wfts ?sums ?steps 0 [] d = (r1, d1)" by fastforce
  have k: "wd_workflows d' = wd_workflows d1 \<and> wd_instances d' = wd_instances d1
      \<and> wd_wf_tasks d' = wd_wf_tasks d1 \<and> (is_ok r \<longrightarrow> is_ok r1)"
    using assms(1) c False redirect_keeps
    by (cases r1) (fastforce simp: create_loop_iteration_def gate_def[symmetric] Let_def)+
  from create_loop_tasks_keeps[OF c] obtain new where new:
    "wd_wf_tasks d1 = wd_wf_tasks d @ loop_rows q new" "map fst new = take (length new) ?steps"
    "is_ok r1 \<longrightarrow> length new = length ?steps"
    "wd_workflows d1 = wd_workflows d" "wd_instances d1 = wd_instances d" by blast
  have "new = zip (take (length new) ?steps) (map snd new)"
    using new(2) by (metis zip_map_fst_snd)
  moreover have "length (map snd new) = length (take (length new) ?steps)"
    using arg_cong[OF new(2), of length] by simp
  ultimately have "grows_by d (wk_workflow_id (lq_wt q)) (lq_iteration q)
      (take (length new) ?steps) d'"
    using new k unfolding grows_by_def loop_rows_def by metis
  moreover have "is_ok r \<longrightarrow> Suc gate \<le> lc_target (lq_config q) + length new"
    using k new(3) by auto
  ultimately show ?thesis using False by (intro exI[of _ "length new"]) auto
qed

lemma loop_request_forD:
  assumes "loop_request_for env t st d = Ok (Some (row, q))"
  shows "find_workflow_by_task t d = Some (lq_wt q)"
    and "loop_config_at env d (wk_workflow_id (lq_wt q)) (wk_step_index (lq_wt q)) = Some (lq_config q)"
    and "lq_iteration q
           = get_latest_iteration (wk_workflow_id (lq_wt q)) (wk_step_index (lq_wt q)) d + 1"
    and "lq_iteration q \<le> uint (lc_max_iterations (lq_config q))"
    and "st \<in> {Failed, Done}"
  using assms
  by (auto simp: loop_request_for_def loop_config_at_def Let_def
        split: if_splits option.splits sum.splits)

lemma check_loop_trigger_cases:
  assumes "check_loop_trigger env t st d = (r, d')"
  obtains "d' = d" "r \<noteq> Ok True"
  | row q k where "loop_request_for env t st d = Ok (Some (row, q))"
      "grows_by d (wk_workflow_id (lq_wt q)) (lq_iteration q)
         (take k [lc_target (lq_config q)..<Suc (as_usize (wk_step_index (lq_wt q)))]) d'"
      "r = Ok True \<Longrightarrow> lc_target (lq_config q) \<le> as_usize (wk_step_index (lq_wt q))
         \<and> Suc (as_usize (wk_step_index (lq_wt q))) \<le> lc_target (lq_config q) + k"
proof (cases "loop_request_for env t st d")
  case (Inl e)
  with assms show thesis by (intro that(1)) (auto simp: check_loop_trigger_def)
next
  case (Inr o1)
  show thesis
  proof (cases o1)
    case None
    with assms Inr show thesis by (intro that(1)) (auto simp: check_loop_trigger_def)
  next
    case (Some p)
    obtain row q where p: "p = (row, q)" by fastforce
    obtain res d1 where c: "create_loop_iteration env q d = (res, d1)" by fastforce
    from create_loop_iteration_grows[OF c] obtain k where
      k: "grows_by d (wk_workflow_id (lq_wt q)) (lq_iteration q)
            (take k [lc_target (lq_config q)..<Suc (as_usize (wk_step_index (lq_wt q)))]) d1"
      "is_ok res \<longrightarrow> lc_target (lq_config q) \<le> as_usize (wk_step_index (lq_wt q))
         \<and> Suc (as_usize (wk_step_index (lq_wt q))) \<le> lc_target (lq_config q) + k" by blast
    have "grows_by d w n steps d' = grows_by d w n steps d1" for w n steps
      using assms Inr Some p c
      by (cases res) (auto simp: check_loop_trigger_def grows_by_def)
    moreover have "r = Ok True \<Longrightarrow> is_ok res"
      using assms Inr Some p c by (cases res) (auto simp: check_loop_trigger_def)
    ultimately show thesis using that(2)[of row q k] Inr Some p k by blast
  qed
qed

lemma grows_latest:
  assumes g: "grows_by d w n steps d'" and ok: "rows_ok d" and n: "0 \<le> n"
  shows "get_latest_iteration w' s' d \<le> get_latest_iteration w' s' d'"
    and "get_latest_iteration w' s' d' \<le> max (get_latest_iteration w' s' d) n"
    and "i \<in> set steps \<Longrightarrow> n \<le> get_latest_iteration w (int i) d'"
proof -
  obtain ts where ts: "length ts = length steps" "wd_wf_tasks d' = wd_wf_tasks d
      @ map (\<lambda>(i, t). \<lparr>wk_workflow_id = w, wk_step_index = int i, wk_iteration = n, wk_task_id = t\<rparr>)
          (zip steps ts)"
    using g by (auto simp: grows_by_def)
  let ?P = "\<lambda>r. wk_workflow_id r = w' \<and> wk_step_index r = s'"
  let ?A = "wk_iteration ` {r \<in> set (wd_wf_tasks d). ?P r}"
  let ?B = "wk_iteration ` {r \<in> set (wd_wf_tasks d'). ?P r}"
  have latest: "get_latest_iteration w' s' e
      = (if {r \<in> set (wd_wf_tasks e). ?P r} = {} then 0
         else Max (wk_iteration ` {r \<in> set (wd_wf_tasks e). ?P r}))" for e
    by (auto simp: get_latest_iteration_def filter_empty_conv)
  have sub: "?A \<subseteq> ?B" "?B \<subseteq> insert n ?A"
    using ts(2) by (auto simp: image_iff)
  have fin: "finite ?A" "finite ?B" by simp_all
  have nonneg: "0 \<le> x" if "x \<in> ?B" for x
    using that sub(2) ok n by (auto simp: rows_ok_def)
  show "get_latest_iteration w' s' d \<le> get_latest_iteration w' s' d'"
  proof (cases "{r \<in> set (wd_wf_tasks d). ?P r} = {}")
    case True
    then show ?thesis using nonneg Max_in[OF fin(2)] by (auto simp: latest)
  next
    case False
    then have "?A \<noteq> {}" "?B \<noteq> {}" using sub(1) by auto
    then show ?thesis using Max_mono[OF sub(1) _ fin(2)] False by (auto simp: latest)
  qed
  show "get_latest_iteration w' s' d' \<le> max (get_latest_iteration w' s' d) n"
  proof (cases "{r \<in> set (wd_wf_tasks d'). ?P r} = {}")
    case True
    with n show ?thesis by (simp add: latest[of d'])
  next
    case False
    then have "Max ?B \<in> insert n ?A" using Max_in[OF fin(2)] sub(2) by blast
    moreover have "x \<le> get_latest_iteration w' s' d" if "x \<in> ?A" for x
      using that latest_iteration_ge[of _ d w' s'] by auto
    ultimately have "Max ?B \<le> max (get_latest_iteration w' s' d) n" by fastforce
    moreover have "get_latest_iteration w' s' d' = Max ?B" using False by (simp only: latest[of d'] if_False)
    ultimately show ?thesis by (simp only:)
  qed
  show "n \<le> get_latest_iteration w (int i) d'" if mem: "i \<in> set steps"
  proof -
    obtain j where j: "j < length steps" "steps ! j = i" using mem by (auto simp: in_set_conv_nth)
    then have "(i, ts ! j) \<in> set (zip steps ts)" using ts(1) by (auto simp: set_zip)
    then have "\<lparr>wk_workflow_id = w, wk_step_index = int i, wk_iteration = n, wk_task_id = ts ! j\<rparr>
        \<in> set (wd_wf_tasks d')" using ts(2) by force
    from latest_iteration_ge[OF this, of w "int i"] show ?thesis by simp
  qed
qed

lemma latest_nonneg:
  assumes "rows_ok d"
  shows "0 \<le> get_latest_iteration w s d"
proof (cases "filter (\<lambda>r. wk_workflow_id r = w \<and> wk_step_index r = s) (wd_wf_tasks d) = []")
  case False
  then obtain r where "r \<in> set (wd_wf_tasks d)" "wk_workflow_id r = w" "wk_step_index r = s"
    by (auto simp: filter_empty_conv)
  with assms latest_iteration_ge[of r d w s] show ?thesis by (force simp: rows_ok_def)
qed (simp add: get_latest_iteration_def)

lemma grows_rows_ok:
  assumes "grows_by d w n steps d'" "rows_ok d" "0 \<le> n" "\<forall>i\<in>set steps. i < 2 ^ 63"
  shows "rows_ok d'"
proof -
  have "int i < 2 ^ 63" if "i \<in> set steps" for i
  proof -
    have "int i < int (2 ^ 63)" using assms(4) that by (simp only: of_nat_less_iff)
    then show ?thesis by simp
  qed
  with assms show ?thesis by (auto simp: grows_by_def rows_ok_def dest!: set_zip_leftD)
qed

lemma as_usize_row:
  assumes "find_workflow_by_task t d = Some wt" "rows_ok d"
  shows "int (as_usize (wk_step_index wt)) = wk_step_index wt" "as_usize (wk_step_index wt) < 2 ^ 63"
proof -
  from assms have r: "0 \<le> wk_step_index wt" "wk_step_index wt < 2 ^ 63"
    by (auto simp: find_workflow_by_task_def rows_ok_def find_Some_iff)
  then have "wk_step_index wt mod 2 ^ 64 = wk_step_index wt" by simp
  with r show "int (as_usize (wk_step_index wt)) = wk_step_index wt"
    "as_usize (wk_step_index wt) < 2 ^ 63" by (simp_all add: as_usize_def nat_less_iff)
qed

text \<open>
  A history of ends of tasks: before each, the task tables may change in any way. It returns
  the workflow and the step of every loop that was triggered.
\<close>

fun trigger_run ::
  "wf_env \<Rightarrow> ((task_db \<Rightarrow> task_db) \<times> string \<times> task_status) list \<Rightarrow> wf_db \<Rightarrow> (string \<times> int) list \<times> wf_db"
where
  "trigger_run env [] d = ([], d)"
| "trigger_run env ((f, t, st) # cs) d =
     (let d0 = d\<lparr>wd_db := f (wd_db d)\<rparr>;
          (r, d1) = check_loop_trigger env t st d0;
          (ks, d2) = trigger_run env cs d1
      in ((case find_workflow_by_task t d0 of
             Some wt \<Rightarrow> if r = Ok True then [(wk_workflow_id wt, wk_step_index wt)] else []
           | None \<Rightarrow> []) @ ks, d2))"

lemma trigger_step:
  assumes ok: "rows_ok d" and c: "check_loop_trigger env t st d = (r, d')"
    and lc: "loop_config_at env d w s = Some lc"
  defines "hit \<equiv> (case find_workflow_by_task t d of
             Some wt \<Rightarrow> r = Ok True \<and> wk_workflow_id wt = w \<and> wk_step_index wt = s | None \<Rightarrow> False)"
  shows "rows_ok d' \<and> loop_config_at env d' = loop_config_at env d
    \<and> get_latest_iteration w s d \<le> get_latest_iteration w s d'
    \<and> (hit \<longrightarrow> get_latest_iteration w s d' = get_latest_iteration w s d + 1
             \<and> get_latest_iteration w s d' \<le> uint (lc_max_iterations lc))"
  using c
proof (cases rule: check_loop_trigger_cases)
  case 1
  with ok show ?thesis by (simp add: hit_def split: option.split)
next
  case (2 row q k)
  note q = loop_request_forD[OF 2(1)]
  note su = as_usize_row[OF q(1) ok]
  let ?steps = "take k [lc_target (lq_config q)..<Suc (as_usize (wk_step_index (lq_wt q)))]"
  have n: "0 \<le> lq_iteration q" using q(3) latest_nonneg[OF ok] by (simp add: le_add1)
  have "\<forall>i\<in>set ?steps. i < 2 ^ 63" using su(2) by (auto dest!: in_set_takeD)
  from grows_rows_ok[OF 2(2) ok n this] have "rows_ok d'" .
  moreover have "loop_config_at env d' = loop_config_at env d"
    using 2(2) by (intro loop_config_at_cong) (simp_all add: grows_by_def)
  moreover note grows_latest(1)[OF 2(2) ok n, of w s]
  moreover have "get_latest_iteration w s d' = get_latest_iteration w s d + 1
      \<and> get_latest_iteration w s d' \<le> uint (lc_max_iterations lc)" if hit
  proof -
    from that q(1) have h: "r = Ok True" "wk_workflow_id (lq_wt q) = w" "wk_step_index (lq_wt q) = s"
      by (simp_all add: hit_def)
    from q(2) h lc have "lq_config q = lc" by simp
    with q(3,4) h have it: "lq_iteration q = get_latest_iteration w s d + 1"
      "lq_iteration q \<le> uint (lc_max_iterations lc)" by simp_all
    have "?steps = [lc_target (lq_config q)..<Suc (as_usize (wk_step_index (lq_wt q)))]"
      using 2(3)[OF h(1)] by (intro take_all) (simp only: length_upt, arith)
    then have "as_usize (wk_step_index (lq_wt q)) \<in> set ?steps" using 2(3)[OF h(1)] by simp
    from grows_latest(3)[OF 2(2) ok n this] su(1) h have "lq_iteration q \<le> get_latest_iteration w s d'"
      by simp
    with grows_latest(2)[OF 2(2) ok n, of w s] it show ?thesis by simp
  qed
  ultimately show ?thesis by blast
qed


section \<open>Loops that share a step\<close>

text \<open>
  Two gates whose loops share their first step use the same iteration numbers, and the
  table of workflow tasks has one row for a step and an iteration. The second gate to fail
  therefore fails on the constraint, after the task of the first step was created: that task
  stays as a ready task which belongs to no workflow, and the loop is not triggered.
\<close>

theorem overlapping_iteration_leaves_orphan:
  assumes "lc_target (lq_config q) \<le> as_usize (wk_step_index (lq_wt q))"
    and "(wk_workflow_id (lq_wt q), int (lc_target (lq_config q)), lq_iteration q)
           \<in> wf_key ` set (wd_wf_tasks d)"
    and "ws_depends_on (wf_steps (lq_flow q) ! lc_target (lq_config q)) = []"
    and "show_uuid (we_serde env) (we_fresh env 0) \<notin> task_ids (wd_db d)"
    and "in_project_id (lq_instance q) \<in> set (db_projects (wd_db d))"
  shows "\<exists>row. tk_status row = ''Ready'' \<and> tk_id row = show_uuid (we_serde env) (we_fresh env 0)
           \<and> create_loop_iteration env q d
             = (Err (we_show_db env PrimaryKey),
                d\<lparr>wd_db := wd_db d\<lparr>db_tasks := db_tasks (wd_db d) @ [row]\<rparr>\<rparr>)"
proof -
  let ?t = "lc_target (lq_config q)" and ?g = "as_usize (wk_step_index (lq_wt q))"
  let ?wfts = "list_workflow_tasks (wk_workflow_id (lq_wt q)) d"
  define sums where "sums = (if lc_mode (lq_config q) = UntilComplete
      then Some (prior_summaries env ?wfts (wd_db d) ?g (wk_task_id (lq_wt q))) else None)"
  define row where "row = loop_task env q sums (wf_steps (lq_flow q) ! ?t)
      (show_uuid (we_serde env) (we_fresh env 0)) [] True"
  have ids: "tk_id row = show_uuid (we_serde env) (we_fresh env 0)" "tk_status row = ''Ready''"
    "tk_project_id row = in_project_id (lq_instance q)" by (simp_all add: row_def loop_task_def)
  have steps: "[?t..<Suc ?g] = ?t # [Suc ?t..<Suc ?g]" using assms(1) by (simp add: upt_conv_Cons)
  have "create_loop_tasks env q ?wfts sums [?t..<Suc ?g] 0 [] d
      = (Err (we_show_db env PrimaryKey),
         d\<lparr>wd_db := wd_db d\<lparr>db_tasks := db_tasks (wd_db d) @ [row]\<rparr>\<rparr>)"
    unfolding steps using assms(2-) ids
    by (simp add: Let_def create_task_def add_workflow_task_def row_def)
  with assms(1) ids show ?thesis by (auto simp: create_loop_iteration_def Let_def sums_def)
qed

definition loop_step :: workflow_step where
  "loop_step = sample_step []
     \<lparr>ws_loop_config := Some \<lparr>lc_target = 0, lc_max_iterations = 1, lc_mode = UntilComplete\<rparr>\<rparr>"

definition loop_flow :: workflow_def where
  "loop_flow = \<lparr>wf_name = ''flow'', wf_description = None, wf_steps = [loop_step, loop_step]\<rparr>"

definition loop_env :: wf_env where
  "loop_env = \<lparr>we_serde = plain_serde, we_fresh = (\<lambda>k. of_nat (Suc k)), we_now = 9,
     we_json = (\<lambda>_. ''j''), we_from_str = (\<lambda>_. Ok loop_flow), we_listing = None, we_global = None,
     we_show_error = (\<lambda>_. ''e''), we_show_db = (\<lambda>_. ''db''), we_show_int = (\<lambda>_. ''1'')\<rparr>"

definition loop_db :: wf_db where
  "loop_db = \<lparr>wd_db = empty_db\<lparr>db_projects := [''x''],
       db_tasks := [sample_row ''a'' 1 ''Failed'', sample_row ''b'' 2 ''Failed'']\<rparr>,
     wd_workflows = [\<lparr>wr_id = ''f'', wr_project_id = ''x'', wr_name = ''flow'', wr_description = None,
       wr_definition_yaml = ''y'', wr_source = ''s'', wr_created_at = 0, wr_updated_at = 0\<rparr>],
     wd_instances = [sample_instance],
     wd_wf_tasks = [wf_row 0 0 ''a'', wf_row 1 0 ''b'', wf_row 0 1 ''a2'']\<rparr>"

lemma loop_flow_name: "str_trim ''flow'' = ''flow''"
  by (simp add: str_trim_graphic is_ascii_graphic_def)

lemma loop_flow_loads: "from_yaml (\<lambda>_. Ok loop_flow) y = Some (Ok loop_flow)"
proof -
  have "has_cycle (wf_steps loop_flow) = Some False"
    by (simp add: loop_flow_def loop_step_def sample_step_def has_cycle_def dfs.simps upt_rec)
  moreover have "check_steps (length (wf_steps loop_flow)) 0 (wf_steps loop_flow) = None"
    "str_trim (wf_name loop_flow) \<noteq> []" "wf_steps loop_flow \<noteq> []"
    by (simp_all add: loop_flow_def loop_step_def sample_step_def check_step_def check_rest_def check_loop_def
          loop_flow_name)
  ultimately show ?thesis by (simp add: from_yaml_def validate_def)
qed

lemma overlapping_iteration_leaves_orphan_witness:
  "\<exists>row. tk_status row = ''Ready''
     \<and> create_loop_iteration loop_env
         \<lparr>lq_flow = loop_flow, lq_wt = wf_row 1 0 ''b'', lq_instance = sample_instance,
          lq_iteration = 1, lq_feedback = [],
          lq_config = \<lparr>lc_target = 0, lc_max_iterations = 1, lc_mode = UntilComplete\<rparr>\<rparr> loop_db
       = (Err ''db'', loop_db\<lparr>wd_db := wd_db loop_db\<lparr>db_tasks := db_tasks (wd_db loop_db) @ [row]\<rparr>\<rparr>)"
  using overlapping_iteration_leaves_orphan[of
      "\<lparr>lq_flow = loop_flow, lq_wt = wf_row 1 0 ''b'', lq_instance = sample_instance,
        lq_iteration = 1, lq_feedback = [],
        lq_config = \<lparr>lc_target = 0, lc_max_iterations = 1, lc_mode = UntilComplete\<rparr>\<rparr>" loop_db loop_env]
  by (simp add: loop_env_def loop_db_def wf_row_def sample_instance_def plain_serde_def loop_flow_def
        loop_step_def sample_step_def as_usize_def wf_key_def task_ids_def empty_db_def sample_row_def) blast


end
