(* ===== verification/Effects.thy ===== *)
theory Effects
  imports Workflow_Store Git_Worktrees Task_Rows Utf8
begin

text \<open>
  The operations that change the database, run programs and touch files. An operation
  returns a value or an error message and the world after it; \<open>and_then\<close> is the question
  mark operator: an error ends the operation and what was done before it stays. What
  programs, the file system and the git service answer depends on everything that was done
  before, \<open>w_acts\<close>, and is a field of \<open>x_env\<close>. Fresh identifiers and clock readings are
  numbered by \<open>w_seq\<close>. The git helpers are those of \<open>pnevma-commands/src/commands/mod.rs\<close>.
\<close>

section \<open>The world\<close>

datatype act =
    Ran string "string list"
  | RemoveDirAll string
  | RemoveFile string
  | RanHooks string "string list"
  | ServiceCall
  | CreateDirAll string
  | WriteFile string string

datatype proc = SpawnError string | Ended bool string string

datatype path_meta = IsDir | IsOther | NotFound | MetaError string

record check_run_row =
  cr_id :: string
  cr_project_id :: string
  cr_task_id :: string
  cr_status :: string
  cr_summary :: "string option"
  cr_created_at :: time

record check_result_row =
  cs_id :: string
  cs_check_run_id :: string
  cs_project_id :: string
  cs_task_id :: string
  cs_description :: string
  cs_check_type :: string
  cs_command :: "string option"
  cs_passed :: bool
  cs_output :: "string option"
  cs_created_at :: time

record review_row =
  rv_id :: string
  rv_task_id :: string
  rv_status :: string
  rv_review_pack_path :: string
  rv_reviewer_notes :: "string option"
  rv_approved_at :: "time option"

record merge_queue_row =
  mq_id :: string
  mq_project_id :: string
  mq_task_id :: string
  mq_status :: string
  mq_blocked_reason :: "string option"
  mq_approved_at :: time
  mq_started_at :: "time option"
  mq_completed_at :: "time option"

record checkpoint_row =
  cp_id :: string
  cp_project_id :: string
  cp_task_id :: "string option"
  cp_git_ref :: string
  cp_session_metadata_json :: string
  cp_created_at :: time
  cp_description :: "string option"

datatype log_entry =
    Event string string
  | Emitted string string
  | Notified string string
  | TrackerSync string string

record world =
  w_wf :: wf_db
  w_runs :: "check_run_row list"
  w_results :: "check_result_row list"
  w_reviews :: "review_row list"
  w_queue :: "merge_queue_row list"
  w_checkpoints :: "checkpoint_row list"
  w_git :: git_service
  w_acts :: "act list"
  w_log :: "log_entry list"
  w_seq :: nat

record x_env =
  x_serde :: serde
  x_fresh :: "nat \<Rightarrow> uuid"
  x_now :: "nat \<Rightarrow> time"
  x_show_db :: "db_error \<Rightarrow> string"
  x_run :: "act list \<Rightarrow> string \<Rightarrow> string list \<Rightarrow> proc"
  x_meta :: "act list \<Rightarrow> string \<Rightarrow> path_meta"
  x_remove :: "act list \<Rightarrow> act \<Rightarrow> string option"
  x_git :: "act list \<Rightarrow> git_env"
  x_before_remove :: "act list \<Rightarrow> string list option"

abbreviation w_db :: "world \<Rightarrow> task_db" where
  "w_db w \<equiv> wd_db (w_wf w)"

section \<open>Operations\<close>

type_synonym 'a oper = "world \<Rightarrow> (string + 'a) \<times> world"

definition give :: "'a \<Rightarrow> 'a oper" where
  "give x w = (Ok x, w)"

definition fail :: "string \<Rightarrow> 'a oper" where
  "fail e w = (Err e, w)"

definition and_then :: "'a oper \<Rightarrow> ('a \<Rightarrow> 'b oper) \<Rightarrow> 'b oper" where
  "and_then m f w = (case m w of (Inl e, w') \<Rightarrow> (Err e, w') | (Inr x, w') \<Rightarrow> f x w')"

definition settle :: "'a oper \<Rightarrow> (string + 'a) oper" where
  "settle m w = (case m w of (r, w') \<Rightarrow> (Ok r, w'))"

definition read :: "(world \<Rightarrow> 'a) \<Rightarrow> 'a oper" where
  "read f w = (Ok (f w), w)"

definition change :: "(world \<Rightarrow> world) \<Rightarrow> unit oper" where
  "change f w = (Ok (), f w)"

definition draw :: "(nat \<Rightarrow> 'a) \<Rightarrow> 'a oper" where
  "draw f w = (Ok (f (w_seq w)), w\<lparr>w_seq := Suc (w_seq w)\<rparr>)"

definition or_fail :: "string \<Rightarrow> 'a option \<Rightarrow> 'a oper" where
  "or_fail e x = (case x of None \<Rightarrow> fail e | Some y \<Rightarrow> give y)"

definition of_result :: "string + 'a \<Rightarrow> 'a oper" where
  "of_result r w = (r, w)"

definition log_event :: "log_entry \<Rightarrow> unit oper" where
  "log_event l = change (\<lambda>w. w\<lparr>w_log := w_log w @ [l]\<rparr>)"

definition on_tasks :: "(task_db \<Rightarrow> task_db) \<Rightarrow> unit oper" where
  "on_tasks f = change (\<lambda>w. w\<lparr>w_wf := (w_wf w)\<lparr>wd_db := f (w_db w)\<rparr>\<rparr>)"

text \<open>
  What holds after an operation, as a predicate on its result and the world after it. The
  rules compute it backwards through the operation.
\<close>

definition after :: "'a oper \<Rightarrow> world \<Rightarrow> (string + 'a \<Rightarrow> world \<Rightarrow> bool) \<Rightarrow> bool" where
  "after m w Q = (case m w of (r, w') \<Rightarrow> Q r w')"

named_theorems after_simps

lemma after_give [after_simps]: "after (give x) w Q = Q (Ok x) w"
  by (simp add: after_def give_def)

lemma after_fail [after_simps]: "after (fail e) w Q = Q (Err e) w"
  by (simp add: after_def fail_def)

lemma after_and_then [after_simps]:
  "after (and_then m f) w Q
     = after m w (\<lambda>r w'. case r of Inl e \<Rightarrow> Q (Err e) w' | Inr x \<Rightarrow> after (f x) w' Q)"
  by (auto simp: after_def and_then_def split: prod.split sum.split)

lemma after_settle [after_simps]: "after (settle m) w Q = after m w (\<lambda>r. Q (Ok r))"
  by (auto simp: after_def settle_def split: prod.split)

lemma after_read [after_simps]: "after (read f) w Q = Q (Ok (f w)) w"
  by (simp add: after_def read_def)

lemma after_change [after_simps]: "after (change f) w Q = Q (Ok ()) (f w)"
  by (simp add: after_def change_def)

lemma after_draw [after_simps]:
  "after (draw f) w Q = Q (Ok (f (w_seq w))) (w\<lparr>w_seq := Suc (w_seq w)\<rparr>)"
  by (simp add: after_def draw_def)

lemma after_of_result [after_simps]: "after (of_result r) w Q = Q r w"
  by (simp add: after_def of_result_def)

lemma after_or_fail [after_simps]:
  "after (or_fail e x) w Q = (case x of None \<Rightarrow> Q (Err e) w | Some y \<Rightarrow> Q (Ok y) w)"
  by (simp add: or_fail_def after_simps split: option.split)

lemma after_log_event [after_simps]:
  "after (log_event l) w Q = Q (Ok ()) (w\<lparr>w_log := w_log w @ [l]\<rparr>)"
  by (simp add: log_event_def after_simps)

lemma after_on_tasks [after_simps]:
  "after (on_tasks f) w Q = Q (Ok ()) (w\<lparr>w_wf := (w_wf w)\<lparr>wd_db := f (w_db w)\<rparr>\<rparr>)"
  by (simp add: on_tasks_def after_simps)

lemma after_if [after_simps]: "after (if b then m else m') w Q = (if b then after m w Q else after m' w Q)"
  by simp

lemma after_mono: "after m w P \<Longrightarrow> (\<And>r w'. P r w' \<Longrightarrow> Q r w') \<Longrightarrow> after m w Q"
  by (auto simp: after_def split: prod.splits)

lemma after_result: "after m w Q \<Longrightarrow> m w = (r, w') \<Longrightarrow> Q r w'"
  by (simp add: after_def)

lemma afterI: "(\<And>r w'. m w = (r, w') \<Longrightarrow> Q r w') \<Longrightarrow> after m w Q"
  by (auto simp: after_def split: prod.split)

lemma after_conj: "after m w (\<lambda>r w'. P r w' \<and> Q r w') \<longleftrightarrow> after m w P \<and> after m w Q"
  by (auto simp: after_def split: prod.split)

section \<open>Programs\<close>

definition run_program :: "x_env \<Rightarrow> string \<Rightarrow> string list \<Rightarrow> proc oper" where
  "run_program env dir argv w =
     (Ok (x_run env (w_acts w) dir argv), w\<lparr>w_acts := w_acts w @ [Ran dir argv]\<rparr>)"

definition git_result :: "proc \<Rightarrow> string + string" where
  "git_result p =
     (case p of
        SpawnError e \<Rightarrow> Err e
      | Ended ok out err \<Rightarrow>
          if ok then Ok (from_utf8_lossy out) else Err (str_trim (from_utf8_lossy err)))"

definition git_output :: "x_env \<Rightarrow> string \<Rightarrow> string list \<Rightarrow> string oper" where
  "git_output env dir args =
     and_then (run_program env dir (''git'' # args)) (\<lambda>p. of_result (git_result p))"

definition git_output_with_config ::
  "x_env \<Rightarrow> string \<Rightarrow> (string \<times> string) list \<Rightarrow> string list \<Rightarrow> string oper" where
  "git_output_with_config env dir config args =
     and_then (run_program env dir
         (''git'' # concat (map (\<lambda>(key, v). [''-c'', key @ ''='' @ v]) config) @ args))
       (\<lambda>p. of_result (git_result p))"

definition git_path_is_tracked :: "x_env \<Rightarrow> string \<Rightarrow> string \<Rightarrow> bool oper" where
  "git_path_is_tracked env dir rel_path =
     and_then (run_program env dir [''git'', ''ls-files'', ''--error-unmatch'', ''--'', rel_path])
       (\<lambda>p. case p of SpawnError e \<Rightarrow> fail e | Ended ok out err \<Rightarrow> give ok)"

definition remove_path :: "x_env \<Rightarrow> act \<Rightarrow> unit oper" where
  "remove_path env a w =
     ((case x_remove env (w_acts w) a of None \<Rightarrow> Ok () | Some e \<Rightarrow> Err e),
      w\<lparr>w_acts := w_acts w @ [a]\<rparr>)"

definition restore_or_remove_git_path :: "x_env \<Rightarrow> string \<Rightarrow> string \<Rightarrow> unit oper" where
  "restore_or_remove_git_path env dir rel_path =
     and_then (git_path_is_tracked env dir rel_path) (\<lambda>tracked.
       if tracked then
         and_then (git_output env dir
             [''restore'', ''--staged'', ''--worktree'', ''--source=HEAD'', ''--'', rel_path])
           (\<lambda>_. give ())
       else
         let abs_path = path_join dir rel_path in
         and_then (read (\<lambda>w. x_meta env (w_acts w) abs_path)) (\<lambda>m.
           case m of
             IsDir \<Rightarrow> remove_path env (RemoveDirAll abs_path)
           | IsOther \<Rightarrow> remove_path env (RemoveFile abs_path)
           | NotFound \<Rightarrow> give ()
           | MetaError e \<Rightarrow> fail e))"

definition git_clean_paths :: "x_env \<Rightarrow> string \<Rightarrow> string list \<Rightarrow> unit oper" where
  "git_clean_paths env dir rel_paths =
     (if rel_paths = [] then give ()
      else and_then (git_output env dir ([''clean'', ''-fd'', ''--''] @ rel_paths)) (\<lambda>_. give ()))"

text \<open>\<open>str::parse::<u64>\<close>.\<close>

definition digit_value :: "char \<Rightarrow> nat option" where
  "digit_value c = (let n = of_char c :: nat in if 48 \<le> n \<and> n \<le> 57 then Some (n - 48) else None)"

fun parse_digits :: "nat \<Rightarrow> string \<Rightarrow> string + nat" where
  "parse_digits acc [] = Ok acc"
| "parse_digits acc (c # cs) =
     (case digit_value c of
        None \<Rightarrow> Err ''invalid digit found in string''
      | Some v \<Rightarrow> if acc * 10 + v < 2 ^ 64 then parse_digits (acc * 10 + v) cs
                  else Err ''number too large to fit in target type'')"

definition parse_u64 :: "string \<Rightarrow> string + nat" where
  "parse_u64 s =
     (if s = [] then Err ''cannot parse integer from empty string''
      else if s = ''+'' then Err ''invalid digit found in string''
      else parse_digits 0 (if hd s = CHR ''+'' then tl s else s))"

definition branch_ahead_count :: "x_env \<Rightarrow> string \<Rightarrow> string \<Rightarrow> nat oper" where
  "branch_ahead_count env dir target =
     and_then (git_output env dir [''rev-list'', ''--count'', target @ ''..HEAD'']) (\<lambda>raw.
       case parse_u64 (str_trim raw) of
         Inl e \<Rightarrow> fail (''parse branch ahead count: '' @ e)
       | Inr n \<Rightarrow> give n)"

definition git_ref_exists :: "x_env \<Rightarrow> string \<Rightarrow> string \<Rightarrow> bool oper" where
  "git_ref_exists env dir ref_name =
     and_then (run_program env dir [''git'', ''show-ref'', ''--verify'', ''--quiet'', ref_name])
       (\<lambda>p. case p of SpawnError e \<Rightarrow> fail e | Ended ok out err \<Rightarrow> give ok)"

lemma after_run_program [after_simps]:
  "after (run_program env dir argv) w Q
     = Q (Ok (x_run env (w_acts w) dir argv)) (w\<lparr>w_acts := w_acts w @ [Ran dir argv]\<rparr>)"
  by (simp add: after_def run_program_def)

lemma after_git_output [after_simps]:
  "after (git_output env dir args) w Q
     = Q (git_result (x_run env (w_acts w) dir (''git'' # args)))
         (w\<lparr>w_acts := w_acts w @ [Ran dir (''git'' # args)]\<rparr>)"
  by (simp add: git_output_def after_simps)

section \<open>Relations every step respects\<close>

definition moves :: "(world \<Rightarrow> world \<Rightarrow> bool) \<Rightarrow> 'a oper \<Rightarrow> bool" where
  "moves R m \<longleftrightarrow> (\<forall>w r w'. m w = (r, w') \<longrightarrow> R w w')"

named_theorems moves_intros

lemma movesD: "moves R m \<Longrightarrow> m w = (r, w') \<Longrightarrow> R w w'"
  by (simp add: moves_def)

lemma moves_same [moves_intros]:
  assumes "reflp R"
  shows "moves R (give x)" "moves R (fail e)" "moves R (read f)" "moves R (of_result r)"
    "moves R (or_fail e y)"
  using assms
  by (auto simp: moves_def give_def fail_def read_def of_result_def or_fail_def reflpD split: option.splits)

lemma moves_and_then [moves_intros]:
  assumes "transp R" "moves R m" "\<And>x. moves R (f x)"
  shows "moves R (and_then m f)"
  using assms by (fastforce simp: moves_def and_then_def split: prod.splits sum.splits dest: transpD)

lemma moves_of_result_then:
  assumes "reflp R" "\<And>x. r = Ok x \<Longrightarrow> moves R (f x)"
  shows "moves R (and_then (of_result r) f)"
  using assms by (auto simp: moves_def and_then_def of_result_def reflpD split: sum.splits)

lemma moves_settle [moves_intros]: "moves R m \<Longrightarrow> moves R (settle m)"
  by (auto simp: moves_def settle_def split: prod.splits)

lemma moves_if [moves_intros]:
  "(b \<Longrightarrow> moves R m) \<Longrightarrow> (\<not> b \<Longrightarrow> moves R m') \<Longrightarrow> moves R (if b then m else m')"
  by simp

lemma moves_option [moves_intros]:
  "(x = None \<Longrightarrow> moves R m) \<Longrightarrow> (\<And>y. x = Some y \<Longrightarrow> moves R (f y))
     \<Longrightarrow> moves R (case x of None \<Rightarrow> m | Some y \<Rightarrow> f y)"
  by (cases x) simp_all

lemma moves_sum [moves_intros]:
  "(\<And>e. x = Inl e \<Longrightarrow> moves R (f e)) \<Longrightarrow> (\<And>y. x = Inr y \<Longrightarrow> moves R (g y))
     \<Longrightarrow> moves R (case x of Inl e \<Rightarrow> f e | Inr y \<Rightarrow> g y)"
  by (cases x) simp_all

lemma moves_prod [moves_intros]: "(\<And>a b. x = (a, b) \<Longrightarrow> moves R (f a b)) \<Longrightarrow> moves R (case x of (a, b) \<Rightarrow> f a b)"
  by (cases x) simp

lemma moves_proc [moves_intros]:
  "(\<And>e. p = SpawnError e \<Longrightarrow> moves R (f e)) \<Longrightarrow> (\<And>b x y. p = Ended b x y \<Longrightarrow> moves R (g b x y))
     \<Longrightarrow> moves R (case p of SpawnError e \<Rightarrow> f e | Ended b x y \<Rightarrow> g b x y)"
  by (cases p) simp_all

lemma moves_Let [moves_intros]: "moves R (f x) \<Longrightarrow> moves R (let y = x in f y)"
  by simp

lemma moves_change: "(\<And>w. R w (f w)) \<Longrightarrow> moves R (change f)"
  by (simp add: moves_def change_def)

lemma moves_draw: "(\<And>w. R w (w\<lparr>w_seq := Suc (w_seq w)\<rparr>)) \<Longrightarrow> moves R (draw f)"
  by (auto simp: moves_def draw_def)

lemma moves_run_program:
  "(\<And>w. R w (w\<lparr>w_acts := w_acts w @ [Ran dir argv]\<rparr>)) \<Longrightarrow> moves R (run_program env dir argv)"
  by (auto simp: moves_def run_program_def)

lemma moves_log_event: "(\<And>w. R w (w\<lparr>w_log := w_log w @ [l]\<rparr>)) \<Longrightarrow> moves R (log_event l)"
  by (simp add: log_event_def moves_change)

lemma moves_git_output:
  assumes "transp R" "reflp R" "\<And>w. R w (w\<lparr>w_acts := w_acts w @ [Ran dir (''git'' # args)]\<rparr>)"
  shows "moves R (git_output env dir args)"
  unfolding git_output_def using assms by (intro moves_intros moves_run_program) auto

text \<open>What was done grows, by actions of a kind.\<close>

definition acts_by :: "(act \<Rightarrow> bool) \<Rightarrow> world \<Rightarrow> world \<Rightarrow> bool" where
  "acts_by P w w' \<longleftrightarrow> (\<exists>new. w_acts w' = w_acts w @ new \<and> list_all P new)"

lemma acts_by_order [simp]: "reflp (acts_by P)" "transp (acts_by P)"
  by (auto simp: acts_by_def reflp_def transp_def)

lemma acts_by_simps [simp]:
  "acts_by P w (w\<lparr>w_acts := w_acts w @ [a]\<rparr>) \<longleftrightarrow> P a" "acts_by P w (w\<lparr>w_seq := n\<rparr>)"
  "acts_by P w (w\<lparr>w_log := l\<rparr>)" "acts_by P w (w\<lparr>w_runs := rs\<rparr>)" "acts_by P w (w\<lparr>w_results := cs\<rparr>)"
  "acts_by P w (w\<lparr>w_wf := d\<rparr>)" "acts_by P w (w\<lparr>w_queue := q\<rparr>)" "acts_by P w (w\<lparr>w_reviews := v\<rparr>)"
  "acts_by P w (w\<lparr>w_checkpoints := c\<rparr>)"
  by (simp_all add: acts_by_def)

text \<open>A world to evaluate on: nothing has happened, programs end as \<open>run\<close> says.\<close>

definition empty_world :: "wf_db \<Rightarrow> world" where
  "empty_world d =
     \<lparr>w_wf = d, w_runs = [], w_results = [], w_reviews = [], w_queue = [], w_checkpoints = [],
      w_git = \<lparr>repo_root = ''/p'', worktree_root = ''/p/w'', leases = [], stale_after = 1, commands = []\<rparr>,
      w_acts = [], w_log = [], w_seq = 1\<rparr>"

definition plain_git :: git_env where
  "plain_git =
     \<lparr>run_git = (\<lambda>_ _. Exited True []), list_porcelain = (Exited True [], []),
      create_dir_all = (\<lambda>_. Ok ()), canonicalize = (\<lambda>p. Ok p), path_exists = (\<lambda>_. False),
      mtime = (\<lambda>_. None), uuid_to_string = (\<lambda>i. replicate (unat i) CHR ''x''),
      uuid_parse = (\<lambda>s. Some (of_nat (length s))), clock = int, fresh_id = of_nat\<rparr>"

definition plain_env :: "(act list \<Rightarrow> string \<Rightarrow> string list \<Rightarrow> proc) \<Rightarrow> x_env" where
  "plain_env run =
     \<lparr>x_serde = plain_serde, x_fresh = of_nat, x_now = int, x_show_db = (\<lambda>_. ''db''), x_run = run,
      x_meta = (\<lambda>_ _. NotFound), x_remove = (\<lambda>_ _. None), x_git = (\<lambda>_. plain_git),
      x_before_remove = (\<lambda>_. None)\<rparr>"

end
