(* ===== verification/Acceptance.thy ===== *)
theory Acceptance
  imports Effects Context_Files
begin

text \<open>
  What a task has to pass before its review and before its merge
  (\<open>prepare_task_branch_for_review\<close>, \<open>split_test_command\<close> and
  \<open>run_acceptance_checks_for_task\<close> of \<open>pnevma-commands/src/commands/mod.rs\<close>, with the
  check tables of \<open>pnevma-db/src/store/reviews.rs\<close>). Texts are UTF-8 bytes; a character
  outside ASCII consists of bytes that the tests for safe characters reject. The debug
  escapes of a rejected command in its error message are not modelled.
\<close>

section \<open>Committing what the agent left\<close>

record task_commit =
  commit_sha :: string
  commit_message :: string

fun each :: "('a \<Rightarrow> unit oper) \<Rightarrow> 'a list \<Rightarrow> unit oper" where
  "each f [] = give ()"
| "each f (x # xs) = and_then (f x) (\<lambda>_. each f xs)"

definition agent_files :: "string list" where
  "agent_files = [''CLAUDE.md'', ''.pnevma/claude-context-state.json'', ''.pnevma/task-context.md'',
     ''.pnevma/task-context.manifest.json'', ''.pnevma/data'', ''.pnevma/run'']"

definition sanitized_title :: "string \<Rightarrow> string" where
  "sanitized_title t =
     (case str_lines t of
        [] \<Rightarrow> ''task''
      | l # _ \<Rightarrow> if str_trim l = [] then ''task'' else str_trim l)"

definition task_commit_message :: "x_env \<Rightarrow> uuid \<Rightarrow> string \<Rightarrow> string" where
  "task_commit_message env task_id t =
     ''task('' @ take 8 (show_uuid (x_serde env) task_id) @ ''): '' @ sanitized_title t"

definition commit_pending :: "x_env \<Rightarrow> string \<Rightarrow> string \<Rightarrow> unit oper" where
  "commit_pending env dir message =
     and_then (git_output env dir [''status'', ''--porcelain'']) (\<lambda>pending.
     if str_trim pending = [] then give ()
     else
       and_then (git_output env dir [''add'', ''-A'', ''--'', ''.'']) (\<lambda>_.
       and_then (git_output env dir [''status'', ''--porcelain'']) (\<lambda>staged.
       if str_trim staged = [] then give ()
       else
         and_then (git_output_with_config env dir
             [(''user.name'', ''Pnevma''), (''user.email'', ''pnevma@localhost'')]
             [''commit'', ''--no-gpg-sign'', ''-m'', message]) (\<lambda>_. give ()))))"

definition prepare_task_branch_for_review ::
  "x_env \<Rightarrow> string \<Rightarrow> uuid \<Rightarrow> string \<Rightarrow> string \<Rightarrow> task_commit oper" where
  "prepare_task_branch_for_review env dir task_id task_title target =
     (let message = task_commit_message env task_id task_title in
     and_then (each (restore_or_remove_git_path env dir) agent_files) (\<lambda>_.
     and_then (git_clean_paths env dir [''CLAUDE.md'', ''.pnevma'']) (\<lambda>_.
     and_then (commit_pending env dir message) (\<lambda>_.
     and_then (git_output env dir [''status'', ''--porcelain'']) (\<lambda>remaining.
     if str_trim remaining \<noteq> []
     then fail ''agent left uncommitted changes after sanitize/commit''
     else
       and_then (branch_ahead_count env dir target) (\<lambda>ahead_count.
       if ahead_count = 0 then fail ''agent produced no mergeable repository changes''
       else
         and_then (git_output env dir [''rev-parse'', ''HEAD'']) (\<lambda>out.
         give \<lparr>commit_sha = str_trim out, commit_message = message\<rparr>)))))))"

section \<open>The check tables\<close>

definition create_check_run :: "x_env \<Rightarrow> check_run_row \<Rightarrow> unit oper" where
  "create_check_run env row w =
     (if cr_id row \<in> cr_id ` set (w_runs w) then (Err (x_show_db env PrimaryKey), w)
      else if cr_project_id row \<notin> set (db_projects (w_db w)) \<or> cr_task_id row \<notin> task_ids (w_db w)
      then (Err (x_show_db env ForeignKey), w)
      else (Ok (), w\<lparr>w_runs := w_runs w @ [row]\<rparr>))"

definition create_check_result :: "x_env \<Rightarrow> check_result_row \<Rightarrow> unit oper" where
  "create_check_result env row w =
     (if cs_id row \<in> cs_id ` set (w_results w) then (Err (x_show_db env PrimaryKey), w)
      else if cs_check_run_id row \<notin> cr_id ` set (w_runs w)
              \<or> cs_project_id row \<notin> set (db_projects (w_db w)) \<or> cs_task_id row \<notin> task_ids (w_db w)
      then (Err (x_show_db env ForeignKey), w)
      else (Ok (), w\<lparr>w_results := w_results w @ [row]\<rparr>))"

definition latest_check_run_for_task :: "string \<Rightarrow> world \<Rightarrow> check_run_row option" where
  "latest_check_run_for_task task_id w =
     (case sort_key (\<lambda>r. - cr_created_at r) (filter (\<lambda>r. cr_task_id r = task_id) (w_runs w)) of
        [] \<Rightarrow> None | r # _ \<Rightarrow> Some r)"

definition list_check_results_for_run :: "string \<Rightarrow> world \<Rightarrow> check_result_row list" where
  "list_check_results_for_run run_id w =
     sort_key cs_created_at (filter (\<lambda>r. cs_check_run_id r = run_id) (w_results w))"

section \<open>Checks\<close>

record check_execution =
  ex_description :: string
  ex_check_type :: string
  ex_command :: "string option"
  ex_passed :: bool
  ex_output :: "string option"

definition MAX_TEST_COMMAND_ARGS :: nat where
  "MAX_TEST_COMMAND_ARGS = 32"

definition MAX_TEST_COMMAND_ARG_BYTES :: nat where
  "MAX_TEST_COMMAND_ARG_BYTES = 512"

definition split_test_command :: "string \<Rightarrow> string + string \<times> string list" where
  "split_test_command cmd =
     (let parts = split_whitespace cmd in
      case parts of
        [] \<Rightarrow> Err ''TestCommand rejected: command must not be empty''
      | program # args \<Rightarrow>
          if length parts > MAX_TEST_COMMAND_ARGS
          then Err (''TestCommand rejected: command exceeds '' @ nat_str MAX_TEST_COMMAND_ARGS
                    @ '' argv segments'')
          else if \<exists>part \<in> set parts. part = [] \<or> length part > MAX_TEST_COMMAND_ARG_BYTES
          then Err (''TestCommand rejected: each argv segment must be between 1 and ''
                    @ nat_str MAX_TEST_COMMAND_ARG_BYTES @ '' bytes'')
          else Ok (program, args))"

definition ALLOWED_PREFIXES :: "string list" where
  "ALLOWED_PREFIXES =
     [''cargo test'', ''cargo nextest'', ''npm test'', ''npm run test'', ''npx'', ''yarn test'',
      ''yarn run test'', ''pytest'', ''python -m pytest'', ''just test'', ''just check'',
      ''swift test'', ''xcodebuild test'', ''go test'', ''make test'', ''bun test'', ''deno test'',
      ''vitest'', ''jest'']"

definition safe_command_char :: "char \<Rightarrow> bool" where
  "safe_command_char c \<longleftrightarrow> is_ascii_alphanumeric c \<or> c \<in> set '' _./:=,+@-''"

definition command_allowed :: "string \<Rightarrow> bool" where
  "command_allowed cmd \<longleftrightarrow>
     list_all safe_command_char (str_trim cmd)
     \<and> (\<exists>p \<in> set ALLOWED_PREFIXES. starts_with (str_trim cmd) p)"

definition path_exists_now :: "x_env \<Rightarrow> string \<Rightarrow> bool oper" where
  "path_exists_now env p = read (\<lambda>w. x_meta env (w_acts w) p \<in> {IsDir, IsOther})"

definition test_output :: "string \<Rightarrow> string \<Rightarrow> string" where
  "test_output out err =
     (let o1 = str_trim (from_utf8_lossy out); e1 = str_trim (from_utf8_lossy err)
      in if e1 = [] then o1 else if o1 = [] then e1 else o1 @ [CHR 0x0A] @ e1)"

definition test_command_of :: "check \<Rightarrow> string" where
  "test_command_of c =
     (case command c of
        Some v \<Rightarrow> if str_trim v \<noteq> [] then v else description c
      | None \<Rightarrow> description c)"

definition run_check :: "x_env \<Rightarrow> string \<Rightarrow> check \<Rightarrow> check_execution oper" where
  "run_check env dir c =
     (case check_type c of
        ManualApproval \<Rightarrow>
          give \<lparr>ex_description = description c, ex_check_type = ''ManualApproval'',
                ex_command = command c, ex_passed = True,
                ex_output = Some ''manual approval required''\<rparr>
      | FileExists \<Rightarrow>
          (let candidate = path_join dir (case command c of Some p \<Rightarrow> p | None \<Rightarrow> description c) in
           and_then (path_exists_now env candidate) (\<lambda>passed.
           give \<lparr>ex_description = description c, ex_check_type = ''FileExists'',
                 ex_command = command c, ex_passed = passed,
                 ex_output = Some (''path checked: '' @ candidate)\<rparr>))
      | TestCommand \<Rightarrow>
          (let cmd = test_command_of c in
           if \<not> command_allowed cmd
           then fail (''TestCommand rejected: command must start with a known test runner and contain ''
                      @ ''only safe characters [a-zA-Z0-9 _./:=,+@-]. Got: '' @ str_trim cmd)
           else
             and_then (of_result (split_test_command cmd)) (\<lambda>(program, args).
             and_then (run_program env dir (program # args)) (\<lambda>p.
             case p of
               SpawnError e \<Rightarrow> fail e
             | Ended passed out err \<Rightarrow>
                 (let text = test_output out err in
                  give \<lparr>ex_description = description c, ex_check_type = ''TestCommand'',
                        ex_command = Some cmd, ex_passed = passed,
                        ex_output = (if text = [] then None else Some text)\<rparr>)))))"

text \<open>
  The loop over the checks returns the rows in order, whether every automated check passed
  and whether there was one.
\<close>

fun run_checks ::
  "x_env \<Rightarrow> string \<Rightarrow> string \<Rightarrow> string \<Rightarrow> string \<Rightarrow> check list
     \<Rightarrow> (check_result_row list \<times> bool \<times> bool) oper" where
  "run_checks env dir run_id project_id task_id [] = give ([], True, False)"
| "run_checks env dir run_id project_id task_id (c # cs) =
     and_then (run_check env dir c) (\<lambda>ex.
     and_then (draw (x_fresh env)) (\<lambda>i.
     and_then (draw (x_now env)) (\<lambda>now.
     and_then (run_checks env dir run_id project_id task_id cs) (\<lambda>(rows, all_passed, any_automated).
     give (\<lparr>cs_id = show_uuid (x_serde env) i, cs_check_run_id = run_id,
            cs_project_id = project_id, cs_task_id = task_id,
            cs_description = ex_description ex, cs_check_type = ex_check_type ex,
            cs_command = ex_command ex, cs_passed = ex_passed ex, cs_output = ex_output ex,
            cs_created_at = now\<rparr> # rows,
           (check_type c \<noteq> ManualApproval \<longrightarrow> ex_passed ex) \<and> all_passed,
           check_type c \<noteq> ManualApproval \<or> any_automated)))))"

definition check_dir :: "x_env \<Rightarrow> string \<Rightarrow> 'p task_contract \<Rightarrow> world \<Rightarrow> string" where
  "check_dir env project_path task w =
     (case (case worktree task of
              None \<Rightarrow> None
            | Some _ \<Rightarrow> find_worktree_by_task (show_uuid (x_serde env) (task_uuid task)) (w_db w)) of
        Some row \<Rightarrow> wt_path row
      | None \<Rightarrow> project_path)"

definition checks_summary :: "check_result_row list \<Rightarrow> string" where
  "checks_summary rows =
     (if rows = [] then ''no checks configured''
      else nat_str (length (filter cs_passed rows)) @ ''/'' @ nat_str (length rows)
           @ '' checks passed'')"

definition record_checks ::
  "x_env \<Rightarrow> string \<Rightarrow> string \<Rightarrow> string \<Rightarrow> check_result_row list \<times> bool \<times> bool
     \<Rightarrow> (check_run_row \<times> check_result_row list \<times> bool) oper" where
  "record_checks env run_id pid tid res =
     (case res of (rows, all_passed, any_automated) \<Rightarrow>
     let all_automated_passed = (if any_automated then all_passed else True) in
     and_then (draw (x_now env)) (\<lambda>now.
     let run_row = \<lparr>cr_id = run_id, cr_project_id = pid, cr_task_id = tid,
           cr_status = (if all_automated_passed then ''passed'' else ''failed''),
           cr_summary = Some (checks_summary rows), cr_created_at = now\<rparr> in
     and_then (create_check_run env run_row) (\<lambda>_.
     and_then (each (create_check_result env) rows) (\<lambda>_.
     and_then (log_event (Event ''core'' ''AcceptanceCheckRun'')) (\<lambda>_.
     give (run_row, rows, all_automated_passed))))))"

definition run_acceptance_checks_for_task ::
  "x_env \<Rightarrow> uuid \<Rightarrow> string \<Rightarrow> 'p task_contract
     \<Rightarrow> (check_run_row \<times> check_result_row list \<times> bool) oper" where
  "run_acceptance_checks_for_task env project_id project_path task =
     (let pid = show_uuid (x_serde env) project_id; tid = show_uuid (x_serde env) (task_uuid task) in
     and_then (draw (\<lambda>n. show_uuid (x_serde env) (x_fresh env n))) (\<lambda>run_id.
     and_then (read (check_dir env project_path task)) (\<lambda>dir.
     and_then (run_checks env dir run_id pid tid (acceptance_criteria task))
       (record_checks env run_id pid tid))))"

section \<open>Splitting at white space\<close>

definition apart :: "string \<Rightarrow> string \<Rightarrow> bool" where
  "apart u w \<longleftrightarrow>
     list_all (\<lambda>i. \<not> starts_with (drop i u) w \<and> \<not> starts_with w (drop i u)) [0..<length u]"

lemma apart_Cons: "apart (c # u) w \<longleftrightarrow> \<not> starts_with (c # u) w \<and> \<not> starts_with w (c # u) \<and> apart u w"
proof -
  have "apart u w \<longleftrightarrow> (\<forall>i<length u. \<not> starts_with (drop i u) w \<and> \<not> starts_with w (drop i u))" for u
    by (auto simp: apart_def list_all_iff)
  then show ?thesis by (simp add: All_less_Suc2)
qed

lemma replace_apart: "apart u w \<Longrightarrow> str_replace w r (u @ s) = u @ str_replace w r s"
proof (induction u)
  case (Cons c u)
  then have a: "\<not> starts_with (c # u) w" "\<not> starts_with w (c # u)" "apart u w"
    by (auto simp: apart_Cons)
  have "\<not> starts_with ((c # u) @ s) w"
    using a(1,2) prefix_same_cases[of w "(c # u) @ s" "c # u"] by (auto simp: starts_with_prefix)
  with Cons.IH a(3) show ?case by (subst str_replace.simps) simp
qed simp

lemma replace_hit: "w \<noteq> [] \<Longrightarrow> str_replace w r (w @ s) = r @ str_replace w r s"
  by (subst str_replace.simps) (auto simp: neq_Nil_conv starts_with_prefix)

lemma replace_units:
  assumes "w \<noteq> []" "\<forall>u\<in>set us. u = w \<or> apart u w"
  shows "str_replace w r (concat us) = concat (map (\<lambda>u. if u = w then r else u) us)"
  using assms(2)
proof (induction us)
  case Nil
  show ?case by (subst str_replace.simps) simp
qed (auto simp: replace_apart replace_hit[OF assms(1)])

lemma fold_replace_units:
  assumes "\<forall>w\<in>set ws. w \<noteq> [] \<and> (\<forall>u\<in>insert r (set us). u = w \<or> apart u w)"
  shows "fold (\<lambda>w t. str_replace w r t) ws (concat us)
           = concat (map (\<lambda>u. if u \<in> set ws then r else u) us)"
  using assms
proof (induction ws arbitrary: us)
  case (Cons w ws)
  let ?vs = "map (\<lambda>u. if u = w then r else u) us"
  have "str_replace w r (concat us) = concat ?vs"
    using Cons.prems by (intro replace_units) auto
  moreover have "fold (\<lambda>w t. str_replace w r t) ws (concat ?vs)
      = concat (map (\<lambda>u. if u \<in> set ws then r else u) ?vs)"
    using Cons.prems by (intro Cons.IH) auto
  moreover have "map (\<lambda>u. if u \<in> set ws then r else u) ?vs
      = map (\<lambda>u. if u \<in> set (w # ws) then r else u) us" by auto
  ultimately show ?case by (simp only: fold_simps)
qed simp

lemma white_apart: "u \<in> set ws_encodings \<Longrightarrow> w \<in> set ws_encodings \<Longrightarrow> u = w \<or> apart u w"
proof -
  have "list_all (\<lambda>u. list_all (\<lambda>w. u = w \<or> apart u w) ws_encodings) ws_encodings"
    by (simp add: ws_encodings_def apart_Cons starts_with_Cons apart_def[of "[]"])
  then show "u \<in> set ws_encodings \<Longrightarrow> w \<in> set ws_encodings \<Longrightarrow> u = w \<or> apart u w"
    by (auto simp: list_all_iff)
qed

lemma space_white: "'' '' \<in> set ws_encodings" "[] \<notin> set ws_encodings"
  by (simp_all add: ws_encodings_def char_of_eq_iff eq_commute[of "CHR '' ''"])

lemma graphic_apart:
  assumes "is_ascii_graphic c" "w \<in> set ws_encodings"
  shows "apart [c] w"
proof -
  have "hd w \<noteq> c" "w \<noteq> []"
    using assms graphic_not_white(1)[OF assms(1)] space_white(2) by auto
  then show ?thesis by (auto simp: apart_Cons apart_def starts_with_prefix neq_Nil_conv)
qed

text \<open>Words of a text in which the only white space is the blank.\<close>

definition blank_words :: "string \<Rightarrow> string list" where
  "blank_words t = filter (\<lambda>w. w \<noteq> []) (split_on CHR '' '' t)"

lemma blank_words_blank [simp]: "blank_words (CHR '' '' # t) = blank_words t"
  by (simp add: blank_words_def)

lemma blank_words_blanks [simp]: "blank_words (map (\<lambda>u. CHR '' '') us @ t) = blank_words t"
  by (induction us) simp_all

lemma split_on_snoc: "split_on c (t @ [c]) = split_on c t @ [[]]"
  by (induction t) (auto split: list.split)

lemma blank_words_end [simp]: "blank_words (t @ map (\<lambda>u. CHR '' '') us) = blank_words t"
proof (induction us arbitrary: t)
  case (Cons u us)
  from Cons[of "t @ '' ''"] show ?case by (simp add: blank_words_def split_on_snoc)
qed simp

lemma blank_words_set: "w \<in> set (blank_words t) \<Longrightarrow> w \<noteq> [] \<and> set w \<subseteq> set t - {CHR '' ''}"
proof -
  have "\<forall>w\<in>set (split_on c t). set w \<subseteq> set t - {c}" for c
    by (induction t) (auto split: list.splits)
  then show "w \<in> set (blank_words t) \<Longrightarrow> w \<noteq> [] \<and> set w \<subseteq> set t - {CHR '' ''}"
    by (auto simp: blank_words_def)
qed

lemma split_on_first: "hd (split_on c t) = takeWhile (\<lambda>x. x \<noteq> c) t"
  by (induction t) (auto split: list.split)

lemma blank_words_hd:
  assumes "t \<noteq> []" "hd t \<noteq> CHR '' ''"
  shows "blank_words t \<noteq> [] \<and> hd (blank_words t) = takeWhile (\<lambda>x. x \<noteq> CHR '' '') t"
proof -
  obtain p ps where p: "split_on CHR '' '' t = p # ps" by (cases "split_on CHR '' '' t") auto
  then have "p = takeWhile (\<lambda>x. x \<noteq> CHR '' '') t" using split_on_first[of "CHR '' ''" t] by simp
  moreover from this have "p \<noteq> []" using assms by (cases t) auto
  ultimately show ?thesis using p by (simp add: blank_words_def)
qed

lemma trim_start_units: "\<exists>us. set us \<subseteq> set ws \<and> s = concat us @ trim_start_with ws s"
proof (induction ws s rule: trim_start_with.induct)
  case (1 ws s)
  show ?case
  proof (cases "find (\<lambda>w. w \<noteq> [] \<and> starts_with s w) ws")
    case None
    then show ?thesis by (subst trim_start_with.simps) (auto intro: exI[of _ "[]"])
  next
    case (Some w)
    then have w: "w \<in> set ws" "w \<noteq> []" "starts_with s w" by (auto simp: find_Some_iff)
    then obtain t where t: "s = w @ t" by (auto simp: starts_with_prefix prefix_def)
    with w have "s \<noteq> []" "drop (max 1 (length w)) s = t"
      by (auto simp: max_def Suc_le_eq)
    with 1[OF Some] obtain us where "set us \<subseteq> set ws" "t = concat us @ trim_start_with ws t" by auto
    then show ?thesis using w t Some \<open>s \<noteq> []\<close> \<open>drop (max 1 (length w)) s = t\<close>
      by (subst trim_start_with.simps) (auto intro!: exI[of _ "w # us"])
  qed
qed

lemma trim_units:
  obtains us vs where "set us \<subseteq> set ws_encodings" "set vs \<subseteq> set ws_encodings"
    "s = concat us @ str_trim s @ concat vs" "prefix (str_trim s) (trim_start s)"
proof -
  obtain us where us: "set us \<subseteq> set ws_encodings" "s = concat us @ trim_start s"
    using trim_start_units[of ws_encodings s] by (auto simp: trim_start_def)
  obtain vs where vs: "set vs \<subseteq> set (map rev ws_encodings)"
    "rev (trim_start s) = concat vs @ trim_start_with (map rev ws_encodings) (rev (trim_start s))"
    using trim_start_units[of "map rev ws_encodings" "rev (trim_start s)"] by auto
  from arg_cong[OF vs(2), of rev]
  have "trim_start s = str_trim s @ concat (map rev (rev vs))"
    by (simp add: str_trim_def trim_end_def rev_concat rev_map)
  moreover have "set (map rev (rev vs)) \<subseteq> set ws_encodings" using vs(1) by auto
  ultimately show thesis using us that[of us "map rev (rev vs)"] by (metis prefixI)
qed

lemma trim_start_done:
  "find (\<lambda>w. w \<noteq> [] \<and> starts_with (trim_start_with ws s) w) ws = None"
proof (induction ws s rule: trim_start_with.induct)
  case (1 ws s)
  show ?case
  proof (cases "find (\<lambda>w. w \<noteq> [] \<and> starts_with s w) ws")
    case None
    then show ?thesis by (simp add: trim_start_with.simps[of ws s])
  next
    case (Some w)
    then have "s \<noteq> []" by (auto simp: find_Some_iff starts_with_def)
    with 1[OF Some] Some show ?thesis by (simp add: trim_start_with.simps[of ws s])
  qed
qed

lemma trim_no_blank:
  assumes "str_trim s \<noteq> []"
  shows "hd (str_trim s) \<noteq> CHR '' ''"
proof
  assume b: "hd (str_trim s) = CHR '' ''"
  have "prefix (str_trim s) (trim_start s)" by (rule trim_units[of s]) blast
  with assms b obtain t where "trim_start s = CHR '' '' # t"
    by (cases "str_trim s") (auto simp: prefix_def)
  with trim_start_done[of ws_encodings s] space_white(1) show False
    by (force simp: trim_start_def find_None_iff starts_with_def)
qed

lemma split_whitespace_safe:
  assumes "list_all safe_command_char (str_trim s)"
  shows "split_whitespace s = blank_words (str_trim s)"
proof -
  obtain us vs where u: "set us \<subseteq> set ws_encodings" "set vs \<subseteq> set ws_encodings"
    "s = concat us @ str_trim s @ concat vs" by (rule trim_units[of s]) blast
  let ?t = "map (\<lambda>c. [c]) (str_trim s)"
  let ?r = "\<lambda>u. if u \<in> set ws_encodings then '' '' else u"
  have c: "concat ?t = str_trim s" by (induction "str_trim s") simp_all
  have unit: "[c] = '' '' \<or> is_ascii_graphic c" if "c \<in> set (str_trim s)" for c
    using that assms
    by (auto simp: list_all_iff safe_command_char_def is_ascii_alphanumeric_def is_ascii_graphic_def Let_def)
  have blank: "u = w \<or> apart u w"
    if "w \<in> set ws_encodings" "u \<in> insert '' '' (set (us @ ?t @ vs))" for u w
  proof -
    from that(2) u(1,2) unit have "u \<in> set ws_encodings \<or> (\<exists>c. u = [c] \<and> is_ascii_graphic c)"
      using space_white(1) by auto
    with that(1) show ?thesis using white_apart graphic_apart by blast
  qed
  have same: "?r [c] = [c]" if "c \<in> set (str_trim s)" for c
    using unit[OF that] graphic_not_white(1)[of c] by force
  have "fold (\<lambda>w t. str_replace w '' '' t) ws_encodings (concat (us @ ?t @ vs))
      = concat (map ?r (us @ ?t @ vs))"
    using blank space_white(2) by (intro fold_replace_units) auto
  also have "\<dots> = concat (map (\<lambda>u. '' '') us) @ str_trim s @ concat (map (\<lambda>u. '' '') vs)"
  proof -
    have "map ?r us = map (\<lambda>u. '' '') us" "map ?r vs = map (\<lambda>u. '' '') vs"
      using u(1,2) by (auto intro!: map_cong)
    moreover have "map ?r ?t = ?t" using same by (auto intro!: map_idI)
    ultimately show ?thesis using c by (simp only: map_append concat_append)
  qed
  finally show ?thesis using u(3) c
    by (simp add: split_whitespace_def flip: blank_words_def append_assoc)
qed

section \<open>Which commands run\<close>

definition allowed_program :: "string \<Rightarrow> bool" where
  "allowed_program prog \<longleftrightarrow>
     prog \<in> {''cargo'', ''npm'', ''yarn'', ''python'', ''just'', ''swift'', ''xcodebuild'', ''go'',
             ''make'', ''bun'', ''deno''}
     \<or> (\<exists>p \<in> {''npx'', ''pytest'', ''vitest'', ''jest''}. starts_with prog p)"

definition allowed_run :: "string \<Rightarrow> act \<Rightarrow> bool" where
  "allowed_run dir a \<longleftrightarrow>
     (\<exists>prog args. a = Ran dir (prog # args) \<and> allowed_program prog
        \<and> length (prog # args) \<le> MAX_TEST_COMMAND_ARGS
        \<and> (\<forall>x\<in>set (prog # args). x \<noteq> [] \<and> length x \<le> MAX_TEST_COMMAND_ARG_BYTES
              \<and> list_all safe_command_char x \<and> CHR '' '' \<notin> set x))"

lemma allowed_prefix_program:
  assumes "p \<in> set ALLOWED_PREFIXES" "starts_with t p"
  shows "allowed_program (takeWhile (\<lambda>x. x \<noteq> CHR '' '') t)" "t \<noteq> []" "hd t \<noteq> CHR '' ''"
proof -
  obtain r where t: "t = p @ r" using assms(2) by (auto simp: starts_with_prefix prefix_def)
  have p: "p = ''cargo test'' \<or> p = ''cargo nextest'' \<or> p = ''npm test'' \<or> p = ''npm run test''
      \<or> p = ''npx'' \<or> p = ''yarn test'' \<or> p = ''yarn run test'' \<or> p = ''pytest''
      \<or> p = ''python -m pytest'' \<or> p = ''just test'' \<or> p = ''just check'' \<or> p = ''swift test''
      \<or> p = ''xcodebuild test'' \<or> p = ''go test'' \<or> p = ''make test'' \<or> p = ''bun test''
      \<or> p = ''deno test'' \<or> p = ''vitest'' \<or> p = ''jest''"
    using assms(1) by (simp add: ALLOWED_PREFIXES_def)
  from p show "allowed_program (takeWhile (\<lambda>x. x \<noteq> CHR '' '') t)"
    unfolding t by (elim disjE) (simp_all add: allowed_program_def starts_with_def)
  from p show "t \<noteq> []" "hd t \<noteq> CHR '' ''" unfolding t by (elim disjE; simp)+
qed

lemma split_test_command_allowed:
  assumes "command_allowed cmd" "split_test_command cmd = Ok (prog, args)"
  shows "allowed_run dir (Ran dir (prog # args))"
proof -
  let ?t = "str_trim cmd"
  from assms(1) obtain p where p: "p \<in> set ALLOWED_PREFIXES" "starts_with ?t p"
    and safe: "list_all safe_command_char ?t"
    by (auto simp: command_allowed_def)
  have w: "split_whitespace cmd = blank_words ?t" by (rule split_whitespace_safe[OF safe])
  with assms(2) have ws: "blank_words ?t = prog # args" "length (prog # args) \<le> MAX_TEST_COMMAND_ARGS"
    "\<forall>x\<in>set (prog # args). x \<noteq> [] \<and> length x \<le> MAX_TEST_COMMAND_ARG_BYTES"
    by (auto simp: split_test_command_def Let_def split: list.splits if_splits)
  have "prog = takeWhile (\<lambda>x. x \<noteq> CHR '' '') ?t"
    using blank_words_hd[of ?t] allowed_prefix_program(2,3)[OF p] ws(1) by simp
  then have "allowed_program prog" using allowed_prefix_program(1)[OF p] by simp
  moreover have "list_all safe_command_char x \<and> CHR '' '' \<notin> set x" if "x \<in> set (prog # args)" for x
    using blank_words_set[of x ?t] that safe unfolding ws(1) by (auto simp: list_all_iff)
  ultimately show ?thesis using ws(2,3) by (auto simp: allowed_run_def)
qed

lemma run_check_acts: "moves (acts_by (allowed_run dir)) (run_check env dir c)"
proof (cases "check_type c")
  case TestCommand
  then show ?thesis unfolding run_check_def check_type.case Let_def
    by (auto intro!: moves_of_result_then moves_run_program moves_intros split_test_command_allowed)
qed (auto simp: run_check_def path_exists_now_def Let_def intro!: moves_intros)

lemma run_checks_acts:
  "moves (acts_by (allowed_run dir)) (run_checks env dir run_id pid tid cs)"
  by (induction cs)
     (auto intro!: moves_intros run_check_acts moves_draw simp: split_beta)

lemma each_moves: "reflp R \<Longrightarrow> transp R \<Longrightarrow> (\<And>x. moves R (f x)) \<Longrightarrow> moves R (each f xs)"
  by (induction xs) (auto intro!: moves_intros)

lemma table_moves [moves_intros]:
  "moves (acts_by P) (create_check_run env r)" "moves (acts_by P) (create_check_result env c)"
  by (auto simp: moves_def create_check_run_def create_check_result_def acts_by_def)

lemma record_checks_acts: "moves (acts_by P) (record_checks env run_id pid tid res)"
  by (auto simp: record_checks_def Let_def split_beta
        intro!: moves_intros moves_draw each_moves moves_log_event)

lemma acceptance_runs_allowed:
  assumes "run_acceptance_checks_for_task env project_id project_path task w = (r, w')"
  shows "\<exists>new. w_acts w' = w_acts w @ new
           \<and> (\<forall>a\<in>set new. allowed_run (check_dir env project_path task w) a)"
proof -
  let ?dir = "check_dir env project_path task w"
  let ?w1 = "w\<lparr>w_seq := Suc (w_seq w)\<rparr>"
  let ?body = "\<lambda>run_id pid tid. and_then (run_checks env ?dir run_id pid tid (acceptance_criteria task))
      (record_checks env run_id pid tid)"
  have "check_dir env project_path task ?w1 = ?dir"
    by (simp add: check_dir_def cong: option.case_cong)
  with assms have run: "?body (show_uuid (x_serde env) (x_fresh env (w_seq w)))
      (show_uuid (x_serde env) project_id) (show_uuid (x_serde env) (task_uuid task)) ?w1 = (r, w')"
    by (simp add: run_acceptance_checks_for_task_def Let_def and_then_def draw_def read_def)
  have "moves (acts_by (allowed_run ?dir)) (?body run_id pid tid)" for run_id pid tid
    by (auto intro!: moves_intros run_checks_acts record_checks_acts)
  from movesD[OF this run] show ?thesis by (auto simp: acts_by_def list_all_iff)
qed


definition check_task :: "check list \<Rightarrow> unit task_contract" where
  "check_task cs = sample_task\<lparr>acceptance_criteria := cs, worktree := None\<rparr>"

definition checks_world :: world where
  "checks_world = empty_world \<lparr>wd_db = empty_db\<lparr>db_projects := [''x''], db_tasks := [sample_row ''x'' 1 ''Review'']\<rparr>,
     wd_workflows = [], wd_instances = [], wd_wf_tasks = []\<rparr>"


text \<open>The prefixes are not matched at the end of a word: a script of the worktree whose path
  begins with the name of a test runner is an allowed command.\<close>

lemma prefix_is_not_a_word:
  "command_allowed ''jest/../deploy.sh --now''"
  "split_test_command ''jest/../deploy.sh --now'' = Ok (''jest/../deploy.sh'', [''--now''])"
  by (simp_all add: command_allowed_def str_trim_graphic is_ascii_graphic_def safe_command_char_def
      ALLOWED_PREFIXES_def starts_with_def split_test_command_def split_whitespace_safe blank_words_def
      MAX_TEST_COMMAND_ARGS_def MAX_TEST_COMMAND_ARG_BYTES_def is_ascii_alphanumeric_def)

section \<open>What the checks decide\<close>

lemma run_check_description:
  "after (run_check env dir c) w (\<lambda>r w'. w_wf w' = w_wf w \<and> w_runs w' = w_runs w \<and> w_results w' = w_results w
     \<and> (\<forall>ex. r = Ok ex \<longrightarrow> ex_description ex = description c
          \<and> (check_type c = ManualApproval \<longrightarrow> ex_passed ex)))"
  by (auto simp: run_check_def path_exists_now_def Let_def after_simps
        split: check_type.split sum.split proc.split prod.split)

definition decided :: "string \<Rightarrow> check list \<Rightarrow> check_result_row list \<Rightarrow> bool \<Rightarrow> bool \<Rightarrow> bool" where
  "decided run_id cs rows all_passed any_automated \<longleftrightarrow>
     list_all2 (\<lambda>c row. cs_description row = description c \<and> cs_check_run_id row = run_id
        \<and> (check_type c = ManualApproval \<longrightarrow> cs_passed row)) cs rows
     \<and> (all_passed \<longleftrightarrow> (\<forall>(c, row) \<in> set (zip cs rows). check_type c \<noteq> ManualApproval \<longrightarrow> cs_passed row))
     \<and> (any_automated \<longleftrightarrow> (\<exists>c \<in> set cs. check_type c \<noteq> ManualApproval))"

lemma run_checks_decided:
  "after (run_checks env dir run_id pid tid cs) w (\<lambda>r w'.
     w_wf w' = w_wf w \<and> w_runs w' = w_runs w \<and> w_results w' = w_results w
     \<and> (\<forall>rows al an. r = Ok (rows, al, an) \<longrightarrow> decided run_id cs rows al an))"
proof (induction cs arbitrary: w)
  case Nil
  show ?case by (simp add: after_simps decided_def)
next
  case (Cons c cs)
  show ?case unfolding run_checks.simps
    apply (simp only: after_and_then after_draw sum.case)
    apply (rule after_mono[OF run_check_description[of env dir c w]])
    apply (clarsimp split: sum.splits)
    apply (rule after_mono[OF Cons.IH])
    apply (auto simp: decided_def after_simps split: sum.splits)
    done
qed

lemma each_results:
  "after (each (create_check_result env) rows) w (\<lambda>r w'. w_wf w' = w_wf w \<and> w_runs w' = w_runs w
     \<and> (r = Ok () \<longrightarrow> w_results w' = w_results w @ rows))"
proof (induction rows arbitrary: w)
  case (Cons row rows)
  have "after (create_check_result env row) w (\<lambda>r w'. w_wf w' = w_wf w \<and> w_runs w' = w_runs w
     \<and> (r = Ok () \<longrightarrow> w_results w' = w_results w @ [row]))"
    by (simp add: after_def create_check_result_def)
  then show ?case unfolding each.simps after_and_then
    by (rule after_mono) (auto split: sum.split intro: after_mono[OF Cons.IH])
qed (simp add: after_simps)

lemma create_check_run_result:
  "after (create_check_run env run) w (\<lambda>r w'. w_wf w' = w_wf w \<and> w_results w' = w_results w
     \<and> (r = Ok () \<longrightarrow> w_runs w' = w_runs w @ [run]))"
  by (simp add: after_def create_check_run_def)

lemma record_checks_result:
  assumes "(an \<longrightarrow> al) = p"
  shows "after (record_checks env run_id pid tid (rows, al, an)) w (\<lambda>r w'. \<forall>run rows' passed.
     r = Ok (run, rows', passed) \<longrightarrow> rows' = rows \<and> passed = p \<and> cr_id run = run_id
       \<and> cr_status run = (if passed then ''passed'' else ''failed'')
       \<and> w_runs w' = w_runs w @ [run] \<and> w_results w' = w_results w @ rows \<and> w_wf w' = w_wf w)"
  unfolding record_checks_def Let_def prod.case after_and_then after_draw sum.case assms[symmetric]
  by (rule after_mono[OF create_check_run_result])
     (auto split: sum.split intro!: after_mono[OF each_results] simp: after_simps)

lemma decided_passed:
  assumes "decided run_id cs rows al an"
  shows "(an \<longrightarrow> al) \<longleftrightarrow> list_all cs_passed rows"
proof -
  have l: "length cs = length rows" using assms by (auto simp: decided_def list_all2_lengthD)
  have "(\<forall>(c, row) \<in> set (zip cs rows). cs_passed row) \<longleftrightarrow> list_all cs_passed rows"
  proof -
    have "set rows = snd ` set (zip cs rows)" using l by (metis map_snd_zip set_map)
    then show ?thesis by (auto simp: list_all_iff)
  qed
  moreover have "al \<longleftrightarrow> (\<forall>(c, row) \<in> set (zip cs rows). cs_passed row)"
    using assms by (auto simp: decided_def list_all2_iff)
  moreover have "al" if "\<not> an"
    using that assms by (auto simp: decided_def dest: set_zip_leftD)
  ultimately show ?thesis by blast
qed

lemma acceptance_decided:
  assumes "run_acceptance_checks_for_task env project_id project_path task w = (Ok (run, rows, passed), w')"
  shows "list_all2 (\<lambda>c row. cs_description row = description c \<and> cs_check_run_id row = cr_id run
           \<and> (check_type c = ManualApproval \<longrightarrow> cs_passed row)) (acceptance_criteria task) rows
         \<and> (passed \<longleftrightarrow> list_all cs_passed rows)
         \<and> cr_status run = (if passed then ''passed'' else ''failed'')
         \<and> w_runs w' = w_runs w @ [run] \<and> w_results w' = w_results w @ rows \<and> w_wf w' = w_wf w"
proof -
  let ?same = "\<lambda>run c row. cs_description row = description c \<and> cs_check_run_id row = cr_id run
           \<and> (check_type c = ManualApproval \<longrightarrow> cs_passed row)"
  let ?Q = "\<lambda>r w'. \<forall>run rows passed. r = Ok (run, rows, passed) \<longrightarrow>
       list_all2 (?same run) (acceptance_criteria task) rows \<and> (passed \<longleftrightarrow> list_all cs_passed rows)
       \<and> cr_status run = (if passed then ''passed'' else ''failed'')
       \<and> w_runs w' = w_runs w @ [run] \<and> w_results w' = w_results w @ rows \<and> w_wf w' = w_wf w"
  have "after (run_acceptance_checks_for_task env project_id project_path task) w ?Q"
    unfolding run_acceptance_checks_for_task_def Let_def after_and_then after_draw after_read sum.case
  proof (rule after_mono[OF run_checks_decided], goal_cases)
    case (1 r w1)
    show ?case
    proof (cases r)
      case (Inr res)
      obtain rows al an where res: "res = (rows, al, an)" by (cases res)
      with 1 Inr have d: "decided (show_uuid (x_serde env) (x_fresh env (w_seq w)))
          (acceptance_criteria task) rows al an" by blast
      show ?thesis unfolding Inr res sum.case
        by (rule after_mono[OF record_checks_result[OF decided_passed[OF d]]])
           (use d 1 in \<open>auto simp: decided_def\<close>)
    qed simp
  qed
  from after_result[OF this assms] show ?thesis by simp
qed

text \<open>
  What a run of the acceptance checks decides. When it does not fail, it has stored one
  result for every check in their order and one run; manual approvals count as passed, and
  the run has passed exactly when every automated check has. Tasks and workflows stay as
  they are.
\<close>

theorem acceptance_checks_decide:
  assumes "run_acceptance_checks_for_task env project_id project_path task w = (Ok (run, rows, passed), w')"
  shows "list_all2 (\<lambda>c row. cs_description row = description c \<and> cs_check_run_id row = cr_id run
           \<and> (check_type c = ManualApproval \<longrightarrow> cs_passed row)) (acceptance_criteria task) rows
         \<and> (passed \<longleftrightarrow> list_all cs_passed rows)
         \<and> cr_status run = (if passed then ''passed'' else ''failed'')
         \<and> w_runs w' = w_runs w @ [run] \<and> w_results w' = w_results w @ rows \<and> w_wf w' = w_wf w"
  by (rule acceptance_decided[OF assms])

lemma acceptance_checks_decide_witness:
  "\<exists>run rows w'. run_acceptance_checks_for_task (plain_env (\<lambda>_ _ _. Ended False [] [])) 1 ''/p''
       (check_task [\<lparr>description = ''cargo test'', check_type = TestCommand, command = None\<rparr>]) checks_world
     = (Ok (run, rows, False), w') \<and> cr_status run = ''failed''"
proof -
  let ?t = "check_task [\<lparr>description = ''cargo test'', check_type = TestCommand, command = None\<rparr>]"
  let ?r = "run_acceptance_checks_for_task (plain_env (\<lambda>_ _ _. Ended False [] [])) 1 ''/p'' ?t checks_world"
  have ok: "command_allowed ''cargo test''" "split_test_command ''cargo test'' = Ok (''cargo'', [''test''])"
    by (simp_all add: command_allowed_def str_trim_graphic is_ascii_graphic_def safe_command_char_def
      ALLOWED_PREFIXES_def starts_with_def split_test_command_def split_whitespace_safe blank_words_def
      MAX_TEST_COMMAND_ARGS_def MAX_TEST_COMMAND_ARG_BYTES_def is_ascii_alphanumeric_def)
  have "\<exists>run rows w'. ?r = (Ok (run, rows, False), w')"
    by (simp add: run_acceptance_checks_for_task_def Let_def and_then_def draw_def read_def
          check_task_def sample_task_def checks_world_def empty_world_def check_dir_def run_check_def
          test_command_of_def ok of_result_def run_program_def plain_env_def give_def record_checks_def
          create_check_run_def create_check_result_def plain_serde_def empty_db_def task_ids_def
          sample_row_def log_event_def change_def)
  then obtain run rows w' where r: "?r = (Ok (run, rows, False), w')" by blast
  from acceptance_checks_decide[OF r] have "cr_status run = ''failed''" by simp
  with r show ?thesis by blast
qed

end
