(* ===== verification/Merge_Queue.thy ===== *)
theory Merge_Queue
  imports Acceptance Task_Deps Workflow_Loops
begin

text \<open>
  Reviews, the merge queue and checkpoints: the tables of \<open>pnevma-db/src/store/reviews.rs\<close>
  and the commands \<open>approve_review\<close>, \<open>reject_review\<close>, \<open>move_merge_queue_item\<close>,
  \<open>merge_queue_execute\<close>, \<open>list_conflicts\<close>, \<open>resolve_conflicts_manual\<close>, \<open>checkpoint_create\<close>
  and \<open>checkpoint_restore\<close> of
  \<open>pnevma-commands/src/commands/tasks.rs\<close>, with the clean-up of worktrees of \<open>mod.rs\<close>.
  The lock of the target branch makes one execution one step here; that a project is open is
  assumed. Payloads of events and the telemetry event are not modelled. The dispatch of
  released tasks is the parameter \<open>dispatch\<close>.
\<close>

section \<open>Tables\<close>

definition upsert_review :: "x_env \<Rightarrow> review_row \<Rightarrow> unit oper" where
  "upsert_review env row w =
     (if \<exists>r\<in>set (w_reviews w). rv_task_id r = rv_task_id row then
        (if \<exists>r\<in>set (w_reviews w). rv_id r = rv_id row \<and> rv_task_id r \<noteq> rv_task_id row
         then (Err (x_show_db env PrimaryKey), w)
         else (Ok (), w\<lparr>w_reviews :=
                map (\<lambda>r. if rv_task_id r = rv_task_id row then row else r) (w_reviews w)\<rparr>))
      else if rv_id row \<in> rv_id ` set (w_reviews w) then (Err (x_show_db env PrimaryKey), w)
      else if rv_task_id row \<notin> task_ids (w_db w) then (Err (x_show_db env ForeignKey), w)
      else (Ok (), w\<lparr>w_reviews := w_reviews w @ [row]\<rparr>))"

definition get_review_by_task :: "string \<Rightarrow> world \<Rightarrow> review_row option" where
  "get_review_by_task task_id w = find (\<lambda>r. rv_task_id r = task_id) (w_reviews w)"

definition delete_review_by_task :: "string \<Rightarrow> unit oper" where
  "delete_review_by_task task_id =
     change (\<lambda>w. w\<lparr>w_reviews := filter (\<lambda>r. rv_task_id r \<noteq> task_id) (w_reviews w)\<rparr>)"

text \<open>The update of a conflicting row sets every column but the project.\<close>

definition upsert_merge_queue_item :: "x_env \<Rightarrow> merge_queue_row \<Rightarrow> unit oper" where
  "upsert_merge_queue_item env row w =
     (if \<exists>r\<in>set (w_queue w). mq_id r = mq_id row \<and> mq_task_id r \<noteq> mq_task_id row
      then (Err (x_show_db env PrimaryKey), w)
      else if mq_task_id row \<in> mq_task_id ` set (w_queue w)
      then (Ok (), w\<lparr>w_queue := map (\<lambda>r. if mq_task_id r = mq_task_id row
                       then row\<lparr>mq_project_id := mq_project_id r\<rparr> else r) (w_queue w)\<rparr>)
      else if mq_project_id row \<notin> set (db_projects (w_db w)) \<or> mq_task_id row \<notin> task_ids (w_db w)
      then (Err (x_show_db env ForeignKey), w)
      else (Ok (), w\<lparr>w_queue := w_queue w @ [row]\<rparr>))"

definition get_merge_queue_item_by_task :: "string \<Rightarrow> world \<Rightarrow> merge_queue_row option" where
  "get_merge_queue_item_by_task task_id w = find (\<lambda>r. mq_task_id r = task_id) (w_queue w)"

definition list_merge_queue :: "string \<Rightarrow> world \<Rightarrow> merge_queue_row list" where
  "list_merge_queue project_id w =
     sort_key mq_approved_at (filter (\<lambda>r. mq_project_id r = project_id) (w_queue w))"

definition create_checkpoint :: "x_env \<Rightarrow> checkpoint_row \<Rightarrow> unit oper" where
  "create_checkpoint env row w =
     (if cp_id row \<in> cp_id ` set (w_checkpoints w) then (Err (x_show_db env PrimaryKey), w)
      else if cp_project_id row \<notin> set (db_projects (w_db w))
              \<or> (case cp_task_id row of None \<Rightarrow> False | Some t \<Rightarrow> t \<notin> task_ids (w_db w))
      then (Err (x_show_db env ForeignKey), w)
      else (Ok (), w\<lparr>w_checkpoints := w_checkpoints w @ [row]\<rparr>))"

section \<open>Decisions of a review\<close>

definition approve_review :: "x_env \<Rightarrow> uuid \<Rightarrow> string \<Rightarrow> string option \<Rightarrow> unit oper" where
  "approve_review env project_id task_id note =
     and_then (of_result (parse_uuid (x_serde env) task_id)) (\<lambda>_.
     and_then (read (get_review_by_task task_id)) (\<lambda>found.
     and_then (or_fail (''review pack not found for task '' @ task_id) found) (\<lambda>review.
     and_then (draw (x_now env)) (\<lambda>now.
     and_then (upsert_review env (review\<lparr>rv_status := ''Approved'', rv_reviewer_notes := note,
                 rv_approved_at := Some now\<rparr>)) (\<lambda>_.
     and_then (draw (x_fresh env)) (\<lambda>i.
     and_then (upsert_merge_queue_item env
         \<lparr>mq_id = show_uuid (x_serde env) i, mq_project_id = show_uuid (x_serde env) project_id,
          mq_task_id = task_id, mq_status = ''Queued'', mq_blocked_reason = None,
          mq_approved_at = now, mq_started_at = None, mq_completed_at = None\<rparr>) (\<lambda>_.
     and_then (log_event (Event ''review'' ''ReviewApproved'')) (\<lambda>_.
     log_event (Emitted ''merge_queue_updated'' task_id)))))))))"

definition reject_review :: "x_env \<Rightarrow> string \<Rightarrow> string option \<Rightarrow> unit oper" where
  "reject_review env task_id note =
     and_then (of_result (parse_uuid (x_serde env) task_id)) (\<lambda>_.
     and_then (read (get_review_by_task task_id)) (\<lambda>found.
     and_then (case found of
         None \<Rightarrow> give ()
       | Some review \<Rightarrow>
           upsert_review env (review\<lparr>rv_status := ''Rejected'', rv_reviewer_notes := note\<rparr>)) (\<lambda>_.
     and_then (read (\<lambda>w. get_task task_id (w_db w))) (\<lambda>task_row.
     and_then (case task_row of
         None \<Rightarrow> give ()
       | Some row \<Rightarrow>
           and_then (draw (x_now env)) (\<lambda>now.
           on_tasks (update_task (row\<lparr>tk_status := ''InProgress'', tk_updated_at := now\<rparr>)))) (\<lambda>_.
     log_event (Event ''review'' ''ReviewRejected''))))))"

section \<open>Order of the queue\<close>

record queue_view =
  qv_item :: merge_queue_row
  qv_title :: string

definition merge_queue_views :: "string \<Rightarrow> world \<Rightarrow> queue_view list" where
  "merge_queue_views project_id w =
     map (\<lambda>row. \<lparr>qv_item = row,
                 qv_title = (case get_task (mq_task_id row) (w_db w) of
                    Some task \<Rightarrow> tk_title task | None \<Rightarrow> mq_task_id row)\<rparr>)
       (list_merge_queue project_id w)"

fun position :: "('a \<Rightarrow> bool) \<Rightarrow> 'a list \<Rightarrow> nat option" where
  "position P [] = None"
| "position P (x # xs) = (if P x then Some 0 else map_option Suc (position P xs))"

definition swap_with :: "string \<Rightarrow> nat \<Rightarrow> nat \<Rightarrow> string + nat option" where
  "swap_with target index len =
     (if target = ''up'' \<and> index > 0 then Ok (Some (index - 1))
      else if target = ''down'' \<and> index + 1 < len then Ok (Some (index + 1))
      else if target = ''up'' \<or> target = ''down'' then Ok None
      else Err (''direction must be '' @ [CHR 0x27] @ ''up'' @ [CHR 0x27] @ '' or '' @ [CHR 0x27]
                @ ''down'' @ [CHR 0x27]))"

definition move_merge_queue_item ::
  "x_env \<Rightarrow> uuid \<Rightarrow> string \<Rightarrow> string \<Rightarrow> queue_view list oper" where
  "move_merge_queue_item env project_id task_id direction =
     (let pid = show_uuid (x_serde env) project_id in
     and_then (read (list_merge_queue pid)) (\<lambda>rows.
     and_then (or_fail (''task not in merge queue: '' @ task_id)
                (position (\<lambda>row. mq_task_id row = task_id) rows)) (\<lambda>index.
     and_then (of_result (swap_with (to_ascii_lowercase (str_trim direction)) index (length rows))) (\<lambda>other.
     and_then (case other of
         None \<Rightarrow> give ()
       | Some other_index \<Rightarrow>
           and_then (upsert_merge_queue_item env
               ((rows ! index)\<lparr>mq_approved_at := mq_approved_at (rows ! other_index)\<rparr>)) (\<lambda>_.
           and_then (upsert_merge_queue_item env
               ((rows ! other_index)\<lparr>mq_approved_at := mq_approved_at (rows ! index)\<rparr>)) (\<lambda>_.
           and_then (log_event (Event ''review'' ''MergeQueueReordered'')) (\<lambda>_.
           log_event (Emitted ''merge_queue_updated'' ''''))))) (\<lambda>_.
     read (merge_queue_views pid))))))"

section \<open>Clean-up of a worktree\<close>

definition join_error :: "string option \<Rightarrow> string \<Rightarrow> string option" where
  "join_error e msg = Some (case e of Some existing \<Rightarrow> existing @ ''; '' @ msg | None \<Rightarrow> msg)"

definition service_cleanup ::
  "x_env \<Rightarrow> uuid \<Rightarrow> worktree_row \<Rightarrow> bool \<Rightarrow> string option oper" where
  "service_cleanup env task_id wt delete_branch w =
     (case cleanup_persisted_worktree (x_git env (w_acts w)) task_id (wt_path wt)
             (Some (wt_branch wt)) delete_branch (w_git w) of
        (r, g) \<Rightarrow> (Ok (case r of Inl e \<Rightarrow> Some (show_git_error e) | Inr _ \<Rightarrow> None),
                   w\<lparr>w_git := g, w_acts := w_acts w @ [ServiceCall]\<rparr>))"

definition before_remove_hooks :: "x_env \<Rightarrow> worktree_row \<Rightarrow> unit oper" where
  "before_remove_hooks env wt =
     change (\<lambda>w. case x_before_remove env (w_acts w) of
        None \<Rightarrow> w | Some cmds \<Rightarrow> w\<lparr>w_acts := w_acts w @ [RanHooks (wt_path wt) cmds]\<rparr>)"

text \<open>The error so far and whether the branch is gone.\<close>

definition force_delete_branch ::
  "x_env \<Rightarrow> string \<Rightarrow> string \<Rightarrow> string option \<Rightarrow> (string option \<times> bool) oper" where
  "force_delete_branch env pp br err =
     and_then (settle (git_output env pp [''branch'', ''-D'', br])) (\<lambda>res.
     case res of
       Inr _ \<Rightarrow> give (err, True)
     | Inl e \<Rightarrow>
         and_then (settle (git_output env pp [''update-ref'', ''-d'', ''refs/heads/'' @ br])) (\<lambda>res.
         case res of
           Inr _ \<Rightarrow> give (err, True)
         | Inl u \<Rightarrow> give (join_error err (''branch cleanup failed: '' @ e
                             @ ''; update-ref cleanup failed: '' @ u), False)))"

definition remove_branch ::
  "x_env \<Rightarrow> string \<Rightarrow> string \<Rightarrow> string option \<Rightarrow> (string option \<times> bool) oper" where
  "remove_branch env pp br err0 =
     and_then (settle (git_output env pp [''worktree'', ''prune'', ''--expire'', ''now''])) (\<lambda>_.
     and_then (settle (git_ref_exists env pp (''refs/heads/'' @ br))) (\<lambda>ex.
     let (err, branch_exists) = (case ex of
           Inr v \<Rightarrow> (err0, v)
         | Inl e \<Rightarrow> (join_error err0 (''branch existence check failed: '' @ e), True)) in
     and_then (if branch_exists then force_delete_branch env pp br err else give (err, True))
       (\<lambda>(err, removed).
     if \<not> removed then give (err, False)
     else
       and_then (settle (git_ref_exists env pp (''refs/heads/'' @ br))) (\<lambda>still.
       if (case still of Inr v \<Rightarrow> v | Inl _ \<Rightarrow> True)
       then give (join_error err ''branch still exists after cleanup'', False)
       else give (err, True)))))"

definition cleanup_worktree_row ::
  "x_env \<Rightarrow> uuid \<Rightarrow> string option \<Rightarrow> bool \<Rightarrow> worktree_row \<Rightarrow> unit oper" where
  "cleanup_worktree_row env task_id project_path delete_branch wt =
     and_then (if project_path = None then give () else before_remove_hooks env wt) (\<lambda>_.
     and_then (service_cleanup env task_id wt delete_branch) (\<lambda>err.
     and_then (case project_path of
         None \<Rightarrow> give (err, False)
       | Some pp \<Rightarrow> if delete_branch then remove_branch env pp (wt_branch wt) err
                    else give (err, False)) (\<lambda>(err, branch_removed).
     and_then (if err \<noteq> None then log_event (Event ''git'' ''WorktreeCleanupFailed'')
       else and_then (log_event (Event ''git'' ''WorktreeRemoved'')) (\<lambda>_.
            if branch_removed then log_event (Event ''git'' ''BranchRemoved'') else give ())) (\<lambda>_.
     and_then (on_tasks (remove_worktree_by_task (show_uuid (x_serde env) task_id))) (\<lambda>_.
     case err of
       Some e \<Rightarrow> if delete_branch then fail e else give ()
     | None \<Rightarrow> give ())))))"

definition cleanup_task_worktree_inner ::
  "x_env \<Rightarrow> uuid \<Rightarrow> string option \<Rightarrow> bool \<Rightarrow> unit oper" where
  "cleanup_task_worktree_inner env task_id project_path delete_branch =
     (let tid = show_uuid (x_serde env) task_id in
     and_then (read (\<lambda>w. find_worktree_by_task tid (w_db w))) (\<lambda>found.
     and_then (case found of
         None \<Rightarrow> give ()
       | Some wt \<Rightarrow> cleanup_worktree_row env task_id project_path delete_branch wt) (\<lambda>_.
     and_then (read (\<lambda>w. get_task tid (w_db w))) (\<lambda>task_row.
     case task_row of
       None \<Rightarrow> give ()
     | Some row \<Rightarrow>
         if tk_branch row = None \<and> tk_worktree_id row = None then give ()
         else and_then (draw (x_now env)) (\<lambda>now.
              on_tasks (update_task (row\<lparr>tk_branch := None, tk_worktree_id := None,
                                         tk_updated_at := now\<rparr>)))))))"

section \<open>Merging\<close>

record merge_job =
  mj_project_id :: uuid
  mj_project_path :: string
  mj_target :: string
  mj_task_id :: string
  mj_uuid :: uuid
  mj_item :: merge_queue_row
  mj_row :: task_row
  mj_task :: "unit task_contract"
  mj_worktree :: worktree_row

definition start_item :: "x_env \<Rightarrow> string \<Rightarrow> merge_queue_row oper" where
  "start_item env task_id =
     and_then (read (get_merge_queue_item_by_task task_id)) (\<lambda>found.
     and_then (or_fail (''task not in merge queue: '' @ task_id) found) (\<lambda>item.
     and_then (draw (x_now env)) (\<lambda>now.
     let item = item\<lparr>mq_status := ''Running'', mq_started_at := Some now, mq_blocked_reason := None\<rparr> in
     and_then (upsert_merge_queue_item env item) (\<lambda>_.
     and_then (log_event (Emitted ''merge_queue_updated'' ''Running'')) (\<lambda>_.
     give item)))))"

definition load_job ::
  "x_env \<Rightarrow> uuid \<Rightarrow> string \<Rightarrow> string \<Rightarrow> string \<Rightarrow> merge_queue_row \<Rightarrow> merge_job oper" where
  "load_job env project_id project_path target task_id item =
     and_then (of_result (parse_uuid (x_serde env) task_id)) (\<lambda>uid.
     and_then (read (\<lambda>w. get_task task_id (w_db w))) (\<lambda>found.
     and_then (or_fail (''task not found: '' @ task_id) found) (\<lambda>row.
     and_then (of_result (task_row_to_contract (x_serde env) row)) (\<lambda>task.
     and_then (read (\<lambda>w. find_worktree_by_task task_id (w_db w))) (\<lambda>found.
     and_then (or_fail ''task worktree not found'' found) (\<lambda>wt.
     give \<lparr>mj_project_id = project_id, mj_project_path = project_path, mj_target = target,
           mj_task_id = task_id, mj_uuid = uid, mj_item = item, mj_row = row, mj_task = task,
           mj_worktree = wt\<rparr>))))))"

definition merge_checkpoint :: "x_env \<Rightarrow> merge_job \<Rightarrow> unit oper" where
  "merge_checkpoint env j =
     and_then (draw (\<lambda>n. show_uuid (x_serde env) (x_fresh env n))) (\<lambda>i.
     let git_ref = ''pnevma/checkpoint/'' @ i in
     and_then (git_output env (mj_project_path j) [''tag'', git_ref]) (\<lambda>_.
     and_then (draw (x_now env)) (\<lambda>now.
     and_then (create_checkpoint env
         \<lparr>cp_id = i, cp_project_id = show_uuid (x_serde env) (mj_project_id j),
          cp_task_id = Some (mj_task_id j), cp_git_ref = git_ref, cp_session_metadata_json = ''{}'',
          cp_created_at = now,
          cp_description = Some ''auto-checkpoint before merge queue execution''\<rparr>) (\<lambda>_.
     log_event (Event ''core'' ''CheckpointCreated'')))))"

text \<open>What \<open>git status\<close> prints and the error of the repair, if any.\<close>

definition merge_repair :: "x_env \<Rightarrow> merge_job \<Rightarrow> (string \<times> string option) oper" where
  "merge_repair env j =
     (let dir = wt_path (mj_worktree j) in
     and_then (git_output env dir [''status'', ''--porcelain'']) (\<lambda>dirty.
     if tk_status (mj_row j) = ''Review'' \<and> branch (mj_task j) \<noteq> None then
       and_then (settle (prepare_task_branch_for_review env dir (mj_uuid j) (title (mj_task j))
                           (mj_target j))) (\<lambda>res.
       case res of
         Inr _ \<Rightarrow>
           and_then (log_event (Event ''git'' ''AgentChangesCommitted'')) (\<lambda>_.
           and_then (git_output env dir [''status'', ''--porcelain'']) (\<lambda>dirty.
           give (dirty, None)))
       | Inl e \<Rightarrow>
           and_then (log_event (Event ''git'' ''AgentOutputNotMergeReady'')) (\<lambda>_.
           give (dirty, Some e)))
     else give (dirty, None)))"

definition block_item :: "x_env \<Rightarrow> merge_job \<Rightarrow> string \<Rightarrow> unit oper" where
  "block_item env j reason =
     and_then (upsert_merge_queue_item env
         ((mj_item j)\<lparr>mq_status := ''Blocked'', mq_blocked_reason := Some reason\<rparr>)) (\<lambda>_.
     and_then (log_event (Notified ''Merge blocked'' (title (mj_task j)))) (\<lambda>_.
     log_event (Emitted ''merge_queue_updated'' ''Blocked'')))"

definition dirty_reason :: "string \<Rightarrow> string option \<Rightarrow> string" where
  "dirty_reason dirty repair_error =
     (case repair_error of
        Some v \<Rightarrow> if str_trim v \<noteq> [] then v @ ''; remaining dirty paths: '' @ str_trim dirty
                  else ''worktree has uncommitted changes''
      | None \<Rightarrow> ''worktree has uncommitted changes'')"

definition merge_rebase :: "x_env \<Rightarrow> merge_job \<Rightarrow> unit oper" where
  "merge_rebase env j =
     (let dir = wt_path (mj_worktree j) in
     and_then (settle (git_output env dir [''rebase'', mj_target j])) (\<lambda>res.
     case res of
       Inr _ \<Rightarrow> give ()
     | Inl err \<Rightarrow>
         and_then (settle (git_output env dir [''diff'', ''--name-only'', ''--diff-filter=U''])) (\<lambda>out.
         let conflicts = (case out of Inr s \<Rightarrow> s | Inl _ \<Rightarrow> []) in
         and_then (block_item env j (''rebase conflict: '' @ str_join '', '' (str_lines conflicts))) (\<lambda>_.
         and_then (log_event (Event ''git'' ''ConflictDetected'')) (\<lambda>_.
         fail ''merge blocked by rebase conflicts'')))))"

definition merge_checks :: "x_env \<Rightarrow> merge_job \<Rightarrow> unit oper" where
  "merge_checks env j =
     and_then (run_acceptance_checks_for_task env (mj_project_id j) (mj_project_path j) (mj_task j))
       (\<lambda>(_, _, checks_ok).
     if checks_ok then give ()
     else and_then (block_item env j ''automated checks failed after rebase'') (\<lambda>_.
          fail ''merge blocked: checks failed''))"

definition merge_branch :: "x_env \<Rightarrow> merge_job \<Rightarrow> unit oper" where
  "merge_branch env j =
     (let dir = mj_project_path j; br = wt_branch (mj_worktree j) in
     and_then (git_output env dir [''checkout'', mj_target j]) (\<lambda>_.
     and_then (settle (git_output env dir [''merge'', ''--ff-only'', br])) (\<lambda>res.
     case res of
       Inr _ \<Rightarrow> give ()
     | Inl ff \<Rightarrow>
         and_then (settle (git_output env dir
             [''merge'', ''--no-ff'', ''-m'', ''Merge task '' @ mj_task_id j, br])) (\<lambda>res.
         case res of
           Inr _ \<Rightarrow> give ()
         | Inl e \<Rightarrow> fail (''ff merge failed: '' @ ff @ ''; merge commit failed: '' @ e)))))"

definition wf_log :: "wf_effect \<Rightarrow> log_entry" where
  "wf_log e = (case e of
      LogWorkflowStatus i n old new \<Rightarrow> Event ''workflow'' ''WorkflowStatusChanged''
    | EmitWorkflowUpdated i n st \<Rightarrow> Emitted ''workflow_updated'' st
    | NotifyWorkflow t b l \<Rightarrow> Notified t b)"

definition merge_finish ::
  "x_env \<Rightarrow> (uuid \<Rightarrow> task_db \<Rightarrow> task_db) \<Rightarrow> merge_job \<Rightarrow> unit oper" where
  "merge_finish env dispatch j =
     (let dir = mj_project_path j; br = wt_branch (mj_worktree j) in
     and_then (draw (x_now env)) (\<lambda>now.
     and_then (on_tasks (update_task ((mj_row j)\<lparr>tk_status := ''Done'', tk_updated_at := now\<rparr>))) (\<lambda>_.
     and_then (cleanup_task_worktree_inner env (mj_uuid j) (Some dir) True) (\<lambda>_.
     and_then (git_ref_exists env dir (''refs/heads/'' @ br)) (\<lambda>still.
     if still then fail (''merged branch still exists after cleanup: '' @ br)
     else
       and_then (draw (x_now env)) (\<lambda>now.
       and_then (\<lambda>w. case refresh_dependency_states_inner (x_serde env) now
               (show_uuid (x_serde env) (mj_project_id j)) (Some dispatch) {mj_uuid j} (w_db w) of
             (r, db, _) \<Rightarrow> (r, w\<lparr>w_wf := (w_wf w)\<lparr>wd_db := db\<rparr>\<rparr>)) (\<lambda>_.
       and_then (draw (x_now env)) (\<lambda>now.
       and_then (change (\<lambda>w. case check_workflow_completion now True (mj_task_id j) (w_wf w) of
             (es, d) \<Rightarrow> w\<lparr>w_wf := d, w_log := w_log w @ map wf_log es\<rparr>)) (\<lambda>_.
       and_then (draw (x_now env)) (\<lambda>now.
       and_then (upsert_merge_queue_item env ((mj_item j)\<lparr>mq_status := ''Merged'',
                   mq_completed_at := Some now, mq_blocked_reason := None\<rparr>)) (\<lambda>_.
       and_then (log_event (Emitted ''merge_queue_updated'' ''Completed'')) (\<lambda>_.
       and_then (log_event (Event ''git'' ''MergeCompleted'')) (\<lambda>_.
       and_then (log_event (Notified ''Merge completed'' (title (mj_task j)))) (\<lambda>_.
       log_event (Emitted ''knowledge_capture_requested'' (mj_task_id j))))))))))))))))"

definition merge_clean :: "x_env \<Rightarrow> merge_job \<Rightarrow> unit oper" where
  "merge_clean env j =
     and_then (merge_repair env j) (\<lambda>(dirty, repair_error).
     if str_trim dirty = [] then give ()
     else let reason = dirty_reason dirty repair_error in
          and_then (block_item env j reason) (\<lambda>_. fail (''merge blocked: '' @ reason)))"

definition merge_queue_execute ::
  "x_env \<Rightarrow> (uuid \<Rightarrow> task_db \<Rightarrow> task_db) \<Rightarrow> uuid \<Rightarrow> string \<Rightarrow> string \<Rightarrow> string \<Rightarrow> unit oper" where
  "merge_queue_execute env dispatch project_id project_path target task_id =
     and_then (start_item env task_id) (\<lambda>item.
     and_then (load_job env project_id project_path target task_id item) (\<lambda>j.
     and_then (merge_checkpoint env j) (\<lambda>_.
     and_then (merge_clean env j) (\<lambda>_.
     and_then (merge_rebase env j) (\<lambda>_.
     and_then (merge_checks env j) (\<lambda>_.
     and_then (merge_branch env j) (\<lambda>_.
     merge_finish env dispatch j)))))))"

section \<open>Conflicts and checkpoints\<close>

definition list_conflicts :: "x_env \<Rightarrow> string \<Rightarrow> string list oper" where
  "list_conflicts env task_id =
     and_then (read (\<lambda>w. find_worktree_by_task task_id (w_db w))) (\<lambda>found.
     case found of
       None \<Rightarrow> give []
     | Some wt \<Rightarrow>
         and_then (git_output env (wt_path wt) [''diff'', ''--name-only'', ''--diff-filter=U'']) (\<lambda>out.
         give (filter (\<lambda>l. l \<noteq> []) (map str_trim (str_lines out)))))"

definition resolve_conflicts_manual :: "string \<Rightarrow> string oper" where
  "resolve_conflicts_manual task_id =
     and_then (read (\<lambda>w. find_worktree_by_task task_id (w_db w))) (\<lambda>found.
     and_then (or_fail (''worktree not found for task '' @ task_id) found) (\<lambda>wt. give (wt_path wt)))"

definition checkpoint_create ::
  "x_env \<Rightarrow> uuid \<Rightarrow> string \<Rightarrow> (task_db \<Rightarrow> string) \<Rightarrow> string option \<Rightarrow> string option
     \<Rightarrow> checkpoint_row oper" where
  "checkpoint_create env project_id project_path sessions_json task_id descr =
     (let pid = show_uuid (x_serde env) project_id in
     and_then (draw (\<lambda>n. show_uuid (x_serde env) (x_fresh env n))) (\<lambda>i.
     let git_ref = ''pnevma/checkpoint/'' @ i in
     and_then (git_output env project_path [''tag'', git_ref]) (\<lambda>_.
     and_then (read (\<lambda>w. sessions_json (w_db w))) (\<lambda>json.
     and_then (draw (x_now env)) (\<lambda>now.
     let row = \<lparr>cp_id = i, cp_project_id = pid, cp_task_id = task_id, cp_git_ref = git_ref,
                cp_session_metadata_json = json, cp_created_at = now,
                cp_description = descr\<rparr> in
     and_then (create_checkpoint env row) (\<lambda>_. give row))))))"

definition checkpoint_restore :: "x_env \<Rightarrow> uuid \<Rightarrow> string \<Rightarrow> string \<Rightarrow> unit oper" where
  "checkpoint_restore env project_id project_path checkpoint_id =
     and_then (read (\<lambda>w. filter (\<lambda>s. se_project_id s = show_uuid (x_serde env) project_id)
                               (db_sessions (w_db w)))) (\<lambda>sessions.
     if \<exists>s\<in>set sessions. se_status s = ''running''
     then fail (''cannot restore checkpoint while sessions are running '' @ em_dash
                @ '' stop all sessions first'')
     else
       and_then (read (\<lambda>w. find (\<lambda>c. cp_id c = checkpoint_id) (w_checkpoints w))) (\<lambda>found.
       and_then (or_fail (''checkpoint not found: '' @ checkpoint_id) found) (\<lambda>row.
       and_then (git_output env project_path [''reset'', ''--hard'', cp_git_ref row]) (\<lambda>_.
       and_then (log_event (Event ''core'' ''CheckpointRestored'')) (\<lambda>_.
       log_event (Emitted ''project_refreshed'' checkpoint_id))))))"

section \<open>What every stage respects\<close>

definition is_merge :: "act \<Rightarrow> bool" where
  "is_merge a \<longleftrightarrow> (\<exists>d args. a = Ran d (''git'' # ''merge'' # args))"

lemma is_merge_simps [simp]:
  "is_merge (Ran d (''git'' # c # args)) \<longleftrightarrow> c = ''merge''" "\<not> is_merge (Ran d [''git''])"
  "\<not> is_merge (RemoveDirAll p)" "\<not> is_merge (RemoveFile p)" "\<not> is_merge (RanHooks p cmds)"
  "\<not> is_merge ServiceCall"
  by (simp_all add: is_merge_def)

lemma allowed_not_merge: "allowed_run d a \<Longrightarrow> \<not> is_merge a"
  by (auto simp: allowed_run_def is_merge_def allowed_program_def starts_with_def)

lemma split_no_merge:
  "command_allowed cmd \<Longrightarrow> split_test_command cmd = Ok (p, args) \<Longrightarrow> \<not> is_merge (Ran dir (p # args))"
  by (rule allowed_not_merge[OF split_test_command_allowed])

text \<open>A relation that holds across every step but the updates of the tables of tasks and of
  the queue, and across the actions that merge nothing.\<close>

locale respects =
  fixes R :: "world \<Rightarrow> world \<Rightarrow> bool"
  assumes refl: "reflp R" and trans: "transp R"
    and seq: "R w (w\<lparr>w_seq := n\<rparr>)" and log: "R w (w\<lparr>w_log := l\<rparr>)"
    and act: "\<not> is_merge a \<Longrightarrow> R w (w\<lparr>w_acts := w_acts w @ [a]\<rparr>)"
    and runs: "R w (w\<lparr>w_runs := rs\<rparr>)" and results: "R w (w\<lparr>w_results := cs\<rparr>)"
    and checkpoints: "R w (w\<lparr>w_checkpoints := ps\<rparr>)"
begin

lemmas base = moves_intros refl trans

lemma draws: "moves R (draw f)" "moves R (log_event l)"
  by (simp_all add: moves_draw moves_log_event seq log)

lemma tables: "moves R (create_check_run env r)" "moves R (create_check_result env c)"
  "moves R (create_checkpoint env p)"
  using refl by (auto simp: moves_def create_check_run_def create_check_result_def create_checkpoint_def
      runs results checkpoints reflpD)

lemma git: "c \<noteq> ''merge'' \<Longrightarrow> moves R (git_output env dir (c # args))"
  by (intro moves_git_output refl trans act) simp

lemma program: "c \<noteq> ''merge'' \<Longrightarrow> moves R (run_program env dir (''git'' # c # args))"
  by (intro moves_run_program act) simp

lemma remove: "moves R (remove_path env (RemoveDirAll p))" "moves R (remove_path env (RemoveFile p))"
  by (auto simp: moves_def remove_path_def act)

lemma prepare: "moves R (prepare_task_branch_for_review env dir i t target)"
proof -
  have meta: "moves R (case m of IsDir \<Rightarrow> remove_path env (RemoveDirAll p)
      | IsOther \<Rightarrow> remove_path env (RemoveFile p) | NotFound \<Rightarrow> give () | MetaError e \<Rightarrow> fail e)" for m p
    by (cases m) (auto intro!: base remove)
  have "moves R (restore_or_remove_git_path env dir p)" for p
    unfolding restore_or_remove_git_path_def git_path_is_tracked_def Let_def
    by (auto intro!: base git program meta)
  then have "moves R (each (restore_or_remove_git_path env dir) agent_files)"
    by (intro each_moves refl trans)
  moreover have "moves R (git_clean_paths env dir ps)" for ps
    unfolding git_clean_paths_def by (auto intro!: base git)
  moreover have "moves R (commit_pending env dir msg)" for msg
    unfolding commit_pending_def git_output_with_config_def by (auto intro!: base git program)
  moreover have "moves R (branch_ahead_count env dir target)"
    unfolding branch_ahead_count_def by (auto intro!: base git)
  ultimately show ?thesis
    unfolding prepare_task_branch_for_review_def Let_def by (auto intro!: base git)
qed

lemma check: "moves R (run_check env dir c)"
proof (cases "check_type c")
  case TestCommand
  then show ?thesis unfolding run_check_def check_type.case Let_def
    by (auto intro!: moves_of_result_then refl moves_run_program base act
          dest: split_no_merge)
qed (auto simp: run_check_def path_exists_now_def Let_def intro!: base)

lemma acceptance: "moves R (run_acceptance_checks_for_task env pid path task)"
proof -
  have "moves R (run_checks env dir run_id p t cs)" for dir run_id p t cs
    by (induction cs) (auto intro!: base check draws simp: split_beta)
  moreover have "moves R (record_checks env run_id p t res)" for run_id p t res
    unfolding record_checks_def Let_def
    by (auto intro!: base draws tables each_moves simp: split_beta)
  ultimately show ?thesis
    unfolding run_acceptance_checks_for_task_def Let_def by (auto intro!: base draws)
qed

lemma load: "moves R (load_job env pid path target task_id item)"
  unfolding load_job_def by (auto intro!: base)

lemma checkpoint: "moves R (merge_checkpoint env j)"
  unfolding merge_checkpoint_def Let_def by (auto intro!: base draws tables git)

lemma blocking:
  assumes "\<And>reason. moves R (block_item env j reason)"
  shows "moves R (merge_clean env j)" "moves R (merge_rebase env j)" "moves R (merge_checks env j)"
  unfolding merge_clean_def merge_repair_def merge_rebase_def merge_checks_def Let_def
  by (auto intro!: base draws git prepare acceptance assms)

end

section \<open>Nothing is merged before the checks\<close>

definition quiet :: "world \<Rightarrow> world \<Rightarrow> bool" where
  "quiet w w' \<longleftrightarrow> acts_by (\<lambda>a. \<not> is_merge a) w w' \<and> w_wf w' = w_wf w"

interpretation still: respects quiet
proof
  show "reflp quiet" by (simp add: quiet_def reflp_def acts_by_def)
  show "transp quiet"
    using acts_by_order(2)[of "\<lambda>a. \<not> is_merge a"] by (auto simp: quiet_def transp_def)
qed (simp_all add: quiet_def)

lemma queue_quiet: "moves quiet (upsert_merge_queue_item env item)"
  by (auto simp: moves_def quiet_def upsert_merge_queue_item_def acts_by_def)

lemma quiet_stages:
  "moves quiet (start_item env task_id)" "moves quiet (block_item env j reason)"
  unfolding start_item_def block_item_def Let_def
  by (auto intro!: still.base still.draws queue_quiet)

lemma and_then_merge:
  assumes "and_then m f w = (r, w')" "moves quiet m" "\<not> quiet w w'"
  obtains x w1 where "m w = (Ok x, w1)" "quiet w w1" "f x w1 = (r, w')" "\<not> quiet w1 w'"
proof -
  obtain r1 w1 where m: "m w = (r1, w1)" by fastforce
  then have q: "quiet w w1" using movesD assms(2) by blast
  then have "\<not> quiet w1 w'" using assms(3) still.trans by (blast dest: transpD)
  moreover from this obtain x where "r1 = Ok x" using m assms(1,3) q by (cases r1) (auto simp: and_then_def)
  ultimately show thesis using that m q assms(1) by (simp add: and_then_def)
qed

lemma rebase_ok:
  assumes "merge_rebase env j w = (Ok x, w')"
  shows "is_ok (git_result (x_run env (w_acts w) (wt_path (mj_worktree j)) [''git'', ''rebase'', mj_target j]))
         \<and> w_acts w' = w_acts w @ [Ran (wt_path (mj_worktree j)) [''git'', ''rebase'', mj_target j]]
         \<and> w_runs w' = w_runs w"
proof -
  have "after (merge_rebase env j) w (\<lambda>r w'. is_ok r \<longrightarrow>
      is_ok (git_result (x_run env (w_acts w) (wt_path (mj_worktree j)) [''git'', ''rebase'', mj_target j]))
         \<and> w_acts w' = w_acts w @ [Ran (wt_path (mj_worktree j)) [''git'', ''rebase'', mj_target j]]
         \<and> w_runs w' = w_runs w)"
    unfolding merge_rebase_def Let_def
    by (auto simp: after_simps split: sum.split intro!: afterI)
  from after_result[OF this assms] show ?thesis by simp
qed

lemma checks_ok:
  assumes "merge_checks env j w = (Ok x, w')"
  obtains run rows where "w_runs w' = w_runs w @ [run]" "cr_status run = ''passed''"
    "run_acceptance_checks_for_task env (mj_project_id j) (mj_project_path j) (mj_task j) w
       = (Ok (run, rows, True), w')"
proof -
  obtain r w1 where a: "run_acceptance_checks_for_task env (mj_project_id j) (mj_project_path j) (mj_task j) w = (r, w1)"
    by fastforce
  with assms obtain run rows passed where r: "r = Ok (run, rows, passed)"
    by (cases r) (auto simp: merge_checks_def and_then_def)
  with a assms have "passed" "w' = w1"
    by (auto simp: merge_checks_def and_then_def give_def fail_def split: if_splits prod.splits sum.splits)
  with a r acceptance_decided[of env "mj_project_id j" "mj_project_path j" "mj_task j" w run rows passed w1]
  show thesis using that by simp
qed

lemma quiet_prefix: "quiet w w' \<Longrightarrow> prefix (w_acts w) (w_acts w')"
  by (auto simp: quiet_def acts_by_def)

lemma repair_status:
  "after (merge_repair env j) w (\<lambda>r w'. \<forall>dirty e. r = Ok (dirty, e) \<longrightarrow>
     (\<exists>acts. prefix (w_acts w) acts \<and> prefix acts (w_acts w')
        \<and> git_result (x_run env acts (wt_path (mj_worktree j)) [''git'', ''status'', ''--porcelain'']) = Ok dirty))"
proof -
  have prep: "after (prepare_task_branch_for_review env d i t target) v (\<lambda>r v'. prefix (w_acts v) (w_acts v'))"
    for d i t target v using quiet_prefix movesD[OF still.prepare] by (blast intro: afterI)
  show ?thesis
    unfolding merge_repair_def Let_def
    by (auto simp: after_simps split: sum.split intro!: after_mono[OF prep])
       (fastforce dest: append_prefixD)+
qed

lemma clean_ok:
  assumes "merge_clean env j w = (Ok x, w')"
  shows "\<exists>acts s. prefix (w_acts w) acts \<and> prefix acts (w_acts w')
     \<and> git_result (x_run env acts (wt_path (mj_worktree j)) [''git'', ''status'', ''--porcelain'']) = Ok s
     \<and> str_trim s = []"
proof -
  obtain dirty e where "merge_repair env j w = (Ok (dirty, e), w')" "str_trim dirty = []"
  proof -
    obtain r w1 where m: "merge_repair env j w = (r, w1)" by fastforce
    with assms obtain dirty e where r: "r = Ok (dirty, e)" by (cases r) (auto simp: merge_clean_def and_then_def)
    have "str_trim dirty = [] \<and> w1 = w'"
      using assms m r by (auto simp: merge_clean_def and_then_def Let_def give_def fail_def split: if_splits prod.splits sum.splits)
    with m r that show thesis by blast
  qed
  with after_result[OF repair_status] show ?thesis by blast
qed

definition grows :: "world \<Rightarrow> world \<Rightarrow> bool" where
  "grows w w' \<longleftrightarrow> prefix (w_acts w) (w_acts w') \<and> set (w_runs w) \<subseteq> set (w_runs w')"

lemma grows_order: "reflp grows" "transp grows"
  by (auto simp: grows_def reflp_def transp_def intro: prefix_order.trans)

lemma grows_steps [moves_intros]:
  "moves grows (draw f)" "moves grows (log_event l)" "moves grows (on_tasks g)"
  "moves grows (run_program env dir argv)" "moves grows (git_output env dir args)"
  "moves grows (upsert_merge_queue_item env item)" "moves grows (git_ref_exists env dir name)"
  "moves grows (service_cleanup env i wt b)" "moves grows (before_remove_hooks env wt)"
  unfolding git_ref_exists_def on_tasks_def service_cleanup_def before_remove_hooks_def
  by (auto simp: moves_draw moves_log_event moves_change moves_run_program grows_def moves_def
        upsert_merge_queue_item_def draw_def log_event_def change_def run_program_def
        git_output_def and_then_def of_result_def give_def fail_def
        split: sum.splits prod.splits option.splits proc.splits if_splits)

lemma finish_grows: "moves grows (merge_branch env j)" "moves grows (merge_finish env dispatch j)"
proof -
  show "moves grows (merge_branch env j)"
    unfolding merge_branch_def Let_def by (auto intro!: moves_intros grows_order)
  have refresh: "moves grows (\<lambda>w. case refresh_dependency_states_inner sd now p f extra (w_db w) of
             (r, db, x) \<Rightarrow> (r, w\<lparr>w_wf := (w_wf w)\<lparr>wd_db := db\<rparr>\<rparr>))" for sd now p f extra
    by (auto simp: moves_def grows_def split: prod.splits)
  have wf: "moves grows (change (\<lambda>w. case check_workflow_completion now em t (w_wf w) of
             (es, d) \<Rightarrow> w\<lparr>w_wf := d, w_log := w_log w @ map wf_log es\<rparr>))" for now em t
    by (auto simp: moves_def grows_def change_def split: prod.splits)
  have "moves grows (force_delete_branch env pp br e)" for pp br e
    unfolding force_delete_branch_def by (auto intro!: moves_intros grows_order)
  then have "moves grows (remove_branch env pp br e)" for pp br e
    unfolding remove_branch_def Let_def by (auto intro!: moves_intros grows_order)
  then have "moves grows (cleanup_worktree_row env i pp b wt)" for i pp b wt
    unfolding cleanup_worktree_row_def by (auto intro!: moves_intros grows_order)
  then have "moves grows (cleanup_task_worktree_inner env i pp b)" for i pp b
    unfolding cleanup_task_worktree_inner_def Let_def by (auto intro!: moves_intros grows_order)
  then show "moves grows (merge_finish env dispatch j)"
    unfolding merge_finish_def Let_def by (auto intro!: moves_intros grows_order refresh wf)
qed

lemma load_jobD:
  assumes "load_job env pid path target task_id item w = (Ok j, w')"
  shows "w' = w" "find_worktree_by_task task_id (w_db w) = Some (mj_worktree j)" "mj_target j = target"
  using assms
  by (auto simp: load_job_def and_then_def of_result_def read_def or_fail_def give_def fail_def
        split: sum.splits option.splits prod.splits)


definition queued_item :: "string \<Rightarrow> merge_queue_row" where
  "queued_item st = \<lparr>mq_id = ''q'', mq_project_id = ''x'', mq_task_id = ''x'', mq_status = st,
     mq_blocked_reason = None, mq_approved_at = 1, mq_started_at = None, mq_completed_at = None\<rparr>"

definition merge_world :: world where
  "merge_world = (empty_world
     \<lparr>wd_db = empty_db\<lparr>db_projects := [''x''],
        db_tasks := [(sample_row ''x'' 1 ''InProgress'')\<lparr>tk_acceptance_json := [], tk_scope_json := [],
                       tk_dependencies_json := [], tk_constraints_json := []\<rparr>],
        db_worktrees := [\<lparr>wt_id = ''l'', wt_project_id = ''x'', wt_task_id = ''x'', wt_path = ''/p/w/x'',
           wt_branch = ''b'', wt_lease_status = ''Active'', wt_lease_started = 1, wt_last_active = 1\<rparr>]\<rparr>,
      wd_workflows = [], wd_instances = [], wd_wf_tasks = []\<rparr>)
     \<lparr>w_queue := [queued_item ''Queued'']\<rparr>"

text \<open>Programs succeed and print nothing, but nothing can be merged.\<close>

definition no_merge_env :: x_env where
  "no_merge_env = plain_env (\<lambda>_ _ argv. Ended (take 2 argv \<noteq> [''git'', ''merge'']) [] [])"

lemmas run_simps = and_then_def give_def fail_def read_def draw_def change_def of_result_def or_fail_def
  settle_def log_event_def on_tasks_def run_program_def git_output_def git_result_def git_ref_exists_def
  Let_def

lemma replicate_two: "replicate 2 x = [x, x]"
  by (simp add: numeral_2_eq_2)

lemma no_merge_run:
  "w_acts (snd (merge_queue_execute no_merge_env (\<lambda>_ d. d) 1 ''/p'' ''main'' ''x'' merge_world))
     = [Ran ''/p'' [''git'', ''tag'', ''pnevma/checkpoint/xx''],
        Ran ''/p/w/x'' [''git'', ''status'', ''--porcelain''], Ran ''/p/w/x'' [''git'', ''rebase'', ''main''],
        Ran ''/p'' [''git'', ''checkout'', ''main''], Ran ''/p'' [''git'', ''merge'', ''--ff-only'', ''b''],
        Ran ''/p'' [''git'', ''merge'', ''--no-ff'', ''-m'', ''Merge task x'', ''b'']]"
  "\<not> is_ok (fst (merge_queue_execute no_merge_env (\<lambda>_ d. d) 1 ''/p'' ''main'' ''x'' merge_world))"
  by (simp_all add: merge_queue_execute_def start_item_def load_job_def merge_checkpoint_def merge_clean_def
      merge_repair_def merge_rebase_def merge_checks_def merge_branch_def run_simps
      merge_world_def empty_world_def get_merge_queue_item_by_task_def queued_item_def no_merge_env_def
      plain_env_def upsert_merge_queue_item_def plain_serde_def get_task_def empty_db_def sample_row_def
      task_row_to_contract_def row_payload_def find_worktree_by_task_def create_checkpoint_def
      task_ids_def run_acceptance_checks_for_task_def check_dir_def record_checks_def
      create_check_run_def replicate_two)


section \<open>The decision of the review is not looked at\<close>

definition blind :: "'a oper \<Rightarrow> bool" where
  "blind m \<longleftrightarrow> (\<forall>w rs. m (w\<lparr>w_reviews := rs\<rparr>) = apsnd (\<lambda>v. v\<lparr>w_reviews := rs\<rparr>) (m w))"

named_theorems blind_intros

lemma blind_basic [blind_intros]:
  "blind (give x)" "blind (fail e)" "blind (of_result r)" "blind (or_fail e y)" "blind (draw f)"
  "blind (run_program env dir argv)" "blind (log_event l)" "blind (on_tasks g)"
  "blind (remove_path env a)" "blind (upsert_merge_queue_item env item)"
  "blind (create_check_run env cr)" "blind (create_check_result env cs)" "blind (create_checkpoint env cp)"
  "blind (before_remove_hooks env wt)" "blind (service_cleanup env i wt b)"
  by (auto simp: blind_def give_def fail_def of_result_def or_fail_def draw_def run_program_def
        log_event_def on_tasks_def change_def remove_path_def upsert_merge_queue_item_def
        create_check_run_def create_check_result_def create_checkpoint_def before_remove_hooks_def
        service_cleanup_def split: option.split prod.split)

lemma blind_read: "(\<And>w rs. f (w\<lparr>w_reviews := rs\<rparr>) = f w) \<Longrightarrow> blind (read f)"
  by (simp add: blind_def read_def)

lemma blind_change: "(\<And>w rs. f (w\<lparr>w_reviews := rs\<rparr>) = (f w)\<lparr>w_reviews := rs\<rparr>) \<Longrightarrow> blind (change f)"
  by (simp add: blind_def change_def)

lemma blind_and_then [blind_intros]: "blind m \<Longrightarrow> (\<And>x. blind (f x)) \<Longrightarrow> blind (and_then m f)"
  by (auto simp: blind_def and_then_def split: prod.split sum.split)

lemma blind_settle [blind_intros]: "blind m \<Longrightarrow> blind (settle m)"
  by (auto simp: blind_def settle_def split: prod.split)

lemma blind_cases [blind_intros]:
  "\<lbrakk>b \<Longrightarrow> blind m; \<not> b \<Longrightarrow> blind m'\<rbrakk> \<Longrightarrow> blind (if b then m else m')"
  "\<lbrakk>blind m; \<And>y. blind (f y)\<rbrakk> \<Longrightarrow> blind (case x of None \<Rightarrow> m | Some y \<Rightarrow> f y)"
  "\<lbrakk>\<And>e. blind (g e); \<And>y. blind (f y)\<rbrakk> \<Longrightarrow> blind (case s of Inl e \<Rightarrow> g e | Inr y \<Rightarrow> f y)"
  "(\<And>a b. blind (h a b)) \<Longrightarrow> blind (case p of (a, b) \<Rightarrow> h a b)"
  "\<lbrakk>\<And>e. blind (g e); \<And>b o1 e1. blind (k b o1 e1)\<rbrakk>
     \<Longrightarrow> blind (case q of SpawnError e \<Rightarrow> g e | Ended b o1 e1 \<Rightarrow> k b o1 e1)"
  by (simp_all split: option.split sum.split prod.split proc.split)

lemma blind_each [blind_intros]: "(\<And>x. blind (f x)) \<Longrightarrow> blind (each f xs)"
  by (induction xs) (auto intro!: blind_intros)

lemma blind_git [blind_intros]:
  "blind (git_output env dir args)" "blind (git_output_with_config env dir cfg args)"
  "blind (git_ref_exists env dir n)" "blind (git_path_is_tracked env dir p)"
  unfolding git_output_def git_output_with_config_def git_ref_exists_def git_path_is_tracked_def
  by (auto intro!: blind_intros)

lemma blind_prepare [blind_intros]: "blind (prepare_task_branch_for_review env dir i t target)"
proof -
  have meta: "blind (case m of IsDir \<Rightarrow> a | IsOther \<Rightarrow> b | NotFound \<Rightarrow> c | MetaError e \<Rightarrow> d e)"
    if "blind a" "blind b" "blind c" "\<And>e. blind (d e)" for m a b c and d :: "string \<Rightarrow> unit oper"
    using that by (cases m) simp_all
  have "blind (restore_or_remove_git_path env dir p)" for p
    unfolding restore_or_remove_git_path_def Let_def
    by (auto intro!: blind_intros blind_read meta)
  then show ?thesis
    unfolding prepare_task_branch_for_review_def commit_pending_def git_clean_paths_def
      branch_ahead_count_def Let_def
    by (auto intro!: blind_intros)
qed

lemma blind_acceptance [blind_intros]: "blind (run_acceptance_checks_for_task env pid path task)"
proof -
  have "blind (run_check env dir c)" for dir c
    unfolding run_check_def path_exists_now_def Let_def
    by (cases "check_type c") (auto intro!: blind_intros blind_read)
  then have "blind (run_checks env dir run_id p t cs)" for dir run_id p t cs
    by (induction cs) (auto intro!: blind_intros simp: split_beta)
  then show ?thesis
    unfolding run_acceptance_checks_for_task_def record_checks_def Let_def
    by (auto intro!: blind_intros blind_read simp: check_dir_def cong: option.case_cong)
qed

lemma blind_block [blind_intros]: "blind (block_item env j reason)"
  unfolding block_item_def by (auto intro!: blind_intros)

lemma blind_cleanup [blind_intros]: "blind (cleanup_task_worktree_inner env i pp b)"
  unfolding cleanup_task_worktree_inner_def cleanup_worktree_row_def remove_branch_def
    force_delete_branch_def Let_def
  by (auto intro!: blind_intros blind_read)

lemma blind_finish [blind_intros]: "blind (merge_finish env dispatch j)"
proof -
  have "blind (\<lambda>w. case refresh_dependency_states_inner sd now p f extra (w_db w) of
             (r, db, x) \<Rightarrow> (r, w\<lparr>w_wf := (w_wf w)\<lparr>wd_db := db\<rparr>\<rparr>))" for sd now p f extra
    by (auto simp: blind_def split: prod.split)
  moreover have "blind (change (\<lambda>w. case check_workflow_completion now em t (w_wf w) of
             (es, d) \<Rightarrow> w\<lparr>w_wf := d, w_log := w_log w @ map wf_log es\<rparr>))" for now em t
    by (auto intro!: blind_change split: prod.split)
  ultimately show ?thesis
    unfolding merge_finish_def Let_def by (auto intro!: blind_intros)
qed

lemma blind_execute: "blind (merge_queue_execute env dispatch pid path target task_id)"
  unfolding merge_queue_execute_def start_item_def load_job_def merge_checkpoint_def merge_clean_def
    merge_repair_def merge_rebase_def merge_checks_def merge_branch_def Let_def
  by (auto intro!: blind_intros blind_read simp: get_merge_queue_item_by_task_def)


section \<open>What becomes of the queue item\<close>

text \<open>Only rows of task \<open>t\<close> change, to a status in \<open>A\<close>, when its row has the identifier \<open>q\<close>.\<close>

definition row_step :: "string \<Rightarrow> string set \<Rightarrow> merge_queue_row \<Rightarrow> merge_queue_row \<Rightarrow> bool" where
  "row_step t A r r' \<longleftrightarrow> r' = r
     \<or> mq_task_id r = t \<and> mq_task_id r' = t \<and> mq_id r' = mq_id r \<and> mq_status r' \<in> A"

definition owns :: "string \<Rightarrow> string \<Rightarrow> world \<Rightarrow> bool" where
  "owns t q w \<longleftrightarrow> t \<in> mq_task_id ` set (w_queue w)
     \<and> (\<forall>r\<in>set (w_queue w). mq_task_id r = t \<longleftrightarrow> mq_id r = q)"

definition touched :: "string \<Rightarrow> string \<Rightarrow> string set \<Rightarrow> world \<Rightarrow> world \<Rightarrow> bool" where
  "touched t q A w w' \<longleftrightarrow> (owns t q w \<longrightarrow> list_all2 (row_step t A) (w_queue w) (w_queue w'))"

lemma row_step_owns:
  assumes "list_all2 (row_step t A) rs rs'" "\<forall>r\<in>set rs. mq_task_id r = t \<longleftrightarrow> mq_id r = q"
  shows "\<forall>r\<in>set rs'. mq_task_id r = t \<longleftrightarrow> mq_id r = q" "map mq_task_id rs' = map mq_task_id rs"
  using assms by (induction rule: list_all2_induct) (auto simp: row_step_def)

lemma row_step_order: "reflp (row_step t A)" "transp (row_step t A)"
  by (auto simp: row_step_def reflp_def transp_def)

lemma touched_refl: "w_queue w' = w_queue w \<Longrightarrow> touched t q A w w'"
  using row_step_order(1) by (simp add: touched_def list_all2_refl reflpD)

interpretation queue: respects "touched t q A" for t q A
proof
  show "reflp (touched t q A)" by (simp add: reflp_def touched_refl)
  show "transp (touched t q A)"
  proof (rule transpI)
    fix x y z assume a: "touched t q A x y" "touched t q A y z"
    show "touched t q A x z"
      unfolding touched_def
    proof
      assume "owns t q x"
      with a(1) have xy: "list_all2 (row_step t A) (w_queue x) (w_queue y)" by (simp add: touched_def)
      with \<open>owns t q x\<close> have "owns t q y" using row_step_owns[of t A "w_queue x" "w_queue y" q] by (auto simp: owns_def simp flip: set_map)
      with a(2) have "list_all2 (row_step t A) (w_queue y) (w_queue z)" by (simp add: touched_def)
      with xy show "list_all2 (row_step t A) (w_queue x) (w_queue z)"
        using list_all2_trans[of "row_step t A" "row_step t A" "row_step t A"] row_step_order(2)
        by (metis transpE)
    qed
  qed
qed (simp_all add: touched_refl)

lemma owns_keys:
  assumes "owns t q w" "mq_task_id item = t" "mq_id item = q"
  shows "\<not> (\<exists>r\<in>set (w_queue w). mq_id r = mq_id item \<and> mq_task_id r \<noteq> mq_task_id item)"
    "mq_task_id item \<in> mq_task_id ` set (w_queue w)"
  using assms by (auto simp: owns_def)

lemma upsert_touched:
  assumes "mq_task_id item = t" "mq_id item = q" "mq_status item \<in> A"
  shows "moves (touched t q A) (upsert_merge_queue_item env item)"
proof -
  have step: "list_all2 (row_step t A) rs
      (map (\<lambda>r. if mq_task_id r = t then item\<lparr>mq_project_id := mq_project_id r\<rparr> else r) rs)"
    if "\<forall>r\<in>set rs. mq_task_id r = t \<longleftrightarrow> mq_id r = q" for rs
    using that assms by (induction rs) (auto simp: row_step_def)
  show ?thesis
    unfolding moves_def
  proof (intro allI impI)
    fix w r w' assume u: "upsert_merge_queue_item env item w = (r, w')"
    show "touched t q A w w'"
      unfolding touched_def
    proof
      assume o: "owns t q w"
      note n = owns_keys[OF o assms(1,2)]
      have "w_queue w' = map (\<lambda>r. if mq_task_id r = t
          then item\<lparr>mq_project_id := mq_project_id r\<rparr> else r) (w_queue w)"
        using u assms(1) unfolding upsert_merge_queue_item_def if_not_P[OF n(1)] if_P[OF n(2)] by auto
      with step[of "w_queue w"] o show "list_all2 (row_step t A) (w_queue w) (w_queue w')"
        by (simp add: owns_def)
    qed
  qed
qed

definition item_in :: "string \<Rightarrow> string set \<Rightarrow> world \<Rightarrow> bool" where
  "item_in t A w \<longleftrightarrow> (\<forall>r\<in>set (w_queue w). mq_task_id r = t \<longrightarrow> mq_status r \<in> A)"

lemma touched_owns: "touched t q A w w' \<Longrightarrow> owns t q w \<Longrightarrow> owns t q w'"
  using row_step_owns[of t A "w_queue w" "w_queue w'" q]
  by (auto simp: touched_def owns_def simp flip: set_map)

lemma touched_item:
  assumes "touched t q A w w'" "owns t q w" "item_in t A w"
  shows "item_in t A w'"
proof -
  have "list_all2 (row_step t A) (w_queue w) (w_queue w')" using assms(1,2) by (simp add: touched_def)
  then show ?thesis using assms(3) unfolding item_in_def
    by (induction rule: list_all2_induct) (auto simp: row_step_def)
qed

lemma touched_mono: "touched t q A w w' \<Longrightarrow> A \<subseteq> B \<Longrightarrow> touched t q B w w'"
  unfolding touched_def by (auto elim!: list_all2_mono simp: row_step_def)

lemma start_touched:
  assumes "start_item env t w = (Ok item, w1)" "owns t q w"
  shows "mq_task_id item = t" "mq_id item = q" "touched t q {''Running''} w w1" "item_in t {''Running''} w1"
proof -
  obtain row where row: "get_merge_queue_item_by_task t w = Some row"
    using assms(1) by (cases "get_merge_queue_item_by_task t w") (auto simp: start_item_def run_simps)
  then have r: "row \<in> set (w_queue w)" "mq_task_id row = t"
    by (auto simp: get_merge_queue_item_by_task_def find_Some_iff)
  with assms(2) have q: "mq_id row = q" by (auto simp: owns_def)
  define new where "new = row\<lparr>mq_status := ''Running'', mq_started_at := Some (x_now env (w_seq w)),
      mq_blocked_reason := None\<rparr>"
  obtain r1 v where u: "upsert_merge_queue_item env new (w\<lparr>w_seq := Suc (w_seq w)\<rparr>) = (r1, v)" by fastforce
  with assms(1) row have e: "item = new" "w1 = v\<lparr>w_log := w_log v @ [Emitted ''merge_queue_updated'' ''Running'']\<rparr>"
    "is_ok r1" by (auto simp: start_item_def run_simps new_def[symmetric] split: sum.splits)
  show i: "mq_task_id item = t" "mq_id item = q" using e(1) r q by (simp_all add: new_def)
  have "moves (touched t q {''Running''}) (upsert_merge_queue_item env new)"
    by (rule upsert_touched) (simp_all add: new_def r q)
  from movesD[OF this u] show "touched t q {''Running''} w w1"
    using e(2) by (simp add: touched_def owns_def)
  note n = owns_keys[OF assms(2), of new]
  from r q have n0: "mq_task_id new = t" "mq_id new = q" by (simp_all add: new_def)
  have "w_queue v = map (\<lambda>r. if mq_task_id r = mq_task_id new
          then new\<lparr>mq_project_id := mq_project_id r\<rparr> else r) (w_queue w)"
    using u n[OF n0] unfolding upsert_merge_queue_item_def by auto
  then show "item_in t {''Running''} w1" using e(2) r by (auto simp: item_in_def new_def)
qed

abbreviation same_queue :: "world \<Rightarrow> world \<Rightarrow> bool" where
  "same_queue w w' \<equiv> w_queue w' = w_queue w"

lemma same_queue_order: "reflp same_queue" "transp same_queue"
  by (auto intro: reflpI transpI)

lemma same_queue_steps [moves_intros]:
  "moves same_queue (draw f)" "moves same_queue (log_event l)" "moves same_queue (on_tasks g)"
  "moves same_queue (git_output env dir args)" "moves same_queue (git_ref_exists env dir name)"
  "moves same_queue (service_cleanup env i wt b)" "moves same_queue (before_remove_hooks env wt)"
  "moves same_queue (run_program env dir argv)"
  unfolding git_ref_exists_def on_tasks_def service_cleanup_def before_remove_hooks_def
  by (auto simp: moves_def draw_def log_event_def change_def run_program_def
        git_output_def and_then_def of_result_def give_def fail_def
        split: sum.splits prod.splits option.splits proc.splits if_splits)

lemma cleanup_same_queue: "moves same_queue (cleanup_task_worktree_inner env i pp b)"
proof -
  have "moves same_queue (force_delete_branch env pp br e)" for pp br e
    unfolding force_delete_branch_def by (auto intro!: moves_intros same_queue_order)
  then have "moves same_queue (remove_branch env pp br e)" for pp br e
    unfolding remove_branch_def Let_def by (auto intro!: moves_intros same_queue_order)
  then have "moves same_queue (cleanup_worktree_row env i pp b wt)" for i pp b wt
    unfolding cleanup_worktree_row_def by (auto intro!: moves_intros same_queue_order)
  then show ?thesis
    unfolding cleanup_task_worktree_inner_def Let_def by (auto intro!: moves_intros same_queue_order)
qed

lemma after_same_queue:
  assumes "moves same_queue m" "w_queue w = rows"
    and "\<And>x v. w_queue v = rows \<Longrightarrow> after (f x) v Q" "\<And>e v. w_queue v = rows \<Longrightarrow> Q (Err e) v"
  shows "after (and_then m f) w Q"
  unfolding after_and_then
  by (rule afterI) (use assms movesD[OF assms(1)] in \<open>auto split: sum.split\<close>)

lemma after_ifI:
  "(b \<Longrightarrow> after m w Q) \<Longrightarrow> (\<not> b \<Longrightarrow> after m' w Q) \<Longrightarrow> after (if b then m else m') w Q"
  by simp

lemma finish_queue:
  assumes "owns t q w" "mq_task_id (mj_item j) = t" "mq_id (mj_item j) = q"
  shows "after (merge_finish env dispatch j) w (\<lambda>r w'.
     if is_ok r then item_in t {''Merged''} w' \<and> touched t q {''Merged''} w w' else w_queue w' = w_queue w)"
proof -
  have refresh: "moves same_queue (\<lambda>w. case refresh_dependency_states_inner sd now p f extra (w_db w) of
             (r, db, x) \<Rightarrow> (r, w\<lparr>w_wf := (w_wf w)\<lparr>wd_db := db\<rparr>\<rparr>))" for sd now p f extra
    by (auto simp: moves_def split: prod.splits)
  have wf: "moves same_queue (change (\<lambda>w. case check_workflow_completion now em t (w_wf w) of
             (es, d) \<Rightarrow> w\<lparr>w_wf := d, w_log := w_log w @ map wf_log es\<rparr>))" for now em t
    by (auto simp: moves_def change_def split: prod.splits)
  have last_step: "after (and_then (upsert_merge_queue_item env item) (\<lambda>_.
      and_then (log_event a) (\<lambda>_. and_then (log_event b) (\<lambda>_. and_then (log_event c) (\<lambda>_. log_event d))))) v
      (\<lambda>r w'. if is_ok r then item_in t {''Merged''} w' \<and> touched t q {''Merged''} w w' else w_queue w' = w_queue w)"
    if v: "w_queue v = w_queue w" and item: "mq_task_id item = t" "mq_id item = q" "mq_status item = ''Merged''"
    for v item a b c d
  proof -
    have "owns t q v" using assms(1) v by (simp add: owns_def)
    note n = owns_keys[OF this item(1,2)]
    let ?rows = "map (\<lambda>r. if mq_task_id r = mq_task_id item
          then item\<lparr>mq_project_id := mq_project_id r\<rparr> else r) (w_queue v)"
    have u: "upsert_merge_queue_item env item v = (Ok (), v\<lparr>w_queue := ?rows\<rparr>)"
      unfolding upsert_merge_queue_item_def if_not_P[OF n(1)] if_P[OF n(2)] ..
    have "moves (touched t q {''Merged''}) (upsert_merge_queue_item env item)"
      by (rule upsert_touched) (simp_all add: item)
    from movesD[OF this u] v have "touched t q {''Merged''} w (w\<lparr>w_queue := ?rows\<rparr>)"
      by (simp add: touched_def owns_def)
    then show ?thesis unfolding after_and_then after_log_event
      by (auto simp: after_def u item_in_def item touched_def)
  qed
  show ?thesis
    unfolding merge_finish_def Let_def
    by (rule after_same_queue[where rows = "w_queue w"] after_ifI moves_intros cleanup_same_queue
          refresh wf last_step | assumption | simp add: assms after_fail)+
qed

lemma start_succeeds:
  assumes "owns t q w"
  shows "\<exists>item w1. start_item env t w = (Ok item, w1)"
proof -
  obtain row where row: "get_merge_queue_item_by_task t w = Some row"
    using assms by (cases "get_merge_queue_item_by_task t w")
      (auto simp: owns_def get_merge_queue_item_by_task_def find_None_iff)
  then have r: "row \<in> set (w_queue w)" "mq_task_id row = t"
    by (auto simp: get_merge_queue_item_by_task_def find_Some_iff)
  define new where "new = row\<lparr>mq_status := ''Running'', mq_started_at := Some (x_now env (w_seq w)),
      mq_blocked_reason := None\<rparr>"
  have "mq_task_id new = t" "mq_id new = q" using r assms by (simp_all add: new_def owns_def)
  note n = owns_keys[OF assms this]
  obtain r1 v where u: "upsert_merge_queue_item env new (w\<lparr>w_seq := Suc (w_seq w)\<rparr>) = (r1, v)" by fastforce
  have "is_ok r1" using u n by (auto simp: upsert_merge_queue_item_def)
  then obtain x where "r1 = Ok x" by (rule is_okE)
  with u row show ?thesis by (simp add: start_item_def run_simps new_def[symmetric])
qed

lemma after_touched:
  assumes "moves (touched t q A) m" "touched t q A w0 w"
    and "\<And>x v. m w = (Ok x, v) \<Longrightarrow> touched t q A w0 v \<Longrightarrow> after (f x) v Q"
    and "\<And>e v. touched t q A w0 v \<Longrightarrow> Q (Err e) v"
  shows "after (and_then m f) w Q"
  unfolding after_and_then
proof (rule afterI)
  fix r v assume m: "m w = (r, v)"
  have "touched t q A w0 v" using queue.trans movesD[OF assms(1) m] assms(2) by (blast dest: transpD)
  with m assms(3,4) show "case r of Inl e \<Rightarrow> Q (Err e) v | Inr x \<Rightarrow> after (f x) v Q"
    by (auto split: sum.split)
qed

lemma block_touched:
  assumes "mq_task_id (mj_item j) = t" "mq_id (mj_item j) = q" "''Blocked'' \<in> A"
  shows "moves (touched t q A) (block_item env j reason)"
  unfolding block_item_def using assms
  by (auto intro!: moves_intros queue.refl queue.trans queue.draws upsert_touched)

lemma branch_touched: "moves (touched t q A) (merge_branch env j)"
proof -
  have "moves same_queue (merge_branch env j)"
    unfolding merge_branch_def Let_def by (auto intro!: moves_intros same_queue_order)
  then show ?thesis by (simp add: moves_def touched_refl)
qed

lemma load_job_item: "load_job env pid path target t item w = (Ok j, v) \<Longrightarrow> mj_item j = item"
  by (auto simp: load_job_def run_simps split: sum.splits option.splits prod.splits)

text \<open>
  What becomes of the item of the merge queue. When the execution succeeds the item is
  merged. When it fails, for whatever reason, the item is running or blocked, so nothing
  returns it to the queue; the items of other tasks stay as they are.
\<close>

theorem merge_item_outcome:
  assumes "merge_queue_execute env dispatch pid path target task_id w = (r, w')"
    and "owns task_id q w"
  shows "(\<forall>row\<in>set (w_queue w'). mq_task_id row = task_id \<longrightarrow>
            mq_status row \<in> (if is_ok r then {''Merged''} else {''Running'', ''Blocked''}))
         \<and> list_all2 (row_step task_id {''Running'', ''Blocked'', ''Merged''}) (w_queue w) (w_queue w')"
proof -
  let ?A = "{''Running'', ''Blocked''}" and ?B = "{''Running'', ''Blocked'', ''Merged''}"
  obtain item w1 where s: "start_item env task_id w = (Ok item, w1)"
    using start_succeeds[OF assms(2)] by blast
  note st = start_touched[OF s assms(2)]
  have o1: "owns task_id q w1" using touched_owns[OF st(3) assms(2)] .
  have i1: "item_in task_id ?A w1" using st(4) by (auto simp: item_in_def)
  let ?Q = "\<lambda>r w'. item_in task_id (if is_ok r then {''Merged''} else ?A) w' \<and> touched task_id q ?B w1 w'"
  have bad: "?Q (Err e) v" if "touched task_id q ?A w1 v" for e :: string and v
    using touched_item[OF that o1 i1] touched_mono[OF that, of ?B] by auto
  have finish: "after (merge_finish env dispatch j) v ?Q"
    if "touched task_id q ?A w1 v" "mj_item j = item" for v j
  proof (rule after_mono[OF finish_queue[of task_id q v j]])
    show "owns task_id q v" using touched_owns[OF that(1) o1] .
    show "mq_task_id (mj_item j) = task_id" "mq_id (mj_item j) = q" using that(2) st(1,2) by simp_all
    fix r v' assume f: "if is_ok r then item_in task_id {''Merged''} v' \<and> touched task_id q {''Merged''} v v'
      else w_queue v' = w_queue v"
    show "?Q r v'"
    proof (cases "is_ok r")
      case True
      with f have "touched task_id q ?B v v'" by (auto intro: touched_mono)
      moreover have "touched task_id q ?B w1 v" using that(1) by (auto intro: touched_mono)
      ultimately show ?thesis using f True queue.trans by (auto dest: transpD)
    next
      case False
      with f have "touched task_id q ?A w1 v'" using that(1) by (simp add: touched_def)
      with bad[of v'] False show ?thesis by simp
    qed
  qed
  have A: "after (and_then (load_job env pid path target task_id item) (\<lambda>j.
         and_then (merge_checkpoint env j) (\<lambda>_. and_then (merge_clean env j) (\<lambda>_.
         and_then (merge_rebase env j) (\<lambda>_. and_then (merge_checks env j) (\<lambda>_.
         and_then (merge_branch env j) (\<lambda>_. merge_finish env dispatch j))))))) w1 ?Q"
  proof (rule after_touched[where t = task_id and q = q and A = ?A and ?w0.0 = w1], goal_cases)
    case (3 j v)
    from load_job_item[OF 3(1)] have j: "mj_item j = item" .
    then have "moves (touched task_id q ?A) (block_item env j reason)" for reason
      by (intro block_touched) (simp_all add: st)
    note stages = queue.checkpoint queue.blocking[OF this] branch_touched
    show ?case
      by (rule after_touched[where A = ?A and ?w0.0 = w1] stages 3(2) bad finish j | assumption)+
  qed (use queue.load touched_refl bad in blast)+
  have B: "merge_queue_execute env dispatch pid path target task_id w
      = and_then (load_job env pid path target task_id item) (\<lambda>j.
         and_then (merge_checkpoint env j) (\<lambda>_. and_then (merge_clean env j) (\<lambda>_.
         and_then (merge_rebase env j) (\<lambda>_. and_then (merge_checks env j) (\<lambda>_.
         and_then (merge_branch env j) (\<lambda>_. merge_finish env dispatch j)))))) w1"
    unfolding merge_queue_execute_def by (subst and_then_def) (simp add: s)
  have Q: "?Q r w'" using after_result[OF A] assms(1) unfolding B by blast
  have "touched task_id q ?B w w1" using st(3) by (rule touched_mono) simp
  with Q have "touched task_id q ?B w w'" using queue.trans by (blast dest: transpD)
  with Q assms(2) show ?thesis by (simp add: item_in_def touched_def)
qed

lemma merge_item_outcome_witness:
  "\<forall>row\<in>set (w_queue (snd (merge_queue_execute no_merge_env (\<lambda>_ d. d) 1 ''/p'' ''main'' ''x'' merge_world))).
     mq_task_id row = ''x'' \<longrightarrow> mq_status row \<in> {''Running'', ''Blocked''}"
proof -
  have "owns ''x'' ''q'' merge_world" by (simp add: owns_def merge_world_def queued_item_def)
  note out = merge_item_outcome[where env = no_merge_env and dispatch = "\<lambda>_ d. d" and pid = 1
      and path = "''/p''" and target = "''main''" and task_id = "''x''" and w = merge_world,
      OF prod.collapse[symmetric] this]
  show ?thesis using conjunct1[OF out] no_merge_run(2) by simp
qed

end
