(* ===== verification/Error_Signatures.thy ===== *)
theory Error_Signatures
  imports Codec Task
begin

text \<open>
  Signatures of errors: \<open>pnevma-core/src/error_signatures.rs\<close>, their tables in
  \<open>pnevma-db/src/store/admin.rs\<close> and the ingestion at the end of a failed run in
  \<open>pnevma-commands/src/automation/runner.rs\<close>. The regular expressions of the normalisation
  and SHA-256 are parameters.
\<close>

section \<open>Categories\<close>

datatype error_category =
  TimeoutErr | RateLimit | Permission | Conflict | NotFoundErr | Connection | MemoryErr | UnknownErr

definition category_str :: "error_category \<Rightarrow> string" where
  "category_str c = (case c of
      TimeoutErr \<Rightarrow> ''timeout'' | RateLimit \<Rightarrow> ''rate_limit'' | Permission \<Rightarrow> ''permission''
    | Conflict \<Rightarrow> ''conflict'' | NotFoundErr \<Rightarrow> ''not_found'' | Connection \<Rightarrow> ''connection''
    | MemoryErr \<Rightarrow> ''memory'' | UnknownErr \<Rightarrow> ''unknown'')"

definition from_str_legacy :: "string \<Rightarrow> error_category" where
  "from_str_legacy s =
     (if s = ''timeout'' then TimeoutErr else if s = ''rate_limit'' then RateLimit
      else if s = ''permission'' then Permission else if s = ''conflict'' then Conflict
      else if s = ''not_found'' then NotFoundErr else if s = ''connection'' then Connection
      else if s = ''memory'' then MemoryErr else UnknownErr)"

interpretation category_codec: enum_codec category_str "\<lambda>s. Ok (from_str_legacy s)"
  by standard (simp add: category_str_def from_str_legacy_def split: error_category.split)

definition categorize_error :: "string \<Rightarrow> error_category" where
  "categorize_error normalized =
     (let lower = to_ascii_lowercase normalized in
      if str_contains lower ''timeout'' \<or> str_contains lower ''timed out'' then TimeoutErr
      else if str_contains lower ''429'' \<or> str_contains lower ''rate limit'' then RateLimit
      else if str_contains lower ''eacces'' \<or> str_contains lower ''permission denied'' then Permission
      else if str_contains lower ''conflict'' \<or> str_contains lower ''merge conflict'' then Conflict
      else if str_contains lower ''not found'' \<or> str_contains lower ''404'' then NotFoundErr
      else if str_contains lower ''connection'' \<or> str_contains lower ''econnrefused'' then Connection
      else if str_contains lower ''oom'' \<or> str_contains lower ''out of memory'' then MemoryErr
      else UnknownErr)"

definition remediation_hint :: "error_category \<Rightarrow> string option" where
  "remediation_hint c = (case c of
      TimeoutErr \<Rightarrow> Some ''Consider increasing timeout or breaking the task into smaller chunks''
    | RateLimit \<Rightarrow> Some ''Wait before retrying. Consider using a different model or reducing concurrency''
    | Permission \<Rightarrow> Some ''Check file permissions and ensure the agent has access to the required paths''
    | Conflict \<Rightarrow> Some ''Resolve merge conflicts manually or re-dispatch with conflict context''
    | NotFoundErr \<Rightarrow> Some ''Verify file paths and resource URLs are correct''
    | Connection \<Rightarrow> Some ''Check network connectivity and service availability''
    | MemoryErr \<Rightarrow> Some ''Reduce task scope or increase available memory''
    | UnknownErr \<Rightarrow> None)"

text \<open>The keywords are not words: any text with the letters \<open>oom\<close> counts as a memory error.\<close>

lemma zoom_is_memory: "categorize_error ''cannot join the Zoom room'' = MemoryErr"
  by code_simp

section \<open>Normalisation\<close>

datatype sig_pattern = TimestampRe | UuidRe | FilepathRe | HexAddrRe | PidRe | WhitespaceRe

record sig_env =
  se_is_match :: "sig_pattern \<Rightarrow> string \<Rightarrow> bool"
  se_replace_all :: "sig_pattern \<Rightarrow> string \<Rightarrow> string \<Rightarrow> string"
  se_sha256 :: "string \<Rightarrow> nat list"

definition cow_replace_all :: "sig_env \<Rightarrow> sig_pattern \<Rightarrow> string \<Rightarrow> string \<Rightarrow> string" where
  "cow_replace_all env re rep input =
     (if \<not> se_is_match env re input then input else se_replace_all env re rep input)"

definition normalize_error :: "sig_env \<Rightarrow> string \<Rightarrow> string" where
  "normalize_error env raw =
     (let s = cow_replace_all env TimestampRe ''<TIMESTAMP>'' raw;
          s = cow_replace_all env UuidRe ''<UUID>'' s;
          s = cow_replace_all env FilepathRe ''<PATH>'' s;
          s = cow_replace_all env HexAddrRe ''<ADDR>'' s;
          s = cow_replace_all env PidRe ''<NUM>'' s;
          s = cow_replace_all env WhitespaceRe '' '' s
      in str_trim s)"

definition hex_digit :: "nat \<Rightarrow> char" where
  "hex_digit n = char_of (if n < 10 then 48 + n else 87 + n)"

definition signature_hash :: "sig_env \<Rightarrow> string \<Rightarrow> string" where
  "signature_hash env normalized =
     concat (map (\<lambda>b. [hex_digit (b div 16), hex_digit (b mod 16)]) (take 8 (se_sha256 env normalized)))"

lemma signature_hash_length:
  "8 \<le> length (se_sha256 env s) \<Longrightarrow> length (signature_hash env s) = 16"
  by (simp add: signature_hash_def length_concat o_def sum_list_triv)

section \<open>Tables\<close>

record error_signature_row =
  es_sig_id :: string
  es_sig_project_id :: string
  es_signature_hash :: string
  es_canonical_message :: string
  es_category :: string
  es_first_seen :: time
  es_last_seen :: time
  es_total_count :: int
  es_sample_output :: "string option"
  es_remediation_hint :: "string option"

record error_daily_row =
  ed_id :: string
  ed_signature_id :: string
  ed_date :: string
  ed_count :: int

record sig_db =
  sd_signatures :: "error_signature_row list"
  sd_daily :: "error_daily_row list"

definition sig_key :: "error_signature_row \<Rightarrow> string \<times> string" where
  "sig_key r = (es_sig_project_id r, es_signature_hash r)"

definition upsert_error_signature :: "error_signature_row \<Rightarrow> sig_db \<Rightarrow> bool \<times> sig_db" where
  "upsert_error_signature row d =
     (if \<exists>r\<in>set (sd_signatures d). es_sig_id r = es_sig_id row \<and> sig_key r \<noteq> sig_key row
      then (False, d)
      else if sig_key row \<in> sig_key ` set (sd_signatures d)
      then (True, d\<lparr>sd_signatures := map (\<lambda>r. if sig_key r = sig_key row
               then r\<lparr>es_last_seen := es_last_seen row, es_total_count := es_total_count r + 1,
                      es_sample_output := es_sample_output row\<rparr> else r) (sd_signatures d)\<rparr>)
      else (True, d\<lparr>sd_signatures := sd_signatures d @ [row]\<rparr>))"

definition increment_error_signature_daily ::
  "string \<Rightarrow> string \<Rightarrow> string \<Rightarrow> sig_db \<Rightarrow> bool \<times> sig_db" where
  "increment_error_signature_daily fresh signature_id date d =
     (if \<exists>r\<in>set (sd_daily d). ed_id r = fresh \<and> (ed_signature_id r, ed_date r) \<noteq> (signature_id, date)
      then (False, d)
      else if (signature_id, date) \<in> (\<lambda>r. (ed_signature_id r, ed_date r)) ` set (sd_daily d)
      then (True, d\<lparr>sd_daily := map (\<lambda>r. if ed_signature_id r = signature_id \<and> ed_date r = date
               then r\<lparr>ed_count := ed_count r + 1\<rparr> else r) (sd_daily d)\<rparr>)
      else if signature_id \<notin> es_sig_id ` set (sd_signatures d) then (False, d)
      else (True, d\<lparr>sd_daily := sd_daily d @ [\<lparr>ed_id = fresh, ed_signature_id = signature_id,
                                                ed_date = date, ed_count = 1\<rparr>]\<rparr>))"

definition list_error_signatures :: "string \<Rightarrow> nat \<Rightarrow> sig_db \<Rightarrow> error_signature_row list" where
  "list_error_signatures project_id limit d =
     take limit (sort_key (\<lambda>r. - es_total_count r)
       (filter (\<lambda>r. es_sig_project_id r = project_id) (sd_signatures d)))"

definition get_error_signature :: "string \<Rightarrow> sig_db \<Rightarrow> error_signature_row option" where
  "get_error_signature i d = find (\<lambda>r. es_sig_id r = i) (sd_signatures d)"

section \<open>Ingestion\<close>

text \<open>Errors of both statements are ignored. \<open>sig_id\<close> and \<open>fresh\<close> are new identifiers and
  \<open>date\<close> is the date of \<open>now\<close>.\<close>

definition ingest_error ::
  "sig_env \<Rightarrow> string \<Rightarrow> string \<Rightarrow> time \<Rightarrow> string \<Rightarrow> string \<Rightarrow> string \<Rightarrow> sig_db \<Rightarrow> sig_db" where
  "ingest_error env sig_id fresh now date project_id summary d =
     (let normalized = normalize_error env summary;
          category = categorize_error normalized;
          row = \<lparr>es_sig_id = sig_id, es_sig_project_id = project_id,
                 es_signature_hash = signature_hash env normalized,
                 es_canonical_message = normalized, es_category = category_str category,
                 es_first_seen = now, es_last_seen = now, es_total_count = 1,
                 es_sample_output = Some summary, es_remediation_hint = remediation_hint category\<rparr>;
          d = snd (upsert_error_signature row d)
      in snd (increment_error_signature_daily fresh sig_id date d))"

text \<open>
  A repeated error is not counted in the daily trend. When the project has the signature
  already, the ingestion raises its total by one, but the daily counter is asked for under
  the new identifier, which no row has, and stays as it is. \<open>sig_id\<close> must be new and the
  daily rows must refer to signatures.
\<close>

theorem repeated_error_not_in_trend:
  assumes "(project_id, signature_hash env (normalize_error env summary)) \<in> sig_key ` set (sd_signatures d)"
    and "sig_id \<notin> es_sig_id ` set (sd_signatures d)"
    and "ed_signature_id ` set (sd_daily d) \<subseteq> es_sig_id ` set (sd_signatures d)"
  shows "sd_daily (ingest_error env sig_id fresh now date project_id summary d) = sd_daily d
     \<and> map es_total_count (sd_signatures (ingest_error env sig_id fresh now date project_id summary d))
       = map (\<lambda>r. es_total_count r
                + (if sig_key r = (project_id, signature_hash env (normalize_error env summary)) then 1 else 0))
           (sd_signatures d)"
proof -
  let ?k = "(project_id, signature_hash env (normalize_error env summary))"
  define row where "row = \<lparr>es_sig_id = sig_id, es_sig_project_id = project_id,
                 es_signature_hash = signature_hash env (normalize_error env summary),
                 es_canonical_message = normalize_error env summary,
                 es_category = category_str (categorize_error (normalize_error env summary)),
                 es_first_seen = now, es_last_seen = now, es_total_count = 1,
                 es_sample_output = Some summary,
                 es_remediation_hint = remediation_hint (categorize_error (normalize_error env summary))\<rparr>"
  let ?f = "\<lambda>r. if sig_key r = ?k then r\<lparr>es_last_seen := now, es_total_count := es_total_count r + 1,
                      es_sample_output := Some summary\<rparr> else r"
  let ?d = "d\<lparr>sd_signatures := map ?f (sd_signatures d)\<rparr>"
  have up: "upsert_error_signature row d = (True, ?d)"
    using assms(1,2) by (auto simp: upsert_error_signature_def row_def sig_key_def)
  have ids: "es_sig_id ` set (map ?f (sd_signatures d)) = es_sig_id ` set (sd_signatures d)"
    unfolding set_map image_image by (intro image_cong refl) simp
  have "(sig_id, date) \<notin> (\<lambda>r. (ed_signature_id r, ed_date r)) ` set (sd_daily d)"
    using assms(2,3) by auto
  with assms(2) ids have "snd (increment_error_signature_daily fresh sig_id date ?d) = ?d"
    by (simp add: increment_error_signature_daily_def)
  then have "ingest_error env sig_id fresh now date project_id summary d = ?d"
    by (simp add: ingest_error_def Let_def up flip: row_def)
  then show ?thesis by simp
qed

definition plain_sig_env :: sig_env where
  "plain_sig_env = \<lparr>se_is_match = (\<lambda>_ _. False), se_replace_all = (\<lambda>_ _ s. s), se_sha256 = (\<lambda>_. [1])\<rparr>"

definition one_error :: sig_db where
  "one_error = ingest_error plain_sig_env ''s1'' ''d1'' 1 ''2024-01-01'' ''p'' ''boom''
     \<lparr>sd_signatures = [], sd_daily = []\<rparr>"

lemma repeated_error_not_in_trend_witness:
  "map ed_count (sd_daily one_error) = [1]
   \<and> sd_daily (ingest_error plain_sig_env ''s2'' ''d2'' 2 ''2024-01-01'' ''p'' ''boom'' one_error)
     = sd_daily one_error"
proof -
  have "char_of (48::nat) = CHR ''0''" "char_of (49::nat) = CHR ''1''" by code_simp+
  then have h: "signature_hash plain_sig_env m = ''01''" for m
    by (simp add: signature_hash_def plain_sig_env_def hex_digit_def)
  have s: "map es_sig_id (sd_signatures one_error) = [''s1'']" "map sig_key (sd_signatures one_error) = [(''p'', ''01'')]"
    "map ed_signature_id (sd_daily one_error) = [''s1'']" "map ed_count (sd_daily one_error) = [1]"
    by (simp_all add: one_error_def ingest_error_def Let_def upsert_error_signature_def
          increment_error_signature_daily_def sig_key_def h)
  have "es_sig_id ` set (sd_signatures one_error) = {''s1''}"
    "sig_key ` set (sd_signatures one_error) = {(''p'', ''01'')}"
    "ed_signature_id ` set (sd_daily one_error) = {''s1''}" by (simp_all add: s flip: set_map)
  then show ?thesis
    using repeated_error_not_in_trend[of "''p''" plain_sig_env "''boom''" one_error "''s2''" "''d2''" 2 "''2024-01-01''"]
    by (simp add: h s(4))
qed

end
