(* ===== verification/Agent_Env.thy ===== *)
theory Agent_Env
  imports Prelude
begin

text \<open>
  The environment of agent processes: \<open>pnevma-agents/src/env.rs\<close>. The variables of the
  runtime itself are the argument \<open>var\<close>, which has no value for a variable that is unset or
  not UTF-8. Log lines are left out.
\<close>

section \<open>Names\<close>

definition BASE_ENV_VARS :: "string list" where
  "BASE_ENV_VARS = [''PATH'', ''HOME'', ''SHELL'', ''TERM'', ''USER'', ''LANG'', ''LC_ALL'', ''TMPDIR'']"

definition BLOCKED_PREFIXES :: "string list" where
  "BLOCKED_PREFIXES = [''DYLD_'', ''LD_'']"

definition BLOCKED_EXACT_NAMES :: "string list" where
  "BLOCKED_EXACT_NAMES =
     [''APPLE_SIGNING_IDENTITY'', ''APPLE_NOTARY_PROFILE'', ''APP_STORE_CONNECT_API_KEY'',
      ''APP_STORE_CONNECT_API_KEY_ID'', ''APP_STORE_CONNECT_ISSUER_ID'', ''AC_PASSWORD'',
      ''AC_USERNAME'', ''NOTARYTOOL_KEY'', ''NOTARYTOOL_KEY_ID'', ''NOTARYTOOL_ISSUER'',
      ''GITHUB_TOKEN'', ''GH_TOKEN'', ''ANTHROPIC_API_KEY'', ''OPENAI_API_KEY'', ''BASH_ENV'', ''ENV'',
      ''CDPATH'', ''PERL5OPT'', ''PERL5LIB'', ''PYTHONSTARTUP'', ''PYTHONPATH'', ''RUBYOPT'',
      ''NODE_OPTIONS'', ''NODE_EXTRA_CA_CERTS'', ''GITLAB_TOKEN'', ''GITLAB_ACCESS_TOKEN'',
      ''STRIPE_API_KEY'', ''STRIPE_SECRET_KEY'', ''AWS_SECRET_ACCESS_KEY'', ''AWS_SESSION_TOKEN'']"

definition ALLOWED_EXTRA_ENV_NAMES :: "string list" where
  "ALLOWED_EXTRA_ENV_NAMES =
     [''PNEVMA_LOG_LEVEL'', ''PNEVMA_DEBUG'', ''PNEVMA_AGENT_TEAM_ID'',
      ''PNEVMA_AGENT_TEAM_CONTROL_SOCKET'', ''PNEVMA_AGENT_TEAM_PROVIDER'', ''NODE_ENV'', ''RUST_LOG'',
      ''RUST_BACKTRACE'', ''FORCE_COLOR'', ''NO_COLOR'', ''CI'', ''DATABASE_URL'', ''REDIS_URL'',
      ''API_ENDPOINT'', ''API_BASE_URL'', ''SUPABASE_URL'', ''NEXT_PUBLIC_SUPABASE_URL'',
      ''CLAUDE_CODE_EXPERIMENTAL_AGENT_TEAMS'', ''TMUX'', ''TMUX_PANE'']"

definition ALLOWED_EXTRA_ENV_PREFIXES :: "string list" where
  "ALLOWED_EXTRA_ENV_PREFIXES = [''TEST_'', ''STAGING_'', ''NEXT_PUBLIC_'', ''VITE_'']"

definition MAX_AGENT_ENV_NAME_BYTES :: nat where
  "MAX_AGENT_ENV_NAME_BYTES = 128"

definition MAX_AGENT_ENV_VALUE_BYTES :: nat where
  "MAX_AGENT_ENV_VALUE_BYTES = 16 * 1024"

definition default_base_env_value :: "string \<Rightarrow> string option" where
  "default_base_env_value name =
     (if name = ''PATH'' then Some ''/usr/bin:/bin:/usr/sbin:/sbin''
      else if name = ''SHELL'' then Some ''/bin/zsh''
      else if name = ''TERM'' then Some ''xterm-256color''
      else if name \<in> {''LANG'', ''LC_ALL''} then Some ''en_US.UTF-8''
      else None)"

definition ascii_upper_char :: "char \<Rightarrow> char" where
  "ascii_upper_char c =
     (let n = of_char c :: nat in if 97 \<le> n \<and> n \<le> 122 then char_of (n - 32) else c)"

definition to_ascii_uppercase :: "string \<Rightarrow> string" where
  "to_ascii_uppercase = map ascii_upper_char"

definition normalize_env_name :: "string \<Rightarrow> string" where
  "normalize_env_name name = to_ascii_uppercase name"

definition is_reserved_agent_env_name :: "string \<Rightarrow> bool" where
  "is_reserved_agent_env_name name = list_ex ((=) (normalize_env_name name)) BASE_ENV_VARS"

definition sensitive_suffixes :: "string list" where
  "sensitive_suffixes = [''_PASSWORD'', ''_SECRET'', ''_TOKEN'', ''_API_KEY'', ''_KEY'', ''_CREDENTIAL'']"

definition is_blocked_agent_env_name :: "string \<Rightarrow> bool" where
  "is_blocked_agent_env_name name =
     (let normalized = normalize_env_name name in
      if list_ex ((=) normalized) BLOCKED_EXACT_NAMES then True
      else if list_ex (starts_with normalized) BLOCKED_PREFIXES then True
      else starts_with normalized ''PNEVMA_'' \<and> list_ex (ends_with normalized) sensitive_suffixes)"

definition is_allowed_extra_env_name :: "string \<Rightarrow> bool" where
  "is_allowed_extra_env_name name =
     (let normalized = normalize_env_name name in
      if list_ex ((=) normalized) ALLOWED_EXTRA_ENV_NAMES then True
      else list_ex (starts_with normalized) ALLOWED_EXTRA_ENV_PREFIXES)"

definition is_ascii_alphabetic :: "char \<Rightarrow> bool" where
  "is_ascii_alphabetic c = (let n = of_char c :: nat in 65 \<le> n \<and> n \<le> 90 \<or> 97 \<le> n \<and> n \<le> 122)"

text \<open>The name is printed with \<open>{:?}\<close> only after its characters were checked, so nothing in it
  is escaped.\<close>

definition shown_name :: "string \<Rightarrow> string" where
  "shown_name name = ''environment variable name '' @ [CHR 0x22] @ name @ [CHR 0x22]"

definition under_quoted :: string where
  "under_quoted = [CHR 0x27, CHR ''_'', CHR 0x27]"

definition validate_agent_env_name_for_registration :: "string \<Rightarrow> string + unit" where
  "validate_agent_env_name_for_registration name =
     (if name = [] then Err ''environment variable name must not be empty''
      else if MAX_AGENT_ENV_NAME_BYTES < length name
      then Err (''environment variable name exceeds '' @ nat_str MAX_AGENT_ENV_NAME_BYTES @ '' bytes'')
      else if \<not> (is_ascii_alphabetic (hd name) \<or> hd name = CHR ''_'')
      then Err (''environment variable name must start with an ASCII letter or '' @ under_quoted)
      else if \<not> list_all (\<lambda>ch. is_ascii_alphanumeric ch \<or> ch = CHR ''_'') (tl name)
      then Err (''environment variable name must contain only ASCII letters, digits, or '' @ under_quoted)
      else if is_reserved_agent_env_name name
      then Err (shown_name name @ '' is reserved by the runtime'')
      else if is_blocked_agent_env_name name
      then Err (shown_name name @ '' is blocked by the agent sandbox policy'')
      else Ok ())"

definition validate_agent_env_name :: "string \<Rightarrow> string + unit" where
  "validate_agent_env_name name =
     (case validate_agent_env_name_for_registration name of Err e \<Rightarrow> Err e
      | Ok _ \<Rightarrow>
          if \<not> is_allowed_extra_env_name name
          then Err (shown_name name @ '' is not in the agent environment allowlist'')
          else Ok ())"

definition shown_entry :: "string \<Rightarrow> string" where
  "shown_entry name = ''environment variable '' @ [CHR 0x22] @ name @ [CHR 0x22]"

definition validate_env_value :: "string \<Rightarrow> string \<Rightarrow> string + unit" where
  "validate_env_value name v =
     (if MAX_AGENT_ENV_VALUE_BYTES < length v
      then Err (shown_entry name @ '' exceeds '' @ nat_str MAX_AGENT_ENV_VALUE_BYTES @ '' bytes'')
      else if CHR 0x00 \<in> set v then Err (shown_entry name @ '' contains a NUL byte'')
      else Ok ())"

definition validate_agent_env_entry_for_registration :: "string \<Rightarrow> string \<Rightarrow> string + unit" where
  "validate_agent_env_entry_for_registration name v =
     (case validate_agent_env_name_for_registration name of Err e \<Rightarrow> Err e
      | Ok _ \<Rightarrow> validate_env_value name v)"

definition validate_agent_env_entry :: "string \<Rightarrow> string \<Rightarrow> string + unit" where
  "validate_agent_env_entry name v =
     (case validate_agent_env_name name of Err e \<Rightarrow> Err e | Ok _ \<Rightarrow> validate_env_value name v)"

section \<open>Building the environment\<close>

definition read_base_env_value :: "(string \<Rightarrow> string option) \<Rightarrow> string \<Rightarrow> string option" where
  "read_base_env_value var name =
     (let v = (case var name of
                 Some v \<Rightarrow> if v \<noteq> [] \<and> CHR 0x00 \<notin> set v then Some v else default_base_env_value name
               | None \<Rightarrow> default_base_env_value name)
      in case v of None \<Rightarrow> None
         | Some v \<Rightarrow> if MAX_AGENT_ENV_VALUE_BYTES < length v then None else Some v)"

text \<open>The set \<open>seen\<close> of the code holds the names of \<open>out\<close>.\<close>

fun base_env :: "(string \<Rightarrow> string option) \<Rightarrow> string list \<Rightarrow> (string \<times> string) list" where
  "base_env var [] = []"
| "base_env var (name # names) =
     (case read_base_env_value var name of
        Some v \<Rightarrow> (name, v) # base_env var names | None \<Rightarrow> base_env var names)"

fun add_extra_env :: "(string \<times> string) list \<Rightarrow> (string \<times> string) list \<Rightarrow> (string \<times> string) list" where
  "add_extra_env out [] = out"
| "add_extra_env out ((name, v) # extra) =
     (case validate_agent_env_entry name v of
        Err _ \<Rightarrow> add_extra_env out extra
      | Ok _ \<Rightarrow> if name \<in> fst ` set out then add_extra_env out extra
               else add_extra_env (out @ [(name, v)]) extra)"

definition build_agent_environment ::
  "(string \<Rightarrow> string option) \<Rightarrow> (string \<times> string) list \<Rightarrow> (string \<times> string) list" where
  "build_agent_environment var extra_env = add_extra_env (base_env var BASE_ENV_VARS) extra_env"

section \<open>What the environment holds\<close>

definition valid_entry :: "string \<times> string \<Rightarrow> bool" where
  "valid_entry = (\<lambda>(name, v). is_ok (validate_agent_env_entry name v))"

lemma valid_entryD:
  assumes "valid_entry (name, v)"
  shows "\<not> is_reserved_agent_env_name name" "\<not> is_blocked_agent_env_name name"
    "is_allowed_extra_env_name name" "CHR 0x00 \<notin> set v" "length v \<le> MAX_AGENT_ENV_VALUE_BYTES"
    "name \<noteq> []" "CHR ''='' \<notin> set name"
proof -
  have "\<not> is_ascii_alphanumeric CHR ''=''" "\<not> is_ascii_alphabetic CHR ''=''" by code_simp+
  then have "CHR ''='' \<notin> set name"
    using assms by (cases name)
      (auto simp: valid_entry_def validate_agent_env_entry_def validate_agent_env_name_def list_all_iff
        validate_agent_env_name_for_registration_def split: if_splits)
  then show "\<not> is_reserved_agent_env_name name" "\<not> is_blocked_agent_env_name name"
    "is_allowed_extra_env_name name" "CHR 0x00 \<notin> set v" "length v \<le> MAX_AGENT_ENV_VALUE_BYTES"
    "name \<noteq> []" "CHR ''='' \<notin> set name"
    using assms
    by (auto simp: valid_entry_def validate_agent_env_entry_def validate_agent_env_name_def
        validate_agent_env_name_for_registration_def validate_env_value_def split: if_splits)
qed

lemma base_names_reserved: "name \<in> set BASE_ENV_VARS \<Longrightarrow> is_reserved_agent_env_name name"
proof -
  have "list_all is_reserved_agent_env_name BASE_ENV_VARS"
    by (simp add: BASE_ENV_VARS_def is_reserved_agent_env_name_def normalize_env_name_def to_ascii_uppercase_def
        ascii_upper_char_def)
  then show "name \<in> set BASE_ENV_VARS \<Longrightarrow> is_reserved_agent_env_name name" by (auto simp: list_all_iff)
qed

lemma base_env_names: "fst ` set (base_env var names) \<subseteq> set names"
  by (induction names) (auto split: option.splits)

lemma base_env_lookup: "map_of (base_env var names) name
    = (if name \<in> set names then read_base_env_value var name else None)"
  by (induction names) (auto split: option.splits)

lemma distinct_base_env: "distinct names \<Longrightarrow> distinct (map fst (base_env var names))"
  using base_env_names by (induction names) (auto split: option.splits dest: base_env_names[THEN subsetD])

lemma default_value_bounded:
  assumes "default_base_env_value name = Some v"
  shows "CHR 0x00 \<notin> set v" "length v \<le> MAX_AGENT_ENV_VALUE_BYTES"
proof -
  have "v \<in> set [''/usr/bin:/bin:/usr/sbin:/sbin'', ''/bin/zsh'', ''xterm-256color'', ''en_US.UTF-8'']"
    using assms unfolding default_base_env_value_def by (simp split: if_splits)
  moreover have "list_all (\<lambda>v. CHR 0x00 \<notin> set v \<and> length v \<le> MAX_AGENT_ENV_VALUE_BYTES)
      [''/usr/bin:/bin:/usr/sbin:/sbin'', ''/bin/zsh'', ''xterm-256color'', ''en_US.UTF-8'']"
    by (simp add: MAX_AGENT_ENV_VALUE_BYTES_def)
  ultimately show "CHR 0x00 \<notin> set v" "length v \<le> MAX_AGENT_ENV_VALUE_BYTES"
    unfolding list_all_iff by blast+
qed

lemma base_value_bounded:
  assumes "read_base_env_value var name = Some v"
  shows "CHR 0x00 \<notin> set v" "length v \<le> MAX_AGENT_ENV_VALUE_BYTES"
  using assms default_value_bounded[of name]
  unfolding read_base_env_value_def Let_def by (simp_all split: option.splits if_splits)

lemma distinct_add_extra: "distinct (map fst out) \<Longrightarrow> distinct (map fst (add_extra_env out extra))"
  by (induction out extra rule: add_extra_env.induct) (auto split: sum.split)

lemma add_extra_lookup: "map_of (add_extra_env out extra) name
    = (case map_of out name of Some v \<Rightarrow> Some v | None \<Rightarrow> map_of (filter valid_entry extra) name)"
proof (induction out extra rule: add_extra_env.induct)
  case (2 out n v extra)
  show ?case
  proof (cases "validate_agent_env_entry n v")
    case (Inl e)
    with 2(1)[OF Inl] show ?thesis by (simp add: valid_entry_def split: option.split)
  next
    case (Inr u)
    have "map_of out n = None \<longleftrightarrow> n \<notin> fst ` set out" by (simp add: map_of_eq_None_iff)
    with Inr show ?thesis
      using 2(2)[OF Inr] 2(3)[OF Inr]
      by (auto simp: valid_entry_def map_add_def split: option.split)
  qed
qed (simp split: option.split)


text \<open>The denylist never decides: no allowlisted name is on it. It only matters when a secret is
  registered.\<close>

lemma allowed_not_blocked:
  assumes "is_allowed_extra_env_name name"
  shows "\<not> is_blocked_agent_env_name name" "\<not> is_reserved_agent_env_name name"
proof -
  let ?n = "normalize_env_name name"
  have exact: "list_all (\<lambda>n. \<not> list_ex ((=) n) BLOCKED_EXACT_NAMES \<and> \<not> list_ex (starts_with n) BLOCKED_PREFIXES
      \<and> \<not> (starts_with n ''PNEVMA_'' \<and> list_ex (ends_with n) sensitive_suffixes)
      \<and> \<not> list_ex ((=) n) BASE_ENV_VARS) ALLOWED_EXTRA_ENV_NAMES"
    by code_simp
  have pre: "\<not> list_ex ((=) (p @ t)) BLOCKED_EXACT_NAMES \<and> \<not> list_ex (starts_with (p @ t)) BLOCKED_PREFIXES
      \<and> \<not> starts_with (p @ t) ''PNEVMA_'' \<and> \<not> list_ex ((=) (p @ t)) BASE_ENV_VARS"
    if "p \<in> set ALLOWED_EXTRA_ENV_PREFIXES" for p t
    using that
    by (auto simp: ALLOWED_EXTRA_ENV_PREFIXES_def BLOCKED_EXACT_NAMES_def BLOCKED_PREFIXES_def
        BASE_ENV_VARS_def starts_with_def)
  from assms consider (name) "?n \<in> set ALLOWED_EXTRA_ENV_NAMES"
    | (prefixed) p t where "p \<in> set ALLOWED_EXTRA_ENV_PREFIXES" "?n = p @ t"
    by (auto simp: is_allowed_extra_env_name_def Let_def list_ex_iff starts_with_prefix prefix_def split: if_splits)
  then have "\<not> is_blocked_agent_env_name name \<and> \<not> is_reserved_agent_env_name name"
  proof cases
    case name
    with exact show ?thesis
      unfolding list_all_iff is_blocked_agent_env_name_def is_reserved_agent_env_name_def Let_def by auto
  next
    case prefixed
    with pre[OF prefixed(1), of t] show ?thesis
      unfolding is_blocked_agent_env_name_def is_reserved_agent_env_name_def Let_def by auto
  qed
  then show "\<not> is_blocked_agent_env_name name" "\<not> is_reserved_agent_env_name name" by auto
qed


definition sample_extra :: "(string \<times> string) list" where
  "sample_extra = [(''CI'', ''1''), (''GITHUB_TOKEN'', ''t''), (''path'', ''/x''), (''CI'', ''2'')]"


end
