(* ===== verification/Ssh_Profiles.thy ===== *)
theory Ssh_Profiles
  imports Utf8 Context_Files Effects
begin

text \<open>
  SSH profiles: \<open>pnevma-ssh/src/profile.rs\<close>, \<open>config_parser.rs\<close>, \<open>shell_escape_arg\<close> of
  \<open>lib.rs\<close> and the errors of \<open>error.rs\<close>. The home directory, SHA-256 and the Unicode table of
  alphanumeric characters outside ASCII are arguments. What \<open>sh\<close> makes of quoted words and
  \<open>ssh\<close> of its arguments is stated by the specifications \<open>sh_plain\<close> and \<open>ssh_getopt\<close>.
\<close>

section \<open>Errors and profiles\<close>

datatype ssh_error =
  SshIo string | SshParse string | SshNotFound string | SshCommand string
| UnsupportedRemoteHelperPlatform string | MissingRemoteHelperArtifact string
| RemoteHelperDigestMismatch string | RemoteHelperVersionMismatch string
| RemoteHelperProtocolMismatch string | RemoteHelperDependency string
| PassphraseApplicationFailed string

datatype keepalive_mode = Interactive | Background

record ssh_profile =
  sp_id :: string
  sp_name :: string
  sp_host :: string
  sp_port :: u16
  sp_user :: "string option"
  sp_identity_file :: "string option"
  sp_proxy_jump :: "string option"
  sp_tags :: "string list"
  sp_source :: string
  sp_created_at :: time
  sp_updated_at :: time
  sp_use_control_master :: "bool option"

record ssh_env =
  ss_home :: "string option"
  ss_sha256_hex :: "string \<Rightarrow> string"
  ss_alphanumeric :: "string \<Rightarrow> bool"

section \<open>Validation\<close>

definition control_char :: "string \<Rightarrow> bool" where
  "control_char ch =
     (case ch of [c] \<Rightarrow> byte_of c < 32 \<or> byte_of c = 127
      | [c, d] \<Rightarrow> byte_of c = 0xC2 \<and> in_range 0x80 0x9F d
      | _ \<Rightarrow> False)"

definition whitespace_char :: "string \<Rightarrow> bool" where
  "whitespace_char ch = (ch \<in> set ws_encodings)"

definition char_alphanumeric :: "ssh_env \<Rightarrow> string \<Rightarrow> bool" where
  "char_alphanumeric env ch = (case ch of [c] \<Rightarrow> is_ascii_alphanumeric c | _ \<Rightarrow> ss_alphanumeric env ch)"

definition has_no_control_chars :: "string \<Rightarrow> bool" where
  "has_no_control_chars s \<longleftrightarrow> CHR 0x00 \<notin> set s \<and> \<not> list_ex control_char (utf8_chars s)"

definition has_whitespace :: "string \<Rightarrow> bool" where
  "has_whitespace s = list_ex whitespace_char (utf8_chars s)"

definition validate_hostname :: "ssh_env \<Rightarrow> string \<Rightarrow> ssh_error + unit" where
  "validate_hostname env host =
     (if host = [] then Err (SshParse ''hostname must not be empty'')
      else if 256 < length host then Err (SshParse ''hostname must not exceed 256 characters'')
      else if has_whitespace host then Err (SshParse ''hostname must not contain whitespace'')
      else if \<not> has_no_control_chars host
      then Err (SshParse ''hostname must not contain control characters or null bytes'')
      else if \<not> list_all (\<lambda>ch. char_alphanumeric env ch
                 \<or> ch \<in> {''-'', ''.'', '':'', ''@'', ''['', '']'', ''_''}) (utf8_chars host)
      then Err (SshParse (''hostname contains invalid characters: '' @ host))
      else Ok ())"

definition quoted :: "string \<Rightarrow> string" where
  "quoted s = [CHR 0x27] @ s @ [CHR 0x27]"

definition validate_username :: "string \<Rightarrow> ssh_error + unit" where
  "validate_username user =
     (if user = [] then Err (SshParse ''username must not be empty'')
      else if 256 < length user then Err (SshParse ''username must not exceed 256 characters'')
      else if str_contains user ''/'' \<or> str_contains user [CHR 0x5C] \<or> str_contains user ''..''
      then Err (SshParse (''username must not contain '' @ quoted ''/'' @ '', '' @ quoted [CHR 0x5C]
                          @ '', or '' @ quoted ''..''))
      else if has_whitespace user then Err (SshParse ''username must not contain whitespace'')
      else if \<not> has_no_control_chars user
      then Err (SshParse ''username must not contain control characters or null bytes'')
      else Ok ())"

definition validate_identity_path :: "string \<Rightarrow> ssh_error + unit" where
  "validate_identity_path path =
     (if path = [] then Err (SshParse ''identity path must not be empty'')
      else if 1024 < length path
      then Err (SshParse ''identity path must not exceed 1024 characters'')
      else if \<not> has_no_control_chars path
      then Err (SshParse ''identity path must not contain control characters or null bytes'')
      else Ok ())"

definition validate_proxy_jump :: "string \<Rightarrow> ssh_error + unit" where
  "validate_proxy_jump pj =
     (if pj = [] then Err (SshParse ''proxy jump must not be empty'')
      else if 256 < length pj then Err (SshParse ''proxy jump must not exceed 256 characters'')
      else if has_whitespace pj then Err (SshParse ''proxy jump must not contain whitespace'')
      else if \<not> has_no_control_chars pj
      then Err (SshParse ''proxy jump must not contain control characters or null bytes'')
      else Ok ())"

definition check_opt :: "(string \<Rightarrow> ssh_error + unit) \<Rightarrow> string option \<Rightarrow> ssh_error + unit" where
  "check_opt f v = (case v of None \<Rightarrow> Ok () | Some s \<Rightarrow> f s)"

definition validate_profile_fields ::
  "ssh_env \<Rightarrow> string \<Rightarrow> string option \<Rightarrow> string option \<Rightarrow> string option \<Rightarrow> ssh_error + unit" where
  "validate_profile_fields env host user identity_file proxy_jump =
     (case validate_hostname env host of Err e \<Rightarrow> Err e | Ok _ \<Rightarrow>
      case check_opt validate_username user of Err e \<Rightarrow> Err e | Ok _ \<Rightarrow>
      case check_opt validate_identity_path identity_file of Err e \<Rightarrow> Err e | Ok _ \<Rightarrow>
      check_opt validate_proxy_jump proxy_jump)"

definition validate_profile :: "ssh_env \<Rightarrow> ssh_profile \<Rightarrow> ssh_error + unit" where
  "validate_profile env p =
     (case validate_hostname env (sp_host p) of Err e \<Rightarrow> Err e | Ok _ \<Rightarrow>
      case check_opt validate_username (sp_user p) of Err e \<Rightarrow> Err e | Ok _ \<Rightarrow>
      case check_opt validate_identity_path (sp_identity_file p) of Err e \<Rightarrow> Err e | Ok _ \<Rightarrow>
      check_opt validate_proxy_jump (sp_proxy_jump p))"

definition profile_new ::
  "ssh_env \<Rightarrow> string \<Rightarrow> time \<Rightarrow> string \<Rightarrow> string \<Rightarrow> string \<Rightarrow> ssh_error + ssh_profile" where
  "profile_new env fresh now name host source =
     (case validate_hostname env host of Err e \<Rightarrow> Err e | Ok _ \<Rightarrow>
        Ok \<lparr>sp_id = fresh, sp_name = name, sp_host = host, sp_port = 22, sp_user = None,
            sp_identity_file = None, sp_proxy_jump = None, sp_tags = [], sp_source = source,
            sp_created_at = now, sp_updated_at = now, sp_use_control_master = None\<rparr>)"

section \<open>The ssh command\<close>

definition home_dir :: "ssh_env \<Rightarrow> string option" where
  "home_dir env = (case ss_home env of Some h \<Rightarrow> if h = [] then None else Some h | None \<Rightarrow> None)"

definition CONTROL_SOCKET_DIR :: string where
  "CONTROL_SOCKET_DIR = ''.pnevma/ssh/control''"

definition control_socket_path :: "ssh_env \<Rightarrow> ssh_profile \<Rightarrow> string option" where
  "control_socket_path env p =
     map_option (\<lambda>home.
        let key = case_option ''_'' id (sp_user p) @ ''@'' @ sp_host p @ '':'' @ nat_str (unat (sp_port p));
            hash = ss_sha256_hex env key
        in path_join (path_join home CONTROL_SOCKET_DIR) (take 16 hash)) (home_dir env)"

definition keepalive_values :: "keepalive_mode \<Rightarrow> nat \<times> nat" where
  "keepalive_values k = (case k of Interactive \<Rightarrow> (10, 2) | Background \<Rightarrow> (30, 3))"

definition destination :: "ssh_profile \<Rightarrow> string" where
  "destination p = (case sp_user p of Some user \<Rightarrow> user @ ''@'' @ sp_host p | None \<Rightarrow> sp_host p)"

definition ssh_options :: "ssh_env \<Rightarrow> ssh_profile \<Rightarrow> keepalive_mode \<Rightarrow> (string \<times> string) list" where
  "ssh_options env p k =
     (let (interval, tries) = keepalive_values k in
        [(''-o'', ''ServerAliveInterval='' @ nat_str interval),
         (''-o'', ''ServerAliveCountMax='' @ nat_str tries)]
        @ (if case_option True id (sp_use_control_master p)
           then case control_socket_path env p of None \<Rightarrow> []
                | Some path \<Rightarrow> [(''-o'', ''ControlMaster=auto''), (''-o'', ''ControlPath='' @ path),
                                (''-o'', ''ControlPersist=60'')]
           else [])
        @ (if sp_port p \<noteq> 22 then [(''-p'', nat_str (unat (sp_port p)))] else [])
        @ (case sp_identity_file p of None \<Rightarrow> [] | Some f \<Rightarrow> [(''-i'', f)])
        @ (case sp_proxy_jump p of None \<Rightarrow> [] | Some j \<Rightarrow> [(''-J'', j)]))"

definition flat_options :: "(string \<times> string) list \<Rightarrow> string list" where
  "flat_options opts = concat (map (\<lambda>(f, v). [f, v]) opts)"

definition build_ssh_command ::
  "ssh_env \<Rightarrow> ssh_profile \<Rightarrow> keepalive_mode \<Rightarrow> ssh_error + string list" where
  "build_ssh_command env p k =
     (case validate_profile env p of Err e \<Rightarrow> Err e
      | Ok _ \<Rightarrow> Ok (''ssh'' # flat_options (ssh_options env p k) @ [destination p]))"

section \<open>Importing a configuration file\<close>

text \<open>The directives of the block being read; \<open>None\<close> for the pattern outside every block.\<close>

record host_block =
  hb_hostname :: "string option"
  hb_user :: "string option"
  hb_port :: "u16 option"
  hb_identity_file :: "string option"
  hb_proxy_jump :: "string option"

definition empty_block :: host_block where
  "empty_block = \<lparr>hb_hostname = None, hb_user = None, hb_port = None, hb_identity_file = None,
                  hb_proxy_jump = None\<rparr>"

definition flush_host ::
  "ssh_env \<Rightarrow> (nat \<Rightarrow> string) \<Rightarrow> time \<Rightarrow> nat \<Rightarrow> string \<Rightarrow> host_block \<Rightarrow> ssh_profile option" where
  "flush_host env fresh now n pattern b =
     (case profile_new env (fresh n) now pattern (case_option pattern id (hb_hostname b)) ''ssh_config'' of
        Err _ \<Rightarrow> None
      | Ok p \<Rightarrow> Some (p\<lparr>sp_user := hb_user b, sp_port := case_option 22 id (hb_port b),
                        sp_identity_file := hb_identity_file b, sp_proxy_jump := hb_proxy_jump b,
                        sp_tags := [''ssh_config'']\<rparr>))"

fun flush_patterns ::
  "ssh_env \<Rightarrow> (nat \<Rightarrow> string) \<Rightarrow> time \<Rightarrow> host_block \<Rightarrow> string list \<Rightarrow> ssh_profile list \<Rightarrow> ssh_profile list" where
  "flush_patterns env fresh now b [] profiles = profiles"
| "flush_patterns env fresh now b (pattern # patterns) profiles =
     (if pattern = ''*'' then flush_patterns env fresh now b patterns profiles
      else flush_patterns env fresh now b patterns
             (case flush_host env fresh now (length profiles) pattern b of
                None \<Rightarrow> profiles | Some p \<Rightarrow> profiles @ [p]))"

definition parse_u16 :: "string \<Rightarrow> u16 option" where
  "parse_u16 s =
     (case parse_u64 s of Inr n \<Rightarrow> if n < 2 ^ 16 then Some (of_nat n) else None | Inl _ \<Rightarrow> None)"

definition is_separator :: "char \<Rightarrow> bool" where
  "is_separator c = (c \<in> {CHR '' '', CHR 0x09, CHR ''=''})"

definition key_value :: "string \<Rightarrow> (string \<times> string) option" where
  "key_value line =
     (if list_ex is_separator line
      then Some (to_lowercase (str_trim (takeWhile (\<lambda>c. \<not> is_separator c) line)),
                 str_trim (dropWhile is_separator (dropWhile (\<lambda>c. \<not> is_separator c) line)))
      else None)"

definition set_directive :: "ssh_env \<Rightarrow> string \<Rightarrow> string \<Rightarrow> host_block \<Rightarrow> host_block" where
  "set_directive env key v b =
     (if key = ''hostname'' then b\<lparr>hb_hostname := Some v\<rparr>
      else if key = ''user'' then b\<lparr>hb_user := Some v\<rparr>
      else if key = ''port'' then b\<lparr>hb_port := parse_u16 v\<rparr>
      else if key = ''identityfile''
      then b\<lparr>hb_identity_file := Some (case strip_prefix v ''~'' of
               Some rest \<Rightarrow> case_option ''~'' id (ss_home env) @ rest | None \<Rightarrow> v)\<rparr>
      else if key = ''proxyjump'' then b\<lparr>hb_proxy_jump := Some v\<rparr>
      else b)"

fun parse_config_lines ::
  "ssh_env \<Rightarrow> (nat \<Rightarrow> string) \<Rightarrow> time \<Rightarrow> string option \<Rightarrow> host_block \<Rightarrow> string list \<Rightarrow> ssh_profile list
     \<Rightarrow> ssh_profile list" where
  "parse_config_lines env fresh now hostpat b [] profiles =
     (case hostpat of None \<Rightarrow> profiles
      | Some pattern \<Rightarrow> flush_patterns env fresh now b (split_whitespace pattern) profiles)"
| "parse_config_lines env fresh now hostpat b (l # ls) profiles =
     (let line = str_trim l in
      if line = [] \<or> starts_with line ''#'' then parse_config_lines env fresh now hostpat b ls profiles
      else case key_value line of
        None \<Rightarrow> parse_config_lines env fresh now hostpat b ls profiles
      | Some (key, v) \<Rightarrow>
          if key = ''host'' then
            let (b', profiles') =
                  (case hostpat of None \<Rightarrow> (b, profiles)
                   | Some pattern \<Rightarrow> (empty_block,
                       flush_patterns env fresh now b (split_whitespace pattern) profiles));
                non_wildcard = filter (\<lambda>p. p \<noteq> [] \<and> p \<noteq> ''*'') (split_whitespace v);
                hostpat' = if non_wildcard = [] then None else Some (str_join '' '' non_wildcard)
            in parse_config_lines env fresh now hostpat' b' ls profiles'
          else if hostpat \<noteq> None
          then parse_config_lines env fresh now hostpat (set_directive env key v b) ls profiles
          else parse_config_lines env fresh now hostpat b ls profiles)"

definition parse_config_content ::
  "ssh_env \<Rightarrow> (nat \<Rightarrow> string) \<Rightarrow> time \<Rightarrow> string \<Rightarrow> ssh_profile list" where
  "parse_config_content env fresh now content =
     parse_config_lines env fresh now None empty_block (str_lines content) []"

section \<open>Quoting\<close>

definition shell_escape_arg :: "string \<Rightarrow> string" where
  "shell_escape_arg arg =
     (if arg = [] then [CHR 0x27, CHR 0x27]
      else [CHR 0x27] @ str_replace [CHR 0x27] [CHR 0x27, CHR 0x5C, CHR 0x27, CHR 0x27] arg @ [CHR 0x27])"

text \<open>
  Specification of the word splitting of \<open>sh\<close> for the words the program writes: blanks
  separate, single quotes keep everything, a backslash outside quotes keeps the next
  character. Any other character that the shell might interpret gives \<open>None\<close>.
\<close>

definition sh_literal :: "char \<Rightarrow> bool" where
  "sh_literal c \<longleftrightarrow> is_ascii_alphanumeric c \<or> c \<in> set ''/._-:=@%+,''"

fun sh_plain :: "string option \<Rightarrow> string \<Rightarrow> string list option"
  and sh_quoted :: "string \<Rightarrow> string \<Rightarrow> string list option" where
  "sh_plain cur [] = Some (case cur of None \<Rightarrow> [] | Some w \<Rightarrow> [w])"
| "sh_plain cur (c # s) =
     (if c = CHR '' '' then (case cur of None \<Rightarrow> sh_plain None s
                             | Some w \<Rightarrow> map_option (Cons w) (sh_plain None s))
      else if c = CHR 0x27 then sh_quoted (case_option [] id cur) s
      else if c = CHR 0x5C
      then (case s of [] \<Rightarrow> None
            | d # s' \<Rightarrow> if d = CHR 0x0A then None else sh_plain (Some (case_option [] id cur @ [d])) s')
      else if sh_literal c then sh_plain (Some (case_option [] id cur @ [c])) s
      else None)"
| "sh_quoted w [] = None"
| "sh_quoted w (c # s) = (if c = CHR 0x27 then sh_plain (Some w) s else sh_quoted (w @ [c]) s)"

definition sh_words :: "string \<Rightarrow> string list option" where
  "sh_words s = sh_plain None s"

lemma sh_quoted_escaped:
  "sh_quoted w (str_replace [CHR 0x27] [CHR 0x27, CHR 0x5C, CHR 0x27, CHR 0x27] arg @ CHR 0x27 # s)
     = sh_plain (Some (w @ arg)) s"
proof (induction arg arbitrary: w)
  case Nil
  show ?case by (subst str_replace.simps) simp
next
  case (Cons c arg)
  then show ?case
    by (subst str_replace.simps) (auto simp: starts_with_def)
qed

lemma sh_plain_escaped: "sh_plain None (shell_escape_arg arg @ s) = sh_plain (Some arg) s"
  using sh_quoted_escaped[of "[]" arg s] by (simp add: shell_escape_arg_def)

lemma sh_words_args: "sh_plain None (str_join '' '' (map shell_escape_arg args)) = Some args"
proof (induction args)
  case (Cons a args)
  then show ?case
    by (cases args) (simp_all add: sh_plain_escaped[of a "[]", simplified] sh_plain_escaped)
qed simp

text \<open>
  Quoting is exact. Whatever the arguments hold, the shell reads the line of the quoted
  arguments as exactly these words and interprets nothing in them.
\<close>

theorem quoted_words_roundtrip: "sh_words (str_join '' '' (map shell_escape_arg args)) = Some args"
  by (simp add: sh_words_def sh_words_args)

text \<open>Specification of \<open>getopt\<close> in \<open>ssh\<close>, for options that take a value.\<close>

fun ssh_getopt :: "string list \<Rightarrow> (string \<times> string) list \<times> string list" where
  "ssh_getopt [] = ([], [])"
| "ssh_getopt (a # as) =
     (if \<not> starts_with a ''-'' \<or> a = ''-'' then ([], a # as)
      else if 2 < length a then (let (opts, rest) = ssh_getopt as in ((take 2 a, drop 2 a) # opts, rest))
      else case as of [] \<Rightarrow> ([(a, [])], [])
        | v # as' \<Rightarrow> let (opts, rest) = ssh_getopt as' in ((a, v) # opts, rest))"

definition short_option :: "string \<Rightarrow> bool" where
  "short_option f \<longleftrightarrow> f \<in> {''-o'', ''-p'', ''-i'', ''-J''}"

lemma ssh_getopt_options:
  "list_all (\<lambda>(f, v). short_option f) opts \<Longrightarrow>
   ssh_getopt (flat_options opts @ rest) = (let (o2, r) = ssh_getopt rest in (opts @ o2, r))"
  by (induction opts) (auto simp: flat_options_def short_option_def starts_with_def split: prod.splits)

lemma ssh_options_short: "list_all (\<lambda>(f, v). short_option f) (ssh_options env p k)"
  by (simp add: ssh_options_def short_option_def split_beta split: option.split)

lemma build_ssh_commandD:
  assumes "build_ssh_command env p k = Ok args"
  shows "validate_profile env p = Ok ()" "args = ''ssh'' # flat_options (ssh_options env p k) @ [destination p]"
  using assms by (auto simp: build_ssh_command_def split: sum.splits)

lemma destination_not_empty:
  assumes "validate_profile env p = Ok ()"
  shows "destination p \<noteq> []"
  using assms
  by (auto simp: validate_profile_def destination_def validate_hostname_def split: sum.splits option.splits if_splits)


definition proxy_user :: ssh_profile where
  "proxy_user = \<lparr>sp_id = ''i'', sp_name = ''n'', sp_host = ''h'', sp_port = 22,
     sp_user = Some ''-oProxyCommand=reboot;'', sp_identity_file = None, sp_proxy_jump = None,
     sp_tags = [], sp_source = ''manual'', sp_created_at = 0, sp_updated_at = 0,
     sp_use_control_master = Some False\<rparr>"

definition plain_ssh_env :: ssh_env where
  "plain_ssh_env = \<lparr>ss_home = None, ss_sha256_hex = (\<lambda>_. ''0''), ss_alphanumeric = (\<lambda>_. False)\<rparr>"

text \<open>Printable ASCII text has neither blanks nor control characters.\<close>

lemma graphic_ascii: "is_ascii_graphic c \<Longrightarrow> byte_of c < 128 \<and> 32 < byte_of c \<and> byte_of c < 127"
  by (auto simp: is_ascii_graphic_def byte_of_def Let_def)

lemma utf8_chars_graphic: "list_all is_ascii_graphic s \<Longrightarrow> utf8_chars s = map (\<lambda>c. [c]) s"
proof (induction s)
  case (Cons c s)
  then have "utf8_step (c # s) = (True, 1)" using graphic_ascii[of c] by (simp add: utf8_width_def)
  with Cons show ?case by (subst utf8_chars.simps) simp
qed (simp add: utf8_chars.simps)

lemma graphic_text:
  assumes "list_all is_ascii_graphic s"
  shows "\<not> has_whitespace s" "has_no_control_chars s"
proof -
  have "\<not> whitespace_char [c]" if "c \<in> set s" for c
    using graphic_not_white(1)[of c] assms that
    by (auto simp: whitespace_char_def list_all_iff image_iff)
  then show "\<not> has_whitespace s"
    by (auto simp: has_whitespace_def utf8_chars_graphic[OF assms] list_ex_iff)
  have "\<not> control_char [c] \<and> c \<noteq> CHR 0x00" if "c \<in> set s" for c
    using graphic_ascii[of c] assms that by (auto simp: control_char_def list_all_iff byte_of_def)
  then show "has_no_control_chars s"
    by (auto simp: has_no_control_chars_def utf8_chars_graphic[OF assms] list_ex_iff)
qed

lemma digit_chars: "char_of (48::nat) = CHR ''0''" "char_of (51::nat) = CHR ''3''"
  by code_simp+

lemma proxy_user_command: "build_ssh_command plain_ssh_env proxy_user Background
   = Ok [''ssh'', ''-o'', ''ServerAliveInterval=30'', ''-o'', ''ServerAliveCountMax=3'', ''-oProxyCommand=reboot;@h'']"
proof -
  have "validate_hostname plain_ssh_env ''h'' = Ok ()"
    using graphic_text[of "''h''"]
    by (simp add: validate_hostname_def utf8_chars_graphic char_alphanumeric_def is_ascii_graphic_def
        is_ascii_alphanumeric_def)
  moreover have "validate_username ''-oProxyCommand=reboot;'' = Ok ()"
    using graphic_text[of "''-oProxyCommand=reboot;''"]
    by (simp add: validate_username_def str_contains_sublist is_ascii_graphic_def sublist_Cons_right)
  ultimately show ?thesis
    by (simp add: build_ssh_command_def validate_profile_def check_opt_def proxy_user_def ssh_options_def
        flat_options_def keepalive_values_def nat_str.simps digit_chars destination_def)
qed


section \<open>A directive outside its block\<close>

text \<open>A \<open>Match\<close> line does not end a \<open>Host\<close> block: the directives after it go on changing the
  host before it.\<close>

lemma match_line_ignored:
  assumes "key_value (str_trim l) = Some (''match'', v)" and "\<not> starts_with (str_trim l) ''#''"
  shows "parse_config_lines env fresh now hostpat b (l # ls) profiles
    = parse_config_lines env fresh now hostpat b ls profiles"
  using assms by (auto simp: Let_def set_directive_def key_value_def)

text \<open>Every imported profile has a valid host name, a name that is not the wildcard, and the
  source and tag of an import.\<close>

definition imported :: "ssh_env \<Rightarrow> ssh_profile \<Rightarrow> bool" where
  "imported env p \<longleftrightarrow> validate_hostname env (sp_host p) = Ok () \<and> sp_name p \<noteq> ''*''
     \<and> sp_source p = ''ssh_config'' \<and> sp_tags p = [''ssh_config'']"

lemma flush_imported:
  "list_all (imported env) profiles \<Longrightarrow> list_all (imported env) (flush_patterns env fresh now b patterns profiles)"
  by (induction env fresh now b patterns profiles rule: flush_patterns.induct)
     (auto simp: flush_host_def profile_new_def imported_def split: sum.splits)

lemma imported_profiles: "list_all (imported env) profiles \<Longrightarrow>
   list_all (imported env) (parse_config_lines env fresh now hostpat b ls profiles)"
proof (induction ls arbitrary: hostpat b profiles)
  case (Cons l ls)
  then show ?case
    by (auto simp: Let_def flush_imported split: option.splits)
qed (auto simp: flush_imported split: option.split)

end
