(* ===== verification/Remote_Helper.thy ===== *)
theory Remote_Helper
  imports Ssh_Profiles Redaction Agent_Env
begin

text \<open>
  The helper on remote hosts: \<open>pnevma-ssh/src/remote_helper.rs\<close>. A step on the remote side
  is an argument of the model, over an abstract state \<open>'r\<close> of the remote host and the
  connection: \<open>rh_run\<close> starts the \<open>ssh\<close> binary with its arguments and standard input and
  waits for it, \<open>rh_connect\<close> and \<open>rh_call\<close> are the RPC pool and a call on its client. The
  local files and variables that are read do not change during an operation. SHA-256 (in
  lower-case hexadecimal) and the JSON parser of the manifest are arguments.
\<close>

section \<open>Data\<close>

record helper_health =
  hh_version :: string
  hh_protocol_version :: string
  hh_helper_kind :: string
  hh_helper_path :: string
  hh_state_root :: string
  hh_controller_id :: string
  hh_healthy :: bool
  hh_target_triple :: "string option"
  hh_artifact_source :: "string option"
  hh_artifact_sha256 :: "string option"
  hh_protocol_compatible :: bool
  hh_missing_dependencies :: "string list"

datatype install_kind = Existing | BinaryArtifact | ShellCompatKind

definition install_kind_str :: "install_kind \<Rightarrow> string" where
  "install_kind_str k = (case k of Existing \<Rightarrow> ''existing'' | BinaryArtifact \<Rightarrow> ''binary_artifact''
     | ShellCompatKind \<Rightarrow> ''shell_compat'')"

record ensure_result =
  er_health :: helper_health
  er_installed :: bool
  er_install_kind :: install_kind

record session_created =
  sc_session_id :: string
  sc_controller_id :: string
  sc_state :: string
  sc_pid :: "u32 option"
  sc_log_path :: "string option"

record session_status =
  ssn_session_id :: string
  ssn_controller_id :: string
  ssn_state :: string
  ssn_pid :: "u32 option"
  ssn_exit_code :: "int option"
  ssn_total_bytes :: nat
  ssn_last_output :: "int option"

record helper_platform =
  pf_os :: string
  pf_arch :: string
  pf_target_triple :: string

datatype artifact_source = EnvOverride | ArtifactDir | BundleDir | BundleRelative | RepoArtifacts | ShellCompatSource

definition artifact_source_str :: "artifact_source \<Rightarrow> string" where
  "artifact_source_str a = (case a of EnvOverride \<Rightarrow> ''env_override'' | ArtifactDir \<Rightarrow> ''artifact_dir''
     | BundleDir \<Rightarrow> ''bundle_dir'' | BundleRelative \<Rightarrow> ''bundle_relative''
     | RepoArtifacts \<Rightarrow> ''repo_artifacts'' | ShellCompatSource \<Rightarrow> ''shell_compat'')"

record helper_artifact =
  ha_path :: string
  ha_target_triple :: string
  ha_source :: artifact_source
  ha_sha256 :: string
  ha_size :: nat
  ha_protocol_version :: string
  ha_package_version :: string

datatype install_plan = Artifact helper_artifact | ShellCompat string

record install_metadata =
  im_target_triple :: string
  im_artifact_source :: string
  im_artifact_sha256 :: string

record manifest_entry =
  mf_target_triple :: string
  mf_relative_path :: string
  mf_sha256 :: string
  mf_size :: nat

record artifact_manifest =
  am_schema_version :: u32
  am_package_version :: string
  am_protocol_version :: string
  am_artifacts :: "manifest_entry list"

text \<open>How a run of the binary ends: not started, standard input or output broken, or with its
  success, status text, output and error output.\<close>

datatype ssh_run = RunFailed string | RunEnded bool string string string

record 'r helper_env =
  rh_ssh :: ssh_env
  rh_run :: "string list \<Rightarrow> string option \<Rightarrow> 'r \<Rightarrow> ssh_run \<times> 'r"
  rh_connect :: "string \<Rightarrow> 'r \<Rightarrow> bool \<times> 'r"
  rh_call :: "string \<Rightarrow> string \<Rightarrow> json \<Rightarrow> 'r \<Rightarrow> (ssh_error + json) \<times> 'r"
  rh_var :: "string \<Rightarrow> string option"
  rh_exists :: "string \<Rightarrow> bool"
  rh_read :: "string \<Rightarrow> ssh_error + string"
  rh_file_len :: "string \<Rightarrow> ssh_error + nat"
  rh_sha256_hex :: "string \<Rightarrow> string"
  rh_parse_manifest :: "string \<Rightarrow> string + artifact_manifest"
  rh_pkg_version :: string
  rh_manifest_dir :: string
  rh_current_exe :: "string option"
  rh_script :: string

definition REMOTE_HELPER_REMOTE_DIR :: string where
  "REMOTE_HELPER_REMOTE_DIR = ''$HOME/.local/share/pnevma/bin''"

definition REMOTE_HELPER_REMOTE_PATH :: string where
  "REMOTE_HELPER_REMOTE_PATH = ''$HOME/.local/share/pnevma/bin/pnevma-remote-helper''"

definition REMOTE_HELPER_METADATA_REMOTE_PATH :: string where
  "REMOTE_HELPER_METADATA_REMOTE_PATH = ''$HOME/.local/share/pnevma/bin/pnevma-remote-helper.metadata''"

definition REMOTE_HELPER_PROTOCOL_VERSION :: string where
  "REMOTE_HELPER_PROTOCOL_VERSION = ''1''"

definition SUPPORTED_TARGETS :: "string list" where
  "SUPPORTED_TARGETS = [''x86_64-unknown-linux-musl'', ''aarch64-unknown-linux-musl'',
     ''x86_64-apple-darwin'', ''aarch64-apple-darwin'']"

section \<open>Sequencing\<close>

type_synonym ('r, 'a) remote = "'r \<Rightarrow> (ssh_error + 'a) \<times> 'r"

definition rgive :: "'a \<Rightarrow> ('r, 'a) remote" where
  "rgive x r = (Ok x, r)"

definition rlift :: "ssh_error + 'a \<Rightarrow> ('r, 'a) remote" where
  "rlift x r = (x, r)"

definition rthen :: "('r, 'a) remote \<Rightarrow> ('a \<Rightarrow> ('r, 'b) remote) \<Rightarrow> ('r, 'b) remote" where
  "rthen f g r = (case f r of (Inl e, r') \<Rightarrow> (Err e, r') | (Inr x, r') \<Rightarrow> g x r')"

lemma rthen_Ok: "rthen f g r = (Ok y, r'') \<longleftrightarrow> (\<exists>x r'. f r = (Ok x, r') \<and> g x r' = (Ok y, r''))"
  by (auto simp: rthen_def split: prod.splits sum.splits)

lemma rlift_Ok [simp]: "rlift x r = (Ok y, r') \<longleftrightarrow> x = Ok y \<and> r = r'"
  by (auto simp: rlift_def)

lemma rgive_Ok [simp]: "rgive x r = (Ok y, r') \<longleftrightarrow> x = y \<and> r = r'"
  by (auto simp: rgive_def)

section \<open>Running ssh\<close>

definition remote_command_arg :: "string \<Rightarrow> string" where
  "remote_command_arg remote_command = ''sh -lc '' @ shell_escape_arg remote_command"

definition resolve_local_binary :: "'r helper_env \<Rightarrow> string \<Rightarrow> string" where
  "resolve_local_binary env name =
     (case find (rh_exists env) (map (\<lambda>dir. path_join dir name)
             [''/opt/homebrew/bin'', ''/usr/local/bin'', ''/usr/bin'', ''/bin'']) of
        Some candidate \<Rightarrow> candidate | None \<Rightarrow> name)"

definition ssh_binary_path :: "'r helper_env \<Rightarrow> string" where
  "ssh_binary_path env =
     (case rh_var env ''PNEVMA_SSH_BIN'' of Some p \<Rightarrow> p | None \<Rightarrow> resolve_local_binary env ''ssh'')"

definition ssh_args_without_binary ::
  "'r helper_env \<Rightarrow> ssh_profile \<Rightarrow> keepalive_mode \<Rightarrow> ssh_error + string list" where
  "ssh_args_without_binary env p k =
     (case build_ssh_command (rh_ssh env) p k of Inl e \<Rightarrow> Err e
      | Inr args \<Rightarrow> Ok (if args \<noteq> [] then tl args else args))"

text \<open>The control socket directory is made on the way and its failure ignored.\<close>

definition run_ssh_with_tty ::
  "'r helper_env \<Rightarrow> ssh_profile \<Rightarrow> string \<Rightarrow> string option \<Rightarrow> bool \<Rightarrow> ('r, string) remote" where
  "run_ssh_with_tty env p remote_command stdin_bytes request_tty r =
     (let keepalive = if request_tty then Interactive else Background in
      case ssh_args_without_binary env p keepalive of
        Inl e \<Rightarrow> (Err e, r)
      | Inr args \<Rightarrow>
          let argv = ssh_binary_path env # (if request_tty then [''-tt''] else []) @ args
                     @ [remote_command_arg remote_command]
          in case rh_run env argv stdin_bytes r of
               (RunFailed e, r') \<Rightarrow> (Err (SshIo e), r')
             | (RunEnded ok st out err, r') \<Rightarrow>
                 if \<not> ok then
                   (let stderr = str_trim (from_utf8_lossy err)
                    in (Err (SshCommand (if stderr = [] then ''ssh command failed with status '' @ st else stderr)), r'))
                 else (Ok (from_utf8_lossy out), r'))"

definition run_ssh :: "'r helper_env \<Rightarrow> ssh_profile \<Rightarrow> string \<Rightarrow> string option \<Rightarrow> ('r, string) remote" where
  "run_ssh env p remote_command stdin_bytes = run_ssh_with_tty env p remote_command stdin_bytes False"

fun strip_control_master_args :: "string list \<Rightarrow> string list" where
  "strip_control_master_args [] = []"
| "strip_control_master_args [a] = [a]"
| "strip_control_master_args (a # b # rest) =
     (if a = ''-o'' \<and> (starts_with b ''ControlMaster='' \<or> starts_with b ''ControlPath=''
                      \<or> starts_with b ''ControlPersist='')
      then strip_control_master_args rest
      else a # strip_control_master_args (b # rest))"

definition attach_argv :: "'r helper_env \<Rightarrow> ssh_profile \<Rightarrow> string \<Rightarrow> ssh_error + string list" where
  "attach_argv env p session_id =
     (case ssh_args_without_binary env p Interactive of Inl e \<Rightarrow> Err e
      | Inr args \<Rightarrow> Ok (ssh_binary_path env # ''-tt'' # strip_control_master_args args
          @ [remote_command_arg (''exec '' @ REMOTE_HELPER_REMOTE_PATH @ '' session attach --session-id ''
               @ shell_escape_arg session_id)]))"

definition build_remote_attach_command :: "'r helper_env \<Rightarrow> ssh_profile \<Rightarrow> string \<Rightarrow> ssh_error + string" where
  "build_remote_attach_command env p session_id =
     (case attach_argv env p session_id of Inl e \<Rightarrow> Err e
      | Inr args \<Rightarrow> Ok (str_join '' '' (map shell_escape_arg args)))"

section \<open>Reading answers\<close>

definition parse_kv_output :: "string \<Rightarrow> string \<Rightarrow> string option" where
  "parse_kv_output output =
     fold (\<lambda>line m. let trimmed = str_trim line in
             if trimmed = [] then m
             else case split_once trimmed ''='' of None \<Rightarrow> m | Some (key, v) \<Rightarrow> m(key \<mapsto> v))
       (str_lines output) Map.empty"

definition required_value :: "(string \<Rightarrow> string option) \<Rightarrow> string \<Rightarrow> ssh_error + string" where
  "required_value m key =
     (case m key of Some v \<Rightarrow> Ok v | None \<Rightarrow> Err (SshParse (''missing helper field: '' @ key)))"

definition optional_value :: "(string \<Rightarrow> string option) \<Rightarrow> string \<Rightarrow> string option" where
  "optional_value m key = (case m key of Some v \<Rightarrow> if str_trim v = [] then None else Some v | None \<Rightarrow> None)"

definition parse_u32 :: "string \<Rightarrow> u32 option" where
  "parse_u32 s =
     (case parse_u64 s of Inr n \<Rightarrow> if n < 2 ^ 32 then Some (of_nat n) else None | Inl _ \<Rightarrow> None)"

definition parse_signed :: "nat \<Rightarrow> string \<Rightarrow> int option" where
  "parse_signed w s =
     (if s \<noteq> [] \<and> s \<noteq> ''-'' \<and> hd s = CHR ''-''
      then (if hd (tl s) = CHR ''+'' then None
            else case parse_u64 (tl s) of
                   Inr n \<Rightarrow> if n \<le> 2 ^ (w - 1) then Some (- int n) else None | Inl _ \<Rightarrow> None)
      else case parse_u64 s of
             Inr n \<Rightarrow> if n < 2 ^ (w - 1) then Some (int n) else None | Inl _ \<Rightarrow> None)"

text \<open>\<open>Value::get\<close>, \<open>as_str\<close>, \<open>as_u64\<close>, \<open>as_i64\<close>, \<open>as_array\<close> of \<open>serde_json\<close>; a number is its text.\<close>

definition jget :: "json \<Rightarrow> string \<Rightarrow> json option" where
  "jget v key = (case v of JObject entries \<Rightarrow> map_of entries key | _ \<Rightarrow> None)"

definition j_str :: "json \<Rightarrow> string option" where
  "j_str v = (case v of JString s \<Rightarrow> Some s | _ \<Rightarrow> None)"

definition j_u64 :: "json \<Rightarrow> nat option" where
  "j_u64 v = (case v of JNumber t \<Rightarrow> (case parse_u64 t of Inr n \<Rightarrow> Some n | Inl _ \<Rightarrow> None) | _ \<Rightarrow> None)"

definition j_i64 :: "json \<Rightarrow> int option" where
  "j_i64 v = (case v of JNumber t \<Rightarrow> parse_signed 64 t | _ \<Rightarrow> None)"

definition j_array :: "json \<Rightarrow> json list option" where
  "j_array v = (case v of JArray xs \<Rightarrow> Some xs | _ \<Rightarrow> None)"

definition jfield :: "(json \<Rightarrow> 'a option) \<Rightarrow> json \<Rightarrow> string \<Rightarrow> 'a option" where
  "jfield f v key = Option.bind (jget v key) f"

definition needed :: "json \<Rightarrow> string \<Rightarrow> ssh_error + string" where
  "needed v key = (case jfield j_str v key of Some s \<Rightarrow> Ok s | None \<Rightarrow> Err (SshParse (''missing '' @ key)))"

text \<open>\<open>as u32\<close> and \<open>as i32\<close> keep the low 32 bits.\<close>

definition parse_status_from_json :: "json \<Rightarrow> ssh_error + session_status" where
  "parse_status_from_json v =
     (case needed v ''session_id'' of Inl e \<Rightarrow> Err e | Inr sid \<Rightarrow>
      case needed v ''controller_id'' of Inl e \<Rightarrow> Err e | Inr cid \<Rightarrow>
      case needed v ''state'' of Inl e \<Rightarrow> Err e | Inr st \<Rightarrow>
      Ok \<lparr>ssn_session_id = sid, ssn_controller_id = cid, ssn_state = st,
          ssn_pid = map_option of_nat (jfield j_u64 v ''pid''),
          ssn_exit_code = map_option (\<lambda>i. sint (word_of_int i :: u32)) (jfield j_i64 v ''exit_code''),
          ssn_total_bytes = case_option 0 id (jfield j_u64 v ''total_bytes''),
          ssn_last_output = jfield j_i64 v ''last_output_at_epoch''\<rparr>)"

definition parse_create_result_from_json :: "json \<Rightarrow> ssh_error + session_created" where
  "parse_create_result_from_json v =
     (case needed v ''session_id'' of Inl e \<Rightarrow> Err e | Inr sid \<Rightarrow>
      case needed v ''controller_id'' of Inl e \<Rightarrow> Err e | Inr cid \<Rightarrow>
      case needed v ''state'' of Inl e \<Rightarrow> Err e | Inr st \<Rightarrow>
      Ok \<lparr>sc_session_id = sid, sc_controller_id = cid, sc_state = st,
          sc_pid = map_option of_nat (jfield j_u64 v ''pid''), sc_log_path = jfield j_str v ''log_path''\<rparr>)"

section \<open>Sessions\<close>

text \<open>A call through the pool; \<open>None\<close> when no client is there or the call failed.\<close>

definition pooled ::
  "'r helper_env \<Rightarrow> ssh_profile \<Rightarrow> string \<Rightarrow> json \<Rightarrow> 'r \<Rightarrow> json option \<times> 'r" where
  "pooled env p m params r =
     (case rh_connect env (sp_id p) r of
        (False, r') \<Rightarrow> (None, r')
      | (True, r') \<Rightarrow> (case rh_call env (sp_id p) m params r' of
            (Inr v, r'') \<Rightarrow> (Some v, r'') | (Inl _, r'') \<Rightarrow> (None, r'')))"

definition helper_command :: "string \<Rightarrow> string" where
  "helper_command rest = ''exec '' @ REMOTE_HELPER_REMOTE_PATH @ '' session '' @ rest"

definition remote_session_status_via_ssh ::
  "'r helper_env \<Rightarrow> ssh_profile \<Rightarrow> string \<Rightarrow> ('r, session_status) remote" where
  "remote_session_status_via_ssh env p session_id =
     rthen (run_ssh env p (helper_command (''status --session-id '' @ shell_escape_arg session_id @ '' --json'')) None)
       (\<lambda>out. let m = parse_kv_output out in
          rlift (case required_value m ''session_id'' of Inl e \<Rightarrow> Err e | Inr sid \<Rightarrow>
                 case required_value m ''controller_id'' of Inl e \<Rightarrow> Err e | Inr cid \<Rightarrow>
                 case required_value m ''state'' of Inl e \<Rightarrow> Err e | Inr st \<Rightarrow>
                 Ok \<lparr>ssn_session_id = sid, ssn_controller_id = cid, ssn_state = st,
                     ssn_pid = Option.bind (optional_value m ''pid'') parse_u32,
                     ssn_exit_code = Option.bind (optional_value m ''exit_code'') (parse_signed 32),
                     ssn_total_bytes = (case optional_value m ''total_bytes'' of None \<Rightarrow> 0
                        | Some t \<Rightarrow> (case parse_u64 t of Inr n \<Rightarrow> n | Inl _ \<Rightarrow> 0)),
                     ssn_last_output = Option.bind (optional_value m ''last_output_at'') (parse_signed 64)\<rparr>))"

definition remote_session_status ::
  "'r helper_env \<Rightarrow> ssh_profile \<Rightarrow> string \<Rightarrow> ('r, session_status) remote" where
  "remote_session_status env p session_id r =
     (case pooled env p ''session.status'' (JObject [(''session_id'', JString session_id)]) r of
        (Some v, r') \<Rightarrow> (parse_status_from_json v, r')
      | (None, r') \<Rightarrow> remote_session_status_via_ssh env p session_id r')"

definition signal_remote_session ::
  "'r helper_env \<Rightarrow> ssh_profile \<Rightarrow> string \<Rightarrow> string \<Rightarrow> ('r, unit) remote" where
  "signal_remote_session env p session_id signal r =
     (case pooled env p ''session.signal''
             (JObject [(''session_id'', JString session_id), (''signal'', JString signal)]) r of
        (Some _, r') \<Rightarrow> (Ok (), r')
      | (None, r') \<Rightarrow>
          rthen (run_ssh env p (helper_command (''signal --session-id '' @ shell_escape_arg session_id
                   @ '' --signal '' @ shell_escape_arg signal @ '' --json'')) None) (\<lambda>_. rgive ()) r')"

definition terminate_remote_session ::
  "'r helper_env \<Rightarrow> ssh_profile \<Rightarrow> string \<Rightarrow> ('r, unit) remote" where
  "terminate_remote_session env p session_id r =
     (case pooled env p ''session.terminate'' (JObject [(''session_id'', JString session_id)]) r of
        (Some _, r') \<Rightarrow> (Ok (), r')
      | (None, r') \<Rightarrow>
          rthen (run_ssh env p (helper_command (''terminate --session-id '' @ shell_escape_arg session_id
                   @ '' --json'')) None) (\<lambda>_. rgive ()) r')"

fun collect_ok :: "(ssh_error + 'a) list \<Rightarrow> ssh_error + 'a list" where
  "collect_ok [] = Ok []"
| "collect_ok (x # xs) =
     (case x of Inl e \<Rightarrow> Err e | Inr y \<Rightarrow> (case collect_ok xs of Inl e \<Rightarrow> Err e | Inr ys \<Rightarrow> Ok (y # ys)))"

definition list_remote_sessions :: "'r helper_env \<Rightarrow> ssh_profile \<Rightarrow> ('r, session_status list) remote" where
  "list_remote_sessions env p r =
     (case rh_connect env (sp_id p) r of
        (False, r') \<Rightarrow>
          (Err (SshCommand ''RPC not available; session.list requires the serve mode control socket''), r')
      | (True, r') \<Rightarrow>
          rthen (rh_call env (sp_id p) ''session.list'' (JObject []))
            (\<lambda>v. case jfield j_array v ''sessions'' of
                None \<Rightarrow> rlift (Err (SshParse ''missing sessions array''))
              | Some xs \<Rightarrow> rlift (collect_ok (map parse_status_from_json xs))) r')"

definition start_remote_serve_mode :: "'r helper_env \<Rightarrow> ssh_profile \<Rightarrow> ('r, unit) remote" where
  "start_remote_serve_mode env p r =
     (case pooled env p ''health'' (JObject []) r of
        (Some _, r') \<Rightarrow> (Ok (), r')
      | (None, r') \<Rightarrow>
          rthen (run_ssh env p (''nohup '' @ REMOTE_HELPER_REMOTE_PATH @ '' serve >/dev/null 2>&1 &'') None)
            (\<lambda>_. rgive ()) r')"

definition read_remote_scrollback_tail ::
  "'r helper_env \<Rightarrow> ssh_profile \<Rightarrow> string \<Rightarrow> nat \<Rightarrow> ('r, string) remote" where
  "read_remote_scrollback_tail env p session_id limit =
     run_ssh env p (helper_command (''tail --session-id '' @ shell_escape_arg session_id @ '' --limit '' @ nat_str limit))
       None"

definition read_remote_file :: "'r helper_env \<Rightarrow> ssh_profile \<Rightarrow> string \<Rightarrow> nat option \<Rightarrow> ('r, string) remote" where
  "read_remote_file env p path limit =
     (let limit_arg = (case limit of None \<Rightarrow> [] | Some l \<Rightarrow> '' | head -c '' @ nat_str l) in
      run_ssh env p (''cat -- '' @ shell_escape_arg path @ '' '' @ limit_arg) None)"

definition dir_entry :: "string \<Rightarrow> string \<times> bool" where
  "dir_entry line =
     (if ends_with line ''/'' then (rev (dropWhile (\<lambda>c. c = CHR ''/'') (rev line)), True) else (line, False))"

definition list_remote_directory ::
  "'r helper_env \<Rightarrow> ssh_profile \<Rightarrow> string \<Rightarrow> ('r, (string \<times> bool) list) remote" where
  "list_remote_directory env p path =
     rthen (run_ssh env p (''ls -1pa -- '' @ shell_escape_arg path) None)
       (\<lambda>out. rgive (map dir_entry (filter (\<lambda>line. line \<noteq> []) (str_lines out))))"

section \<open>Platform and plan\<close>

definition parse_remote_helper_platform :: "string \<Rightarrow> ssh_error + helper_platform" where
  "parse_remote_helper_platform output =
     (case split_whitespace output of
        [] \<Rightarrow> Err (SshParse ''missing remote platform os'')
      | [os] \<Rightarrow> Err (SshParse ''missing remote platform arch'')
      | os # arch # _ \<Rightarrow>
          let o1 = to_ascii_lowercase os; a1 = to_ascii_lowercase arch in
          Ok \<lparr>pf_os = os, pf_arch = arch, pf_target_triple =
             (if o1 = ''linux'' \<and> a1 \<in> {''x86_64'', ''amd64''} then ''x86_64-unknown-linux-musl''
              else if o1 = ''linux'' \<and> a1 \<in> {''aarch64'', ''arm64''} then ''aarch64-unknown-linux-musl''
              else if o1 = ''darwin'' \<and> a1 \<in> {''x86_64'', ''amd64''} then ''x86_64-apple-darwin''
              else if o1 = ''darwin'' \<and> a1 \<in> {''aarch64'', ''arm64''} then ''aarch64-apple-darwin''
              else a1 @ ''-'' @ o1)\<rparr>)"

definition probe_remote_helper_platform :: "'r helper_env \<Rightarrow> ssh_profile \<Rightarrow> ('r, helper_platform) remote" where
  "probe_remote_helper_platform env p =
     rthen (run_ssh env p ''uname -sm'' None) (\<lambda>out. rlift (parse_remote_helper_platform out))"

definition artifact_env_suffix :: "string \<Rightarrow> string" where
  "artifact_env_suffix triple =
     concat (map (\<lambda>ch. case ch of [c] \<Rightarrow> if is_ascii_alphanumeric c then [ascii_upper_char c] else ''_''
                       | _ \<Rightarrow> ''_'') (utf8_chars triple))"

definition supported_target_matrix :: string where
  "supported_target_matrix = str_join '', '' SUPPORTED_TARGETS"

definition resolve_remote_helper_manifest_root ::
  "'r helper_env \<Rightarrow> string \<Rightarrow> helper_platform \<Rightarrow> artifact_source \<Rightarrow> bool \<Rightarrow> ssh_error + helper_artifact option" where
  "resolve_remote_helper_manifest_root env root pf source require_manifest =
     (let manifest_path = path_join root ''manifest.json'' in
      if \<not> rh_exists env manifest_path then
        (if require_manifest
         then Err (MissingRemoteHelperArtifact (''remote helper manifest not found at '' @ manifest_path
                     @ '' for '' @ pf_target_triple pf))
         else Ok None)
      else case rh_read env manifest_path of Inl e \<Rightarrow> Err e | Inr bytes \<Rightarrow>
      (case rh_parse_manifest env bytes of
         Inl e \<Rightarrow> Err (SshParse (''failed to parse remote helper manifest '' @ manifest_path @ '': '' @ e))
       | Inr manifest \<Rightarrow>
          if am_schema_version manifest \<noteq> 1
          then Err (SshParse (''unsupported remote helper manifest schema '' @ nat_str (unat (am_schema_version manifest))
                      @ '' at '' @ manifest_path))
          else if am_package_version manifest \<noteq> rh_pkg_version env
          then Err (RemoteHelperVersionMismatch (''manifest '' @ manifest_path @ '' targets package version ''
                      @ am_package_version manifest @ '', expected '' @ rh_pkg_version env))
          else if am_protocol_version manifest \<noteq> REMOTE_HELPER_PROTOCOL_VERSION
          then Err (RemoteHelperProtocolMismatch (''manifest '' @ manifest_path @ '' declares protocol ''
                      @ am_protocol_version manifest @ '', expected '' @ REMOTE_HELPER_PROTOCOL_VERSION))
          else case find (\<lambda>e. mf_target_triple e = pf_target_triple pf) (am_artifacts manifest) of
            None \<Rightarrow> Err (MissingRemoteHelperArtifact (''remote helper manifest '' @ manifest_path
                      @ '' does not contain an artifact for '' @ pf_target_triple pf))
          | Some entry \<Rightarrow>
              let artifact_path = path_join root (mf_relative_path entry) in
              if \<not> rh_exists env artifact_path
              then Err (MissingRemoteHelperArtifact (''remote helper artifact '' @ artifact_path
                      @ '' referenced by '' @ manifest_path @ '' is missing''))
              else Ok (Some \<lparr>ha_path = artifact_path, ha_target_triple = mf_target_triple entry,
                     ha_source = source, ha_sha256 = mf_sha256 entry, ha_size = mf_size entry,
                     ha_protocol_version = am_protocol_version manifest,
                     ha_package_version = am_package_version manifest\<rparr>)))"

text \<open>\<open>Path::parent\<close> drops the last component; the root and the empty path have none.\<close>

definition path_parent :: "string \<Rightarrow> string option" where
  "path_parent path =
     (let cs = path_components path in
      if cs = [] \<or> cs = [''/''] then None
      else if hd cs = ''/'' then Some (''/'' @ str_join ''/'' (tl (butlast cs)))
      else Some (str_join ''/'' (butlast cs)))"

definition bundle_artifact_root_from_current_exe :: "string \<Rightarrow> string option" where
  "bundle_artifact_root_from_current_exe exe =
     Option.bind (path_parent exe) (\<lambda>macos_dir.
       map_option (\<lambda>contents_dir. path_join (path_join contents_dir ''Resources'') ''remote-helper'')
         (path_parent macos_dir))"

definition repo_artifact_root :: "'r helper_env \<Rightarrow> string" where
  "repo_artifact_root env = path_join (rh_manifest_dir env) ''../../artifacts/remote-helper''"

definition resolve_remote_helper_artifact_for_platform ::
  "'r helper_env \<Rightarrow> helper_platform \<Rightarrow> ssh_error + helper_artifact option" where
  "resolve_remote_helper_artifact_for_platform env pf =
     (case rh_var env (''PNEVMA_REMOTE_HELPER_ARTIFACT_'' @ artifact_env_suffix (pf_target_triple pf)) of
        Some path \<Rightarrow>
          if \<not> rh_exists env path
          then Err (SshNotFound (''remote helper artifact override not found for '' @ pf_target_triple pf
                      @ '': '' @ path))
          else (case rh_file_len env path of Inl e \<Rightarrow> Err e | Inr len \<Rightarrow>
                case rh_read env path of Inl e \<Rightarrow> Err e | Inr bytes \<Rightarrow>
                Ok (Some \<lparr>ha_path = path, ha_target_triple = pf_target_triple pf, ha_source = EnvOverride,
                          ha_sha256 = rh_sha256_hex env bytes, ha_size = len,
                          ha_protocol_version = REMOTE_HELPER_PROTOCOL_VERSION,
                          ha_package_version = rh_pkg_version env\<rparr>))
      | None \<Rightarrow>
        case rh_var env ''PNEVMA_REMOTE_HELPER_ARTIFACT_DIR'' of
        Some dir \<Rightarrow> resolve_remote_helper_manifest_root env dir pf ArtifactDir True
      | None \<Rightarrow>
        case rh_var env ''PNEVMA_REMOTE_HELPER_BUNDLE_DIR'' of
        Some dir \<Rightarrow> resolve_remote_helper_manifest_root env dir pf BundleDir True
      | None \<Rightarrow>
        case (case Option.bind (rh_current_exe env) bundle_artifact_root_from_current_exe of
                None \<Rightarrow> Ok None
              | Some root \<Rightarrow> resolve_remote_helper_manifest_root env root pf BundleRelative False) of
          Inl e \<Rightarrow> Err e
        | Inr (Some artifact) \<Rightarrow> Ok (Some artifact)
        | Inr None \<Rightarrow> resolve_remote_helper_manifest_root env (repo_artifact_root env) pf RepoArtifacts False)"

definition allow_shell_compat_fallback :: "'r helper_env \<Rightarrow> bool" where
  "allow_shell_compat_fallback env = (rh_var env ''PNEVMA_REMOTE_HELPER_ALLOW_SHELL_COMPAT'' = Some ''1'')"

definition resolve_remote_helper_install_plan ::
  "'r helper_env \<Rightarrow> helper_platform \<Rightarrow> ssh_error + install_plan" where
  "resolve_remote_helper_install_plan env pf =
     (if pf_target_triple pf \<in> set SUPPORTED_TARGETS then
        (case resolve_remote_helper_artifact_for_platform env pf of
           Inl e \<Rightarrow> Err e
         | Inr (Some artifact) \<Rightarrow> Ok (Artifact artifact)
         | Inr None \<Rightarrow>
             if allow_shell_compat_fallback env then Ok (ShellCompat (pf_target_triple pf))
             else Err (MissingRemoteHelperArtifact (''no packaged remote helper artifact available for ''
                    @ pf_target_triple pf @ '' (supported targets: '' @ supported_target_matrix @ '')'')))
      else if allow_shell_compat_fallback env then Ok (ShellCompat (pf_target_triple pf))
      else Err (UnsupportedRemoteHelperPlatform (pf_os pf @ '' / '' @ pf_arch pf @ '' -> '' @ pf_target_triple pf
             @ '' (supported targets: '' @ supported_target_matrix
             @ ''; set PNEVMA_REMOTE_HELPER_ALLOW_SHELL_COMPAT=1 for compatibility mode)'')))"

section \<open>Installation\<close>

definition expected_remote_helper_version :: "'r helper_env \<Rightarrow> string" where
  "expected_remote_helper_version env = ''pnevma-remote-helper/'' @ rh_pkg_version env"

definition helper_satisfies_install_plan :: "helper_health \<Rightarrow> install_plan \<Rightarrow> string \<Rightarrow> bool" where
  "helper_satisfies_install_plan h plan expected_version =
     (if \<not> hh_protocol_compatible h \<or> \<not> hh_healthy h \<or> hh_missing_dependencies h \<noteq> [] then False
      else case plan of
        Artifact a \<Rightarrow> hh_helper_kind h = ''binary'' \<and> hh_version h = expected_version
          \<and> hh_target_triple h = Some (ha_target_triple a)
          \<and> hh_artifact_source h = Some (artifact_source_str (ha_source a))
          \<and> hh_artifact_sha256 h = Some (ha_sha256 a)
      | ShellCompat _ \<Rightarrow> hh_helper_kind h = ''shell_compat'')"

definition or_set :: "'a option \<Rightarrow> 'a \<Rightarrow> 'a option" where
  "or_set v d = (case v of None \<Rightarrow> Some d | Some x \<Rightarrow> Some x)"

definition enrich_health_from_install_plan :: "'r helper_env \<Rightarrow> install_plan \<Rightarrow> helper_health \<Rightarrow> helper_health" where
  "enrich_health_from_install_plan env plan h =
     (case plan of
        Artifact a \<Rightarrow> h\<lparr>hh_target_triple := or_set (hh_target_triple h) (ha_target_triple a),
           hh_artifact_source := or_set (hh_artifact_source h) (artifact_source_str (ha_source a)),
           hh_artifact_sha256 := or_set (hh_artifact_sha256 h) (ha_sha256 a)\<rparr>
      | ShellCompat triple \<Rightarrow> h\<lparr>hh_target_triple := or_set (hh_target_triple h) triple,
           hh_artifact_source := or_set (hh_artifact_source h) (artifact_source_str ShellCompatSource),
           hh_artifact_sha256 := or_set (hh_artifact_sha256 h) (rh_sha256_hex env (rh_script env))\<rparr>)"

definition shown_opt :: "string option \<Rightarrow> string" where
  "shown_opt v = case_option ''<unknown>'' id v"

definition validate_remote_helper_health ::
  "'r helper_env \<Rightarrow> helper_health \<Rightarrow> install_plan \<Rightarrow> ssh_error + unit" where
  "validate_remote_helper_health env h plan =
     (if \<not> hh_protocol_compatible h
      then Err (RemoteHelperProtocolMismatch (''expected protocol '' @ REMOTE_HELPER_PROTOCOL_VERSION
                  @ '', got '' @ hh_protocol_version h))
      else if hh_missing_dependencies h \<noteq> []
      then Err (RemoteHelperDependency (''missing remote helper dependencies: ''
                  @ str_join '', '' (hh_missing_dependencies h)))
      else if \<not> hh_healthy h then Err (SshCommand ''remote helper health check returned unhealthy'')
      else case plan of
        Artifact a \<Rightarrow>
          if hh_helper_kind h \<noteq> ''binary''
          then Err (SshCommand (''expected packaged binary helper for '' @ ha_target_triple a @ '', got ''
                      @ hh_helper_kind h))
          else if hh_version h \<noteq> expected_remote_helper_version env
          then Err (RemoteHelperVersionMismatch (''expected remote helper version ''
                      @ expected_remote_helper_version env @ '', got '' @ hh_version h))
          else if hh_target_triple h \<noteq> Some (ha_target_triple a)
          then Err (SshCommand (''expected remote helper target '' @ ha_target_triple a @ '', got ''
                      @ shown_opt (hh_target_triple h)))
          else if hh_artifact_source h \<noteq> Some (artifact_source_str (ha_source a))
          then Err (SshCommand (''expected remote helper artifact source '' @ artifact_source_str (ha_source a)
                      @ '', got '' @ shown_opt (hh_artifact_source h)))
          else if hh_artifact_sha256 h \<noteq> Some (ha_sha256 a)
          then Err (RemoteHelperDigestMismatch (''expected remote helper sha256 '' @ ha_sha256 a @ '', got ''
                      @ shown_opt (hh_artifact_sha256 h)))
          else Ok ()
      | ShellCompat triple \<Rightarrow>
          if hh_helper_kind h \<noteq> ''shell_compat''
          then Err (SshCommand (''expected shell compatibility helper for '' @ triple @ '', got ''
                      @ hh_helper_kind h))
          else Ok ())"

definition validate_artifact_bytes :: "'r helper_env \<Rightarrow> helper_artifact \<Rightarrow> string \<Rightarrow> ssh_error + unit" where
  "validate_artifact_bytes env a bytes =
     (if rh_sha256_hex env bytes \<noteq> ha_sha256 a
      then Err (RemoteHelperDigestMismatch (ha_path a @ '' expected sha256 '' @ ha_sha256 a @ '', got ''
                  @ rh_sha256_hex env bytes))
      else if length bytes \<noteq> ha_size a
      then Err (RemoteHelperDigestMismatch (ha_path a @ '' expected size '' @ nat_str (ha_size a) @ '', got ''
                  @ nat_str (length bytes)))
      else if ha_protocol_version a \<noteq> REMOTE_HELPER_PROTOCOL_VERSION
      then Err (RemoteHelperProtocolMismatch (''artifact '' @ ha_path a @ '' declares protocol ''
                  @ ha_protocol_version a @ '', expected '' @ REMOTE_HELPER_PROTOCOL_VERSION))
      else if ha_package_version a \<noteq> rh_pkg_version env
      then Err (RemoteHelperVersionMismatch (''artifact '' @ ha_path a @ '' targets package version ''
                  @ ha_package_version a @ '', expected '' @ rh_pkg_version env))
      else Ok ())"

definition dq :: "string \<Rightarrow> string" where
  "dq s = [CHR 0x22] @ s @ [CHR 0x22]"

text \<open>The mode is printed in octal: \<open>700\<close> for the helper, \<open>600\<close> for its metadata.\<close>

definition remote_install_command :: "string \<Rightarrow> string \<Rightarrow> string" where
  "remote_install_command remote_path mode =
     ''umask 077; mkdir -p '' @ dq REMOTE_HELPER_REMOTE_DIR @ ''; dest='' @ dq remote_path
     @ ''; tmp='' @ dq ''${dest}.tmp.$$'' @ ''; rm -f '' @ dq ''$tmp'' @ ''; cat > '' @ dq ''$tmp''
     @ ''; chmod '' @ mode @ '' '' @ dq ''$tmp'' @ ''; mv -f '' @ dq ''$tmp'' @ '' '' @ dq ''$dest''"

definition metadata_body :: "install_metadata \<Rightarrow> string" where
  "metadata_body m = ''target_triple='' @ im_target_triple m @ [CHR 0x0A] @ ''artifact_source=''
     @ im_artifact_source m @ [CHR 0x0A] @ ''artifact_sha256='' @ im_artifact_sha256 m @ [CHR 0x0A]"

definition install_remote_helper_metadata ::
  "'r helper_env \<Rightarrow> ssh_profile \<Rightarrow> install_metadata \<Rightarrow> ('r, unit) remote" where
  "install_remote_helper_metadata env p m =
     rthen (run_ssh env p (remote_install_command REMOTE_HELPER_METADATA_REMOTE_PATH ''600'') (Some (metadata_body m)))
       (\<lambda>_. rgive ())"

definition install_remote_helper :: "'r helper_env \<Rightarrow> ssh_profile \<Rightarrow> install_plan \<Rightarrow> ('r, install_kind) remote" where
  "install_remote_helper env p plan =
     (case plan of
        Artifact a \<Rightarrow>
          rthen (rlift (rh_read env (ha_path a))) (\<lambda>bytes.
          rthen (rlift (validate_artifact_bytes env a bytes)) (\<lambda>_.
          rthen (run_ssh env p (remote_install_command REMOTE_HELPER_REMOTE_PATH ''700'') (Some bytes)) (\<lambda>_.
          rthen (install_remote_helper_metadata env p
                   \<lparr>im_target_triple = ha_target_triple a,
                    im_artifact_source = artifact_source_str (ha_source a),
                    im_artifact_sha256 = ha_sha256 a\<rparr>) (\<lambda>_. rgive BinaryArtifact))))
      | ShellCompat triple \<Rightarrow>
          rthen (run_ssh env p (remote_install_command REMOTE_HELPER_REMOTE_PATH ''700'') (Some (rh_script env))) (\<lambda>_.
          rthen (install_remote_helper_metadata env p
                   \<lparr>im_target_triple = triple, im_artifact_source = artifact_source_str ShellCompatSource,
                    im_artifact_sha256 = rh_sha256_hex env (rh_script env)\<rparr>) (\<lambda>_. rgive ShellCompatKind)))"

definition eq_ignore_case :: "string \<Rightarrow> string \<Rightarrow> bool" where
  "eq_ignore_case a b = (to_ascii_lowercase a = to_ascii_lowercase b)"

definition health_of :: "helper_platform \<Rightarrow> (string \<Rightarrow> string option) \<Rightarrow> ssh_error + helper_health" where
  "health_of pf m =
     (let protocol_version = case_option REMOTE_HELPER_PROTOCOL_VERSION id (m ''protocol_version'');
          missing = (case optional_value m ''missing_dependencies'' of None \<Rightarrow> []
             | Some v \<Rightarrow> filter (\<lambda>e. e \<noteq> []) (map str_trim (split_on CHR '','' v)));
          healthy = eq_ignore_case (case_option ''true'' id (m ''healthy'')) ''true''
      in case required_value m ''version'' of Inl e \<Rightarrow> Err e | Inr version \<Rightarrow>
         case required_value m ''helper_path'' of Inl e \<Rightarrow> Err e | Inr helper_path \<Rightarrow>
         case required_value m ''state_root'' of Inl e \<Rightarrow> Err e | Inr state_root \<Rightarrow>
         case required_value m ''controller_id'' of Inl e \<Rightarrow> Err e | Inr controller_id \<Rightarrow>
         Ok \<lparr>hh_version = version, hh_protocol_version = protocol_version,
             hh_helper_kind = case_option ''shell_compat'' id (m ''helper_kind''),
             hh_helper_path = helper_path, hh_state_root = state_root, hh_controller_id = controller_id,
             hh_healthy = healthy,
             hh_target_triple = or_set (optional_value m ''target_triple'') (pf_target_triple pf),
             hh_artifact_source = optional_value m ''artifact_source'',
             hh_artifact_sha256 = optional_value m ''artifact_sha256'',
             hh_protocol_compatible = (protocol_version = REMOTE_HELPER_PROTOCOL_VERSION),
             hh_missing_dependencies = missing\<rparr>)"

definition remote_helper_health_for_platform ::
  "'r helper_env \<Rightarrow> ssh_profile \<Rightarrow> helper_platform \<Rightarrow> ('r, helper_health) remote" where
  "remote_helper_health_for_platform env p pf =
     rthen (run_ssh env p (''exec '' @ REMOTE_HELPER_REMOTE_PATH @ '' health'') None)
       (\<lambda>out. rlift (health_of pf (parse_kv_output out)))"

definition remote_helper_health :: "'r helper_env \<Rightarrow> ssh_profile \<Rightarrow> ('r, helper_health) remote" where
  "remote_helper_health env p =
     rthen (probe_remote_helper_platform env p) (remote_helper_health_for_platform env p)"

definition reinstall :: "'r helper_env \<Rightarrow> ssh_profile \<Rightarrow> helper_platform \<Rightarrow> install_plan \<Rightarrow> ('r, ensure_result) remote" where
  "reinstall env p pf plan =
     rthen (install_remote_helper env p plan) (\<lambda>kind.
     rthen (remote_helper_health_for_platform env p pf) (\<lambda>h.
       let h = enrich_health_from_install_plan env plan h in
       rthen (rlift (validate_remote_helper_health env h plan)) (\<lambda>_.
         rgive \<lparr>er_health = h, er_installed = True, er_install_kind = kind\<rparr>)))"

definition ensure_remote_helper :: "'r helper_env \<Rightarrow> ssh_profile \<Rightarrow> ('r, ensure_result) remote" where
  "ensure_remote_helper env p =
     rthen (probe_remote_helper_platform env p) (\<lambda>pf.
     rthen (rlift (resolve_remote_helper_install_plan env pf)) (\<lambda>plan r.
       case remote_helper_health_for_platform env p pf r of
         (Inr h, r') \<Rightarrow>
           if helper_satisfies_install_plan h plan (expected_remote_helper_version env)
           then (Ok \<lparr>er_health = h, er_installed = False, er_install_kind = Existing\<rparr>, r')
           else reinstall env p pf plan r'
       | (Inl _, r') \<Rightarrow> reinstall env p pf plan r'))"

definition create_remote_session_via_ssh ::
  "'r helper_env \<Rightarrow> ssh_profile \<Rightarrow> string \<Rightarrow> string \<Rightarrow> string option \<Rightarrow> ('r, session_created) remote" where
  "create_remote_session_via_ssh env p session_id cwd cmd =
     rthen (ensure_remote_helper env p) (\<lambda>_.
       let command_clause = (case cmd of None \<Rightarrow> []
             | Some v \<Rightarrow> if str_trim v = [] then [] else '' --command '' @ shell_escape_arg (str_trim v)) in
       rthen (run_ssh_with_tty env p (helper_command (''create --session-id '' @ shell_escape_arg session_id
                @ '' --cwd '' @ shell_escape_arg cwd @ command_clause @ '' --json'')) None True)
         (\<lambda>out. let m = parse_kv_output out in
            rlift (case required_value m ''session_id'' of Inl e \<Rightarrow> Err e | Inr sid \<Rightarrow>
                   case required_value m ''controller_id'' of Inl e \<Rightarrow> Err e | Inr cid \<Rightarrow>
                   case required_value m ''state'' of Inl e \<Rightarrow> Err e | Inr st \<Rightarrow>
                   Ok \<lparr>sc_session_id = sid, sc_controller_id = cid, sc_state = st,
                       sc_pid = Option.bind (optional_value m ''pid'') parse_u32,
                       sc_log_path = optional_value m ''log_path''\<rparr>)))"

definition create_remote_session ::
  "'r helper_env \<Rightarrow> ssh_profile \<Rightarrow> string \<Rightarrow> string \<Rightarrow> string option \<Rightarrow> ('r, session_created) remote" where
  "create_remote_session env p session_id cwd cmd r =
     (case pooled env p ''session.create'' (JObject [(''session_id'', JString session_id), (''cwd'', JString cwd),
              (''command'', case_option JNull JString cmd)]) r of
        (Some v, r') \<Rightarrow> (parse_create_result_from_json v, r')
      | (None, r') \<Rightarrow> create_remote_session_via_ssh env p session_id cwd cmd r')"

section \<open>What is installed and accepted\<close>

text \<open>What a plan asks of a helper.\<close>

definition conforms :: "'r helper_env \<Rightarrow> install_plan \<Rightarrow> helper_health \<Rightarrow> bool" where
  "conforms env plan h \<longleftrightarrow> hh_protocol_version h = REMOTE_HELPER_PROTOCOL_VERSION \<and> hh_healthy h
     \<and> hh_missing_dependencies h = []
     \<and> (case plan of
          Artifact a \<Rightarrow> hh_helper_kind h = ''binary'' \<and> hh_version h = expected_remote_helper_version env
            \<and> hh_target_triple h = Some (ha_target_triple a) \<and> hh_artifact_sha256 h = Some (ha_sha256 a)
        | ShellCompat _ \<Rightarrow> hh_helper_kind h = ''shell_compat'')"

lemma health_compatible:
  assumes "health_of pf m = Ok h"
  shows "hh_protocol_compatible h \<longleftrightarrow> hh_protocol_version h = REMOTE_HELPER_PROTOCOL_VERSION"
  using assms by (auto simp: health_of_def Let_def split: sum.splits)

lemma satisfied_conforms:
  assumes "helper_satisfies_install_plan h plan (expected_remote_helper_version env)"
    and "hh_protocol_compatible h \<longleftrightarrow> hh_protocol_version h = REMOTE_HELPER_PROTOCOL_VERSION"
  shows "conforms env plan h"
  using assms by (auto simp: helper_satisfies_install_plan_def conforms_def split: if_splits install_plan.splits)

lemma validated_conforms:
  assumes "validate_remote_helper_health env h plan = Ok ()"
    and "hh_protocol_compatible h \<longleftrightarrow> hh_protocol_version h = REMOTE_HELPER_PROTOCOL_VERSION"
  shows "conforms env plan h"
  using assms by (auto simp: validate_remote_helper_health_def conforms_def split: if_splits install_plan.splits)

lemma enrich_compatible [simp]:
  "hh_protocol_compatible (enrich_health_from_install_plan env plan h) = hh_protocol_compatible h"
  "hh_protocol_version (enrich_health_from_install_plan env plan h) = hh_protocol_version h"
  by (simp_all add: enrich_health_from_install_plan_def split: install_plan.split)

lemma install_validates:
  assumes "install_remote_helper env p (Artifact a) r = (Ok k, r')"
  shows "\<exists>bytes. rh_read env (ha_path a) = Ok bytes \<and> rh_sha256_hex env bytes = ha_sha256 a
           \<and> length bytes = ha_size a \<and> k = BinaryArtifact"
  using assms
  by (auto simp: install_remote_helper_def rthen_Ok validate_artifact_bytes_def split: if_splits)

lemma health_for_platform_compatible:
  assumes "remote_helper_health_for_platform env p pf r = (Ok h, r')"
  shows "hh_protocol_compatible h \<longleftrightarrow> hh_protocol_version h = REMOTE_HELPER_PROTOCOL_VERSION"
  using assms health_compatible by (auto simp: remote_helper_health_for_platform_def rthen_Ok)

lemma reinstalled_conforms:
  assumes "reinstall env p pf plan r = (Ok e, r')"
  shows "conforms env plan (er_health e)" "er_installed e"
    "plan = Artifact a \<Longrightarrow> \<exists>bytes. rh_read env (ha_path a) = Ok bytes \<and> rh_sha256_hex env bytes = ha_sha256 a"
proof -
  from assms obtain k r1 h r2 where
    i: "install_remote_helper env p plan r = (Ok k, r1)"
    and h: "remote_helper_health_for_platform env p pf r1 = (Ok h, r2)"
    and v: "validate_remote_helper_health env (enrich_health_from_install_plan env plan h) plan = Ok ()"
    and e: "e = \<lparr>er_health = enrich_health_from_install_plan env plan h, er_installed = True, er_install_kind = k\<rparr>"
    by (auto simp: reinstall_def rthen_Ok Let_def)
  show "conforms env plan (er_health e)" "er_installed e"
    using validated_conforms[OF v] health_for_platform_compatible[OF h] by (simp_all add: e)
  show "\<exists>bytes. rh_read env (ha_path a) = Ok bytes \<and> rh_sha256_hex env bytes = ha_sha256 a"
    if "plan = Artifact a"
    using install_validates[of env p a r k r1] i that by auto
qed


definition nl :: string where
  "nl = [CHR 0x0A]"

definition compat_health :: string where
  "compat_health = ''version=1'' @ nl @ ''helper_path=/h'' @ nl @ ''state_root=/s'' @ nl @ ''controller_id=c''"

definition compat_env :: "unit helper_env" where
  "compat_env = \<lparr>rh_ssh = plain_ssh_env,
     rh_run = (\<lambda>argv _ r. (RunEnded True [] (if last argv = remote_command_arg ''uname -sm'' then ''Linux x86_64''
                                          else compat_health) [], r)),
     rh_connect = (\<lambda>_ r. (False, r)), rh_call = (\<lambda>_ _ _ r. (Err (SshCommand []), r)),
     rh_var = (\<lambda>v. if v = ''PNEVMA_REMOTE_HELPER_ALLOW_SHELL_COMPAT'' then Some ''1'' else None),
     rh_exists = (\<lambda>_. False), rh_read = (\<lambda>_. Err (SshIo [])), rh_file_len = (\<lambda>_. Err (SshIo [])),
     rh_sha256_hex = (\<lambda>_. []), rh_parse_manifest = (\<lambda>_. Err []), rh_pkg_version = ''1'',
     rh_manifest_dir = ''/m'', rh_current_exe = None, rh_script = ''#!/bin/sh''\<rparr>"

lemma remote_command_inj: "remote_command_arg a = remote_command_arg b \<longleftrightarrow> a = b"
proof -
  have "sh_plain None (shell_escape_arg c) = Some [c]" for c using sh_words_args[of "[c]"] by simp
  then show ?thesis by (metis append_same_eq list.inject option.inject remote_command_arg_def same_append_eq)
qed

lemma compat_run: "run_ssh compat_env proxy_user cmd inp r
    = (Ok (if cmd = ''uname -sm'' then ''Linux x86_64'' else compat_health), r)"
proof -
  have "from_utf8_lossy ''Linux x86_64'' = ''Linux x86_64''" "from_utf8_lossy compat_health = compat_health"
    by code_simp+
  then show ?thesis
    by (cases "cmd = ''uname -sm''")
       (simp_all add: run_ssh_def run_ssh_with_tty_def ssh_args_without_binary_def proxy_user_command
          compat_env_def remote_command_inj)
qed

lemma compat_ensured: "\<exists>h. ensure_remote_helper compat_env proxy_user r
    = (Ok \<lparr>er_health = h, er_installed = False, er_install_kind = Existing\<rparr>, r)"
proof -
  define pf where "pf = \<lparr>pf_os = ''Linux'', pf_arch = ''x86_64'', pf_target_triple = ''x86_64-unknown-linux-musl''\<rparr>"
  have pf: "parse_remote_helper_platform ''Linux x86_64'' = Ok pf"
    by (simp add: pf_def) code_simp
  have plan: "resolve_remote_helper_install_plan compat_env pf = Ok (ShellCompat ''x86_64-unknown-linux-musl'')"
    by (simp add: pf_def compat_env_def resolve_remote_helper_install_plan_def SUPPORTED_TARGETS_def
        resolve_remote_helper_artifact_for_platform_def resolve_remote_helper_manifest_root_def
        allow_shell_compat_fallback_def Let_def)
  define m where "m = parse_kv_output compat_health"
  have lines: "str_lines compat_health = [''version=1'', ''helper_path=/h'', ''state_root=/s'', ''controller_id=c'']"
    by code_simp
  have trims: "str_trim ''version=1'' = ''version=1''" "str_trim ''helper_path=/h'' = ''helper_path=/h''"
    "str_trim ''state_root=/s'' = ''state_root=/s''" "str_trim ''controller_id=c'' = ''controller_id=c''"
    by (simp_all add: str_trim_graphic is_ascii_graphic_def)
  have parts: "split_once ''version=1'' ''='' = Some (''version'', ''1'')"
    "split_once ''helper_path=/h'' ''='' = Some (''helper_path'', ''/h'')"
    "split_once ''state_root=/s'' ''='' = Some (''state_root'', ''/s'')"
    "split_once ''controller_id=c'' ''='' = Some (''controller_id'', ''c'')"
    by code_simp+
  have m: "m ''version'' = Some ''1''" "m ''helper_path'' = Some ''/h''" "m ''state_root'' = Some ''/s''"
    "m ''controller_id'' = Some ''c''" "m ''protocol_version'' = None" "m ''missing_dependencies'' = None"
    "m ''healthy'' = None" "m ''helper_kind'' = None"
    unfolding m_def parse_kv_output_def lines by (simp_all add: trims parts)
  obtain h where h: "health_of pf m = Ok h" and
    sat: "hh_protocol_compatible h" "hh_healthy h" "hh_missing_dependencies h = []" "hh_helper_kind h = ''shell_compat''"
    by (simp add: health_of_def Let_def required_value_def optional_value_def m eq_ignore_case_def)
  have "remote_helper_health_for_platform compat_env proxy_user pf r = (Ok h, r)" for r
    by (simp add: remote_helper_health_for_platform_def rthen_def compat_run rlift_def h flip: m_def)
  then show ?thesis
    by (simp add: ensure_remote_helper_def probe_remote_helper_platform_def rthen_def compat_run rlift_def pf plan
        helper_satisfies_install_plan_def sat)
qed


section \<open>What is sent\<close>

text \<open>The standard inputs of an installation: nothing, the bytes of an artifact with its digest,
  the shell script, or a metadata body.\<close>

definition allowed_input :: "'r helper_env \<Rightarrow> string option \<Rightarrow> bool" where
  "allowed_input env inp \<longleftrightarrow> inp = None \<or> inp = Some (rh_script env) \<or> (\<exists>m. inp = Some (metadata_body m))
     \<or> (\<exists>(a :: helper_artifact) bytes. inp = Some bytes \<and> rh_sha256_hex env bytes = ha_sha256 a \<and> length bytes = ha_size a
          \<and> ha_package_version a = rh_pkg_version env)"

definition holds_after :: "('r \<Rightarrow> bool) \<Rightarrow> ('r, 'a) remote \<Rightarrow> bool" where
  "holds_after J f \<longleftrightarrow> (\<forall>r. J r \<longrightarrow> J (snd (f r)))"

named_theorems holds_intros "what keeps an invariant of the remote side"

lemma holds_rthen [holds_intros]:
  "holds_after J f \<Longrightarrow> (\<And>x r. fst (f r) = Ok x \<Longrightarrow> holds_after J (g x)) \<Longrightarrow> holds_after J (rthen f g)"
  unfolding holds_after_def rthen_def
  by (auto split: prod.split sum.split) (metis fst_conv snd_conv)+

lemma holds_rlift [holds_intros]: "holds_after J (rlift x)" "holds_after J (rgive y)"
  by (simp_all add: holds_after_def rlift_def rgive_def)

locale keeps_sent =
  fixes env :: "'r helper_env" and J :: "'r \<Rightarrow> bool"
  assumes run_keeps: "allowed_input env inp \<Longrightarrow> J r \<Longrightarrow> J (snd (rh_run env argv inp r))"
begin

lemma run: "allowed_input env inp \<Longrightarrow> holds_after J (run_ssh_with_tty env p cmd inp tty)"
  unfolding holds_after_def run_ssh_with_tty_def Let_def
  by (auto split: sum.split prod.split ssh_run.split) (metis run_keeps snd_conv)+

lemma run_plain: "allowed_input env inp \<Longrightarrow> holds_after J (run_ssh env p cmd inp)"
  by (simp add: run_ssh_def run)

lemma metadata: "holds_after J (install_remote_helper_metadata env p m)"
  unfolding install_remote_helper_metadata_def
  by (intro holds_intros run_plain) (auto simp: allowed_input_def)

lemma installed: "holds_after J (install_remote_helper env p plan)"
proof (cases plan)
  case (Artifact a)
  have "allowed_input env (Some bytes)" if "fst (rlift (validate_artifact_bytes env a bytes) r) = Ok u" for bytes u r
    using that by (auto simp: allowed_input_def rlift_def validate_artifact_bytes_def split: if_splits)
  then show ?thesis
    by (auto simp: install_remote_helper_def Artifact intro!: holds_intros run_plain metadata)
next
  case (ShellCompat t)
  then show ?thesis
    by (auto simp: install_remote_helper_def allowed_input_def intro!: holds_intros run_plain metadata)
qed

lemma health: "holds_after J (remote_helper_health_for_platform env p pf)"
  unfolding remote_helper_health_for_platform_def
  by (intro holds_intros run_plain) (simp add: allowed_input_def)

lemma reinstalled: "holds_after J (reinstall env p pf plan)"
  unfolding reinstall_def Let_def by (intro holds_intros installed health)

lemma ensured: "holds_after J (ensure_remote_helper env p)"
proof -
  have "holds_after J (\<lambda>r. case remote_helper_health_for_platform env p pf r of
         (Inr h, r') \<Rightarrow>
           if helper_satisfies_install_plan h plan (expected_remote_helper_version env)
           then (Ok \<lparr>er_health = h, er_installed = False, er_install_kind = Existing\<rparr>, r')
           else reinstall env p pf plan r'
       | (Inl _, r') \<Rightarrow> reinstall env p pf plan r')" for pf plan
  proof (unfold holds_after_def, intro allI impI)
    fix r assume "J r"
    then have "J (snd (remote_helper_health_for_platform env p pf r))"
      using health[of p pf] by (simp add: holds_after_def)
    then show "J (snd (case remote_helper_health_for_platform env p pf r of
         (Inr h, r') \<Rightarrow>
           if helper_satisfies_install_plan h plan (expected_remote_helper_version env)
           then (Ok \<lparr>er_health = h, er_installed = False, er_install_kind = Existing\<rparr>, r')
           else reinstall env p pf plan r'
       | (Inl _, r') \<Rightarrow> reinstall env p pf plan r'))"
      using reinstalled[of p pf plan]
      by (cases "remote_helper_health_for_platform env p pf r") (auto simp: holds_after_def split: sum.split)
  qed
  then show ?thesis
    unfolding ensure_remote_helper_def probe_remote_helper_platform_def
    by (intro holds_intros run_plain) (auto simp: allowed_input_def)
qed

end

text \<open>The model with a log of the standard inputs of every run.\<close>

definition traced :: "'r helper_env \<Rightarrow> ('r \<times> string option list) helper_env" where
  "traced env = \<lparr>rh_ssh = rh_ssh env,
     rh_run = (\<lambda>argv inp (r, log). case rh_run env argv inp r of (res, r') \<Rightarrow> (res, (r', log @ [inp]))),
     rh_connect = (\<lambda>i (r, log). case rh_connect env i r of (b, r') \<Rightarrow> (b, (r', log))),
     rh_call = (\<lambda>i m v (r, log). case rh_call env i m v r of (b, r') \<Rightarrow> (b, (r', log))),
     rh_var = rh_var env, rh_exists = rh_exists env, rh_read = rh_read env,
     rh_file_len = rh_file_len env, rh_sha256_hex = rh_sha256_hex env,
     rh_parse_manifest = rh_parse_manifest env, rh_pkg_version = rh_pkg_version env,
     rh_manifest_dir = rh_manifest_dir env, rh_current_exe = rh_current_exe env, rh_script = rh_script env\<rparr>"

definition sent_ok :: "'r helper_env \<Rightarrow> 'r \<times> string option list \<Rightarrow> bool" where
  "sent_ok env = (\<lambda>(r, log). list_all (allowed_input env) log)"

lemma allowed_traced: "allowed_input (traced env) inp = allowed_input env inp"
  by (simp add: allowed_input_def traced_def)

interpretation sent: keeps_sent "traced env" "sent_ok env" for env :: "'r helper_env"
  by standard (auto simp: allowed_traced, simp add: traced_def sent_ok_def split: prod.splits)

text \<open>
  Only verified bytes are sent to a host. In every run of \<open>ensure_remote_helper\<close>, whatever
  the host answers and wherever it stops, the standard input of each \<open>ssh\<close> process is empty,
  the shell script of this build, a metadata body, or bytes with the digest and size of an
  artifact of this version.
\<close>

theorem only_verified_bytes_sent:
  "list_all (allowed_input env) (snd (snd (ensure_remote_helper (traced env) p (r, []))))"
proof -
  have "sent_ok env (r, [])" by (simp add: sent_ok_def)
  with sent.ensured[of env p] have "sent_ok env (snd (ensure_remote_helper (traced env) p (r, [])))"
    by (simp add: holds_after_def)
  then show ?thesis by (simp add: sent_ok_def split: prod.splits)
qed

section \<open>The command that attaches a terminal\<close>

text \<open>The shell that runs the line of the attach command sees the intended arguments, and the
  shell on the host the intended command.\<close>

lemma sh_words_remote_command: "sh_words (remote_command_arg c) = Some [''sh'', ''-lc'', c]"
  using sh_plain_escaped[of c "[]"]
  by (simp add: sh_words_def remote_command_arg_def sh_literal_def is_ascii_alphanumeric_def)

lemma attach_command_words:
  assumes "build_remote_attach_command env p session_id = Ok line"
  shows "\<exists>argv. attach_argv env p session_id = Ok argv
     \<and> sh_plain None line = Some argv
     \<and> sh_words (last argv) = Some [''sh'', ''-lc'', ''exec '' @ REMOTE_HELPER_REMOTE_PATH
          @ '' session attach --session-id '' @ shell_escape_arg session_id]"
  using assms sh_words_args
  by (auto simp: build_remote_attach_command_def attach_argv_def sh_words_remote_command split: sum.splits)

end
