(* ===== verification/Run_Finish.thy ===== *)
theory Run_Finish
  imports Complex_Main Merge_Queue Error_Signatures Workflow_Doc Tracker
begin

text \<open>
  The end of an agent run: \<open>automation/runner.rs\<close> from the release of the permit on, and
  \<open>generate_review_pack\<close> and \<open>notify_task_status_transition\<close> of \<open>commands/mod.rs\<close>. The decision
  on the task (\<open>judge\<close>) is separated from what is done with it (\<open>conclude\<close>). The JSON of the
  loop context and of the pack, redaction and the shell commands of the hooks are arguments.
  Events that only refresh a view, and the token counts of a run record, are left out.
\<close>

section \<open>Verification hooks\<close>

datatype hook_run = HookEnded string string "int option" | HookError string | HookTimeout

record verify_result =
  vr_description :: string
  vr_output :: string
  vr_exit_code :: int

record review_pack =
  rp_task_id :: string
  rp_task_title :: string
  rp_target_branch :: string
  rp_branch :: string
  rp_worktree_path :: string
  rp_changed_files :: "string list"
  rp_diff_summary :: string
  rp_diff_path :: string
  rp_check_run :: "string \<times> string \<times> string option"
  rp_check_results :: "(string \<times> string \<times> string option \<times> bool \<times> string option) list"
  rp_risk_notes :: "string list"
  rp_agent_rationale :: "string option"
  rp_context_path :: string
  rp_context_exists :: bool
  rp_cost :: rat

record finish_env =
  fe_x :: x_env
  fe_wf :: "nat \<Rightarrow> wf_env"
  fe_redact :: "string \<Rightarrow> string"
  fe_loop_mode :: "string \<Rightarrow> string option"
  fe_hook :: "act list \<Rightarrow> string \<Rightarrow> string \<Rightarrow> hook_run"
  fe_show_pack :: "review_pack \<Rightarrow> string + string"
  fe_cost :: "string \<Rightarrow> rat"

record finish_job =
  fj_project_id :: uuid
  fj_project_path :: string
  fj_target :: string
  fj_worktree_path :: string
  fj_branch :: string
  fj_task_id :: uuid
  fj_session_id :: uuid
  fj_verify :: "verification_hook list option"
  fj_after_run :: "string list"
  fj_tracker :: bool
  fj_run_id :: "string option"

definition truncation_mark :: string where
  "truncation_mark = ''...[truncated]''"

text \<open>\<open>char_indices\<close>: the byte offsets at which a character starts.\<close>

fun char_offsets :: "nat \<Rightarrow> string list \<Rightarrow> nat list" where
  "char_offsets k [] = []"
| "char_offsets k (ch # chs) = k # char_offsets (k + length ch) chs"

definition truncate_output :: "string \<Rightarrow> string" where
  "truncate_output combined =
     (if 4000 < length combined then
        (let starts = takeWhile (\<lambda>i. i \<le> 4000) (char_offsets 0 (utf8_chars combined));
             e = (if starts = [] then 0 else last starts)
         in take e combined @ truncation_mark)
      else combined)"

definition verify_result_of :: "verification_hook \<Rightarrow> hook_run \<Rightarrow> verify_result" where
  "verify_result_of h r =
     (case r of
        HookEnded out err code \<Rightarrow>
          \<lparr>vr_description = vh_description h,
           vr_output = truncate_output (from_utf8_lossy out @ from_utf8_lossy err),
           vr_exit_code = case_option (-1) id code\<rparr>
      | HookError e \<Rightarrow> \<lparr>vr_description = vh_description h, vr_output = ''execution error: '' @ e, vr_exit_code = -1\<rparr>
      | HookTimeout \<Rightarrow>
          \<lparr>vr_description = vh_description h,
           vr_output = ''timed out after '' @ nat_str (unat (vh_timeout_seconds h)) @ ''s'', vr_exit_code = -1\<rparr>)"

fun run_verification_hooks ::
  "finish_env \<Rightarrow> string \<Rightarrow> verification_hook list \<Rightarrow> verify_result list oper" where
  "run_verification_hooks env dir [] = give []"
| "run_verification_hooks env dir (h # hs) =
     and_then (read (\<lambda>w. fe_hook env (w_acts w) dir (vh_command h))) (\<lambda>r.
     and_then (change (\<lambda>w. w\<lparr>w_acts := w_acts w @ [Ran dir [''sh'', ''-c'', vh_command h]]\<rparr>)) (\<lambda>_.
     let res = verify_result_of h r in
     if vr_exit_code res \<noteq> 0 then give [res]
     else and_then (run_verification_hooks env dir hs) (\<lambda>rest. give (res # rest))))"

definition first_failure :: "verify_result list \<Rightarrow> verify_result option" where
  "first_failure results = find (\<lambda>r. vr_exit_code r \<noteq> 0) results"

section \<open>Merge readiness and the review pack\<close>

definition runner_ahead_count :: "x_env \<Rightarrow> string \<Rightarrow> string \<Rightarrow> nat oper" where
  "runner_ahead_count env dir target =
     and_then (git_output env dir [''rev-list'', ''--count'', target @ ''..HEAD'']) (\<lambda>raw.
       case parse_u64 (str_trim raw) of
         Inl e \<Rightarrow> fail (''parse ahead count: '' @ e)
       | Inr n \<Rightarrow> give n)"

definition prepare_merge_ready_worktree ::
  "x_env \<Rightarrow> string \<Rightarrow> string \<Rightarrow> 'p task_contract \<Rightarrow> task_commit option oper" where
  "prepare_merge_ready_worktree env dir target task =
     and_then (if branch task = None then give None
               else and_then (prepare_task_branch_for_review env dir (task_uuid task) (title task) target)
                      (\<lambda>c. give (Some c))) (\<lambda>commit_result.
     and_then (git_output env dir [''status'', ''--porcelain'']) (\<lambda>out.
     if str_trim out \<noteq> [] then fail ''agent left uncommitted changes after sanitize/commit''
     else
       and_then (runner_ahead_count env dir target) (\<lambda>ahead_count.
       if ahead_count = 0 then fail ''agent produced no mergeable repository changes''
       else give commit_result)))"

definition risk_notes :: "string list \<Rightarrow> string list" where
  "risk_notes changed_files =
     (if 25 < length changed_files then [''large file count changed''] else [])
     @ (if list_ex (\<lambda>f. ends_with f ''Cargo.toml'' \<or> ends_with f ''package.json'') changed_files
        then [''dependency manifest changed''] else [])
     @ (if list_ex (\<lambda>f. ends_with f ''.toml'' \<or> ends_with f ''.yml'' \<or> ends_with f ''.yaml''
                       \<or> ends_with f ''.json'') changed_files
        then [''configuration files modified''] else [])"

definition review_dir :: "x_env \<Rightarrow> string \<Rightarrow> uuid \<Rightarrow> string" where
  "review_dir env project_path task_id =
     path_join (path_join (path_join (path_join project_path ''.pnevma'') ''data'') ''reviews'')
       (show_uuid (x_serde env) task_id)"

definition redacted_result ::
  "(string \<Rightarrow> string) \<Rightarrow> check_result_row \<Rightarrow> string \<times> string \<times> string option \<times> bool \<times> string option" where
  "redacted_result redact r = (redact (cs_description r), cs_check_type r, map_option redact (cs_command r),
     cs_passed r, map_option redact (cs_output r))"

definition generate_review_pack ::
  "finish_env \<Rightarrow> uuid \<Rightarrow> string \<Rightarrow> string \<Rightarrow> 'p task_contract \<Rightarrow> check_run_row \<Rightarrow> check_result_row list \<Rightarrow> rat
     \<Rightarrow> string option \<Rightarrow> review_row oper" where
  "generate_review_pack env project_id project_path target task check_run check_results cost summary =
     (let x = fe_x env; redact = fe_redact env; tid = show_uuid (x_serde x) (task_uuid task) in
     and_then (or_fail ''task branch missing'' (branch task)) (\<lambda>br.
     and_then (read (\<lambda>w. find_worktree_by_task tid (w_db w))) (\<lambda>found.
     and_then (or_fail ''task worktree missing'' found) (\<lambda>wt.
     let range = target @ ''...'' @ br in
     and_then (git_output x project_path [''diff'', range, ''--'', ''.'']) (\<lambda>raw.
     let diff = redact raw in
     and_then (git_output x project_path [''diff'', ''--name-only'', range, ''--'', ''.'']) (\<lambda>names.
     let changed_files = filter (\<lambda>l. l \<noteq> []) (map str_trim (str_lines names)) in
     and_then (settle (git_output x project_path [''diff'', ''--shortstat'', range])) (\<lambda>shortstat.
     let stats = (case shortstat of Inl _ \<Rightarrow> [] | Inr s \<Rightarrow> s);
         dir = review_dir x project_path (task_uuid task);
         diff_path = path_join dir ''diff.patch'';
         context_path = path_join (path_join (wt_path wt) ''.pnevma'') ''task-context.md'' in
     and_then (remove_path x (CreateDirAll dir)) (\<lambda>_.
     and_then (remove_path x (WriteFile diff_path diff)) (\<lambda>_.
     and_then (path_exists_now x context_path) (\<lambda>context_exists.
     let pack = \<lparr>rp_task_id = tid, rp_task_title = title task, rp_target_branch = target, rp_branch = br,
           rp_worktree_path = redact (wt_path wt), rp_changed_files = changed_files,
           rp_diff_summary = str_trim stats, rp_diff_path = diff_path,
           rp_check_run = (cr_id check_run, cr_status check_run, cr_summary check_run),
           rp_check_results = map (redacted_result redact) check_results,
           rp_risk_notes = risk_notes changed_files, rp_agent_rationale = map_option redact summary,
           rp_context_path = context_path, rp_context_exists = context_exists, rp_cost = cost\<rparr>;
         pack_path = path_join dir ''review-pack.json'' in
     and_then (of_result (fe_show_pack env pack)) (\<lambda>txt.
     and_then (remove_path x (WriteFile pack_path txt)) (\<lambda>_.
     and_then (draw (\<lambda>n. show_uuid (x_serde x) (x_fresh x n))) (\<lambda>i.
     let row = \<lparr>rv_id = i, rv_task_id = tid, rv_status = ''Ready'', rv_review_pack_path = pack_path,
                rv_reviewer_notes = None, rv_approved_at = None\<rparr> in
     and_then (upsert_review x row) (\<lambda>_.
     and_then (log_event (Event ''review'' ''ReviewPackGenerated'')) (\<lambda>_. give row)))))))))))))))"

section \<open>The decision\<close>

record verdict =
  vd_status :: task_status
  vd_failed :: bool
  vd_handoff :: "string option"
  vd_summary :: "string option"

definition is_until_complete :: "finish_env \<Rightarrow> task_row \<Rightarrow> bool" where
  "is_until_complete env row =
     (case Option.bind (tk_loop_context_json row) (fe_loop_mode env) of
        Some m \<Rightarrow> m = ''until_complete'' | None \<Rightarrow> False)"

definition open_verdict :: "string option \<Rightarrow> verdict" where
  "open_verdict summary = \<lparr>vd_status = task_status.InProgress, vd_failed = False, vd_handoff = summary, vd_summary = summary\<rparr>"

definition judge_checks ::
  "finish_env \<Rightarrow> finish_job \<Rightarrow> unit task_contract \<Rightarrow> string option \<Rightarrow> verdict oper" where
  "judge_checks env job task summary =
     and_then (settle (run_acceptance_checks_for_task (fe_x env) (fj_project_id job) (fj_project_path job) task)) (\<lambda>res.
     case res of
       Inl e \<Rightarrow> and_then (log_event (Event ''core'' ''AcceptanceCheckRunFailed'')) (\<lambda>_. give (open_verdict summary))
     | Inr (check_run, results, all_passed) \<Rightarrow>
         if \<not> all_passed then give (open_verdict summary)
         else
           and_then (settle (generate_review_pack env (fj_project_id job) (fj_project_path job) (fj_target job) task
                       check_run results (fe_cost env (show_uuid (x_serde (fe_x env)) (fj_task_id job))) summary)) (\<lambda>pack.
           and_then (case pack of Inl _ \<Rightarrow> log_event (Event ''review'' ''ReviewPackGenerationFailed'')
                                | Inr _ \<Rightarrow> give ()) (\<lambda>_.
           give ((open_verdict summary)\<lparr>vd_status := task_status.Review\<rparr>))))"

definition judge_work :: "finish_env \<Rightarrow> finish_job \<Rightarrow> task_row \<Rightarrow> string option \<Rightarrow> verdict oper" where
  "judge_work env job row summary =
     (if is_until_complete env row then give ((open_verdict summary)\<lparr>vd_status := task_status.Done\<rparr>)
      else case task_row_to_contract (x_serde (fe_x env)) row of
        Inl _ \<Rightarrow> give (open_verdict summary)
      | Inr task \<Rightarrow>
          and_then (settle (prepare_merge_ready_worktree (fe_x env) (fj_worktree_path job) (fj_target job) task)) (\<lambda>res.
          case res of
            Inl e \<Rightarrow>
              let safe_error = fe_redact env e in
              and_then (log_event (Event ''git'' ''AgentOutputNotMergeReady'')) (\<lambda>_.
              give \<lparr>vd_status = task_status.Failed, vd_failed = True, vd_handoff = Some safe_error,
                    vd_summary = Some safe_error\<rparr>)
          | Inr _ \<Rightarrow>
              and_then (log_event (Event ''git'' ''AgentChangesCommitted'')) (\<lambda>_.
              judge_checks env job task summary)))"

definition verify_feedback :: "verify_result \<Rightarrow> string" where
  "verify_feedback f = ''Verification failed '' @ em_dash @ '' '' @ vr_description f @ '':'' @ [CHR 0x0A]
     @ ''```'' @ [CHR 0x0A] @ vr_output f @ [CHR 0x0A] @ ''```'' @ [CHR 0x0A]
     @ ''Fix the issues and ensure verification passes.''"

definition judge_verified :: "finish_env \<Rightarrow> finish_job \<Rightarrow> verdict \<Rightarrow> verdict oper" where
  "judge_verified env job v =
     (if vd_failed v then give v
      else case fj_verify job of
        None \<Rightarrow> give v
      | Some hs \<Rightarrow>
          and_then (run_verification_hooks env (fj_worktree_path job) hs) (\<lambda>results.
          case first_failure results of
            None \<Rightarrow> give v
          | Some f \<Rightarrow>
              and_then (log_event (Event ''core'' ''VerificationFailed'')) (\<lambda>_.
              give (v\<lparr>vd_status := task_status.Failed, vd_failed := True, vd_handoff := Some (verify_feedback f)\<rparr>))))"

definition judge :: "finish_env \<Rightarrow> finish_job \<Rightarrow> task_row \<Rightarrow> string option \<Rightarrow> bool \<Rightarrow> verdict oper" where
  "judge env job row summary failed =
     (if failed
      then give \<lparr>vd_status = task_status.Failed, vd_failed = True, vd_handoff = summary, vd_summary = summary\<rparr>
      else and_then (judge_work env job row summary) (judge_verified env job))"

section \<open>What is done with it\<close>

definition notify_task_status_transition ::
  "string \<Rightarrow> task_status \<Rightarrow> task_status \<Rightarrow> string option \<Rightarrow> unit oper" where
  "notify_task_status_transition task_title from_status to_status detail =
     (if from_status = to_status then give ()
      else case to_status of
        task_status.Review \<Rightarrow> log_event (Notified ''Task ready for review'' (task_title @ '' is ready for review.''))
      | task_status.Failed \<Rightarrow>
          log_event (Notified ''Task failed''
            (case detail of
               Some d \<Rightarrow> if str_trim d = [] then task_title @ '' failed.'' else task_title @ '' failed: '' @ d
             | None \<Rightarrow> task_title @ '' failed.''))
      | _ \<Rightarrow> give ())"

definition trigger_loop :: "finish_env \<Rightarrow> string \<Rightarrow> task_status \<Rightarrow> bool oper" where
  "trigger_loop env tid st =
     and_then (draw (fe_wf env)) (\<lambda>wf w.
       case check_loop_trigger wf tid st (w_wf w) of
         (Inl _, d) \<Rightarrow> (Ok False, w\<lparr>w_wf := d\<rparr>)
       | (Inr b, d) \<Rightarrow> (Ok b, w\<lparr>w_wf := d\<rparr>))"

definition complete_workflow :: "x_env \<Rightarrow> string \<Rightarrow> unit oper" where
  "complete_workflow env tid =
     and_then (draw (x_now env)) (\<lambda>now.
     change (\<lambda>w. case check_workflow_completion now True tid (w_wf w) of
        (es, d) \<Rightarrow> w\<lparr>w_wf := d, w_log := w_log w @ map wf_log es\<rparr>))"

definition release_dependents :: "x_env \<Rightarrow> uuid \<Rightarrow> uuid \<Rightarrow> unit oper" where
  "release_dependents env project_id task_id =
     and_then (draw (x_now env)) (\<lambda>now.
     change (\<lambda>w. case refresh_dependency_states_after_completion_without_dispatch (x_serde env) now
               (show_uuid (x_serde env) project_id) task_id (w_db w) of
        (_, db, _) \<Rightarrow> w\<lparr>w_wf := (w_wf w)\<lparr>wd_db := db\<rparr>\<rparr>))"

definition sync_tracker :: "x_env \<Rightarrow> finish_job \<Rightarrow> bool \<Rightarrow> unit oper" where
  "sync_tracker env job failed =
     (if \<not> fj_tracker job then give ()
      else
        and_then (read (\<lambda>w. get_external_source_by_task (show_uuid (x_serde env) (fj_task_id job)) (w_db w))) (\<lambda>src.
        case src of
          None \<Rightarrow> give ()
        | Some row \<Rightarrow>
            log_event (TrackerSync (external_source_row.es_external_id row)
              (if failed then external_state_str Cancelled else external_state_str ExtDone))))"

definition settle_task :: "finish_env \<Rightarrow> finish_job \<Rightarrow> task_row \<Rightarrow> verdict \<Rightarrow> unit oper" where
  "settle_task env job row v =
     (let x = fe_x env; prev = Task_Rows.parse_status (tk_status row); next_st = vd_status v in
     and_then (draw (x_now x)) (\<lambda>now.
     and_then (on_tasks (update_task (row\<lparr>tk_status := status_to_str next_st, tk_updated_at := now,
                                          tk_handoff_summary := vd_handoff v\<rparr>))) (\<lambda>_.
     and_then (notify_task_status_transition (tk_title row) prev next_st (vd_handoff v)) (\<lambda>_.
     and_then
       (if \<not> is_terminal_task_status next_st then give ()
        else
          and_then (trigger_loop env (tk_id row) next_st) (\<lambda>triggered.
          and_then (if \<not> triggered \<and> next_st = task_status.Done
                    then release_dependents x (fj_project_id job) (fj_task_id job) else give ()) (\<lambda>_.
          and_then (if \<not> triggered then complete_workflow x (tk_id row) else give ()) (\<lambda>_.
          sync_tracker x job (vd_failed v))))) (\<lambda>_.
     if prev \<noteq> next_st then log_event (Event ''core'' ''TaskStatusChanged'') else give ())))))"

definition upsert_agent_session_status :: "string \<Rightarrow> string \<Rightarrow> string \<Rightarrow> unit oper" where
  "upsert_agent_session_status project_id session_id st =
     on_tasks (\<lambda>db. db\<lparr>db_sessions := map (\<lambda>s. if se_project_id s = project_id \<and> se_id s = session_id
        then s\<lparr>se_status := st\<rparr> else s) (db_sessions db)\<rparr>)"

definition finalize_automation_run_record ::
  "x_env \<Rightarrow> string option \<Rightarrow> string \<Rightarrow> string option \<Rightarrow> unit oper" where
  "finalize_automation_run_record env run_id st error_message =
     (case run_id of
        None \<Rightarrow> give ()
      | Some i \<Rightarrow>
          and_then (draw (x_now env)) (\<lambda>now.
          on_tasks (\<lambda>db. db\<lparr>db_runs := map (\<lambda>r. if rr_id r = i
             then r\<lparr>rr_status := st, rr_finished_at := Some now, rr_error_message := error_message\<rparr>
             else r) (db_runs db)\<rparr>)))"

definition cleanup_task_worktree :: "x_env \<Rightarrow> uuid \<Rightarrow> string option \<Rightarrow> unit oper" where
  "cleanup_task_worktree env task_id project_path = cleanup_task_worktree_inner env task_id project_path False"

definition conclude :: "finish_env \<Rightarrow> finish_job \<Rightarrow> bool \<Rightarrow> string option \<Rightarrow> unit oper" where
  "conclude env job failed summary =
     (let x = fe_x env in
     and_then (upsert_agent_session_status (show_uuid (x_serde x) (fj_project_id job))
                 (show_uuid (x_serde x) (fj_session_id job)) (if failed then ''failed'' else ''completed'')) (\<lambda>_.
     and_then (if \<not> failed \<and> fj_after_run job \<noteq> []
               then change (\<lambda>w. w\<lparr>w_acts := w_acts w @ [RanHooks (fj_worktree_path job) (fj_after_run job)]\<rparr>)
               else give ()) (\<lambda>_.
     and_then (if failed then and_then (settle (cleanup_task_worktree x (fj_task_id job) None)) (\<lambda>_. give ())
               else give ()) (\<lambda>_.
     and_then (finalize_automation_run_record x (fj_run_id job) (if failed then ''failed'' else ''completed'')
                 (if failed then summary else None)) (\<lambda>_.
     and_then (log_event (Emitted ''pool_updated'' [])) (\<lambda>_.
     log_event (Event ''agent'' ''AgentComplete'')))))))"

text \<open>The result is whether the run counts as failed and the summary whose signature is
  ingested then (\<open>ingest_error\<close>, on tables of its own).\<close>

definition finish_run :: "finish_env \<Rightarrow> finish_job \<Rightarrow> string option \<Rightarrow> bool \<Rightarrow> (bool \<times> string option) oper" where
  "finish_run env job summary failed =
     and_then (read (\<lambda>w. get_task (show_uuid (x_serde (fe_x env)) (fj_task_id job)) (w_db w))) (\<lambda>found.
     and_then (case found of
         None \<Rightarrow> give (failed, summary)
       | Some row \<Rightarrow>
           and_then (judge env job row summary failed) (\<lambda>v.
           and_then (settle_task env job row v) (\<lambda>_. give (vd_failed v, vd_summary v)))) (\<lambda>(failed, summary).
     and_then (conclude env job failed summary) (\<lambda>_. give (failed, summary))))"

section \<open>Bounds of the feedback\<close>

lemma char_offsets_le: "i \<in> set (char_offsets k chs) \<Longrightarrow> k \<le> i"
  by (induction k chs rule: char_offsets.induct) fastforce+

text \<open>
  The output of a hook is cut to at most 4000 bytes, at the start of a character, so the
  text stays a sequence of whole characters.
\<close>

lemma truncate_output_bound: "length (truncate_output s) \<le> 4000 + length truncation_mark"
  by (auto simp: truncate_output_def Let_def dest!: set_takeWhileD last_in_set intro: le_trans)

lemma char_offsets_prefix:
  "i \<in> set (char_offsets k chs) \<Longrightarrow> \<exists>n. take (i - k) (concat chs) = concat (take n chs)"
proof (induction k chs rule: char_offsets.induct)
  case (2 k ch chs)
  then consider "i = k" | "i \<in> set (char_offsets (k + length ch) chs)" by auto
  then show ?case
  proof cases
    case 1
    then show ?thesis by (intro exI[of _ 0]) simp
  next
    case 2
    with "2.IH" obtain n where n: "take (i - (k + length ch)) (concat chs) = concat (take n chs)" by blast
    have "k + length ch \<le> i" using 2 by (rule char_offsets_le)
    with n show ?thesis by (intro exI[of _ "Suc n"]) simp
  qed
qed simp

section \<open>The decision is a function of the checks\<close>

text \<open>An operation that cannot fail.\<close>

definition sure :: "'a oper \<Rightarrow> bool" where
  "sure m \<longleftrightarrow> (\<forall>w. \<exists>x w'. m w = (Ok x, w'))"

named_theorems sure_intros "operations that cannot fail"

lemma sure_basic [sure_intros]:
  "sure (give x)" "sure (read f)" "sure (change g)" "sure (draw h)" "sure (settle m)" "sure (log_event l)"
  "sure (on_tasks t)"
  by (auto simp: sure_def give_def read_def change_def draw_def settle_def log_event_def on_tasks_def
      split: prod.split)

lemma sure_and_then [sure_intros]: "sure m \<Longrightarrow> (\<And>x. sure (f x)) \<Longrightarrow> sure (and_then m f)"
  unfolding sure_def and_then_def by (auto split: prod.split sum.split) (metis prod.inject sum.distinct(1))

lemma sure_if [sure_intros]: "(b \<Longrightarrow> sure m) \<Longrightarrow> (\<not> b \<Longrightarrow> sure m') \<Longrightarrow> sure (if b then m else m')"
  by simp

lemma sure_option [sure_intros]:
  "(x = None \<Longrightarrow> sure m) \<Longrightarrow> (\<And>y. x = Some y \<Longrightarrow> sure (f y)) \<Longrightarrow> sure (case x of None \<Rightarrow> m | Some y \<Rightarrow> f y)"
  by (simp split: option.split)

lemma sure_sum [sure_intros]:
  "(\<And>e. x = Inl e \<Longrightarrow> sure (f e)) \<Longrightarrow> (\<And>y. x = Inr y \<Longrightarrow> sure (g y)) \<Longrightarrow> sure (case x of Inl e \<Rightarrow> f e | Inr y \<Rightarrow> g y)"
  by (simp split: sum.split)

lemma sure_prod [sure_intros]: "(\<And>a b. sure (f a b)) \<Longrightarrow> sure (case p of (a, b) \<Rightarrow> f a b)"
  by (simp split: prod.split)

lemma sure_hooks: "sure (run_verification_hooks env dir hs)"
  by (induction hs) (auto simp: Let_def intro!: sure_intros)

lemma sure_judge_checks: "sure (judge_checks env job task summary)"
  unfolding judge_checks_def by (intro sure_intros)

lemma sure_judge_work: "sure (judge_work env job row summary)"
  unfolding judge_work_def Let_def by (intro sure_intros sure_judge_checks)

lemma sure_judge: "sure (judge env job row summary failed)"
  unfolding judge_def judge_verified_def by (intro sure_intros sure_judge_work sure_hooks)

lemma sure_settle: "sure (settle_task env job row v)"
proof -
  have "sure (notify_task_status_transition t a b d)" for t a b d
    by (auto simp: notify_task_status_transition_def split: task_status.split intro!: sure_intros)
  moreover have "sure (trigger_loop env tid st)" for tid st
    by (auto simp: trigger_loop_def sure_def and_then_def draw_def split: prod.split sum.split)
  moreover have "sure (complete_workflow x tid)" "sure (release_dependents x p t)" "sure (sync_tracker x job b)"
    for x tid p t b
    unfolding complete_workflow_def release_dependents_def sync_tracker_def by (intro sure_intros)+
  ultimately show ?thesis
    unfolding settle_task_def Let_def by (intro sure_intros)
qed

text \<open>What the work of an agent is worth, from what git and the checks answer.\<close>

definition checks_passed ::
  "(string + check_run_row \<times> check_result_row list \<times> bool) \<Rightarrow> bool" where
  "checks_passed r = (case r of Inl _ \<Rightarrow> False | Inr (_, _, all_passed) \<Rightarrow> all_passed)"

definition work_status :: "finish_env \<Rightarrow> finish_job \<Rightarrow> task_row \<Rightarrow> world \<Rightarrow> task_status" where
  "work_status env job row w =
     (if is_until_complete env row then task_status.Done
      else case task_row_to_contract (x_serde (fe_x env)) row of
        Inl _ \<Rightarrow> task_status.InProgress
      | Inr task \<Rightarrow>
          (case prepare_merge_ready_worktree (fe_x env) (fj_worktree_path job) (fj_target job) task w of
             (Inl _, _) \<Rightarrow> task_status.Failed
           | (Inr _, w1) \<Rightarrow>
               if checks_passed (fst (run_acceptance_checks_for_task (fe_x env) (fj_project_id job)
                     (fj_project_path job) task
                     (w1\<lparr>w_log := w_log w1 @ [Event ''git'' ''AgentChangesCommitted'']\<rparr>)))
               then task_status.Review else task_status.InProgress))"

definition hooks_passed :: "finish_env \<Rightarrow> finish_job \<Rightarrow> world \<Rightarrow> bool" where
  "hooks_passed env job w =
     (case fj_verify job of None \<Rightarrow> True
      | Some hs \<Rightarrow> (case fst (run_verification_hooks env (fj_worktree_path job) hs w) of
            Inl _ \<Rightarrow> False | Inr results \<Rightarrow> first_failure results = None))"

lemma judge_checks_status:
  "\<exists>v w'. judge_checks env job task summary w = (Ok v, w') \<and> \<not> vd_failed v
     \<and> vd_status v = (if checks_passed (fst (run_acceptance_checks_for_task (fe_x env) (fj_project_id job)
                                                (fj_project_path job) task w))
                      then task_status.Review else task_status.InProgress)"
proof -
  have "after (judge_checks env job task summary) w (\<lambda>r w'. \<exists>v. r = Ok v \<and> \<not> vd_failed v
     \<and> vd_status v = (if checks_passed (fst (run_acceptance_checks_for_task (fe_x env) (fj_project_id job)
                                                (fj_project_path job) task w))
                      then task_status.Review else task_status.InProgress))"
    unfolding judge_checks_def after_simps
    by (intro afterI) (auto simp: after_simps checks_passed_def open_verdict_def split: sum.split intro!: afterI)
  then show ?thesis by (auto simp: after_def split: prod.splits)
qed

lemma judge_work_status:
  "\<exists>v w'. judge_work env job row summary w = (Ok v, w') \<and> vd_status v = work_status env job row w
     \<and> (vd_failed v \<longleftrightarrow> vd_status v = task_status.Failed)"
proof (cases "is_until_complete env row")
  case True
  then show ?thesis by (simp add: judge_work_def work_status_def give_def open_verdict_def)
next
  case until: False
  show ?thesis
  proof (cases "task_row_to_contract (x_serde (fe_x env)) row")
    case (Inl e)
    with until show ?thesis by (simp add: judge_work_def work_status_def give_def open_verdict_def)
  next
    case (Inr task)
    obtain r w1 where p: "prepare_merge_ready_worktree (fe_x env) (fj_worktree_path job) (fj_target job) task w = (r, w1)"
      by (cases "prepare_merge_ready_worktree (fe_x env) (fj_worktree_path job) (fj_target job) task w")
    show ?thesis
      using until Inr p judge_checks_status[of env job task summary
          "w1\<lparr>w_log := w_log w1 @ [Event ''git'' ''AgentChangesCommitted'']\<rparr>"]
      by (cases r)
         (auto simp: judge_work_def work_status_def and_then_def settle_def log_event_def change_def give_def Let_def)
  qed
qed

lemma judge_status:
  "\<exists>v w1 v1. judge_work env job row summary w = (Ok v1, w1)
     \<and> fst (judge env job row summary failed w) = Ok v
     \<and> vd_status v = (if failed \<or> work_status env job row w = task_status.Failed \<or> \<not> hooks_passed env job w1
                      then task_status.Failed else work_status env job row w)
     \<and> (vd_failed v \<longleftrightarrow> vd_status v = task_status.Failed)"
proof -
  obtain v1 w1 where jw: "judge_work env job row summary w = (Ok v1, w1)"
    and st: "vd_status v1 = work_status env job row w" "vd_failed v1 \<longleftrightarrow> vd_status v1 = task_status.Failed"
    using judge_work_status by blast
  have "\<exists>v w2. judge_verified env job v1 w1 = (Ok v, w2)
      \<and> vd_status v = (if vd_failed v1 \<or> \<not> hooks_passed env job w1 then task_status.Failed else vd_status v1)
      \<and> (vd_failed v \<longleftrightarrow> vd_status v = task_status.Failed)"
  proof (cases "fj_verify job")
    case None
    with st(2) show ?thesis by (auto simp: judge_verified_def hooks_passed_def give_def)
  next
    case (Some hs)
    obtain results w2 where "run_verification_hooks env (fj_worktree_path job) hs w1 = (Ok results, w2)"
      using sure_hooks[of env "fj_worktree_path job" hs] unfolding sure_def by blast
    with Some st(2) show ?thesis
      by (cases "first_failure results")
         (auto simp: judge_verified_def hooks_passed_def give_def and_then_def log_event_def change_def)
  qed
  with jw st show ?thesis
    by (auto simp: judge_def and_then_def give_def split: prod.split)
qed

text \<open>
  C5. What a finished run does to its task. The decision never fails, and the status is a
  function of the run, the state of the worktree, the acceptance checks and the verification
  hooks: a failed run, work that cannot be merged and a failing hook give \<open>Failed\<close>; a loop
  that runs until completion gives \<open>Done\<close>, without checks; otherwise the task goes to
  \<open>Review\<close> exactly when the acceptance checks passed, and stays \<open>InProgress\<close> when they did
  not. The run counts as failed exactly when the task does.
\<close>

theorem run_decides_task:
  "\<exists>v w1 v1. judge_work env job row summary w = (Ok v1, w1)
     \<and> fst (judge env job row summary failed w) = Ok v
     \<and> vd_status v = (if \<not> failed \<and> hooks_passed env job w1
                      then work_status env job row w else task_status.Failed)
     \<and> (vd_failed v \<longleftrightarrow> vd_status v = task_status.Failed)"
  using judge_status[of env job row summary w failed] by fastforce

text \<open>A run that the agent completed in a worktree with work to merge counts as completed although
  its acceptance checks failed: the task stays in progress and no agent works on it.\<close>

lemma failed_checks_leave_task_in_progress:
  assumes "work_status env job row w = task_status.InProgress" and "fj_verify job = None"
  shows "\<exists>v. fst (judge env job row summary False w) = Ok v
     \<and> vd_status v = task_status.InProgress \<and> \<not> vd_failed v"
  using judge_status[of env job row summary w False] assms by (auto simp: hooks_passed_def)

section \<open>The run record\<close>

lemma after_sureI: "sure m \<Longrightarrow> (\<And>x w'. after (f x) w' Q) \<Longrightarrow> after (and_then m f) w Q"
proof -
  assume "sure m" and f: "\<And>x w'. after (f x) w' Q"
  then obtain x w' where "m w = (Ok x, w')" unfolding sure_def by blast
  with f[of x w'] show ?thesis by (simp add: after_def and_then_def)
qed

definition run_recorded :: "finish_job \<Rightarrow> bool \<Rightarrow> string option \<Rightarrow> world \<Rightarrow> bool" where
  "run_recorded job failed summary w \<longleftrightarrow>
     list_all (\<lambda>r. fj_run_id job = Some (rr_id r) \<longrightarrow>
         rr_status r = (if failed then ''failed'' else ''completed'') \<and> rr_finished_at r \<noteq> None
         \<and> rr_error_message r = (if failed then summary else None)) (db_runs (w_db w))"

lemma conclude_records:
  "after (conclude env job failed summary) w (\<lambda>r w'. r = Ok () \<and> run_recorded job failed summary w')"
proof -
  have s: "sure (upsert_agent_session_status p s st)" for p s st
    unfolding upsert_agent_session_status_def by (intro sure_intros)
  have fin: "after (and_then (finalize_automation_run_record x (fj_run_id job) st err) (\<lambda>_.
      and_then (log_event l1) (\<lambda>_. log_event l2))) w
      (\<lambda>r w'. r = Ok () \<and> list_all (\<lambda>r. fj_run_id job = Some (rr_id r) \<longrightarrow>
         rr_status r = st \<and> rr_finished_at r \<noteq> None \<and> rr_error_message r = err) (db_runs (w_db w')))"
    for x st err l1 l2 w
  proof (cases "fj_run_id job")
    case None
    then show ?thesis by (simp add: finalize_automation_run_record_def after_simps list_all_iff)
  next
    case (Some i)
    have upd: "list_all (\<lambda>r. Some i = Some (rr_id r) \<longrightarrow> rr_status r = st \<and> rr_finished_at r \<noteq> None \<and> rr_error_message r = err)
      (map (\<lambda>r. if rr_id r = i then r\<lparr>rr_status := st, rr_finished_at := Some now, rr_error_message := err\<rparr> else r) rs)"
      for now rs
      by (induction rs) auto
    show ?thesis
      unfolding finalize_automation_run_record_def Some after_simps option.case sum.case
      using upd by simp
  qed
  show ?thesis
    unfolding conclude_def Let_def run_recorded_def
    by (rule after_sureI[OF s], rule after_sureI, intro sure_intros, rule after_sureI, intro sure_intros, rule fin)
qed

text \<open>
  A run always ends and its record agrees with what it returns: the operation does not
  fail, the record of the run has a finishing time and the status \<open>failed\<close> with the summary as
  error exactly when the run counts as failed, and the status \<open>completed\<close> without an error
  otherwise.
\<close>

theorem finished_run_recorded:
  "after (finish_run env job summary failed) w (\<lambda>r w'.
     \<exists>f s. r = Ok (f, s) \<and> run_recorded job f s w')"
proof -
  have tail: "after (and_then (conclude env job f s) (\<lambda>_. give (f, s))) w
      (\<lambda>r w'. \<exists>f s. r = Ok (f, s) \<and> run_recorded job f s w')" for f s w
    unfolding after_simps by (rule after_mono[OF conclude_records]) (auto simp: after_simps)
  have "after ((\<lambda>(f, s). and_then (conclude env job f s) (\<lambda>_. give (f, s))) p) w
      (\<lambda>r w'. \<exists>f s. r = Ok (f, s) \<and> run_recorded job f s w')" for p w
    by (cases p) (simp add: tail)
  then have rest: "after (and_then m (\<lambda>(f, s). and_then (conclude env job f s) (\<lambda>_. give (f, s)))) w
      (\<lambda>r w'. \<exists>f s. r = Ok (f, s) \<and> run_recorded job f s w')" if "sure m" for m w
    using that by (intro after_sureI) auto
  show ?thesis
    unfolding finish_run_def
    by (rule after_sureI[OF sure_basic(2)], rule rest, intro sure_intros sure_judge sure_settle)
qed

end
