(* ===== verification/Task_Edits.thy ===== *)
theory Task_Edits
  imports Run_Finish
begin

text \<open>
  Creating, editing and deleting a task: \<open>create_task\<close>, \<open>update_task\<close> and \<open>delete_task\<close> of
  \<open>pnevma-commands/src/commands/tasks.rs\<close>, with the inputs of \<open>commands/mod.rs\<close>. An open
  project is assumed. The texts of the errors of other modules are arguments, as is what a
  dispatch does to the database. Events that only refresh a view, the telemetry of a new
  task and the conversion of the edited row to a view are left out.
\<close>

section \<open>Inputs\<close>

record create_input =
  ci_title :: string
  ci_goal :: string
  ci_scope :: "string list"
  ci_acceptance_criteria :: "string list"
  ci_constraints :: "string list"
  ci_dependencies :: "string list"
  ci_priority :: string
  ci_auto_dispatch :: "bool option"
  ci_agent_profile_override :: "string option"
  ci_execution_mode :: "string option"
  ci_timeout_minutes :: "int option"
  ci_max_retries :: "int option"

record update_input =
  ui_id :: string
  ui_title :: "string option"
  ui_goal :: "string option"
  ui_scope :: "string list option"
  ui_acceptance_criteria :: "string list option"
  ui_constraints :: "string list option"
  ui_dependencies :: "string list option"
  ui_priority :: "string option"
  ui_status :: "string option"
  ui_handoff_summary :: "string option"

record edit_env =
  ee_finish :: finish_env
  ee_project_id :: uuid
  ee_project_path :: string
  ee_referenced :: "string \<Rightarrow> bool"
  ee_dispatch :: "uuid \<Rightarrow> task_db \<Rightarrow> task_db"
  ee_show_dep :: "dep_error \<Rightarrow> string"
  ee_show_core :: "core_error \<Rightarrow> string"
  ee_show_transition :: "transition_error \<Rightarrow> string"

abbreviation ee_x :: "edit_env \<Rightarrow> x_env" where
  "ee_x env \<equiv> fe_x (ee_finish env)"

abbreviation ee_serde :: "edit_env \<Rightarrow> serde" where
  "ee_serde env \<equiv> x_serde (ee_x env)"

definition ee_pid :: "edit_env \<Rightarrow> string" where
  "ee_pid env = show_uuid (ee_serde env) (ee_project_id env)"

definition map_error :: "('e \<Rightarrow> string) \<Rightarrow> 'e + 'a \<Rightarrow> string + 'a" where
  "map_error f r = (case r of Inl e \<Rightarrow> Err (f e) | Inr x \<Rightarrow> Ok x)"

section \<open>Shared steps\<close>

definition manual_check :: "string \<Rightarrow> check" where
  "manual_check d = \<lparr>description = d, check_type = ManualApproval, command = None\<rparr>"

definition done_uuids :: "edit_env \<Rightarrow> task_db \<Rightarrow> uuid set" where
  "done_uuids env db =
     set (List.map_filter (ok_of \<circ> parse_uuid (ee_serde env) \<circ> tk_id)
       (filter (\<lambda>row. tk_status row = ''Done'') (list_tasks (ee_pid env) db)))"

fun check_scope :: "x_env \<Rightarrow> string \<Rightarrow> string list \<Rightarrow> unit oper" where
  "check_scope env project_path [] = give ()"
| "check_scope env project_path (rel # rels) =
     and_then (path_exists_now env (path_join project_path rel)) (\<lambda>there.
     if \<not> there then fail (''scope file does not exist: '' @ rel) else check_scope env project_path rels)"

definition check_ready :: "edit_env \<Rightarrow> string \<Rightarrow> unit task_contract \<Rightarrow> unit oper" where
  "check_ready env msg task =
     (if status task \<noteq> task_status.Ready then give ()
      else if acceptance_criteria task = [] then fail msg
      else check_scope (ee_x env) (ee_project_path env) (scope task))"

definition on_db :: "('e \<Rightarrow> string) \<Rightarrow> (task_db \<Rightarrow> ('e + 'a) \<times> task_db) \<Rightarrow> 'a oper" where
  "on_db show_err f w =
     (case f (w_db w) of (r, db) \<Rightarrow> (map_error show_err r, w\<lparr>w_wf := (w_wf w)\<lparr>wd_db := db\<rparr>\<rparr>))"

definition dependency_strings :: "edit_env \<Rightarrow> unit task_contract \<Rightarrow> string list" where
  "dependency_strings env task = map (show_uuid (ee_serde env)) (dependencies task)"

definition refresh_states :: "edit_env \<Rightarrow> unit oper" where
  "refresh_states env =
     and_then (draw (x_now (ee_x env))) (\<lambda>now w.
       case refresh_dependency_states_inner (ee_serde env) now (ee_pid env) (Some (ee_dispatch env)) {} (w_db w) of
         (r, db, _) \<Rightarrow> (r, w\<lparr>w_wf := (w_wf w)\<lparr>wd_db := db\<rparr>\<rparr>))"

section \<open>Creating\<close>

definition new_contract ::
  "create_input \<Rightarrow> uuid \<Rightarrow> time \<Rightarrow> uuid list \<Rightarrow> unit task_contract" where
  "new_contract input i now deps =
     \<lparr>task_uuid = i, title = ci_title input, goal = ci_goal input, scope = ci_scope input,
      out_of_scope = [], dependencies = deps,
      acceptance_criteria = map manual_check (ci_acceptance_criteria input),
      constraints = ci_constraints input, priority = map_priority (ci_priority input),
      status = task_status.Planned, assigned_session = None, branch = None, worktree = None,
      prompt_pack = None, handoff_summary = None,
      auto_dispatch = case_option False id (ci_auto_dispatch input),
      agent_profile_override = ci_agent_profile_override input,
      execution_mode = Option.bind (ci_execution_mode input) parse_execution_mode,
      timeout_minutes = map_option word_of_int (ci_timeout_minutes input),
      max_retries = ci_max_retries input, loop_iteration = 0, loop_context_json = None,
      external_source = None, created_at = now, updated_at = now\<rparr>"

definition insert_task :: "edit_env \<Rightarrow> create_input \<Rightarrow> task_row oper" where
  "insert_task env input =
     (let x = ee_x env; sd = ee_serde env in
     and_then (draw (x_fresh x)) (\<lambda>i.
     and_then (draw (x_now x)) (\<lambda>now.
     and_then (of_result (parse_dependency_ids sd (ci_dependencies input))) (\<lambda>deps.
     and_then (read (\<lambda>w. validate_task_dependencies sd (ee_pid env) i deps (w_db w))) (\<lambda>valid.
     and_then (of_result (map_error (ee_show_dep env) valid)) (\<lambda>_.
     let task = new_contract input i now deps in
     and_then (of_result (map_error (ee_show_core env) (validate_new task))) (\<lambda>_.
     and_then (read (\<lambda>w. done_uuids env (w_db w))) (\<lambda>completed.
     let task = refresh_blocked_status task completed now in
     and_then (check_ready env ''task must include at least one acceptance criterion'' task) (\<lambda>_.
     let row = task_contract_to_row sd task (ee_pid env) in
     and_then (on_db (x_show_db x) (Task_Store.create_task row)) (\<lambda>_.
     and_then (on_db (x_show_db x) (replace_task_dependencies (tk_id row) (dependency_strings env task))) (\<lambda>_.
     give row)))))))))))"

definition create_task_cmd :: "edit_env \<Rightarrow> create_input \<Rightarrow> string oper" where
  "create_task_cmd env input =
     and_then (insert_task env input) (\<lambda>row.
     and_then (log_event (Event ''core'' ''TaskCreated'')) (\<lambda>_.
     and_then (refresh_states env) (\<lambda>_.
     give (tk_id row))))"

section \<open>Editing\<close>

text \<open>The fields of the input in the order of the code; the dependencies are checked when they
  change and the status must follow the transition table.\<close>

definition set_fields :: "update_input \<Rightarrow> unit task_contract \<Rightarrow> unit task_contract" where
  "set_fields input task =
     task\<lparr>title := case_option (title task) id (ui_title input),
          goal := case_option (goal task) id (ui_goal input),
          scope := case_option (scope task) id (ui_scope input),
          acceptance_criteria := case_option (acceptance_criteria task) (map manual_check) (ui_acceptance_criteria input),
          constraints := case_option (constraints task) id (ui_constraints input),
          priority := case_option (priority task) map_priority (ui_priority input),
          handoff_summary := (case ui_handoff_summary input of None \<Rightarrow> handoff_summary task | Some h \<Rightarrow> Some h)\<rparr>"

definition set_dependencies ::
  "edit_env \<Rightarrow> update_input \<Rightarrow> unit task_contract \<Rightarrow> task_db \<Rightarrow> string + unit task_contract" where
  "set_dependencies env input task db =
     (case ui_dependencies input of
        None \<Rightarrow> Ok task
      | Some ds \<Rightarrow>
          (case parse_dependency_ids (ee_serde env) ds of Inl e \<Rightarrow> Err e
           | Inr deps \<Rightarrow>
               (case validate_task_dependencies (ee_serde env) (ee_pid env) (task_uuid task) deps db of
                  Inl e \<Rightarrow> Err (ee_show_dep env e)
                | Inr _ \<Rightarrow> Ok (task\<lparr>dependencies := deps\<rparr>))))"

definition set_status :: "edit_env \<Rightarrow> update_input \<Rightarrow> time \<Rightarrow> unit task_contract \<Rightarrow> string + unit task_contract" where
  "set_status env input now task =
     (case ui_status input of
        None \<Rightarrow> Ok task
      | Some s \<Rightarrow>
          let target = Task_Rows.parse_status s in
          if target = status task then Ok task
          else map_error (ee_show_transition env) (transition task target now))"

definition store_row :: "edit_env \<Rightarrow> task_row \<Rightarrow> task_row \<Rightarrow> unit oper" where
  "store_row env old row =
     (if tk_status old \<noteq> tk_status row then
        and_then (\<lambda>w. case update_task_conditional row (tk_status old) (w_db w) of
            (updated, db) \<Rightarrow> (Ok updated, w\<lparr>w_wf := (w_wf w)\<lparr>wd_db := db\<rparr>\<rparr>)) (\<lambda>updated.
        if updated then give ()
        else
          and_then (read (\<lambda>w. get_task (tk_id row) (w_db w))) (\<lambda>current.
          fail (''task status changed concurrently (expected '' @ tk_status old @ '', found ''
                @ (case current of None \<Rightarrow> ''<missing>'' | Some r \<Rightarrow> tk_status r) @ '')'')))
      else on_tasks (Task_Store.update_task row))"

definition edit_task :: "edit_env \<Rightarrow> update_input \<Rightarrow> (task_row \<times> task_status \<times> unit task_contract) oper" where
  "edit_task env input =
     (let x = ee_x env; sd = ee_serde env in
     and_then (read (\<lambda>w. get_task (ui_id input) (w_db w))) (\<lambda>found.
     and_then (or_fail (''task not found: '' @ ui_id input) found) (\<lambda>old.
     and_then (of_result (task_row_to_contract sd old)) (\<lambda>task.
     and_then (draw (x_now x)) (\<lambda>now.
     and_then (read (\<lambda>w. set_dependencies env input (set_fields input task) (w_db w))) (\<lambda>with_deps.
     and_then (of_result with_deps) (\<lambda>edited.
     and_then (of_result (set_status env input now edited)) (\<lambda>moved.
     and_then (check_ready env ''acceptance_criteria is required before Ready'' moved) (\<lambda>_.
     and_then (read (\<lambda>w. done_uuids env (w_db w))) (\<lambda>completed.
     let final = refresh_blocked_status moved completed now in
     and_then (read (\<lambda>w. validate_task_dependencies sd (ee_pid env) (task_uuid final) (dependencies final) (w_db w)))
       (\<lambda>valid.
     and_then (of_result (map_error (ee_show_dep env) valid)) (\<lambda>_.
     and_then (of_result (map_error (ee_show_core env) (validate_new final))) (\<lambda>_.
     and_then (draw (x_now x)) (\<lambda>now.
     let row = task_contract_to_row sd (final\<lparr>updated_at := now\<rparr>) (ee_pid env) in
     and_then (store_row env old row) (\<lambda>_.
     and_then (on_db (x_show_db x) (replace_task_dependencies (tk_id row) (dependency_strings env final))) (\<lambda>_.
     give (row, status task, final)))))))))))))))))"

definition update_task_cmd :: "edit_env \<Rightarrow> update_input \<Rightarrow> task_row oper" where
  "update_task_cmd env input =
     and_then (edit_task env input) (\<lambda>(row, previous, task).
     and_then (notify_task_status_transition (tk_title row) previous (status task) (tk_handoff_summary row)) (\<lambda>_.
     and_then (refresh_states env) (\<lambda>_.
     and_then
       (if previous \<noteq> status task \<and> is_terminal_task_status (status task) then
          and_then (cleanup_task_worktree (ee_x env) (task_uuid task) (Some (ee_project_path env))) (\<lambda>_.
          and_then (trigger_loop (ee_finish env) (tk_id row) (status task)) (\<lambda>triggered.
          if triggered then refresh_states env else complete_workflow (ee_x env) (tk_id row)))
        else give ()) (\<lambda>_.
     give row))))"

section \<open>Deleting\<close>

text \<open>The \<open>DELETE\<close> takes the rows of the review tables and of the workflow with it and clears the
  task of a checkpoint. A task that another task was forked from, or that a table without a
  rule for deletion names (\<open>ee_referenced\<close>: review state, lineage, pull requests, pipelines,
  ports, intake), cannot be deleted.\<close>

definition delete_rows :: "edit_env \<Rightarrow> string \<Rightarrow> unit oper" where
  "delete_rows env task_id w =
     (if ee_referenced env task_id
         \<or> list_ex (\<lambda>r. tk_forked_from_task_id r = Some task_id \<and> tk_id r \<noteq> task_id) (db_tasks (w_db w))
      then (Err (x_show_db (ee_x env) ForeignKey), w)
      else (Ok (), w\<lparr>w_wf := wf_delete_task task_id (w_wf w),
              w_runs := filter (\<lambda>r. cr_task_id r \<noteq> task_id) (w_runs w),
              w_results := filter (\<lambda>r. cs_task_id r \<noteq> task_id) (w_results w),
              w_reviews := filter (\<lambda>r. rv_task_id r \<noteq> task_id) (w_reviews w),
              w_queue := filter (\<lambda>r. mq_task_id r \<noteq> task_id) (w_queue w),
              w_checkpoints := map (\<lambda>r. if cp_task_id r = Some task_id then r\<lparr>cp_task_id := None\<rparr> else r)
                (w_checkpoints w)\<rparr>))"

definition delete_task_cmd :: "edit_env \<Rightarrow> string \<Rightarrow> unit oper" where
  "delete_task_cmd env task_id =
     and_then (case parse_uuid (ee_serde env) task_id of
         Inl _ \<Rightarrow> give ()
       | Inr u \<Rightarrow> and_then (settle (cleanup_task_worktree (ee_x env) u None)) (\<lambda>_. give ())) (\<lambda>_.
     and_then (delete_rows env task_id) (\<lambda>_.
     and_then (log_event (Event ''core'' ''TaskDeleted'')) (\<lambda>_.
     refresh_states env)))"

section \<open>What the commands establish\<close>

named_theorems ok_simps "successful results of operations"

lemma and_then_Ok [ok_simps]:
  "and_then m f w = (Ok y, w') \<longleftrightarrow> (\<exists>x w1. m w = (Ok x, w1) \<and> f x w1 = (Ok y, w'))"
  by (auto simp: and_then_def split: prod.splits sum.splits)

lemma give_Ok [ok_simps]: "give x w = (Ok y, w') \<longleftrightarrow> x = y \<and> w = w'"
  by (simp add: give_def)

lemma fail_Ok [ok_simps]: "fail e w \<noteq> (Ok y, w')"
  by (simp add: fail_def)

lemma read_Ok [ok_simps]: "read f w = (Ok y, w') \<longleftrightarrow> f w = y \<and> w = w'"
  by (simp add: read_def)

lemma draw_Ok [ok_simps]: "draw g w = (Ok y, w') \<longleftrightarrow> g (w_seq w) = y \<and> w\<lparr>w_seq := Suc (w_seq w)\<rparr> = w'"
  by (simp add: draw_def)

lemma of_result_Ok [ok_simps]: "of_result r w = (Ok y, w') \<longleftrightarrow> r = Ok y \<and> w = w'"
  by (simp add: of_result_def)

lemma or_fail_Ok [ok_simps]: "or_fail e x w = (Ok y, w') \<longleftrightarrow> x = Some y \<and> w = w'"
  by (auto simp: or_fail_def give_def fail_def split: option.splits)

lemma change_Ok [ok_simps]: "change h w = (Ok u, w') \<longleftrightarrow> h w = w'"
  by (simp add: change_def)

lemma map_error_Ok [ok_simps]: "map_error f r = Ok x \<longleftrightarrow> r = Ok x"
  by (simp add: map_error_def split: sum.split)

lemma on_db_Ok [ok_simps]:
  "on_db se f w = (Ok x, w') \<longleftrightarrow> (\<exists>db. f (w_db w) = (Ok x, db) \<and> w' = w\<lparr>w_wf := (w_wf w)\<lparr>wd_db := db\<rparr>\<rparr>)"
  by (auto simp: on_db_def map_error_def split: prod.splits sum.splits)

lemma check_scope_world: "check_scope env p rels w = (r, w') \<Longrightarrow> w' = w"
  by (induction rels arbitrary: r)
     (auto simp: give_def fail_def and_then_def read_def path_exists_now_def split: if_splits)

lemma check_ready_world: "check_ready env msg t w = (r, w') \<Longrightarrow> w' = w"
  by (auto simp: check_ready_def give_def fail_def dest: check_scope_world split: if_splits)

lemma check_ready_both:
  "check_ready env msg t w = (Ok (), w')
     \<Longrightarrow> w' = w \<and> (status t = task_status.Ready \<longrightarrow> acceptance_criteria t \<noteq> [])"
  using check_ready_world[of env msg t w "Ok ()" w'] by (auto simp: check_ready_def fail_def split: if_splits)

lemma refresh_status:
  "status (refresh_blocked_status t completed now) =
     (if status t \<in> {Planned, task_status.Ready} \<and> unmet_dependencies t completed then Blocked
      else if status t = Blocked \<and> \<not> unmet_dependencies t completed then Planned
      else status t)"
  by (cases "status t") (auto simp: refresh_blocked_status_def transition_def Let_def)

lemma refresh_same [simp]:
  "dependencies (refresh_blocked_status t completed now) = dependencies t"
  "acceptance_criteria (refresh_blocked_status t completed now) = acceptance_criteria t"
  "task_uuid (refresh_blocked_status t completed now) = task_uuid t"
  "title (refresh_blocked_status t completed now) = title t"
  "goal (refresh_blocked_status t completed now) = goal t"
  by (auto simp: refresh_blocked_status_def transition_def Let_def split: sum.splits if_splits)

lemma replace_tasks: "replace_task_dependencies i ds db = (r, db') \<Longrightarrow> db_tasks db' = db_tasks db"
proof -
  have "insert_deps i ds d = (r, d') \<Longrightarrow> db_tasks d' = db_tasks d" for d r d'
    by (induction i ds d rule: insert_deps.induct) (auto split: if_splits)
  then show "replace_task_dependencies i ds db = (r, db') \<Longrightarrow> db_tasks db' = db_tasks db"
    by (fastforce simp: replace_task_dependencies_def split: prod.splits sum.splits)
qed

text \<open>
  A new task is planned or blocked. When the command has stored a task, it is a new row with
  a fresh identifier, a title and a goal; it is \<open>Blocked\<close> exactly when a dependency is not
  done, and \<open>Planned\<close> otherwise, and the dependency check accepted its dependencies. It is
  never \<open>Ready\<close>, so the checks on ready tasks in the command never apply.
\<close>

theorem new_task_planned_or_blocked:
  assumes "insert_task env input w = (Ok row, w')"
  shows "db_tasks (w_db w') = db_tasks (w_db w) @ [row] \<and> tk_id row \<notin> task_ids (w_db w)
     \<and> str_trim (tk_title row) \<noteq> [] \<and> str_trim (tk_goal row) \<noteq> []
     \<and> (\<exists>i deps. parse_dependency_ids (ee_serde env) (ci_dependencies input) = Ok deps
          \<and> tk_id row = show_uuid (ee_serde env) i
          \<and> validate_task_dependencies (ee_serde env) (ee_pid env) i deps (w_db w) = Ok ()
          \<and> tk_status row = (if set deps \<subseteq> done_uuids env (w_db w) then ''Planned'' else ''Blocked''))"
proof -
  from assms obtain deps t wr w1 db1 db2 where
    deps: "parse_dependency_ids (ee_serde env) (ci_dependencies input) = Ok deps"
    and v: "validate_task_dependencies (ee_serde env) (ee_pid env) (x_fresh (ee_x env) (w_seq w)) deps (w_db w) = Ok ()"
    and t: "t = new_contract input (x_fresh (ee_x env) (w_seq w)) (x_now (ee_x env) (Suc (w_seq w))) deps"
    and new: "validate_new t = Ok ()"
    and row: "row = task_contract_to_row (ee_serde env)
      (refresh_blocked_status t (done_uuids env (w_db w)) (x_now (ee_x env) (Suc (w_seq w)))) (ee_pid env)"
    and ins: "Task_Store.create_task row (w_db w) = (Ok (), db1)"
    and dep: "replace_task_dependencies (tk_id row) wr db1 = (Ok (), db2)" "w_db w' = db2"
    unfolding insert_task_def Let_def ok_simps
    by (clarsimp dest!: check_ready_world)
  have tasks: "db_tasks db1 = db_tasks (w_db w) @ [row]" "tk_id row \<notin> task_ids (w_db w)"
    using ins by (auto simp: Task_Store.create_task_def split: if_splits)
  have un: "unmet_dependencies t c \<longleftrightarrow> \<not> set deps \<subseteq> c" for c
    by (auto simp: t unmet_dependencies_def new_contract_def list_ex_iff)
  have "tk_status row = (if set deps \<subseteq> done_uuids env (w_db w) then ''Planned'' else ''Blocked'')"
    unfolding row by (simp add: task_contract_to_row_def refresh_status un status_to_str_def)
      (simp add: t new_contract_def)
  moreover have "str_trim (tk_title row) \<noteq> []" "str_trim (tk_goal row) \<noteq> []"
    using new by (auto simp: row task_contract_to_row_def validate_new_def split: if_splits)
  moreover have "tk_id row = show_uuid (ee_serde env) (x_fresh (ee_x env) (w_seq w))"
    by (simp add: row t task_contract_to_row_def new_contract_def)
  ultimately show ?thesis
    using tasks deps v dep replace_tasks[OF dep(1)] by auto
qed

text \<open>The status an edit asks for.\<close>

definition asked_status :: "update_input \<Rightarrow> task_status \<Rightarrow> task_status" where
  "asked_status input st = (case ui_status input of None \<Rightarrow> st | Some s \<Rightarrow> Task_Rows.parse_status s)"

lemma set_fields_same [simp]:
  "status (set_fields input t) = status t" "task_uuid (set_fields input t) = task_uuid t"
  "dependencies (set_fields input t) = dependencies t"
  by (simp_all add: set_fields_def)

lemma set_dependencies_same:
  assumes "set_dependencies env input t db = Ok t'"
  shows "status t' = status t" "task_uuid t' = task_uuid t"
  using assms by (auto simp: set_dependencies_def split: option.splits sum.splits)

lemma set_status_asked:
  assumes "set_status env input now t = Ok t'"
  shows "status t' = asked_status input (status t)"
    "status t' = status t \<or> valid_transition (status t) (status t')" "dependencies t' = dependencies t"
  using assms by (auto simp: set_status_def asked_status_def map_error_def transition_def Let_def
      split: option.splits sum.splits if_splits)

lemma store_row_Ok:
  assumes "store_row env old row w = (Ok (), w')"
  shows "w_db w' = Task_Store.update_task row (w_db w)
     \<or> w_db w' = snd (update_task_conditional row (tk_status old) (w_db w))"
  using assms
  by (auto simp: store_row_def and_then_def on_tasks_def change_def give_def fail_def read_def
      split: if_splits prod.splits)

text \<open>
  C6. An edit follows the transition table. When an edit of a task is accepted, the status it
  asks for is the present one or the table allows the step; the task then has this status,
  except that it is \<open>Blocked\<close> when it would be open with a dependency that is not done and
  \<open>Planned\<close> when it asks to stay blocked with all of them done. A task that asks for \<open>Ready\<close>
  has an acceptance criterion, and the dependency check accepted the dependencies it ends up
  with.
\<close>

theorem edit_follows_table:
  assumes "edit_task env input w = (Ok (row, prev, task), w')"
  shows "\<exists>old. get_task (ui_id input) (w_db w) = Some old \<and> prev = Task_Rows.parse_status (tk_status old)
     \<and> (asked_status input prev = prev \<or> valid_transition prev (asked_status input prev))
     \<and> status task =
         (if asked_status input prev \<in> {Planned, task_status.Ready} \<and> \<not> set (dependencies task) \<subseteq> done_uuids env (w_db w)
          then Blocked
          else if asked_status input prev = Blocked \<and> set (dependencies task) \<subseteq> done_uuids env (w_db w) then Planned
          else asked_status input prev)
     \<and> tk_status row = status_to_str (status task)
     \<and> (asked_status input prev = task_status.Ready \<longrightarrow> acceptance_criteria task \<noteq> [])
     \<and> validate_task_dependencies (ee_serde env) (ee_pid env) (task_uuid task) (dependencies task) (w_db w) = Ok ()"
proof -
  from assms obtain old t0 edited moved now now2 where
    old: "get_task (ui_id input) (w_db w) = Some old"
    and t0: "task_row_to_contract (ee_serde env) old = Ok t0"
    and e: "set_dependencies env input (set_fields input t0) (w_db w) = Ok edited"
    and m: "set_status env input now edited = Ok moved"
    and r: "status moved = task_status.Ready \<longrightarrow> acceptance_criteria moved \<noteq> []"
    and task: "task = refresh_blocked_status moved (done_uuids env (w_db w)) now"
    and v: "validate_task_dependencies (ee_serde env) (ee_pid env) (task_uuid task) (dependencies task) (w_db w) = Ok ()"
    and row: "row = task_contract_to_row (ee_serde env) (task\<lparr>updated_at := now2\<rparr>) (ee_pid env)"
    and prev: "prev = status t0"
    unfolding edit_task_def Let_def ok_simps
    by (clarsimp dest!: check_ready_both)
  have "prev = Task_Rows.parse_status (tk_status old)"
    using t0 by (auto simp: prev task_row_to_contract_def split: sum.splits prod.splits)
  moreover have st: "status moved = asked_status input prev"
    "asked_status input prev = prev \<or> valid_transition prev (asked_status input prev)"
    using set_dependencies_same[OF e] set_status_asked[OF m] by (simp_all add: prev)
  moreover have "unmet_dependencies moved c \<longleftrightarrow> \<not> set (dependencies task) \<subseteq> c" for c
    by (auto simp: task unmet_dependencies_def list_ex_iff)
  moreover have "asked_status input prev = task_status.Ready \<longrightarrow> acceptance_criteria task \<noteq> []"
    using r st by (simp add: task)
  ultimately show ?thesis
    using old v by (auto simp: task refresh_status row task_contract_to_row_def)
qed

text \<open>Deleting is refused for a task that another one was forked from, and its worktree is gone by
  then.\<close>

lemma delete_of_forked_task_fails:
  assumes "list_ex (\<lambda>r. tk_forked_from_task_id r = Some task_id \<and> tk_id r \<noteq> task_id) (db_tasks (w_db w))"
  shows "delete_rows env task_id w = (Err (x_show_db (ee_x env) ForeignKey), w)"
  using assms by (simp add: delete_rows_def)

section \<open>Witnesses\<close>

definition sample_finish_env :: finish_env where
  "sample_finish_env = \<lparr>fe_x = plain_env (\<lambda>_ _ _. Ended True [] []), fe_wf = (\<lambda>_. loop_env), fe_redact = id,
     fe_loop_mode = (\<lambda>_. None), fe_hook = (\<lambda>_ _ _. HookTimeout), fe_show_pack = (\<lambda>_. Ok []), fe_cost = (\<lambda>_. 0)\<rparr>"

definition sample_edit_env :: edit_env where
  "sample_edit_env = \<lparr>ee_finish = sample_finish_env, ee_project_id = 1, ee_project_path = ''/p'',
     ee_referenced = (\<lambda>_. False), ee_dispatch = (\<lambda>_ db. db), ee_show_dep = (\<lambda>_. ''dep''),
     ee_show_core = (\<lambda>_. ''core''), ee_show_transition = (\<lambda>_. ''transition'')\<rparr>"

definition sample_create :: create_input where
  "sample_create = \<lparr>ci_title = ''t'', ci_goal = ''g'', ci_scope = [], ci_acceptance_criteria = [''works''],
     ci_constraints = [], ci_dependencies = [], ci_priority = ''P1'', ci_auto_dispatch = None,
     ci_agent_profile_override = None, ci_execution_mode = None, ci_timeout_minutes = None,
     ci_max_retries = None\<rparr>"

definition sample_update :: update_input where
  "sample_update = \<lparr>ui_id = ''x'', ui_title = None, ui_goal = None, ui_scope = None,
     ui_acceptance_criteria = Some [''works''], ui_constraints = None, ui_dependencies = None,
     ui_priority = None, ui_status = Some ''Ready'', ui_handoff_summary = None\<rparr>"

definition edit_world :: "task_row list \<Rightarrow> world" where
  "edit_world rows = empty_world \<lparr>wd_db = empty_db\<lparr>db_projects := [''x''], db_tasks := rows\<rparr>,
     wd_workflows = [], wd_instances = [], wd_wf_tasks = []\<rparr>"

lemmas edit_run_simps = and_then_def give_def read_def draw_def of_result_def or_fail_def change_def
  on_db_def map_error_def on_tasks_def

lemma sample_insert: "\<exists>row w'. insert_task sample_edit_env sample_create (edit_world []) = (Ok row, w')
    \<and> tk_id row = ''x'' \<and> tk_status row = ''Planned''"
  by (simp add: insert_task_def Let_def edit_run_simps sample_edit_env_def sample_finish_env_def plain_env_def
      edit_world_def empty_world_def sample_create_def plain_serde_def parse_dependency_ids_def
      validate_task_dependencies_def new_contract_def validate_new_def check_ready_def refresh_blocked_status_def
      unmet_dependencies_def task_contract_to_row_def ee_pid_def Task_Store.create_task_def empty_db_def task_ids_def
      dependency_strings_def replace_task_dependencies_def status_to_str_def)

definition planned_row :: task_row where
  "planned_row = (chain_row 1 2 ''Planned'' [])\<lparr>tk_project_id := ''x''\<rparr>"

definition planned_task :: "unit task_contract" where
  "planned_task = \<lparr>task_uuid = 1, title = ''t'', goal = ''g'', scope = [], out_of_scope = [],
     dependencies = [], acceptance_criteria = [], constraints = [], priority = P1, status = Planned,
     assigned_session = None, branch = None, worktree = None, prompt_pack = None,
     handoff_summary = None, auto_dispatch = True, agent_profile_override = None,
     execution_mode = None, timeout_minutes = None, max_retries = None, loop_iteration = 0,
     loop_context_json = None, external_source = None, created_at = 2, updated_at = 2\<rparr>"

lemma codec_values: "Task_Rows.parse_status ''Planned'' = Planned" "map_priority ''P1'' = P1"
  by code_simp+

lemma planned_contract: "task_row_to_contract plain_serde planned_row = Ok planned_task"
  by (simp add: planned_row_def planned_task_def task_row_to_contract_def row_payload_def chain_row_def
      sample_row_def plain_serde_def codec_values List.map_filter_simps)

lemma ready_status: "Task_Rows.parse_status ''Ready'' = task_status.Ready"
  by code_simp

lemma sample_done: "done_uuids sample_edit_env (w_db (edit_world [planned_row])) = {}"
  by (simp add: done_uuids_def sample_edit_env_def sample_finish_env_def plain_env_def edit_world_def
      empty_world_def ee_pid_def plain_serde_def list_tasks_def planned_row_def chain_row_def sample_row_def empty_db_def)

lemma sample_valid: "validate_task_dependencies plain_serde pid i [] db = Ok ()"
  by (simp add: validate_task_dependencies_def)

lemma sample_store:
  assumes "tk_id r = ''x''" "tk_status r = ''Ready''"
  shows "\<exists>db. store_row sample_edit_env planned_row r (edit_world [planned_row]\<lparr>w_seq := n\<rparr>)
      = (Ok (), edit_world [planned_row]\<lparr>w_seq := n, w_wf := (w_wf (edit_world [planned_row]))\<lparr>wd_db := db\<rparr>\<rparr>)"
  using assms
  by (simp add: store_row_def edit_run_simps update_task_conditional_def edit_world_def empty_world_def
      planned_row_def chain_row_def sample_row_def empty_db_def)

lemma sample_edit: "\<exists>row task w'. edit_task sample_edit_env sample_update (edit_world [planned_row]) = (Ok (row, Planned, task), w')
    \<and> status task = task_status.Ready"
proof -
  have row: "get_task ''x'' (w_db (edit_world [planned_row])) = Some planned_row" "tk_status planned_row = ''Planned''"
    by (simp_all add: get_task_def edit_world_def empty_world_def planned_row_def chain_row_def sample_row_def)
  have tid: "tk_id planned_row = ''x''" by (simp add: planned_row_def chain_row_def sample_row_def)
  let ?moved = "planned_task\<lparr>acceptance_criteria := [manual_check ''works''], status := task_status.Ready, updated_at := 1\<rparr>"
  have st: "set_status sample_edit_env sample_update 1 (set_fields sample_update planned_task) = Ok ?moved"
    by (simp add: set_status_def set_fields_def sample_update_def ready_status planned_task_def transition_def map_error_def)
  have deps: "set_dependencies sample_edit_env sample_update (set_fields sample_update planned_task) db
      = Ok (set_fields sample_update planned_task)" for db
    by (simp add: set_dependencies_def sample_update_def)
  have ready: "check_ready env msg ?moved w = (Ok (), w)" for env msg w
    by (simp add: check_ready_def planned_task_def give_def)
  have refresh: "refresh_blocked_status ?moved c 1 = ?moved" for c
    by (simp add: refresh_blocked_status_def unmet_dependencies_def planned_task_def)
  have new: "validate_new ?moved = Ok ()" by (simp add: validate_new_def planned_task_def)
  have x: "x_now (ee_x sample_edit_env) = int" "ee_serde sample_edit_env = plain_serde" "ui_id sample_update = ''x''"
    "dependencies ?moved = []" "w_seq (edit_world rows) = 1" "status planned_task = Planned" for rows
    by (simp_all add: sample_edit_env_def sample_finish_env_def plain_env_def sample_update_def planned_task_def
        edit_world_def empty_world_def)
  have rowed: "tk_id (task_contract_to_row plain_serde (?moved\<lparr>updated_at := n\<rparr>) p) = ''x''"
    "tk_status (task_contract_to_row plain_serde (?moved\<lparr>updated_at := n\<rparr>) p) = ''Ready''" for n p
    by (simp_all add: task_contract_to_row_def status_to_str_def plain_serde_def planned_task_def)
  obtain db where stored: "store_row sample_edit_env planned_row (task_contract_to_row plain_serde
        (?moved\<lparr>updated_at := 2\<rparr>) (ee_pid sample_edit_env)) (edit_world [planned_row]\<lparr>w_seq := 3\<rparr>)
      = (Ok (), edit_world [planned_row]\<lparr>w_seq := 3, w_wf := (w_wf (edit_world [planned_row]))\<lparr>wd_db := db\<rparr>\<rparr>)"
    using sample_store[OF rowed] by blast
  have none: "dependency_strings sample_edit_env ?moved = []"
    by (simp add: dependency_strings_def planned_task_def)
  show ?thesis
    using stored none
    by (simp add: edit_task_def Let_def edit_run_simps x row planned_contract st deps ready refresh new
        sample_valid numeral_3_eq_3 replace_task_dependencies_def)
qed

lemma new_task_planned_or_blocked_witness:
  "\<exists>row w'. insert_task sample_edit_env sample_create (edit_world []) = (Ok row, w')
     \<and> db_tasks (w_db w') = [row]"
proof -
  obtain row w' where i: "insert_task sample_edit_env sample_create (edit_world []) = (Ok row, w')"
    using sample_insert by blast
  show ?thesis
    using new_task_planned_or_blocked[OF i] i by (auto simp: edit_world_def empty_world_def)
qed

lemma edit_follows_table_witness:
  "\<exists>row task w'. edit_task sample_edit_env sample_update (edit_world [planned_row]) = (Ok (row, Planned, task), w')
     \<and> tk_status row = ''Ready'' \<and> acceptance_criteria task \<noteq> []"
proof -
  obtain row task w' where e: "edit_task sample_edit_env sample_update (edit_world [planned_row]) = (Ok (row, Planned, task), w')"
    "status task = task_status.Ready"
    using sample_edit by blast
  have "asked_status sample_update Planned = task_status.Ready"
    by (simp add: asked_status_def sample_update_def ready_status)
  with edit_follows_table[OF e(1)] e show ?thesis
    by (auto simp: status_to_str_def)
qed

end
