(* ===== verification/Agent_Teams.thy ===== *)
theory Agent_Teams
  imports Ssh_Profiles
begin

text \<open>
  Agent teams: \<open>pnevma-commands/src/agent_teams.rs\<close>, the environment of their processes in
  \<open>pnevma-agents/src/team_support.rs\<close> and the pane rows of \<open>pnevma-db/src/store/sessions.rs\<close>. An
  open project is assumed. JSON, the start and the end of a session (other components), the search
  for the helper binary and the files it needs are arguments; errors of the database itself are
  left out. A member is spawned in the steps that the code separates by its locks.
\<close>

section \<open>The store of teams\<close>

record remote_target =
  rt_ssh_profile_id :: string
  rt_ssh_profile_name :: string
  rt_host :: string
  rt_port :: u16
  rt_user :: "string option"
  rt_identity_file :: "string option"
  rt_proxy_jump :: "string option"
  rt_remote_path :: string

record team_config =
  tc_team_id :: string
  tc_provider :: string
  tc_leader_session_id :: string
  tc_leader_pane_id :: string
  tc_working_dir :: string
  tc_control_socket_path :: string
  tc_base_env :: "(string \<times> string) list"
  tc_remote_target :: "remote_target option"

record team_member =
  mb_team_id :: string
  mb_provider :: string
  mb_session_id :: string
  mb_pane_id :: string
  mb_pane_token :: string
  mb_index :: nat
  mb_title :: string
  mb_command :: string

record team_state =
  te_config :: team_config
  te_main_vertical :: bool
  te_next_index :: nat
  te_members :: "team_member list"

record team_snapshot =
  sn_team_id :: string
  sn_provider :: string
  sn_leader_session_id :: string
  sn_leader_pane_id :: string
  sn_leader_pane_token :: string
  sn_main_vertical :: bool
  sn_remote_target :: "remote_target option"
  sn_members :: "team_member list"

record spawn_result =
  sr_team_id :: string
  sr_provider :: string
  sr_leader_session_id :: string
  sr_leader_pane_id :: string
  sr_leader_pane_token :: string
  sr_member :: team_member

record team_store =
  ts_teams :: "string \<rightharpoonup> team_state"
  ts_member_sessions :: "string \<rightharpoonup> string"

definition LEADER_PANE_TOKEN :: string where "LEADER_PANE_TOKEN = ''%0''"
definition MAX_MEMBER_COMMAND_BYTES :: nat where "MAX_MEMBER_COMMAND_BYTES = 16 * 1024"
definition SCROLLBACK_SUMMARY_BYTES :: nat where "SCROLLBACK_SUMMARY_BYTES = 16 * 1024"

definition token_of :: "nat \<Rightarrow> string" where
  "token_of i = ''%'' @ nat_str i"

definition empty_store :: team_store where
  "empty_store = \<lparr>ts_teams = Map.empty, ts_member_sessions = Map.empty\<rparr>"

definition snapshot_from_state :: "team_state \<Rightarrow> team_snapshot" where
  "snapshot_from_state t =
     \<lparr>sn_team_id = tc_team_id (te_config t), sn_provider = tc_provider (te_config t),
      sn_leader_session_id = tc_leader_session_id (te_config t),
      sn_leader_pane_id = tc_leader_pane_id (te_config t), sn_leader_pane_token = LEADER_PANE_TOKEN,
      sn_main_vertical = te_main_vertical t, sn_remote_target = tc_remote_target (te_config t),
      sn_members = te_members t\<rparr>"

definition spawn_result_of :: "team_state \<Rightarrow> team_member \<Rightarrow> spawn_result" where
  "spawn_result_of t m =
     \<lparr>sr_team_id = tc_team_id (te_config t), sr_provider = tc_provider (te_config t),
      sr_leader_session_id = tc_leader_session_id (te_config t),
      sr_leader_pane_id = tc_leader_pane_id (te_config t), sr_leader_pane_token = LEADER_PANE_TOKEN,
      sr_member = m\<rparr>"

text \<open>Starting a team that is known replaces its configuration and keeps its members.\<close>

definition team_start :: "team_config \<Rightarrow> team_store \<Rightarrow> team_snapshot \<times> team_store" where
  "team_start input st =
     (let old = (case ts_teams st (tc_team_id input) of
            None \<Rightarrow> \<lparr>te_config = input, te_main_vertical = True, te_next_index = 1, te_members = []\<rparr>
          | Some t \<Rightarrow> t);
          t = old\<lparr>te_config := input\<lparr>tc_team_id := tc_team_id (te_config old)\<rparr>\<rparr>
      in (snapshot_from_state t, st\<lparr>ts_teams := (ts_teams st)(tc_team_id input \<mapsto> t)\<rparr>))"

definition team_snapshot_of :: "team_store \<Rightarrow> string \<Rightarrow> team_snapshot option" where
  "team_snapshot_of st i = map_option snapshot_from_state (ts_teams st i)"

definition provider_for_team :: "team_store \<Rightarrow> string \<Rightarrow> string option" where
  "provider_for_team st i = map_option (tc_provider \<circ> te_config) (ts_teams st i)"

definition config_for_team :: "team_store \<Rightarrow> string \<Rightarrow> team_config option" where
  "config_for_team st i = map_option te_config (ts_teams st i)"

definition register_member ::
  "string \<Rightarrow> string \<Rightarrow> string \<Rightarrow> string \<Rightarrow> string \<Rightarrow> team_store \<Rightarrow> spawn_result option \<times> team_store" where
  "register_member team_id session_id pane_id cmd name st =
     (case ts_teams st team_id of None \<Rightarrow> (None, st)
      | Some t \<Rightarrow>
          let c = te_config t;
              m = \<lparr>mb_team_id = tc_team_id c, mb_provider = tc_provider c, mb_session_id = session_id,
                   mb_pane_id = pane_id, mb_pane_token = token_of (te_next_index t),
                   mb_index = te_next_index t, mb_title = name, mb_command = cmd\<rparr>;
              t' = t\<lparr>te_next_index := te_next_index t + 1, te_members := te_members t @ [m]\<rparr>
          in (Some (spawn_result_of t m),
              st\<lparr>ts_teams := (ts_teams st)(team_id \<mapsto> t'),
                 ts_member_sessions := (ts_member_sessions st)(session_id \<mapsto> tc_team_id c)\<rparr>))"

text \<open>\<open>position\<close> and \<open>Vec::remove\<close>: the first member of the session goes.\<close>

fun take_member :: "string \<Rightarrow> team_member list \<Rightarrow> (team_member \<times> team_member list) option" where
  "take_member session_id [] = None"
| "take_member session_id (m # ms) =
     (if mb_session_id m = session_id then Some (m, ms)
      else map_option (\<lambda>(x, rest). (x, m # rest)) (take_member session_id ms))"

definition remove_member :: "string \<Rightarrow> string \<Rightarrow> team_store \<Rightarrow> spawn_result option \<times> team_store" where
  "remove_member team_id session_id st =
     (case ts_teams st team_id of None \<Rightarrow> (None, st)
      | Some t \<Rightarrow>
          (case take_member session_id (te_members t) of None \<Rightarrow> (None, st)
           | Some (m, ms) \<Rightarrow>
               (Some (spawn_result_of t m),
                st\<lparr>ts_teams := (ts_teams st)(team_id \<mapsto> t\<lparr>te_members := ms\<rparr>),
                   ts_member_sessions := (ts_member_sessions st)(session_id := None)\<rparr>)))"

definition remove_member_by_session :: "string \<Rightarrow> team_store \<Rightarrow> spawn_result option \<times> team_store" where
  "remove_member_by_session session_id st =
     (case ts_member_sessions st session_id of None \<Rightarrow> (None, st)
      | Some team_id \<Rightarrow> remove_member team_id session_id st)"

definition set_main_vertical :: "string \<Rightarrow> bool \<Rightarrow> team_store \<Rightarrow> team_snapshot option \<times> team_store" where
  "set_main_vertical team_id enabled st =
     (case ts_teams st team_id of None \<Rightarrow> (None, st)
      | Some t \<Rightarrow> (Some (snapshot_from_state (t\<lparr>te_main_vertical := enabled\<rparr>)),
          st\<lparr>ts_teams := (ts_teams st)(team_id \<mapsto> t\<lparr>te_main_vertical := enabled\<rparr>)\<rparr>))"

definition max_index :: "team_member list \<Rightarrow> nat" where
  "max_index ms = foldr (\<lambda>m. max (mb_index m)) ms 0"

definition rehydrate_team :: "team_config \<Rightarrow> bool \<Rightarrow> team_member list \<Rightarrow> team_store \<Rightarrow> team_snapshot \<times> team_store" where
  "rehydrate_team input vertical ms st =
     (let t = \<lparr>te_config = input, te_main_vertical = vertical, te_next_index = max_index ms + 1, te_members = ms\<rparr>
      in (snapshot_from_state t,
          st\<lparr>ts_teams := (ts_teams st)(tc_team_id input \<mapsto> t),
             ts_member_sessions := ts_member_sessions st ++ map_of (rev (map (\<lambda>m. (mb_session_id m, tc_team_id input)) ms))\<rparr>))"

section \<open>The environment of a member\<close>

definition with_tmux_pane_token :: "(string \<times> string) list \<Rightarrow> string \<Rightarrow> (string \<times> string) list" where
  "with_tmux_pane_token env token =
     map (\<lambda>(k, v). (k, if k = ''TMUX_PANE'' then token else v)) env
     @ (if list_ex (\<lambda>(k, v). k = ''TMUX_PANE'') env then [] else [(''TMUX_PANE'', token)])"

text \<open>The shim directory, the helper and the socket file are made by \<open>shim\<close>, which gives the path
  of the directory and of the socket.\<close>

definition prepare_claude_team_environment ::
  "(string \<Rightarrow> string + string \<times> string) \<Rightarrow> string option \<Rightarrow> team_config \<Rightarrow> string \<Rightarrow> string + (string \<times> string) list" where
  "prepare_claude_team_environment shim path team token =
     (case shim (tc_team_id team) of Err e \<Rightarrow> Err e
      | Ok (shim_dir, socket) \<Rightarrow>
          let inherited = case_option [] id path;
              p = (if inherited = [] then shim_dir else shim_dir @ '':'' @ inherited)
          in Ok [(''CLAUDE_CODE_EXPERIMENTAL_AGENT_TEAMS'', ''1''),
                 (''PNEVMA_AGENT_TEAM_ID'', tc_team_id team),
                 (''PNEVMA_AGENT_TEAM_CONTROL_SOCKET'', tc_control_socket_path team),
                 (''PNEVMA_AGENT_TEAM_PROVIDER'', tc_provider team),
                 (''TMUX'', socket), (''TMUX_PANE'', token), (''TERM'', ''screen-256color''), (''PATH'', p)])"

fun export_lines :: "(string \<times> string) list \<Rightarrow> string" where
  "export_lines [] = []"
| "export_lines ((k, v) # env) = ''export '' @ k @ ''='' @ shell_escape_arg v @ ''; '' @ export_lines env"

definition wrap_command_with_env :: "(string \<times> string) list \<Rightarrow> string \<Rightarrow> string" where
  "wrap_command_with_env env cmd = export_lines env @ ''exec '' @ cmd"

text \<open>Slicing at an offset that is no character boundary panics: the result \<open>None\<close>.\<close>

definition trim_for_json :: "string \<Rightarrow> nat \<Rightarrow> string option" where
  "trim_for_json text max_bytes =
     (if length text \<le> max_bytes then Some text
      else if is_char_boundary text (length text - max_bytes) then Some (drop (length text - max_bytes) text)
      else None)"

section \<open>Panes and sessions\<close>

record pane_row =
  pn_id :: string
  pn_session_id :: "string option"
  pn_type :: string
  pn_position :: string
  pn_label :: string
  pn_metadata_json :: "string option"

record team_session =
  tn_id :: string
  tn_backend :: string
  tn_lifecycle_state :: string
  tn_status :: string
  tn_cwd :: string
  tn_command :: string
  tn_remote_session_id :: "string option"
  tn_ended_at :: "time option"

record team_metadata =
  tm_team_id :: string
  tm_leader_session_id :: string
  tm_provider :: string
  tm_role :: string
  tm_member_index :: nat

record metadata_envelope =
  ev_agent_team :: "team_metadata option"
  ev_remote_target :: "remote_target option"

record team_world =
  tw_store :: team_store
  tw_sessions :: "team_session list"
  tw_panes :: "pane_row list"
  tw_stopped :: "string list"
  tw_log :: "string list"
  tw_seq :: nat

record team_env =
  tv_ssh :: ssh_env
  tv_show_ssh :: "ssh_error \<Rightarrow> string"
  tv_now :: "nat \<Rightarrow> time"
  tv_fresh :: "nat \<Rightarrow> string"
  tv_is_uuid :: "string \<Rightarrow> bool"
  tv_uuid_error :: "string \<Rightarrow> string"
  tv_spawn_local :: "nat \<Rightarrow> string \<Rightarrow> string \<Rightarrow> string \<Rightarrow> string + team_session"
  tv_spawn_remote :: "nat \<Rightarrow> string \<Rightarrow> ssh_profile \<Rightarrow> string \<Rightarrow> string \<Rightarrow> string \<Rightarrow> string + team_session"
  tv_terminate :: "nat \<Rightarrow> ssh_profile \<Rightarrow> string \<Rightarrow> string + unit"
  tv_encode :: "metadata_envelope \<Rightarrow> string"
  tv_decode :: "string \<Rightarrow> metadata_envelope option"
  tv_shim :: "string \<Rightarrow> string + string \<times> string"
  tv_path :: "string option"

text \<open>The rows of \<open>list_panes\<close>: the root first, then by position and identifier.\<close>

definition pane_key :: "pane_row \<Rightarrow> nat \<times> string \<times> string" where
  "pane_key p = (if pn_position p = ''root'' then 0 else 1, pn_position p, pn_id p)"

definition list_panes :: "team_world \<Rightarrow> pane_row list" where
  "list_panes w = sort_key pane_key (tw_panes w)"

definition upsert_pane :: "pane_row \<Rightarrow> team_world \<Rightarrow> team_world" where
  "upsert_pane p w =
     w\<lparr>tw_panes := (if list_ex (\<lambda>q. pn_id q = pn_id p) (tw_panes w)
         then map (\<lambda>q. if pn_id q = pn_id p then p else q) (tw_panes w) else tw_panes w @ [p])\<rparr>"

definition remove_pane :: "string \<Rightarrow> team_world \<Rightarrow> team_world" where
  "remove_pane i w = w\<lparr>tw_panes := filter (\<lambda>q. pn_id q \<noteq> i) (tw_panes w)\<rparr>"

definition get_session :: "string \<Rightarrow> team_world \<Rightarrow> team_session option" where
  "get_session i w = find (\<lambda>s. tn_id s = i) (tw_sessions w)"

definition upsert_session :: "team_session \<Rightarrow> team_world \<Rightarrow> team_world" where
  "upsert_session s w =
     w\<lparr>tw_sessions := (if list_ex (\<lambda>q. tn_id q = tn_id s) (tw_sessions w)
         then map (\<lambda>q. if tn_id q = tn_id s then s else q) (tw_sessions w) else tw_sessions w @ [s])\<rparr>"

definition ssh_profile_from_remote_target :: "team_env \<Rightarrow> remote_target \<Rightarrow> time \<Rightarrow> string + ssh_profile" where
  "ssh_profile_from_remote_target env target now =
     (case validate_profile_fields (tv_ssh env) (rt_host target) (rt_user target) (rt_identity_file target)
             (rt_proxy_jump target) of
        Inl e \<Rightarrow> Err (tv_show_ssh env e)
      | Inr _ \<Rightarrow> Ok \<lparr>sp_id = rt_ssh_profile_id target, sp_name = rt_ssh_profile_name target,
          sp_host = rt_host target, sp_port = rt_port target, sp_user = rt_user target,
          sp_identity_file = rt_identity_file target, sp_proxy_jump = rt_proxy_jump target,
          sp_tags = [], sp_source = ''session_remote_target'', sp_created_at = now, sp_updated_at = now,
          sp_use_control_master = None\<rparr>)"

definition quoted :: "string \<Rightarrow> string" where
  "quoted s = CHR 0x22 # s @ [CHR 0x22]"

definition is_team_pane :: "pane_row \<Rightarrow> bool" where
  "is_team_pane p =
     (case pn_metadata_json p of None \<Rightarrow> False
      | Some m \<Rightarrow> str_contains m (quoted ''agent_team'') \<or> str_contains m (quoted ''team_id''))"

definition position_for_team_member :: "string \<Rightarrow> team_world \<Rightarrow> string" where
  "position_for_team_member leader_pane_id w =
     ''after:'' @ (case find is_team_pane (rev (list_panes w)) of None \<Rightarrow> leader_pane_id | Some p \<Rightarrow> pn_id p)"

definition team_pane_metadata_json ::
  "team_env \<Rightarrow> string \<Rightarrow> string \<Rightarrow> string \<Rightarrow> nat \<Rightarrow> remote_target option \<Rightarrow> string" where
  "team_pane_metadata_json env team_id leader provider index remote =
     tv_encode env \<lparr>ev_agent_team = Some \<lparr>tm_team_id = team_id, tm_leader_session_id = leader,
         tm_provider = provider, tm_role = ''member'', tm_member_index = index\<rparr>,
       ev_remote_target = remote\<rparr>"

definition leader_team_pane_metadata_json ::
  "team_env \<Rightarrow> string \<Rightarrow> string \<Rightarrow> string \<Rightarrow> remote_target option \<Rightarrow> string" where
  "leader_team_pane_metadata_json env team_id leader provider remote =
     tv_encode env \<lparr>ev_agent_team = Some \<lparr>tm_team_id = team_id, tm_leader_session_id = leader,
         tm_provider = provider, tm_role = ''leader'', tm_member_index = 0\<rparr>,
       ev_remote_target = remote\<rparr>"

definition parse_agent_team_metadata ::
  "team_env \<Rightarrow> string option \<Rightarrow> (team_metadata \<times> remote_target option) option" where
  "parse_agent_team_metadata env json =
     Option.bind json (\<lambda>j. Option.bind (tv_decode env j) (\<lambda>e.
     map_option (\<lambda>m. (m, ev_remote_target e)) (ev_agent_team e)))"

section \<open>Spawning and closing a member\<close>

definition check_member_command :: "string \<Rightarrow> string + unit" where
  "check_member_command cmd =
     (if str_trim cmd = [] then Err ''team member command must not be empty''
      else if length cmd > MAX_MEMBER_COMMAND_BYTES
      then Err (''team member command exceeds '' @ nat_str MAX_MEMBER_COMMAND_BYTES @ '' bytes'')
      else if CHR 0x00 \<in> set cmd then Err ''team member command contains a NUL byte''
      else Ok ())"

definition told_index :: "string \<Rightarrow> team_store \<Rightarrow> nat" where
  "told_index team_id st =
     (case team_snapshot_of st team_id of None \<Rightarrow> 1 | Some s \<Rightarrow> length (sn_members s) + 1)"

definition told_command :: "team_config \<Rightarrow> nat \<Rightarrow> string \<Rightarrow> string" where
  "told_command c i cmd = wrap_command_with_env (with_tmux_pane_token (tc_base_env c) (token_of i)) cmd"

definition member_name :: "team_config \<Rightarrow> nat \<Rightarrow> string" where
  "member_name c i = tc_provider c @ '' teammate '' @ nat_str i"

definition start_session :: "team_env \<Rightarrow> team_config \<Rightarrow> nat \<Rightarrow> string \<Rightarrow> team_world \<Rightarrow> (string + team_session) \<times> team_world" where
  "start_session env c i cmd w =
     (let n = tw_seq w; w = w\<lparr>tw_seq := n + 1\<rparr>;
          name = member_name c i; told = told_command c i cmd;
          r = (case tc_remote_target c of
                 Some t \<Rightarrow>
                   (case ssh_profile_from_remote_target env t (tv_now env n) of Inl e \<Rightarrow> Err e
                    | Inr p \<Rightarrow> tv_spawn_remote env n name p (rt_ssh_profile_id t) (tc_working_dir c) told)
               | None \<Rightarrow> tv_spawn_local env n name (tc_working_dir c) told)
      in (r, case r of Inl _ \<Rightarrow> w | Inr s \<Rightarrow> upsert_session s w))"

definition team_not_found :: "string \<Rightarrow> string" where
  "team_not_found i = ''agent team not found: '' @ i"

text \<open>After the session: the pane with the index it was told, then the entry in the store with the
  index of the store.\<close>

definition add_member ::
  "team_env \<Rightarrow> string \<Rightarrow> string \<Rightarrow> string option \<Rightarrow> team_config \<Rightarrow> nat \<Rightarrow> team_session \<Rightarrow> team_world
     \<Rightarrow> (string + spawn_result) \<times> team_world" where
  "add_member env team_id cmd label c i s w =
     (let pane_id = tv_fresh env (tw_seq w);
          name = (case label of None \<Rightarrow> member_name c i | Some t \<Rightarrow> t);
          pane = \<lparr>pn_id = pane_id, pn_session_id = Some (tn_id s), pn_type = ''terminal'',
             pn_position = position_for_team_member (tc_leader_pane_id c) w, pn_label = name,
             pn_metadata_json = Some (team_pane_metadata_json env team_id (tc_leader_session_id c)
                (tc_provider c) i (tc_remote_target c))\<rparr>;
          w = upsert_pane pane (w\<lparr>tw_seq := tw_seq w + 1\<rparr>)
      in case register_member team_id (tn_id s) pane_id cmd name (tw_store w) of
           (None, st) \<Rightarrow> (Err (team_not_found team_id), w\<lparr>tw_store := st\<rparr>)
         | (Some r, st) \<Rightarrow> (Ok r, w\<lparr>tw_store := st, tw_log := tw_log w @ [''AgentTeamMemberSpawned'']\<rparr>))"

definition spawn_member_with_runtime ::
  "team_env \<Rightarrow> string \<Rightarrow> string \<Rightarrow> string option \<Rightarrow> team_world \<Rightarrow> (string + spawn_result) \<times> team_world" where
  "spawn_member_with_runtime env team_id cmd label w =
     (case check_member_command cmd of Inl e \<Rightarrow> (Err e, w)
      | Inr _ \<Rightarrow>
          (case config_for_team (tw_store w) team_id of None \<Rightarrow> (Err (team_not_found team_id), w)
           | Some c \<Rightarrow>
               let i = told_index team_id (tw_store w) in
               (case start_session env c i cmd w of
                  (Inl e, w1) \<Rightarrow> (Err e, w1)
                | (Inr s, w1) \<Rightarrow> add_member env team_id cmd label c i s w1)))"

definition kill_backend :: "team_env \<Rightarrow> string \<Rightarrow> team_world \<Rightarrow> team_world" where
  "kill_backend env session_id w =
     (if tv_is_uuid env session_id then w\<lparr>tw_stopped := tw_stopped w @ [session_id]\<rparr> else w)"

definition stop_member ::
  "team_env \<Rightarrow> team_config \<Rightarrow> string \<Rightarrow> team_session option \<Rightarrow> team_world \<Rightarrow> (string + unit) \<times> team_world" where
  "stop_member env c session_id row w =
     (case row of None \<Rightarrow> (Ok (), kill_backend env session_id w)
      | Some s \<Rightarrow>
          if to_ascii_lowercase (tn_backend s) = ''remote_ssh_durable'' then
            (case tc_remote_target c of None \<Rightarrow> (Ok (), w)
             | Some t \<Rightarrow>
                 let n = tw_seq w; w = w\<lparr>tw_seq := n + 1\<rparr> in
                 (case ssh_profile_from_remote_target env t (tv_now env n) of Inl e \<Rightarrow> (Err e, w)
                  | Inr p \<Rightarrow>
                      (case tv_terminate env n p (case_option (tn_id s) id (tn_remote_session_id s)) of
                         Inl e \<Rightarrow> (Err e, w)
                       | Inr _ \<Rightarrow> (Ok (), w\<lparr>tw_stopped := tw_stopped w @ [session_id]\<rparr>))))
          else (Ok (), kill_backend env session_id w))"

definition close_member_with_runtime ::
  "team_env \<Rightarrow> string \<Rightarrow> string \<Rightarrow> team_world \<Rightarrow> (string + spawn_result) \<times> team_world" where
  "close_member_with_runtime env team_id session_id w =
     (let row = get_session session_id w in
      case config_for_team (tw_store w) team_id of None \<Rightarrow> (Err (team_not_found team_id), w)
      | Some c \<Rightarrow>
          (case stop_member env c session_id row w of
             (Inl e, w1) \<Rightarrow> (Err e, w1)
           | (Inr _, w1) \<Rightarrow>
               (case remove_member team_id session_id (tw_store w1) of
                  (None, st) \<Rightarrow> (Err (''team member not found: '' @ session_id @ '' in team '' @ team_id), w1)
                | (Some r, st) \<Rightarrow>
                    let w2 = remove_pane (mb_pane_id (sr_member r)) (w1\<lparr>tw_store := st\<rparr>);
                        n = tw_seq w2;
                        w3 = (case row of None \<Rightarrow> w2
                              | Some s \<Rightarrow> upsert_session (s\<lparr>tn_status := ''complete'',
                                  tn_lifecycle_state := ''exited'', tn_ended_at := Some (tv_now env (n + 1))\<rparr>)
                                  (w2\<lparr>tw_seq := n + 2\<rparr>))
                    in (Ok r, w3\<lparr>tw_log := tw_log w3 @ [''AgentTeamMemberClosed'']\<rparr>))))"

definition handle_member_session_exit :: "string \<Rightarrow> team_world \<Rightarrow> team_world" where
  "handle_member_session_exit session_id w =
     (case remove_member_by_session session_id (tw_store w) of
        (None, _) \<Rightarrow> w
      | (Some r, st) \<Rightarrow>
          let w1 = remove_pane (mb_pane_id (sr_member r)) (w\<lparr>tw_store := st\<rparr>)
          in w1\<lparr>tw_log := tw_log w1 @ [''AgentTeamMemberExited'']\<rparr>)"

section \<open>Rehydration\<close>

definition session_row_is_rehydratable :: "team_session \<Rightarrow> bool" where
  "session_row_is_rehydratable s \<longleftrightarrow> tn_ended_at s = None \<and> tn_status s \<notin> {''complete'', ''error''}"

record partial_team =
  pt_team_id :: string
  pt_provider :: string
  pt_leader_session_id :: string
  pt_leader_pane_id :: string
  pt_working_dir :: string
  pt_remote_target :: "remote_target option"
  pt_members :: "team_member list"

text \<open>The entry of a hash map is kept in an association list in the order of insertion: the code
  sorts the teams afterwards.\<close>

definition entry_or ::
  "string \<Rightarrow> ('a \<Rightarrow> 'a) \<Rightarrow> 'a \<Rightarrow> (string \<times> 'a) list \<Rightarrow> (string \<times> 'a) list" where
  "entry_or k modify fresh m =
     (if map_of m k = None then m @ [(k, fresh)]
      else map (\<lambda>(i, x). (i, if i = k then modify x else x)) m)"

definition restored_member :: "team_metadata \<Rightarrow> pane_row \<Rightarrow> team_session \<Rightarrow> team_member" where
  "restored_member meta pane s =
     \<lparr>mb_team_id = tm_team_id meta, mb_provider = tm_provider meta, mb_session_id = tn_id s,
      mb_pane_id = pn_id pane, mb_pane_token = token_of (tm_member_index meta),
      mb_index = tm_member_index meta, mb_title = pn_label pane, mb_command = tn_command s\<rparr>"

text \<open>The panes of a team with a live session, each with its metadata and session.\<close>

definition team_pane ::
  "team_env \<Rightarrow> team_session list \<Rightarrow> pane_row
     \<Rightarrow> (pane_row \<times> team_metadata \<times> remote_target option \<times> team_session) option" where
  "team_pane env live pane =
     Option.bind (parse_agent_team_metadata env (pn_metadata_json pane)) (\<lambda>(meta, remote).
     Option.bind (pn_session_id pane) (\<lambda>i.
     map_option (\<lambda>s. (pane, meta, remote, s)) (find (\<lambda>s. tn_id s = i) live)))"

fun add_team_pane ::
  "pane_row \<times> team_metadata \<times> remote_target option \<times> team_session
     \<Rightarrow> (string \<times> partial_team) list \<Rightarrow> (string \<times> partial_team) list" where
  "add_team_pane (pane, meta, remote, s) ps =
     (if tm_role meta = ''leader'' then
        entry_or (tm_team_id meta)
          (\<lambda>t. t\<lparr>pt_provider := tm_provider meta, pt_leader_session_id := tn_id s,
                 pt_leader_pane_id := pn_id pane, pt_working_dir := tn_cwd s, pt_remote_target := remote\<rparr>)
          \<lparr>pt_team_id = tm_team_id meta, pt_provider = tm_provider meta, pt_leader_session_id = tn_id s,
           pt_leader_pane_id = pn_id pane, pt_working_dir = tn_cwd s, pt_remote_target = remote,
           pt_members = []\<rparr> ps
      else if tm_role meta = ''member'' then
        entry_or (tm_team_id meta)
          (\<lambda>t. t\<lparr>pt_members := pt_members t @ [restored_member meta pane s]\<rparr>)
          \<lparr>pt_team_id = tm_team_id meta, pt_provider = tm_provider meta,
           pt_leader_session_id = tm_leader_session_id meta, pt_leader_pane_id = [],
           pt_working_dir = tn_cwd s, pt_remote_target = remote,
           pt_members = [restored_member meta pane s]\<rparr> ps
      else ps)"

definition partial_teams ::
  "(pane_row \<times> team_metadata \<times> remote_target option \<times> team_session) list \<Rightarrow> (string \<times> partial_team) list" where
  "partial_teams xs = foldl (\<lambda>ps x. add_team_pane x ps) [] xs"

definition build_rehydrated_team_config :: "team_env \<Rightarrow> string \<Rightarrow> partial_team \<Rightarrow> string + team_config" where
  "build_rehydrated_team_config env socket_path t =
     (let seed = \<lparr>tc_team_id = pt_team_id t, tc_provider = pt_provider t,
            tc_leader_session_id = pt_leader_session_id t, tc_leader_pane_id = pt_leader_pane_id t,
            tc_working_dir = pt_working_dir t, tc_control_socket_path = socket_path,
            tc_base_env = [], tc_remote_target = pt_remote_target t\<rparr>
      in if pt_provider t = ''claude-code'' then
           (case prepare_claude_team_environment (tv_shim env) (tv_path env) seed LEADER_PANE_TOKEN of
              Inl e \<Rightarrow> Err e | Inr base_env \<Rightarrow> Ok (seed\<lparr>tc_base_env := base_env\<rparr>))
         else Ok seed)"

fun finish_teams :: "team_env \<Rightarrow> string \<Rightarrow> partial_team list \<Rightarrow> string + (team_config \<times> team_member list) list" where
  "finish_teams env socket_path [] = Ok []"
| "finish_teams env socket_path (t # ts) =
     (case build_rehydrated_team_config env socket_path t of Inl e \<Rightarrow> Err e
      | Inr c \<Rightarrow>
          (case finish_teams env socket_path ts of Inl e \<Rightarrow> Err e
           | Inr rest \<Rightarrow> Ok ((c, sort_key mb_index (pt_members t)) # rest)))"

definition collect_rehydrated_teams ::
  "team_env \<Rightarrow> string \<Rightarrow> team_session list \<Rightarrow> pane_row list \<Rightarrow> string + (team_config \<times> team_member list) list" where
  "collect_rehydrated_teams env socket_path sessions panes =
     (let live = filter session_row_is_rehydratable sessions;
          partials = partial_teams (List.map_filter (team_pane env live) panes)
      in case finish_teams env socket_path (filter (\<lambda>t. pt_leader_pane_id t \<noteq> []) (map snd partials)) of
           Inl e \<Rightarrow> Err e
         | Inr teams \<Rightarrow> Ok (sort_key (tc_team_id \<circ> fst) teams))"

fun rehydrate_each :: "(team_config \<times> team_member list) list \<Rightarrow> team_store \<Rightarrow> team_snapshot list \<times> team_store" where
  "rehydrate_each [] st = ([], st)"
| "rehydrate_each ((c, ms) # ts) st =
     (case rehydrate_team c True ms st of (s, st1) \<Rightarrow>
        (case rehydrate_each ts st1 of (rest, st2) \<Rightarrow> (s # rest, st2)))"

definition rehydrate_all_teams_with_runtime ::
  "team_env \<Rightarrow> string \<Rightarrow> team_world \<Rightarrow> (string + team_snapshot list) \<times> team_world" where
  "rehydrate_all_teams_with_runtime env socket_path w =
     (case collect_rehydrated_teams env socket_path (tw_sessions w) (list_panes w) of
        Inl e \<Rightarrow> (Err e, w)
      | Inr teams \<Rightarrow>
          (case rehydrate_each teams empty_store of (snaps, st) \<Rightarrow>
             (Ok snaps, w\<lparr>tw_store := st,
                tw_log := tw_log w @ map (\<lambda>_. ''AgentTeamRehydrated'') snaps\<rparr>)))"

section \<open>Collecting the result of a member\<close>

text \<open>\<open>remote_tail\<close> and \<open>local_tail\<close> read the end of a session log; \<open>log_file\<close> is the text of the
  file that is read when the session is not known. The outer \<open>None\<close> is the panic of the cut.\<close>

definition transcript_text ::
  "team_env \<Rightarrow> (ssh_profile \<Rightarrow> string + string) \<Rightarrow> (string \<Rightarrow> string + string) \<Rightarrow> (string \<Rightarrow> string option)
     \<Rightarrow> (string \<Rightarrow> string) \<Rightarrow> remote_target option \<Rightarrow> string \<Rightarrow> time \<Rightarrow> string + string" where
  "transcript_text env remote_tail local_tail log_file redact remote session_id now =
     (case remote of
        Some t \<Rightarrow>
          (case ssh_profile_from_remote_target env t now of Inl e \<Rightarrow> Err e
           | Inr p \<Rightarrow> (case remote_tail p of Inl e \<Rightarrow> Err e | Inr text \<Rightarrow> Ok (redact text)))
      | None \<Rightarrow>
          if \<not> tv_is_uuid env session_id then Err (tv_uuid_error env session_id)
          else (case local_tail session_id of Inr text \<Rightarrow> Ok text
                | Inl _ \<Rightarrow> Ok (redact (case_option [] id (log_file session_id)))))"

definition collect_member_result_with_runtime ::
  "team_env \<Rightarrow> (ssh_profile \<Rightarrow> string + string) \<Rightarrow> (string \<Rightarrow> string + string) \<Rightarrow> (string \<Rightarrow> string option)
     \<Rightarrow> (string \<Rightarrow> string) \<Rightarrow> string \<Rightarrow> string \<Rightarrow> time \<Rightarrow> team_store \<Rightarrow> (string + string) option" where
  "collect_member_result_with_runtime env remote_tail local_tail log_file redact team_id session_id now st =
     (case config_for_team st team_id of None \<Rightarrow> Some (Err (team_not_found team_id))
      | Some c \<Rightarrow>
          (case transcript_text env remote_tail local_tail log_file redact (tc_remote_target c) session_id now of
             Inl e \<Rightarrow> Some (Err e)
           | Inr text \<Rightarrow> map_option Ok (trim_for_json text SCROLLBACK_SUMMARY_BYTES)))"

section \<open>The store over a run\<close>

text \<open>The operations on the store while the program runs: a session joins one team once, its
  identifier being fresh.\<close>

inductive team_step :: "team_store \<Rightarrow> team_store \<Rightarrow> bool" where
  start: "team_step st (snd (team_start input st))"
| register: "ts_member_sessions st s = None \<Longrightarrow> team_step st (snd (register_member i s pane cmd name st))"
| remove: "team_step st (snd (remove_member i s st))"
| exit: "team_step st (snd (remove_member_by_session s st))"
| layout: "team_step st (snd (set_main_vertical i enabled st))"
| clear: "team_step st empty_store"

inductive team_reachable :: "team_store \<Rightarrow> bool" where
  init: "team_reachable empty_store"
| step: "team_reachable st \<Longrightarrow> team_step st st' \<Longrightarrow> team_reachable st'"

definition team_inv :: "string \<Rightarrow> team_state \<Rightarrow> bool" where
  "team_inv i t \<longleftrightarrow> tc_team_id (te_config t) = i
     \<and> sorted_wrt (<) (map mb_index (te_members t))
     \<and> distinct (map mb_session_id (te_members t))
     \<and> (\<forall>m \<in> set (te_members t). 1 \<le> mb_index m \<and> mb_index m < te_next_index t
          \<and> mb_pane_token m = token_of (mb_index m) \<and> mb_team_id m = i)
     \<and> 1 \<le> te_next_index t"

definition store_inv :: "team_store \<Rightarrow> bool" where
  "store_inv st \<longleftrightarrow> (\<forall>i t. ts_teams st i = Some t \<longrightarrow> team_inv i t)
     \<and> (\<forall>s i. ts_member_sessions st s = Some i
          \<longleftrightarrow> (\<exists>t. ts_teams st i = Some t \<and> s \<in> mb_session_id ` set (te_members t)))"

lemma take_member_Some:
  assumes "take_member s ms = Some (m, rest)"
  shows "mb_session_id m = s" "\<exists>xs ys. ms = xs @ m # ys \<and> rest = xs @ ys \<and> s \<notin> mb_session_id ` set xs"
proof -
  have "mb_session_id m = s \<and> (\<exists>xs ys. ms = xs @ m # ys \<and> rest = xs @ ys \<and> s \<notin> mb_session_id ` set xs)"
    using assms
  proof (induction ms arbitrary: rest)
    case (Cons a ms)
    show ?case
    proof (cases "mb_session_id a = s")
      case True with Cons.prems show ?thesis by (intro conjI exI[of _ "[]"] exI[of _ ms]) auto
    next
      case False
      with Cons obtain r where r: "take_member s ms = Some (m, r)" "rest = a # r" by auto
      from Cons.IH[OF r(1)] obtain xs ys where "mb_session_id m = s" "ms = xs @ m # ys" "r = xs @ ys"
        "s \<notin> mb_session_id ` set xs" by blast
      with r(2) False show ?thesis by (intro conjI exI[of _ "a # xs"] exI[of _ ys]) auto
    qed
  qed simp
  then show "mb_session_id m = s" "\<exists>xs ys. ms = xs @ m # ys \<and> rest = xs @ ys \<and> s \<notin> mb_session_id ` set xs"
    by auto
qed

lemma take_member_None: "take_member s ms = None \<longleftrightarrow> s \<notin> mb_session_id ` set ms"
  by (induction ms) auto

lemma take_member_team_inv:
  assumes "team_inv i t" "take_member s (te_members t) = Some (m, rest)"
  shows "team_inv i (t\<lparr>te_members := rest\<rparr>)" "mb_session_id ` set rest = mb_session_id ` set (te_members t) - {s}"
proof -
  obtain xs ys where *: "te_members t = xs @ m # ys" "rest = xs @ ys" "mb_session_id m = s"
    using take_member_Some[OF assms(2)] by blast
  show "team_inv i (t\<lparr>te_members := rest\<rparr>)"
    using assms(1) * by (auto simp: team_inv_def sorted_wrt_append)
  show "mb_session_id ` set rest = mb_session_id ` set (te_members t) - {s}"
    using assms(1) * by (auto simp: team_inv_def) (metis image_eqI)+
qed

lemma store_invD: "store_inv st \<Longrightarrow> ts_teams st i = Some t \<Longrightarrow> team_inv i t"
  by (simp add: store_inv_def)

lemma store_inv_update:
  assumes inv: "store_inv st" and t: "team_inv i t"
    and ms: "\<And>s. ms s = (if s \<in> mb_session_id ` set (te_members t) then Some i
        else if ts_member_sessions st s = Some i then None else ts_member_sessions st s)"
    and other: "\<And>s. s \<in> mb_session_id ` set (te_members t) \<Longrightarrow> ts_member_sessions st s \<in> {None, Some i}"
  shows "store_inv (st\<lparr>ts_teams := (ts_teams st)(i \<mapsto> t), ts_member_sessions := ms\<rparr>)"
proof -
  have m: "ts_member_sessions st s = Some j
      \<longleftrightarrow> (\<exists>t. ts_teams st j = Some t \<and> s \<in> mb_session_id ` set (te_members t))" for s j
    using inv unfolding store_inv_def by blast
  have "ms s = Some j \<longleftrightarrow> (\<exists>u. ((ts_teams st)(i \<mapsto> t)) j = Some u \<and> s \<in> mb_session_id ` set (te_members u))" for s j
  proof (cases "j = i")
    case True then show ?thesis by (auto simp: ms)
  next
    case False
    then have "ms s = Some j \<longleftrightarrow> s \<notin> mb_session_id ` set (te_members t) \<and> ts_member_sessions st s = Some j"
      by (auto simp: ms)
    also have "\<dots> \<longleftrightarrow> ts_member_sessions st s = Some j"
      using other[of s] False by auto
    finally show ?thesis using False m by simp
  qed
  then show ?thesis using inv t by (simp add: store_inv_def)
qed

lemma member_sessions_iff:
  assumes "store_inv st" "ts_teams st i = Some t"
  shows "ts_member_sessions st s = Some i \<longleftrightarrow> s \<in> mb_session_id ` set (te_members t)"
  using assms by (auto simp: store_inv_def)

lemma start_inv: "store_inv st \<Longrightarrow> store_inv (snd (team_start input st))"
proof -
  assume inv: "store_inv st"
  let ?i = "tc_team_id input"
  define old where "old = (case ts_teams st ?i of
      None \<Rightarrow> \<lparr>te_config = input, te_main_vertical = True, te_next_index = 1, te_members = []\<rparr> | Some t \<Rightarrow> t)"
  define t where "t = old\<lparr>te_config := input\<lparr>tc_team_id := tc_team_id (te_config old)\<rparr>\<rparr>"
  have old: "team_inv ?i old" "\<And>s. ts_member_sessions st s = Some ?i \<longleftrightarrow> s \<in> mb_session_id ` set (te_members old)"
    using store_invD[OF inv] member_sessions_iff[OF inv] inv
    by (auto simp: old_def team_inv_def store_inv_def split: option.split)
  then have t: "team_inv ?i t" "te_members t = te_members old"
    by (auto simp: t_def team_inv_def)
  have "store_inv (st\<lparr>ts_teams := (ts_teams st)(?i \<mapsto> t), ts_member_sessions := ts_member_sessions st\<rparr>)"
    by (rule store_inv_update[OF inv t(1)]) (auto simp: t(2) old(2)[symmetric])
  then show ?thesis by (simp add: team_start_def Let_def t_def old_def)
qed

lemma register_inv:
  assumes inv: "store_inv st" and fresh: "ts_member_sessions st s = None"
  shows "store_inv (snd (register_member i s pane cmd name st))"
proof (cases "ts_teams st i")
  case (Some t)
  define m where "m = \<lparr>mb_team_id = tc_team_id (te_config t), mb_provider = tc_provider (te_config t),
    mb_session_id = s, mb_pane_id = pane, mb_pane_token = token_of (te_next_index t),
    mb_index = te_next_index t, mb_title = name, mb_command = cmd\<rparr>"
  let ?t = "t\<lparr>te_next_index := te_next_index t + 1, te_members := te_members t @ [m]\<rparr>"
  have ti: "team_inv i t" by (rule store_invD[OF inv Some])
  have nots: "s \<notin> mb_session_id ` set (te_members t)"
    using fresh member_sessions_iff[OF inv Some, of s] by simp
  have "team_inv i ?t" using ti nots by (auto simp: team_inv_def m_def sorted_wrt_append)
  then have "store_inv (st\<lparr>ts_teams := (ts_teams st)(i \<mapsto> ?t),
      ts_member_sessions := (ts_member_sessions st)(s \<mapsto> i)\<rparr>)"
    using fresh member_sessions_iff[OF inv Some]
    by (intro store_inv_update[OF inv]) (auto simp: m_def)
  then show ?thesis using Some ti by (simp add: register_member_def Let_def m_def team_inv_def)
qed (simp add: register_member_def inv)

lemma remove_inv:
  assumes inv: "store_inv st"
  shows "store_inv (snd (remove_member i s st))"
proof (cases "ts_teams st i")
  case (Some t)
  show ?thesis
  proof (cases "take_member s (te_members t)")
    case None with Some inv show ?thesis by (simp add: remove_member_def)
  next
    case (Some x)
    obtain m rest where x: "x = (m, rest)" by (cases x)
    let ?t = "t\<lparr>te_members := rest\<rparr>"
    note t = take_member_team_inv[OF store_invD[OF inv \<open>ts_teams st i = Some t\<close>] Some[unfolded x]]
    have mem: "ts_member_sessions st s = Some i"
      using take_member_None[of s "te_members t"] Some member_sessions_iff[OF inv \<open>ts_teams st i = Some t\<close>] by auto
    have "store_inv (st\<lparr>ts_teams := (ts_teams st)(i \<mapsto> ?t),
        ts_member_sessions := (ts_member_sessions st)(s := None)\<rparr>)"
      using t(2) mem member_sessions_iff[OF inv \<open>ts_teams st i = Some t\<close>]
      by (intro store_inv_update[OF inv t(1)]) auto
    then show ?thesis using Some x \<open>ts_teams st i = Some t\<close> by (simp add: remove_member_def)
  qed
qed (simp add: remove_member_def inv)

lemma layout_inv: "store_inv st \<Longrightarrow> store_inv (snd (set_main_vertical i enabled st))"
  by (auto simp: set_main_vertical_def store_inv_def team_inv_def split: option.split)

lemma empty_inv: "store_inv empty_store"
  by (simp add: store_inv_def empty_store_def)

lemma reachable_inv: "team_reachable st \<Longrightarrow> store_inv st"
proof (induction rule: team_reachable.induct)
  case init show ?case by (rule empty_inv)
next
  case (step st st')
  from step.hyps(2) step.IH show ?case
    by (cases rule: team_step.cases)
       (auto simp: start_inv register_inv remove_inv layout_inv remove_member_by_session_def
         empty_inv split: option.split)
qed

text \<open>Decimal numerals differ for different numbers.\<close>

definition digits_value :: "string \<Rightarrow> nat" where
  "digits_value s = foldl (\<lambda>a c. 10 * a + (of_char c - 48)) 0 s"

lemma digits_value_nat_str: "digits_value (nat_str n) = n"
proof (induction n rule: nat_str.induct)
  case (1 n)
  have d: "of_char (char_of (48 + k) :: char) = 48 + k" if "k < 10" for k :: nat
    using that by (simp add: of_char_of)
  show ?case
    by (subst nat_str.simps) (use 1 d in \<open>auto simp: digits_value_def\<close>)
qed

lemma token_of_eq [simp]: "token_of i = token_of j \<longleftrightarrow> i = j"
  unfolding token_of_def by (metis append.right_neutral digits_value_nat_str same_append_eq)

lemma token_of_leader: "1 \<le> i \<Longrightarrow> token_of i \<noteq> LEADER_PANE_TOKEN"
proof -
  have "LEADER_PANE_TOKEN = token_of 0" by (simp add: LEADER_PANE_TOKEN_def token_of_def nat_str.simps) code_simp
  then show "1 \<le> i \<Longrightarrow> token_of i \<noteq> LEADER_PANE_TOKEN" by (metis token_of_eq not_one_le_zero)
qed


section \<open>The token a member is told\<close>

lemma tmux_pane_told: "map_of (with_tmux_pane_token env token) ''TMUX_PANE'' = Some token"
proof -
  have "map_of (map (\<lambda>(k, v). (k, if k = ''TMUX_PANE'' then token else v)) env) ''TMUX_PANE''
      = (if list_ex (\<lambda>(k, v). k = ''TMUX_PANE'') env then Some token else None)"
    by (induction env) auto
  then show ?thesis by (simp add: with_tmux_pane_token_def map_add_def)
qed

lemma told_index_members: "ts_teams st i = Some t \<Longrightarrow> told_index i st = length (te_members t) + 1"
  by (simp add: told_index_def team_snapshot_of_def snapshot_from_state_def)

lemma upsert_pane_in: "p \<in> set (tw_panes (upsert_pane p w))"
  by (auto simp: upsert_pane_def list_ex_iff)

lemma start_session_store: "start_session env c i cmd w = (r, w') \<Longrightarrow> tw_store w' = tw_store w"
  by (auto simp: start_session_def upsert_session_def Let_def split: sum.splits)

lemma upsert_pane_store [simp]: "tw_store (upsert_pane p w) = tw_store w"
  by (simp add: upsert_pane_def)

lemma add_member_Ok:
  assumes "add_member env i cmd label c k s w = (Ok r, w')" "ts_teams (tw_store w) i = Some t"
  shows "mb_pane_token (sr_member r) = token_of (te_next_index t)" "mb_session_id (sr_member r) = tn_id s"
    "\<exists>p \<in> set (tw_panes w'). pn_id p = mb_pane_id (sr_member r) \<and> pn_session_id p = Some (tn_id s)
       \<and> pn_metadata_json p = Some (team_pane_metadata_json env i (tc_leader_session_id c) (tc_provider c) k (tc_remote_target c))"
  using assms
  by (auto simp: add_member_def Let_def register_member_def spawn_result_of_def
      intro!: bexI[OF _ upsert_pane_in])

text \<open>
  A member is told the wrong pane after another one left. A spawned member gets the token of
  its pane in its environment, and the number of members plus one for it, which also goes into the
  row of the pane. The store gives the next number of its own counter, so the two agree exactly
  when no number was given to a member that has left; otherwise the process can be told the token
  of a living member, and the row of its pane then holds the number of this member too.
\<close>

theorem told_token_wrong_after_leave:
  assumes "team_reachable (tw_store w)" "ts_teams (tw_store w) i = Some t"
    and "spawn_member_with_runtime env i cmd label w = (Ok r, w')"
    and "k = length (te_members t) + 1"
  shows "(\<exists>s. fst (start_session env (te_config t) k cmd w) = Ok s \<and> mb_session_id (sr_member r) = tn_id s)
    \<and> map_of (with_tmux_pane_token (tc_base_env (te_config t)) (token_of k)) ''TMUX_PANE'' = Some (token_of k)
    \<and> (\<exists>p \<in> set (tw_panes w'). pn_id p = mb_pane_id (sr_member r)
         \<and> pn_metadata_json p = Some (team_pane_metadata_json env i (tc_leader_session_id (te_config t))
             (tc_provider (te_config t)) k (tc_remote_target (te_config t))))
    \<and> (mb_pane_token (sr_member r) = token_of k \<longleftrightarrow> te_next_index t = k)
    \<and> (token_of k \<in> mb_pane_token ` set (te_members t) \<longleftrightarrow> k \<in> mb_index ` set (te_members t))"
proof -
  have inv: "team_inv i t" by (rule store_invD[OF reachable_inv[OF assms(1)] assms(2)])
  from assms(3) obtain s w1 where s: "start_session env (te_config t) k cmd w = (Ok s, w1)"
    and a: "add_member env i cmd label (te_config t) k s w1 = (Ok r, w')"
    using assms(2,4)
    by (auto simp: spawn_member_with_runtime_def config_for_team_def told_index_members Let_def
        split: sum.splits prod.splits)
  have t: "ts_teams (tw_store w1) i = Some t" using start_session_store[OF s] assms(2) by simp
  have "token_of k \<in> mb_pane_token ` set (te_members t) \<longleftrightarrow> k \<in> mb_index ` set (te_members t)"
    using inv by (fastforce simp: team_inv_def image_iff)
  then show ?thesis
    using add_member_Ok[OF a t] s tmux_pane_told by auto
qed

text \<open>Two spawns that overlap are told the same pane.\<close>

lemma overlapping_spawns_told_alike:
  "ts_teams st i = Some t \<Longrightarrow> told_command (te_config t) (told_index i st) cmd
     = wrap_command_with_env (with_tmux_pane_token (tc_base_env (te_config t)) (token_of (length (te_members t) + 1))) cmd"
  by (simp add: told_command_def told_index_members)

section \<open>What rehydration restores\<close>

type_synonym pane_entry = "pane_row \<times> team_metadata \<times> remote_target option \<times> team_session"

definition of_team :: "string \<Rightarrow> string \<Rightarrow> pane_entry list \<Rightarrow> pane_entry list" where
  "of_team role k xs = filter (\<lambda>(p, meta, remote, s). tm_team_id meta = k \<and> tm_role meta = role) xs"

definition restored_members :: "string \<Rightarrow> pane_entry list \<Rightarrow> team_member list" where
  "restored_members k xs = map (\<lambda>(p, meta, remote, s). restored_member meta p s) (of_team ''member'' k xs)"

definition leads :: "pane_entry \<Rightarrow> partial_team \<Rightarrow> bool" where
  "leads x t = (case x of (p, meta, remote, s) \<Rightarrow> pt_leader_pane_id t = pn_id p \<and> pt_leader_session_id t = tn_id s
     \<and> pt_working_dir t = tn_cwd s \<and> pt_provider t = tm_provider meta \<and> pt_remote_target t = remote)"

definition partial_ok :: "pane_entry list \<Rightarrow> string \<Rightarrow> partial_team \<Rightarrow> bool" where
  "partial_ok xs k t \<longleftrightarrow> pt_team_id t = k \<and> pt_members t = restored_members k xs
     \<and> (if of_team ''leader'' k xs = [] then pt_leader_pane_id t = [] else leads (last (of_team ''leader'' k xs)) t)"

lemma entry_or_map_of:
  "map_of (entry_or k f x m) i = (if i = k then Some (case map_of m k of None \<Rightarrow> x | Some y \<Rightarrow> f y) else map_of m i)"
proof (cases "map_of m k")
  case None then show ?thesis by (auto simp: entry_or_def map_add_def split: option.split)
next
  case (Some y)
  have "map_of (map (\<lambda>(i, x). (i, if i = k then f x else x)) m) i
      = map_option (\<lambda>x. if i = k then f x else x) (map_of m i)"
    by (induction m) auto
  with Some show ?thesis by (auto simp: entry_or_def option.map_id0[unfolded id_def])
qed

lemma entry_or_distinct: "distinct (map fst m) \<Longrightarrow> distinct (map fst (entry_or k f x m))"
  by (auto simp: entry_or_def map_of_eq_None_iff comp_def case_prod_beta)

lemma of_team_snoc:
  "of_team role k (xs @ [(p, meta, remote, s)])
     = of_team role k xs @ (if tm_team_id meta = k \<and> tm_role meta = role then [(p, meta, remote, s)] else [])"
  by (simp add: of_team_def)

lemma partial_teams_snoc: "partial_teams (xs @ [x]) = add_team_pane x (partial_teams xs)"
  by (simp add: partial_teams_def)

lemma partial_teams_distinct: "distinct (map fst (partial_teams xs))"
proof (induction xs rule: rev_induct)
  case (snoc x xs) then show ?case
    by (cases x) (auto simp: partial_teams_snoc entry_or_distinct)
qed (simp add: partial_teams_def)

lemma partial_teams_spec:
  "(case map_of (partial_teams xs) k of
      None \<Rightarrow> of_team ''leader'' k xs = [] \<and> of_team ''member'' k xs = []
    | Some t \<Rightarrow> partial_ok xs k t)"
proof (induction xs rule: rev_induct)
  case Nil show ?case by (simp add: partial_teams_def of_team_def)
next
  case (snoc x xs)
  obtain p meta remote s where x: "x = (p, meta, remote, s)" by (cases x)
  consider "tm_team_id meta \<noteq> k \<or> tm_role meta \<notin> {''leader'', ''member''}"
    | "tm_team_id meta = k" "tm_role meta = ''leader''" | "tm_team_id meta = k" "tm_role meta = ''member''"
    by blast
  then show ?case
  proof cases
    case 1
    then have "map_of (partial_teams (xs @ [x])) k = map_of (partial_teams xs) k"
      by (auto simp: partial_teams_snoc x entry_or_map_of)
    with snoc 1 show ?thesis
      by (auto simp: x partial_ok_def restored_members_def of_team_snoc split: option.split)
  next
    case 2 with snoc show ?thesis
      by (auto simp: partial_teams_snoc x entry_or_map_of partial_ok_def restored_members_def of_team_snoc
          leads_def split: option.splits)
  next
    case 3 with snoc show ?thesis
      by (auto simp: partial_teams_snoc x entry_or_map_of partial_ok_def restored_members_def of_team_snoc
          leads_def split: option.splits if_splits)
  qed
qed

lemma build_config_fields:
  assumes "build_rehydrated_team_config env sock t = Ok c"
  shows "tc_team_id c = pt_team_id t" "tc_provider c = pt_provider t" "tc_leader_session_id c = pt_leader_session_id t"
    "tc_leader_pane_id c = pt_leader_pane_id t" "tc_working_dir c = pt_working_dir t"
    "tc_remote_target c = pt_remote_target t"
  using assms by (auto simp: build_rehydrated_team_config_def Let_def split: sum.splits if_splits)

lemma finish_teams_ids:
  "finish_teams env sock ts = Ok teams \<Longrightarrow> map (tc_team_id \<circ> fst) teams = map pt_team_id ts"
  by (induction ts arbitrary: teams) (auto simp: build_config_fields(1) split: sum.splits)

lemma finish_teams_in:
  "finish_teams env sock ts = Ok teams \<Longrightarrow> x \<in> set teams
     \<Longrightarrow> \<exists>t \<in> set ts. build_rehydrated_team_config env sock t = Ok (fst x) \<and> snd x = sort_key mb_index (pt_members t)"
  by (induction ts arbitrary: teams) (auto split: sum.splits)

lemma partial_values:
  assumes "t \<in> set (map snd (partial_teams xs))"
  shows "map_of (partial_teams xs) (pt_team_id t) = Some t" "partial_ok xs (pt_team_id t) t"
proof -
  obtain k where k: "(k, t) \<in> set (partial_teams xs)" using assms by auto
  then have m: "map_of (partial_teams xs) k = Some t" by (simp add: partial_teams_distinct)
  with partial_teams_spec[of k xs] have ok: "partial_ok xs k t" by simp
  then have "pt_team_id t = k" by (simp add: partial_ok_def)
  with m ok show "map_of (partial_teams xs) (pt_team_id t) = Some t" "partial_ok xs (pt_team_id t) t" by simp_all
qed

lemma partial_ids: "map fst (partial_teams xs) = map pt_team_id (map snd (partial_teams xs))"
proof -
  have "fst x = pt_team_id (snd x)" if "x \<in> set (partial_teams xs)" for x
  proof -
    have "map_of (partial_teams xs) (fst x) = Some (snd x)" using that by (simp add: partial_teams_distinct)
    with partial_teams_spec[of "fst x" xs] show ?thesis by (simp add: partial_ok_def)
  qed
  then show ?thesis by simp
qed

text \<open>
  C21. A restart restores the teams whose leader lives. When the rehydration succeeds, the teams
  are, once each and in the order of their identifiers, those with a pane of a leader whose
  session is live; a team has the session, the directory, the provider and the remote target of
  the last such pane, and as its members, in the order of their numbers, exactly the panes of
  members with a live session, each with the token of the number in its row.
\<close>

theorem rehydration_exact:
  assumes "collect_rehydrated_teams env sock sessions panes = Ok teams"
    and "xs = List.map_filter (team_pane env (filter session_row_is_rehydratable sessions)) panes"
  shows "sorted (map (tc_team_id \<circ> fst) teams) \<and> distinct (map (tc_team_id \<circ> fst) teams)
    \<and> set (map (tc_team_id \<circ> fst) teams)
        = {k. of_team ''leader'' k xs \<noteq> [] \<and> pn_id (fst (last (of_team ''leader'' k xs))) \<noteq> []}
    \<and> (\<forall>(c, ms) \<in> set teams.
         (case last (of_team ''leader'' (tc_team_id c) xs) of (p, meta, remote, s) \<Rightarrow>
            tc_leader_pane_id c = pn_id p \<and> tc_leader_session_id c = tn_id s \<and> tc_working_dir c = tn_cwd s
            \<and> tc_provider c = tm_provider meta \<and> tc_remote_target c = remote)
         \<and> sorted (map mb_index ms) \<and> mset ms = mset (restored_members (tc_team_id c) xs))"
proof -
  define ps where "ps = filter (\<lambda>t. pt_leader_pane_id t \<noteq> []) (map snd (partial_teams xs))"
  obtain ts where ts: "finish_teams env sock ps = Ok ts" "teams = sort_key (tc_team_id \<circ> fst) ts"
    using assms by (auto simp: collect_rehydrated_teams_def Let_def ps_def split: sum.splits)
  have ids: "map (tc_team_id \<circ> fst) ts = map pt_team_id ps" by (rule finish_teams_ids[OF ts(1)])
  have "distinct (map pt_team_id (map snd (partial_teams xs)))"
    unfolding partial_ids[symmetric] by (rule partial_teams_distinct)
  then have d: "distinct (map pt_team_id ps)" by (simp add: ps_def distinct_map_filter)
  have perm: "mset teams = mset ts" "set teams = set ts" by (simp_all add: ts(2))
  have distinct_ids: "distinct (map (tc_team_id \<circ> fst) teams)"
    using d perm(1) by (metis ids mset_map mset_eq_imp_distinct_iff)
  have sorted_ids: "sorted (map (tc_team_id \<circ> fst) teams)" by (simp add: ts(2))
  have ids1: "set (map (tc_team_id \<circ> fst) teams) = pt_team_id ` set ps"
    using perm(2) arg_cong[OF ids, of set] by auto
  have ids2: "pt_team_id ` set ps = {k. of_team ''leader'' k xs \<noteq> [] \<and> pn_id (fst (last (of_team ''leader'' k xs))) \<noteq> []}"
  proof (intro set_eqI iffI)
    fix k assume "k \<in> pt_team_id ` set ps"
    then obtain t where t: "t \<in> set (map snd (partial_teams xs))" "pt_leader_pane_id t \<noteq> []" "k = pt_team_id t"
      by (auto simp: ps_def)
    with partial_values(2)[OF t(1)] show "k \<in> {k. of_team ''leader'' k xs \<noteq> [] \<and> pn_id (fst (last (of_team ''leader'' k xs))) \<noteq> []}"
      by (auto simp: partial_ok_def leads_def split: if_splits prod.splits)
  next
    fix k assume k: "k \<in> {k. of_team ''leader'' k xs \<noteq> [] \<and> pn_id (fst (last (of_team ''leader'' k xs))) \<noteq> []}"
    with partial_teams_spec[of k xs] obtain t where t: "map_of (partial_teams xs) k = Some t" "partial_ok xs k t"
      by (auto split: option.splits)
    with k have "pt_leader_pane_id t \<noteq> []" "pt_team_id t = k"
      by (auto simp: partial_ok_def leads_def split: prod.splits)
    with map_of_SomeD[OF t(1)] show "k \<in> pt_team_id ` set ps" by (force simp: ps_def)
  qed
  define good where "good = (\<lambda>(c :: team_config, ms). (case last (of_team ''leader'' (tc_team_id c) xs) of (p, meta, remote, s) \<Rightarrow>
            tc_leader_pane_id c = pn_id p \<and> tc_leader_session_id c = tn_id s \<and> tc_working_dir c = tn_cwd s
            \<and> tc_provider c = tm_provider meta \<and> tc_remote_target c = remote)
         \<and> sorted (map mb_index ms) \<and> mset ms = mset (restored_members (tc_team_id c) xs))"
  have each: "good (c, ms)"
    if cms: "(c, ms) \<in> set teams" for c ms
  proof -
    obtain t where t: "t \<in> set ps" "build_rehydrated_team_config env sock t = Ok c" "ms = sort_key mb_index (pt_members t)"
      using finish_teams_in[OF ts(1), of "(c, ms)"] cms perm(2) by auto
    then have "partial_ok xs (pt_team_id t) t" "pt_leader_pane_id t \<noteq> []"
      using partial_values(2) by (auto simp: ps_def)
    then show ?thesis
      by (auto simp: good_def build_config_fields[OF t(2)] t(3) partial_ok_def leads_def split: if_splits prod.splits)
  qed
  then have "\<forall>x \<in> set teams. good x" by auto
  then show ?thesis using sorted_ids distinct_ids ids1 ids2 unfolding good_def by simp
qed

text \<open>Collecting a result panics when the log is longer than the limit and the cut falls inside a
  character.\<close>

lemma long_transcript_panics:
  assumes "config_for_team st i = Some c"
    and "transcript_text env remote_tail local_tail log_file redact (tc_remote_target c) s now = Ok text"
  shows "collect_member_result_with_runtime env remote_tail local_tail log_file redact i s now st = None
    \<longleftrightarrow> SCROLLBACK_SUMMARY_BYTES < length text \<and> \<not> is_char_boundary text (length text - SCROLLBACK_SUMMARY_BYTES)"
  using assms by (simp add: collect_member_result_with_runtime_def trim_for_json_def)

section \<open>Witnesses\<close>

definition sample_team :: team_config where
  "sample_team = \<lparr>tc_team_id = ''T'', tc_provider = ''codex'', tc_leader_session_id = ''L'', tc_leader_pane_id = ''p'',
     tc_working_dir = ''/w'', tc_control_socket_path = ''/s'', tc_base_env = [], tc_remote_target = None\<rparr>"

definition sample_team_session :: "string \<Rightarrow> team_session" where
  "sample_team_session i = \<lparr>tn_id = i, tn_backend = ''local'', tn_lifecycle_state = ''attached'', tn_status = ''running'',
     tn_cwd = ''/w'', tn_command = ''c'', tn_remote_session_id = None, tn_ended_at = None\<rparr>"

definition sample_metadata :: "string \<Rightarrow> nat \<Rightarrow> metadata_envelope" where
  "sample_metadata role i = \<lparr>ev_agent_team = Some \<lparr>tm_team_id = ''T'', tm_leader_session_id = ''L'', tm_provider = ''codex'',
     tm_role = role, tm_member_index = i\<rparr>, ev_remote_target = None\<rparr>"

definition sample_team_env :: team_env where
  "sample_team_env = \<lparr>tv_ssh = \<lparr>ss_home = None, ss_sha256_hex = (\<lambda>s. s), ss_alphanumeric = (\<lambda>c. True)\<rparr>,
     tv_show_ssh = (\<lambda>_. ''ssh''), tv_now = int, tv_fresh = (\<lambda>n. replicate n CHR ''q''),
     tv_is_uuid = (\<lambda>_. True), tv_uuid_error = (\<lambda>_. ''uuid''),
     tv_spawn_local = (\<lambda>n name cwd cmd. Ok (sample_team_session (replicate n CHR ''s''))),
     tv_spawn_remote = (\<lambda>n name p i cwd cmd. Err ''ssh''), tv_terminate = (\<lambda>n p i. Ok ()),
     tv_encode = (\<lambda>e. ''m''),
     tv_decode = (\<lambda>s. if s = ''leader'' then Some (sample_metadata ''leader'' 0)
        else if s = ''member'' then Some (sample_metadata ''member'' 2) else None),
     tv_shim = (\<lambda>_. Err ''no helper''), tv_path = None\<rparr>"

text \<open>A team that had two members, of which the first has left.\<close>

definition sample_store :: team_store where
  "sample_store = snd (remove_member ''T'' ''a'' (snd (register_member ''T'' ''b'' ''pb'' ''c'' ''b''
     (snd (register_member ''T'' ''a'' ''pa'' ''c'' ''a'' (snd (team_start sample_team empty_store)))))))"

lemma sample_store_reachable: "team_reachable sample_store"
  unfolding sample_store_def
  by (intro team_reachable.step[OF _ team_step.remove] team_reachable.step[OF _ team_step.register]
      team_reachable.step[OF team_reachable.init team_step.start])
    (auto simp: team_start_def register_member_def Let_def empty_store_def sample_team_def)

definition sample_team_world :: team_world where
  "sample_team_world = \<lparr>tw_store = sample_store, tw_sessions = [], tw_panes = [], tw_stopped = [], tw_log = [], tw_seq = 1\<rparr>"

lemma sample_team_state:
  "\<exists>t. ts_teams sample_store ''T'' = Some t \<and> te_next_index t = 3 \<and> length (te_members t) = 1
     \<and> mb_index ` set (te_members t) = {2}"
  by (simp add: sample_store_def team_start_def register_member_def remove_member_def Let_def empty_store_def sample_team_def)


lemma told_token_wrong_after_leave_witness:
  "\<exists>r w'. spawn_member_with_runtime sample_team_env ''T'' ''claude'' None sample_team_world = (Ok r, w')
     \<and> mb_pane_token (sr_member r) \<noteq> token_of 2
     \<and> (\<exists>t. ts_teams sample_store ''T'' = Some t \<and> token_of 2 \<in> mb_pane_token ` set (te_members t))"
proof -
  obtain t where t: "ts_teams sample_store ''T'' = Some t" "te_next_index t = 3" "length (te_members t) = 1"
    "mb_index ` set (te_members t) = {2}" using sample_team_state by blast
  have c: "check_member_command ''claude'' = Ok ()"
    by (simp add: check_member_command_def str_trim_graphic is_ascii_graphic_def MAX_MEMBER_COMMAND_BYTES_def)
  have conf: "tc_remote_target (te_config t) = None"
    using t(1) by (auto simp: sample_store_def team_start_def register_member_def remove_member_def Let_def
        empty_store_def sample_team_def)
  obtain r w' where r: "spawn_member_with_runtime sample_team_env ''T'' ''claude'' None sample_team_world = (Ok r, w')"
    using t(1) conf
    by (auto simp: spawn_member_with_runtime_def c config_for_team_def sample_team_world_def start_session_def Let_def
        sample_team_env_def upsert_session_def add_member_def register_member_def)
  have w: "tw_store sample_team_world = sample_store" by (simp add: sample_team_world_def)
  show ?thesis
    using told_token_wrong_after_leave[of sample_team_world "''T''" t sample_team_env "''claude''" None r w' 2]
      sample_store_reachable t r w by auto
qed

definition sample_panes :: "pane_row list" where
  "sample_panes =
     [\<lparr>pn_id = ''p'', pn_session_id = Some ''L'', pn_type = ''terminal'', pn_position = ''root'', pn_label = ''l'',
        pn_metadata_json = Some ''leader''\<rparr>,
      \<lparr>pn_id = ''q'', pn_session_id = Some ''a'', pn_type = ''terminal'', pn_position = ''after:p'', pn_label = ''m'',
        pn_metadata_json = Some ''member''\<rparr>]"

lemma sample_entries:
  "List.map_filter (team_pane sample_team_env (filter session_row_is_rehydratable
      [sample_team_session ''L'', sample_team_session ''a''])) sample_panes
   = [(hd sample_panes, the (ev_agent_team (sample_metadata ''leader'' 0)), None, sample_team_session ''L''),
      (last sample_panes, the (ev_agent_team (sample_metadata ''member'' 2)), None, sample_team_session ''a'')]"
  by (simp add: sample_panes_def List.map_filter_simps team_pane_def parse_agent_team_metadata_def sample_team_env_def
      sample_metadata_def sample_team_session_def session_row_is_rehydratable_def)

definition sample_entry_list :: "pane_entry list" where
  "sample_entry_list =
     [(hd sample_panes, the (ev_agent_team (sample_metadata ''leader'' 0)), None, sample_team_session ''L''),
      (last sample_panes, the (ev_agent_team (sample_metadata ''member'' 2)), None, sample_team_session ''a'')]"

lemmas sample_entry_list = sample_entries[folded sample_entry_list_def]

lemma sample_leaders: "of_team ''leader'' k sample_entry_list = (if k = ''T'' then [hd sample_entry_list] else [])"
  by (simp add: of_team_def sample_entry_list_def sample_metadata_def)

lemma sample_members:
  "mset (restored_members k sample_entry_list)
     = (if k = ''T'' then {#restored_member (the (ev_agent_team (sample_metadata ''member'' 2))) (last sample_panes)
         (sample_team_session ''a'')#} else {#})"
  by (simp add: restored_members_def of_team_def sample_entry_list_def sample_metadata_def)

lemma rehydration_exact_witness:
  "\<exists>teams. collect_rehydrated_teams sample_team_env ''/s''
       [sample_team_session ''L'', sample_team_session ''a''] sample_panes = Ok teams
     \<and> set (map (tc_team_id \<circ> fst) teams) = {''T''} \<and> (\<forall>(c, ms) \<in> set teams. length ms = 1)"
proof -
  obtain teams where t: "collect_rehydrated_teams sample_team_env ''/s''
      [sample_team_session ''L'', sample_team_session ''a''] sample_panes = Ok teams"
    unfolding collect_rehydrated_teams_def sample_entries Let_def
    by (simp add: partial_teams_def sample_metadata_def entry_or_def sample_panes_def build_rehydrated_team_config_def
        sample_team_session_def)
  note r = rehydration_exact[OF t refl, unfolded sample_entry_list]
  have pane: "pn_id (fst (hd sample_entry_list)) \<noteq> []"
    by (simp add: sample_entry_list_def sample_panes_def)
  have ids: "set (map (tc_team_id \<circ> fst) teams) = {''T''}"
    using conjunct1[OF conjunct2[OF conjunct2[OF r]]] pane by (simp add: sample_leaders cong: conj_cong)
  have "length (snd x) = 1" if "x \<in> set teams" for x
  proof -
    have "mset (snd x) = mset (restored_members (tc_team_id (fst x)) sample_entry_list)"
      using conjunct2[OF conjunct2[OF conjunct2[OF r]]] that by (auto simp del: mset_map)
    moreover have "tc_team_id (fst x) = ''T''" using ids that by auto
    ultimately have "size (mset (snd x)) = 1" by (simp add: sample_members)
    then show ?thesis by simp
  qed
  then show ?thesis using t ids by (auto simp del: set_map)
qed

end
