(* ===== verification/Project_Config.thy ===== *)
theory Project_Config
  imports Complex_Main Task Context_Files Git_Worktrees
begin

text \<open>
  The configuration files: \<open>pnevma-core/src/config.rs\<close>, and the catalogue of protected actions of
  \<open>protected_actions.rs\<close>. The TOML parser and printer, the compilation of a regular expression and
  the steps of the file system are arguments. A 64-bit float is a rational number, an infinity or
  no number; the decimal bounds are the doubles nearest to them. Sections that are only read and
  never validated keep their fields.
\<close>

section \<open>The project configuration\<close>

datatype socket_auth = SameUser | Password
datatype tls_mode = Tailscale | SelfSigned

fun show_socket_auth :: "socket_auth \<Rightarrow> string" where
  "show_socket_auth SameUser = ''same-user''"
| "show_socket_auth Password = ''password''"

fun show_tls_mode :: "tls_mode \<Rightarrow> string" where
  "show_tls_mode Tailscale = ''tailscale''"
| "show_tls_mode SelfSigned = ''self-signed''"

record provider_config =
  pv_model :: "string option"
  pv_token_budget :: nat
  pv_timeout_minutes :: u64
  pv_auto_approve :: bool
  pv_allow_npx :: bool
  pv_npx_allowed_packages :: "string list"

record automation_section =
  au_socket_enabled :: bool
  au_socket_path :: string
  au_socket_auth :: socket_auth
  au_socket_rate_limit_rpm :: u32
  au_auto_dispatch :: bool
  au_auto_dispatch_interval_seconds :: u64
  au_allowed_commands :: "string list"

record retention_section =
  re_enabled :: bool
  re_artifact_days :: int
  re_review_days :: int
  re_scrollback_days :: int

record remote_section =
  rm_enabled :: bool
  rm_port :: u16
  rm_tls_mode :: tls_mode
  rm_token_ttl_hours :: u64
  rm_rate_limit_rpm :: u32
  rm_max_ws_per_ip :: nat
  rm_serve_frontend :: bool
  rm_allowed_origins :: "string list"
  rm_tls_allow_self_signed_fallback :: bool
  rm_allow_session_input :: bool

record tracker_section =
  ks_enabled :: bool
  ks_team_id :: "string option"
  ks_labels :: "string list"
  ks_poll_interval_seconds :: u64
  ks_api_key_secret :: "string option"

record project_config =
  pc_name :: string
  pc_brief :: string
  pc_default_provider :: string
  pc_max_concurrent :: nat
  pc_claude_code :: "provider_config option"
  pc_codex :: "provider_config option"
  pc_automation :: automation_section
  pc_retention :: retention_section
  pc_target :: string
  pc_naming :: string
  pc_rules :: "string list"
  pc_conventions :: "string list"
  pc_remote :: remote_section
  pc_extra_patterns :: "string list"
  pc_enable_entropy_guard :: bool
  pc_tracker :: tracker_section

definition default_automation :: automation_section where
  "default_automation = \<lparr>au_socket_enabled = True, au_socket_path = ''.pnevma/run/control.sock'',
     au_socket_auth = SameUser, au_socket_rate_limit_rpm = 300, au_auto_dispatch = False,
     au_auto_dispatch_interval_seconds = 30,
     au_allowed_commands = [''zsh'', ''bash'', ''sh'', ''fish'', ''claude-code'', ''codex'']\<rparr>"

definition default_retention :: retention_section where
  "default_retention = \<lparr>re_enabled = False, re_artifact_days = 30, re_review_days = 30, re_scrollback_days = 14\<rparr>"

definition default_remote :: remote_section where
  "default_remote = \<lparr>rm_enabled = False, rm_port = 8443, rm_tls_mode = Tailscale, rm_token_ttl_hours = 24,
     rm_rate_limit_rpm = 60, rm_max_ws_per_ip = 2, rm_serve_frontend = True, rm_allowed_origins = [],
     rm_tls_allow_self_signed_fallback = False, rm_allow_session_input = False\<rparr>"

definition default_tracker :: tracker_section where
  "default_tracker = \<lparr>ks_enabled = False, ks_team_id = None, ks_labels = [], ks_poll_interval_seconds = 120,
     ks_api_key_secret = None\<rparr>"

text \<open>The checks in their order: the first that fails is the error.\<close>

fun first_error :: "(bool \<times> string) list \<Rightarrow> core_error + unit" where
  "first_error [] = Ok ()"
| "first_error ((bad, msg) # checks) = (if bad then Err (InvalidConfig msg) else first_error checks)"

definition origin_remainder :: "string \<Rightarrow> string" where
  "origin_remainder r = (if ends_with r ''/'' then butlast r else r)"

definition looks_like_valid_origin :: "string \<Rightarrow> bool" where
  "looks_like_valid_origin origin =
     (let trimmed = str_trim origin in
      if trimmed = [] \<or> CHR ''?'' \<in> set trimmed \<or> CHR ''#'' \<in> set trimmed then False
      else case split_once trimmed ''://'' of None \<Rightarrow> False
        | Some (scheme, remainder) \<Rightarrow>
            if scheme \<noteq> ''http'' \<and> scheme \<noteq> ''https'' then False
            else let r = origin_remainder remainder in r \<noteq> [] \<and> CHR ''/'' \<notin> set r \<and> CHR ''@'' \<notin> set r)"

definition is_ascii_hexdigit :: "char \<Rightarrow> bool" where
  "is_ascii_hexdigit c \<longleftrightarrow> c \<in> set ''0123456789abcdefABCDEF''"

definition looks_like_hex_color :: "string \<Rightarrow> bool" where
  "looks_like_hex_color color =
     (let trimmed = str_trim color;
          raw = (case strip_prefix trimmed ''#'' of None \<Rightarrow> trimmed | Some r \<Rightarrow> r)
      in length raw = 6 \<and> list_all is_ascii_hexdigit raw)"

definition open_npx :: "provider_config option \<Rightarrow> bool" where
  "open_npx p = (case p of None \<Rightarrow> False | Some c \<Rightarrow> pv_allow_npx c \<and> pv_npx_allowed_packages c = [])"

definition npx_message :: string where
  "npx_message = ''allow_npx is true but npx_allowed_packages is empty'' @ [CHR '' '', CHR 0xE2, CHR 0x80, CHR 0x94, CHR '' ''] @
     ''explicit package names are required when npx access is enabled''"

definition validate_project_config :: "(string \<Rightarrow> string option) \<Rightarrow> project_config \<Rightarrow> core_error + unit" where
  "validate_project_config regex_error cfg =
     first_error
      ([(str_trim (pc_name cfg) = [], ''project.name is required''),
        (str_trim (pc_brief cfg) = [], ''project.brief is required''),
        (str_trim (pc_default_provider cfg) = [], ''agents.default_provider is required''),
        (pc_max_concurrent cfg = 0, ''agents.max_concurrent must be greater than 0''),
        (str_trim (au_socket_path (pc_automation cfg)) = [], ''automation.socket_path must not be empty''),
        (au_socket_rate_limit_rpm (pc_automation cfg) = 0, ''automation.socket_rate_limit_rpm must be greater than 0''),
        (re_artifact_days (pc_retention cfg) \<le> 0, ''retention.artifact_days must be greater than 0''),
        (re_review_days (pc_retention cfg) \<le> 0, ''retention.review_days must be greater than 0''),
        (re_scrollback_days (pc_retention cfg) \<le> 0, ''retention.scrollback_days must be greater than 0''),
        (rm_token_ttl_hours (pc_remote cfg) = 0, ''remote.token_ttl_hours must be greater than 0''),
        (rm_rate_limit_rpm (pc_remote cfg) = 0, ''remote.rate_limit_rpm must be greater than 0''),
        (rm_max_ws_per_ip (pc_remote cfg) = 0, ''remote.max_ws_per_ip must be greater than 0''),
        (rm_tls_allow_self_signed_fallback (pc_remote cfg) \<and> rm_tls_mode (pc_remote cfg) \<noteq> Tailscale,
         ''remote.tls_allow_self_signed_fallback is only valid when remote.tls_mode = '' @ [CHR 0x27] @ ''tailscale'' @ [CHR 0x27]),
        (open_npx (pc_claude_code cfg), npx_message), (open_npx (pc_codex cfg), npx_message)]
       @ map (\<lambda>o'. (\<not> looks_like_valid_origin o', ''remote.allowed_origins contains an invalid origin: '' @ o'))
           (rm_allowed_origins (pc_remote cfg))
       @ map (\<lambda>p. (regex_error p \<noteq> None, ''redaction.extra_patterns contains an invalid regex '' @ case_option [] id (regex_error p)))
           (pc_extra_patterns cfg))"

section \<open>The global configuration\<close>

datatype f64 = Finite rat | Infinite bool | NaN

text \<open>\<open>RangeInclusive::contains\<close>: a comparison with no number is false.\<close>

fun f64_between :: "rat \<Rightarrow> rat \<Rightarrow> f64 \<Rightarrow> bool" where
  "f64_between lo hi (Finite x) \<longleftrightarrow> lo \<le> x \<and> x \<le> hi"
| "f64_between lo hi (Infinite b) \<longleftrightarrow> False"
| "f64_between lo hi NaN \<longleftrightarrow> False"

definition f64_0_05 :: rat where "f64_0_05 = 3602879701896397 / 2 ^ 56"
definition f64_0_1 :: rat where "f64_0_1 = 3602879701896397 / 2 ^ 55"
definition f64_0_3 :: rat where "f64_0_3 = 5404319552844595 / 2 ^ 54"
definition f64_0_4 :: rat where "f64_0_4 = 3602879701896397 / 2 ^ 53"

record usage_provider =
  up_source :: string
  up_web_extras_enabled :: bool
  up_keychain_prompt_policy :: string

record global_config =
  gc_default_provider :: "string option"
  gc_theme :: "string option"
  gc_telemetry_opt_in :: bool
  gc_crash_reports_opt_in :: bool
  gc_socket_auth_mode :: "string option"
  gc_socket_password_file :: "string option"
  gc_keybindings :: "string \<rightharpoonup> string"
  gc_auto_save_workspace_on_quit :: bool
  gc_restore_windows_on_launch :: bool
  gc_agent_team_presentation :: string
  gc_auto_update :: bool
  gc_default_shell :: "string option"
  gc_terminal_font :: string
  gc_terminal_font_size :: u32
  gc_scrollback_lines :: u32
  gc_sidebar_background_offset :: f64
  gc_bottom_tool_bar_auto_hide :: bool
  gc_focus_border_enabled :: bool
  gc_focus_border_opacity :: f64
  gc_focus_border_width :: f64
  gc_focus_border_color :: "string option"
  gc_refresh_interval_seconds :: u64
  gc_codex :: usage_provider
  gc_claude :: usage_provider

definition default_usage_provider :: usage_provider where
  "default_usage_provider = \<lparr>up_source = ''auto'', up_web_extras_enabled = False,
     up_keychain_prompt_policy = ''user_action''\<rparr>"

definition default_global_config :: global_config where
  "default_global_config = \<lparr>gc_default_provider = None, gc_theme = None, gc_telemetry_opt_in = False,
     gc_crash_reports_opt_in = False, gc_socket_auth_mode = None, gc_socket_password_file = None,
     gc_keybindings = Map.empty, gc_auto_save_workspace_on_quit = True, gc_restore_windows_on_launch = True,
     gc_agent_team_presentation = ''split_panes'', gc_auto_update = True, gc_default_shell = None,
     gc_terminal_font = ''SF Mono'', gc_terminal_font_size = 13, gc_scrollback_lines = 10000,
     gc_sidebar_background_offset = Finite f64_0_05, gc_bottom_tool_bar_auto_hide = False,
     gc_focus_border_enabled = True, gc_focus_border_opacity = Finite f64_0_4,
     gc_focus_border_width = Finite 2, gc_focus_border_color = None, gc_refresh_interval_seconds = 120,
     gc_codex = default_usage_provider, gc_claude = default_usage_provider\<rparr>"

text \<open>\<open>char::is_control\<close> on UTF-8: the ASCII controls, and U+0080 to U+009F as two bytes.\<close>

fun has_control :: "string \<Rightarrow> bool" where
  "has_control [] \<longleftrightarrow> False"
| "has_control [c] \<longleftrightarrow> (of_char c :: nat) < 32 \<or> c = CHR 0x7F"
| "has_control (c # d # s) \<longleftrightarrow> (of_char c :: nat) < 32 \<or> c = CHR 0x7F
     \<or> c = CHR 0xC2 \<and> 128 \<le> (of_char d :: nat) \<and> (of_char d :: nat) < 160 \<or> has_control (d # s)"

definition opt_bad :: "('a \<Rightarrow> bool) \<Rightarrow> 'a option \<Rightarrow> bool" where
  "opt_bad bad x = (case x of None \<Rightarrow> False | Some v \<Rightarrow> bad v)"

definition usage_provider_checks :: "usage_provider \<Rightarrow> string \<Rightarrow> (bool \<times> string) list" where
  "usage_provider_checks c label =
     [(up_source c \<notin> {''auto'', ''cli'', ''oauth'', ''local''}, label @ ''.source must be one of auto, cli, oauth, or local''),
      (up_keychain_prompt_policy c \<notin> {''never'', ''user_action'', ''always''},
       label @ ''.keychain_prompt_policy must be one of never, user_action, or always'')]"

definition validate_global_config :: "global_config \<Rightarrow> core_error + unit" where
  "validate_global_config cfg =
     first_error
      ([(opt_bad (\<lambda>m. m \<noteq> ''same-user'' \<and> m \<noteq> ''password'') (gc_socket_auth_mode cfg),
         ''socket_auth_mode must be either '' @ [CHR 0x27] @ ''same-user'' @ [CHR 0x27] @ '' or '' @ [CHR 0x27] @ ''password'' @ [CHR 0x27]),
        (opt_bad (\<lambda>p. str_trim p = []) (gc_socket_password_file cfg), ''socket_password_file must not be empty''),
        (opt_bad (\<lambda>s. str_trim s = []) (gc_default_shell cfg), ''default_shell must not be empty when set''),
        (opt_bad (\<lambda>s. length s > 256) (gc_default_shell cfg), ''default_shell exceeds 256 characters''),
        (opt_bad has_control (gc_default_shell cfg), ''default_shell contains unsafe control characters''),
        (str_trim (gc_terminal_font cfg) = [], ''terminal_font must not be empty''),
        (length (gc_terminal_font cfg) > 128, ''terminal_font exceeds 128 characters''),
        (has_control (gc_terminal_font cfg), ''terminal_font contains unsafe control characters''),
        (\<not> (8 \<le> gc_terminal_font_size cfg \<and> gc_terminal_font_size cfg \<le> 32), ''terminal_font_size must be between 8 and 32''),
        (\<not> (1000 \<le> gc_scrollback_lines cfg \<and> gc_scrollback_lines cfg \<le> 100000), ''scrollback_lines must be between 1000 and 100000''),
        (\<not> f64_between 0 f64_0_3 (gc_sidebar_background_offset cfg), ''sidebar_background_offset must be between 0.0 and 0.3''),
        (\<not> f64_between f64_0_1 1 (gc_focus_border_opacity cfg), ''focus_border_opacity must be between 0.1 and 1.0''),
        (\<not> f64_between 1 6 (gc_focus_border_width cfg), ''focus_border_width must be between 1.0 and 6.0''),
        (opt_bad (\<lambda>c. str_trim c \<noteq> [] \<and> c \<noteq> ''accent'' \<and> \<not> looks_like_hex_color c) (gc_focus_border_color cfg),
         ''focus_border_color must be '' @ [CHR 0x27] @ ''accent'' @ [CHR 0x27] @ '' or a #RRGGBB hex value''),
        (\<not> (30 \<le> gc_refresh_interval_seconds cfg \<and> gc_refresh_interval_seconds cfg \<le> 900),
         ''usage_providers.refresh_interval_seconds must be between 30 and 900'')]
       @ usage_provider_checks (gc_codex cfg) ''usage_providers.codex''
       @ usage_provider_checks (gc_claude cfg) ''usage_providers.claude'')"

section \<open>Loading and saving\<close>

text \<open>The steps of writing a file can fail; a file is replaced by the rename of a complete
  temporary file.\<close>

record config_env =
  cf_home :: "string option"
  cf_regex_error :: "string \<Rightarrow> string option"
  cf_parse_project :: "string \<Rightarrow> string + project_config"
  cf_parse_global :: "string \<Rightarrow> string + global_config"
  cf_print_global :: "global_config \<Rightarrow> string + string"
  cf_read_error :: "string \<Rightarrow> string option"
  cf_mkdir_error :: "string option"
  cf_temp_error :: "string option"
  cf_write_error :: "string option"
  cf_persist_error :: "string option"

type_synonym files = "string \<rightharpoonup> string"

definition read_to_string :: "config_env \<Rightarrow> files \<Rightarrow> string \<Rightarrow> core_error + string" where
  "read_to_string env fs path =
     (case fs path of None \<Rightarrow> Err (CoreIo ''not found'')
      | Some text \<Rightarrow> (case cf_read_error env path of Some e \<Rightarrow> Err (CoreIo e) | None \<Rightarrow> Ok text))"

definition load_project_config :: "config_env \<Rightarrow> files \<Rightarrow> string \<Rightarrow> core_error + project_config" where
  "load_project_config env fs path =
     (case read_to_string env fs path of Inl e \<Rightarrow> Err e
      | Inr raw \<Rightarrow>
          (case cf_parse_project env raw of Inl e \<Rightarrow> Err (core_error.Serialization (''invalid project config TOML: '' @ e))
           | Inr cfg \<Rightarrow>
               (case validate_project_config (cf_regex_error env) cfg of Inl e \<Rightarrow> Err e | Inr _ \<Rightarrow> Ok cfg)))"

definition global_config_path :: "config_env \<Rightarrow> string" where
  "global_config_path env = path_join (case cf_home env of None \<Rightarrow> ''.'' | Some h \<Rightarrow> h) ''.config/pnevma/config.toml''"

definition load_global_config :: "config_env \<Rightarrow> files \<Rightarrow> core_error + global_config" where
  "load_global_config env fs =
     (let path = global_config_path env in
      if fs path = None then Ok default_global_config
      else case read_to_string env fs path of Inl e \<Rightarrow> Err e
        | Inr raw \<Rightarrow>
            (case cf_parse_global env raw of Inl e \<Rightarrow> Err (core_error.Serialization (''invalid global config TOML: '' @ e))
             | Inr cfg \<Rightarrow> (case validate_global_config cfg of Inl e \<Rightarrow> Err e | Inr _ \<Rightarrow> Ok cfg)))"

fun first_io_error :: "string option list \<Rightarrow> core_error + unit" where
  "first_io_error [] = Ok ()"
| "first_io_error (None # rest) = first_io_error rest"
| "first_io_error (Some e # rest) = Err (CoreIo e)"

definition save_global_config :: "config_env \<Rightarrow> global_config \<Rightarrow> files \<Rightarrow> (core_error + unit) \<times> files" where
  "save_global_config env cfg fs =
     (case validate_global_config cfg of Inl e \<Rightarrow> (Err e, fs)
      | Inr _ \<Rightarrow>
          (case first_io_error [cf_mkdir_error env] of Inl e \<Rightarrow> (Err e, fs)
           | Inr _ \<Rightarrow>
               (case cf_print_global env cfg of
                  Inl e \<Rightarrow> (Err (core_error.Serialization (''failed to encode global config: '' @ e)), fs)
                | Inr encoded \<Rightarrow>
                    (case first_io_error [cf_temp_error env, cf_write_error env, cf_persist_error env] of
                       Inl e \<Rightarrow> (Err e, fs)
                     | Inr _ \<Rightarrow> (Ok (), fs(global_config_path env \<mapsto> encoded))))))"

section \<open>Protected actions\<close>

datatype risk_level = Safe | Caution | Danger

datatype action_kind = MergeToTarget | DeleteWorktreeWithChanges | ForcePush | DeleteTaskWithActiveSession
  | PurgeScrollback | RestartStuckAgent | DiscardReview | RedispatchFailedTask | BulkDeleteCompletedTasks
  | CreateTask | DispatchReadyTask | OpenPane | CreateCheckpoint

record action_risk_info =
  ai_kind :: action_kind
  ai_risk_level :: risk_level
  ai_description :: string
  ai_consequences :: "string list"
  ai_confirmation_phrase :: "string option"

fun risk_info :: "action_kind \<Rightarrow> action_risk_info" where
  "risk_info MergeToTarget = \<lparr>ai_kind = MergeToTarget, ai_risk_level = Danger,
     ai_description = ''Merge task branch into target'',
     ai_consequences = [''Changes will be merged into the target branch'', ''This cannot be easily undone''],
     ai_confirmation_phrase = Some ''merge to target''\<rparr>"
| "risk_info DeleteWorktreeWithChanges = \<lparr>ai_kind = DeleteWorktreeWithChanges, ai_risk_level = Danger,
     ai_description = ''Delete worktree with uncommitted changes'',
     ai_consequences = [''All uncommitted changes will be lost'', ''The worktree directory will be removed''],
     ai_confirmation_phrase = Some ''delete worktree''\<rparr>"
| "risk_info ForcePush = \<lparr>ai_kind = ForcePush, ai_risk_level = Danger,
     ai_description = ''Force push to remote'',
     ai_consequences = [''Remote branch history will be rewritten'', ''Other collaborators may lose work''],
     ai_confirmation_phrase = Some ''force push''\<rparr>"
| "risk_info DeleteTaskWithActiveSession = \<lparr>ai_kind = DeleteTaskWithActiveSession, ai_risk_level = Danger,
     ai_description = ''Delete task with active agent session'',
     ai_consequences = [''The running agent session will be terminated'', ''Task data and history will be deleted''],
     ai_confirmation_phrase = Some ''delete active task''\<rparr>"
| "risk_info PurgeScrollback = \<lparr>ai_kind = PurgeScrollback, ai_risk_level = Caution,
     ai_description = ''Purge session scrollback history'',
     ai_consequences = [''All terminal output history will be cleared''], ai_confirmation_phrase = None\<rparr>"
| "risk_info RestartStuckAgent = \<lparr>ai_kind = RestartStuckAgent, ai_risk_level = Caution,
     ai_description = ''Restart a stuck agent'',
     ai_consequences = [''The current agent process will be killed'', ''Work in progress may be lost''],
     ai_confirmation_phrase = None\<rparr>"
| "risk_info DiscardReview = \<lparr>ai_kind = DiscardReview, ai_risk_level = Caution,
     ai_description = ''Discard review and send task back'',
     ai_consequences = [''Review notes will be discarded''], ai_confirmation_phrase = None\<rparr>"
| "risk_info RedispatchFailedTask = \<lparr>ai_kind = RedispatchFailedTask, ai_risk_level = Caution,
     ai_description = ''Redispatch a failed task'',
     ai_consequences = [''Previous failure output will be preserved''], ai_confirmation_phrase = None\<rparr>"
| "risk_info BulkDeleteCompletedTasks = \<lparr>ai_kind = BulkDeleteCompletedTasks, ai_risk_level = Danger,
     ai_description = ''Delete all completed tasks'',
     ai_consequences = [''All completed task records will be permanently deleted'', ''Associated artifacts and reviews will remain''],
     ai_confirmation_phrase = Some ''delete all completed''\<rparr>"
| "risk_info CreateTask = \<lparr>ai_kind = CreateTask, ai_risk_level = Safe, ai_description = ''CreateTask'',
     ai_consequences = [], ai_confirmation_phrase = None\<rparr>"
| "risk_info DispatchReadyTask = \<lparr>ai_kind = DispatchReadyTask, ai_risk_level = Safe, ai_description = ''DispatchReadyTask'',
     ai_consequences = [], ai_confirmation_phrase = None\<rparr>"
| "risk_info OpenPane = \<lparr>ai_kind = OpenPane, ai_risk_level = Safe, ai_description = ''OpenPane'',
     ai_consequences = [], ai_confirmation_phrase = None\<rparr>"
| "risk_info CreateCheckpoint = \<lparr>ai_kind = CreateCheckpoint, ai_risk_level = Safe, ai_description = ''CreateCheckpoint'',
     ai_consequences = [], ai_confirmation_phrase = None\<rparr>"

definition verify_confirmation :: "action_risk_info \<Rightarrow> string \<Rightarrow> bool" where
  "verify_confirmation info user_input =
     (case ai_confirmation_phrase info of Some phrase \<Rightarrow> user_input = phrase | None \<Rightarrow> True)"

text \<open>A dangerous action is confirmed by one phrase only, and by no phrase of another action.\<close>

lemma dangerous_needs_own_phrase:
  assumes "ai_risk_level (risk_info k) = Danger" "verify_confirmation (risk_info k) input"
  shows "input \<noteq> [] \<and> (ai_risk_level (risk_info k') = Danger \<and> verify_confirmation (risk_info k') input \<longrightarrow> k' = k)"
  using assms by (cases k; cases k') (auto simp: verify_confirmation_def)

lemma confirmation_only_for_danger:
  "ai_confirmation_phrase (risk_info k) \<noteq> None \<longleftrightarrow> ai_risk_level (risk_info k) = Danger"
  by (cases k) auto

section \<open>What an accepted configuration promises\<close>

lemma first_error_Ok: "first_error cs = Ok () \<longleftrightarrow> list_all (\<lambda>c. \<not> fst c) cs"
  by (induction cs rule: first_error.induct) auto

lemma str_find_split: "str_find s p = Some i \<Longrightarrow> s = take i s @ p @ drop (i + length p) s"
proof (induction s arbitrary: i)
  case Nil then show ?case by (auto simp: str_find.simps starts_with_def split: if_splits)
next
  case (Cons c s)
  show ?case
  proof (cases "starts_with (c # s) p")
    case True
    with Cons.prems have "i = 0" by (simp add: str_find.simps)
    with True show ?thesis by (metis add_0 append_take_drop_id append_Nil starts_with_def take0)
  next
    case False with Cons show ?thesis by (subst (asm) str_find.simps) auto
  qed
qed

lemma split_once_parts: "split_once s p = Some (a, b) \<Longrightarrow> s = a @ p @ b"
  by (auto simp: split_once_def dest: str_find_split)

lemma valid_origin_parts:
  assumes "looks_like_valid_origin o'"
  shows "\<exists>scheme host. scheme \<in> {''http'', ''https''} \<and> host \<noteq> [] \<and> set host \<inter> set ''/?#@'' = {}
     \<and> str_trim o' \<in> {scheme @ ''://'' @ host, scheme @ ''://'' @ host @ ''/''}"
proof -
  let ?t = "str_trim o'"
  from assms obtain scheme rest where p: "split_once ?t ''://'' = Some (scheme, rest)"
    and s: "scheme \<in> {''http'', ''https''}" and q: "CHR ''?'' \<notin> set ?t" "CHR ''#'' \<notin> set ?t"
    and h: "origin_remainder rest \<noteq> []" "CHR ''/'' \<notin> set (origin_remainder rest)" "CHR ''@'' \<notin> set (origin_remainder rest)"
    by (auto simp: looks_like_valid_origin_def Let_def split: if_splits option.splits)
  have t: "?t = scheme @ ''://'' @ rest" by (rule split_once_parts[OF p])
  have r: "rest = origin_remainder rest \<or> rest = origin_remainder rest @ ''/''"
    by (auto simp: origin_remainder_def ends_with_suffix suffix_def)
  have "set (origin_remainder rest) \<subseteq> set ?t"
    using t by (auto simp: origin_remainder_def dest: in_set_butlastD)
  then have "set (origin_remainder rest) \<inter> set ''/?#@'' = {}" using q h by auto
  then show ?thesis using s h(1) t r by (intro exI[of _ scheme] exI[of _ "origin_remainder rest"]) auto
qed

text \<open>
  C22. A loaded project configuration is usable. When loading succeeds, the configuration is the
  one parsed from the file, its limits and periods of retention are positive, npx is open for a
  provider only with a list of packages, every origin allowed for remote access is a scheme and a
  host without a path, a query, a fragment or credentials, every extra pattern compiles, and a
  self-signed certificate can replace one of Tailscale only in the Tailscale mode.
\<close>

theorem loaded_config_usable:
  assumes "load_project_config env fs path = Ok cfg"
  shows "(\<exists>raw. fs path = Some raw \<and> cf_parse_project env raw = Ok cfg)
    \<and> str_trim (pc_name cfg) \<noteq> [] \<and> str_trim (au_socket_path (pc_automation cfg)) \<noteq> []
    \<and> 0 < pc_max_concurrent cfg \<and> 0 < au_socket_rate_limit_rpm (pc_automation cfg)
    \<and> 0 < re_artifact_days (pc_retention cfg) \<and> 0 < re_review_days (pc_retention cfg)
    \<and> 0 < re_scrollback_days (pc_retention cfg) \<and> 0 < rm_token_ttl_hours (pc_remote cfg)
    \<and> 0 < rm_rate_limit_rpm (pc_remote cfg) \<and> 0 < rm_max_ws_per_ip (pc_remote cfg)
    \<and> (\<forall>p. p \<in> {pc_claude_code cfg, pc_codex cfg} \<longrightarrow> \<not> open_npx p)
    \<and> (\<forall>o' \<in> set (rm_allowed_origins (pc_remote cfg)). \<exists>scheme host. scheme \<in> {''http'', ''https''} \<and> host \<noteq> []
         \<and> set host \<inter> set ''/?#@'' = {} \<and> str_trim o' \<in> {scheme @ ''://'' @ host, scheme @ ''://'' @ host @ ''/''})
    \<and> (\<forall>p \<in> set (pc_extra_patterns cfg). cf_regex_error env p = None)
    \<and> (rm_tls_allow_self_signed_fallback (pc_remote cfg) \<longrightarrow> rm_tls_mode (pc_remote cfg) = Tailscale)"
proof -
  from assms obtain raw where raw: "fs path = Some raw" "cf_parse_project env raw = Ok cfg"
    and v: "validate_project_config (cf_regex_error env) cfg = Ok ()"
    by (auto simp: load_project_config_def read_to_string_def split: sum.splits option.splits)
  note v = v[unfolded validate_project_config_def first_error_Ok list_all_append]
  have c: "\<And>p. p \<in> set (pc_extra_patterns cfg) \<Longrightarrow> cf_regex_error env p = None"
    "\<And>o'. o' \<in> set (rm_allowed_origins (pc_remote cfg)) \<Longrightarrow> looks_like_valid_origin o'"
    using v by (auto simp: list_all_iff)
  show ?thesis
    using raw conjunct1[OF v] c(1) valid_origin_parts[OF c(2)]
    by (simp add: word_gt_0 conj_ac not_le)
qed

text \<open>The checks of the global configuration accept its defaults.\<close>

lemma default_global_config_valid: "validate_global_config default_global_config = Ok ()"
proof -
  have font: "str_trim ''SF Mono'' = ''SF Mono''" "\<not> has_control ''SF Mono''"
    by (simp_all add: str_trim_graphic is_ascii_graphic_def)
  show ?thesis
    unfolding validate_global_config_def first_error_Ok
    by (simp add: font default_global_config_def default_usage_provider_def usage_provider_checks_def opt_bad_def
        f64_0_05_def f64_0_1_def f64_0_3_def f64_0_4_def)
qed

text \<open>Saves with the same home, parser and printer, each with the failures it meets.\<close>

definition same_format :: "config_env \<Rightarrow> config_env \<Rightarrow> bool" where
  "same_format env e \<longleftrightarrow> cf_home e = cf_home env \<and> cf_print_global e = cf_print_global env"

fun save_all :: "(config_env \<times> global_config) list \<Rightarrow> files \<Rightarrow> files" where
  "save_all [] fs = fs"
| "save_all ((e, c) # saves) fs = save_all saves (snd (save_global_config e c fs))"

definition succeeds :: "config_env \<times> global_config \<Rightarrow> bool" where
  "succeeds s = (fst (save_global_config (fst s) (snd s) Map.empty) = Ok ())"

lemma save_result: "fst (save_global_config e c fs) = fst (save_global_config e c fs')"
  by (auto simp: save_global_config_def split: sum.splits)

lemma save_files:
  assumes "same_format env e"
  shows "snd (save_global_config e c fs) =
     (if succeeds (e, c) then fs(global_config_path env \<mapsto> projr (cf_print_global env c)) else fs)"
proof -
  have h: "global_config_path e = global_config_path env" "cf_print_global e = cf_print_global env"
    using assms by (simp_all add: same_format_def global_config_path_def)
  have s: "succeeds (e, c) \<longleftrightarrow> fst (save_global_config e c fs) = Ok ()"
    unfolding succeeds_def using save_result[of e c fs Map.empty] by simp
  show ?thesis
    unfolding s by (auto simp: save_global_config_def h split: sum.splits)
qed

lemma save_success:
  assumes "succeeds (e, c)" "same_format env e"
  shows "validate_global_config c = Ok () \<and> (\<exists>text. cf_print_global env c = Ok text)"
  using assms by (auto simp: succeeds_def save_global_config_def same_format_def split: sum.splits)

lemma save_all_path:
  assumes "\<forall>s \<in> set saves. same_format env (fst s)"
  shows "save_all saves fs (global_config_path env) =
     (case filter succeeds saves of [] \<Rightarrow> fs (global_config_path env)
      | s # ss \<Rightarrow> Some (projr (cf_print_global env (snd (last (s # ss))))))"
  using assms
proof (induction saves arbitrary: fs)
  case (Cons a saves)
  obtain e c where a: "a = (e, c)" by (cases a)
  with Cons.prems have "same_format env e" by simp
  note f = save_files[OF this, of c fs]
  show ?case
    using Cons.IH[of "snd (save_global_config e c fs)"] Cons.prems f
    by (auto simp: a split: list.splits)
qed simp

text \<open>
  C23. The global configuration file is replaced as a whole. After any sequence of attempts to save
  a configuration, each failing or not at any of its steps, loading gives the configuration of the
  last attempt that succeeded, or what it gave before when none did, provided that the TOML
  library reads back what it printed and the file can be read.
\<close>

theorem saves_are_atomic:
  assumes roundtrip: "\<And>c text. cf_print_global env c = Ok text \<Longrightarrow> cf_parse_global env text = Ok c"
    and "\<And>s. s \<in> set saves \<Longrightarrow> same_format env (fst s)"
    and "cf_read_error env (global_config_path env) = None"
  shows "load_global_config env (save_all saves fs) =
     (case filter succeeds saves of [] \<Rightarrow> load_global_config env fs | s # ss \<Rightarrow> Ok (snd (last (s # ss))))"
proof (cases "filter succeeds saves")
  case Nil
  then have "save_all saves fs (global_config_path env) = fs (global_config_path env)"
    using save_all_path[of saves env fs] assms(2) by simp
  with Nil show ?thesis
    by (simp add: load_global_config_def read_to_string_def Let_def)
next
  case (Cons s ss)
  define l where "l = last (s # ss)"
  have "l \<in> set (filter succeeds saves)" unfolding l_def Cons by (rule last_in_set) simp
  then have l: "succeeds l" "same_format env (fst l)" using assms(2) by auto
  then obtain enc where t: "cf_print_global env (snd l) = Ok enc" "validate_global_config (snd l) = Ok ()"
    using save_success[of "fst l" "snd l" env] by auto
  have "save_all saves fs (global_config_path env) = Some enc"
    using save_all_path[of saves env fs] assms(2) Cons t(1) by (simp add: l_def[symmetric] del: last.simps)
  then have "load_global_config env (save_all saves fs) = Ok (snd l)"
    using roundtrip[OF t(1)] t(2) assms(3) by (simp add: load_global_config_def read_to_string_def Let_def)
  then show ?thesis using Cons by (simp add: l_def)
qed

section \<open>Witnesses\<close>

definition sample_project :: project_config where
  "sample_project = \<lparr>pc_name = ''n'', pc_brief = ''b'', pc_default_provider = ''codex'', pc_max_concurrent = 4,
     pc_claude_code = None, pc_codex = None, pc_automation = default_automation, pc_retention = default_retention,
     pc_target = ''main'', pc_naming = ''x'', pc_rules = [], pc_conventions = [],
     pc_remote = default_remote\<lparr>rm_allowed_origins := [''https://a.b'']\<rparr>, pc_extra_patterns = [],
     pc_enable_entropy_guard = False, pc_tracker = default_tracker\<rparr>"

definition sample_config_env :: config_env where
  "sample_config_env = \<lparr>cf_home = Some ''/h'', cf_regex_error = (\<lambda>_. None), cf_parse_project = (\<lambda>_. Ok sample_project),
     cf_parse_global = (\<lambda>s. if s = ''d'' then Ok default_global_config else Err ''bad''),
     cf_print_global = (\<lambda>c. if c = default_global_config then Ok ''d'' else Err ''unprintable''),
     cf_read_error = (\<lambda>_. None), cf_mkdir_error = None, cf_temp_error = None, cf_write_error = None,
     cf_persist_error = None\<rparr>"

lemma sample_origin: "looks_like_valid_origin ''https://a.b''"
  by (simp add: looks_like_valid_origin_def Let_def str_trim_graphic is_ascii_graphic_def split_once_def
      str_find.simps origin_remainder_def starts_with_def ends_with_def)

lemma sample_project_valid: "validate_project_config (\<lambda>_. None) sample_project = Ok ()"
proof -
  have texts: "str_trim ''n'' = ''n''" "str_trim ''b'' = ''b''" "str_trim ''codex'' = ''codex''"
    "str_trim ''.pnevma/run/control.sock'' = ''.pnevma/run/control.sock''"
    by (simp_all add: str_trim_graphic is_ascii_graphic_def)
  show ?thesis
    unfolding validate_project_config_def first_error_Ok
    by (simp add: texts sample_origin sample_project_def default_automation_def default_retention_def
        default_remote_def open_npx_def)
qed

lemma loaded_config_usable_witness:
  "\<exists>cfg. load_project_config sample_config_env [''/p'' \<mapsto> ''t''] ''/p'' = Ok cfg \<and> 0 < pc_max_concurrent cfg"
proof -
  have l: "load_project_config sample_config_env [''/p'' \<mapsto> ''t''] ''/p'' = Ok sample_project"
    using sample_project_valid
    by (simp add: load_project_config_def read_to_string_def sample_config_env_def)
  then show ?thesis using loaded_config_usable[OF l] by blast
qed

lemma saves_are_atomic_witness:
  "load_global_config sample_config_env
     (save_all [(sample_config_env, default_global_config),
                (sample_config_env\<lparr>cf_persist_error := Some ''disk''\<rparr>, default_global_config)] Map.empty)
   = Ok default_global_config"
proof -
  have ok: "succeeds (sample_config_env, default_global_config)"
    "\<not> succeeds (sample_config_env\<lparr>cf_persist_error := Some ''disk''\<rparr>, default_global_config)"
    by (simp_all add: succeeds_def save_global_config_def default_global_config_valid sample_config_env_def)
  let ?saves = "[(sample_config_env, default_global_config),
      (sample_config_env\<lparr>cf_persist_error := Some ''disk''\<rparr>, default_global_config)]"
  have f: "filter succeeds ?saves = [(sample_config_env, default_global_config)]"
    by (simp only: filter.simps ok if_True if_False)
  have law: "cf_print_global sample_config_env c = Ok t \<Longrightarrow> cf_parse_global sample_config_env t = Ok c" for c t
    by (auto simp: sample_config_env_def split: if_splits)
  have fmt: "s \<in> set ?saves \<Longrightarrow> same_format sample_config_env (fst s)" for s
    by (auto simp: same_format_def)
  have rd: "cf_read_error sample_config_env (global_config_path sample_config_env) = None"
    by (simp add: sample_config_env_def)
  show ?thesis
    using saves_are_atomic[of sample_config_env ?saves Map.empty, OF law fmt rd] unfolding f by simp
qed

end
