(* ===== verification/Ssh_Services.thy ===== *)
theory Ssh_Services
  imports Remote_Helper Project_Config
begin

text \<open>
  Services of \<open>pnevma-ssh\<close>: the client of the remote control socket (\<open>rpc_client.rs\<close>) as a machine
  whose events are calls, lines of the socket, timeouts and the end of the stream, the socket path of
  its tunnel (\<open>rpc_tunnel.rs\<close>), and the keys (\<open>key_manager.rs\<close>). The JSON parser is an argument, as
  are the outcomes of the processes and of the file system; a line is a complete line of the socket.
\<close>

section \<open>The client of the control socket\<close>

datatype rpc_outcome = Response json | TimedOut | ChannelClosed

record rpc_client =
  rk_pending :: "u64 set"
  rk_waiting :: "u64 set"
  rk_next_id :: u64
  rk_alive :: bool
  rk_sent :: "(u64 \<times> string \<times> json) list"
  rk_results :: "(u64 \<times> rpc_outcome) list"

datatype rpc_event = Call string json "string option" | Line string | Timeout u64 | StreamEnds

definition rpc_connect :: rpc_client where
  "rpc_connect = \<lparr>rk_pending = {}, rk_waiting = {}, rk_next_id = 1, rk_alive = True, rk_sent = [], rk_results = []\<rparr>"

text \<open>A call that finds its number in the table replaces the sender there, which closes the channel
  of the call that waits on it. A write that fails ends the call and leaves the entry.\<close>

definition rpc_call :: "string \<Rightarrow> json \<Rightarrow> string option \<Rightarrow> rpc_client \<Rightarrow> (ssh_error + u64) \<times> rpc_client" where
  "rpc_call m params write_error c =
     (if \<not> rk_alive c then (Err (SshCommand ''RPC connection closed''), c)
      else
        let i = rk_next_id c;
            closed = (if i \<in> rk_waiting c then [(i, ChannelClosed)] else []);
            c = c\<lparr>rk_next_id := i + 1, rk_pending := insert i (rk_pending c), rk_waiting := rk_waiting c - {i},
                  rk_results := rk_results c @ closed\<rparr>
        in case write_error of
             Some e \<Rightarrow> (Err (SshIo e), c)
           | None \<Rightarrow> (Ok i, c\<lparr>rk_waiting := insert i (rk_waiting c), rk_sent := rk_sent c @ [(i, m, params)]\<rparr>))"

definition response_id :: "json \<Rightarrow> u64 option" where
  "response_id v = map_option of_nat (jfield j_u64 v ''id'')"

definition rpc_line :: "(string \<Rightarrow> json option) \<Rightarrow> string \<Rightarrow> rpc_client \<Rightarrow> rpc_client" where
  "rpc_line parse line c =
     (case parse line of None \<Rightarrow> c
      | Some v \<Rightarrow>
          (case response_id v of None \<Rightarrow> c
           | Some i \<Rightarrow>
               if i \<notin> rk_pending c then c
               else c\<lparr>rk_pending := rk_pending c - {i}, rk_waiting := rk_waiting c - {i},
                      rk_results := rk_results c @ (if i \<in> rk_waiting c then [(i, Response v)] else [])\<rparr>))"

definition rpc_timeout :: "u64 \<Rightarrow> rpc_client \<Rightarrow> rpc_client" where
  "rpc_timeout i c =
     (if i \<in> rk_waiting c then c\<lparr>rk_waiting := rk_waiting c - {i}, rk_results := rk_results c @ [(i, TimedOut)]\<rparr>
      else c)"

text \<open>What a call returns for its outcome.\<close>

definition call_result :: "rpc_outcome \<Rightarrow> ssh_error + json" where
  "call_result outcome =
     (case outcome of
        TimedOut \<Rightarrow> Err (SshCommand ''RPC call timed out'')
      | ChannelClosed \<Rightarrow> Err (SshCommand ''RPC channel closed'')
      | Response v \<Rightarrow>
          (case jget v ''error'' of
             Some e \<Rightarrow>
               if e \<noteq> JNull then
                 Err (SshCommand (case jfield j_str e ''message'' of Some m \<Rightarrow> m | None \<Rightarrow> ''unknown RPC error''))
               else (case jget v ''result'' of Some r \<Rightarrow> Ok r
                     | None \<Rightarrow> Err (SshCommand ''missing result in RPC response''))
           | None \<Rightarrow> (case jget v ''result'' of Some r \<Rightarrow> Ok r
                     | None \<Rightarrow> Err (SshCommand ''missing result in RPC response''))))"

definition rpc_step :: "(string \<Rightarrow> json option) \<Rightarrow> rpc_event \<Rightarrow> rpc_client \<Rightarrow> rpc_client" where
  "rpc_step parse ev c =
     (case ev of Call m params e \<Rightarrow> snd (rpc_call m params e c)
      | Line l \<Rightarrow> if rk_alive c then rpc_line parse l c else c
      | Timeout i \<Rightarrow> rpc_timeout i c
      | StreamEnds \<Rightarrow> c\<lparr>rk_alive := False\<rparr>)"

definition rpc_run :: "(string \<Rightarrow> json option) \<Rightarrow> rpc_event list \<Rightarrow> rpc_client" where
  "rpc_run parse evs = fold (rpc_step parse) evs rpc_connect"

definition local_tunnel_socket_path :: "(string \<Rightarrow> string) \<Rightarrow> string option \<Rightarrow> ssh_profile \<Rightarrow> ssh_error + string" where
  "local_tunnel_socket_path sha256_hex home p =
     (case home of None \<Rightarrow> Err (SshCommand ''HOME not set'')
      | Some h \<Rightarrow>
          let key = ''rpc:'' @ (case sp_user p of None \<Rightarrow> ''_'' | Some u \<Rightarrow> u) @ ''@'' @ sp_host p @ '':'' @ nat_str (unat (sp_port p))
          in Ok (path_join (path_join h ''.pnevma/ssh/rpc'') (take 16 (sha256_hex key) @ ''.sock'')))"

text \<open>The answered calls of a run.\<close>

lemma rpc_run_snoc: "rpc_run parse (evs @ [ev]) = rpc_step parse ev (rpc_run parse evs)"
  by (simp add: rpc_run_def)

definition heard :: "(string \<Rightarrow> json option) \<Rightarrow> rpc_event list \<Rightarrow> json set" where
  "heard parse evs = {v. \<exists>l. Line l \<in> set evs \<and> parse l = Some v}"

lemma heard_snoc:
  "heard parse (evs @ [ev]) = heard parse evs \<union> (case ev of Line l \<Rightarrow> set_option (parse l) | _ \<Rightarrow> {})"
  by (cases ev) (auto simp: heard_def)

definition rpc_inv :: "(string \<Rightarrow> json option) \<Rightarrow> rpc_event list \<Rightarrow> rpc_client \<Rightarrow> bool" where
  "rpc_inv parse evs c \<longleftrightarrow> rk_waiting c \<subseteq> rk_pending c
     \<and> (\<forall>i v. (i, Response v) \<in> set (rk_results c)
          \<longrightarrow> response_id v = Some i \<and> i \<in> fst ` set (rk_sent c) \<and> v \<in> heard parse evs)
     \<and> rk_waiting c \<subseteq> fst ` set (rk_sent c)"

lemma rpc_inv_run: "rpc_inv parse evs (rpc_run parse evs)"
proof (induction evs rule: rev_induct)
  case Nil show ?case by (simp add: rpc_inv_def rpc_run_def rpc_connect_def)
next
  case (snoc ev evs)
  show ?case
  proof (cases ev)
    case (Call m params e)
    with snoc show ?thesis
      by (auto simp: rpc_run_snoc rpc_step_def rpc_call_def rpc_inv_def heard_snoc Let_def split: option.split)
  next
    case (Line l)
    with snoc show ?thesis
      by (auto simp: rpc_run_snoc rpc_step_def rpc_line_def rpc_inv_def heard_snoc split: option.split)
  next
    case (Timeout i)
    with snoc show ?thesis by (auto simp: rpc_run_snoc rpc_step_def rpc_timeout_def rpc_inv_def heard_snoc)
  next
    case StreamEnds
    with snoc show ?thesis by (auto simp: rpc_run_snoc rpc_step_def rpc_inv_def heard_snoc)
  qed
qed

lemma dead_stays: "\<not> rk_alive c \<Longrightarrow> \<not> rk_alive (fold (rpc_step parse) evs c)"
proof (induction evs arbitrary: c)
  case (Cons ev evs)
  have "\<not> rk_alive (rpc_step parse ev c)"
    using Cons.prems by (cases ev) (auto simp: rpc_step_def rpc_call_def rpc_timeout_def)
  with Cons.IH show ?case by simp
qed simp

lemma dead_step:
  assumes "\<not> rk_alive c"
  shows "rk_pending (rpc_step parse ev c) = rk_pending c"
    "\<exists>new. rk_results (rpc_step parse ev c) = rk_results c @ new \<and> (\<forall>r \<in> set new. snd r = TimedOut)"
  using assms by (cases ev; auto simp: rpc_step_def rpc_call_def rpc_timeout_def)+

lemma dead_run:
  assumes "\<not> rk_alive c"
  shows "rk_pending (fold (rpc_step parse) evs c) = rk_pending c
    \<and> (\<exists>new. rk_results (fold (rpc_step parse) evs c) = rk_results c @ new \<and> (\<forall>r \<in> set new. snd r = TimedOut))"
proof (induction evs rule: rev_induct)
  case (snoc ev evs)
  show ?case
    using dead_step[OF dead_stays[OF assms], of parse ev parse evs] snoc by fastforce
qed simp


text \<open>An entry of the table goes only with a response of its number: a call that timed out leaves
  its entry behind.\<close>

lemma entry_kept:
  assumes "i \<in> rk_pending c" "\<forall>l v. ev = Line l \<and> parse l = Some v \<longrightarrow> response_id v \<noteq> Some i"
  shows "i \<in> rk_pending (rpc_step parse ev c)"
  using assms
  by (cases ev) (auto simp: rpc_step_def rpc_call_def rpc_line_def rpc_timeout_def Let_def split: option.split)

lemma timed_out_entries_stay:
  assumes "i \<in> rk_pending c"
    and "\<And>l v. Line l \<in> set evs \<Longrightarrow> parse l = Some v \<Longrightarrow> response_id v \<noteq> Some i"
  shows "i \<in> rk_pending (fold (rpc_step parse) evs c)"
  using assms
proof (induction evs arbitrary: c)
  case (Cons ev evs)
  have "i \<in> rk_pending (rpc_step parse ev c)" using Cons.prems by (intro entry_kept) auto
  then show ?case using Cons.IH Cons.prems(2) by auto
qed simp

section \<open>Keys\<close>

record ssh_key_info =
  ky_name :: string
  ky_path :: string
  ky_type :: string
  ky_fingerprint :: string

text \<open>A directory of keys: of each private key whether it is encrypted, the public halves, the
  passphrases in the keychain, the processes that were started and their input.\<close>

record key_store =
  ks_private :: "string \<rightharpoonup> bool"
  ks_public :: "string set"
  ks_keychain :: "string \<rightharpoonup> string"
  ks_ran :: "string list list"
  ks_inputs :: "string list"

record key_env =
  kg_canonicalize :: "string \<Rightarrow> string + string"
  kg_passphrase :: string
  kg_generate :: proc
  kg_chmod_error :: "string option"
  kg_mode :: "string + nat"
  kg_rekey_spawn_error :: "string option"
  kg_write_error :: "string option"
  kg_rekey :: proc
  kg_keychain_error :: "string option"
  kg_fingerprint :: proc

definition validate_key_name :: "string \<Rightarrow> ssh_error + unit" where
  "validate_key_name name =
     (if name = [] then Err (SshParse ''key name must not be empty'')
      else if length name > 128 then Err (SshParse ''key name must not exceed 128 characters'')
      else if CHR ''/'' \<in> set name \<or> CHR 0x5C \<in> set name \<or> CHR 0x00 \<in> set name \<or> str_contains name ''..''
          \<or> list_ex (str_contains name) ws_encodings \<or> has_control name
      then Err (SshParse (''invalid key name: must not contain '' @ [CHR 0x27] @ ''/'' @ [CHR 0x27] @ '', '' @ [CHR 0x27, CHR 0x5C, CHR 0x27]
        @ '', '' @ [CHR 0x27, CHR 0x5C] @ ''0'' @ [CHR 0x27] @ '', '' @ [CHR 0x27] @ ''..'' @ [CHR 0x27]
        @ '', whitespace, or control characters: '' @ name))
      else Ok ())"

definition validate_key_comment :: "string \<Rightarrow> ssh_error + unit" where
  "validate_key_comment comment =
     (if length comment > 256 then Err (SshParse ''key comment must not exceed 256 characters'')
      else if \<not> list_all (\<lambda>c. 0x20 \<le> (of_char c :: nat) \<and> (of_char c :: nat) \<le> 0x7E) comment
      then Err (SshParse ''key comment must contain only printable ASCII characters (0x20-0x7E)'')
      else Ok ())"

text \<open>\<open>rsplit_once('(')\<close>: the rest after the last parenthesis.\<close>

definition after_last :: "char \<Rightarrow> string \<Rightarrow> string option" where
  "after_last c s = (if c \<in> set s then Some (rev (takeWhile (\<lambda>d. d \<noteq> c) (rev s))) else None)"

definition parse_keygen_output :: "string \<Rightarrow> ssh_error + string \<times> string" where
  "parse_keygen_output line =
     (let key_type = (case after_last CHR ''('' line of
            Some rest \<Rightarrow> if ends_with rest '')'' then butlast rest else ''unknown'' | None \<Rightarrow> ''unknown'')
      in case split_whitespace line of
           _ # fingerprint # _ \<Rightarrow> Ok (key_type, fingerprint)
         | _ \<Rightarrow> Err (SshParse (''unexpected ssh-keygen output: '' @ line)))"

text \<open>\<open>starts_with\<close> on canonical paths, and the run of \<open>ssh-keygen -lf\<close>.\<close>

definition inside :: "key_env \<Rightarrow> string \<Rightarrow> string \<Rightarrow> ssh_error + bool" where
  "inside env dir path =
     (case kg_canonicalize env dir of Inl e \<Rightarrow> Err (SshIo e)
      | Inr d \<Rightarrow> (case kg_canonicalize env path of Inl e \<Rightarrow> Err (SshIo e) | Inr p \<Rightarrow> Ok (path_starts_with p d)))"

definition run_keygen :: "string list \<Rightarrow> key_store \<Rightarrow> key_store" where
  "run_keygen args d = d\<lparr>ks_ran := ks_ran d @ [args]\<rparr>"

definition fingerprint_key ::
  "key_env \<Rightarrow> string \<Rightarrow> string \<Rightarrow> key_store \<Rightarrow> (ssh_error + string \<times> string) \<times> key_store" where
  "fingerprint_key env pub_path parent d =
     (case inside env parent pub_path of
        Inl e \<Rightarrow> (Err e, d)
      | Inr ok \<Rightarrow>
          if \<not> ok then (Err (SshParse (''key path '' @ pub_path @ '' escapes expected directory '' @ parent)), d)
          else (case kg_fingerprint env of
              SpawnError e \<Rightarrow> (Err (SshIo e), d)
            | Ended ok out err \<Rightarrow>
                let d = run_keygen [''-lf'', pub_path] d in
                if \<not> ok then (Err (SshCommand err), d) else (parse_keygen_output (str_trim out), d)))"

definition keygen_args :: "string \<Rightarrow> string \<Rightarrow> string \<Rightarrow> string list" where
  "keygen_args key_type path comment =
     [''-t'', key_type, ''-f'', path, ''-C'', comment, ''-N'', []] @ (if key_type = ''rsa'' then [''-b'', ''4096''] else [])"

definition check_key_request :: "key_env \<Rightarrow> string \<Rightarrow> string \<Rightarrow> string \<Rightarrow> string \<Rightarrow> ssh_error + unit" where
  "check_key_request env ssh_dir name key_type comment =
     (case validate_key_name name of Inl e \<Rightarrow> Err e
      | Inr _ \<Rightarrow>
          if key_type \<noteq> [] \<and> key_type \<notin> {''ed25519'', ''ecdsa'', ''rsa''} then
            Err (SshParse (''unsupported key type: '' @ key_type @ ''. Allowed: ed25519, ecdsa, rsa''))
          else (case kg_canonicalize env ssh_dir of Inl e \<Rightarrow> Err (SshIo e)
              | Inr _ \<Rightarrow>
                  (case path_parent (path_join ssh_dir name) of None \<Rightarrow> Err (SshParse ''invalid key path'')
                   | Some parent \<Rightarrow>
                       (case inside env ssh_dir parent of Inl e \<Rightarrow> Err e
                        | Inr ok \<Rightarrow>
                            if \<not> ok then Err (SshParse (''key path escapes SSH directory: '' @ path_join ssh_dir name))
                            else validate_key_comment comment))))"

text \<open>The permissions of the new key, checked before the guard exists.\<close>

definition restrict_key :: "key_env \<Rightarrow> ssh_error + unit" where
  "restrict_key env =
     (case kg_chmod_error env of Some e \<Rightarrow> Err (SshIo e)
      | None \<Rightarrow>
          (case kg_mode env of Inl e \<Rightarrow> Err (SshIo e)
           | Inr mode \<Rightarrow>
               if mode mod 512 \<noteq> 384 then Err (SshCommand (''failed to set key permissions: expected 0600''))
               else Ok ()))"

text \<open>The second run reads the passphrase twice from its input and encrypts the key.\<close>

definition rekey :: "key_env \<Rightarrow> string \<Rightarrow> key_store \<Rightarrow> (ssh_error + unit) \<times> key_store" where
  "rekey env path d =
     (case kg_rekey_spawn_error env of Some e \<Rightarrow> (Err (SshIo e), d)
      | None \<Rightarrow>
          let d = run_keygen [''-p'', ''-f'', path] d in
          (case kg_write_error env of Some e \<Rightarrow> (Err (SshIo e), d)
           | None \<Rightarrow>
               let line = kg_passphrase env @ [CHR 0x0A]; d = d\<lparr>ks_inputs := ks_inputs d @ [line @ line]\<rparr> in
               (case kg_rekey env of SpawnError e \<Rightarrow> (Err (SshIo e), d)
                | Ended ok out err \<Rightarrow>
                    if \<not> ok then (Err (PassphraseApplicationFailed (''ssh-keygen -p failed: '' @ err)), d)
                    else (Ok (), d\<lparr>ks_private := (ks_private d)(path \<mapsto> True)\<rparr>))))"

definition store_passphrase_in_keychain :: "key_env \<Rightarrow> string \<Rightarrow> key_store \<Rightarrow> (ssh_error + unit) \<times> key_store" where
  "store_passphrase_in_keychain env name d =
     (case kg_keychain_error env of
        Some e \<Rightarrow> (Err (PassphraseApplicationFailed (''keychain storage failed: '' @ e)), d)
      | None \<Rightarrow> (Ok (), d\<lparr>ks_keychain := (ks_keychain d)(name \<mapsto> kg_passphrase env)\<rparr>))"

text \<open>The drop of the guard removes both files.\<close>

definition remove_key_files :: "string \<Rightarrow> key_store \<Rightarrow> key_store" where
  "remove_key_files path d = d\<lparr>ks_private := (ks_private d)(path := None), ks_public := ks_public d - {path @ ''.pub''}\<rparr>"

text \<open>After the permissions are set, the key is encrypted or gone.\<close>

definition finish_key ::
  "key_env \<Rightarrow> string \<Rightarrow> string \<Rightarrow> key_store \<Rightarrow> (ssh_error + ssh_key_info) \<times> key_store" where
  "finish_key env ssh_dir name d2 =
     (let path = path_join ssh_dir name in
      case rekey env path d2 of
        (Inl e, d3) \<Rightarrow> (Err e, remove_key_files path d3)
      | (Inr _, d3) \<Rightarrow>
          (case store_passphrase_in_keychain env name d3 of
             (Inl e, d4) \<Rightarrow> (Err e, remove_key_files path d4)
           | (Inr _, d4) \<Rightarrow>
               (case fingerprint_key env (path @ ''.pub'') ssh_dir d4 of
                  (Inl e, d5) \<Rightarrow> (Err e, d5)
                | (Inr (t, f), d5) \<Rightarrow>
                    (Ok \<lparr>ky_name = name, ky_path = path @ ''.pub'', ky_type = t, ky_fingerprint = f\<rparr>, d5))))"

definition generate_key ::
  "key_env \<Rightarrow> string \<Rightarrow> string \<Rightarrow> string \<Rightarrow> string \<Rightarrow> key_store \<Rightarrow> (ssh_error + ssh_key_info) \<times> key_store" where
  "generate_key env ssh_dir name key_type comment d =
     (case check_key_request env ssh_dir name key_type comment of Inl e \<Rightarrow> (Err e, d)
      | Inr _ \<Rightarrow>
          let path = path_join ssh_dir name; effective = (if key_type = [] then ''ed25519'' else key_type) in
          (case kg_generate env of SpawnError e \<Rightarrow> (Err (SshIo e), d)
           | Ended ok out err \<Rightarrow>
               let d1 = run_keygen (keygen_args effective path comment) d in
               if \<not> ok then (Err (SshCommand err), d1)
               else
                 let d2 = d1\<lparr>ks_private := (ks_private d1)(path \<mapsto> False), ks_public := insert (path @ ''.pub'') (ks_public d1)\<rparr> in
                 (case restrict_key env of Inl e \<Rightarrow> (Err e, d2)
                  | Inr _ \<Rightarrow> finish_key env ssh_dir name d2)))"

text \<open>\<open>list_ssh_keys\<close>: the directory entries with the suffix of a public key. The first key that
  cannot be read ends the listing.\<close>

function trim_pub :: "string \<Rightarrow> string" where
  "trim_pub s = (if ends_with s ''.pub'' then trim_pub (take (length s - 4) s) else s)"
  by pat_completeness auto
termination by (relation "measure length") (auto simp: ends_with_def)

declare trim_pub.simps [simp del]

fun list_entries :: "(string \<Rightarrow> ssh_error + string \<times> string) \<Rightarrow> string \<Rightarrow> string list \<Rightarrow> ssh_error + ssh_key_info list" where
  "list_entries fingerprint dir [] = Ok []"
| "list_entries fingerprint dir (n # ns) =
     (if \<not> ends_with n ''.pub'' then list_entries fingerprint dir ns
      else case fingerprint (path_join dir n) of Inl e \<Rightarrow> Err e
        | Inr (t, f) \<Rightarrow>
            (case list_entries fingerprint dir ns of Inl e \<Rightarrow> Err e
             | Inr keys \<Rightarrow> Ok (\<lparr>ky_name = trim_pub n, ky_path = path_join dir n, ky_type = t, ky_fingerprint = f\<rparr> # keys)))"

definition list_ssh_keys :: "key_env \<Rightarrow> string + string list option \<Rightarrow> string \<Rightarrow> key_store \<Rightarrow> ssh_error + ssh_key_info list" where
  "list_ssh_keys env entries dir d =
     (case entries of Inl e \<Rightarrow> Err (SshIo e)
      | Inr None \<Rightarrow> Ok []
      | Inr (Some names) \<Rightarrow> list_entries (\<lambda>p. fst (fingerprint_key env p dir d)) dir names)"

lemma fingerprint_keeps:
  "ks_private (snd (fingerprint_key env a b x)) = ks_private x"
  "ks_keychain (snd (fingerprint_key env a b x)) = ks_keychain x"
  by (auto simp: fingerprint_key_def run_keygen_def Let_def split: sum.splits proc.splits)

lemma rekey_keeps:
  assumes "rekey env path d = (r, d')"
  shows "ks_keychain d' = ks_keychain d" "r = Ok () \<Longrightarrow> ks_private d' = (ks_private d)(path \<mapsto> True)"
  using assms by (auto simp: rekey_def run_keygen_def Let_def split: option.splits proc.splits if_splits)

lemma keychain_keeps:
  assumes "store_passphrase_in_keychain env name d = (r, d')"
  shows "ks_private d' = ks_private d" "r = Ok () \<Longrightarrow> ks_keychain d' name = Some (kg_passphrase env)"
  using assms by (auto simp: store_passphrase_in_keychain_def split: option.splits)

lemma finish_key_state:
  assumes "finish_key env dir name d = (r, d')"
  shows "ks_private d' (path_join dir name) \<in> {None, Some True}"
    "is_ok r \<Longrightarrow> ks_private d' (path_join dir name) = Some True \<and> ks_keychain d' name = Some (kg_passphrase env)"
proof -
  obtain r1 d3 where k: "rekey env (path_join dir name) d = (r1, d3)" by fastforce
  obtain r2 d4 where s: "store_passphrase_in_keychain env name d3 = (r2, d4)" by fastforce
  note kept = rekey_keeps(2)[OF k] keychain_keeps[OF s] fingerprint_keeps[of env "path_join dir name @ ''.pub''" dir d4]
  show "ks_private d' (path_join dir name) \<in> {None, Some True}"
    using assms kept
    by (auto simp: finish_key_def Let_def k s remove_key_files_def split: sum.splits prod.splits)
  show "is_ok r \<Longrightarrow> ks_private d' (path_join dir name) = Some True \<and> ks_keychain d' name = Some (kg_passphrase env)"
    using assms kept
    by (auto simp: finish_key_def Let_def k s is_ok_def split: sum.splits prod.splits)
qed

lemma finish_key_not_plain: "finish_key env dir name d = (r, d') \<Longrightarrow> ks_private d' (path_join dir name) \<noteq> Some False"
  using finish_key_state(1)[of env dir name d r d'] by auto

lemma same_runs:
  assumes "ks_ran d = ks_ran e"
  shows "fst (rekey (env\<lparr>kg_passphrase := other\<rparr>) p d) = fst (rekey env p e)"
    "ks_ran (snd (rekey (env\<lparr>kg_passphrase := other\<rparr>) p d)) = ks_ran (snd (rekey env p e))"
    "fst (store_passphrase_in_keychain (env\<lparr>kg_passphrase := other\<rparr>) n d) = fst (store_passphrase_in_keychain env n e)"
    "ks_ran (snd (store_passphrase_in_keychain (env\<lparr>kg_passphrase := other\<rparr>) n d)) = ks_ran (snd (store_passphrase_in_keychain env n e))"
    "fst (fingerprint_key (env\<lparr>kg_passphrase := other\<rparr>) a b d) = fst (fingerprint_key env a b e)"
    "ks_ran (snd (fingerprint_key (env\<lparr>kg_passphrase := other\<rparr>) a b d)) = ks_ran (snd (fingerprint_key env a b e))"
  using assms
  by (auto simp: rekey_def store_passphrase_in_keychain_def fingerprint_key_def inside_def run_keygen_def Let_def
      split: option.split sum.split proc.split)

lemma finish_key_runs:
  assumes "ks_ran d = ks_ran e"
  shows "ks_ran (snd (finish_key (env\<lparr>kg_passphrase := other\<rparr>) dir name d)) = ks_ran (snd (finish_key env dir name e))"
proof -
  let ?env = "env\<lparr>kg_passphrase := other\<rparr>" and ?p = "path_join dir name"
  obtain r d3 e3 where k: "rekey ?env ?p d = (r, d3)" "rekey env ?p e = (r, e3)" "ks_ran d3 = ks_ran e3"
    using same_runs(1,2)[OF assms, where env=env and other=other and p="?p"] by (metis prod.collapse)
  obtain q d4 e4 where s: "store_passphrase_in_keychain ?env name d3 = (q, d4)"
    "store_passphrase_in_keychain env name e3 = (q, e4)" "ks_ran d4 = ks_ran e4"
    using same_runs(3,4)[OF k(3), where env=env and other=other and n=name] by (metis prod.collapse)
  obtain f d5 e5 where f: "fingerprint_key ?env (?p @ ''.pub'') dir d4 = (f, d5)"
    "fingerprint_key env (?p @ ''.pub'') dir e4 = (f, e5)" "ks_ran d5 = ks_ran e5"
    using same_runs(5,6)[OF s(3), where env=env and other=other and a="?p @ ''.pub''" and b=dir] by (metis prod.collapse)
  show ?thesis
    using k s f by (simp add: finish_key_def Let_def remove_key_files_def split: sum.split prod.split)
qed

lemma passphrase_unused [simp]:
  "check_key_request (env\<lparr>kg_passphrase := other\<rparr>) = check_key_request env"
  "restrict_key (env\<lparr>kg_passphrase := other\<rparr>) = restrict_key env"
  by (simp_all add: check_key_request_def restrict_key_def inside_def fun_eq_iff split: sum.split option.split)

text \<open>
  What a failed generation leaves. In a directory without the key, generating it leaves an
  unencrypted private key behind exactly when the first run of \<open>ssh-keygen\<close> succeeded and its
  permissions could not be set or checked: the guard that removes the files exists only after
  that. A key that is reported is encrypted and its passphrase is in the keychain, and no argument
  of a process depends on the passphrase.
\<close>

theorem key_generation_leaves:
  assumes "generate_key env dir name key_type comment d = (r, d')"
    and "ks_private d (path_join dir name) = None"
  shows "(ks_private d' (path_join dir name) = Some False
        \<longleftrightarrow> check_key_request env dir name key_type comment = Ok () \<and> (\<exists>out err. kg_generate env = Ended True out err)
          \<and> restrict_key env \<noteq> Ok ())
    \<and> (is_ok r \<longrightarrow> ks_private d' (path_join dir name) = Some True \<and> ks_keychain d' name = Some (kg_passphrase env))
    \<and> ks_ran (snd (generate_key (env\<lparr>kg_passphrase := other\<rparr>) dir name key_type comment d)) = ks_ran d'"
proof -
  have runs: "ks_ran (snd (generate_key (env\<lparr>kg_passphrase := other\<rparr>) dir name key_type comment d)) = ks_ran d'"
    using assms(1) finish_key_runs[OF refl]
    by (auto simp: generate_key_def Let_def split: sum.splits proc.splits)
  show ?thesis
    using assms runs
    by (auto simp: generate_key_def Let_def run_keygen_def is_ok_def split: sum.splits proc.splits if_splits
        dest: finish_key_not_plain finish_key_state(2)[unfolded is_ok_def])
qed

section \<open>Witnesses\<close>

text \<open>A key whose permissions cannot be set.\<close>

definition sample_key_env :: key_env where
  "sample_key_env = \<lparr>kg_canonicalize = Ok, kg_passphrase = ''p'', kg_generate = Ended True [] [],
     kg_chmod_error = Some ''denied'', kg_mode = Ok 384, kg_rekey_spawn_error = None, kg_write_error = None,
     kg_rekey = Ended True [] [], kg_keychain_error = None, kg_fingerprint = Ended True ''256 SHA256:x c (ED25519)'' []\<rparr>"

definition empty_keys :: key_store where
  "empty_keys = \<lparr>ks_private = Map.empty, ks_public = {}, ks_keychain = Map.empty, ks_ran = [], ks_inputs = []\<rparr>"

lemma sample_key_request: "check_key_request sample_key_env ''/k'' ''n'' [] ''c'' = Ok ()"
proof -
  have "validate_key_name ''n'' = Ok ()" "validate_key_comment ''c'' = Ok ()"
    "path_parent (path_join ''/k'' ''n'') = Some ''/k''" "path_starts_with ''/k'' ''/k''"
    by code_simp+
  then show ?thesis by (simp add: check_key_request_def sample_key_env_def inside_def)
qed

lemma key_generation_leaves_witness:
  "ks_private (snd (generate_key sample_key_env ''/k'' ''n'' [] ''c'' empty_keys)) (path_join ''/k'' ''n'') = Some False"
proof -
  obtain r d where g: "generate_key sample_key_env ''/k'' ''n'' [] ''c'' empty_keys = (r, d)" by fastforce
  have "restrict_key sample_key_env \<noteq> Ok ()" "kg_generate sample_key_env = Ended True [] []"
    by (simp_all add: restrict_key_def sample_key_env_def)
  with key_generation_leaves[OF g, of other for other] sample_key_request g show ?thesis
    by (simp add: empty_keys_def)
qed


end
