(* ===== verification/Control_Plane.thy ===== *)
theory Control_Plane
  imports Project_Config Remote_Helper
begin

text \<open>
  The control plane: the socket of \<open>pnevma-commands/src/control.rs\<close> up to the routing of a method,
  the access levels of \<open>command_registry.rs\<close> and the passwords of \<open>auth_secret.rs\<close>. The
  routing itself (what a method does to the state), SHA-256, the JSON parser, the environment, the
  keychain and the file system are arguments. An open project is assumed, so every audit event is
  stored; its payload is left out. Times are nanoseconds of the monotonic clock.
\<close>

section \<open>Passwords\<close>

datatype password_file_error = FileNotFound | Insecure string | FileIo string

record file_meta =
  fm_is_file :: bool
  fm_mode :: nat
  fm_uid :: u32

datatype open_result = OpenMissing | OpenSymlink | OpenError string | Opened "string + file_meta" "string + string"

definition validate_password_file_metadata :: "u32 \<Rightarrow> file_meta \<Rightarrow> string \<Rightarrow> password_file_error + unit" where
  "validate_password_file_metadata euid meta path =
     (if \<not> fm_is_file meta then Err (Insecure (''password file '' @ path @ '' must be a regular file''))
      else if fm_mode meta mod 64 \<noteq> 0
      then Err (Insecure (''password file '' @ path @ '' must not be readable by group or others''))
      else if fm_uid meta \<noteq> euid
      then Err (Insecure (''password file '' @ path @ '' must be owned by uid '' @ nat_str (unat euid)))
      else Ok ())"

definition read_password_file_secure :: "u32 \<Rightarrow> open_result \<Rightarrow> string \<Rightarrow> password_file_error + string" where
  "read_password_file_secure euid opened path =
     (case opened of
        OpenMissing \<Rightarrow> Err FileNotFound
      | OpenSymlink \<Rightarrow> Err (Insecure (''password file '' @ path @ '' must not be a symlink''))
      | OpenError e \<Rightarrow> Err (FileIo (''failed to open password file '' @ path @ '': '' @ e))
      | Opened meta content \<Rightarrow>
          (case meta of
             Inl e \<Rightarrow> Err (FileIo (''failed to stat password file '' @ path @ '': '' @ e))
           | Inr m \<Rightarrow>
               (case validate_password_file_metadata euid m path of Inl e \<Rightarrow> Err e
                | Inr _ \<Rightarrow>
                    (case content of
                       Inl e \<Rightarrow> Err (FileIo (''failed to read password file '' @ path @ '': '' @ e))
                     | Inr raw \<Rightarrow>
                         let v = str_trim raw in
                         if v = [] then Err (Insecure (''password file '' @ path @ '' is empty'')) else Ok v))))"

definition show_password_error :: "password_file_error \<Rightarrow> string" where
  "show_password_error e =
     (case e of FileNotFound \<Rightarrow> ''password file not found'' | Insecure m \<Rightarrow> m | FileIo m \<Rightarrow> m)"

definition env_password :: "string option \<Rightarrow> string option" where
  "env_password var = (case var of None \<Rightarrow> None | Some raw \<Rightarrow> if str_trim raw = [] then None else Some (str_trim raw))"

text \<open>The environment first, then the keychain, then the file.\<close>

definition load_password ::
  "string option \<Rightarrow> string + string option \<Rightarrow> u32 \<Rightarrow> (string \<Rightarrow> open_result) \<Rightarrow> string option \<Rightarrow> string + string option" where
  "load_password var keychain euid open_file password_file =
     (case env_password var of Some p \<Rightarrow> Ok (Some p)
      | None \<Rightarrow>
          (case keychain of Inl e \<Rightarrow> Err e
           | Inr (Some p) \<Rightarrow> Ok (Some p)
           | Inr None \<Rightarrow>
               (case password_file of None \<Rightarrow> Ok None
                | Some path \<Rightarrow>
                    (case read_password_file_secure euid (open_file path) path of
                       Inr p \<Rightarrow> Ok (Some p)
                     | Inl FileNotFound \<Rightarrow> Ok None
                     | Inl e \<Rightarrow> Err (show_password_error e)))))"

section \<open>Settings\<close>

datatype control_auth_mode = ModeSameUser | ModePassword string

record control_settings =
  cs_enabled :: bool
  cs_socket_path :: string
  cs_auth_mode :: control_auth_mode
  cs_socket_rate_limit_rpm :: u32

definition resolve_control_plane_settings ::
  "(string option \<Rightarrow> string + string option) \<Rightarrow> string \<Rightarrow> project_config \<Rightarrow> global_config \<Rightarrow> string + control_settings" where
  "resolve_control_plane_settings load_socket_password project_root project global =
     (let auto = pc_automation project;
          settings = (\<lambda>mode. \<lparr>cs_enabled = au_socket_enabled auto, cs_socket_path = path_join project_root (au_socket_path auto),
            cs_auth_mode = mode, cs_socket_rate_limit_rpm = au_socket_rate_limit_rpm auto\<rparr>);
          resolved = (case gc_socket_auth_mode global of
              None \<Rightarrow> Ok (au_socket_auth auto)
            | Some m \<Rightarrow> if m = ''same-user'' then Ok SameUser else if m = ''password'' then Ok Password
                else Err (''unsupported socket auth mode '' @ [CHR 0x27] @ m @ [CHR 0x27] @ '', expected same-user or password''))
      in case resolved of Inl e \<Rightarrow> Err e
         | Inr SameUser \<Rightarrow> Ok (settings ModeSameUser)
         | Inr Password \<Rightarrow>
             (case load_socket_password (gc_socket_password_file global) of Inl e \<Rightarrow> Err e
              | Inr None \<Rightarrow> Err ''socket auth mode is password but no password is configured''
              | Inr (Some p) \<Rightarrow> Ok (settings (ModePassword p))))"

section \<open>Access levels\<close>

datatype access_level = ReadOnly | Standard | Privileged

definition PRIVILEGED :: "string list" where
  "PRIVILEGED =
     [''session.new'', ''session.kill'', ''session.kill_all'', ''session.send_input'',
      ''session.recovery.execute'', ''session.restart_active'', ''session.reattach_active'',
      ''fleet.action'', ''agent.team.start'', ''agent.team.spawn_member'', ''agent.team.close_member'',
      ''agent.team.set_main_vertical'', ''task.dispatch'', ''task.dispatch_next_ready'', ''task.claim'',
      ''task.draft'', ''task.delete_ready'', ''workflow.dispatch'', ''workflow.instantiate'',
      ''merge.queue.execute'', ''merge.execute_task'', ''checkpoint.restore'', ''checkpoint.create'',
      ''review.approve'', ''review.approve_next'', ''review.approve_task'', ''review.reject_task'',
      ''harness.catalog.write'', ''harness.catalog.favorite'', ''harness.catalog.collections.create'',
      ''harness.catalog.collections.rename'', ''harness.catalog.collections.delete'',
      ''harness.catalog.collections.set_membership'', ''harness.catalog.scan_roots.upsert'',
      ''harness.catalog.scan_roots.set_enabled'', ''harness.catalog.scan_roots.delete'',
      ''harness.catalog.create.apply'', ''harness.catalog.install.apply'',
      ''harness.catalog.install.remove'', ''harness.config.write'', ''plan.write'', ''plan.delete'',
      ''project.trust'', ''project.cleanup_data'', ''project.cleanup_orphaned_sessions'',
      ''project.secrets.upsert'', ''project.secrets.delete'', ''project.secrets.import_env'',
      ''workspace.file.write'', ''settings.app.set'', ''usage.providers.settings.set'',
      ''keybindings.set'', ''ssh.connect'', ''ssh.disconnect'', ''ssh.runtime.ensure_helper'',
      ''ssh.delete_profile'', ''workflow.create'', ''workflow.delete'', ''global_workflow.create'',
      ''global_workflow.delete'', ''agent_profile.create'', ''agent_profile.delete'',
      ''global_agent.create'', ''global_agent.delete'', ''rules.delete'', ''conventions.delete'',
      ''telemetry.clear'', ''telemetry.set'']"

definition READ_ACTIONS :: "string list" where
  "READ_ACTIONS =
     [''get'', ''list'', ''list_live'', ''list_all'', ''status'', ''read'', ''search'', ''tail'',
      ''scrollback'', ''timeline'', ''daily-brief'', ''daily_brief'', ''defs'', ''automation'',
      ''readiness'', ''poll'', ''snapshot'', ''overview'', ''summary'', ''options'', ''health'']"

definition REGISTERED :: "string list" where
  "REGISTERED =
     [''project.open'', ''environment.readiness'', ''environment.init_global_config'',
      ''project.initialize_scaffold'', ''project.cleanup_orphaned_sessions'', ''session.new'',
      ''session.reattach_active'', ''session.restart_active'', ''agent.team.start'',
      ''agent.team.spawn_member'', ''agent.team.close_member'', ''agent.team.snapshot'',
      ''agent.team.rehydrate_all'', ''agent.team.set_main_vertical'', ''pane.split_horizontal'',
      ''pane.split_vertical'', ''pane.close'', ''pane.open_review'', ''pane.open_notifications'',
      ''pane.open_merge_queue'', ''pane.open_replay'', ''pane.open_daily_brief'', ''pane.open_search'',
      ''pane.open_diff'', ''pane.open_file_browser'', ''pane.open_rules_manager'', ''pane.open_settings'',
      ''task.new'', ''task.dispatch_next_ready'', ''task.delete_ready'', ''review.approve_next'',
      ''review.approve_task'', ''review.reject_task'', ''merge.execute_task'', ''checkpoint.create'',
      ''tracker.poll'', ''tracker.status'', ''github.auth.status'', ''github.auth.refresh'',
      ''github.auth.switch'', ''github.auth.add_account'', ''github.auth.fix_git_helper'',
      ''harness.catalog.snapshot'', ''harness.catalog.list'', ''harness.catalog.read'',
      ''harness.catalog.write'', ''harness.catalog.favorite'', ''harness.catalog.collections.list'',
      ''harness.catalog.collections.create'', ''harness.catalog.collections.rename'',
      ''harness.catalog.collections.delete'', ''harness.catalog.collections.set_membership'',
      ''harness.catalog.scan_roots.list'', ''harness.catalog.scan_roots.upsert'',
      ''harness.catalog.scan_roots.set_enabled'', ''harness.catalog.scan_roots.delete'',
      ''harness.catalog.analytics'', ''harness.catalog.create.plan'', ''harness.catalog.create.apply'',
      ''harness.catalog.install.plan'', ''harness.catalog.install.apply'',
      ''harness.catalog.install.remove'', ''harness.config.list'', ''harness.config.read'',
      ''harness.config.write'', ''plan.list'', ''plan.read'', ''plan.write'', ''plan.delete'']"

text \<open>\<open>rsplit('.').next()\<close>.\<close>

definition last_segment :: "string \<Rightarrow> string" where
  "last_segment i = last (split_on CHR ''.'' i)"

definition infer_access_level :: "string \<Rightarrow> access_level" where
  "infer_access_level i =
     (if i \<in> set PRIVILEGED then Privileged
      else if last_segment i \<in> set READ_ACTIONS then ReadOnly else Standard)"

record command_registry =
  cg_commands :: "(string \<times> access_level) list"
  cg_index :: "string \<rightharpoonup> nat"

definition register :: "string \<Rightarrow> command_registry \<Rightarrow> command_registry" where
  "register i r = r\<lparr>cg_index := (cg_index r)(i \<mapsto> length (cg_commands r)),
                    cg_commands := cg_commands r @ [(i, infer_access_level i)]\<rparr>"

definition default_registry :: command_registry where
  "default_registry = fold register REGISTERED \<lparr>cg_commands = [], cg_index = Map.empty\<rparr>"

definition nth_command :: "command_registry \<Rightarrow> nat \<Rightarrow> (string \<times> access_level) option" where
  "nth_command r n = (if n < length (cg_commands r) then Some (cg_commands r ! n) else None)"

definition access_level_of :: "command_registry \<Rightarrow> string \<Rightarrow> access_level" where
  "access_level_of r i =
     (case Option.bind (cg_index r i) (nth_command r) of Some c \<Rightarrow> snd c | None \<Rightarrow> infer_access_level i)"

section \<open>Requests\<close>

record control_request =
  cq_id :: string
  cq_method :: string
  cq_params :: json
  cq_auth :: "string option option"

record control_response =
  cp_id :: string
  cp_ok :: bool
  cp_result :: "json option"
  cp_error :: "(string \<times> string) option"

definition response_ok :: "string \<Rightarrow> json \<Rightarrow> control_response" where
  "response_ok i v = \<lparr>cp_id = i, cp_ok = True, cp_result = Some v, cp_error = None\<rparr>"

definition response_err :: "string \<Rightarrow> string \<Rightarrow> string \<Rightarrow> control_response" where
  "response_err i code msg = \<lparr>cp_id = i, cp_ok = False, cp_result = None, cp_error = Some (code, msg)\<rparr>"

definition MAX_CONTROL_REQUEST_ID_BYTES :: nat where "MAX_CONTROL_REQUEST_ID_BYTES = 128"
definition MAX_CONTROL_METHOD_BYTES :: nat where "MAX_CONTROL_METHOD_BYTES = 128"

definition validate_control_request :: "control_request \<Rightarrow> string + unit" where
  "validate_control_request q =
     (if str_trim (cq_id q) = [] then Err ''request id must not be empty''
      else if length (cq_id q) > MAX_CONTROL_REQUEST_ID_BYTES then Err ''request id exceeds 128 byte limit''
      else if \<not> list_all (\<lambda>c. is_ascii_alphanumeric c \<or> c \<in> set ''_-:.'') (cq_id q)
      then Err ''request id contains invalid characters''
      else if cq_method q = [] then Err ''request method must not be empty''
      else if length (cq_method q) > MAX_CONTROL_METHOD_BYTES then Err ''request method exceeds 128 byte limit''
      else if \<not> list_all (\<lambda>c. is_ascii_alphanumeric c \<or> c \<in> set ''_-.'') (cq_method q)
      then Err ''request method contains invalid characters''
      else Ok ())"

definition authorize_request :: "(string \<Rightarrow> string) \<Rightarrow> control_settings \<Rightarrow> control_request \<Rightarrow> string + unit" where
  "authorize_request sha256 settings q =
     (case cs_auth_mode settings of
        ModeSameUser \<Rightarrow> Ok ()
      | ModePassword password \<Rightarrow>
          (case Option.bind (cq_auth q) id of
             None \<Rightarrow> Err ''missing auth.password''
           | Some supplied \<Rightarrow>
               if sha256 supplied \<noteq> sha256 password then Err ''invalid password''
               else if access_level_of default_registry (cq_method q) = Privileged
               then Err ''privileged command requires same-user auth''
               else Ok ()))"

section \<open>Limits\<close>

text \<open>The requests of a user in the last minute, and the failed authorisations of a user in a window
  that starts with a failure.\<close>

definition minute :: int where "minute = 60 * nanos_per_sec"

definition limiter_allow :: "nat \<Rightarrow> int list \<Rightarrow> time \<Rightarrow> bool \<times> int list" where
  "limiter_allow rpm window now =
     (let w = dropWhile (\<lambda>t. t < now - minute) window
      in if rpm \<le> length w then (False, w) else (True, w @ [now]))"

definition AUTH_FAILURE_THRESHOLD :: nat where "AUTH_FAILURE_THRESHOLD = 5"

definition record_auth_failure :: "(time \<times> nat \<times> bool) option \<Rightarrow> time \<Rightarrow> bool \<times> (time \<times> nat \<times> bool)" where
  "record_auth_failure entry now =
     (let (start, n, fired) = (case entry of None \<Rightarrow> (now, 0, False) | Some e \<Rightarrow> e) in
      if now - start > minute then (False, (now, 1, False))
      else if AUTH_FAILURE_THRESHOLD \<le> n + 1 \<and> \<not> fired then (True, (start, n + 1, True))
      else (False, (start, n + 1, fired)))"

section \<open>A connection\<close>

text \<open>The state of the server: that of the application, the windows, the failures, and the logs of
  what it did: audit events, admitted requests and routed ones.\<close>

record 's control_state =
  ct_app :: 's
  ct_windows :: "u32 \<Rightarrow> int list"
  ct_failures :: "u32 \<rightharpoonup> time \<times> nat \<times> bool"
  ct_audit :: "string list"
  ct_admitted :: "(u32 \<times> time) list"
  ct_routed :: "(u32 \<times> time \<times> control_request) list"

record 's control_env =
  cv_settings :: control_settings
  cv_euid :: u32
  cv_sha256 :: "string \<Rightarrow> string"
  cv_parse :: "string \<Rightarrow> string + control_request"
  cv_route :: "string \<Rightarrow> json \<Rightarrow> 's \<Rightarrow> ((string \<times> string) + json) \<times> 's"

definition audit :: "string \<Rightarrow> 's control_state \<Rightarrow> 's control_state" where
  "audit ev s = s\<lparr>ct_audit := ct_audit s @ [ev]\<rparr>"

definition process_request ::
  "'s control_env \<Rightarrow> u32 \<Rightarrow> time \<Rightarrow> control_request \<Rightarrow> 's control_state \<Rightarrow> control_response \<times> 's control_state" where
  "process_request env uid now q s =
     (case validate_control_request q of Inl e \<Rightarrow> (response_err (cq_id q) ''invalid_request'' e, s)
      | Inr _ \<Rightarrow>
          (case authorize_request (cv_sha256 env) (cv_settings env) q of
             Inl e \<Rightarrow> (response_err (cq_id q) ''unauthorized'' e, audit ''AutomationRequestFailed'' s)
           | Inr _ \<Rightarrow>
               let s1 = audit ''AutomationRequestReceived'' s;
                   (r, app) = cv_route env (cq_method q) (cq_params q) (ct_app s1);
                   s2 = s1\<lparr>ct_app := app, ct_routed := ct_routed s1 @ [(uid, now, q)]\<rparr>
               in (case r of
                     Inr v \<Rightarrow> (response_ok (cq_id q) v, audit ''AutomationRequestCompleted'' s2)
                   | Inl (code, msg) \<Rightarrow> (response_err (cq_id q) code msg, audit ''AutomationRequestFailed'' s2))))"

definition note_failure :: "u32 \<Rightarrow> time \<Rightarrow> control_response \<Rightarrow> 's control_state \<Rightarrow> 's control_state" where
  "note_failure uid now response s =
     (case cp_error response of
        Some (code, msg) \<Rightarrow>
          if code = ''unauthorized'' then
            let (fire, entry) = record_auth_failure (ct_failures s uid) now;
                s1 = s\<lparr>ct_failures := (ct_failures s)(uid \<mapsto> entry)\<rparr>
            in if fire then audit ''AutomationAuthThresholdExceeded'' s1 else s1
          else s
      | None \<Rightarrow> s)"

definition verify_same_user_peer :: "'s control_env \<Rightarrow> u32 \<Rightarrow> bool" where
  "verify_same_user_peer env uid \<longleftrightarrow> (case cs_auth_mode (cv_settings env) of ModeSameUser \<Rightarrow> uid = cv_euid env | _ \<Rightarrow> True)"

text \<open>A line that was read, or the note that it was longer than the limit.\<close>

datatype frame = TooLarge | Raw string

definition too_large_response :: control_response where
  "too_large_response = response_err [] ''payload_too_large'' ''request exceeds 1 MB limit''"

definition strip_line_end :: "string \<Rightarrow> string" where
  "strip_line_end l = rev (dropWhile (\<lambda>c. c = CHR 0x0D \<or> c = CHR 0x0A) (rev l))"

definition handle_frame ::
  "'s control_env \<Rightarrow> u32 \<Rightarrow> time \<Rightarrow> frame \<Rightarrow> 's control_state \<Rightarrow> control_response option \<times> 's control_state" where
  "handle_frame env uid now f s =
     (case f of TooLarge \<Rightarrow> (Some too_large_response, s)
      | Raw line \<Rightarrow>
          let raw = strip_line_end line in
          if raw = [] then (None, s)
          else case cv_parse env raw of
            Inl e \<Rightarrow> (Some (response_err [] ''invalid_request'' e), s)
          | Inr q \<Rightarrow>
              let rpm = max 1 (unat (cs_socket_rate_limit_rpm (cv_settings env)));
                  (ok, w) = limiter_allow rpm (ct_windows s uid) now;
                  s1 = s\<lparr>ct_windows := (ct_windows s)(uid := w)\<rparr>
              in if \<not> ok then (Some (response_err (cq_id q) ''rate_limited'' ''control plane rate limit exceeded''), s1)
                 else
                   let (response, s2) = process_request env uid now q (s1\<lparr>ct_admitted := ct_admitted s1 @ [(uid, now)]\<rparr>)
                   in (Some response, note_failure uid now response s2))"

text \<open>The lines of all connections in the order in which they are handled; a connection that fails
  the check of its peer is closed before it is read.\<close>

fun control_run :: "'s control_env \<Rightarrow> (u32 \<times> time \<times> frame) list \<Rightarrow> 's control_state \<Rightarrow> 's control_state" where
  "control_run env [] s = s"
| "control_run env ((uid, now, f) # evs) s =
     control_run env evs (if verify_same_user_peer env uid then snd (handle_frame env uid now f s) else s)"

definition control_init :: "'s \<Rightarrow> 's control_state" where
  "control_init app = \<lparr>ct_app = app, ct_windows = (\<lambda>_. []), ct_failures = Map.empty, ct_audit = [], ct_admitted = [],
     ct_routed = []\<rparr>"

section \<open>Reading lines\<close>

definition MAX_LINE_BYTES :: nat where "MAX_LINE_BYTES = 1024 * 1024"

text \<open>\<open>fill_buf\<close> and \<open>consume\<close>: the input arrives in chunks that are not empty; what is left of a chunk
  is the next one. Each part of a line is decoded by itself.\<close>

definition newline :: char where "newline = CHR 0x0A"

definition push_rest :: "string \<Rightarrow> string list \<Rightarrow> string list" where
  "push_rest rest cs = (if rest = [] then cs else rest # cs)"

definition cut_line :: "string \<Rightarrow> (string \<times> string) option" where
  "cut_line c = (if newline \<in> set c then Some (takeWhile (\<lambda>x. x \<noteq> newline) c @ [newline], tl (dropWhile (\<lambda>x. x \<noteq> newline) c))
     else None)"

fun drain_line :: "string list \<Rightarrow> string list" where
  "drain_line [] = []"
| "drain_line (c # cs) = (case cut_line c of Some (_, rest) \<Rightarrow> push_rest rest cs | None \<Rightarrow> drain_line cs)"

fun next_frame :: "string \<Rightarrow> string list \<Rightarrow> frame option \<times> string list" where
  "next_frame line [] = (if line = [] then None else Some (Raw line), [])"
| "next_frame line (c # cs) =
     (case cut_line c of
        Some (part, rest) \<Rightarrow>
          if length line + length part > MAX_LINE_BYTES + 1 then (Some TooLarge, push_rest rest cs)
          else (Some (Raw (line @ from_utf8_lossy part)), push_rest rest cs)
      | None \<Rightarrow>
          if length line + length c > MAX_LINE_BYTES then (Some TooLarge, drain_line cs)
          else next_frame (line @ from_utf8_lossy c) cs)"

section \<open>Who is privileged\<close>

lemma register_level:
  assumes "\<forall>i n. cg_index r i = Some n \<longrightarrow> nth_command r n = Some (i, infer_access_level i)"
  shows "\<forall>i n. cg_index (register x r) i = Some n \<longrightarrow> nth_command (register x r) n = Some (i, infer_access_level i)"
  using assms by (auto simp: register_def nth_command_def nth_append split: if_splits)

lemma default_registry_level:
  "cg_index default_registry i = Some n \<Longrightarrow> nth_command default_registry n = Some (i, infer_access_level i)"
proof -
  have "\<forall>i n. cg_index (fold register xs r) i = Some n \<longrightarrow> nth_command (fold register xs r) n = Some (i, infer_access_level i)"
    if "\<forall>i n. cg_index r i = Some n \<longrightarrow> nth_command r n = Some (i, infer_access_level i)" for xs r
    using that by (induction xs arbitrary: r) (simp_all add: register_level del: split_paired_All)
  from this[of "\<lparr>cg_commands = [], cg_index = Map.empty\<rparr>" REGISTERED]
  show "cg_index default_registry i = Some n \<Longrightarrow> nth_command default_registry n = Some (i, infer_access_level i)"
    by (simp add: default_registry_def)
qed

lemma access_level_inferred: "access_level_of default_registry i = infer_access_level i"
  by (auto simp: access_level_of_def default_registry_level split: option.split bind_splits)

text \<open>
  Only the listed methods are privileged. A method needs the authentication of the same user
  exactly when it is on the list of privileged methods, whether it is registered or not: a method
  that nobody has put on a list is open to a client with a password.
\<close>

theorem privileged_exactly_listed:
  "access_level_of default_registry i = Privileged \<longleftrightarrow> i \<in> set PRIVILEGED"
  by (simp add: access_level_inferred infer_access_level_def)

lemma open_to_passwords:
  "access_level_of default_registry ''review.reject'' = Standard"
  "access_level_of default_registry ''workspace.commit_and_push'' = Standard"
  "access_level_of default_registry ''some.new_method'' = Standard"
  by (simp_all add: access_level_inferred) code_simp+

section \<open>What reaches the router\<close>

definition permitted :: "'s control_env \<Rightarrow> u32 \<Rightarrow> control_request \<Rightarrow> bool" where
  "permitted env uid q \<longleftrightarrow> validate_control_request q = Ok ()
     \<and> (case cs_auth_mode (cv_settings env) of
          ModeSameUser \<Rightarrow> uid = cv_euid env
        | ModePassword p \<Rightarrow> (\<exists>supplied. cq_auth q = Some (Some supplied) \<and> cv_sha256 env supplied = cv_sha256 env p)
            \<and> cq_method q \<notin> set PRIVILEGED)"

lemma authorize_permits:
  assumes "validate_control_request q = Ok ()" "authorize_request (cv_sha256 env) (cv_settings env) q = Ok ()"
    "verify_same_user_peer env uid"
  shows "permitted env uid q"
  using assms
  by (auto simp: permitted_def authorize_request_def verify_same_user_peer_def access_level_inferred
      infer_access_level_def split: control_auth_mode.splits option.splits if_splits bind_splits)

lemma process_request_logs:
  assumes "process_request env uid now q s = (response, s')"
  shows "ct_routed s' = ct_routed s @ (if validate_control_request q = Ok ()
            \<and> authorize_request (cv_sha256 env) (cv_settings env) q = Ok () then [(uid, now, q)] else [])"
    "ct_admitted s' = ct_admitted s" "ct_windows s' = ct_windows s"
  using assms
  by (auto simp: process_request_def audit_def Let_def split: sum.splits prod.splits)

lemma note_failure_logs [simp]:
  "ct_routed (note_failure uid now r s) = ct_routed s" "ct_admitted (note_failure uid now r s) = ct_admitted s"
  "ct_windows (note_failure uid now r s) = ct_windows s"
  by (auto simp: note_failure_def audit_def Let_def split: option.split prod.split)

lemma handle_frame_cases:
  assumes "handle_frame env uid now f s = (r, s')"
  obtains (idle) "ct_routed s' = ct_routed s" "ct_admitted s' = ct_admitted s" "ct_windows s' = ct_windows s"
  | (request) line q ok w where "f = Raw line" "cv_parse env (strip_line_end line) = Ok q"
      "limiter_allow (max 1 (unat (cs_socket_rate_limit_rpm (cv_settings env)))) (ct_windows s uid) now = (ok, w)"
      "ct_windows s' = (ct_windows s)(uid := w)"
      "ct_admitted s' = ct_admitted s @ (if ok then [(uid, now)] else [])"
      "ct_routed s' = ct_routed s @ (if ok \<and> validate_control_request q = Ok ()
          \<and> authorize_request (cv_sha256 env) (cv_settings env) q = Ok () then [(uid, now, q)] else [])"
proof (cases f)
  case TooLarge with assms idle show ?thesis by (simp add: handle_frame_def)
next
  case (Raw line)
  show ?thesis
  proof (cases "strip_line_end line = [] \<or> (\<exists>e. cv_parse env (strip_line_end line) = Err e)")
    case True with assms Raw idle show ?thesis by (auto simp: handle_frame_def Let_def split: if_splits)
  next
    case False
    then obtain q where q: "cv_parse env (strip_line_end line) = Ok q" "strip_line_end line \<noteq> []"
      by (metis sum.exhaust)
    obtain ok w where l: "limiter_allow (max 1 (unat (cs_socket_rate_limit_rpm (cv_settings env)))) (ct_windows s uid) now = (ok, w)"
      by fastforce
    define s1 where "s1 = s\<lparr>ct_windows := (ct_windows s)(uid := w)\<rparr>"
    obtain response s2 where p: "process_request env uid now q (s1\<lparr>ct_admitted := ct_admitted s1 @ [(uid, now)]\<rparr>) = (response, s2)"
      by fastforce
    have "s' = (if ok then note_failure uid now response s2 else s1)"
      using assms Raw q l p by (auto simp: handle_frame_def Let_def s1_def split: if_splits)
    with process_request_logs[OF p] Raw q(1) l request show ?thesis
      by (cases ok) (simp_all add: s1_def)
  qed
qed

lemma routed_permitted_run:
  assumes "\<forall>(uid, t, q) \<in> set (ct_routed s). permitted env uid q"
  shows "\<forall>(uid, t, q) \<in> set (ct_routed (control_run env evs s)). permitted env uid q"
  using assms
proof (induction evs arbitrary: s)
  case (Cons ev evs)
  obtain uid now f where ev: "ev = (uid, now, f)" by (cases ev)
  show ?case
  proof (cases "verify_same_user_peer env uid")
    case True
    obtain r s1 where h: "handle_frame env uid now f s = (r, s1)" by fastforce
    have "\<forall>(uid, t, q) \<in> set (ct_routed s1). permitted env uid q"
      using h by (rule handle_frame_cases) (use Cons.prems authorize_permits[OF _ _ True] in auto)
    with Cons.IH show ?thesis by (simp add: ev True h)
  qed (use Cons in \<open>simp add: ev\<close>)
qed simp


section \<open>The rate limit\<close>

definition in_minute :: "time \<Rightarrow> time \<Rightarrow> bool" where
  "in_minute t x \<longleftrightarrow> t \<le> x \<and> x \<le> t + minute"

definition limit_ok :: "nat \<Rightarrow> time list \<Rightarrow> time list \<Rightarrow> time \<Rightarrow> bool" where
  "limit_ok rpm hist window now \<longleftrightarrow> (\<exists>old. hist = old @ window \<and> (\<forall>x \<in> set old. x < now - minute))
     \<and> (\<forall>t. length (filter (in_minute t) hist) \<le> rpm)"

lemma limit_ok_later: "limit_ok rpm hist w n \<Longrightarrow> n \<le> now \<Longrightarrow> limit_ok rpm hist w now"
  unfolding limit_ok_def by fastforce

lemma limiter_step:
  assumes inv: "limit_ok rpm hist w now" and step: "limiter_allow rpm w now = (ok, w')"
  shows "limit_ok rpm (hist @ (if ok then [now] else [])) w' now"
proof -
  let ?old = "\<lambda>t. t < now - minute"
  obtain old where old: "hist = old @ w" "\<forall>x \<in> set old. x < now - minute" using inv by (auto simp: limit_ok_def)
  define old' where "old' = old @ takeWhile ?old w"
  define rest where "rest = dropWhile ?old w"
  have h: "hist = old' @ rest" "\<forall>x \<in> set old'. x < now - minute"
    using old by (auto simp: old'_def rest_def dest: set_takeWhileD)
  have bound: "length (filter (in_minute t) hist) \<le> rpm" for t using inv by (simp add: limit_ok_def)
  show ?thesis
  proof (cases ok)
    case False
    then have "w' = rest" using step by (auto simp: limiter_allow_def rest_def Let_def split: if_splits)
    with False h bound show ?thesis by (auto simp: limit_ok_def)
  next
    case True
    then have w': "w' = rest @ [now]" "length rest < rpm"
      using step by (auto simp: limiter_allow_def rest_def Let_def split: if_splits)
    have "length (filter (in_minute t) (hist @ [now])) \<le> rpm" for t
    proof (cases "in_minute t now")
      case True
      then have "filter (in_minute t) old' = []"
        using h(2) by (fastforce simp: filter_empty_conv in_minute_def)
      then have "length (filter (in_minute t) (hist @ [now])) \<le> length rest + 1"
        by (simp add: h(1) le_SucI)
      with w'(2) show ?thesis by simp
    qed (use bound in simp)
    with True w' h show ?thesis by (auto simp: limit_ok_def)
  qed
qed

definition admitted_times :: "u32 \<Rightarrow> 's control_state \<Rightarrow> time list" where
  "admitted_times uid s = map snd (filter (\<lambda>a. fst a = uid) (ct_admitted s))"

lemma control_run_limit:
  assumes "\<forall>uid. limit_ok rpm (admitted_times uid s) (ct_windows s uid) n"
    and "rpm = max 1 (unat (cs_socket_rate_limit_rpm (cv_settings env)))"
    and "sorted (n # map (\<lambda>(uid, now, f). now) evs)"
  shows "\<exists>n'. \<forall>uid. limit_ok rpm (admitted_times uid (control_run env evs s)) (ct_windows (control_run env evs s) uid) n'"
  using assms(1,3)
proof (induction evs arbitrary: s n)
  case (Cons ev evs)
  obtain uid now f where ev: "ev = (uid, now, f)" by (cases ev)
  have le: "n \<le> now" "sorted (now # map (\<lambda>(uid, now, f). now) evs)" using Cons.prems(2) by (auto simp: ev)
  have later: "limit_ok rpm (admitted_times u s) (ct_windows s u) now" for u
    using Cons.prems(1) le(1) limit_ok_later by blast
  show ?case
  proof (cases "verify_same_user_peer env uid")
    case True
    obtain r s1 where h: "handle_frame env uid now f s = (r, s1)" by fastforce
    have "limit_ok rpm (admitted_times u s1) (ct_windows s1 u) now" for u
    proof (cases rule: handle_frame_cases[OF h])
      case 1 with later show ?thesis by (simp add: admitted_times_def)
    next
      case (2 line q ok w)
      show ?thesis
      proof (cases "u = uid")
        case True
        have "admitted_times u s1 = admitted_times u s @ (if ok then [now] else [])"
          using 2(5) True by (simp add: admitted_times_def)
        with limiter_step[OF later[of u] 2(3)[folded assms(2), folded True]] 2(4) True show ?thesis by simp
      next
        case False with 2 later[of u] show ?thesis by (simp add: admitted_times_def)
      qed
    qed
    with Cons.IH[of s1 now] le(2) show ?thesis by (simp add: ev True h)
  next
    case False with Cons.IH[of s now] le(2) later show ?thesis by (simp add: ev)
  qed
qed auto

text \<open>
  C12. The rate limit holds in every minute. When the lines arrive in the order of time, at most the
  configured number of requests of a user (at least one) are admitted in any interval of sixty
  seconds, over all its connections.
\<close>

theorem admitted_within_rate:
  assumes "sorted (map (\<lambda>(uid, now, f). now) evs)"
  shows "length (filter (in_minute t) (admitted_times uid (control_run env evs (control_init app))))
    \<le> max 1 (unat (cs_socket_rate_limit_rpm (cv_settings env)))"
proof (cases evs)
  case Nil then show ?thesis by (simp add: admitted_times_def control_init_def)
next
  case (Cons ev rest)
  obtain u n f where "ev = (u, n, f)" by (cases ev)
  then have "sorted (n # map (\<lambda>(uid, now, f). now) evs)" using assms Cons by auto
  from control_run_limit[where s="control_init app" and env=env, OF _ refl this] show ?thesis
    by (auto simp: limit_ok_def admitted_times_def control_init_def)
qed

section \<open>Lines survive the chunks of the socket\<close>

definition chunk_size :: "string list \<Rightarrow> nat" where
  "chunk_size cs = sum_list (map (\<lambda>c. length c + 1) cs)"

lemma cut_line_at: "newline \<notin> set ys \<Longrightarrow> cut_line (ys @ newline # zs) = Some (ys @ [newline], zs)"
  by (auto simp: cut_line_def takeWhile_append dropWhile_append)

lemma first_newline: "newline \<in> set c \<Longrightarrow> \<exists>ys zs. c = ys @ newline # zs \<and> newline \<notin> set ys"
  by (rule split_list_first)

lemma cut_line_Some:
  assumes "cut_line c = Some (part, rest)"
  shows "c = part @ rest \<and> part \<noteq> []"
proof -
  obtain ys zs where c: "c = ys @ newline # zs" "newline \<notin> set ys"
    using assms first_newline[of c] by (auto simp: cut_line_def split: if_splits)
  with assms cut_line_at[OF c(2)] show ?thesis by auto
qed

lemma same_first_line: "ys @ x # zs = l @ x # tail \<Longrightarrow> x \<notin> set ys \<Longrightarrow> x \<notin> set l \<Longrightarrow> ys = l \<and> zs = tail"
proof (induction ys arbitrary: l)
  case Nil then show ?case by (cases l) auto
next
  case (Cons y ys) then show ?case by (cases l) auto
qed

lemma push_rest_size: "chunk_size (push_rest rest cs) \<le> chunk_size cs + (length rest + 1)"
  by (simp add: push_rest_def chunk_size_def)

lemma drain_size: "chunk_size (drain_line cs) \<le> chunk_size cs"
proof (induction cs)
  case (Cons c cs)
  show ?case
  proof (cases "cut_line c")
    case None with Cons show ?thesis by (simp add: chunk_size_def)
  next
    case (Some x)
    obtain part rest where x: "x = (part, rest)" by (cases x)
    with Some cut_line_Some[of c part rest] push_rest_size[of rest cs] show ?thesis by (auto simp: chunk_size_def)
  qed
qed simp

lemma next_frame_size:
  "next_frame line cs = (Some f, cs') \<Longrightarrow> cs \<noteq> [] \<Longrightarrow> chunk_size cs' < chunk_size cs"
proof (induction line cs rule: next_frame.induct)
  case (2 line c cs)
  show ?case
  proof (cases "cut_line c")
    case None
    show ?thesis
    proof (cases "length line + length c > MAX_LINE_BYTES")
      case True with None 2 drain_size[of cs] show ?thesis by (auto simp: chunk_size_def)
    next
      case False
      with None 2 show ?thesis by (cases "cs = []") (auto simp: chunk_size_def split: if_splits)
    qed
  next
    case (Some x)
    obtain part rest where x: "x = (part, rest)" by (cases x)
    have "length rest < length c" using cut_line_Some[of c part rest] Some x by (cases part) auto
    moreover have "cs' = push_rest rest cs" using 2 Some x by (auto split: if_splits)
    ultimately show ?thesis by (auto simp: push_rest_def chunk_size_def)
  qed
qed simp

lemma next_frame_shrinks: "(Some f, cs') = next_frame [] cs \<Longrightarrow> chunk_size cs' < chunk_size cs"
  using next_frame_size[of "[]" cs f cs'] by (cases cs) auto

text \<open>All lines of a connection until its end.\<close>

function frames :: "string list \<Rightarrow> frame list" where
  "frames cs = (case next_frame [] cs of (None, _) \<Rightarrow> [] | (Some f, cs') \<Rightarrow> f # frames cs')"
  by pat_completeness auto
termination by (relation "measure chunk_size") (auto dest: next_frame_shrinks)

declare frames.simps [simp del]

definition is_ascii :: "string \<Rightarrow> bool" where
  "is_ascii s \<longleftrightarrow> list_all (\<lambda>c. byte_of c < 128) s"

lemma next_frame_line:
  assumes "concat cs = l @ newline # tail" "newline \<notin> set l" "is_ascii (concat cs)"
    and "length line + length l \<le> MAX_LINE_BYTES" "\<forall>c \<in> set cs. c \<noteq> []"
  shows "\<exists>cs'. next_frame line cs = (Some (Raw (line @ l @ [newline])), cs') \<and> concat cs' = tail
    \<and> (\<forall>c \<in> set cs'. c \<noteq> [])"
  using assms
proof (induction cs arbitrary: line l)
  case (Cons c cs)
  have asc: "is_ascii c" "is_ascii (concat cs)" using Cons.prems(3) by (simp_all add: is_ascii_def)
  show ?case
  proof (cases "newline \<in> set c")
    case True
    then obtain ys rest where ys: "c = ys @ newline # rest" "newline \<notin> set ys" using first_newline by blast
    then have "ys = l \<and> rest @ concat cs = tail"
      using Cons.prems(1,2) by (intro same_first_line) simp_all
    then have c: "c = l @ [newline] @ rest" and tail: "rest @ concat cs = tail" using ys by auto
    have cut: "cut_line c = Some (l @ [newline], rest)" using cut_line_at[OF Cons.prems(2)] c by simp
    have "from_utf8_lossy (l @ [newline]) = l @ [newline]"
      using asc(1) c by (intro lossy_ascii) (simp add: is_ascii_def)
    then have "next_frame line (c # cs) = (Some (Raw (line @ l @ [newline])), push_rest rest cs)"
      using Cons.prems(4) cut by simp
    moreover have "concat (push_rest rest cs) = tail" using tail by (auto simp: push_rest_def)
    ultimately show ?thesis using Cons.prems(5) by (auto simp: push_rest_def)
  next
    case False
    then have cut: "cut_line c = None" by (simp add: cut_line_def)
    obtain l' where l: "l = c @ l'"
      using Cons.prems(1) False by (auto simp: append_eq_append_conv2 append_eq_Cons_conv)
    have "concat cs = l' @ newline # tail" using Cons.prems(1) l by simp
    from Cons.IH[OF this _ asc(2), of "line @ c"] Cons.prems l
    have "\<exists>cs'. next_frame (line @ c) cs = (Some (Raw ((line @ c) @ l' @ [newline])), cs') \<and> concat cs' = tail
        \<and> (\<forall>c \<in> set cs'. c \<noteq> [])" by simp
    moreover have "from_utf8_lossy c = c" using asc(1) by (intro lossy_ascii) (simp add: is_ascii_def)
    ultimately show ?thesis using cut l Cons.prems(4) by auto
  qed
qed simp

text \<open>
  C25. ASCII lines are read as they were sent. However the socket cuts a stream of complete lines
  into chunks, a connection reads exactly these lines, as long as they are ASCII and not longer
  than the limit.
\<close>

theorem lines_survive_chunks:
  assumes "concat cs = concat (map (\<lambda>l. l @ [newline]) ls)" "is_ascii (concat cs)"
    and "\<And>c. c \<in> set cs \<Longrightarrow> c \<noteq> []" "\<And>l. l \<in> set ls \<Longrightarrow> newline \<notin> set l \<and> length l \<le> MAX_LINE_BYTES"
  shows "frames cs = map (\<lambda>l. Raw (l @ [newline])) ls"
  using assms
proof (induction ls arbitrary: cs)
  case Nil
  then have "cs = []" by (cases cs) auto
  then show ?case by (simp add: frames.simps)
next
  case (Cons l ls)
  then obtain cs' where n: "next_frame [] cs = (Some (Raw (l @ [newline])), cs')"
    and c: "concat cs' = concat (map (\<lambda>l. l @ [newline]) ls)" "\<forall>c \<in> set cs'. c \<noteq> []"
    using next_frame_line[of cs l "concat (map (\<lambda>l. l @ [newline]) ls)" "[]"] by auto
  have "is_ascii (concat cs')" using Cons.prems(1,2) c(1) by (simp add: is_ascii_def)
  from Cons.IH[OF c(1) this] c(2) Cons.prems(4) n show ?case
    by (subst frames.simps) simp
qed

text \<open>A character that two chunks share is replaced, byte by byte.\<close>

lemma cut_character_is_lost:
  "frames [[CHR 0xC3], [CHR 0xA9, newline]] = [Raw (replacement_char @ replacement_char @ [newline])]"
proof -
  have lossy: "from_utf8_lossy [CHR 0xC3] = replacement_char"
    "from_utf8_lossy [CHR 0xA9, CHR 0x0A] = replacement_char @ [CHR 0x0A]"
    by code_simp+
  have "next_frame [] [[CHR 0xC3], [CHR 0xA9, newline]] = (Some (Raw (replacement_char @ replacement_char @ [newline])), [])"
    by (simp add: cut_line_def newline_def lossy push_rest_def MAX_LINE_BYTES_def replacement_char_def)
  then show ?thesis by (simp add: frames.simps)
qed

section \<open>Witnesses\<close>

text \<open>A server of user 7 with a limit of one request in a minute: of three lines, one of another
  user, only the first is admitted and routed.\<close>

definition sample_server :: "unit control_env" where
  "sample_server = \<lparr>cv_settings = \<lparr>cs_enabled = True, cs_socket_path = ''/run/s'', cs_auth_mode = ModeSameUser,
       cs_socket_rate_limit_rpm = 1\<rparr>, cv_euid = 7, cv_sha256 = id,
     cv_parse = (\<lambda>l. Ok \<lparr>cq_id = l, cq_method = ''task.list'', cq_params = JNull, cq_auth = None\<rparr>),
     cv_route = (\<lambda>m params s. (Ok JNull, s))\<rparr>"

definition sample_lines :: "(u32 \<times> time \<times> frame) list" where
  "sample_lines = [(7, 0, Raw ''a''), (8, 1, Raw ''b''), (7, 5, Raw ''c'')]"

lemma sample_validated:
  "validate_control_request \<lparr>cq_id = ''a'', cq_method = ''task.list'', cq_params = JNull, cq_auth = None\<rparr> = Ok ()"
  by (simp add: validate_control_request_def str_trim_graphic is_ascii_graphic_def is_ascii_alphanumeric_def
      MAX_CONTROL_REQUEST_ID_BYTES_def MAX_CONTROL_METHOD_BYTES_def)

lemma sample_server_run:
  "ct_admitted (control_run sample_server sample_lines (control_init ())) = [(7, 0)]"
  "map (\<lambda>(uid, t, q). (uid, t, cq_id q)) (ct_routed (control_run sample_server sample_lines (control_init ())))
     = [(7, 0, ''a'')]"
  by (simp_all add: sample_server_def sample_lines_def control_init_def verify_same_user_peer_def handle_frame_def
      strip_line_end_def limiter_allow_def process_request_def sample_validated authorize_request_def
      note_failure_def response_ok_def response_err_def audit_def minute_def nanos_per_sec_def Let_def)

lemma admitted_within_rate_witness:
  "admitted_times 7 (control_run sample_server sample_lines (control_init ())) = [0]
   \<and> length (filter (in_minute 0) (admitted_times 7 (control_run sample_server sample_lines (control_init ()))))
     \<le> max 1 (unat (cs_socket_rate_limit_rpm (cv_settings sample_server)))"
proof
  show "admitted_times 7 (control_run sample_server sample_lines (control_init ())) = [0]"
    by (simp add: admitted_times_def sample_server_run)
  show "length (filter (in_minute 0) (admitted_times 7 (control_run sample_server sample_lines (control_init ()))))
     \<le> max 1 (unat (cs_socket_rate_limit_rpm (cv_settings sample_server)))"
    by (rule admitted_within_rate) (simp add: sample_lines_def)
qed

lemma lines_survive_chunks_witness:
  "frames [''ab'', [newline, CHR ''c''], [newline]] = [Raw (''ab'' @ [newline]), Raw (''c'' @ [newline])]"
proof -
  have "frames [''ab'', [newline, CHR ''c''], [newline]] = map (\<lambda>l. Raw (l @ [newline])) [''ab'', ''c'']"
    by (rule lines_survive_chunks)
      (auto simp: is_ascii_def byte_of_def newline_def MAX_LINE_BYTES_def)
  then show ?thesis by simp
qed

end
