(* ===== verification/Git_Hooks.thy ===== *)
theory Git_Hooks
  imports Run_Finish Remote_Helper
begin
text \<open>
  The hooks of a worktree: \<open>pnevma-git/src/hooks.rs\<close> and \<open>truncate_utf8_safe\<close> of
  \<open>pnevma-core/src/lib.rs\<close>. The splitting of a command line into words (\<open>shell_words\<close>), the file
  system and the child processes are arguments; a child is run in a state of the caller. The
  measured durations and the log lines are left out, and with them the call of \<open>which\<close> that is
  only logged.
\<close>

section \<open>Definitions\<close>

datatype hook_phase = AfterCreate | BeforeRun | AfterRun | BeforeRemove

datatype hook_severity = Fatal | BestEffort

fun severity_of :: "hook_phase \<Rightarrow> hook_severity" where
  "severity_of AfterCreate = Fatal"
| "severity_of BeforeRun = Fatal"
| "severity_of AfterRun = BestEffort"
| "severity_of BeforeRemove = BestEffort"

fun hook_phase_str :: "hook_phase \<Rightarrow> string" where
  "hook_phase_str AfterCreate = ''after_create''"
| "hook_phase_str BeforeRun = ''before_run''"
| "hook_phase_str AfterRun = ''after_run''"
| "hook_phase_str BeforeRemove = ''before_remove''"

record hook_def =
  hd_name :: string
  hd_argv :: "string list"
  hd_timeout_seconds :: u64
  hd_env :: "(string \<times> string) list"

record hook_result =
  hr_hook_name :: string
  hr_phase :: hook_phase
  hr_exit_code :: "int option"
  hr_stdout :: string
  hr_stderr :: string
  hr_success :: bool

datatype hook_error = HookFailed string "int option" | HookTimedOut string u64 | HookConfig string

text \<open>\<open>Debug\<close> of the exit code is that of \<open>Option<i32>\<close>.\<close>

fun show_hook_error :: "hook_error \<Rightarrow> string" where
  "show_hook_error (HookFailed name code) =
     ''hook '' @ [CHR 0x27] @ name @ [CHR 0x27] @ '' failed with exit code ''
     @ (case code of None \<Rightarrow> ''None'' | Some n \<Rightarrow> ''Some('' @ (if n < 0 then ''-'' else []) @ nat_str (nat \<bar>n\<bar>) @ '')'')"
| "show_hook_error (HookTimedOut name secs) =
     ''hook '' @ [CHR 0x27] @ name @ [CHR 0x27] @ '' timed out after '' @ nat_str (unat secs) @ ''s''"
| "show_hook_error (HookConfig e) = ''hook config error: '' @ e"

definition default_hook_timeout :: u64 where "default_hook_timeout = 30"

definition hook_words :: "(string \<Rightarrow> string list option) \<Rightarrow> string \<Rightarrow> string list" where
  "hook_words shell_split cmd = (case shell_split cmd of Some ws \<Rightarrow> ws | None \<Rightarrow> split_whitespace cmd)"

definition hook_def_of :: "(string \<Rightarrow> string list option) \<Rightarrow> hook_phase \<Rightarrow> nat \<times> string \<Rightarrow> hook_def option" where
  "hook_def_of shell_split phase ic =
     (case ic of (i, cmd) \<Rightarrow>
        let argv = hook_words shell_split cmd in
        if argv = [] then None
        else Some \<lparr>hd_name = hook_phase_str phase @ ''-'' @ nat_str i, hd_argv = argv,
                   hd_timeout_seconds = default_hook_timeout, hd_env = []\<rparr>)"

definition parse_hook_defs :: "(string \<Rightarrow> string list option) \<Rightarrow> hook_phase \<Rightarrow> string list \<Rightarrow> hook_def list" where
  "parse_hook_defs shell_split phase cmds =
     List.map_filter (hook_def_of shell_split phase) (zip [0..<length cmds] cmds)"

section \<open>The check of a binary\<close>

text \<open>What the file system says of a path: whether it is a symbolic link (without following it), where
  a link points, and the path with all links resolved.\<close>

record hook_fs =
  hf_is_symlink :: "string \<Rightarrow> string + bool"
  hf_read_link :: "string \<Rightarrow> string + string"
  hf_canonicalize :: "string \<Rightarrow> string + string"

definition hook_config :: "string \<Rightarrow> string \<Rightarrow> string \<Rightarrow> hook_error" where
  "hook_config before argv0 e = HookConfig (before @ '' '' @ [CHR 0x27] @ argv0 @ [CHR 0x27] @ '': '' @ e)"

definition validate_hook_binary :: "hook_fs \<Rightarrow> string \<Rightarrow> string \<Rightarrow> hook_error + string" where
  "validate_hook_binary fs argv0 repo_path =
     (let binary_path = (if starts_with argv0 ''/'' then argv0 else path_join repo_path argv0) in
      case hf_is_symlink fs binary_path of
        Inl e \<Rightarrow> Err (hook_config ''cannot stat hook binary'' argv0 e)
      | Inr False \<Rightarrow> Ok binary_path
      | Inr True \<Rightarrow>
          (case hf_read_link fs binary_path of
             Inl e \<Rightarrow> Err (hook_config ''cannot read symlink'' argv0 e)
           | Inr target \<Rightarrow>
               let resolved = (if starts_with target ''/'' then target
                     else path_join (case path_parent binary_path of Some p \<Rightarrow> p | None \<Rightarrow> ''/'') target)
               in case hf_canonicalize fs resolved of
                    Inl e \<Rightarrow> Err (HookConfig (''cannot resolve symlink target: '' @ e))
                  | Inr canonical \<Rightarrow>
                      (case hf_canonicalize fs repo_path of
                         Inl e \<Rightarrow> Err (HookConfig (''cannot resolve repo root: '' @ e))
                       | Inr canonical_repo \<Rightarrow>
                           if path_starts_with canonical canonical_repo then Ok binary_path
                           else Err (HookConfig (''hook binary '' @ [CHR 0x27] @ argv0 @ [CHR 0x27]
                             @ '' is a symlink pointing outside the repo ('' @ canonical @ '')'')))))"

text \<open>\<open>Path::components\<close> keeps a leading dot.\<close>

definition component_count :: "string \<Rightarrow> nat" where
  "component_count p = length (path_components p) + (if p = ''.'' \<or> starts_with p ''./'' then 1 else 0)"

definition needs_validation :: "hook_def \<Rightarrow> bool" where
  "needs_validation h = (\<not> starts_with (hd (hd_argv h)) ''/'' \<and> 1 < component_count (hd (hd_argv h)))"

fun validate_all :: "hook_fs \<Rightarrow> string \<Rightarrow> hook_def list \<Rightarrow> hook_error + unit" where
  "validate_all fs dir [] = Ok ()"
| "validate_all fs dir (h # hs) =
     (if needs_validation h
      then case validate_hook_binary fs (hd (hd_argv h)) dir of Inl e \<Rightarrow> Err e | Inr _ \<Rightarrow> validate_all fs dir hs
      else validate_all fs dir hs)"

section \<open>One hook\<close>

definition blocked_hook_var :: "string \<Rightarrow> bool" where
  "blocked_hook_var k =
     (let upper = to_ascii_uppercase k in
      starts_with upper ''DYLD_'' \<or> starts_with upper ''LD_''
      \<or> upper \<in> set [''BASH_ENV'', ''ENV'', ''CDPATH'', ''NODE_OPTIONS'', ''NODE_EXTRA_CA_CERTS'', ''PERL5OPT'',
          ''PERL5LIB'', ''PYTHONSTARTUP'', ''PYTHONPATH'', ''RUBYOPT'', ''PATH'', ''HOME''])"

text \<open>The variables set for the child on top of those it inherits, later ones first.\<close>

definition hook_env :: "hook_def \<Rightarrow> hook_phase \<Rightarrow> string \<Rightarrow> string \<Rightarrow> string \<Rightarrow> (string \<times> string) list" where
  "hook_env h phase dir task_id br =
     rev (filter (\<lambda>(k, v). \<not> blocked_hook_var k) (hd_env h))
     @ [(''PNEVMA_HOOK_PHASE'', hook_phase_str phase), (''PNEVMA_BRANCH'', br),
        (''PNEVMA_TASK_ID'', task_id), (''PNEVMA_WORKTREE_PATH'', dir)]"

record hook_launch =
  hl_argv :: "string list"
  hl_dir :: string
  hl_env :: "(string \<times> string) list"
  hl_timeout :: u64

datatype child_end = ChildSpawnError string | ChildWaitError string | ChildTimedOut
  | ChildExited "int option" string string

text \<open>\<open>truncate_utf8_safe\<close>: up to the last character that starts within the limit.\<close>

definition truncate_utf8_safe :: "string \<Rightarrow> nat \<Rightarrow> string" where
  "truncate_utf8_safe s max_bytes =
     (if length s \<le> max_bytes then s
      else let starts = takeWhile (\<lambda>i. i \<le> max_bytes) (char_offsets 0 (utf8_chars s))
           in take (if starts = [] then 0 else last starts) s)"

definition MAX_HOOK_OUTPUT :: nat where "MAX_HOOK_OUTPUT = 4096"
definition truncated_suffix :: string where "truncated_suffix = ''...(truncated)''"

definition hook_text :: "string list \<Rightarrow> string \<Rightarrow> string" where
  "hook_text secrets bytes =
     (let s = fold (\<lambda>secret s. if secret = [] then s else str_replace secret ''***'' s) secrets (from_utf8_lossy bytes)
      in if MAX_HOOK_OUTPUT < length s then truncate_utf8_safe s MAX_HOOK_OUTPUT @ truncated_suffix else s)"

definition hook_result_of :: "hook_def \<Rightarrow> hook_phase \<Rightarrow> string list \<Rightarrow> child_end \<Rightarrow> hook_result" where
  "hook_result_of h phase secrets c =
     (let failed = (\<lambda>e. \<lparr>hr_hook_name = hd_name h, hr_phase = phase, hr_exit_code = None, hr_stdout = [],
                         hr_stderr = e, hr_success = False\<rparr>) in
      case c of
        ChildSpawnError e \<Rightarrow> failed (''spawn error: '' @ e)
      | ChildWaitError e \<Rightarrow> failed (''wait error: '' @ e)
      | ChildTimedOut \<Rightarrow> failed (''hook timed out after '' @ nat_str (unat (hd_timeout_seconds h)) @ ''s'')
      | ChildExited code out err \<Rightarrow>
          \<lparr>hr_hook_name = hd_name h, hr_phase = phase, hr_exit_code = code, hr_stdout = hook_text secrets out,
           hr_stderr = hook_text secrets err, hr_success = (code = Some 0)\<rparr>)"

definition run_single_hook ::
  "(hook_launch \<Rightarrow> 's \<Rightarrow> child_end \<times> 's) \<Rightarrow> hook_def \<Rightarrow> hook_phase \<Rightarrow> string \<Rightarrow> string \<Rightarrow> string \<Rightarrow> string list
     \<Rightarrow> 's \<Rightarrow> hook_result \<times> 's" where
  "run_single_hook child h phase dir task_id br secrets s =
     (case child \<lparr>hl_argv = hd_argv h, hl_dir = dir, hl_env = hook_env h phase dir task_id br,
                  hl_timeout = hd_timeout_seconds h\<rparr> s of
        (c, s1) \<Rightarrow> (hook_result_of h phase secrets c, s1))"

section \<open>The hooks of a phase\<close>

definition hook_failure :: "hook_def \<Rightarrow> hook_result \<Rightarrow> hook_error" where
  "hook_failure h r =
     (if hr_exit_code r = None \<and> str_contains (hr_stderr r) ''timed out''
      then HookTimedOut (hd_name h) (hd_timeout_seconds h) else HookFailed (hd_name h) (hr_exit_code r))"

fun execute_hooks ::
  "(hook_def \<Rightarrow> 's \<Rightarrow> hook_result \<times> 's) \<Rightarrow> hook_severity \<Rightarrow> hook_def list \<Rightarrow> 's \<Rightarrow> (hook_error + hook_result list) \<times> 's" where
  "execute_hooks step sev [] s = (Ok [], s)"
| "execute_hooks step sev (h # hs) s =
     (case step h s of (r, s1) \<Rightarrow>
        if \<not> hr_success r \<and> sev = Fatal then (Err (hook_failure h r), s1)
        else case execute_hooks step sev hs s1 of
               (Inl e, s2) \<Rightarrow> (Err e, s2) | (Inr rs, s2) \<Rightarrow> (Ok (r # rs), s2))"

definition run_hooks ::
  "hook_fs \<Rightarrow> (hook_launch \<Rightarrow> 's \<Rightarrow> child_end \<times> 's) \<Rightarrow> hook_def list \<Rightarrow> hook_phase \<Rightarrow> string \<Rightarrow> string \<Rightarrow> string
     \<Rightarrow> string list \<Rightarrow> 's \<Rightarrow> (hook_error + hook_result list) \<times> 's" where
  "run_hooks fs child hooks phase dir task_id br secrets s =
     (if hooks = [] then (Ok [], s)
      else case validate_all fs dir hooks of
        Inl e \<Rightarrow> (Err e, s)
      | Inr _ \<Rightarrow> execute_hooks (\<lambda>h. run_single_hook child h phase dir task_id br secrets) (severity_of phase) hooks s)"

section \<open>What a phase does\<close>

text \<open>The state before each hook of a sequence, and the hook that stops a fatal phase.\<close>

fun hook_states :: "(hook_def \<Rightarrow> 's \<Rightarrow> hook_result \<times> 's) \<Rightarrow> hook_def list \<Rightarrow> 's \<Rightarrow> 's list" where
  "hook_states step [] s = [s]"
| "hook_states step (h # hs) s = s # hook_states step hs (snd (step h s))"

fun hook_results :: "(hook_def \<Rightarrow> 's \<Rightarrow> hook_result \<times> 's) \<Rightarrow> hook_def list \<Rightarrow> 's \<Rightarrow> hook_result list" where
  "hook_results step [] s = []"
| "hook_results step (h # hs) s = fst (step h s) # hook_results step hs (snd (step h s))"

abbreviation hook_end :: "(hook_def \<Rightarrow> 's \<Rightarrow> hook_result \<times> 's) \<Rightarrow> hook_def list \<Rightarrow> 's \<Rightarrow> 's" where
  "hook_end step hs s \<equiv> last (hook_states step hs s)"

lemma hook_states_not_empty [simp]: "hook_states step hs s \<noteq> []"
  by (cases hs) auto

lemma execute_best_effort:
  "execute_hooks step BestEffort hs s = (Ok (hook_results step hs s), hook_end step hs s)"
  by (induction hs arbitrary: s) (auto split: prod.split)

lemma execute_fatal_Ok:
  assumes "list_all hr_success (hook_results step hs s)"
  shows "execute_hooks step Fatal hs s = (Ok (hook_results step hs s), hook_end step hs s)"
  using assms by (induction hs arbitrary: s) (auto split: prod.split)

lemma execute_fatal_stops:
  assumes "list_all hr_success (hook_results step before s)"
    and "\<not> hr_success (fst (step h (hook_end step before s)))"
  shows "execute_hooks step Fatal (before @ h # later) s
     = (Err (hook_failure h (fst (step h (hook_end step before s)))), hook_end step (before @ [h]) s)"
  using assms by (induction before arbitrary: s) (auto split: prod.split)

lemma hook_results_split:
  "list_all hr_success (hook_results step hs s)
   \<or> (\<exists>before h later. hs = before @ h # later \<and> list_all hr_success (hook_results step before s)
       \<and> \<not> hr_success (fst (step h (hook_end step before s))))"
proof (induction hs arbitrary: s)
  case (Cons a hs)
  show ?case
  proof (cases "hr_success (fst (step a s))")
    case True
    consider "list_all hr_success (hook_results step hs (snd (step a s)))"
      | before h later where "hs = before @ h # later" "list_all hr_success (hook_results step before (snd (step a s)))"
        "\<not> hr_success (fst (step h (hook_end step before (snd (step a s)))))"
      using Cons.IH by blast
    then show ?thesis
    proof cases
      case 1 with True show ?thesis by simp
    next
      case 2
      with True have "a # hs = (a # before) @ h # later" "list_all hr_success (hook_results step (a # before) s)"
        "\<not> hr_success (fst (step h (hook_end step (a # before) s)))" by simp_all
      then show ?thesis by blast
    qed
  next
    case False
    then have "a # hs = [] @ a # hs" "list_all hr_success (hook_results step [] s)"
      "\<not> hr_success (fst (step a (hook_end step [] s)))" by simp_all
    then show ?thesis by blast
  qed
qed simp

lemma run_hooks_validated:
  assumes "validate_all fs dir hooks = Ok ()"
  shows "run_hooks fs child hooks phase dir task_id br secrets s
    = execute_hooks (\<lambda>h. run_single_hook child h phase dir task_id br secrets) (severity_of phase) hooks s"
  using assms by (simp add: run_hooks_def)


section \<open>Output and environment\<close>

lemma char_offsets_bound: "i \<in> set (char_offsets k chs) \<Longrightarrow> i \<le> k + length (concat chs)"
  by (induction k chs rule: char_offsets.induct) fastforce+

lemma truncate_utf8_safe_bound: "length (truncate_utf8_safe s n) \<le> n"
proof (cases "length s \<le> n")
  case False
  let ?st = "takeWhile (\<lambda>i. i \<le> n) (char_offsets 0 (utf8_chars s))"
  have "?st \<noteq> [] \<Longrightarrow> last ?st \<le> n" using last_in_set[of ?st] set_takeWhileD by fastforce
  then show ?thesis using False by (auto simp: truncate_utf8_safe_def Let_def)
qed (simp add: truncate_utf8_safe_def)

lemma hook_text_bound: "length (hook_text secrets bytes) \<le> 4110"
  using truncate_utf8_safe_bound[of _ MAX_HOOK_OUTPUT]
  by (auto simp: hook_text_def Let_def MAX_HOOK_OUTPUT_def truncated_suffix_def intro: le_trans)

text \<open>The variables of a hook never replace one that changes how programs are loaded or found, and
  the hooks of a workflow document set only the four of the run.\<close>

lemma hook_env_safe: "(k, v) \<in> set (hook_env h phase dir task_id br) \<Longrightarrow> \<not> blocked_hook_var k"
  by (auto simp: hook_env_def blocked_hook_var_def to_ascii_uppercase_def ascii_upper_char_def starts_with_def)

lemma parsed_hooks:
  assumes "h \<in> set (parse_hook_defs shell_split phase cmds)"
  shows "hd_argv h \<noteq> []" "hd_env h = []" "hd_timeout_seconds h = default_hook_timeout"
  using assms by (auto simp: parse_hook_defs_def map_filter_def hook_def_of_def Let_def split: if_splits)

section \<open>Where the checks fall short\<close>

text \<open>A binary outside the worktree that is no link is accepted: only links are resolved.\<close>

lemma binary_outside_is_accepted:
  assumes "hf_is_symlink fs ''/work/../evil.sh'' = Ok False"
  shows "validate_hook_binary fs ''../evil.sh'' ''/work'' = Ok ''/work/../evil.sh''"
  using assms by (simp add: validate_hook_binary_def path_join_def starts_with_def ends_with_def)

text \<open>A hook of a phase of best effort whose binary is missing fails the phase and keeps the others
  from running.\<close>

lemma best_effort_phase_fails:
  assumes "hf_is_symlink fs ''/w/bin/gone'' = Err ''no such file''"
  shows "run_hooks fs child
     [\<lparr>hd_name = ''after_run-0'', hd_argv = [''make''], hd_timeout_seconds = 30, hd_env = []\<rparr>,
      \<lparr>hd_name = ''after_run-1'', hd_argv = [''bin/gone''], hd_timeout_seconds = 30, hd_env = []\<rparr>]
     AfterRun ''/w'' t b secrets s
    = (Err (hook_config ''cannot stat hook binary'' ''bin/gone'' ''no such file''), s)"
  using assms
  by (simp add: run_hooks_def needs_validation_def component_count_def path_components_def starts_with_def
      validate_hook_binary_def path_join_def ends_with_def)

text \<open>A child that was ended by a signal after it wrote that something timed out is reported as a
  hook that timed out.\<close>

text \<open>A child that was ended by a signal after it wrote that something timed out is reported as a
  hook that timed out.\<close>

lemma killed_hook_reported_as_timeout:
  "hook_failure h (hook_result_of h phase [] (ChildExited None [] ''net timed out''))
     = HookTimedOut (hd_name h) (hd_timeout_seconds h)"
proof -
  have "from_utf8_lossy ''net timed out'' = ''net timed out''"
    by (rule lossy_ascii) (simp add: byte_of_def)
  moreover have "str_contains ''net timed out'' ''timed out''" by code_simp
  ultimately show ?thesis
    by (simp add: hook_failure_def hook_result_of_def hook_text_def MAX_HOOK_OUTPUT_def)
qed

end
