(* ===== verification/Spec2Isabelle.thy ===== *)
theory Spec2Isabelle
  imports Task Orchestrator Agent_Pool Workflow_Def Git_Worktrees Workflow_Doc Tracker Reconciler Task_Store Coordinator
    Redaction Remote_Auth Session_Frames Session_Supervisor Remote_Api Remote_Ws Context_Compiler
    Osc Resilience Runner_Loop Task_Rows Task_Deps Workflow_Store Workflow_Loops Effects Acceptance Merge_Queue Error_Signatures Agent_Env Ssh_Profiles Remote_Helper Run_Finish Task_Edits Agent_Teams Project_Config Ssh_Services Control_Plane Git_Hooks
begin

text \<open>
  A model of pnevma, a workspace manager that gives tasks of a project to coding agents, each in a
  git worktree of its own, reviews what they did and merges it. The parts and how they meet:

  A task (a row of the project database, read as a contract) is created and edited by commands and
  becomes ready when its dependencies are done. The coordinator ticks: it polls the tracker for new
  tasks, claims ready tasks, asks the pool for a slot and starts a run, or keeps the task for a
  retry. A run gets a worktree with a lease, a compiled context and an environment, and follows the
  events of the agent until it completes, fails or stalls; its end decides the next status of the
  task by the acceptance checks and hooks, moves the workflow the task belongs to and records the
  run. A task in review is approved, queued and merged. Beside this stand the sessions (terminals
  behind a socket with frames), agent teams, the remote server (HTTP and WebSocket), ssh hosts with
  their helper, the control socket, the configuration files and the redaction of secrets, through
  which whatever is stored or sent passes.

  Theories, in the order of their imports, with the files under \<open>src/crates\<close>:

  \<^item> \<open>Prelude\<close>, \<open>Assoc\<close>, \<open>Utf8\<close>, \<open>Codec\<close>, \<open>Bin_Heap\<close>: results, words, times and strings; hash maps
    as association lists; lossy decoding; the locales of the string forms of enumerations and of
    priority queues, interpreted by \<open>Task\<close>, \<open>Error_Signatures\<close>, \<open>Orchestrator\<close>, \<open>Agent_Pool\<close>.
  \<^item> \<open>Task\<close> (\<open>pnevma-core/src/task.rs\<close>): contracts and the table of transitions; no task is done
    without review. \<open>Orchestrator\<close> (\<open>orchestration.rs\<close>) refines an abstract dispatcher that takes
    the oldest of the most urgent requests. \<open>Agent_Pool\<close> (\<open>pnevma-agents/src/pool.rs\<close>): slots.
  \<^item> \<open>Workflow_Def\<close> (\<open>workflow.rs\<close>), \<open>Workflow_Doc\<close> (\<open>workflow_contract.rs\<close>, \<open>workflow_store.rs\<close>):
    the validation agrees with acyclicity; documents and their reload.
  \<^item> \<open>Git_Worktrees\<close> (\<open>pnevma-git/src/service.rs\<close>, \<open>lease.rs\<close>), \<open>Tracker\<close> (\<open>pnevma-tracker\<close>),
    \<open>Reconciler\<close> (\<open>pnevma-agents/src/reconciler.rs\<close>).
  \<^item> \<open>Task_Store\<close>, \<open>Workflow_Store\<close> (\<open>pnevma-db/src/store\<close>): the statements as functions of
    tables. \<open>Task_Rows\<close>, \<open>Task_Deps\<close>, \<open>Workflow_Loops\<close>, \<open>Effects\<close>, \<open>Acceptance\<close>,
    \<open>Merge_Queue\<close>, \<open>Task_Edits\<close> (\<open>pnevma-commands/src/commands/mod.rs\<close> and \<open>tasks.rs\<close>): what the
    commands do with them. \<open>Coordinator\<close> (\<open>automation/coordinator.rs\<close>), \<open>Resilience\<close>, \<open>Osc\<close>,
    \<open>Runner_Loop\<close>, \<open>Run_Finish\<close> (\<open>resilience.rs\<close>, \<open>automation/runner.rs\<close>): dispatch and runs.
    \<open>Git_Hooks\<close> (\<open>pnevma-git/src/hooks.rs\<close>): the phases of hooks around a run.
  \<^item> \<open>Error_Signatures\<close> (\<open>error_signatures.rs\<close>), \<open>Agent_Env\<close> (\<open>pnevma-agents/src/env.rs\<close>),
    \<open>Agent_Teams\<close> (\<open>agent_teams.rs\<close>), \<open>Context_Files\<close> and \<open>Context_Compiler\<close>
    (\<open>pnevma-context/src\<close>), \<open>Redaction\<close> (\<open>pnevma-redaction/src/lib.rs\<close>).
  \<^item> \<open>Session_Frames\<close>, \<open>Session_Supervisor\<close> (\<open>pnevma-session\<close>, \<open>pnevma-session-protocol\<close>).
  \<^item> \<open>Remote_Auth\<close>, \<open>Remote_Api\<close>, \<open>Remote_Ws\<close> (\<open>pnevma-remote/src\<close>): tokens, routes, sockets.
  \<^item> \<open>Ssh_Profiles\<close>, \<open>Remote_Helper\<close>, \<open>Ssh_Services\<close> (\<open>pnevma-ssh/src\<close>): command lines and how ssh
    and the shell read them, the installation of the helper, keys, the control client.
  \<^item> \<open>Project_Config\<close> (\<open>config.rs\<close>, \<open>protected_actions.rs\<close>), \<open>Control_Plane\<close> (\<open>control.rs\<close> up to
    the router, \<open>command_registry.rs\<close>, \<open>auth_secret.rs\<close>).

  State and effects. A component with a state of its own has it as a record, and each method under
  its lock is one function of the state; histories are runs over lists of events, or the inductive
  step relation of the pool. What the commands change is one world (tables, files, programs started,
  events) that is passed through; an error stops an operation and keeps the changes made before it,
  since the code opens a transaction only where the model has one statement. Calls of ssh and git
  are traces of a parameter that answers each call with a result and its next state.

  Machine integers have their width where it can matter (word types; sums wrap or saturate as the
  code says); lengths, indices of lists and bytes are naturals, rows of SQLite integers. Texts are
  lists of bytes, as Rust's strings are, with UTF-8 where a cut can meet a character.

  Loops. All recursion terminates and is proved to do so: searches by the nodes not visited, scans
  and readers by the bytes that are left. Fuel occurs in draining a priority queue, where the number
  of items is enough because every pop removes one. A loop over the input of a peer (agent events,
  frames, lines) runs over the list of what arrives.

  Parameters stand for code that is not under \<open>src\<close>: the regex engine, the YAML, TOML and JSON
  libraries, SHA-256 and password hashes, random identifiers, the clock, git, ssh, the file system,
  child processes, the service behind the tracker. A hypothesis on one of them is documented
  behaviour (a match lies inside its input and starts and ends between characters, a file system
  reads back what was written, identifiers are fresh) and has an instance in a witness.

  What the lemmas show. Each theory proves an invariant of its state and that every operation keeps
  it, then what the operations do on every branch; the numbered theorems are the ones a reader of
  the code would ask for. Several theorems state what the code does where it is not what one would
  expect: slots taken by waiting are not given back, an agent run whose preparation fails counts
  as active, a loop can share a step and leave a task orphaned, a member of a team is told a wrong
  token after another left, a merge does not look at the verdict of the review, a request with a
  method that is unknown counts as an ordinary one, a character cut by the buffer of a socket is
  replaced.

  Not modelled. The router of the control plane and the commands behind the user interface that
  only list and summarise (project overview, analytics, usage of providers, the catalogue of
  harness files, workspace views) keep no state and call what is modelled. Agent adapters, session
  backends, the helper process on remote hosts, TLS and the Swift bridge are processes, system calls
  and foreign interfaces whose answers are inputs here. Between two operations of one component any
  interleaving is a list of operations; interleavings inside one operation, where a lock is taken
  twice, are modelled only where the theory says so. Times are the values of the clock at each
  step: sleeping and timeouts are events. Memory, threads and performance are out of scope.
\<close>

end
